(* ===== verification/Prelude.thy ===== *)
theory Prelude
  imports Complex_Main "HOL-Library.Word" "HOL-Library.AList"
begin

text \<open>
  Shared vocabulary of the development: JavaScript numbers and strings as the TypeScript sources
  use them, results of code that may throw, and the generic lemmas on lists, sums and association
  lists that the component theories share.

  A JavaScript \<^verbatim>\<open>number\<close> is a \<open>jsnum\<close>: NaN, an infinity or a finite value.  Finite doubles are
  rationals, so comparisons, \<^verbatim>\<open>Number.isInteger\<close> and \<^verbatim>\<open>Number.isSafeInteger\<close> are exact; addition is
  the exact one (no rounding: the sources add counts that are far below \<open>2 ^ 53\<close>).
  A JavaScript string is a list of 8-bit code units (the sources handle hexadecimal digits,
  identifiers and ASCII literals); \<^verbatim>\<open>''''\<close> is the falsy empty string.
\<close>

named_theorems js_simps "definitions of the JavaScript primitives"
named_theorems err_simps "rules for results of code that may throw"

type_synonym byte = "8 word"

subsection \<open>Results\<close>

text \<open>Code that throws returns \<open>Inl\<close> of the error, code that returns a value \<open>Inr\<close> of it.\<close>

definition res_bind :: "'e + 'a \<Rightarrow> ('a \<Rightarrow> 'e + 'b) \<Rightarrow> 'e + 'b" where
  "res_bind m f = (case m of Inl e \<Rightarrow> Inl e | Inr a \<Rightarrow> f a)"

definition map_err :: "('e \<Rightarrow> 'f) \<Rightarrow> 'e + 'a \<Rightarrow> 'f + 'a" where
  "map_err g m = (case m of Inl e \<Rightarrow> Inl (g e) | Inr a \<Rightarrow> Inr a)"

lemma res_bind_simps [simp]:
  "res_bind (Inl e) f = Inl e" "res_bind (Inr a) f = f a"
  by (simp_all add: res_bind_def)

lemma map_err_simps [simp]:
  "map_err g (Inl e) = Inl (g e)" "map_err g (Inr a) = Inr a"
  by (simp_all add: map_err_def)

lemma res_bind_eq_Inr [err_simps]: "res_bind m f = Inr b \<longleftrightarrow> (\<exists>a. m = Inr a \<and> f a = Inr b)"
  by (cases m) auto

lemma map_err_eq_Inr [err_simps]: "map_err g m = Inr b \<longleftrightarrow> m = Inr b"
  by (cases m) auto

lemma map_err_cong [fundef_cong]: "m = m' \<Longrightarrow> (\<And>e. m' = Inl e \<Longrightarrow> g e = g' e) \<Longrightarrow> map_err g m = map_err g' m'"
  by (cases m') auto

lemma res_bind_cong [fundef_cong]:
  "m = m' \<Longrightarrow> (\<And>a. m' = Inr a \<Longrightarrow> f a = f' a) \<Longrightarrow> res_bind m f = res_bind m' f'"
  by (cases m') auto

text \<open>Mapping an array with a function that may throw stops at the first exception.\<close>

fun res_map :: "('a \<Rightarrow> 'e + 'b) \<Rightarrow> 'a list \<Rightarrow> 'e + 'b list" where
  "res_map f [] = Inr []"
| "res_map f (x # xs) = res_bind (f x) (\<lambda>y. res_bind (res_map f xs) (\<lambda>ys. Inr (y # ys)))"

lemma res_map_eq_Inr [err_simps]: "res_map f xs = Inr ys \<longleftrightarrow> list_all2 (\<lambda>x y. f x = Inr y) xs ys"
  by (induction xs arbitrary: ys) (auto simp: res_bind_eq_Inr list_all2_Cons1)

subsection \<open>Numbers\<close>

datatype jsnum = NaN | Infty bool | Num rat

definition js_int :: "int \<Rightarrow> jsnum" where
  "js_int i = Num (of_int i)"

fun isInteger :: "jsnum \<Rightarrow> bool" where
  "isInteger (Num q) = (of_int \<lfloor>q\<rfloor> = q)"
| "isInteger _ = False"

definition MAX_SAFE_INTEGER :: int where
  "MAX_SAFE_INTEGER = 9007199254740991"

fun isSafeInteger :: "jsnum \<Rightarrow> bool" where
  "isSafeInteger (Num q) = (of_int \<lfloor>q\<rfloor> = q \<and> \<bar>\<lfloor>q\<rfloor>\<bar> \<le> MAX_SAFE_INTEGER)"
| "isSafeInteger _ = False"

fun isFinite :: "jsnum \<Rightarrow> bool" where
  "isFinite (Num q) = True"
| "isFinite _ = False"

text \<open>\<open>Infty True\<close> is \<open>+Infinity\<close>. Every comparison with NaN is false, \<^verbatim>\<open>NaN === NaN\<close> too.\<close>

fun num_lt :: "jsnum \<Rightarrow> jsnum \<Rightarrow> bool" where
  "num_lt (Num p) (Num q) = (p < q)"
| "num_lt (Infty s) (Num q) = (\<not> s)"
| "num_lt (Num p) (Infty s) = s"
| "num_lt (Infty r) (Infty s) = (\<not> r \<and> s)"
| "num_lt _ _ = False"

fun num_eq :: "jsnum \<Rightarrow> jsnum \<Rightarrow> bool" where
  "num_eq (Num p) (Num q) = (p = q)"
| "num_eq (Infty r) (Infty s) = (r = s)"
| "num_eq _ _ = False"

definition num_le :: "jsnum \<Rightarrow> jsnum \<Rightarrow> bool" where
  "num_le x y = (num_lt x y \<or> num_eq x y)"

fun num_add :: "jsnum \<Rightarrow> jsnum \<Rightarrow> jsnum" where
  "num_add (Num p) (Num q) = Num (p + q)"
| "num_add (Infty r) (Num q) = Infty r"
| "num_add (Num p) (Infty s) = Infty s"
| "num_add (Infty r) (Infty s) = (if r = s then Infty r else NaN)"
| "num_add _ _ = NaN"

text \<open>The integer a safe-integer value stands for.\<close>

fun to_int :: "jsnum \<Rightarrow> int" where
  "to_int (Num q) = \<lfloor>q\<rfloor>"
| "to_int _ = 0"

lemma isInteger_js_int [simp]: "isInteger (js_int i)"
  by (simp add: js_int_def)

lemma isSafeInteger_js_int [simp]: "isSafeInteger (js_int i) \<longleftrightarrow> \<bar>i\<bar> \<le> MAX_SAFE_INTEGER"
  by (simp add: js_int_def)

lemma to_int_js_int [simp]: "to_int (js_int i) = i"
  by (simp add: js_int_def)

lemma num_lt_js_int [simp]: "num_lt (js_int i) (js_int j) \<longleftrightarrow> i < j"
  by (simp add: js_int_def)

lemma num_eq_js_int [simp]: "num_eq (js_int i) (js_int j) \<longleftrightarrow> i = j"
  by (simp add: js_int_def)

lemma num_le_js_int [simp]: "num_le (js_int i) (js_int j) \<longleftrightarrow> i \<le> j"
  by (auto simp: num_le_def)

lemma num_add_js_int [simp]: "num_add (js_int i) (js_int j) = js_int (i + j)"
  by (simp add: js_int_def)

lemma js_int_inject [simp]: "js_int i = js_int j \<longleftrightarrow> i = j"
  by (simp add: js_int_def)

lemma isInteger_iff: "isInteger x \<longleftrightarrow> (\<exists>i. x = js_int i)"
proof (cases x)
  case (Num q)
  then show ?thesis
    by (auto simp: js_int_def intro: exI [of _ "\<lfloor>q\<rfloor>"] dest: sym)
qed (auto simp: js_int_def)

lemma isInteger_cases:
  assumes "isInteger x"
  obtains i where "x = js_int i"
  using assms by (auto simp: isInteger_iff)

lemma isSafeInteger_iff: "isSafeInteger x \<longleftrightarrow> (\<exists>i. x = js_int i \<and> \<bar>i\<bar> \<le> MAX_SAFE_INTEGER)"
proof (cases x)
  case (Num q)
  then show ?thesis
    by (auto simp: js_int_def intro: exI [of _ "\<lfloor>q\<rfloor>"] dest: sym)
qed (auto simp: js_int_def)

lemma isSafeInteger_isInteger: "isSafeInteger x \<Longrightarrow> isInteger x"
  by (auto simp: isSafeInteger_iff)

lemma num_eq_sym: "num_eq x y = num_eq y x"
  by (cases x; cases y) auto

lemma num_eqD: "num_eq x y \<Longrightarrow> x = y"
  by (cases x; cases y) auto

subsection \<open>Strings\<close>

text \<open>\<^verbatim>\<open>toLowerCase\<close> on 8-bit code units: the ASCII and the Latin-1 upper-case letters.\<close>

definition lower_code :: "nat \<Rightarrow> nat" where
  "lower_code n = (if 65 \<le> n \<and> n \<le> 90 \<or> 192 \<le> n \<and> n \<le> 222 \<and> n \<noteq> 215 then n + 32 else n)"

definition lower_char :: "char \<Rightarrow> char" where
  "lower_char c = char_of (lower_code (of_char c))"

definition toLowerCase :: "string \<Rightarrow> string" where
  "toLowerCase s = map lower_char s"

definition startsWith :: "string \<Rightarrow> string \<Rightarrow> bool" where
  "startsWith s p = (take (length p) s = p)"

definition is_digit_char :: "char \<Rightarrow> bool" where
  "is_digit_char c = (48 \<le> (of_char c :: nat) \<and> (of_char c :: nat) \<le> 57)"

definition is_lower_hex :: "char \<Rightarrow> bool" where
  "is_lower_hex c = (is_digit_char c \<or> 97 \<le> (of_char c :: nat) \<and> (of_char c :: nat) \<le> 102)"

definition is_upper_hex :: "char \<Rightarrow> bool" where
  "is_upper_hex c = (65 \<le> (of_char c :: nat) \<and> (of_char c :: nat) \<le> 70)"

definition is_hex_char :: "char \<Rightarrow> bool" where
  "is_hex_char c = (is_lower_hex c \<or> is_upper_hex c)"

text \<open>
  \<^verbatim>\<open>trim\<close> removes the white space and line terminators at both ends; of the 8-bit code units these
  are tab to carriage return, the space and the no-break space.
\<close>

definition is_js_space :: "char \<Rightarrow> bool" where
  "is_js_space c = (let n = (of_char c :: nat) in 9 \<le> n \<and> n \<le> 13 \<or> n = 32 \<or> n = 160)"

definition js_trim :: "string \<Rightarrow> string" where
  "js_trim s = rev (dropWhile is_js_space (rev (dropWhile is_js_space s)))"

lemma lower_code_lt: "n < 256 \<Longrightarrow> lower_code n < 256"
  by (auto simp: lower_code_def)

lemma lower_code_idem: "lower_code (lower_code n) = lower_code n"
  by (auto simp: lower_code_def)

lemma of_char_lower_char [simp]: "(of_char (lower_char c) :: nat) = lower_code (of_char c)"
proof -
  have "(of_char c :: nat) < 256" by (rule nat_of_char_less_256)
  then have "lower_code (of_char c) < 256" by (rule lower_code_lt)
  then show ?thesis by (simp add: lower_char_def of_char_of)
qed

lemma lower_char_idem [simp]: "lower_char (lower_char c) = lower_char c"
  by (simp add: lower_char_def [of "lower_char c"] lower_code_idem)
     (simp add: lower_char_def)

lemma toLowerCase_idem [simp]: "toLowerCase (toLowerCase s) = toLowerCase s"
  by (simp add: toLowerCase_def)

lemma length_toLowerCase [simp]: "length (toLowerCase s) = length s"
  by (simp add: toLowerCase_def)

lemma toLowerCase_eq_Nil [simp]: "toLowerCase s = [] \<longleftrightarrow> s = []"
  by (simp add: toLowerCase_def)

lemma lower_char_lower_hex: "is_lower_hex c \<Longrightarrow> lower_char c = c"
proof -
  assume "is_lower_hex c"
  then have "lower_code (of_char c) = of_char c"
    by (auto simp: is_lower_hex_def is_digit_char_def lower_code_def)
  then show ?thesis by (simp add: lower_char_def)
qed

lemma toLowerCase_lower_hex: "list_all is_lower_hex s \<Longrightarrow> toLowerCase s = s"
  by (induction s) (auto simp: toLowerCase_def lower_char_lower_hex)

lemma is_lower_hex_hex: "is_lower_hex c \<Longrightarrow> is_hex_char c"
  by (simp add: is_hex_char_def)

lemma is_lower_hex_lower_char [simp]: "is_lower_hex (lower_char c) \<longleftrightarrow> is_hex_char c"
  by (auto simp: is_lower_hex_def is_hex_char_def is_upper_hex_def is_digit_char_def lower_code_def
      split: if_splits)

lemma list_all_lower_hex_toLowerCase [simp]:
  "list_all is_lower_hex (toLowerCase s) \<longleftrightarrow> list_all is_hex_char s"
  by (simp add: toLowerCase_def list_all_iff)

lemma startsWith_x_not_hex:
  assumes "list_all is_hex_char s"
  shows "\<not> startsWith s ''0x''" "\<not> startsWith s ''0X''"
proof -
  have x: "\<not> is_hex_char CHR ''x''" "\<not> is_hex_char CHR ''X''"
    by (simp_all add: is_hex_char_def is_lower_hex_def is_upper_hex_def is_digit_char_def)
  have "\<not> startsWith s (CHR ''0'' # [c])" if "\<not> is_hex_char c" for c
  proof (cases s)
    case (Cons a s')
    then show ?thesis
      using assms that by (cases s') (auto simp: startsWith_def)
  qed (simp add: startsWith_def)
  then show "\<not> startsWith s ''0x''" "\<not> startsWith s ''0X''"
    using x by auto
qed

subsection \<open>Lists\<close>

lemma nth_drop_take:
  "i < n \<Longrightarrow> start + n \<le> length xs \<Longrightarrow> take n (drop start xs) ! i = xs ! (start + i)"
  by simp

lemma map_of_AList_update [simp]: "map_of (AList.update k v al) = (map_of al)(k \<mapsto> v)"
  by (rule update_conv')

lemma concat_eq_split:
  "length a = length c \<Longrightarrow> a @ b = c @ d \<Longrightarrow> a = c \<and> b = d"
  by simp

lemma concat_eq_split_right:
  "length b = length d \<Longrightarrow> a @ b = c @ d \<Longrightarrow> a = c \<and> b = d"
  by simp

subsection \<open>Runs\<close>

text \<open>
  A component with state is a step function or relation; a run is a sequence of labelled steps.  The
  locale is the interface between a component and its invariant: one step keeps it, so every run does.
\<close>

inductive runs :: "('s \<Rightarrow> 'l \<Rightarrow> 's \<Rightarrow> bool) \<Rightarrow> 's \<Rightarrow> 'l list \<Rightarrow> 's \<Rightarrow> bool" for step where
  runs_Nil [intro]: "runs step s [] s"
| runs_Cons [intro]: "step s l s' \<Longrightarrow> runs step s' ls s'' \<Longrightarrow> runs step s (l # ls) s''"

inductive_cases runs_NilE [elim!]: "runs step s [] s'"
inductive_cases runs_ConsE [elim!]: "runs step s (l # ls) s'"

locale invariant_system =
  fixes init :: "'s \<Rightarrow> bool" and step :: "'s \<Rightarrow> 'l \<Rightarrow> 's \<Rightarrow> bool" and inv :: "'s \<Rightarrow> bool"
  assumes init_inv: "init s \<Longrightarrow> inv s"
    and step_inv: "inv s \<Longrightarrow> step s l s' \<Longrightarrow> inv s'"
begin

lemma runs_inv: "runs step s ls s' \<Longrightarrow> inv s \<Longrightarrow> inv s'"
  by (induction rule: runs.induct) (auto dest: step_inv)

lemma reachable_inv: "init s \<Longrightarrow> runs step s ls s' \<Longrightarrow> inv s'"
  by (auto intro: runs_inv init_inv)

end

text \<open>A relation between states that every step keeps (a history property) holds along runs.\<close>

locale monotone_system =
  fixes step :: "'s \<Rightarrow> 'l \<Rightarrow> 's \<Rightarrow> bool" and le :: "'s \<Rightarrow> 's \<Rightarrow> bool"
  assumes le_refl: "le s s"
    and le_trans: "le a b \<Longrightarrow> le b c \<Longrightarrow> le a c"
    and step_le: "step s l s' \<Longrightarrow> le s s'"
begin

lemma runs_le: "runs step s ls s' \<Longrightarrow> le s s'"
  by (induction rule: runs.induct) (auto intro: le_refl dest: step_le le_trans)

end

end
