(* ===== verification/CryptoPrimitives.thy ===== *)
theory CryptoPrimitives
  imports Prelude
begin

text \<open>
  The package \<^verbatim>\<open>packages/crypto-primitives\<close>: hexadecimal strings and SHA-256 over chunks.

  The package calls the third-party library \<^verbatim>\<open>@noble/hashes\<close>.  What it uses of it is the record
  \<open>noble\<close>, a parameter of every definition that hashes or decodes; \<open>noble_ok\<close> states the documented
  behaviour the sources rely on: SHA-256 yields 32 bytes, \<^verbatim>\<open>bytesToHex\<close> prints two lower-case digits
  per byte, \<^verbatim>\<open>hexToBytes\<close> accepts exactly the even-length strings of hexadecimal digits (of either
  case), inverts \<^verbatim>\<open>bytesToHex\<close> and throws a RangeError otherwise.  Nothing is assumed about collisions.
\<close>

record noble =
  sha256 :: "byte list \<Rightarrow> byte list"
  bytesToHex :: "byte list \<Rightarrow> string"
  hexToBytes :: "string \<Rightarrow> byte list option"
  utf8ToBytes :: "string \<Rightarrow> byte list"

definition noble_ok :: "noble \<Rightarrow> bool" where
  "noble_ok N \<longleftrightarrow>
     (\<forall>bs. length (sha256 N bs) = 32) \<and>
     (\<forall>bs. length (bytesToHex N bs) = 2 * length bs) \<and>
     (\<forall>bs. list_all is_lower_hex (bytesToHex N bs)) \<and>
     (\<forall>bs. hexToBytes N (bytesToHex N bs) = Some bs) \<and>
     (\<forall>s. hexToBytes N s \<noteq> None \<longleftrightarrow> even (length s) \<and> list_all is_hex_char s) \<and>
     (\<forall>s bs. hexToBytes N s = Some bs \<longrightarrow> bytesToHex N bs = toLowerCase s)"

lemma noble_okD:
  assumes "noble_ok N"
  shows length_sha256: "length (sha256 N bs) = 32"
    and length_bytesToHex: "length (bytesToHex N bs) = 2 * length bs"
    and lower_bytesToHex: "list_all is_lower_hex (bytesToHex N bs)"
    and hexToBytes_bytesToHex: "hexToBytes N (bytesToHex N bs) = Some bs"
    and hexToBytes_defined: "hexToBytes N s \<noteq> None \<longleftrightarrow> even (length s) \<and> list_all is_hex_char s"
    and bytesToHex_hexToBytes: "hexToBytes N s = Some bs \<Longrightarrow> bytesToHex N bs = toLowerCase s"
  using assms by (auto simp: noble_ok_def)

subsection \<open>hex.ts\<close>

definition normalizeHexString :: "string \<Rightarrow> string" where
  "normalizeHexString hex =
     (if hex = [] then []
      else let withoutPrefix = (if startsWith hex ''0x'' \<or> startsWith hex ''0X'' then drop 2 hex else hex)
           in toLowerCase withoutPrefix)"

definition addHexPrefix :: "string \<Rightarrow> string" where
  "addHexPrefix hex = ''0x'' @ normalizeHexString hex"

definition isValidHexString :: "string \<Rightarrow> nat option \<Rightarrow> bool" where
  "isValidHexString hex expectedLength =
     (if hex = [] then False
      else let withoutPrefix = normalizeHexString hex
           in if \<not> list_all is_lower_hex withoutPrefix then False
              else (case expectedLength of None \<Rightarrow> True | Some n \<Rightarrow> length withoutPrefix = n * 2))"

datatype hex_error = HexEmpty | HexOddLength | HexInvalid | HexRangeError

definition hexToBytesStrict :: "noble \<Rightarrow> string \<Rightarrow> hex_error + byte list" where
  "hexToBytesStrict N hex =
     (let normalized = normalizeHexString hex
      in if normalized = [] then Inl HexEmpty
         else (case hexToBytes N normalized of
                 Some bs \<Rightarrow> Inr bs
               | None \<Rightarrow> if length normalized mod 2 \<noteq> 0 then Inl HexOddLength
                         else if \<not> isValidHexString normalized None then Inl HexInvalid
                         else Inl HexRangeError))"

subsection \<open>sha256.ts\<close>

definition sha256Hex :: "noble \<Rightarrow> byte list list \<Rightarrow> string" where
  "sha256Hex N chunks = bytesToHex N (sha256 N (concat chunks))"

definition VOTE_COMMITMENT_DOMAIN_TAG :: string where
  "VOTE_COMMITMENT_DOMAIN_TAG = ''stark-ballot:commit|v1.0''"

subsection \<open>Canonical strings\<close>

text \<open>A canonical string is what \<^verbatim>\<open>bytesToHex\<close> prints: it normalises to itself.\<close>

definition canonical_hex :: "string \<Rightarrow> bool" where
  "canonical_hex s = list_all is_lower_hex s"

lemma normalizeHexString_Nil [simp]: "normalizeHexString [] = []"
  by (simp add: normalizeHexString_def)

lemma normalizeHexString_hex:
  assumes "list_all is_hex_char s"
  shows "normalizeHexString s = toLowerCase s"
  using startsWith_x_not_hex [OF assms]
  by (auto simp: normalizeHexString_def toLowerCase_def)

lemma normalizeHexString_canonical [simp]: "canonical_hex s \<Longrightarrow> normalizeHexString s = s"
proof -
  assume "canonical_hex s"
  then have "list_all is_lower_hex s" by (simp add: canonical_hex_def)
  moreover from this have "list_all is_hex_char s"
    by (auto simp: list_all_iff is_lower_hex_hex)
  ultimately show ?thesis
    by (simp add: normalizeHexString_hex toLowerCase_lower_hex)
qed

lemma isValidHexString_canonical:
  "isValidHexString s n \<Longrightarrow> canonical_hex (normalizeHexString s)"
  by (auto simp: isValidHexString_def canonical_hex_def Let_def split: if_splits)

lemma isValidHexString_length:
  "isValidHexString s (Some n) \<Longrightarrow> length (normalizeHexString s) = 2 * n"
  by (auto simp: isValidHexString_def Let_def split: if_splits)

lemma canonical_bytesToHex [simp]: "noble_ok N \<Longrightarrow> canonical_hex (bytesToHex N bs)"
  by (simp add: canonical_hex_def lower_bytesToHex)

lemma bytesToHex_inj [simp]:
  assumes "noble_ok N"
  shows "bytesToHex N a = bytesToHex N b \<longleftrightarrow> a = b"
  using hexToBytes_bytesToHex [OF assms] by (metis option.inject)

lemma bytesToHex_Nil_iff: "noble_ok N \<Longrightarrow> bytesToHex N bs = [] \<longleftrightarrow> bs = []"
  by (metis length_0_conv length_bytesToHex mult_eq_0_iff numeral_eq_iff zero_neq_numeral)

lemma hexToBytesStrict_bytesToHex [simp]:
  assumes "noble_ok N" "bs \<noteq> []"
  shows "hexToBytesStrict N (bytesToHex N bs) = Inr bs"
  using assms by (simp add: hexToBytesStrict_def bytesToHex_Nil_iff hexToBytes_bytesToHex)

text \<open>
  Strict decoding succeeds exactly on a non-empty even number of hexadecimal digits after the
  optional prefix, and then it is the inverse of printing up to the normal form.
\<close>

lemma hexToBytesStrict_Inr:
  assumes "noble_ok N" "hexToBytesStrict N s = Inr bs"
  shows "bytesToHex N bs = normalizeHexString s" "canonical_hex (normalizeHexString s)" "bs \<noteq> []"
    "length (normalizeHexString s) = 2 * length bs"
proof -
  have nn: "normalizeHexString s \<noteq> []" and d: "hexToBytes N (normalizeHexString s) = Some bs"
    using assms(2) by (auto simp: hexToBytesStrict_def Let_def split: if_splits option.splits)
  have low: "toLowerCase (normalizeHexString s) = normalizeHexString s"
    by (simp add: normalizeHexString_def Let_def)
  show b: "bytesToHex N bs = normalizeHexString s"
    using bytesToHex_hexToBytes [OF assms(1) d] low by simp
  show "canonical_hex (normalizeHexString s)"
    using assms(1) by (simp flip: b)
  show "bs \<noteq> []"
    using b nn assms(1) bytesToHex_Nil_iff by metis
  show "length (normalizeHexString s) = 2 * length bs"
    using assms(1) by (simp flip: b add: length_bytesToHex)
qed

lemma hexToBytesStrict_valid:
  assumes "noble_ok N" "isValidHexString s (Some n)" "0 < n"
  obtains bs where "hexToBytesStrict N s = Inr bs" "length bs = n"
proof -
  let ?t = "normalizeHexString s"
  have len: "length ?t = 2 * n" using assms(2) by (rule isValidHexString_length)
  have can: "canonical_hex ?t" using assms(2) by (rule isValidHexString_canonical)
  then have "list_all is_hex_char ?t"
    by (auto simp: canonical_hex_def list_all_iff is_lower_hex_hex)
  with len have "hexToBytes N ?t \<noteq> None"
    using hexToBytes_defined [OF assms(1), of ?t] by auto
  then obtain bs where d: "hexToBytes N ?t = Some bs" by auto
  have "?t \<noteq> []" using len assms(3) by auto
  with d have r: "hexToBytesStrict N s = Inr bs" by (simp add: hexToBytesStrict_def)
  moreover have "length bs = n"
    using hexToBytesStrict_Inr(4) [OF assms(1) r] len by simp
  ultimately show thesis by (rule that)
qed

lemma hexToBytesStrict_normalize [simp]:
  assumes "canonical_hex (normalizeHexString s)"
  shows "hexToBytesStrict N (normalizeHexString s) = hexToBytesStrict N s"
  using assms by (simp add: hexToBytesStrict_def)

lemma canonical_eq_bytes:
  assumes "noble_ok N" "hexToBytesStrict N s = Inr bs" "canonical_hex s"
  shows "s = bytesToHex N bs"
  using hexToBytesStrict_Inr(1) [OF assms(1,2)] assms(3) by simp

subsection \<open>Collisions\<close>

text \<open>Two different byte strings, one of each list, with the same hash.\<close>

definition collides :: "noble \<Rightarrow> byte list list \<Rightarrow> byte list list \<Rightarrow> bool" where
  "collides N xs ys = (\<exists>x \<in> set xs. \<exists>y \<in> set ys. x \<noteq> y \<and> sha256 N x = sha256 N y)"

lemma collides_mono: "collides N xs ys \<Longrightarrow> set xs \<subseteq> set xs' \<Longrightarrow> set ys \<subseteq> set ys' \<Longrightarrow> collides N xs' ys'"
  by (fastforce simp: collides_def)

lemma collidesI: "x \<in> set xs \<Longrightarrow> y \<in> set ys \<Longrightarrow> sha256 N x = sha256 N y \<Longrightarrow> x = y \<or> collides N xs ys"
  by (auto simp: collides_def)

subsection \<open>A concrete library\<close>

text \<open>
  A library that satisfies \<open>noble_ok\<close>, for evaluating the model on concrete inputs: the real
  hexadecimal codec, and in place of SHA-256 the first 32 bytes of the reversed, padded input.
\<close>

definition hex_digit :: "nat \<Rightarrow> char" where
  "hex_digit n = char_of (if n < 10 then 48 + n else 87 + n)"

definition hex_value :: "char \<Rightarrow> nat" where
  "hex_value c = (let n = of_char (lower_char c) in if n < 58 then n - 48 else n - 87)"

fun demo_bytesToHex :: "byte list \<Rightarrow> string" where
  "demo_bytesToHex [] = []"
| "demo_bytesToHex (b # bs) = hex_digit (unat b div 16) # hex_digit (unat b mod 16) # demo_bytesToHex bs"

fun demo_hexToBytes :: "string \<Rightarrow> byte list option" where
  "demo_hexToBytes [] = Some []"
| "demo_hexToBytes [c] = None"
| "demo_hexToBytes (c # d # s) =
     (if is_hex_char c \<and> is_hex_char d
      then map_option ((#) (of_nat (16 * hex_value c + hex_value d))) (demo_hexToBytes s) else None)"

definition demo_sha256 :: "byte list \<Rightarrow> byte list" where
  "demo_sha256 bs = take 32 (rev bs @ replicate 32 0)"

definition demo_noble :: noble where
  "demo_noble = \<lparr>sha256 = demo_sha256, bytesToHex = demo_bytesToHex, hexToBytes = demo_hexToBytes,
     utf8ToBytes = map (\<lambda>c. of_nat (of_char c))\<rparr>"

lemma of_char_hex_digit: "n < 16 \<Longrightarrow> (of_char (hex_digit n) :: nat) = (if n < 10 then 48 + n else 87 + n)"
  by (simp add: hex_digit_def of_char_of)

lemma is_lower_hex_digit: "n < 16 \<Longrightarrow> is_lower_hex (hex_digit n)"
  by (auto simp: is_lower_hex_def is_digit_char_def of_char_hex_digit)

lemma hex_value_digit: "n < 16 \<Longrightarrow> hex_value (hex_digit n) = n"
  by (simp add: hex_value_def of_char_hex_digit lower_code_def)

lemma hex_digit_value: "is_hex_char c \<Longrightarrow> hex_value c < 16 \<and> hex_digit (hex_value c) = lower_char c"
  by (auto simp: hex_value_def hex_digit_def lower_char_def [of c] is_hex_char_def is_lower_hex_def
      is_upper_hex_def is_digit_char_def lower_code_def)

lemma unat_byte_lt: "unat (b :: byte) < 256"
  using unsigned_less [of b, where ?'a = nat] by simp

lemma demo_hexToBytes_bytesToHex: "demo_hexToBytes (demo_bytesToHex bs) = Some bs"
proof (induction bs)
  case (Cons b bs)
  have "unat b div 16 < 16" using unat_byte_lt [of b] by simp
  moreover have "(of_nat (16 * (unat b div 16) + unat b mod 16) :: byte) = b" by simp
  ultimately show ?case
    using Cons by (simp add: is_lower_hex_digit is_lower_hex_hex hex_value_digit)
qed simp

lemma demo_hexToBytes_defined:
  "demo_hexToBytes s \<noteq> None \<longleftrightarrow> even (length s) \<and> list_all is_hex_char s"
  by (induction s rule: demo_hexToBytes.induct) auto

lemma demo_bytesToHex_hexToBytes: "demo_hexToBytes s = Some bs \<Longrightarrow> demo_bytesToHex bs = toLowerCase s"
proof (induction s arbitrary: bs rule: demo_hexToBytes.induct)
  case (3 c d s)
  from "3.prems" obtain bs' where h: "is_hex_char c" "is_hex_char d" and r: "demo_hexToBytes s = Some bs'"
    and bs: "bs = of_nat (16 * hex_value c + hex_value d) # bs'"
    by (auto split: if_splits)
  have v: "hex_value c < 16" "hex_value d < 16" "hex_digit (hex_value c) = lower_char c"
    "hex_digit (hex_value d) = lower_char d"
    using h hex_digit_value by blast+
  have "unat (of_nat (16 * hex_value c + hex_value d) :: byte) = 16 * hex_value c + hex_value d"
    unfolding unat_of_nat using v by (intro mod_less) simp
  with v have d: "unat (of_nat (16 * hex_value c + hex_value d) :: byte) div 16 = hex_value c"
    "unat (of_nat (16 * hex_value c + hex_value d) :: byte) mod 16 = hex_value d"
    by simp_all
  show ?case
    unfolding bs demo_bytesToHex.simps d using "3.IH" [OF _ r] h v
    by (simp add: toLowerCase_def)
qed (auto simp: toLowerCase_def)

lemma demo_noble_ok: "noble_ok demo_noble"
proof -
  have "length (demo_bytesToHex bs) = 2 * length bs" for bs
    by (induction bs) auto
  moreover have "list_all is_lower_hex (demo_bytesToHex bs)" for bs
  proof (induction bs)
    case (Cons b bs)
    then show ?case using unat_byte_lt [of b] by (simp add: is_lower_hex_digit)
  qed simp
  ultimately show ?thesis
    using demo_hexToBytes_defined
    by (auto simp: noble_ok_def demo_noble_def demo_sha256_def demo_hexToBytes_bytesToHex
        demo_bytesToHex_hexToBytes)
qed

end
