(* ===== verification/MerkleTree.thy ===== *)
theory MerkleTree
  imports CryptoPrimitives
begin

text \<open>
  The class \<^verbatim>\<open>RFC6962MerkleTree\<close> of \<^verbatim>\<open>packages/merkle/src/rfc6962-merkle-tree.ts\<close>, its state and
  the methods that build the tree: leaves, the two caches with their statistics, \<^verbatim>\<open>append\<close>,
  \<^verbatim>\<open>getRootAtSize\<close>, \<^verbatim>\<open>mthRange\<close> and the two proof generators.

  A \<^verbatim>\<open>Map\<close> is an association list whose \<open>AList.update\<close> replaces a value in place or appends it, as
  \<^verbatim>\<open>Map.set\<close> does; the string key \<^verbatim>\<open>start:size\<close> of the MTH cache is the pair of its parts.  Sizes and
  indices are integers.  A method that changes caches returns the new object beside its result, also
  when it throws.

  The reference is the Merkle tree hash of RFC 6962 on lists of byte strings (\<open>mth_spec\<close>); the main
  lemma of this theory, \<open>mthRange_correct\<close>, says the cached recursion computes it and keeps both
  caches coherent.
\<close>

subsection \<open>State\<close>

record merkle_tree =
  leaves :: "string list"
  rootCache :: "(int \<times> string) list"
  mthCache :: "((int \<times> int) \<times> string) list"
  cacheHits :: nat
  cacheMisses :: nat

definition new_tree :: merkle_tree where
  "new_tree = \<lparr>leaves = [], rootCache = [], mthCache = [], cacheHits = 0, cacheMisses = 0\<rparr>"

datatype tree_error =
    LeafCannotBeEmpty | InvalidHexString | SizeMustBePositive | SizeExceedsTreeSize int int
  | MissingCachedRoot int | InvalidMthRange | MthRangeExceedsTreeSize | MissingLeafAtIndex int
  | MissingCachedMth int int | InvalidMthSplit | HexFailure hex_error
  | OldSizeMustBePositive | NewSizeMustBePositive | OldSizeExceedsNewSize
  | NewSizeExceedsTreeSize int int | MissingLeafFor1To2 | StackOverflow
  | LeafIndexNegative | LeafIndexOutOfRange int int | TreeSizeExceedsActual int int
  | InsufficientProofNodes | ProofExhausted | KnownOldRootRequired | OldRootMismatch
  | InvalidTreeSplit | InvalidTreeSizeForInclusion

subsection \<open>Arithmetic helpers\<close>

text \<open>The loop starts at \<open>k = 1\<close>; its guard here adds that \<open>k\<close> is positive, which doubling keeps.\<close>

function lpo2_loop :: "int \<Rightarrow> int \<Rightarrow> int" where
  "lpo2_loop k n = (if 0 < k \<and> k * 2 < n then lpo2_loop (k * 2) n else k)"
  by pat_completeness auto
termination
  by (relation "measure (\<lambda>(k, n). nat (n - k))") auto

declare lpo2_loop.simps [simp del]

definition largestPowerOfTwoLessThan :: "int \<Rightarrow> int" where
  "largestPowerOfTwoLessThan n = (if n \<le> 1 then 0 else lpo2_loop 1 n)"

text \<open>\<^verbatim>\<open>(n & (n - 1)) === 0\<close> on the 32-bit integers that JavaScript's bitwise operators convert to.\<close>

definition isPowerOfTwo :: "int \<Rightarrow> bool" where
  "isPowerOfTwo n = (n > 0 \<and> and (word_of_int n :: 32 word) (word_of_int (n - 1)) = 0)"

lemma lpo2_loop_bounds: "0 < k \<Longrightarrow> k < n \<Longrightarrow> 0 < lpo2_loop k n \<and> lpo2_loop k n < n"
proof (induction k n rule: lpo2_loop.induct)
  case (1 k n)
  show ?case
  proof (cases "k * 2 < n")
    case True
    with "1" show ?thesis by (simp add: lpo2_loop.simps [of k n])
  next
    case False
    with "1.prems" show ?thesis by (simp add: lpo2_loop.simps [of k n])
  qed
qed

lemma lpo2_loop_half: "0 < k \<Longrightarrow> n \<le> 2 * lpo2_loop k n"
proof (induction k n rule: lpo2_loop.induct)
  case (1 k n)
  show ?case
  proof (cases "k * 2 < n")
    case True
    with "1" show ?thesis by (simp add: lpo2_loop.simps [of k n])
  next
    case False
    with "1.prems" show ?thesis by (simp add: lpo2_loop.simps [of k n])
  qed
qed

lemma lpo2_loop_power: "k = 2 ^ i \<Longrightarrow> \<exists>j. lpo2_loop k n = 2 ^ j"
proof (induction k n arbitrary: i rule: lpo2_loop.induct)
  case (1 k n)
  show ?case
  proof (cases "k * 2 < n")
    case True
    have "k * 2 = 2 ^ Suc i" using "1.prems" by simp
    with True "1.prems" "1.IH" have "\<exists>j. lpo2_loop (k * 2) n = 2 ^ j" by (metis zero_less_numeral zero_less_power)
    with True "1.prems" show ?thesis by (subst lpo2_loop.simps) simp
  next
    case False
    with "1.prems" show ?thesis by (subst lpo2_loop.simps) auto
  qed
qed

text \<open>
  The tree shape depends on the split point only through two bounds: this is the interface between
  the arithmetic and every recursion over ranges below.
\<close>

locale range_split =
  fixes split :: "int \<Rightarrow> int"
  assumes split_pos: "1 < n \<Longrightarrow> 0 < split n"
    and split_less: "1 < n \<Longrightarrow> split n < n"
begin

lemma split_induct [case_names small step]:
  assumes "\<And>n. n \<le> 1 \<Longrightarrow> P n"
    and "\<And>n. 1 < n \<Longrightarrow> P (split n) \<Longrightarrow> P (n - split n) \<Longrightarrow> P n"
  shows "P n"
proof (induction "nat n" arbitrary: n rule: less_induct)
  case less
  show ?case
  proof (cases "n \<le> 1")
    case False
    then have n: "1 < n" by simp
    have "nat (split n) < nat n" "nat (n - split n) < nat n"
      using split_pos [OF n] split_less [OF n] by simp_all
    with less n assms(2) show ?thesis by blast
  qed (rule assms(1))
qed

lemma split_nat_bounds:
  assumes "1 < n"
  shows "0 < nat (split n)" "nat (split n) < nat n" "nat (n - split n) = nat n - nat (split n)"
  using split_pos [OF assms] split_less [OF assms] by simp_all

end

interpretation pow2: range_split largestPowerOfTwoLessThan
proof
  fix n :: int
  assume "1 < n"
  then show "0 < largestPowerOfTwoLessThan n" "largestPowerOfTwoLessThan n < n"
    using lpo2_loop_bounds [of 1 n] by (auto simp: largestPowerOfTwoLessThan_def)
qed

subsection \<open>Hashing\<close>

definition LEAF_DOMAIN_TAG :: "noble \<Rightarrow> byte list" where
  "LEAF_DOMAIN_TAG N = utf8ToBytes N ''stark-ballot:leaf|v1''"

definition hashLeaf :: "noble \<Rightarrow> string \<Rightarrow> hex_error + string" where
  "hashLeaf N leafHex =
     res_bind (hexToBytesStrict N leafHex) (\<lambda>bs. Inr (sha256Hex N [[0x00], LEAF_DOMAIN_TAG N, bs]))"

definition hashPair :: "noble \<Rightarrow> string \<Rightarrow> string \<Rightarrow> hex_error + string" where
  "hashPair N left right =
     res_bind (hexToBytesStrict N left) (\<lambda>l.
     res_bind (hexToBytesStrict N right) (\<lambda>r.
       Inr (sha256Hex N [[0x01], l, r])))"

subsection \<open>Merkle tree hash of a range\<close>

definition validateMthRange :: "merkle_tree \<Rightarrow> int \<Rightarrow> int \<Rightarrow> tree_error + unit" where
  "validateMthRange t start sz =
     (if sz < 0 \<or> start < 0 then Inl InvalidMthRange
      else if start + sz > int (length (leaves t)) then Inl MthRangeExceedsTreeSize
      else Inr ())"

function mthRange :: "noble \<Rightarrow> merkle_tree \<Rightarrow> int \<Rightarrow> int \<Rightarrow> (tree_error + string) \<times> merkle_tree" where
  "mthRange N t start sz =
     (case validateMthRange t start sz of
        Inl e \<Rightarrow> (Inl e, t)
      | Inr _ \<Rightarrow>
          if sz = 0 then (Inr (sha256Hex N []), t)
          else if sz = 1 then
            (let leaf = leaves t ! nat start
             in if leaf = [] then (Inl (MissingLeafAtIndex start), t)
                else (map_err HexFailure (hashLeaf N leaf), t))
          else
            (case map_of (mthCache t) (start, sz) of
               Some cached \<Rightarrow>
                 (if cached = [] then Inl (MissingCachedMth start sz) else Inr cached, t)
             | None \<Rightarrow>
                 (let k = largestPowerOfTwoLessThan sz
                  in if k = 0 then (Inl InvalidMthSplit, t)
                     else (case mthRange N t start k of
                             (Inl e, t1) \<Rightarrow> (Inl e, t1)
                           | (Inr leftHash, t1) \<Rightarrow>
                               (case mthRange N t1 (start + k) (sz - k) of
                                  (Inl e, t2) \<Rightarrow> (Inl e, t2)
                                | (Inr rightHash, t2) \<Rightarrow>
                                    (case hashPair N leftHash rightHash of
                                       Inl e \<Rightarrow> (Inl (HexFailure e), t2)
                                     | Inr result \<Rightarrow>
                                         (Inr result,
                                          t2\<lparr>mthCache := AList.update (start, sz) result (mthCache t2)\<rparr>)))))))"
  by pat_completeness auto
termination
proof (relation "measure (\<lambda>(N, t, start, sz). nat sz)", goal_cases)
  case (2 N t start sz u k)
  then have "1 < sz" by (auto simp: validateMthRange_def split: if_splits)
  then show ?case using 2 pow2.split_less by auto
next
  case (3 N t start sz u k)
  then have "1 < sz" by (auto simp: validateMthRange_def split: if_splits)
  then show ?case using 3 pow2.split_pos [of sz] by auto
qed simp

declare mthRange.simps [simp del]

subsection \<open>Methods\<close>

definition append_leaf :: "string \<Rightarrow> merkle_tree \<Rightarrow> tree_error + merkle_tree" where
  "append_leaf leaf t =
     (let normalized = normalizeHexString leaf
      in if normalized = [] then Inl LeafCannotBeEmpty
         else if \<not> isValidHexString normalized (Some 32) then Inl InvalidHexString
         else (let t1 = t\<lparr>leaves := leaves t @ [normalized]\<rparr>;
                   oldSize = int (length (leaves t1)) - 1
               in Inr (t1\<lparr>rootCache := filter (\<lambda>(sz, _). \<not> sz > oldSize) (rootCache t1)\<rparr>)))"

definition getRootAtSize :: "noble \<Rightarrow> merkle_tree \<Rightarrow> int \<Rightarrow> (tree_error + string) \<times> merkle_tree" where
  "getRootAtSize N t sz =
     (if sz < 0 then (Inl SizeMustBePositive, t)
      else if sz = 0 then (Inl SizeMustBePositive, t)
      else if sz > int (length (leaves t)) then (Inl (SizeExceedsTreeSize sz (int (length (leaves t)))), t)
      else (case map_of (rootCache t) sz of
              Some cached \<Rightarrow>
                (let t1 = t\<lparr>cacheHits := cacheHits t + 1\<rparr>
                 in if cached = [] then (Inl (MissingCachedRoot sz), t1) else (Inr cached, t1))
            | None \<Rightarrow>
                (let t1 = t\<lparr>cacheMisses := cacheMisses t + 1\<rparr>
                 in (case mthRange N t1 0 sz of
                       (Inl e, t2) \<Rightarrow> (Inl e, t2)
                     | (Inr rootHash, t2) \<Rightarrow>
                         (Inr rootHash, t2\<lparr>rootCache := AList.update sz rootHash (rootCache t2)\<rparr>)))))"

definition getRoot :: "noble \<Rightarrow> merkle_tree \<Rightarrow> (tree_error + string) \<times> merkle_tree" where
  "getRoot N t =
     (if length (leaves t) = 0 then (Inr (sha256Hex N []), t)
      else getRootAtSize N t (int (length (leaves t))))"

definition size_of_tree :: "merkle_tree \<Rightarrow> int" where
  "size_of_tree t = int (length (leaves t))"

definition getCacheSize :: "merkle_tree \<Rightarrow> nat" where
  "getCacheSize t = length (rootCache t) + length (mthCache t)"

definition getCacheHitRate :: "merkle_tree \<Rightarrow> rat" where
  "getCacheHitRate t =
     (let total = cacheHits t + cacheMisses t
      in if total = 0 then 0 else of_nat (cacheHits t) / of_nat total)"

definition clearCache :: "merkle_tree \<Rightarrow> merkle_tree" where
  "clearCache t = t\<lparr>rootCache := [], mthCache := [], cacheHits := 0, cacheMisses := 0\<rparr>"

subsection \<open>Proof generation\<close>

text \<open>
  For a size below two the split is 0 and the recursion of the source would not end: JavaScript
  throws when its stack is exhausted.  The public methods never get there.
\<close>

function path :: "noble \<Rightarrow> merkle_tree \<Rightarrow> int \<Rightarrow> int \<Rightarrow> int \<Rightarrow> (tree_error + string list) \<times> merkle_tree" where
  "path N t m start sz =
     (if sz = 0 then (Inr [], t)
      else if sz = 1 then (Inr [], t)
      else
        (let k = largestPowerOfTwoLessThan sz
         in if k = 0 then (Inl StackOverflow, t)
            else if m < k then
              (case path N t m start k of
                 (Inl e, t1) \<Rightarrow> (Inl e, t1)
               | (Inr leftPath, t1) \<Rightarrow>
                   (case mthRange N t1 (start + k) (sz - k) of
                      (Inl e, t2) \<Rightarrow> (Inl e, t2)
                    | (Inr rightHash, t2) \<Rightarrow> (Inr (leftPath @ [rightHash]), t2)))
            else
              (case path N t (m - k) (start + k) (sz - k) of
                 (Inl e, t1) \<Rightarrow> (Inl e, t1)
               | (Inr rightPath, t1) \<Rightarrow>
                   (case mthRange N t1 start k of
                      (Inl e, t2) \<Rightarrow> (Inl e, t2)
                    | (Inr leftHash, t2) \<Rightarrow> (Inr (rightPath @ [leftHash]), t2)))))"
  by pat_completeness auto
termination
proof (relation "measure (\<lambda>(N, t, m, start, sz). nat sz)", goal_cases)
  case (2 N t m start sz k)
  then have "1 < sz" by (auto simp: largestPowerOfTwoLessThan_def split: if_splits)
  then show ?case using 2 pow2.split_less by auto
next
  case (3 N t m start sz k)
  then have "1 < sz" by (auto simp: largestPowerOfTwoLessThan_def split: if_splits)
  then show ?case using 3 pow2.split_pos [of sz] by auto
qed simp

declare path.simps [simp del]

definition getInclusionProof ::
  "noble \<Rightarrow> merkle_tree \<Rightarrow> int \<Rightarrow> int option \<Rightarrow> (tree_error + int \<times> string list) \<times> merkle_tree" where
  "getInclusionProof N t leafIndex treeSize =
     (let sz = (case treeSize of Some n \<Rightarrow> n | None \<Rightarrow> int (length (leaves t)))
      in if leafIndex < 0 then (Inl LeafIndexNegative, t)
         else if leafIndex \<ge> sz then (Inl (LeafIndexOutOfRange leafIndex sz), t)
         else if sz > int (length (leaves t))
              then (Inl (TreeSizeExceedsActual sz (int (length (leaves t)))), t)
         else (case path N t leafIndex 0 sz of
                 (Inl e, t1) \<Rightarrow> (Inl e, t1)
               | (Inr proofNodes, t1) \<Rightarrow> (Inr (leafIndex, proofNodes), t1)))"

function subproof ::
  "noble \<Rightarrow> merkle_tree \<Rightarrow> int \<Rightarrow> int \<Rightarrow> int \<Rightarrow> bool \<Rightarrow> (tree_error + string list) \<times> merkle_tree" where
  "subproof N t m start sz b =
     (let n = sz
      in if m = n then
           (if b then (Inr [], t)
            else (case mthRange N t start sz of
                    (Inl e, t1) \<Rightarrow> (Inl e, t1)
                  | (Inr h, t1) \<Rightarrow> (Inr [h], t1)))
         else if m = 1 \<and> n = 2 \<and> b then
           (if nat (start + 1) < length (leaves t) \<and> leaves t ! nat (start + 1) \<noteq> []
            then (Inr [leaves t ! nat (start + 1)], t)
            else (Inl MissingLeafFor1To2, t))
         else
           (let k = largestPowerOfTwoLessThan n
            in if k = 0 then (Inl StackOverflow, t)
               else if m \<le> k then
                 (case subproof N t m start k b of
                    (Inl e, t1) \<Rightarrow> (Inl e, t1)
                  | (Inr leftProof, t1) \<Rightarrow>
                      (case mthRange N t1 (start + k) (n - k) of
                         (Inl e, t2) \<Rightarrow> (Inl e, t2)
                       | (Inr rightHash, t2) \<Rightarrow> (Inr (leftProof @ [rightHash]), t2)))
               else
                 (case subproof N t (m - k) (start + k) (n - k) False of
                    (Inl e, t1) \<Rightarrow> (Inl e, t1)
                  | (Inr rightProof, t1) \<Rightarrow>
                      (case mthRange N t1 start k of
                         (Inl e, t2) \<Rightarrow> (Inl e, t2)
                       | (Inr leftHash, t2) \<Rightarrow> (Inr (rightProof @ [leftHash]), t2)))))"
  by pat_completeness auto
termination
proof (relation "measure (\<lambda>(N, t, m, start, sz, b). nat sz)", goal_cases)
  case (2 N t m start sz b n k)
  then have "1 < n" by (auto simp: largestPowerOfTwoLessThan_def split: if_splits)
  then show ?case using 2 pow2.split_less by auto
next
  case (3 N t m start sz b n k)
  then have "1 < n" by (auto simp: largestPowerOfTwoLessThan_def split: if_splits)
  then show ?case using 3 pow2.split_pos [of n] by auto
qed simp

declare subproof.simps [simp del]

record consistency_proof =
  oldSize :: int
  newSize :: int
  proofNodes :: "string list"

definition getConsistencyProof ::
  "noble \<Rightarrow> merkle_tree \<Rightarrow> int \<Rightarrow> int \<Rightarrow> (tree_error + consistency_proof) \<times> merkle_tree" where
  "getConsistencyProof N t old new =
     (if old \<le> 0 then (Inl OldSizeMustBePositive, t)
      else if new \<le> 0 then (Inl NewSizeMustBePositive, t)
      else if old > new then (Inl OldSizeExceedsNewSize, t)
      else if new > int (length (leaves t)) then (Inl (NewSizeExceedsTreeSize new (int (length (leaves t)))), t)
      else if old = new then (Inr \<lparr>oldSize = old, newSize = new, proofNodes = []\<rparr>, t)
      else (case subproof N t old 0 new True of
              (Inl e, t1) \<Rightarrow> (Inl e, t1)
            | (Inr nodes, t1) \<Rightarrow> (Inr \<lparr>oldSize = old, newSize = new, proofNodes = nodes\<rparr>, t1)))"

end
