(* ===== verification/MerkleCorrect.thy ===== *)
theory MerkleCorrect
  imports MerkleTree
begin

text \<open>
  What the tree of \<open>MerkleTree\<close> computes.  The reference functions \<open>mth_spec\<close>, \<open>path_spec\<close> and
  \<open>subproof_spec\<close> are the recursions of RFC 6962 (with the application's leaf tag, and with the raw
  leaf of the 1-to-2 proof) on a list of leaf byte strings, without caches, strings or errors.  The
  invariant \<open>tree_inv\<close> says that the leaves are canonical 32-byte strings and that every cached value
  is the one the reference gives for its range; each method keeps it and returns the reference's value.
\<close>

subsection \<open>Reference functions\<close>

definition leafH :: "noble \<Rightarrow> byte list \<Rightarrow> byte list" where
  "leafH N d = sha256 N (0 # LEAF_DOMAIN_TAG N @ d)"

definition nodeH :: "noble \<Rightarrow> byte list \<Rightarrow> byte list \<Rightarrow> byte list" where
  "nodeH N l r = sha256 N (1 # l @ r)"

definition split_at :: "'a list \<Rightarrow> nat" where
  "split_at ds = nat (largestPowerOfTwoLessThan (int (length ds)))"

lemma split_at_bounds:
  assumes "1 < length ds"
  shows "0 < split_at ds" "split_at ds < length ds"
  using pow2.split_nat_bounds [of "int (length ds)"] assms by (simp_all add: split_at_def)

lemma split_at_shrinks [termination_simp]:
  "1 < length ds \<Longrightarrow> length (take (split_at ds) ds) < length ds"
  "1 < length ds \<Longrightarrow> length (drop (split_at ds) ds) < length ds"
  using split_at_bounds [of ds] by simp_all

function mth_spec :: "noble \<Rightarrow> byte list list \<Rightarrow> byte list" where
  "mth_spec N ds =
     (if length ds = 0 then sha256 N []
      else if length ds = 1 then leafH N (hd ds)
      else nodeH N (mth_spec N (take (split_at ds) ds)) (mth_spec N (drop (split_at ds) ds)))"
  by pat_completeness auto
termination
proof (relation "measure (\<lambda>(N, ds). length ds)", goal_cases)
  case (2 N ds)
  then have "1 < length ds" by (cases ds) auto
  then show ?case using split_at_shrinks(1) [of ds] by simp
next
  case (3 N ds)
  then have "1 < length ds" by (cases ds) auto
  then show ?case using split_at_shrinks(2) [of ds] by simp
qed simp

declare mth_spec.simps [simp del]

lemma mth_spec_simps:
  "mth_spec N [] = sha256 N []"
  "mth_spec N [d] = leafH N d"
  "1 < length ds \<Longrightarrow>
     mth_spec N ds = nodeH N (mth_spec N (take (split_at ds) ds)) (mth_spec N (drop (split_at ds) ds))"
  by (simp add: mth_spec.simps, simp add: mth_spec.simps, subst mth_spec.simps, fastforce)

function path_spec :: "noble \<Rightarrow> nat \<Rightarrow> byte list list \<Rightarrow> byte list list" where
  "path_spec N m ds =
     (if length ds \<le> 1 then []
      else if m < split_at ds
           then path_spec N m (take (split_at ds) ds) @ [mth_spec N (drop (split_at ds) ds)]
           else path_spec N (m - split_at ds) (drop (split_at ds) ds) @ [mth_spec N (take (split_at ds) ds)])"
  by pat_completeness auto
termination
  by (relation "measure (\<lambda>(N, m, ds). length ds)") (use split_at_shrinks in \<open>force+\<close>)

declare path_spec.simps [simp del]

function subproof_spec :: "noble \<Rightarrow> nat \<Rightarrow> byte list list \<Rightarrow> bool \<Rightarrow> byte list list" where
  "subproof_spec N m ds b =
     (if m = length ds \<or> length ds \<le> 1 then (if b then [] else [mth_spec N ds])
      else if m = 1 \<and> length ds = 2 \<and> b then [ds ! 1]
      else if m \<le> split_at ds
           then subproof_spec N m (take (split_at ds) ds) b @ [mth_spec N (drop (split_at ds) ds)]
           else subproof_spec N (m - split_at ds) (drop (split_at ds) ds) False @
                  [mth_spec N (take (split_at ds) ds)])"
  by pat_completeness auto
termination
  by (relation "measure (\<lambda>(N, m, ds, b). length ds)") (use split_at_shrinks in \<open>force+\<close>)

declare subproof_spec.simps [simp del]

lemma length_mth_spec [simp]: "noble_ok N \<Longrightarrow> length (mth_spec N ds) = 32"
  by (subst mth_spec.simps) (simp add: leafH_def nodeH_def length_sha256)

lemma mth_spec_not_Nil [simp]: "noble_ok N \<Longrightarrow> mth_spec N ds \<noteq> []"
  using length_mth_spec [of N ds] by force

text \<open>Induction along the shape of the tree.\<close>

lemma tree_induct [case_names small node]:
  assumes "\<And>ds. length ds \<le> 1 \<Longrightarrow> P ds"
    and "\<And>ds. 1 < length ds \<Longrightarrow> P (take (split_at ds) ds) \<Longrightarrow> P (drop (split_at ds) ds) \<Longrightarrow> P ds"
  shows "P ds"
proof (induction ds rule: length_induct)
  case (1 ds)
  then show ?case
  proof (cases "length ds \<le> 1")
    case False
    then show ?thesis using 1 assms(2) split_at_bounds [of ds] by simp
  qed (rule assms(1))
qed

subsection \<open>Invariant\<close>

definition leaf_bytes :: "noble \<Rightarrow> string \<Rightarrow> byte list" where
  "leaf_bytes N l = (case hexToBytesStrict N l of Inl e \<Rightarrow> [] | Inr bs \<Rightarrow> bs)"

definition contents :: "noble \<Rightarrow> merkle_tree \<Rightarrow> byte list list" where
  "contents N t = map (leaf_bytes N) (leaves t)"

definition subrange :: "int \<Rightarrow> int \<Rightarrow> 'a list \<Rightarrow> 'a list" where
  "subrange start n xs = take (nat n) (drop (nat start) xs)"

definition valid_leaf :: "string \<Rightarrow> bool" where
  "valid_leaf l = isValidHexString l (Some 32)"

definition range_ok :: "merkle_tree \<Rightarrow> int \<Rightarrow> int \<Rightarrow> bool" where
  "range_ok t start n = (0 \<le> start \<and> 0 \<le> n \<and> start + n \<le> int (length (leaves t)))"

definition mth_hex :: "noble \<Rightarrow> merkle_tree \<Rightarrow> int \<Rightarrow> int \<Rightarrow> string" where
  "mth_hex N t start n = bytesToHex N (mth_spec N (subrange start n (contents N t)))"

definition tree_inv :: "noble \<Rightarrow> merkle_tree \<Rightarrow> bool" where
  "tree_inv N t \<longleftrightarrow>
     list_all valid_leaf (leaves t) \<and>
     (\<forall>start n h. map_of (mthCache t) (start, n) = Some h \<longrightarrow> range_ok t start n \<and> h = mth_hex N t start n) \<and>
     (\<forall>n h. map_of (rootCache t) n = Some h \<longrightarrow> range_ok t 0 n \<and> h = mth_hex N t 0 n)"

lemma tree_invD:
  assumes "tree_inv N t"
  shows "list_all valid_leaf (leaves t)"
    and "map_of (mthCache t) (start, n) = Some h \<Longrightarrow> range_ok t start n \<and> h = mth_hex N t start n"
    and "map_of (rootCache t) n = Some h \<Longrightarrow> range_ok t 0 n \<and> h = mth_hex N t 0 n"
  using assms by (auto simp: tree_inv_def)

lemma length_subrange [simp]:
  "0 \<le> start \<Longrightarrow> 0 \<le> n \<Longrightarrow> start + n \<le> int (length xs) \<Longrightarrow> length (subrange start n xs) = nat n"
  by (simp add: subrange_def)

lemma subrange_take: "0 \<le> k \<Longrightarrow> k \<le> n \<Longrightarrow> take (nat k) (subrange start n xs) = subrange start k xs"
  by (simp add: subrange_def min_def)

lemma subrange_drop:
  "0 \<le> start \<Longrightarrow> 0 \<le> k \<Longrightarrow> k \<le> n \<Longrightarrow> drop (nat k) (subrange start n xs) = subrange (start + k) (n - k) xs"
  by (simp add: subrange_def drop_take nat_add_distrib nat_diff_distrib add.commute)

lemma subrange_nth:
  "0 \<le> start \<Longrightarrow> 0 \<le> i \<Longrightarrow> i < n \<Longrightarrow> start + n \<le> int (length xs) \<Longrightarrow>
     subrange start n xs ! nat i = xs ! nat (start + i)"
  by (simp add: subrange_def nat_add_distrib)

lemma subrange_append [simp]:
  "0 \<le> start \<Longrightarrow> 0 \<le> n \<Longrightarrow> start + n \<le> int (length xs) \<Longrightarrow> subrange start n (xs @ ys) = subrange start n xs"
  by (simp add: subrange_def)

lemma subrange_0_take: "subrange 0 n xs = take (nat n) xs"
  by (simp add: subrange_def)

lemma length_contents [simp]: "length (contents N t) = length (leaves t)"
  by (simp add: contents_def)

lemma valid_leaf_bytes:
  assumes "noble_ok N" "valid_leaf l"
  shows "hexToBytesStrict N l = Inr (leaf_bytes N l)" "length (leaf_bytes N l) = 32" "l \<noteq> []"
    "bytesToHex N (leaf_bytes N l) = normalizeHexString l"
proof -
  have v: "isValidHexString l (Some 32)" using assms(2) by (simp add: valid_leaf_def)
  obtain bs where bs: "hexToBytesStrict N l = Inr bs" "length bs = 32"
    using hexToBytesStrict_valid [OF assms(1) v] by auto
  then show "hexToBytesStrict N l = Inr (leaf_bytes N l)" "length (leaf_bytes N l) = 32"
    by (simp_all add: leaf_bytes_def)
  show "l \<noteq> []" using v by (auto simp: isValidHexString_def)
  show "bytesToHex N (leaf_bytes N l) = normalizeHexString l"
    using hexToBytesStrict_Inr(1) [OF assms(1) bs(1)] bs(1) by (simp add: leaf_bytes_def)
qed

lemma valid_leaf_nth: "tree_inv N t \<Longrightarrow> i < length (leaves t) \<Longrightarrow> valid_leaf (leaves t ! i)"
  by (auto simp: tree_inv_def list_all_length)

lemma hashLeaf_eq:
  "hexToBytesStrict N l = Inr bs \<Longrightarrow> hashLeaf N l = Inr (bytesToHex N (leafH N bs))"
  by (simp add: hashLeaf_def sha256Hex_def leafH_def)

lemma hashPair_eq:
  "hexToBytesStrict N l = Inr a \<Longrightarrow> hexToBytesStrict N r = Inr b \<Longrightarrow>
     hashPair N l r = Inr (bytesToHex N (nodeH N a b))"
  by (simp add: hashPair_def sha256Hex_def nodeH_def)

lemma hashPair_mth:
  "noble_ok N \<Longrightarrow>
     hashPair N (bytesToHex N (mth_spec N as)) (bytesToHex N (mth_spec N bs)) =
       Inr (bytesToHex N (nodeH N (mth_spec N as) (mth_spec N bs)))"
  by (simp add: hashPair_eq)

lemma mth_spec_subrange_split:
  assumes "1 < n" "range_ok t start n" "k = largestPowerOfTwoLessThan n"
  shows "mth_spec N (subrange start n (contents N t)) =
    nodeH N (mth_spec N (subrange start k (contents N t))) (mth_spec N (subrange (start + k) (n - k) (contents N t)))"
proof -
  let ?s = "subrange start n (contents N t)"
  have len: "length ?s = nat n" using assms(2) by (simp add: range_ok_def)
  have k: "0 < k" "k < n" using pow2.split_pos pow2.split_less assms(1,3) by auto
  have sp: "split_at ?s = nat k" using assms(1,3) len by (simp add: split_at_def)
  have "1 < length ?s" using len assms(1) by simp
  then show ?thesis
    using k assms(2) by (simp add: mth_spec_simps(3) sp subrange_take subrange_drop range_ok_def)
qed

lemma mth_hex_single:
  assumes "noble_ok N" "tree_inv N t" "range_ok t start 1"
  shows "hashLeaf N (leaves t ! nat start) = Inr (mth_hex N t start 1)" "leaves t ! nat start \<noteq> []"
proof -
  have i: "nat start < length (leaves t)" using assms(3) by (auto simp: range_ok_def)
  have v: "valid_leaf (leaves t ! nat start)" by (rule valid_leaf_nth [OF assms(2) i])
  have "subrange start 1 (contents N t) = [contents N t ! nat start]"
    using i by (simp add: subrange_def Cons_nth_drop_Suc [symmetric])
  then have "mth_spec N (subrange start 1 (contents N t)) = leafH N (leaf_bytes N (leaves t ! nat start))"
    using i by (simp add: mth_spec_simps contents_def)
  then show "hashLeaf N (leaves t ! nat start) = Inr (mth_hex N t start 1)"
    by (simp add: mth_hex_def hashLeaf_eq [OF valid_leaf_bytes(1) [OF assms(1) v]])
  show "leaves t ! nat start \<noteq> []" by (rule valid_leaf_bytes(3) [OF assms(1) v])
qed

subsection \<open>Root computation\<close>

text \<open>What a computation on the tree leaves unchanged: everything but the MTH cache.\<close>

definition same_tree :: "merkle_tree \<Rightarrow> merkle_tree \<Rightarrow> bool" where
  "same_tree t t' = (leaves t' = leaves t \<and> rootCache t' = rootCache t \<and>
     cacheHits t' = cacheHits t \<and> cacheMisses t' = cacheMisses t)"

lemma same_tree_refl [simp]: "same_tree t t"
  by (simp add: same_tree_def)

lemma same_tree_trans: "same_tree t t1 \<Longrightarrow> same_tree t1 t2 \<Longrightarrow> same_tree t t2"
  by (simp add: same_tree_def)

lemma same_tree_leaves:
  "same_tree t t' \<Longrightarrow> range_ok t' start n = range_ok t start n"
  "same_tree t t' \<Longrightarrow> contents N t' = contents N t"
  "same_tree t t' \<Longrightarrow> mth_hex N t' start n = mth_hex N t start n"
  by (simp_all add: same_tree_def range_ok_def contents_def mth_hex_def)

lemma tree_inv_update_mth:
  assumes "tree_inv N t" "range_ok t start n" "h = mth_hex N t start n"
  shows "tree_inv N (t\<lparr>mthCache := AList.update (start, n) h (mthCache t)\<rparr>)"
  using assms by (auto simp: tree_inv_def range_ok_def mth_hex_def contents_def)

lemma mthRange_correct:
  assumes "noble_ok N"
  shows "tree_inv N t \<Longrightarrow> range_ok t start n \<Longrightarrow>
    \<exists>t'. mthRange N t start n = (Inr (mth_hex N t start n), t') \<and> tree_inv N t' \<and> same_tree t t'"
proof (induction n arbitrary: t start rule: pow2.split_induct)
  case (small n)
  then consider "n = 0" | "n = 1" by (fastforce simp: range_ok_def)
  then show ?case
  proof cases
    case 1
    then have "validateMthRange t start 0 = Inr ()"
      using small.prems(2) by (auto simp: validateMthRange_def range_ok_def)
    then have "mthRange N t start 0 = (Inr (sha256Hex N []), t)"
      by (subst mthRange.simps) simp
    with 1 small.prems(1) show ?thesis
      by (simp add: mth_hex_def subrange_def mth_spec_simps sha256Hex_def)
  next
    case 2
    then have ok: "validateMthRange t start 1 = Inr ()"
      using small.prems(2) by (auto simp: validateMthRange_def range_ok_def)
    have "hashLeaf N (leaves t ! nat start) = Inr (mth_hex N t start 1)" "leaves t ! nat start \<noteq> []"
      using mth_hex_single [OF assms small.prems(1)] small.prems(2) 2 by auto
    with 2 ok show ?thesis using small.prems(1) by (simp add: mthRange.simps [of N t start 1])
  qed
next
  case (step n)
  let ?k = "largestPowerOfTwoLessThan n"
  have k: "0 < ?k" "?k < n" using step.hyps pow2.split_pos pow2.split_less by auto
  have ok: "validateMthRange t start n = Inr ()"
    using step.prems(2) by (auto simp: validateMthRange_def range_ok_def)
  show ?case
  proof (cases "map_of (mthCache t) (start, n)")
    case (Some h)
    have h: "h = mth_hex N t start n"
      using tree_invD(2) [OF step.prems(1) Some] by simp
    have "h \<noteq> []" using h assms by (simp add: mth_hex_def bytesToHex_Nil_iff)
    then show ?thesis
      using Some h ok step.hyps step.prems(1) by (simp add: mthRange.simps [of N t start n])
  next
    case None
    have r1: "range_ok t start ?k" and r2: "range_ok t (start + ?k) (n - ?k)"
      using k step.prems(2) by (auto simp: range_ok_def)
    obtain t1 where t1: "mthRange N t start ?k = (Inr (mth_hex N t start ?k), t1)" "tree_inv N t1" "same_tree t t1"
      using step.IH(1) [OF step.prems(1) r1] by auto
    then obtain t2 where t2: "mthRange N t1 (start + ?k) (n - ?k) = (Inr (mth_hex N t (start + ?k) (n - ?k)), t2)"
      "tree_inv N t2" "same_tree t1 t2"
      using step.IH(2) [of t1 "start + ?k"] r2 by (auto simp: same_tree_leaves [OF t1(3)])
    have pair: "hashPair N (mth_hex N t start ?k) (mth_hex N t (start + ?k) (n - ?k)) = Inr (mth_hex N t start n)"
      unfolding mth_hex_def hashPair_mth [OF assms]
      by (simp add: mth_spec_subrange_split [OF step.hyps(1) step.prems(2) refl])
    let ?t' = "t2\<lparr>mthCache := AList.update (start, n) (mth_hex N t start n) (mthCache t2)\<rparr>"
    have "mthRange N t start n = (Inr (mth_hex N t start n), ?t')"
      unfolding mthRange.simps [of N t start n] ok None
      using step.hyps(1) k by (simp add: Let_def t1(1) t2(1) pair)
    moreover have st: "same_tree t t2" using t1(3) t2(3) by (rule same_tree_trans)
    have "tree_inv N ?t'"
      using t2(2) step.prems(2) by (intro tree_inv_update_mth) (simp_all add: same_tree_leaves [OF st])
    moreover have "same_tree t ?t'" using st by (simp add: same_tree_def)
    ultimately show ?thesis by blast
  qed
qed

subsection \<open>Methods\<close>

lemma append_leaf_Inr:
  "append_leaf leaf t = Inr t' \<longleftrightarrow>
     isValidHexString (normalizeHexString leaf) (Some 32) \<and>
     t' = t\<lparr>leaves := leaves t @ [normalizeHexString leaf],
            rootCache := filter (\<lambda>(n, _). \<not> n > int (length (leaves t))) (rootCache t)\<rparr>"
  by (auto simp: append_leaf_def isValidHexString_def Let_def split: if_splits)

lemma map_of_filter_key: "map_of (filter (\<lambda>(k, _). P k) al) k = (if P k then map_of al k else None)"
  by (induction al) auto

lemma append_leaf_inv:
  assumes "tree_inv N t" "append_leaf leaf t = Inr t'"
  shows "tree_inv N t'"
proof -
  have t': "valid_leaf (normalizeHexString leaf)" "leaves t' = leaves t @ [normalizeHexString leaf]"
    "mthCache t' = mthCache t"
    "rootCache t' = filter (\<lambda>(n, _). \<not> n > int (length (leaves t))) (rootCache t)"
    using assms(2) by (auto simp: append_leaf_Inr valid_leaf_def)
  have keep: "range_ok t' start n \<and> h = mth_hex N t' start n" if "range_ok t start n \<and> h = mth_hex N t start n"
    for start n h
    using that t' by (auto simp: range_ok_def mth_hex_def contents_def)
  show ?thesis
    unfolding tree_inv_def
  proof (intro conjI allI impI)
    show "list_all valid_leaf (leaves t')"
      using tree_invD(1) [OF assms(1)] t' by simp
    show "range_ok t' start n" "h = mth_hex N t' start n" if "map_of (mthCache t') (start, n) = Some h" for start n h
      using keep [OF tree_invD(2) [OF assms(1), of start n h]] that t'(3) by auto
    show "range_ok t' 0 n" "h = mth_hex N t' 0 n" if "map_of (rootCache t') n = Some h" for n h
      using keep [OF tree_invD(3) [OF assms(1), of n h]] that t'(4)
      by (auto simp: map_of_filter_key split: if_splits)
  qed
qed

lemma tree_inv_new [simp]: "tree_inv N new_tree"
  by (simp add: tree_inv_def new_tree_def)

lemma tree_inv_clearCache: "tree_inv N t \<Longrightarrow> tree_inv N (clearCache t)"
  by (simp add: tree_inv_def clearCache_def)

lemma tree_inv_stats [simp]:
  "tree_inv N (t\<lparr>cacheHits := h\<rparr>) = tree_inv N t" "tree_inv N (t\<lparr>cacheMisses := h\<rparr>) = tree_inv N t"
  by (simp_all add: tree_inv_def range_ok_def mth_hex_def contents_def)

lemma tree_inv_update_root:
  assumes "tree_inv N t" "range_ok t 0 n" "h = mth_hex N t 0 n"
  shows "tree_inv N (t\<lparr>rootCache := AList.update n h (rootCache t)\<rparr>)"
  using assms by (auto simp: tree_inv_def range_ok_def mth_hex_def contents_def)

lemma getRootAtSize_correct:
  assumes "noble_ok N" "tree_inv N t" "0 < n" "n \<le> int (length (leaves t))"
  shows "\<exists>t'. getRootAtSize N t n = (Inr (mth_hex N t 0 n), t') \<and> tree_inv N t' \<and> leaves t' = leaves t"
proof (cases "map_of (rootCache t) n")
  case (Some h)
  then have "h = mth_hex N t 0 n" using tree_invD(3) [OF assms(2)] by simp
  moreover from this have "h \<noteq> []" using assms(1) by (simp add: mth_hex_def bytesToHex_Nil_iff)
  ultimately show ?thesis
    using Some assms by (simp add: getRootAtSize_def)
next
  case None
  let ?t1 = "t\<lparr>cacheMisses := cacheMisses t + 1\<rparr>"
  have r: "range_ok ?t1 0 n" using assms(3,4) by (simp add: range_ok_def)
  have inv: "tree_inv N ?t1" using assms(2) by simp
  have hex: "mth_hex N ?t1 0 n = mth_hex N t 0 n" by (simp add: mth_hex_def contents_def)
  obtain t2 where t2: "mthRange N ?t1 0 n = (Inr (mth_hex N t 0 n), t2)" "tree_inv N t2" "same_tree ?t1 t2"
    using mthRange_correct [OF assms(1) inv r] hex by auto
  let ?t' = "t2\<lparr>rootCache := AList.update n (mth_hex N t 0 n) (rootCache t2)\<rparr>"
  have "getRootAtSize N t n = (Inr (mth_hex N t 0 n), ?t')"
    unfolding getRootAtSize_def None using assms(3,4) t2(1) by (simp add: Let_def)
  moreover have "tree_inv N ?t'"
    using t2(2) r hex by (intro tree_inv_update_root) (simp_all add: same_tree_leaves [OF t2(3)])
  moreover have "leaves ?t' = leaves t" using t2(3) by (simp add: same_tree_def)
  ultimately show ?thesis by blast
qed

lemma getRoot_correct:
  assumes "noble_ok N" "tree_inv N t"
  shows "\<exists>t'. getRoot N t = (Inr (bytesToHex N (mth_spec N (contents N t))), t') \<and> tree_inv N t' \<and> leaves t' = leaves t"
proof (cases "leaves t = []")
  case True
  with assms show ?thesis by (simp add: getRoot_def contents_def mth_spec_simps sha256Hex_def)
next
  case False
  then show ?thesis
    using getRootAtSize_correct [OF assms, of "int (length (leaves t))"]
    by (simp add: getRoot_def mth_hex_def subrange_def)
qed

subsection \<open>Proof generation\<close>

lemma path_spec_small: "length ds \<le> 1 \<Longrightarrow> path_spec N m ds = []"
  by (simp add: path_spec.simps)

lemma path_correct:
  assumes "noble_ok N"
  shows "tree_inv N t \<Longrightarrow> range_ok t start n \<Longrightarrow> 0 \<le> m \<Longrightarrow> m < n \<Longrightarrow>
    \<exists>t'. path N t m start n =
           (Inr (map (bytesToHex N) (path_spec N (nat m) (subrange start n (contents N t)))), t') \<and>
         tree_inv N t' \<and> same_tree t t'"
proof (induction n arbitrary: t start m rule: pow2.split_induct)
  case (small n)
  then have n: "n = 1" by simp
  with small.prems have "length (subrange start n (contents N t)) \<le> 1"
    by (simp add: range_ok_def)
  with n small.prems(1) show ?case by (subst path.simps) (simp add: path_spec_small)
next
  case (step n)
  let ?k = "largestPowerOfTwoLessThan n" and ?c = "contents N t"
  have k: "0 < ?k" "?k < n" using step.hyps(1) pow2.split_pos pow2.split_less by auto
  have r1: "range_ok t start ?k" and r2: "range_ok t (start + ?k) (n - ?k)"
    using k step.prems(2) by (auto simp: range_ok_def)
  have len: "length (subrange start n ?c) = nat n"
    using step.prems(2) by (simp add: range_ok_def)
  have sp: "split_at (subrange start n ?c) = nat ?k"
    using step.hyps(1) len by (simp add: split_at_def)
  have spec: "path_spec N (nat m) (subrange start n ?c) =
    (if m < ?k then path_spec N (nat m) (subrange start ?k ?c) @ [mth_spec N (subrange (start + ?k) (n - ?k) ?c)]
     else path_spec N (nat (m - ?k)) (subrange (start + ?k) (n - ?k) ?c) @ [mth_spec N (subrange start ?k ?c)])"
    using step.hyps(1) len k step.prems(2,3)
    by (subst path_spec.simps)
       (auto simp: sp subrange_take subrange_drop range_ok_def nat_diff_distrib)
  show ?case
  proof (cases "m < ?k")
    case True
    obtain t1 where t1: "path N t m start ?k = (Inr (map (bytesToHex N) (path_spec N (nat m) (subrange start ?k ?c))), t1)"
      "tree_inv N t1" "same_tree t t1"
      using step.IH(1) [OF step.prems(1) r1 step.prems(3) True] by auto
    obtain t2 where t2: "mthRange N t1 (start + ?k) (n - ?k) = (Inr (mth_hex N t (start + ?k) (n - ?k)), t2)"
      "tree_inv N t2" "same_tree t1 t2"
      using mthRange_correct [OF assms t1(2), of "start + ?k" "n - ?k"] r2 same_tree_leaves [OF t1(3)] by auto
    have "path N t m start n = (Inr (map (bytesToHex N) (path_spec N (nat m) (subrange start n ?c))), t2)"
      using step.hyps(1) k True t1(1) t2(1) spec by (subst path.simps) (simp add: Let_def mth_hex_def)
    with t2(2) same_tree_trans [OF t1(3) t2(3)] show ?thesis by blast
  next
    case False
    have m: "0 \<le> m - ?k" "m - ?k < n - ?k" using False step.prems by auto
    obtain t1 where t1: "path N t (m - ?k) (start + ?k) (n - ?k) =
        (Inr (map (bytesToHex N) (path_spec N (nat (m - ?k)) (subrange (start + ?k) (n - ?k) ?c))), t1)"
      "tree_inv N t1" "same_tree t t1"
      using step.IH(2) [OF step.prems(1) r2 m] by auto
    obtain t2 where t2: "mthRange N t1 start ?k = (Inr (mth_hex N t start ?k), t2)"
      "tree_inv N t2" "same_tree t1 t2"
      using mthRange_correct [OF assms t1(2), of start ?k] r1 same_tree_leaves [OF t1(3)] by auto
    have "path N t m start n = (Inr (map (bytesToHex N) (path_spec N (nat m) (subrange start n ?c))), t2)"
      using step.hyps(1) k False t1(1) t2(1) spec by (subst path.simps) (simp add: Let_def mth_hex_def)
    with t2(2) same_tree_trans [OF t1(3) t2(3)] show ?thesis by blast
  qed
qed

text \<open>
  The consistency proof of a one-leaf tree carries a stored leaf as it is, so its nodes are canonical
  only if the leaves are.
\<close>

definition canonical_leaves :: "merkle_tree \<Rightarrow> bool" where
  "canonical_leaves t = list_all canonical_hex (leaves t)"

lemma canonical_leaves_nth:
  assumes "noble_ok N" "tree_inv N t" "canonical_leaves t" "i < length (leaves t)"
  shows "leaves t ! i = bytesToHex N (contents N t ! i)"
proof -
  have "canonical_hex (leaves t ! i)" using assms(3,4) by (simp add: canonical_leaves_def list_all_length)
  then show ?thesis
    using valid_leaf_bytes(4) [OF assms(1) valid_leaf_nth [OF assms(2,4)]] assms(4)
    by (simp add: contents_def)
qed

lemma subproof_spec_unfold:
  assumes "1 < n" "range_ok t start n" "0 < m" "m < n" "k = largestPowerOfTwoLessThan n"
  shows "subproof_spec N (nat m) (subrange start n (contents N t)) b =
    (if m = 1 \<and> n = 2 \<and> b then [contents N t ! nat (start + 1)]
     else if m \<le> k then subproof_spec N (nat m) (subrange start k (contents N t)) b @
                       [mth_spec N (subrange (start + k) (n - k) (contents N t))]
     else subproof_spec N (nat (m - k)) (subrange (start + k) (n - k) (contents N t)) False @
            [mth_spec N (subrange start k (contents N t))])"
proof -
  let ?s = "subrange start n (contents N t)"
  have k: "0 < k" "k < n" using pow2.split_pos pow2.split_less assms(1,5) by auto
  have len: "length ?s = nat n" using assms(2) by (simp add: range_ok_def)
  have sp: "split_at ?s = nat k" using assms(1,5) len by (simp add: split_at_def)
  have parts: "take (nat k) ?s = subrange start k (contents N t)"
    "drop (nat k) ?s = subrange (start + k) (n - k) (contents N t)"
    using k assms(2) by (simp_all add: subrange_take subrange_drop range_ok_def)
  have nth: "?s ! 1 = contents N t ! nat (start + 1)"
    using subrange_nth [of start 1 n "contents N t"] assms(1,2) by (simp add: range_ok_def)
  have "nat m \<noteq> nat n" "\<not> nat n \<le> 1" using assms(1,3,4) by auto
  moreover have "(nat m = 1) = (m = 1)" "(nat n = 2) = (n = 2)" "(nat m \<le> nat k) = (m \<le> k)"
    using assms(3) k by auto
  moreover have "nat m - nat k = nat (m - k)" using k by (simp add: nat_diff_distrib')
  ultimately show ?thesis
    by (subst subproof_spec.simps) (simp only: len sp parts nth if_False simp_thms)
qed

lemma subproof_correct:
  assumes "noble_ok N"
  shows "tree_inv N t \<Longrightarrow> canonical_leaves t \<Longrightarrow> range_ok t start n \<Longrightarrow> 0 < m \<Longrightarrow> m \<le> n \<Longrightarrow>
    \<exists>t'. subproof N t m start n b =
           (Inr (map (bytesToHex N) (subproof_spec N (nat m) (subrange start n (contents N t)) b)), t') \<and>
         tree_inv N t' \<and> same_tree t t'"
proof (induction n arbitrary: t start m b rule: pow2.split_induct)
  case (small n)
  then have n: "n = 1" "m = 1" by auto
  with small.prems have len: "length (subrange start n (contents N t)) = 1"
    by (simp add: range_ok_def)
  obtain t' where "mthRange N t start 1 = (Inr (mth_hex N t start 1), t')" "tree_inv N t'" "same_tree t t'"
    using mthRange_correct [OF assms small.prems(1)] small.prems(3) n by blast
  then show ?case
    using n len small.prems(1)
    by (cases b) (auto simp: subproof.simps [of N t 1 start 1] subproof_spec.simps mth_hex_def)
next
  case (step n)
  let ?k = "largestPowerOfTwoLessThan n" and ?c = "contents N t"
  have k: "0 < ?k" "?k < n" using step.hyps(1) pow2.split_pos pow2.split_less by auto
  have r1: "range_ok t start ?k" and r2: "range_ok t (start + ?k) (n - ?k)"
    using k step.prems(3) by (auto simp: range_ok_def)
  note mth = mthRange_correct [OF assms]
  note spec = subproof_spec_unfold [OF step.hyps(1) step.prems(3,4) _ refl]
  consider "m = n" | "m = 1" "n = 2" b "m \<noteq> n" | "m \<noteq> n" "\<not> (m = 1 \<and> n = 2 \<and> b)" "m \<le> ?k"
    | "m \<noteq> n" "\<not> (m = 1 \<and> n = 2 \<and> b)" "\<not> m \<le> ?k"
    by blast
  then show ?case
  proof cases
    case 1
    have len: "length (subrange start n ?c) = nat n" using step.prems(3) by (simp add: range_ok_def)
    obtain t' where "mthRange N t start n = (Inr (mth_hex N t start n), t')" "tree_inv N t'" "same_tree t t'"
      using mth [OF step.prems(1,3)] by blast
    then show ?thesis
      using 1 len step.prems(1)
      by (cases b) (auto simp: subproof.simps [of N t n start n] subproof_spec.simps mth_hex_def)
  next
    case 2
    have i: "nat (start + 1) < length (leaves t)"
      using step.prems(3) 2(2) by (auto simp: range_ok_def)
    have "leaves t ! nat (start + 1) \<noteq> []"
      using valid_leaf_bytes(3) [OF assms valid_leaf_nth [OF step.prems(1) i]] .
    with i 2 have "subproof N t m start n b = (Inr [leaves t ! nat (start + 1)], t)"
      by (subst subproof.simps) (simp add: Let_def)
    with 2 i step.prems spec show ?thesis
      by (auto simp: canonical_leaves_nth [OF assms step.prems(1,2)])
  next
    case 3
    obtain t1 where t1: "subproof N t m start ?k b =
        (Inr (map (bytesToHex N) (subproof_spec N (nat m) (subrange start ?k ?c) b)), t1)"
      "tree_inv N t1" "same_tree t t1"
      using step.IH(1) [OF step.prems(1,2) r1 step.prems(4) 3(3)] by blast
    obtain t2 where t2: "mthRange N t1 (start + ?k) (n - ?k) = (Inr (mth_hex N t (start + ?k) (n - ?k)), t2)"
      "tree_inv N t2" "same_tree t1 t2"
      using mth [OF t1(2), of "start + ?k" "n - ?k"] r2 same_tree_leaves [OF t1(3)] by auto
    have "subproof N t m start n b = (Inr (map (bytesToHex N) (subproof_spec N (nat m) (subrange start n ?c) b)), t2)"
      using 3 k t1(1) t2(1) step.prems(5) spec by (subst subproof.simps) (auto simp: Let_def mth_hex_def)
    with t2(2) same_tree_trans [OF t1(3) t2(3)] show ?thesis by blast
  next
    case 4
    have m: "0 < m - ?k" "m - ?k \<le> n - ?k" using 4 step.prems by auto
    obtain t1 where t1: "subproof N t (m - ?k) (start + ?k) (n - ?k) False =
        (Inr (map (bytesToHex N) (subproof_spec N (nat (m - ?k)) (subrange (start + ?k) (n - ?k) ?c) False)), t1)"
      "tree_inv N t1" "same_tree t t1"
      using step.IH(2) [OF step.prems(1,2) r2 m] by blast
    obtain t2 where t2: "mthRange N t1 start ?k = (Inr (mth_hex N t start ?k), t2)"
      "tree_inv N t2" "same_tree t1 t2"
      using mth [OF t1(2), of start ?k] r1 same_tree_leaves [OF t1(3)] by auto
    have "subproof N t m start n b = (Inr (map (bytesToHex N) (subproof_spec N (nat m) (subrange start n ?c) b)), t2)"
      using 4 k t1(1) t2(1) step.prems(5) spec by (subst subproof.simps) (auto simp: Let_def mth_hex_def)
    with t2(2) same_tree_trans [OF t1(3) t2(3)] show ?thesis by blast
  qed
qed

end
