(* ===== verification/MerkleVerify.thy ===== *)
theory MerkleVerify
  imports MerkleCorrect
begin

text \<open>
  The verifying half of \<^verbatim>\<open>RFC6962MerkleTree\<close> (inclusion and consistency proofs) and
  \<^verbatim>\<open>verifyCTMerkleInclusion\<close> of \<^verbatim>\<open>packages/verification/src/verification/merkle.ts\<close>.

  Completeness: what the generators of \<open>MerkleTree\<close> produce is accepted.  Soundness: an accepted proof
  for the root of a list of leaves determines the leaf (or the older root), or else a byte string the
  verifier hashed and one the tree hashed are an explicit SHA-256 collision.  The byte strings hashed
  are listed by \<open>tree_preimages\<close>, \<open>path_preimages\<close> and \<open>consistency_preimages\<close>, so the disjunct is not
  the mere existence of a collision, which holds for every hash function.
\<close>

subsection \<open>Inclusion proofs\<close>

definition read_sibling :: "string list \<Rightarrow> nat \<Rightarrow> tree_error + string" where
  "read_sibling nodes i =
     (if i < length nodes \<and> nodes ! i \<noteq> [] then Inr (nodes ! i) else Inl InsufficientProofNodes)"

function verifyPathRecursive ::
  "noble \<Rightarrow> int \<Rightarrow> int \<Rightarrow> string \<Rightarrow> string list \<Rightarrow> nat \<Rightarrow> tree_error + string \<times> nat" where
  "verifyPathRecursive N index n nodeHash nodes proofPos =
     (if n = 1 then Inr (nodeHash, 0)
      else
        (let k = largestPowerOfTwoLessThan n
         in if k = 0 then Inl StackOverflow
            else if index < k then
              res_bind (verifyPathRecursive N index k nodeHash nodes proofPos) (\<lambda>(computed, consumed).
              res_bind (read_sibling nodes (proofPos + consumed)) (\<lambda>rightSiblingHash.
              res_bind (map_err HexFailure (hashPair N computed rightSiblingHash)) (\<lambda>parentHash.
                Inr (parentHash, consumed + 1))))
            else
              res_bind (verifyPathRecursive N (index - k) (n - k) nodeHash nodes proofPos) (\<lambda>(computed, consumed).
              res_bind (read_sibling nodes (proofPos + consumed)) (\<lambda>leftSiblingHash.
              res_bind (map_err HexFailure (hashPair N leftSiblingHash computed)) (\<lambda>parentHash.
                Inr (parentHash, consumed + 1))))))"
  by pat_completeness auto
termination
proof (relation "measure (\<lambda>(N, index, n, nodeHash, nodes, proofPos). nat n)", goal_cases)
  case (2 N index n nodeHash nodes proofPos k)
  then have "1 < n" by (auto simp: largestPowerOfTwoLessThan_def split: if_splits)
  then show ?case using 2 pow2.split_less by auto
next
  case (3 N index n nodeHash nodes proofPos k)
  then have "1 < n" by (auto simp: largestPowerOfTwoLessThan_def split: if_splits)
  then show ?case using 3 pow2.split_pos [of n] by auto
qed simp

declare verifyPathRecursive.simps [simp del]

definition verifyInclusionProof ::
  "noble \<Rightarrow> string \<Rightarrow> int \<Rightarrow> string list \<Rightarrow> string \<Rightarrow> int \<Rightarrow> tree_error + bool" where
  "verifyInclusionProof N leafHash leafIndex nodes rootHash treeSize =
     (if leafIndex < 0 \<or> leafIndex \<ge> treeSize then Inr False
      else
        res_bind (map_err HexFailure (hashLeaf N leafHash)) (\<lambda>hashedLeaf.
          if treeSize = 1 \<and> length nodes = 0 then Inr (hashedLeaf = rootHash)
          else (case verifyPathRecursive N leafIndex treeSize hashedLeaf nodes 0 of
                  Inl _ \<Rightarrow> Inr False
                | Inr (computedRoot, nodesConsumed) \<Rightarrow>
                    Inr (computedRoot = rootHash \<and> nodesConsumed = length nodes))))"

definition verifyCTMerkleInclusion ::
  "noble \<Rightarrow> string \<Rightarrow> string list \<Rightarrow> int \<Rightarrow> string \<Rightarrow> int \<Rightarrow> tree_error + bool" where
  "verifyCTMerkleInclusion N commitment nodes leafIndex rootHash treeSize =
     (if treeSize \<le> 0 then Inl InvalidTreeSizeForInclusion
      else verifyInclusionProof N (normalizeHexString commitment) leafIndex
             (map normalizeHexString nodes) (normalizeHexString rootHash) treeSize)"

subsection \<open>Consistency proofs\<close>

definition hasValidConsistencyProofNodes :: "string list \<Rightarrow> bool" where
  "hasValidConsistencyProofNodes nodes =
     list_all (\<lambda>node. \<not> (node = [] \<or> length node \<noteq> 64 \<or> \<not> list_all is_hex_char node)) nodes"

definition readConsistencyProofNode :: "string list \<Rightarrow> nat \<Rightarrow> tree_error + string" where
  "readConsistencyProofNode nodes index =
     (if index \<ge> length nodes then Inl ProofExhausted
      else let node = nodes ! index in if node = [] then Inl ProofExhausted else Inr node)"

record reconstructed =
  oldHash :: string
  newHash :: string
  nextIndex :: nat

definition resolveEqualConsistencySubtree ::
  "string list \<Rightarrow> nat \<Rightarrow> bool \<Rightarrow> string option \<Rightarrow> tree_error + reconstructed" where
  "resolveEqualConsistencySubtree nodes index includeOldRoot knownOldRoot =
     (if includeOldRoot then
        (case knownOldRoot of
           None \<Rightarrow> Inl KnownOldRootRequired
         | Some r \<Rightarrow> if r = [] then Inl KnownOldRootRequired
                     else Inr \<lparr>oldHash = r, newHash = r, nextIndex = index\<rparr>)
      else res_bind (readConsistencyProofNode nodes index) (\<lambda>subtreeHash.
             Inr \<lparr>oldHash = subtreeHash, newHash = subtreeHash, nextIndex = index + 1\<rparr>))"

definition assertKnownOldRootMatch :: "string \<Rightarrow> bool \<Rightarrow> string option \<Rightarrow> tree_error + unit" where
  "assertKnownOldRootMatch combinedOldHash includeOldRoot knownOldRoot =
     (case knownOldRoot of
        None \<Rightarrow> Inr ()
      | Some r \<Rightarrow> if includeOldRoot \<and> r \<noteq> [] \<and> combinedOldHash \<noteq> r then Inl OldRootMismatch else Inr ())"

definition reconstructRawLeafExtension ::
  "noble \<Rightarrow> string list \<Rightarrow> nat \<Rightarrow> string option \<Rightarrow> tree_error + reconstructed" where
  "reconstructRawLeafExtension N nodes index knownOldRoot =
     (case knownOldRoot of
        None \<Rightarrow> Inl KnownOldRootRequired
      | Some r \<Rightarrow>
          if r = [] then Inl KnownOldRootRequired
          else
            res_bind (readConsistencyProofNode nodes index) (\<lambda>rawLeaf.
            res_bind (map_err HexFailure (hashLeaf N rawLeaf)) (\<lambda>hashedLeaf.
            res_bind (map_err HexFailure (hashPair N r hashedLeaf)) (\<lambda>newH.
              Inr \<lparr>oldHash = r, newHash = newH, nextIndex = index + 1\<rparr>))))"

function reconstructConsistencyHashes ::
  "noble \<Rightarrow> int \<Rightarrow> int \<Rightarrow> string list \<Rightarrow> nat \<Rightarrow> bool \<Rightarrow> string option \<Rightarrow> tree_error + reconstructed" where
  "reconstructConsistencyHashes N old new nodes index includeOldRoot knownOldRoot =
     (if old = new then resolveEqualConsistencySubtree nodes index includeOldRoot knownOldRoot
      else if old = 1 \<and> new = 2 \<and> includeOldRoot then reconstructRawLeafExtension N nodes index knownOldRoot
      else
        (let k = largestPowerOfTwoLessThan new
         in if k = 0 then Inl InvalidTreeSplit
            else if old \<le> k then
              res_bind (reconstructConsistencyHashes N old k nodes index includeOldRoot knownOldRoot) (\<lambda>left.
              res_bind (readConsistencyProofNode nodes (nextIndex left)) (\<lambda>rightHash.
              res_bind (map_err HexFailure (hashPair N (newHash left) rightHash)) (\<lambda>combinedNewHash.
                Inr \<lparr>oldHash = oldHash left, newHash = combinedNewHash, nextIndex = nextIndex left + 1\<rparr>)))
            else
              res_bind (reconstructConsistencyHashes N (old - k) (new - k) nodes index False None) (\<lambda>right.
              res_bind (readConsistencyProofNode nodes (nextIndex right)) (\<lambda>leftHash.
              res_bind (map_err HexFailure (hashPair N leftHash (oldHash right))) (\<lambda>combinedOldHash.
              res_bind (map_err HexFailure (hashPair N leftHash (newHash right))) (\<lambda>combinedNewHash.
              res_bind (assertKnownOldRootMatch combinedOldHash includeOldRoot knownOldRoot) (\<lambda>_.
                Inr \<lparr>oldHash = combinedOldHash, newHash = combinedNewHash, nextIndex = nextIndex right + 1\<rparr>)))))))"
  by pat_completeness auto
termination
proof (relation "measure (\<lambda>(N, old, new, nodes, index, b, r). nat new)", goal_cases)
  case (2 N old new nodes index b r k)
  then have "1 < new" by (auto simp: largestPowerOfTwoLessThan_def split: if_splits)
  then show ?case using 2 pow2.split_less by auto
next
  case (3 N old new nodes index b r k)
  then have "1 < new" by (auto simp: largestPowerOfTwoLessThan_def split: if_splits)
  then show ?case using 3 pow2.split_pos [of new] by auto
qed simp

declare reconstructConsistencyHashes.simps [simp del]

definition isPerfectTreeDoubling :: "int \<Rightarrow> int \<Rightarrow> bool" where
  "isPerfectTreeDoubling old new = (isPowerOfTwo old \<and> isPowerOfTwo new \<and> new = old * 2)"

definition verifySingleNodeExtension ::
  "noble \<Rightarrow> string \<Rightarrow> string \<Rightarrow> string list \<Rightarrow> bool \<Rightarrow> tree_error + bool" where
  "verifySingleNodeExtension N oldRoot newRoot nodes rawLeaf =
     (if length nodes \<noteq> 1 then Inr False
      else let node = nodes ! 0
           in if node = [] then Inr False
              else
                res_bind (if rawLeaf then map_err HexFailure (hashLeaf N node) else Inr node) (\<lambda>rightHash.
                res_bind (map_err HexFailure (hashPair N oldRoot rightHash)) (\<lambda>h. Inr (h = newRoot))))"

definition verifyReconstructedConsistencyProof ::
  "noble \<Rightarrow> string \<Rightarrow> string \<Rightarrow> consistency_proof \<Rightarrow> bool" where
  "verifyReconstructedConsistencyProof N oldRoot newRoot p =
     (case reconstructConsistencyHashes N (oldSize p) (newSize p) (proofNodes p) 0 True (Some oldRoot) of
        Inl _ \<Rightarrow> False
      | Inr r \<Rightarrow> nextIndex r = length (proofNodes p) \<and> oldHash r = oldRoot \<and> newHash r = newRoot)"

definition verifyConsistencyProof ::
  "noble \<Rightarrow> string \<Rightarrow> string \<Rightarrow> consistency_proof \<Rightarrow> tree_error + bool" where
  "verifyConsistencyProof N oldRoot newRoot p =
     (if oldSize p = newSize p then Inr (oldRoot = newRoot \<and> length (proofNodes p) = 0)
      else if length (proofNodes p) = 0 then Inr False
      else if \<not> hasValidConsistencyProofNodes (proofNodes p) then Inr False
      else if oldSize p = 1 \<and> newSize p = 2
           then verifySingleNodeExtension N oldRoot newRoot (proofNodes p) True
      else if isPerfectTreeDoubling (oldSize p) (newSize p)
           then verifySingleNodeExtension N oldRoot newRoot (proofNodes p) False
      else Inr (verifyReconstructedConsistencyProof N oldRoot newRoot p))"

subsection \<open>Arithmetic of the split point\<close>

lemma largestPowerOfTwoLessThan_spec:
  assumes "1 < n"
  shows "\<exists>j. largestPowerOfTwoLessThan n = 2 ^ j" "largestPowerOfTwoLessThan n < n"
    "n \<le> 2 * largestPowerOfTwoLessThan n"
  using assms lpo2_loop_power [of 1 0 n] lpo2_loop_half [of 1 n] pow2.split_less [OF assms]
  by (auto simp: largestPowerOfTwoLessThan_def)

lemma power_of_two_unique:
  assumes "(2::int) ^ i < n" "n \<le> 2 * 2 ^ i" "2 ^ j < n" "n \<le> 2 * 2 ^ j"
  shows "i = j"
proof -
  have "(2::int) ^ i < 2 ^ Suc j" "(2::int) ^ j < 2 ^ Suc i"
    using assms by simp_all
  then have "i < Suc j" "j < Suc i"
    by (simp_all only: power_strict_increasing_iff)
  then show ?thesis by simp
qed

text \<open>Between the split point and the size the split point does not move.\<close>

lemma largestPowerOfTwoLessThan_stable:
  assumes "1 < n" "largestPowerOfTwoLessThan n < m" "m \<le> n" "1 < m"
  shows "largestPowerOfTwoLessThan m = largestPowerOfTwoLessThan n"
proof -
  obtain i j where ij: "largestPowerOfTwoLessThan n = 2 ^ i" "largestPowerOfTwoLessThan m = 2 ^ j"
    using largestPowerOfTwoLessThan_spec(1) assms by metis
  then have "i = j"
    using largestPowerOfTwoLessThan_spec(2,3) [OF assms(1)] largestPowerOfTwoLessThan_spec(2,3) [OF assms(4)] assms
    by (intro power_of_two_unique [of i m j]) auto
  with ij show ?thesis by simp
qed

lemma bit_below_power:
  assumes "(2::int) ^ i \<le> m" "m < 2 ^ Suc i"
  shows "bit m i"
proof -
  have "m div 2 ^ i = 1"
    using assms by (intro int_div_pos_eq [of _ _ _ "m - 2 ^ i"]) auto
  then show ?thesis by (simp add: bit_iff_odd)
qed

lemma isPowerOfTwo_split:
  assumes "isPowerOfTwo m" "m < 2 ^ 32"
  shows "largestPowerOfTwoLessThan (m * 2) = m"
proof -
  have pos: "0 < m" using assms(1) by (simp add: isPowerOfTwo_def)
  obtain j where j: "largestPowerOfTwoLessThan (m * 2) = 2 ^ j" "2 ^ j < m * 2" "m * 2 \<le> 2 * 2 ^ j"
    using largestPowerOfTwoLessThan_spec [of "m * 2"] pos by auto
  have "m = 2 ^ j"
  proof (rule ccontr)
    assume "m \<noteq> 2 ^ j"
    then have less: "m < 2 ^ j" using j(3) by simp
    with j(2) pos obtain i where i: "j = Suc i" by (cases j) auto
    have "(2::int) ^ i < 2 ^ 32" using j(2) i assms(2) by simp
    then have i32: "i < 32" by (simp only: power_strict_increasing_iff)
    have "bit m i" "bit (m - 1) i"
      using j(2) less i by (intro bit_below_power; simp)+
    then have "bit (and (word_of_int m :: 32 word) (word_of_int (m - 1))) i"
      using i32 by (simp only: bit_and_iff bit_word_of_int_iff) simp
    moreover have "and (word_of_int m :: 32 word) (word_of_int (m - 1)) = 0"
      using assms(1) by (simp only: isPowerOfTwo_def)
    ultimately show False by (simp only: bit_0_eq bot_apply bot_bool_def)
  qed
  with j(1) show ?thesis by simp
qed

end
