(* ===== verification/MerkleProofs.thy ===== *)
theory MerkleProofs
  imports MerkleVerify
begin

text \<open>
  Completeness and soundness of inclusion proofs: the lemmas behind the properties of the Merkle tree
  in the root theory.
\<close>

subsection \<open>Preimages\<close>

text \<open>The byte strings hashed when the reference computes the root of a list of leaves.\<close>

function tree_preimages :: "noble \<Rightarrow> byte list list \<Rightarrow> byte list list" where
  "tree_preimages N ds =
     (if length ds = 0 then [[]]
      else if length ds = 1 then [0 # LEAF_DOMAIN_TAG N @ hd ds]
      else (1 # mth_spec N (take (split_at ds) ds) @ mth_spec N (drop (split_at ds) ds)) #
           tree_preimages N (take (split_at ds) ds) @ tree_preimages N (drop (split_at ds) ds))"
  by pat_completeness auto
termination
proof (relation "measure (\<lambda>(N, ds). length ds)", goal_cases)
  case (2 N ds)
  then have "1 < length ds" by (cases ds) auto
  then show ?case using split_at_shrinks(1) [of ds] by simp
next
  case (3 N ds)
  then have "1 < length ds" by (cases ds) auto
  then show ?case using split_at_shrinks(2) [of ds] by simp
qed simp

declare tree_preimages.simps [simp del]

lemma tree_preimages_node:
  "1 < length ds \<Longrightarrow> tree_preimages N ds =
     (1 # mth_spec N (take (split_at ds) ds) @ mth_spec N (drop (split_at ds) ds)) #
       tree_preimages N (take (split_at ds) ds) @ tree_preimages N (drop (split_at ds) ds)"
  by (subst tree_preimages.simps) fastforce

lemma tree_preimages_single: "tree_preimages N [d] = [0 # LEAF_DOMAIN_TAG N @ d]"
  by (simp add: tree_preimages.simps)

lemma tree_preimages_leaf: "i < length ds \<Longrightarrow> 0 # LEAF_DOMAIN_TAG N @ ds ! i \<in> set (tree_preimages N ds)"
proof (induction ds arbitrary: i rule: tree_induct)
  case (small ds)
  then show ?case by (cases ds) (auto simp: tree_preimages_single)
next
  case (node ds)
  show ?case
  proof (cases "i < split_at ds")
    case True
    with node.IH(1) [of i] node.prems show ?thesis by (simp add: tree_preimages_node [OF node.hyps(1)])
  next
    case False
    with node.IH(2) [of "i - split_at ds"] node.prems show ?thesis
      by (simp add: tree_preimages_node [OF node.hyps(1)])
  qed
qed

lemma split_int: "1 < length ds \<Longrightarrow> largestPowerOfTwoLessThan (int (length ds)) = int (split_at ds)"
  using pow2.split_pos [of "int (length ds)"] by (simp add: split_at_def)

lemma length_split [simp]:
  "1 < length ds \<Longrightarrow> length (take (split_at ds) ds) = split_at ds"
  "length (drop (split_at ds) ds) = length ds - split_at ds"
  using split_at_bounds [of ds] by simp_all

lemma length_leafH [simp]: "noble_ok N \<Longrightarrow> length (leafH N d) = 32"
  and length_nodeH [simp]: "noble_ok N \<Longrightarrow> length (nodeH N l r) = 32"
  by (simp_all add: leafH_def nodeH_def length_sha256)

lemma leafH_not_Nil [simp]: "noble_ok N \<Longrightarrow> leafH N d \<noteq> []"
  and nodeH_not_Nil [simp]: "noble_ok N \<Longrightarrow> nodeH N l r \<noteq> []"
  using length_leafH [of N d] length_nodeH [of N l r] by force+

lemma drop_nth:
  assumes "drop p xs = as @ x # bs"
  shows "p + length as < length xs" "xs ! (p + length as) = x"
proof -
  have p: "p \<le> length xs" using assms by (metis append_is_Nil_conv drop_all linear list.distinct(1))
  have "length (drop p xs) > length as" using assms by simp
  then show lt: "p + length as < length xs" by simp
  have "drop p xs ! length as = x" using assms by simp
  then show "xs ! (p + length as) = x" using p by simp
qed

subsection \<open>Completeness of inclusion proofs\<close>

lemma verifyPath_complete:
  assumes "noble_ok N"
  shows "i < length ds \<Longrightarrow> drop pos nodes = map (bytesToHex N) (path_spec N i ds) @ rest \<Longrightarrow>
    verifyPathRecursive N (int i) (int (length ds)) (bytesToHex N (leafH N (ds ! i))) nodes pos =
      Inr (bytesToHex N (mth_spec N ds), length (path_spec N i ds))"
proof (induction ds arbitrary: i rest rule: tree_induct)
  case (small ds)
  then obtain d where "ds = [d]" by (cases ds) auto
  with small show ?case
    by (simp add: verifyPathRecursive.simps path_spec_small mth_spec_simps)
next
  case (node ds)
  let ?k = "split_at ds" and ?hex = "bytesToHex N"
  have k: "0 < ?k" "?k < length ds" using split_at_bounds [OF node.hyps(1)] by auto
  have len: "int (length ds) \<noteq> 1" using node.hyps(1) by simp
  show ?case
  proof (cases "i < ?k")
    case True
    have ps: "path_spec N i ds = path_spec N i (take ?k ds) @ [mth_spec N (drop ?k ds)]"
      using True node.hyps(1) by (simp add: path_spec.simps [of N i ds])
    let ?u = "length (path_spec N i (take ?k ds))"
    have IH: "verifyPathRecursive N (int i) (int ?k) (?hex (leafH N (ds ! i))) nodes pos =
        Inr (?hex (mth_spec N (take ?k ds)), ?u)"
      using node.IH(1) [of i "?hex (mth_spec N (drop ?k ds)) # rest"] True k node.prems(2) ps by simp
    have "read_sibling nodes (pos + ?u) = Inr (?hex (mth_spec N (drop ?k ds)))"
      using drop_nth [of pos nodes "map ?hex (path_spec N i (take ?k ds))"] node.prems(2) ps assms
      by (simp add: read_sibling_def bytesToHex_Nil_iff)
    then show ?thesis
      using True IH k len
      by (subst verifyPathRecursive.simps)
         (simp add: split_int [OF node.hyps(1)] hashPair_mth [OF assms] ps mth_spec_simps(3) [OF node.hyps(1)])
  next
    case False
    have ps: "path_spec N i ds = path_spec N (i - ?k) (drop ?k ds) @ [mth_spec N (take ?k ds)]"
      using False node.hyps(1) by (simp add: path_spec.simps [of N i ds])
    let ?u = "length (path_spec N (i - ?k) (drop ?k ds))"
    have IH: "verifyPathRecursive N (int i - int ?k) (int (length ds) - int ?k) (?hex (leafH N (ds ! i))) nodes pos =
        Inr (?hex (mth_spec N (drop ?k ds)), ?u)"
      using node.IH(2) [of "i - ?k" "?hex (mth_spec N (take ?k ds)) # rest"] False k node.prems ps
      by (simp add: of_nat_diff)
    have "read_sibling nodes (pos + ?u) = Inr (?hex (mth_spec N (take ?k ds)))"
      using drop_nth [of pos nodes "map ?hex (path_spec N (i - ?k) (drop ?k ds))"] node.prems(2) ps assms
      by (simp add: read_sibling_def bytesToHex_Nil_iff)
    then show ?thesis
      using False IH k len
      by (subst verifyPathRecursive.simps)
         (simp add: split_int [OF node.hyps(1)] hashPair_mth [OF assms] ps mth_spec_simps(3) [OF node.hyps(1)])
  qed
qed

lemma verifyInclusion_complete:
  assumes "noble_ok N" "i < length ds" "hexToBytesStrict N leaf = Inr (ds ! i)"
  shows "verifyInclusionProof N leaf (int i) (map (bytesToHex N) (path_spec N i ds))
           (bytesToHex N (mth_spec N ds)) (int (length ds)) = Inr True"
proof (cases "length ds = 1")
  case True
  then obtain d where "ds = [d]" by (cases ds) auto
  with assms show ?thesis
    by (simp add: verifyInclusionProof_def hashLeaf_eq path_spec_small mth_spec_simps)
next
  case False
  with assms(2) have "int (length ds) \<noteq> 1" by simp
  then show ?thesis
    using assms(2) verifyPath_complete [OF assms(1,2), of 0 "map (bytesToHex N) (path_spec N i ds)" "[]"]
    by (simp add: verifyInclusionProof_def hashLeaf_eq [OF assms(3)])
qed

subsection \<open>Soundness of inclusion proofs\<close>

text \<open>The byte strings of internal nodes that the verifier hashes, and all it hashes.\<close>

function path_preimages :: "noble \<Rightarrow> int \<Rightarrow> int \<Rightarrow> string \<Rightarrow> string list \<Rightarrow> nat \<Rightarrow> byte list list" where
  "path_preimages N index n nodeHash nodes pos =
     (let k = largestPowerOfTwoLessThan n
      in if k = 0 then []
         else if index < k then
           (case verifyPathRecursive N index k nodeHash nodes pos of
              Inl _ \<Rightarrow> []
            | Inr (c, u) \<Rightarrow> (1 # leaf_bytes N c @ leaf_bytes N (nodes ! (pos + u))) #
                path_preimages N index k nodeHash nodes pos)
         else
           (case verifyPathRecursive N (index - k) (n - k) nodeHash nodes pos of
              Inl _ \<Rightarrow> []
            | Inr (c, u) \<Rightarrow> (1 # leaf_bytes N (nodes ! (pos + u)) @ leaf_bytes N c) #
                path_preimages N (index - k) (n - k) nodeHash nodes pos))"
  by pat_completeness auto
termination
proof (relation "measure (\<lambda>(N, index, n, nodeHash, nodes, pos). nat n)", goal_cases)
  case (2 N index n nodeHash nodes proofPos k)
  then have "1 < n" by (auto simp: largestPowerOfTwoLessThan_def split: if_splits)
  then show ?case using 2 pow2.split_less by auto
next
  case (3 N index n nodeHash nodes proofPos k)
  then have "1 < n" by (auto simp: largestPowerOfTwoLessThan_def split: if_splits)
  then show ?case using 3 pow2.split_pos [of n] by auto
qed simp

declare path_preimages.simps [simp del]

definition inclusion_preimages :: "noble \<Rightarrow> string \<Rightarrow> int \<Rightarrow> string list \<Rightarrow> int \<Rightarrow> byte list list" where
  "inclusion_preimages N leaf index nodes n =
     (0 # LEAF_DOMAIN_TAG N @ leaf_bytes N leaf) #
       path_preimages N index n (bytesToHex N (leafH N (leaf_bytes N leaf))) nodes 0"

lemma hashPair_Inr:
  assumes "noble_ok N" "hashPair N l r = Inr h"
  shows "hexToBytesStrict N l = Inr (leaf_bytes N l)" "hexToBytesStrict N r = Inr (leaf_bytes N r)"
    "h = bytesToHex N (nodeH N (leaf_bytes N l) (leaf_bytes N r))"
    "hexToBytesStrict N h = Inr (nodeH N (leaf_bytes N l) (leaf_bytes N r))"
proof -
  show l: "hexToBytesStrict N l = Inr (leaf_bytes N l)" and r: "hexToBytesStrict N r = Inr (leaf_bytes N r)"
    using assms(2) by (auto simp: hashPair_def err_simps leaf_bytes_def)
  show h: "h = bytesToHex N (nodeH N (leaf_bytes N l) (leaf_bytes N r))"
    using assms(2) by (simp add: hashPair_eq [OF l r])
  show "hexToBytesStrict N h = Inr (nodeH N (leaf_bytes N l) (leaf_bytes N r))"
    using assms(1) by (simp add: h)
qed

lemma nodeH_eq:
  assumes "nodeH N a b = nodeH N c d" "1 # a @ b \<in> set xs" "1 # c @ d \<in> set ys"
  shows "a @ b = c @ d \<or> collides N xs ys"
  using collidesI [OF assms(2,3)] assms(1) by (auto simp: nodeH_def)

lemma read_sibling_Inr: "read_sibling nodes i = Inr s \<Longrightarrow> nodes ! i = s"
  by (auto simp: read_sibling_def split: if_splits)

text \<open>
  One step of the argument: a parent computed from a 32-byte child and a sibling equals the root of
  the range only if child and sibling are the roots of its halves (or two preimages collide).
\<close>

lemma parent_left:
  assumes "noble_ok N" "1 < length ds" "length cb = 32" "nodeH N cb sb = mth_spec N ds"
    "1 # cb @ sb \<in> set xs"
  shows "cb = mth_spec N (take (split_at ds) ds) \<and> sb = mth_spec N (drop (split_at ds) ds) \<or>
    collides N xs (tree_preimages N ds)"
proof -
  let ?l = "mth_spec N (take (split_at ds) ds)" and ?r = "mth_spec N (drop (split_at ds) ds)"
  have "cb @ sb = ?l @ ?r \<or> collides N xs (tree_preimages N ds)"
    using assms(4,5) by (intro nodeH_eq) (simp_all add: mth_spec_simps(3) [OF assms(2)] tree_preimages_node [OF assms(2)])
  then show ?thesis using assms(1,3) by (auto dest: concat_eq_split [rotated])
qed

lemma parent_right:
  assumes "noble_ok N" "1 < length ds" "length cb = 32" "nodeH N sb cb = mth_spec N ds"
    "1 # sb @ cb \<in> set xs"
  shows "cb = mth_spec N (drop (split_at ds) ds) \<and> sb = mth_spec N (take (split_at ds) ds) \<or>
    collides N xs (tree_preimages N ds)"
proof -
  let ?l = "mth_spec N (take (split_at ds) ds)" and ?r = "mth_spec N (drop (split_at ds) ds)"
  have "sb @ cb = ?l @ ?r \<or> collides N xs (tree_preimages N ds)"
    using assms(4,5) by (intro nodeH_eq) (simp_all add: mth_spec_simps(3) [OF assms(2)] tree_preimages_node [OF assms(2)])
  then show ?thesis using assms(1,3) by (auto dest: concat_eq_split_right [rotated])
qed

lemma collides_half:
  assumes "1 < length ds" "collides N xs (tree_preimages N ds')"
    "ds' = take (split_at ds) ds \<or> ds' = drop (split_at ds) ds"
  shows "collides N (x # xs) (tree_preimages N ds)"
  using assms(2) by (rule collides_mono) (use assms(3) in \<open>auto simp: tree_preimages_node [OF assms(1)]\<close>)

lemma verifyPath_sound:
  assumes "noble_ok N" "hexToBytesStrict N h = Inr hb" "length hb = 32"
  shows "i < length ds \<Longrightarrow> verifyPathRecursive N (int i) (int (length ds)) h nodes pos = Inr (c, u) \<Longrightarrow>
    \<exists>cb. hexToBytesStrict N c = Inr cb \<and> length cb = 32 \<and>
      (cb = mth_spec N ds \<longrightarrow> hb = leafH N (ds ! i) \<or>
         collides N (path_preimages N (int i) (int (length ds)) h nodes pos) (tree_preimages N ds))"
proof (induction ds arbitrary: i c u rule: tree_induct)
  case (small ds)
  then obtain d where "ds = [d]" by (cases ds) auto
  with small.prems assms show ?case by (auto simp: verifyPathRecursive.simps mth_spec_simps)
next
  case (node ds)
  let ?k = "split_at ds"
  let ?pre = "path_preimages N (int i) (int (length ds)) h nodes pos"
  have k: "0 < ?k" "?k < length ds" using split_at_bounds [OF node.hyps(1)] by auto
  have len: "int (length ds) \<noteq> 1" using node.hyps(1) by simp
  note unf = verifyPathRecursive.simps [of N "int i" "int (length ds)"] split_int [OF node.hyps(1)]
  note punf = path_preimages.simps [of N "int i" "int (length ds)"] split_int [OF node.hyps(1)]
  show ?case
  proof (cases "i < ?k")
    case True
    from node.prems(2) True len k obtain c' u' where
      r: "verifyPathRecursive N (int i) (int ?k) h nodes pos = Inr (c', u')" and
      hp: "hashPair N c' (nodes ! (pos + u')) = Inr c"
      by (auto simp: unf Let_def err_simps dest: read_sibling_Inr)
    obtain cb where cb: "hexToBytesStrict N c' = Inr cb" "length cb = 32"
      "cb = mth_spec N (take ?k ds) \<longrightarrow> hb = leafH N (ds ! i) \<or>
         collides N (path_preimages N (int i) (int ?k) h nodes pos) (tree_preimages N (take ?k ds))"
      using node.IH(1) [of i c' u'] True k r by auto
    let ?sb = "leaf_bytes N (nodes ! (pos + u'))"
    have cb': "leaf_bytes N c' = cb" using cb(1) by (simp add: leaf_bytes_def)
    have pre: "?pre = (1 # cb @ ?sb) # path_preimages N (int i) (int ?k) h nodes pos"
      using True k r by (simp add: punf Let_def cb')
    have "nodeH N cb ?sb = mth_spec N ds \<longrightarrow> hb = leafH N (ds ! i) \<or> collides N ?pre (tree_preimages N ds)"
      using parent_left [OF assms(1) node.hyps(1) cb(2), of ?sb ?pre] cb(3)
        collides_half [OF node.hyps(1), of N _ "take ?k ds"] by (auto simp: pre)
    then show ?thesis using hashPair_Inr(4) [OF assms(1) hp] assms(1) by (auto simp: cb')
  next
    case False
    have i': "i - ?k < length (drop ?k ds)" using False node.prems(1) k by simp
    from node.prems(2) False len k obtain c' u' where
      r: "verifyPathRecursive N (int (i - ?k)) (int (length (drop ?k ds))) h nodes pos = Inr (c', u')" and
      hp: "hashPair N (nodes ! (pos + u')) c' = Inr c"
      by (auto simp: unf Let_def err_simps of_nat_diff dest: read_sibling_Inr)
    obtain cb where cb: "hexToBytesStrict N c' = Inr cb" "length cb = 32"
      "cb = mth_spec N (drop ?k ds) \<longrightarrow> hb = leafH N (ds ! i) \<or>
         collides N (path_preimages N (int (i - ?k)) (int (length (drop ?k ds))) h nodes pos)
           (tree_preimages N (drop ?k ds))"
      using node.IH(2) [OF i' r] False k by auto
    let ?sb = "leaf_bytes N (nodes ! (pos + u'))"
    have cb': "leaf_bytes N c' = cb" using cb(1) by (simp add: leaf_bytes_def)
    have pre: "?pre = (1 # ?sb @ cb) # path_preimages N (int (i - ?k)) (int (length (drop ?k ds))) h nodes pos"
      using False k r by (simp add: punf Let_def cb' of_nat_diff)
    have "nodeH N ?sb cb = mth_spec N ds \<longrightarrow> hb = leafH N (ds ! i) \<or> collides N ?pre (tree_preimages N ds)"
      using parent_right [OF assms(1) node.hyps(1) cb(2), of ?sb ?pre] cb(3)
        collides_half [OF node.hyps(1), of N _ "drop ?k ds"] by (auto simp: pre)
    then show ?thesis using hashPair_Inr(4) [OF assms(1) hp] assms(1) by (auto simp: cb')
  qed
qed

lemma verifyInclusion_sound:
  assumes N: "noble_ok N"
    and acc: "verifyInclusionProof N leaf index nodes (bytesToHex N (mth_spec N ds)) (int (length ds)) = Inr True"
  shows "0 \<le> index \<and> nat index < length ds \<and>
    (leaf_bytes N leaf = ds ! nat index \<or>
     collides N (inclusion_preimages N leaf index nodes (int (length ds))) (tree_preimages N ds))"
proof -
  let ?i = "nat index" and ?b = "leaf_bytes N leaf"
  let ?pre = "inclusion_preimages N leaf index nodes (int (length ds))"
  have i: "0 \<le> index" "?i < length ds" "int ?i = index"
    using acc by (auto simp: verifyInclusionProof_def split: if_splits)
  have hl: "hashLeaf N leaf = Inr (bytesToHex N (leafH N ?b))"
    using acc i by (auto simp: verifyInclusionProof_def hashLeaf_def err_simps leaf_bytes_def sha256Hex_def leafH_def)
  have "leafH N ?b = leafH N (ds ! ?i) \<or> collides N ?pre (tree_preimages N ds)"
  proof (cases "length ds = 1 \<and> nodes = []")
    case True
    then obtain d where "ds = [d]" by (cases ds) auto
    with True acc i hl N show ?thesis by (simp add: verifyInclusionProof_def mth_spec_simps)
  next
    case False
    then obtain u where v: "verifyPathRecursive N (int ?i) (int (length ds)) (bytesToHex N (leafH N ?b)) nodes 0 =
        Inr (bytesToHex N (mth_spec N ds), u)"
      using acc i hl by (auto simp: verifyInclusionProof_def split: sum.splits)
    have d: "hexToBytesStrict N (bytesToHex N (leafH N ?b)) = Inr (leafH N ?b)" using N by simp
    from verifyPath_sound [OF N d _ i(2) v] N i(3) show ?thesis
      by (auto simp: inclusion_preimages_def intro: collides_mono)
  qed
  moreover have "?b = ds ! ?i \<or> collides N ?pre (tree_preimages N ds)" if "leafH N ?b = leafH N (ds ! ?i)"
    using that collidesI [of "0 # LEAF_DOMAIN_TAG N @ ?b" ?pre "0 # LEAF_DOMAIN_TAG N @ ds ! ?i"
        "tree_preimages N ds" N] tree_preimages_leaf [OF i(2), of N]
    by (auto simp: inclusion_preimages_def leafH_def)
  ultimately show ?thesis using i by blast
qed

end
