(* ===== verification/ConsistencyProofs.thy ===== *)
theory ConsistencyProofs
  imports MerkleProofs
begin

text \<open>
  Completeness and soundness of consistency proofs: the proof of an older size against a newer root is
  accepted, and an accepted proof fixes the older root to be the root of the prefix.
\<close>

subsection \<open>The root of a prefix\<close>

lemma split_at_take:
  assumes "1 < length ds" "split_at ds < m" "m \<le> length ds"
  shows "split_at (take m ds) = split_at ds"
proof -
  have "1 < m" using split_at_bounds(1) [OF assms(1)] assms(2) by simp
  then have "largestPowerOfTwoLessThan (int m) = largestPowerOfTwoLessThan (int (length ds))"
    using assms by (intro largestPowerOfTwoLessThan_stable) (simp_all add: split_int)
  then show ?thesis using assms(3) by (simp add: split_at_def)
qed

lemma mth_spec_take:
  assumes "1 < length ds" "split_at ds < m" "m \<le> length ds"
  shows "mth_spec N (take m ds) =
    nodeH N (mth_spec N (take (split_at ds) ds)) (mth_spec N (take (m - split_at ds) (drop (split_at ds) ds)))"
proof -
  have "1 < length (take m ds)" using split_at_bounds(1) [OF assms(1)] assms(2,3) by simp
  then show ?thesis
    using assms(2) by (simp add: mth_spec_simps(3) split_at_take [OF assms] min_def drop_take)
qed

lemma subproof_spec_simps:
  "subproof_spec N (length ds) ds b = (if b then [] else [mth_spec N ds])"
  "length ds = 2 \<Longrightarrow> subproof_spec N 1 ds True = [ds ! 1]"
  "1 < length ds \<Longrightarrow> m < length ds \<Longrightarrow> \<not> (m = 1 \<and> length ds = 2 \<and> b) \<Longrightarrow> m \<le> split_at ds \<Longrightarrow>
     subproof_spec N m ds b = subproof_spec N m (take (split_at ds) ds) b @ [mth_spec N (drop (split_at ds) ds)]"
  "1 < length ds \<Longrightarrow> m < length ds \<Longrightarrow> split_at ds < m \<Longrightarrow>
     subproof_spec N m ds b =
       subproof_spec N (m - split_at ds) (drop (split_at ds) ds) False @ [mth_spec N (take (split_at ds) ds)]"
  using split_at_bounds [of ds] by (subst subproof_spec.simps, force)+

lemma list_all_split:
  "list_all P ds \<Longrightarrow> list_all P (take n ds)" "list_all P ds \<Longrightarrow> list_all P (drop n ds)"
  by (auto simp: list_all_iff dest: in_set_takeD in_set_dropD)

lemma subproof_cases:
  assumes "m \<le> length ds"
  obtains (full) "m = length ds" | (raw) "m = 1" "length ds = 2" b
    | (left) "m < length ds" "\<not> (m = 1 \<and> length ds = 2 \<and> b)" "m \<le> split_at ds"
    | (right) "m < length ds" "split_at ds < m"
  using assms by linarith

lemma subproof_spec_lengths:
  assumes "noble_ok N"
  shows "list_all (\<lambda>d. length d = 32) ds \<Longrightarrow> m \<le> length ds \<Longrightarrow> list_all (\<lambda>d. length d = 32) (subproof_spec N m ds b)"
proof (induction ds arbitrary: m b rule: tree_induct)
  case (small ds)
  then show ?case using assms by (subst subproof_spec.simps) simp
next
  case (node ds)
  note k = split_at_bounds [OF node.hyps(1)]
  from node.prems(2) show ?case
  proof (cases rule: subproof_cases [where b = b])
    case full
    then show ?thesis using assms by (simp add: subproof_spec_simps(1))
  next
    case raw
    then show ?thesis using node.prems(1) subproof_spec_simps(2) [of ds N] by (simp add: list_all_length)
  next
    case left
    have "list_all (\<lambda>d. length d = 32) (subproof_spec N m (take (split_at ds) ds) b)"
      using left k by (intro node.IH(1) list_all_split node.prems(1)) simp
    then show ?thesis using assms by (simp add: subproof_spec_simps(3) [OF node.hyps(1) left])
  next
    case right
    have "list_all (\<lambda>d. length d = 32) (subproof_spec N (m - split_at ds) (drop (split_at ds) ds) False)"
      using right k by (intro node.IH(2) list_all_split node.prems(1)) simp
    then show ?thesis using assms by (simp add: subproof_spec_simps(4) [OF node.hyps(1) right])
  qed
qed

subsection \<open>Completeness\<close>

definition known_root :: "noble \<Rightarrow> bool \<Rightarrow> nat \<Rightarrow> byte list list \<Rightarrow> string option" where
  "known_root N b m ds = (if b then Some (bytesToHex N (mth_spec N (take m ds))) else None)"

lemma read_node:
  assumes "noble_ok N" "drop i nodes = map (bytesToHex N) as @ bytesToHex N x # rest" "x \<noteq> []"
  shows "readConsistencyProofNode nodes (i + length as) = Inr (bytesToHex N x)"
  using drop_nth [OF assms(2)] assms(1,3) by (simp add: readConsistencyProofNode_def bytesToHex_Nil_iff)

lemma known_root_take: "m \<le> k \<Longrightarrow> known_root N b m (take k ds) = known_root N b m ds"
  by (simp add: known_root_def min_def)

lemma reconstruct_complete:
  assumes "noble_ok N"
  shows "list_all (\<lambda>d. length d = 32) ds \<Longrightarrow> 0 < m \<Longrightarrow> m \<le> length ds \<Longrightarrow>
    drop i nodes = map (bytesToHex N) (subproof_spec N m ds b) @ rest \<Longrightarrow>
    reconstructConsistencyHashes N (int m) (int (length ds)) nodes i b (known_root N b m ds) =
      Inr \<lparr>oldHash = bytesToHex N (mth_spec N (take m ds)), newHash = bytesToHex N (mth_spec N ds),
           nextIndex = i + length (subproof_spec N m ds b)\<rparr>"
proof (induction ds arbitrary: m b rest rule: tree_induct)
  case (small ds)
  then have "m = length ds" by simp
  with small.prems(4) read_node [of N i nodes "[]" "mth_spec N ds" rest] assms show ?case
    by (cases b) (simp_all add: reconstructConsistencyHashes.simps resolveEqualConsistencySubtree_def
        known_root_def subproof_spec_simps bytesToHex_Nil_iff)
next
  case (node ds)
  let ?k = "split_at ds" and ?hex = "bytesToHex N"
  have k: "0 < ?k" "?k < length ds" using split_at_bounds [OF node.hyps(1)] by auto
  note unf = reconstructConsistencyHashes.simps [of N "int m" "int (length ds)"] split_int [OF node.hyps(1)]
  note sub = list_all_split [OF node.prems(1), of ?k]
  from node.prems(3) show ?case
  proof (cases rule: subproof_cases [where b = b])
    case full
    with node.prems(4) read_node [of N i nodes "[]" "mth_spec N ds" rest] assms show ?thesis
      by (cases b) (simp_all add: reconstructConsistencyHashes.simps resolveEqualConsistencySubtree_def
          known_root_def subproof_spec_simps bytesToHex_Nil_iff)
  next
    case raw
    obtain d0 d1 where ds: "ds = [d0, d1]" using raw(2) by (cases ds; cases "tl ds") auto
    have ne: "d1 \<noteq> []" "subproof_spec N m ds b = [d1]"
      using node.prems(1) raw subproof_spec_simps(2) [of ds N] by (auto simp: ds)
    then have "readConsistencyProofNode nodes i = Inr (?hex d1)"
      using read_node [OF assms, of i nodes "[]" d1 rest] node.prems(4) by simp
    moreover have "?k = 1" using k ds by simp
    ultimately show ?thesis
      using raw ne assms
      by (subst reconstructConsistencyHashes.simps)
         (simp add: reconstructRawLeafExtension_def known_root_def ds bytesToHex_Nil_iff hashLeaf_eq hashPair_eq
          mth_spec_simps(1,2) mth_spec_simps(3) [of "[d0, d1]"])
  next
    case left
    note ps = subproof_spec_simps(3) [OF node.hyps(1) left]
    have IH: "reconstructConsistencyHashes N (int m) (int ?k) nodes i b (known_root N b m ds) =
      Inr \<lparr>oldHash = ?hex (mth_spec N (take m ds)), newHash = ?hex (mth_spec N (take ?k ds)),
           nextIndex = i + length (subproof_spec N m (take ?k ds) b)\<rparr>"
      using node.IH(1) [OF sub(1) node.prems(2), of b "?hex (mth_spec N (drop ?k ds)) # rest"] left(3) k node.prems(4)
      by (simp add: ps known_root_take)
    have "readConsistencyProofNode nodes (i + length (subproof_spec N m (take ?k ds) b)) = Inr (?hex (mth_spec N (drop ?k ds)))"
      using read_node [OF assms, of i nodes "subproof_spec N m (take ?k ds) b"] node.prems(4) assms by (simp add: ps)
    then show ?thesis
      using left k IH by (auto simp: unf ps hashPair_mth [OF assms] mth_spec_simps(3) [OF node.hyps(1)])
  next
    case right
    note ps = subproof_spec_simps(4) [OF node.hyps(1) right]
    let ?ps = "subproof_spec N (m - ?k) (drop ?k ds) False"
    have IH: "reconstructConsistencyHashes N (int m - int ?k) (int (length ds) - int ?k) nodes i False None =
      Inr \<lparr>oldHash = ?hex (mth_spec N (take (m - ?k) (drop ?k ds))), newHash = ?hex (mth_spec N (drop ?k ds)),
           nextIndex = i + length ?ps\<rparr>"
      using node.IH(2) [OF sub(2), of "m - ?k" False "?hex (mth_spec N (take ?k ds)) # rest"] right k node.prems(4)
      by (simp add: ps known_root_def of_nat_diff)
    have "readConsistencyProofNode nodes (i + length ?ps) = Inr (?hex (mth_spec N (take ?k ds)))"
      using read_node [OF assms, of i nodes ?ps] node.prems(4) assms by (simp add: ps)
    moreover have "assertKnownOldRootMatch (?hex (mth_spec N (take m ds))) b (known_root N b m ds) = Inr ()"
      by (simp add: assertKnownOldRootMatch_def known_root_def)
    ultimately show ?thesis
      using right k IH mth_spec_take [OF node.hyps(1), of m N]
      by (simp add: unf ps hashPair_mth [OF assms] mth_spec_simps(3) [OF node.hyps(1)])
  qed
qed

lemma hex_nodes_valid:
  assumes "noble_ok N" "list_all (\<lambda>d. length d = 32) ds"
  shows "hasValidConsistencyProofNodes (map (bytesToHex N) ds)"
  using assms lower_bytesToHex [OF assms(1)]
  by (fastforce simp: hasValidConsistencyProofNodes_def list_all_iff length_bytesToHex is_lower_hex_hex
      bytesToHex_Nil_iff)

lemma verifyConsistency_complete:
  assumes "noble_ok N" "list_all (\<lambda>d. length d = 32) ds" "0 < m" "m \<le> length ds" "int (length ds) < 2 ^ 32"
  shows "verifyConsistencyProof N (bytesToHex N (mth_spec N (take m ds))) (bytesToHex N (mth_spec N ds))
    \<lparr>oldSize = int m, newSize = int (length ds), proofNodes = map (bytesToHex N) (subproof_spec N m ds True)\<rparr> = Inr True"
proof (cases "m = length ds")
  case True
  then show ?thesis by (simp add: verifyConsistencyProof_def subproof_spec_simps)
next
  case False
  then have m: "m < length ds" "1 < length ds" using assms(3,4) by auto
  have valid: "hasValidConsistencyProofNodes (map (bytesToHex N) (subproof_spec N m ds True))"
    using subproof_spec_lengths [OF assms(1,2,4)] by (intro hex_nodes_valid assms(1))
  have ne: "subproof_spec N m ds True \<noteq> []"
    using m assms(3) by (subst subproof_spec.simps) auto
  consider "m = 1" "length ds = 2" | "\<not> (m = 1 \<and> length ds = 2)" "isPerfectTreeDoubling (int m) (int (length ds))"
    | "\<not> (m = 1 \<and> length ds = 2)" "\<not> isPerfectTreeDoubling (int m) (int (length ds))" by blast
  then show ?thesis
  proof cases
    case 1
    then obtain d0 d1 where ds: "ds = [d0, d1]" by (cases ds; cases "tl ds") auto
    moreover have "split_at ds = 1" using split_at_bounds [OF m(2)] 1(2) by simp
    moreover have "d1 \<noteq> []" using assms(2) ds by auto
    ultimately show ?thesis
      using 1 valid assms(1) subproof_spec_simps(2) [of ds N]
      by (simp add: verifyConsistencyProof_def verifySingleNodeExtension_def hashLeaf_eq hashPair_eq
          mth_spec_simps(1,2) mth_spec_simps(3) [of "[d0, d1]"] bytesToHex_Nil_iff)
  next
    case 2
    then have "int (length ds) = int m * 2" "isPowerOfTwo (int m)" by (simp_all add: isPerfectTreeDoubling_def)
    then have k: "split_at ds = m"
      using isPowerOfTwo_split [of "int m"] assms(5) by (simp add: split_at_def)
    have "subproof_spec N m ds True = [mth_spec N (drop m ds)]"
      using subproof_spec_simps(1) [of N "take m ds" True] subproof_spec_simps(3) [OF m(2,1), of True N] 2 k m(1)
      by simp
    then show ?thesis
      using 2 valid m k assms(1)
      by (auto simp: verifyConsistencyProof_def verifySingleNodeExtension_def hashPair_mth
          mth_spec_simps(3) [OF m(2)] bytesToHex_Nil_iff)
  next
    case 3
    have "reconstructConsistencyHashes N (int m) (int (length ds))
        (map (bytesToHex N) (subproof_spec N m ds True)) 0 True (Some (bytesToHex N (mth_spec N (take m ds)))) =
      Inr \<lparr>oldHash = bytesToHex N (mth_spec N (take m ds)), newHash = bytesToHex N (mth_spec N ds),
           nextIndex = length (subproof_spec N m ds True)\<rparr>"
      using reconstruct_complete [OF assms(1-4), of 0 _ True "[]"] by (simp add: known_root_def)
    then show ?thesis
      using 3 valid m ne by (auto simp: verifyConsistencyProof_def verifyReconstructedConsistencyProof_def)
  qed
qed

subsection \<open>Soundness\<close>

text \<open>The byte strings the verifier hashes to rebuild the newer root.\<close>

function recon_preimages ::
  "noble \<Rightarrow> int \<Rightarrow> int \<Rightarrow> string list \<Rightarrow> nat \<Rightarrow> bool \<Rightarrow> string option \<Rightarrow> byte list list" where
  "recon_preimages N old new nodes i b r =
     (if old = new then []
      else if old = 1 \<and> new = 2 \<and> b
           then [1 # leaf_bytes N (the r) @ leafH N (leaf_bytes N (nodes ! i))]
      else
        (let k = largestPowerOfTwoLessThan new
         in if k = 0 then []
            else if old \<le> k then
              (case reconstructConsistencyHashes N old k nodes i b r of
                 Inl _ \<Rightarrow> []
               | Inr left \<Rightarrow> (1 # leaf_bytes N (newHash left) @ leaf_bytes N (nodes ! nextIndex left)) #
                   recon_preimages N old k nodes i b r)
            else
              (case reconstructConsistencyHashes N (old - k) (new - k) nodes i False None of
                 Inl _ \<Rightarrow> []
               | Inr right \<Rightarrow> (1 # leaf_bytes N (nodes ! nextIndex right) @ leaf_bytes N (newHash right)) #
                   recon_preimages N (old - k) (new - k) nodes i False None)))"
  by pat_completeness auto
termination
proof (relation "measure (\<lambda>(N, old, new, nodes, index, b, r). nat new)", goal_cases)
  case (2 N old new nodes index b r k)
  then have "1 < new" by (auto simp: largestPowerOfTwoLessThan_def split: if_splits)
  then show ?case using 2 pow2.split_less by auto
next
  case (3 N old new nodes index b r k)
  then have "1 < new" by (auto simp: largestPowerOfTwoLessThan_def split: if_splits)
  then show ?case using 3 pow2.split_pos [of new] by auto
qed simp

declare recon_preimages.simps [simp del]

definition consistency_preimages :: "noble \<Rightarrow> string \<Rightarrow> consistency_proof \<Rightarrow> byte list list" where
  "consistency_preimages N oldRoot p =
     (let node = proofNodes p ! 0
      in if oldSize p = 1 \<and> newSize p = 2 then [1 # leaf_bytes N oldRoot @ leafH N (leaf_bytes N node)]
         else if isPerfectTreeDoubling (oldSize p) (newSize p) then [1 # leaf_bytes N oldRoot @ leaf_bytes N node]
         else recon_preimages N (oldSize p) (newSize p) (proofNodes p) 0 True (Some oldRoot))"

lemma valid_node_bytes:
  assumes "noble_ok N" "hasValidConsistencyProofNodes nodes" "readConsistencyProofNode nodes i = Inr s"
  shows "nodes ! i = s" "length (leaf_bytes N s) = 32"
proof -
  have i: "i < length nodes" and s: "nodes ! i = s"
    using assms(3) by (auto simp: readConsistencyProofNode_def Let_def split: if_splits)
  show "nodes ! i = s" by (rule s)
  have h: "s \<noteq> []" "length s = 64" "list_all is_hex_char s"
    using assms(2) i s by (auto simp: hasValidConsistencyProofNodes_def list_all_length)
  then have "isValidHexString s (Some 32)"
    by (simp add: isValidHexString_def normalizeHexString_hex)
  then show "length (leaf_bytes N s) = 32"
    using valid_leaf_bytes(2) [OF assms(1)] by (simp add: valid_leaf_def)
qed

lemma readNode_nth: "readConsistencyProofNode nodes i = Inr s \<Longrightarrow> nodes ! i = s"
  by (auto simp: readConsistencyProofNode_def Let_def split: if_splits)

lemma reconstruct_range:
  "reconstructConsistencyHashes N old new nodes i b r = Inr x \<Longrightarrow> old \<noteq> new \<Longrightarrow> 0 < old \<and> old < new"
proof (induction N old new nodes i b r arbitrary: x rule: reconstructConsistencyHashes.induct)
  case (1 N old new nodes i b r)
  let ?k = "largestPowerOfTwoLessThan new"
  show ?case
  proof (cases "old = 1 \<and> new = 2 \<and> b")
    case False
    then have k: "?k \<noteq> 0"
      using "1.prems" by (subst (asm) reconstructConsistencyHashes.simps) (auto simp: Let_def)
    then have n: "1 < new" by (auto simp: largestPowerOfTwoLessThan_def split: if_splits)
    note kb = pow2.split_pos [OF n] pow2.split_less [OF n]
    show ?thesis
    proof (cases "old \<le> ?k")
      case True
      then obtain y where "reconstructConsistencyHashes N old ?k nodes i b r = Inr y"
        using "1.prems" False k
        by (subst (asm) reconstructConsistencyHashes.simps) (auto simp: Let_def err_simps)
      with "1.IH"(1) [OF "1.prems"(2) False refl k True] kb True show ?thesis by force
    next
      case ngt: False
      then obtain y where "reconstructConsistencyHashes N (old - ?k) (new - ?k) nodes i False None = Inr y"
        using "1.prems" False k
        by (subst (asm) reconstructConsistencyHashes.simps) (auto simp: Let_def err_simps)
      with "1.IH"(2) [OF "1.prems"(2) False refl k ngt] kb "1.prems"(2) ngt show ?thesis by force
    qed
  qed simp
qed

lemma hashLeaf_Inr:
  assumes "hashLeaf N s = Inr h"
  shows "h = bytesToHex N (leafH N (leaf_bytes N s))"
  using assms by (auto simp: hashLeaf_def err_simps leaf_bytes_def sha256Hex_def leafH_def)

lemma single_extension_sound:
  assumes "noble_ok N" "1 < length ds" "hashPair N oldRoot right = Inr h" "length (leaf_bytes N right) = 32"
    "hexToBytesStrict N h = Inr (mth_spec N ds)" "1 # leaf_bytes N oldRoot @ leaf_bytes N right \<in> set xs"
  shows "hexToBytesStrict N oldRoot = Inr (mth_spec N (take (split_at ds) ds)) \<or> collides N xs (tree_preimages N ds)"
proof -
  note hp = hashPair_Inr [OF assms(1,3)]
  have "nodeH N (leaf_bytes N oldRoot) (leaf_bytes N right) = mth_spec N ds"
    using hp(4) assms(5) by simp
  from parent_right [OF assms(1,2,4) this assms(6)] hp(1) show ?thesis by auto
qed

lemma reconstruct_sound:
  assumes "noble_ok N" "hasValidConsistencyProofNodes nodes"
  shows "0 < m \<Longrightarrow> m \<le> length ds \<Longrightarrow>
    reconstructConsistencyHashes N (int m) (int (length ds)) nodes i b r = Inr x \<Longrightarrow>
    hexToBytesStrict N (newHash x) = Inr (mth_spec N ds) \<Longrightarrow>
    hexToBytesStrict N (oldHash x) = Inr (mth_spec N (take m ds)) \<or>
      collides N (recon_preimages N (int m) (int (length ds)) nodes i b r) (tree_preimages N ds)"
proof (induction ds arbitrary: m b r x rule: tree_induct)
  case (small ds)
  then have "m = length ds" by simp
  with small.prems show ?case
    by (auto simp: reconstructConsistencyHashes.simps resolveEqualConsistencySubtree_def err_simps
        split: if_splits option.splits)
next
  case (node ds)
  let ?k = "split_at ds" and ?pre = "recon_preimages N (int m) (int (length ds)) nodes i b r"
  have k: "0 < ?k" "?k < length ds" using split_at_bounds [OF node.hyps(1)] by auto
  note unf = reconstructConsistencyHashes.simps [of N "int m" "int (length ds)"] split_int [OF node.hyps(1)]
  note punf = recon_preimages.simps [of N "int m" "int (length ds)"] split_int [OF node.hyps(1)]
  note valid = valid_node_bytes [OF assms]
  from node.prems(2) show ?case
  proof (cases rule: subproof_cases [where b = b])
    case full
    with node.prems(3,4) show ?thesis
      by (auto simp: reconstructConsistencyHashes.simps resolveEqualConsistencySubtree_def err_simps
          split: if_splits option.splits)
  next
    case raw
    then obtain rt s hl where x: "r = Some rt" "readConsistencyProofNode nodes i = Inr s" "hashLeaf N s = Inr hl"
      "hashPair N rt hl = Inr (newHash x)" "oldHash x = rt"
      using node.prems(3)
      by (auto simp: reconstructConsistencyHashes.simps [of N 1 2] reconstructRawLeafExtension_def err_simps
          split: option.splits if_splits)
    have hl: "leaf_bytes N hl = leafH N (leaf_bytes N s)"
      using hashLeaf_Inr [OF x(3)] assms(1) by (simp add: leaf_bytes_def)
    have "?k = 1" using k raw by simp
    moreover have "?pre = [1 # leaf_bytes N rt @ leaf_bytes N hl]"
      using raw x(1,2) by (simp add: recon_preimages.simps [of N 1 2] hl readNode_nth)
    ultimately show ?thesis
      using single_extension_sound [OF assms(1) node.hyps(1) x(4) _ node.prems(4), of ?pre] hl raw assms(1) x(5)
      by simp
  next
    case left
    then obtain y s where x: "reconstructConsistencyHashes N (int m) (int ?k) nodes i b r = Inr y"
      "readConsistencyProofNode nodes (nextIndex y) = Inr s" "hashPair N (newHash y) s = Inr (newHash x)"
      "oldHash x = oldHash y"
      using node.prems(3) k by (auto simp: unf Let_def err_simps)
    have pre: "?pre = (1 # leaf_bytes N (newHash y) @ leaf_bytes N s) # recon_preimages N (int m) (int ?k) nodes i b r"
      using left k x(1,2) by (auto simp: punf Let_def readNode_nth)
    have "hexToBytesStrict N (newHash y) = Inr (mth_spec N (take ?k ds)) \<or> collides N ?pre (tree_preimages N ds)"
      using single_extension_sound [OF assms(1) node.hyps(1) x(3) valid(2) [OF x(2)] node.prems(4), of ?pre]
      by (simp add: pre)
    then show ?thesis
      using node.IH(1) [OF node.prems(1), of b r y] left(3) k x(1,4)
        collides_half [OF node.hyps(1), of N _ "take ?k ds"] by (auto simp: pre min_def)
  next
    case right
    then obtain y s oh where x: "reconstructConsistencyHashes N (int (m - ?k)) (int (length (drop ?k ds))) nodes i False None = Inr y"
      "readConsistencyProofNode nodes (nextIndex y) = Inr s" "hashPair N s (oldHash y) = Inr (oldHash x)"
      "hashPair N s (newHash y) = Inr (newHash x)"
      using node.prems(3) k by (auto simp: unf Let_def err_simps of_nat_diff)
    have pre: "?pre = (1 # leaf_bytes N s @ leaf_bytes N (newHash y)) #
        recon_preimages N (int (m - ?k)) (int (length (drop ?k ds))) nodes i False None"
      using right k x(1,2) by (auto simp: punf Let_def readNode_nth of_nat_diff)
    note hn = hashPair_Inr [OF assms(1) x(4)] and ho = hashPair_Inr [OF assms(1) x(3)]
    have "nodeH N (leaf_bytes N s) (leaf_bytes N (newHash y)) = mth_spec N ds"
      using hn(4) node.prems(4) by simp
    then have "leaf_bytes N s = mth_spec N (take ?k ds) \<and> leaf_bytes N (newHash y) = mth_spec N (drop ?k ds) \<or>
        collides N ?pre (tree_preimages N ds)"
      using parent_left [OF assms(1) node.hyps(1) valid(2) [OF x(2)]] by (auto simp: pre)
    moreover have "leaf_bytes N (oldHash y) = mth_spec N (take (m - ?k) (drop ?k ds)) \<or>
        collides N ?pre (tree_preimages N ds)" if "leaf_bytes N (newHash y) = mth_spec N (drop ?k ds)"
      using node.IH(2) [OF _ _ x(1)] right diff_le_mono [OF node.prems(2), of ?k] hn(2) ho(2) that
        collides_half [OF node.hyps(1), of N _ "drop ?k ds"] by (auto simp: pre)
    ultimately show ?thesis
      using ho(4) mth_spec_take [OF node.hyps(1) right(2) node.prems(2)] by auto
  qed
qed

lemma verifySingleNodeExtension_Inr:
  assumes "verifySingleNodeExtension N oldRoot newRoot nodes raw = Inr True"
  obtains right where "length nodes = 1" "if raw then hashLeaf N (nodes ! 0) = Inr right else right = nodes ! 0"
    "hashPair N oldRoot right = Inr newRoot"
  using assms
  by (auto simp: verifySingleNodeExtension_def Let_def err_simps split: if_splits)

text \<open>An accepted proof from an older size to the size of \<open>ds\<close>, ending in the true root of
  \<open>ds\<close>, starts at the true root of the prefix, or exhibits a collision of the hash function
  between the data the verifier hashed and the data hashed when building the tree.\<close>

lemma verifyConsistency_sound:
  assumes "noble_ok N" "verifyConsistencyProof N oldRoot (bytesToHex N (mth_spec N ds)) p = Inr True"
    "oldSize p \<noteq> newSize p" "newSize p = int (length ds)" "length ds < 2 ^ 32"
  shows "0 < oldSize p \<and> oldSize p < newSize p"
    and "hexToBytesStrict N oldRoot = Inr (mth_spec N (take (nat (oldSize p)) ds)) \<or>
      collides N (consistency_preimages N oldRoot p) (tree_preimages N ds)"
proof -
  let ?new = "bytesToHex N (mth_spec N ds)"
  let ?goal = "(0 < oldSize p \<and> oldSize p < newSize p) \<and>
    (hexToBytesStrict N oldRoot = Inr (mth_spec N (take (nat (oldSize p)) ds)) \<or>
      collides N (consistency_preimages N oldRoot p) (tree_preimages N ds))"
  have valid: "hasValidConsistencyProofNodes (proofNodes p)"
    using assms(2,3) by (auto simp: verifyConsistencyProof_def split: if_splits)
  have new: "hexToBytesStrict N ?new = Inr (mth_spec N ds)" using assms(1) by simp
  consider "oldSize p = 1" "newSize p = 2" | "\<not> (oldSize p = 1 \<and> newSize p = 2)" "isPerfectTreeDoubling (oldSize p) (newSize p)"
    | "\<not> (oldSize p = 1 \<and> newSize p = 2)" "\<not> isPerfectTreeDoubling (oldSize p) (newSize p)" by blast
  then have ?goal
  proof cases
    case 1
    then have len: "length ds = 2" using assms(4) by simp
    have "verifySingleNodeExtension N oldRoot ?new (proofNodes p) True = Inr True"
      using assms(2) 1 by (simp add: verifyConsistencyProof_def split: if_splits)
    from verifySingleNodeExtension_Inr [OF this] obtain right where
      r: "hashLeaf N (proofNodes p ! 0) = Inr right" "hashPair N oldRoot right = Inr ?new" by auto
    have right: "leaf_bytes N right = leafH N (leaf_bytes N (proofNodes p ! 0))"
      using hashLeaf_Inr [OF r(1)] assms(1) by (simp add: leaf_bytes_def)
    have "split_at ds = 1" using split_at_bounds [of ds] len by simp
    then show ?thesis
      using single_extension_sound [OF assms(1) _ r(2) _ new, of "consistency_preimages N oldRoot p"] 1 len right assms(1)
      by (simp add: consistency_preimages_def)
  next
    case 2
    then have d: "newSize p = oldSize p * 2" "isPowerOfTwo (oldSize p)" "0 < oldSize p"
      using assms(4) by (auto simp: isPerfectTreeDoubling_def isPowerOfTwo_def)
    have "verifySingleNodeExtension N oldRoot ?new (proofNodes p) False = Inr True"
      using assms(2,3) 2 by (auto simp: verifyConsistencyProof_def split: if_splits)
    from verifySingleNodeExtension_Inr [OF this] have
      r: "length (proofNodes p) = 1" "hashPair N oldRoot (proofNodes p ! 0) = Inr ?new" by auto
    have "length (leaf_bytes N (proofNodes p ! 0)) = 32"
      using valid_node_bytes(2) [OF assms(1) valid, of 0 "proofNodes p ! 0"] r(1) valid
      by (cases "proofNodes p") (auto simp: readConsistencyProofNode_def hasValidConsistencyProofNodes_def)
    moreover have "split_at ds = nat (oldSize p)"
      using isPowerOfTwo_split [OF d(2)] d assms(4,5) by (simp add: split_at_def)
    ultimately show ?thesis
      using single_extension_sound [OF assms(1) _ r(2) _ new, of "consistency_preimages N oldRoot p"] 2 d assms(3,4)
      by (auto simp: consistency_preimages_def Let_def)
  next
    case 3
    then obtain x where x: "reconstructConsistencyHashes N (oldSize p) (newSize p) (proofNodes p) 0 True (Some oldRoot) = Inr x"
      "oldHash x = oldRoot" "newHash x = ?new"
      using assms(2,3) by (auto simp: verifyConsistencyProof_def verifyReconstructedConsistencyProof_def
          split: if_splits sum.splits)
    from reconstruct_range [OF x(1) assms(3)] have "0 < oldSize p" "oldSize p < newSize p" by auto
    then show ?thesis
      using reconstruct_sound [OF assms(1) valid, of "nat (oldSize p)" ds 0 True "Some oldRoot" x] x 3 assms(4) new
      by (auto simp: consistency_preimages_def)
  qed
  then show "0 < oldSize p \<and> oldSize p < newSize p"
    and "hexToBytesStrict N oldRoot = Inr (mth_spec N (take (nat (oldSize p)) ds)) \<or>
      collides N (consistency_preimages N oldRoot p) (tree_preimages N ds)" by auto
qed

end
