(* ===== verification/MerkleLog.thy ===== *)
theory MerkleLog
  imports ConsistencyProofs
begin

text \<open>
  The Merkle tree as an append-only log.  The public methods of the class RFC6962MerkleTree
  (packages/merkle/src/rfc6962-merkle-tree.ts) that can change the object are the labels of a step
  relation; the cache invariant is kept by every step, whatever the arguments, and the list of leaves
  only grows.  The locale \<open>append_log\<close> is the interface a client of the tree relies on (the bulletin
  board), and the tree is an interpretation of it.
\<close>

section \<open>Any sequence of calls\<close>

datatype tree_op =
    Append string
  | GetRoot
  | GetRootAtSize int
  | GetInclusionProof int "int option"
  | GetConsistencyProof int int
  | ClearCache

text \<open>The object after a call; an exception thrown by \<open>append\<close> leaves it as it was.\<close>

fun call_tree :: "noble \<Rightarrow> tree_op \<Rightarrow> merkle_tree \<Rightarrow> merkle_tree" where
  "call_tree N (Append leaf) t = (case append_leaf leaf t of Inl _ \<Rightarrow> t | Inr t' \<Rightarrow> t')"
| "call_tree N GetRoot t = snd (getRoot N t)"
| "call_tree N (GetRootAtSize n) t = snd (getRootAtSize N t n)"
| "call_tree N (GetInclusionProof i n) t = snd (getInclusionProof N t i n)"
| "call_tree N (GetConsistencyProof old new) t = snd (getConsistencyProof N t old new)"
| "call_tree N ClearCache t = clearCache t"

definition tree_step :: "noble \<Rightarrow> merkle_tree \<Rightarrow> tree_op \<Rightarrow> merkle_tree \<Rightarrow> bool" where
  "tree_step N t op t' = (t' = call_tree N op t)"

lemma runs_calls: "runs (tree_step N) t ops (fold (call_tree N) ops t)"
  by (induction ops arbitrary: t) (auto simp: tree_step_def)

text \<open>What every read keeps: the invariant and the leaves.\<close>

definition kept :: "noble \<Rightarrow> merkle_tree \<Rightarrow> merkle_tree \<Rightarrow> bool" where
  "kept N t t' \<longleftrightarrow> tree_inv N t' \<and> leaves t' = leaves t"

lemma kept_refl: "tree_inv N t \<Longrightarrow> kept N t t"
  by (simp add: kept_def)

lemma kept_trans: "kept N t t1 \<Longrightarrow> kept N t1 t2 \<Longrightarrow> kept N t t2"
  by (simp add: kept_def)

lemma kept_inv: "kept N t t' \<Longrightarrow> tree_inv N t'"
  by (simp add: kept_def)

text \<open>Reads compose: the exception of the first is the exception of the whole.\<close>

lemma kept_bind:
  assumes "kept N t (snd x)" "\<And>a t1. tree_inv N t1 \<Longrightarrow> kept N t1 (snd (f a t1))"
  shows "kept N t (snd (case x of (Inl e, t1) \<Rightarrow> (Inl (g e), t1) | (Inr a, t1) \<Rightarrow> f a t1))"
  using assms by (auto split: prod.split sum.split) (metis kept_trans kept_inv)

lemma mthRange_kept:
  assumes "noble_ok N" "tree_inv N t"
  shows "kept N t (snd (mthRange N t start n))"
proof (cases "range_ok t start n")
  case True
  from mthRange_correct [OF assms True] show ?thesis
    by (auto simp: kept_def same_tree_def)
next
  case False
  then have "\<exists>e. validateMthRange t start n = Inl e"
    by (auto simp: range_ok_def validateMthRange_def)
  then show ?thesis
    using assms(2) by (auto simp: mthRange.simps kept_def)
qed

lemmas kept_rules = kept_refl kept_bind [where g = "\<lambda>e. e"] mthRange_kept

lemma path_kept:
  assumes "noble_ok N"
  shows "tree_inv N t \<Longrightarrow> kept N t (snd (path N t m start n))"
proof (induction n arbitrary: t m start rule: pow2.split_induct)
  case (small n)
  then show ?case
    by (subst path.simps) (auto simp: Let_def largestPowerOfTwoLessThan_def kept_refl)
next
  case (step n)
  then show ?case
    by (subst path.simps) (simp add: Let_def kept_rules assms)
qed

lemma subproof_kept:
  assumes "noble_ok N"
  shows "tree_inv N t \<Longrightarrow> kept N t (snd (subproof N t m start n b))"
proof (induction n arbitrary: t m start b rule: pow2.split_induct)
  case (small n)
  then show ?case
    by (subst subproof.simps) (simp add: Let_def largestPowerOfTwoLessThan_def kept_rules assms)
next
  case (step n)
  then show ?case
    by (subst subproof.simps) (simp add: Let_def kept_rules assms)
qed

lemma getRootAtSize_kept:
  assumes "noble_ok N" "tree_inv N t"
  shows "kept N t (snd (getRootAtSize N t n))"
proof (cases "0 < n \<and> n \<le> int (length (leaves t))")
  case True
  with getRootAtSize_correct [OF assms, of n] show ?thesis by (auto simp: kept_def)
next
  case False
  with assms(2) show ?thesis by (auto simp: getRootAtSize_def kept_def)
qed

lemma getRoot_kept:
  assumes "noble_ok N" "tree_inv N t"
  shows "kept N t (snd (getRoot N t))"
  using getRoot_correct [OF assms] by (auto simp: kept_def)

lemma getInclusionProof_kept:
  assumes "noble_ok N" "tree_inv N t"
  shows "kept N t (snd (getInclusionProof N t i n))"
  using assms
  by (simp add: getInclusionProof_def Let_def kept_rules path_kept)

lemma getConsistencyProof_kept:
  assumes "noble_ok N" "tree_inv N t"
  shows "kept N t (snd (getConsistencyProof N t old new))"
  using assms
  by (simp add: getConsistencyProof_def kept_rules subproof_kept)

lemmas reads_kept = getRoot_kept getRootAtSize_kept getInclusionProof_kept getConsistencyProof_kept

lemma call_tree_inv:
  assumes "noble_ok N" "tree_inv N t"
  shows "tree_inv N (call_tree N op t)"
  using assms
  by (cases op) (auto intro: kept_inv reads_kept tree_inv_clearCache append_leaf_inv split: sum.split)

lemma call_tree_leaves:
  assumes "noble_ok N" "tree_inv N t"
  shows "leaves (call_tree N op t) =
    leaves t @ (case op of Append leaf \<Rightarrow>
                  (if isValidHexString (normalizeHexString leaf) (Some 32) then [normalizeHexString leaf] else [])
                | _ \<Rightarrow> [])"
proof (cases op)
  case (Append leaf)
  show ?thesis
  proof (cases "append_leaf leaf t")
    case (Inl e)
    then have "\<not> isValidHexString (normalizeHexString leaf) (Some 32)"
      using append_leaf_Inr [of leaf t] by fastforce
    then show ?thesis by (simp add: Append Inl)
  next
    case (Inr t')
    then show ?thesis by (simp add: Append) (simp add: append_leaf_Inr)
  qed
qed (use reads_kept [OF assms] in \<open>auto simp: kept_def clearCache_def\<close>)

interpretation tree_calls: invariant_system "\<lambda>t. noble_ok N \<and> t = new_tree" "tree_step N"
  "\<lambda>t. noble_ok N \<and> tree_inv N t" for N
  by unfold_locales (auto simp: tree_step_def call_tree_inv)

text \<open>The accepted leaves of a sequence of calls, in order.\<close>

fun appended :: "tree_op list \<Rightarrow> string list" where
  "appended [] = []"
| "appended (Append leaf # ops) =
     (if isValidHexString (normalizeHexString leaf) (Some 32) then [normalizeHexString leaf] else []) @ appended ops"
| "appended (_ # ops) = appended ops"

lemma fold_calls:
  assumes "noble_ok N"
  shows "tree_inv N t \<Longrightarrow> tree_inv N (fold (call_tree N) ops t) \<and> leaves (fold (call_tree N) ops t) = leaves t @ appended ops"
proof (induction ops arbitrary: t)
  case (Cons op ops)
  from Cons.IH [OF call_tree_inv [OF assms Cons.prems, of op]] show ?case
    using call_tree_leaves [OF assms Cons.prems, of op] by (cases op) simp_all
qed simp

section \<open>Proofs the tree generates\<close>

lemma getRootAtSize_value:
  assumes "noble_ok N" "tree_inv N t" "0 < n" "n \<le> int (length (leaves t))"
  shows "\<exists>t'. getRootAtSize N t n = (Inr (bytesToHex N (mth_spec N (take (nat n) (contents N t)))), t') \<and> kept N t t'"
  using getRootAtSize_correct [OF assms] by (auto simp: mth_hex_def subrange_0_take kept_def)

lemma getInclusionProof_correct:
  assumes "noble_ok N" "tree_inv N t" "0 \<le> i" "i < n" "n \<le> int (length (leaves t))"
  shows "\<exists>t'. getInclusionProof N t i (Some n) =
      (Inr (i, map (bytesToHex N) (path_spec N (nat i) (take (nat n) (contents N t)))), t') \<and> kept N t t'"
proof -
  have "range_ok t 0 n" using assms(3-5) by (simp add: range_ok_def)
  from path_correct [OF assms(1,2) this assms(3,4)] show ?thesis
    using assms(3-5) by (auto simp: getInclusionProof_def subrange_0_take kept_def same_tree_def)
qed

lemma getConsistencyProof_correct:
  assumes "noble_ok N" "tree_inv N t" "canonical_leaves t" "0 < m" "m \<le> n" "n \<le> int (length (leaves t))"
  shows "\<exists>t'. getConsistencyProof N t m n =
      (Inr \<lparr>oldSize = m, newSize = n,
            proofNodes = map (bytesToHex N) (subproof_spec N (nat m) (take (nat n) (contents N t)) True)\<rparr>, t') \<and> kept N t t'"
proof (cases "m = n")
  case True
  then have "length (take (nat n) (contents N t)) = nat m" using assms(4-6) by simp
  then have "subproof_spec N (nat m) (take (nat n) (contents N t)) True = []"
    using subproof_spec_simps(1) [of N "take (nat n) (contents N t)" True] by simp
  with True assms show ?thesis by (simp add: getConsistencyProof_def kept_refl)
next
  case False
  have "range_ok t 0 n" using assms(4-6) by (simp add: range_ok_def)
  from subproof_correct [OF assms(1-3) this assms(4,5), of True] show ?thesis
    using assms(4-6) False by (auto simp: getConsistencyProof_def subrange_0_take kept_def same_tree_def)
qed

lemma contents_length:
  assumes "noble_ok N" "tree_inv N t"
  shows "list_all (\<lambda>d. length d = 32) (contents N t)"
  using tree_invD(1) [OF assms(2)] valid_leaf_bytes(2) [OF assms(1)]
  by (auto simp: contents_def list_all_iff)

lemma list_all_take: "list_all P xs \<Longrightarrow> list_all P (take n xs)"
  by (auto simp: list_all_iff dest: in_set_takeD)

section \<open>The interface of the log\<close>

text \<open>
  What a client of the log relies on: appending an acceptable leaf adds its bytes at the end, a root is
  the root of the contents, and reading does not change them.
\<close>

locale append_log =
  fixes invar :: "'t \<Rightarrow> bool" and content :: "'t \<Rightarrow> 'd list" and root_of :: "'d list \<Rightarrow> 'h"
    and accepts :: "'l \<Rightarrow> bool" and datum :: "'l \<Rightarrow> 'd"
    and log_append :: "'l \<Rightarrow> 't \<Rightarrow> 'e + 't" and log_root :: "'t \<Rightarrow> ('e + 'h) \<times> 't"
  assumes append_law: "invar t \<Longrightarrow> accepts l \<Longrightarrow>
      \<exists>t'. log_append l t = Inr t' \<and> invar t' \<and> content t' = content t @ [datum l]"
    and root_law: "invar t \<Longrightarrow>
      \<exists>t'. log_root t = (Inr (root_of (content t)), t') \<and> invar t' \<and> content t' = content t"
begin

text \<open>Appending and reading the root, as a client does for each entry.\<close>

lemma append_then_root:
  assumes "invar t" "accepts l"
  obtains t1 t2 where "log_append l t = Inr t1" "log_root t1 = (Inr (root_of (content t @ [datum l])), t2)"
    "invar t2" "content t2 = content t @ [datum l]"
  using append_law [OF assms] root_law by (metis (no_types))

text \<open>The roots read after each append are the roots of the prefixes.\<close>

definition prefix_roots :: "'t \<Rightarrow> 'h list \<Rightarrow> bool" where
  "prefix_roots t hs = (hs = map (\<lambda>n. root_of (take n (content t))) [1..<Suc (length (content t))])"

lemma prefix_roots_append:
  assumes "prefix_roots t hs" "content t' = content t @ [d]"
  shows "prefix_roots t' (hs @ [root_of (content t @ [d])])"
  using assms by (auto simp: prefix_roots_def)

lemma prefix_roots_keep: "prefix_roots t hs \<Longrightarrow> content t' = content t \<Longrightarrow> prefix_roots t' hs"
  by (simp add: prefix_roots_def)

lemma prefix_roots_nth:
  "prefix_roots t hs \<Longrightarrow> length hs = length (content t) \<and>
     (\<forall>i < length hs. hs ! i = root_of (take (Suc i) (content t)))"
  by (simp add: prefix_roots_def nth_append del: upt_Suc)

end

definition log_invar :: "noble \<Rightarrow> merkle_tree \<Rightarrow> bool" where
  "log_invar N t \<longleftrightarrow> noble_ok N \<and> tree_inv N t \<and> canonical_leaves t"

lemma log_invarD: "log_invar N t \<Longrightarrow> noble_ok N" "log_invar N t \<Longrightarrow> tree_inv N t" "log_invar N t \<Longrightarrow> canonical_leaves t"
  by (simp_all add: log_invar_def)

definition log_root_of :: "noble \<Rightarrow> byte list list \<Rightarrow> string" where
  "log_root_of N ds = bytesToHex N (mth_spec N ds)"

definition log_accepts :: "string \<Rightarrow> bool" where
  "log_accepts l \<longleftrightarrow> canonical_hex (normalizeHexString l) \<and> length (normalizeHexString l) = 64"

lemma log_accepts_valid:
  assumes "log_accepts l"
  shows "isValidHexString (normalizeHexString l) (Some 32)"
  using assms
  by (auto simp: log_accepts_def isValidHexString_def canonical_hex_def [symmetric])

interpretation merkle_log: append_log "log_invar N" "contents N" "log_root_of N" log_accepts
  "\<lambda>l. leaf_bytes N (normalizeHexString l)" append_leaf "getRoot N" for N
proof
  fix t l
  assume t: "log_invar N t" and l: "log_accepts l"
  then obtain t' where t': "append_leaf l t = Inr t'" "leaves t' = leaves t @ [normalizeHexString l]"
    using append_leaf_Inr [of l t] log_accepts_valid [OF l] by simp
  with t l append_leaf_inv show "\<exists>t'. append_leaf l t = Inr t' \<and> log_invar N t' \<and>
      contents N t' = contents N t @ [leaf_bytes N (normalizeHexString l)]"
    by (auto simp: log_invar_def canonical_leaves_def log_accepts_def contents_def)
next
  fix t
  assume t: "log_invar N t"
  then show "\<exists>t'. getRoot N t = (Inr (log_root_of N (contents N t)), t') \<and> log_invar N t' \<and> contents N t' = contents N t"
    using getRoot_correct [of N t]
    by (auto simp: log_invar_def log_root_of_def canonical_leaves_def contents_def)
qed

section \<open>Properties of the tree\<close>

text \<open>Leaves only grow along a run: the history property of the log.\<close>

interpretation tree_history: monotone_system "\<lambda>t op t'. noble_ok N \<and> tree_inv N t \<and> tree_step N t op t'"
  "\<lambda>t t'. \<exists>ls. leaves t' = leaves t @ ls" for N
  by unfold_locales (auto simp: tree_step_def call_tree_leaves)

lemma runs_calls_inv:
  assumes "noble_ok N" "tree_inv N t"
  shows "runs (\<lambda>t op t'. noble_ok N \<and> tree_inv N t \<and> tree_step N t op t') t ops (fold (call_tree N) ops t)"
  using assms(2)
proof (induction ops arbitrary: t)
  case (Cons op ops)
  have "runs (\<lambda>t op t'. noble_ok N \<and> tree_inv N t \<and> tree_step N t op t') (call_tree N op t) ops
    (fold (call_tree N) ops (call_tree N op t))"
    by (rule Cons.IH [OF call_tree_inv [OF assms(1) Cons.prems]])
  then show ?case
    using assms(1) Cons.prems by (auto simp: tree_step_def)
qed auto

lemma reachable_tree: "noble_ok N \<Longrightarrow> tree_inv N (fold (call_tree N) ops new_tree)"
  using tree_calls.reachable_inv [OF _ runs_calls] by blast

lemma contents_calls:
  "noble_ok N \<Longrightarrow> contents N (fold (call_tree N) ops new_tree) = map (leaf_bytes N) (appended ops)"
  using fold_calls [of N new_tree ops] by (simp add: contents_def) (simp add: new_tree_def)

definition leaf_a :: string where
  "leaf_a = replicate 64 CHR ''a''"

definition leaf_b :: string where
  "leaf_b = replicate 64 CHR ''b''"

lemma sample_leaves [simp]:
  "canonical_hex leaf_a" "length leaf_a = 64" "canonical_hex leaf_b" "length leaf_b = 64"
  by code_simp+

lemma sample_valid [simp]:
  "canonical_hex s \<Longrightarrow> length s = 64 \<Longrightarrow> isValidHexString s (Some 32)"
  by (auto simp: isValidHexString_def canonical_hex_def [symmetric])

lemma sample_invalid [simp]: "\<not> isValidHexString (normalizeHexString ''xyz'') (Some 32)"
  by code_simp

text \<open>C10: whatever calls were made on the tree before (appends, reads, failed calls, cache resets), the
  root it returns is the reference Merkle tree hash of the leaves accepted so far; the two caches are
  never visible in the result.\<close>

theorem getRoot_is_reference_root:
  assumes "noble_ok N"
  shows "fst (getRoot N (fold (call_tree N) ops new_tree)) =
    Inr (bytesToHex N (mth_spec N (map (leaf_bytes N) (appended ops))))"
  using getRoot_correct [OF assms reachable_tree [OF assms, of ops]] contents_calls [OF assms, of ops] by fastforce

theorem getRoot_is_reference_root_witness:
  "fst (getRoot demo_noble (fold (call_tree demo_noble) [Append leaf_a, GetRoot, Append ''xyz'', Append leaf_b] new_tree)) =
    Inr (bytesToHex demo_noble (mth_spec demo_noble [leaf_bytes demo_noble leaf_a, leaf_bytes demo_noble leaf_b]))"
  using getRoot_is_reference_root [OF demo_noble_ok, of "[Append leaf_a, GetRoot, Append ''xyz'', Append leaf_b]"]
  by (simp del: fold_simps)

text \<open>The root of an earlier size never changes: later calls, appends included, return for it the
  root that was returned before them.\<close>

theorem earlier_root_never_changes:
  assumes "noble_ok N" "0 < n" "n \<le> size_of_tree (fold (call_tree N) ops new_tree)"
  shows "fst (getRootAtSize N (fold (call_tree N) (ops @ later) new_tree) n) =
    fst (getRootAtSize N (fold (call_tree N) ops new_tree) n)"
proof -
  let ?t = "fold (call_tree N) ops new_tree" and ?t' = "fold (call_tree N) (ops @ later) new_tree"
  have inv: "tree_inv N ?t" "tree_inv N ?t'" using assms(1) by (rule reachable_tree)+
  obtain ls where ls: "leaves ?t' = leaves ?t @ ls"
    using tree_history.runs_le [OF runs_calls_inv [OF assms(1) inv(1), of later]] by auto
  have "take (nat n) (contents N ?t') = take (nat n) (contents N ?t)" "n \<le> int (length (leaves ?t'))"
    using assms(3) ls by (simp_all add: contents_def size_of_tree_def)
  then show ?thesis
    using getRootAtSize_value [OF assms(1) inv(1) assms(2)] getRootAtSize_value [OF assms(1) inv(2) assms(2)] assms(3)
    by (fastforce simp: size_of_tree_def)
qed

theorem earlier_root_never_changes_witness:
  "fst (getRootAtSize demo_noble (fold (call_tree demo_noble) ([Append leaf_a] @ [ClearCache, Append leaf_b]) new_tree) 1) =
    fst (getRootAtSize demo_noble (fold (call_tree demo_noble) [Append leaf_a] new_tree) 1)"
proof (rule earlier_root_never_changes [OF demo_noble_ok])
  show "1 \<le> size_of_tree (fold (call_tree demo_noble) [Append leaf_a] new_tree)"
    using fold_calls [OF demo_noble_ok tree_inv_new, of "[Append leaf_a]"] by (simp add: size_of_tree_def)
qed simp

text \<open>For every leaf of every earlier size of a reachable tree, \<open>getInclusionProof\<close> returns a proof
  and \<open>verifyInclusionProof\<close> accepts it for the stored leaf against the root of that size.\<close>

theorem inclusion_proof_round_trip:
  assumes "noble_ok N" "t = fold (call_tree N) ops new_tree" "0 \<le> i" "i < n" "n \<le> size_of_tree t"
  shows "\<exists>nodes rt. fst (getInclusionProof N t i (Some n)) = Inr (i, nodes) \<and>
    fst (getRootAtSize N t n) = Inr rt \<and> verifyInclusionProof N (leaves t ! nat i) i nodes rt n = Inr True"
proof -
  have t: "tree_inv N t" using reachable_tree [OF assms(1)] assms(2) by simp
  have n: "n \<le> int (length (leaves t))" using assms(5) by (simp add: size_of_tree_def)
  let ?ds = "take (nat n) (contents N t)"
  have "hexToBytesStrict N (leaves t ! nat i) = Inr (?ds ! nat i)"
    using valid_leaf_bytes(1) [OF assms(1)] tree_invD(1) [OF t] assms(3,4) n
    by (auto simp: contents_def list_all_length nat_less_iff)
  moreover have "length ?ds = nat n" "nat i < nat n" using n assms(3,4) by simp_all
  ultimately have "verifyInclusionProof N (leaves t ! nat i) i (map (bytesToHex N) (path_spec N (nat i) ?ds))
      (bytesToHex N (mth_spec N ?ds)) n = Inr True"
    using verifyInclusion_complete [OF assms(1), of "nat i" ?ds "leaves t ! nat i"] assms(3,4) by simp
  then show ?thesis
    using getInclusionProof_correct [OF assms(1) t assms(3,4) n] getRootAtSize_value [OF assms(1) t _ n] assms(3,4)
    by fastforce
qed

theorem inclusion_proof_round_trip_witness:
  "\<exists>nodes rt. fst (getInclusionProof demo_noble (fold (call_tree demo_noble) [Append leaf_a, Append leaf_b] new_tree) 1 (Some 2)) = Inr (1, nodes) \<and>
    fst (getRootAtSize demo_noble (fold (call_tree demo_noble) [Append leaf_a, Append leaf_b] new_tree) 2) = Inr rt \<and>
    verifyInclusionProof demo_noble (leaves (fold (call_tree demo_noble) [Append leaf_a, Append leaf_b] new_tree) ! nat 1) 1 nodes rt 2 = Inr True"
proof (rule inclusion_proof_round_trip [OF demo_noble_ok refl])
  show "2 \<le> size_of_tree (fold (call_tree demo_noble) [Append leaf_a, Append leaf_b] new_tree)"
    using fold_calls [OF demo_noble_ok tree_inv_new, of "[Append leaf_a, Append leaf_b]"] by (simp add: size_of_tree_def)
qed simp_all

text \<open>C4: soundness of inclusion proofs.  If \<open>verifyInclusionProof\<close> accepts a leaf at an index against
  the root of a log, the index is in range and the bytes of the leaf are the entry of the log at that
  index, or two different byte strings with the same SHA-256 hash can be read off the proof and the log.
  The leaf, the index and the proof nodes are arbitrary.\<close>

theorem inclusion_proof_sound:
  assumes "noble_ok N"
    and "verifyInclusionProof N leaf i nodes (bytesToHex N (mth_spec N ds)) (int (length ds)) = Inr True"
  shows "0 \<le> i \<and> nat i < length ds \<and>
    (leaf_bytes N leaf = ds ! nat i \<or>
     collides N (inclusion_preimages N leaf i nodes (int (length ds))) (tree_preimages N ds))"
  using assms by (rule verifyInclusion_sound)

lemma demo_leaf_bytes: "hexToBytesStrict demo_noble leaf_a = Inr (leaf_bytes demo_noble leaf_a)"
  using valid_leaf_bytes(1) [OF demo_noble_ok, of leaf_a] by (simp add: valid_leaf_def)

theorem inclusion_proof_sound_witness:
  "let d = leaf_bytes demo_noble leaf_a; ds = [d, d, d] in
    0 \<le> (2::int) \<and> nat 2 < length ds \<and>
    (leaf_bytes demo_noble leaf_a = ds ! nat 2 \<or>
     collides demo_noble (inclusion_preimages demo_noble leaf_a 2 (map (bytesToHex demo_noble) (path_spec demo_noble 2 ds)) (int (length ds)))
       (tree_preimages demo_noble ds))"
  unfolding Let_def
  by (rule inclusion_proof_sound [OF demo_noble_ok])
    (use verifyInclusion_complete [OF demo_noble_ok, of 2 "replicate 3 (leaf_bytes demo_noble leaf_a)" leaf_a] demo_leaf_bytes
      in \<open>simp add: numeral_3_eq_3\<close>)

text \<open>For any two sizes of a tree that was filled through normalised leaves, \<open>getConsistencyProof\<close>
  returns a proof that \<open>verifyConsistencyProof\<close> accepts between the roots of these sizes.  The bound is
  the range of the 32-bit operations of \<open>isPowerOfTwo\<close>.\<close>

theorem consistency_proof_round_trip:
  assumes "log_invar N t" "0 < m" "m \<le> n" "n \<le> size_of_tree t" "size_of_tree t < 2 ^ 32"
  shows "\<exists>p rm rn. fst (getConsistencyProof N t m n) = Inr p \<and>
    fst (getRootAtSize N t m) = Inr rm \<and> fst (getRootAtSize N t n) = Inr rn \<and>
    verifyConsistencyProof N rm rn p = Inr True"
proof -
  note t = log_invarD [OF assms(1)]
  have n: "m \<le> int (length (leaves t))" "n \<le> int (length (leaves t))" "0 < n"
    using assms by (simp_all add: size_of_tree_def)
  let ?ds = "take (nat n) (contents N t)"
  have l: "length ?ds = nat n" using n by simp
  have "verifyConsistencyProof N (bytesToHex N (mth_spec N (take (nat m) (contents N t)))) (bytesToHex N (mth_spec N ?ds))
      \<lparr>oldSize = m, newSize = n, proofNodes = map (bytesToHex N) (subproof_spec N (nat m) ?ds True)\<rparr> = Inr True"
    using verifyConsistency_complete [OF t(1) list_all_take [OF contents_length [OF t(1,2)]], of "nat m" "nat n"] l assms(2-5) n
    by (simp add: min_def)
  then show ?thesis
    using getConsistencyProof_correct [OF t assms(2,3) n(2)] getRootAtSize_value [OF t(1,2) assms(2) n(1)]
      getRootAtSize_value [OF t(1,2) n(3,2)]
    by fastforce
qed

definition sample_tree :: merkle_tree where
  "sample_tree = new_tree\<lparr>leaves := [leaf_a, leaf_b, leaf_a]\<rparr>"

lemma sample_tree_invar: "log_invar demo_noble sample_tree"
  using demo_noble_ok
  by (simp add: log_invar_def sample_tree_def new_tree_def tree_inv_def canonical_leaves_def valid_leaf_def)

theorem consistency_proof_round_trip_witness:
  "\<exists>p rm rn. fst (getConsistencyProof demo_noble sample_tree 1 3) = Inr p \<and>
    fst (getRootAtSize demo_noble sample_tree 1) = Inr rm \<and> fst (getRootAtSize demo_noble sample_tree 3) = Inr rn \<and>
    verifyConsistencyProof demo_noble rm rn p = Inr True"
  by (rule consistency_proof_round_trip [OF sample_tree_invar]) (simp_all add: size_of_tree_def sample_tree_def)

text \<open>C5: soundness of consistency proofs.  If \<open>verifyConsistencyProof\<close> accepts a proof between two
  different sizes whose newer root is the root of a log, the older size is a proper positive prefix
  length and the older root is the root of that prefix of the log, or two different byte strings with
  the same SHA-256 hash can be read off the proof and the log.\<close>

theorem consistency_proof_sound:
  assumes "noble_ok N" "verifyConsistencyProof N oldRoot (bytesToHex N (mth_spec N ds)) p = Inr True"
    "oldSize p \<noteq> newSize p" "newSize p = int (length ds)" "length ds < 2 ^ 32"
  shows "0 < oldSize p \<and> oldSize p < newSize p \<and>
    (hexToBytesStrict N oldRoot = Inr (mth_spec N (take (nat (oldSize p)) ds)) \<or>
      collides N (consistency_preimages N oldRoot p) (tree_preimages N ds))"
  using verifyConsistency_sound [OF assms] by simp

theorem consistency_proof_sound_witness:
  "let d = leaf_bytes demo_noble leaf_a; ds = [d, d, d]; r = bytesToHex demo_noble (mth_spec demo_noble (take 2 ds));
       p = \<lparr>oldSize = 2, newSize = 3, proofNodes = map (bytesToHex demo_noble) (subproof_spec demo_noble 2 ds True)\<rparr> in
    0 < oldSize p \<and> oldSize p < newSize p \<and>
    (hexToBytesStrict demo_noble r = Inr (mth_spec demo_noble (take (nat (oldSize p)) ds)) \<or>
      collides demo_noble (consistency_preimages demo_noble r p) (tree_preimages demo_noble ds))"
proof -
  have "length (leaf_bytes demo_noble leaf_a) = 32"
    using valid_leaf_bytes(2) [OF demo_noble_ok, of leaf_a] by (simp add: valid_leaf_def)
  then show ?thesis
    unfolding Let_def
    by (intro consistency_proof_sound [OF demo_noble_ok])
      (use verifyConsistency_complete [OF demo_noble_ok, of "replicate 3 (leaf_bytes demo_noble leaf_a)" 2]
        in \<open>simp_all add: numeral_3_eq_3\<close>)
qed

lemma double_prefix:
  assumes "canonical_hex h"
  shows "normalizeHexString (''0x0x'' @ h) = ''0x'' @ h" "normalizeHexString (''0x'' @ h) = h"
proof -
  have "toLowerCase h = h"
    using assms by (simp add: canonical_hex_def toLowerCase_lower_hex)
  moreover have "lower_char CHR ''0'' = CHR ''0''" "lower_char CHR ''x'' = CHR ''x''" by code_simp+
  ultimately show "normalizeHexString (''0x0x'' @ h) = ''0x'' @ h" "normalizeHexString (''0x'' @ h) = h"
    by (simp_all add: normalizeHexString_def startsWith_def toLowerCase_def)
qed

text \<open>The class is not closed under its own calls for leaves with two prefixes.  \<open>append\<close> strips one
  prefix and then asks \<open>isValidHexString\<close>, which strips another, so a leaf with a remaining prefix is
  stored; the proof the tree then generates from size 1 to size 2 carries that leaf and
  \<open>verifyConsistencyProof\<close> rejects it, whatever the roots.\<close>

theorem double_prefix_breaks_consistency_proof:
  assumes "canonical_hex g" "length g = 64" "canonical_hex h" "length h = 64"
  shows "\<exists>t p. t = fold (call_tree N) [Append g, Append (''0x0x'' @ h)] new_tree \<and>
    leaves t = [g, ''0x'' @ h] \<and> fst (getConsistencyProof N t 1 2) = Inr p \<and>
    proofNodes p = [''0x'' @ h] \<and> verifyConsistencyProof N oldRoot newRoot p = Inr False"
proof -
  note norm = double_prefix [OF assms(3)]
  have valid: "isValidHexString (''0x'' @ h) (Some 32)"
    using norm(2) assms(3,4) by (simp add: isValidHexString_def canonical_hex_def)
  have "list_all is_hex_char (''0x'' @ h) = False"
    by (simp add: is_hex_char_def is_lower_hex_def is_upper_hex_def is_digit_char_def)
  then have bad: "\<not> hasValidConsistencyProofNodes [''0x'' @ h]"
    using assms(4) by (simp add: hasValidConsistencyProofNodes_def)
  have app: "append_leaf g new_tree = Inr (new_tree\<lparr>leaves := [g]\<rparr>)"
    "append_leaf (''0x0x'' @ h) (new_tree\<lparr>leaves := [g]\<rparr>) = Inr (new_tree\<lparr>leaves := [g, ''0x'' @ h]\<rparr>)"
    using assms norm(1) valid by (simp_all add: append_leaf_Inr) (simp_all add: new_tree_def)
  then show ?thesis
    using bad
    by (simp add: getConsistencyProof_def verifyConsistencyProof_def subproof.simps)
qed

theorem double_prefix_breaks_consistency_proof_witness:
  "\<exists>t p. t = fold (call_tree demo_noble) [Append leaf_a, Append (''0x0x'' @ leaf_b)] new_tree \<and>
    leaves t = [leaf_a, ''0x'' @ leaf_b] \<and> fst (getConsistencyProof demo_noble t 1 2) = Inr p \<and>
    proofNodes p = [''0x'' @ leaf_b] \<and> verifyConsistencyProof demo_noble leaf_a leaf_b p = Inr False"
  by (rule double_prefix_breaks_consistency_proof) simp_all

end
