(* ===== verification/BulletinBoard.thy ===== *)
theory BulletinBoard
  imports MerkleLog
begin

text \<open>
  The public bulletin board (packages/domain/src/lib/bulletin/simple-bulletin-board.ts), the client of
  the Merkle log: the board's record, its methods, the invariant every method keeps, and what the
  invariant gives: recorded roots are roots of prefixes, a generated inclusion proof is accepted, and
  any two recorded roots are linked by an accepted consistency proof.  The identifier checks of
  packages/validation/src/vote-id.ts and packages/domain/src/types/identifiers.ts are modelled here too.
\<close>

section \<open>Identifiers\<close>

subsection \<open>vote-id.ts\<close>

fun contains :: "string \<Rightarrow> string \<Rightarrow> bool" where
  "contains [] p = startsWith [] p"
| "contains (c # s) p = (startsWith (c # s) p \<or> contains s p)"

text \<open>The case-insensitive pattern of a version 4 UUID, as one predicate per character.\<close>

definition is_dash :: "char \<Rightarrow> bool" where
  "is_dash c = (c = CHR ''-'')"

definition uuidV4Regex :: "(char \<Rightarrow> bool) list" where
  "uuidV4Regex =
     replicate 8 is_hex_char @ [is_dash] @ replicate 4 is_hex_char @ [is_dash] @
     [\<lambda>c. c = CHR ''4''] @ replicate 3 is_hex_char @ [is_dash] @
     [\<lambda>c. c \<in> set ''89abAB''] @ replicate 3 is_hex_char @ [is_dash] @ replicate 12 is_hex_char"

fun matches :: "(char \<Rightarrow> bool) list \<Rightarrow> string \<Rightarrow> bool" where
  "matches [] [] = True"
| "matches (p # ps) (c # cs) = (p c \<and> matches ps cs)"
| "matches _ _ = False"

definition isValidVoteId :: "string \<Rightarrow> bool" where
  "isValidVoteId voteId =
     (if contains voteId ''..'' \<or> contains voteId ''/'' \<or> contains voteId [CHR 0x5C] then False
      else matches uuidV4Regex voteId)"

lemma matches_length: "matches ps cs \<Longrightarrow> length cs = length ps"
  by (induction ps cs rule: matches.induct) auto

subsection \<open>identifiers.ts\<close>

text \<open>\<open>asBulletinIndex\<close>, \<open>asLeafIndex\<close> and \<open>asVoteIndex\<close>: the number, or the exception.\<close>

definition assertNonNegativeSafeInteger :: "jsnum \<Rightarrow> unit option" where
  "assertNonNegativeSafeInteger v = (if \<not> isSafeInteger v \<or> num_lt v (js_int 0) then None else Some ())"

definition asBulletinIndex :: "jsnum \<Rightarrow> int option" where
  "asBulletinIndex v = (case assertNonNegativeSafeInteger v of None \<Rightarrow> None | Some _ \<Rightarrow> Some (to_int v))"

definition asLeafIndex :: "jsnum \<Rightarrow> int option" where
  "asLeafIndex v = (case assertNonNegativeSafeInteger v of None \<Rightarrow> None | Some _ \<Rightarrow> Some (to_int v))"

section \<open>State\<close>

record vote_entry =
  voteId :: string
  commitment :: string
  index :: int
  timestamp :: int
  rootAtAppend :: string

record append_result =
  ar_index :: int
  ar_rootAtAppend :: string
  ar_timestamp :: int

record root_snapshot =
  snap_timestamp :: int
  snap_treeSize :: int
  snap_root :: string

record inclusion_proof =
  leafIndex :: int
  ip_proofNodes :: "string list"
  treeSize :: int
  rootHash :: string

text \<open>A JavaScript Map iterates in insertion order: an association list in that order.\<close>

record board =
  tree :: merkle_tree
  voteEntries :: "(string \<times> vote_entry) list"
  commitmentSet :: "string set"
  commitments :: "string list"
  rootHistory :: "root_snapshot list"
  logId :: string

datatype board_error =
    InvalidVoteIdFormat | VoteIdAlreadyExists
  | CommitmentCannotBeEmpty | InvalidCommitmentFormat | CommitmentAlreadyExists
  | UnsafeIndex | TreeFailure tree_error
  | TreeSizeMustBePositive | TreeSizeExceedsCurrent int int | BoardIndexOutOfRange int int

section \<open>Methods\<close>

definition generateBulletinLogId :: "noble \<Rightarrow> string \<Rightarrow> string" where
  "generateBulletinLogId N seed =
     ''0x'' @ sha256Hex N [utf8ToBytes N ''stark-ballot:bulletin-log|v1.0'', utf8ToBytes N seed]"

definition new_board :: "noble \<Rightarrow> string option \<Rightarrow> board" where
  "new_board N lid =
     \<lparr>tree = new_tree, voteEntries = [], commitmentSet = {}, commitments = [], rootHistory = [],
      logId = (case lid of Some l \<Rightarrow> l | None \<Rightarrow> generateBulletinLogId N ''simple-bulletin-board'')\<rparr>"

definition appendVote :: "noble \<Rightarrow> int \<Rightarrow> string \<Rightarrow> string \<Rightarrow> board \<Rightarrow> (board_error + append_result) \<times> board" where
  "appendVote N now vid commit b =
     (if \<not> isValidVoteId vid then (Inl InvalidVoteIdFormat, b)
      else if map_of (voteEntries b) vid \<noteq> None then (Inl VoteIdAlreadyExists, b)
      else
        (let normalizedCommitment = normalizeHexString commit
         in if normalizedCommitment = [] then (Inl CommitmentCannotBeEmpty, b)
            else if \<not> isValidHexString normalizedCommitment (Some 32) then (Inl InvalidCommitmentFormat, b)
            else if normalizedCommitment \<in> commitmentSet b then (Inl CommitmentAlreadyExists, b)
            else
              (case asBulletinIndex (js_int (int (length (commitments b)))) of
                 None \<Rightarrow> (Inl UnsafeIndex, b)
               | Some i \<Rightarrow>
                   (case append_leaf normalizedCommitment (tree b) of
                      Inl e \<Rightarrow> (Inl (TreeFailure e), b)
                    | Inr t1 \<Rightarrow>
                        (case getRoot N t1 of
                           (Inl e, t2) \<Rightarrow> (Inl (TreeFailure e), b\<lparr>tree := t2\<rparr>)
                         | (Inr r, t2) \<Rightarrow>
                             (let entry = \<lparr>voteId = vid, commitment = normalizedCommitment, index = i,
                                           timestamp = now, rootAtAppend = r\<rparr>
                              in (Inr \<lparr>ar_index = i, ar_rootAtAppend = r, ar_timestamp = now\<rparr>,
                                  b\<lparr>tree := t2,
                                    voteEntries := AList.update vid entry (voteEntries b),
                                    commitmentSet := insert normalizedCommitment (commitmentSet b),
                                    commitments := commitments b @ [normalizedCommitment],
                                    rootHistory := rootHistory b @
                                      [\<lparr>snap_timestamp = now, snap_treeSize = size_of_tree t2, snap_root = r\<rparr>]\<rparr>)))))))"

text \<open>The methods that pass a call on to the tree, which may fill its caches.\<close>

definition on_tree :: "(merkle_tree \<Rightarrow> (tree_error + 'a) \<times> merkle_tree) \<Rightarrow> board \<Rightarrow> (board_error + 'a) \<times> board" where
  "on_tree f b = (case f (tree b) of (r, t) \<Rightarrow> (map_err TreeFailure r, b\<lparr>tree := t\<rparr>))"

definition getCurrentRoot :: "noble \<Rightarrow> board \<Rightarrow> (board_error + string) \<times> board" where
  "getCurrentRoot N = on_tree (getRoot N)"

definition getSize :: "board \<Rightarrow> int" where
  "getSize b = size_of_tree (tree b)"

definition getCommitments :: "board \<Rightarrow> string list" where
  "getCommitments b = commitments b"

definition getVoteById :: "string \<Rightarrow> board \<Rightarrow> vote_entry option" where
  "getVoteById vid b = map_of (voteEntries b) vid"

definition getVoteByIndex :: "jsnum \<Rightarrow> board \<Rightarrow> vote_entry option" where
  "getVoteByIndex i b =
     (case asBulletinIndex i of
        None \<Rightarrow> None
      | Some bulletinIndex \<Rightarrow>
          if bulletinIndex \<ge> int (length (commitments b)) then None
          else List.find (\<lambda>e. index e = bulletinIndex) (map snd (voteEntries b)))"

definition getRootHistory :: "board \<Rightarrow> root_snapshot list" where
  "getRootHistory b = rootHistory b"

definition board_getRootAtSize :: "noble \<Rightarrow> int \<Rightarrow> board \<Rightarrow> (board_error + string) \<times> board" where
  "board_getRootAtSize N n = on_tree (\<lambda>t. getRootAtSize N t n)"

definition board_getConsistencyProof ::
  "noble \<Rightarrow> int \<Rightarrow> int \<Rightarrow> board \<Rightarrow> (board_error + consistency_proof) \<times> board" where
  "board_getConsistencyProof N old new = on_tree (\<lambda>t. getConsistencyProof N t old new)"

definition verifyConsistency :: "noble \<Rightarrow> string \<Rightarrow> string \<Rightarrow> consistency_proof \<Rightarrow> board_error + bool" where
  "verifyConsistency N oldRoot newRoot p = map_err TreeFailure (verifyConsistencyProof N oldRoot newRoot p)"

definition board_getInclusionProof ::
  "noble \<Rightarrow> string \<Rightarrow> int option \<Rightarrow> board \<Rightarrow> (board_error + inclusion_proof option) \<times> board" where
  "board_getInclusionProof N vid ts b =
     (case map_of (voteEntries b) vid of
        None \<Rightarrow> (Inr None, b)
      | Some entry \<Rightarrow>
          (let n = (case ts of Some s \<Rightarrow> s | None \<Rightarrow> size_of_tree (tree b))
           in if n \<le> 0 then (Inl TreeSizeMustBePositive, b)
              else if n > size_of_tree (tree b) then (Inl (TreeSizeExceedsCurrent n (size_of_tree (tree b))), b)
              else if index entry \<ge> n then (Inl (BoardIndexOutOfRange (index entry) n), b)
              else
                (case getInclusionProof N (tree b) (index entry) (Some n) of
                   (Inl e, t1) \<Rightarrow> (Inl (TreeFailure e), b\<lparr>tree := t1\<rparr>)
                 | (Inr (li, nodes), t1) \<Rightarrow>
                     (case asLeafIndex (js_int li) of
                        None \<Rightarrow> (Inl UnsafeIndex, b\<lparr>tree := t1\<rparr>)
                      | Some li' \<Rightarrow>
                          (case getRootAtSize N t1 n of
                             (Inl e, t2) \<Rightarrow> (Inl (TreeFailure e), b\<lparr>tree := t2\<rparr>)
                           | (Inr r, t2) \<Rightarrow>
                               (Inr (Some \<lparr>leafIndex = li', ip_proofNodes = nodes, treeSize = n, rootHash = r\<rparr>),
                                b\<lparr>tree := t2\<rparr>))))))"

definition board_verifyInclusionProof ::
  "noble \<Rightarrow> string \<Rightarrow> jsnum \<Rightarrow> string list \<Rightarrow> string \<Rightarrow> int \<Rightarrow> board_error + bool" where
  "board_verifyInclusionProof N leafHash li nodes r n =
     (case asLeafIndex li of
        None \<Rightarrow> Inl UnsafeIndex
      | Some i \<Rightarrow> map_err TreeFailure (verifyInclusionProof N leafHash i nodes r n))"

record board_statistics =
  totalVotes :: int
  uniqueVoteIds :: int
  uniqueCommitments :: int
  rootHistoryLength :: int
  cacheHitRate :: rat

definition getStatistics :: "board \<Rightarrow> board_statistics" where
  "getStatistics b =
     \<lparr>totalVotes = size_of_tree (tree b), uniqueVoteIds = int (length (voteEntries b)),
      uniqueCommitments = int (card (commitmentSet b)), rootHistoryLength = int (length (rootHistory b)),
      cacheHitRate = getCacheHitRate (tree b)\<rparr>"

definition clear :: "board \<Rightarrow> board" where
  "clear b = b\<lparr>tree := new_tree, voteEntries := [], commitmentSet := {}, commitments := [], rootHistory := []\<rparr>"

section \<open>The board's invariant\<close>

text \<open>
  The log holds the normalised commitments in order; the entries are keyed by their vote identifiers,
  carry their positions and the roots recorded in the history; the history lists the roots of the
  prefixes with their sizes.
\<close>

definition board_inv :: "noble \<Rightarrow> board \<Rightarrow> bool" where
  "board_inv N b \<longleftrightarrow>
     log_invar N (tree b) \<and>
     leaves (tree b) = map normalizeHexString (commitments b) \<and>
     distinct (commitments b) \<and> commitmentSet b = set (commitments b) \<and>
     distinct (map fst (voteEntries b)) \<and>
     list_all (\<lambda>(k, e). k = voteId e) (voteEntries b) \<and>
     map (commitment \<circ> snd) (voteEntries b) = commitments b \<and>
     map (index \<circ> snd) (voteEntries b) = map int [0..<length (commitments b)] \<and>
     map (rootAtAppend \<circ> snd) (voteEntries b) = map snap_root (rootHistory b) \<and>
     map snap_treeSize (rootHistory b) = map int [1..<Suc (length (commitments b))] \<and>
     merkle_log.prefix_roots N (tree b) (map snap_root (rootHistory b))"

lemma board_invD:
  assumes "board_inv N b"
  shows "log_invar N (tree b)" "leaves (tree b) = map normalizeHexString (commitments b)"
    "distinct (commitments b)" "commitmentSet b = set (commitments b)" "distinct (map fst (voteEntries b))"
    "list_all (\<lambda>(k, e). k = voteId e) (voteEntries b)"
    "map (commitment \<circ> snd) (voteEntries b) = commitments b"
    "map (index \<circ> snd) (voteEntries b) = map int [0..<length (commitments b)]"
    "map (rootAtAppend \<circ> snd) (voteEntries b) = map snap_root (rootHistory b)"
    "map snap_treeSize (rootHistory b) = map int [1..<Suc (length (commitments b))]"
    "merkle_log.prefix_roots N (tree b) (map snap_root (rootHistory b))"
  using assms unfolding board_inv_def by blast+

lemma update_new_key: "k \<notin> fst ` set al \<Longrightarrow> AList.update k v al = al @ [(k, v)]"
  by (induction al) auto

lemma asBulletinIndex_int [simp]:
  "asBulletinIndex (js_int i) = (if 0 \<le> i \<and> i \<le> MAX_SAFE_INTEGER then Some i else None)"
  by (auto simp: asBulletinIndex_def assertNonNegativeSafeInteger_def isSafeInteger_iff js_simps MAX_SAFE_INTEGER_def)

lemma asLeafIndex_int [simp]:
  "asLeafIndex (js_int i) = (if 0 \<le> i \<and> i \<le> MAX_SAFE_INTEGER then Some i else None)"
  by (simp add: asLeafIndex_def asBulletinIndex_def [symmetric])

text \<open>A commitment the board accepts: valid after one normalisation, hence canonical after two.\<close>

lemma accepted_commitment:
  assumes "isValidHexString (normalizeHexString c) (Some 32)"
  shows "log_accepts (normalizeHexString c)"
  using isValidHexString_canonical [OF assms] isValidHexString_length [OF assms]
  by (simp add: log_accepts_def)

lemma board_inv_new: "noble_ok N \<Longrightarrow> board_inv N (new_board N lid)"
  by (simp add: board_inv_def new_board_def log_invar_def canonical_leaves_def merkle_log.prefix_roots_def contents_def)
     (simp add: new_tree_def)

lemma board_inv_clear: "board_inv N b \<Longrightarrow> board_inv N (clear b)"
  by (simp add: board_inv_def clear_def log_invar_def canonical_leaves_def merkle_log.prefix_roots_def contents_def)
     (simp add: new_tree_def)

text \<open>Reading through the tree keeps the invariant, since it keeps the leaves.\<close>

lemma board_inv_tree:
  assumes "board_inv N b" "kept N (tree b) t"
  shows "board_inv N (b\<lparr>tree := t\<rparr>)"
proof -
  have "leaves t = leaves (tree b)" "tree_inv N t" using assms(2) by (auto simp: kept_def)
  moreover from this have "contents N t = contents N (tree b)" by (simp add: contents_def)
  ultimately show ?thesis
    using assms(1) merkle_log.prefix_roots_keep
    by (auto simp: board_inv_def log_invar_def canonical_leaves_def)
qed

text \<open>When and how \<open>appendVote\<close> succeeds.\<close>

definition vote_acceptable :: "string \<Rightarrow> string \<Rightarrow> board \<Rightarrow> bool" where
  "vote_acceptable vid c b \<longleftrightarrow>
     isValidVoteId vid \<and> vid \<notin> fst ` set (voteEntries b) \<and>
     isValidHexString (normalizeHexString c) (Some 32) \<and> normalizeHexString c \<notin> commitmentSet b \<and>
     int (length (commitments b)) \<le> MAX_SAFE_INTEGER"

lemma appendVote_rejects:
  assumes "\<not> vote_acceptable vid c b"
  shows "\<exists>e. appendVote N now vid c b = (Inl e, b)"
  using assms
  by (auto simp: appendVote_def vote_acceptable_def Let_def map_of_eq_None_iff isValidHexString_def)

lemma appendVote_accepts:
  assumes "board_inv N b" "vote_acceptable vid c b"
  shows "\<exists>t2. log_invar N t2 \<and> leaves t2 = leaves (tree b) @ [normalizeHexString (normalizeHexString c)] \<and>
    (let n = int (length (commitments b)); nc = normalizeHexString c;
         r = log_root_of N (contents N (tree b) @ [leaf_bytes N (normalizeHexString nc)])
     in appendVote N now vid c b =
       (Inr \<lparr>ar_index = n, ar_rootAtAppend = r, ar_timestamp = now\<rparr>,
        b\<lparr>tree := t2,
          voteEntries := voteEntries b @ [(vid, \<lparr>voteId = vid, commitment = nc, index = n, timestamp = now, rootAtAppend = r\<rparr>)],
          commitmentSet := insert nc (commitmentSet b), commitments := commitments b @ [nc],
          rootHistory := rootHistory b @ [\<lparr>snap_timestamp = now, snap_treeSize = n + 1, snap_root = r\<rparr>]\<rparr>))"
proof -
  let ?nc = "normalizeHexString c"
  have acc: "log_accepts ?nc"
    using assms(2) accepted_commitment by (simp add: vote_acceptable_def)
  have inv: "log_invar N (tree b)" using board_invD(1) [OF assms(1)] .
  obtain t1 t2 where t: "append_leaf ?nc (tree b) = Inr t1"
    "getRoot N t1 = (Inr (log_root_of N (contents N (tree b) @ [leaf_bytes N (normalizeHexString ?nc)])), t2)" "log_invar N t2"
    by (rule merkle_log.append_then_root [OF inv acc])
  have "leaves t1 = leaves (tree b) @ [normalizeHexString ?nc]" "tree_inv N t1"
    using t(1) append_leaf_inv [OF log_invarD(2) [OF inv] t(1)] by (auto simp: append_leaf_Inr)
  then have l2: "leaves t2 = leaves (tree b) @ [normalizeHexString ?nc]"
    using getRoot_kept [of N t1] t(2) log_invarD(1) [OF inv] by (simp add: kept_def)
  have "length (leaves (tree b)) = length (commitments b)" using board_invD(2) [OF assms(1)] by simp
  moreover have "?nc \<noteq> []" using assms(2) by (auto simp: vote_acceptable_def isValidHexString_def)
  ultimately show ?thesis
    using assms(2) t l2
    by (intro exI [of _ t2])
      (simp add: appendVote_def vote_acceptable_def Let_def update_new_key map_of_eq_None_iff size_of_tree_def)
qed

lemma appendVote_inv:
  assumes "board_inv N b"
  shows "board_inv N (snd (appendVote N now vid c b))"
proof (cases "vote_acceptable vid c b")
  case False
  with appendVote_rejects [OF False, of N now] assms show ?thesis by auto
next
  case True
  from appendVote_accepts [OF assms True, of now] obtain t2 where t2: "log_invar N t2"
    "leaves t2 = leaves (tree b) @ [normalizeHexString (normalizeHexString c)]"
    and eq: "appendVote N now vid c b = (let n = int (length (commitments b)); nc = normalizeHexString c;
         r = log_root_of N (contents N (tree b) @ [leaf_bytes N (normalizeHexString nc)])
     in (Inr \<lparr>ar_index = n, ar_rootAtAppend = r, ar_timestamp = now\<rparr>,
        b\<lparr>tree := t2,
          voteEntries := voteEntries b @ [(vid, \<lparr>voteId = vid, commitment = nc, index = n, timestamp = now, rootAtAppend = r\<rparr>)],
          commitmentSet := insert nc (commitmentSet b), commitments := commitments b @ [nc],
          rootHistory := rootHistory b @ [\<lparr>snap_timestamp = now, snap_treeSize = n + 1, snap_root = r\<rparr>]\<rparr>))"
    by (auto simp: Let_def)
  have "contents N t2 = contents N (tree b) @ [leaf_bytes N (normalizeHexString (normalizeHexString c))]"
    by (simp add: contents_def t2(2))
  note roots = merkle_log.prefix_roots_append [OF board_invD(11) [OF assms] this]
  show ?thesis
    using True t2 roots board_invD [OF assms]
    by (simp add: eq board_inv_def vote_acceptable_def Let_def)
qed

section \<open>Any sequence of calls on the board\<close>

datatype board_op =
    AppendVote int string string
  | CurrentRoot
  | RootAtSize int
  | ConsistencyProof int int
  | InclusionProof string "int option"
  | Clear

fun call_board :: "noble \<Rightarrow> board_op \<Rightarrow> board \<Rightarrow> board" where
  "call_board N (AppendVote now vid c) b = snd (appendVote N now vid c b)"
| "call_board N CurrentRoot b = snd (getCurrentRoot N b)"
| "call_board N (RootAtSize n) b = snd (board_getRootAtSize N n b)"
| "call_board N (ConsistencyProof old new) b = snd (board_getConsistencyProof N old new b)"
| "call_board N (InclusionProof vid n) b = snd (board_getInclusionProof N vid n b)"
| "call_board N Clear b = clear b"

lemma on_tree_inv:
  assumes "board_inv N b" "kept N (tree b) (snd (f (tree b)))"
  shows "board_inv N (snd (on_tree f b))"
  using board_inv_tree [OF assms] by (cases "f (tree b)") (simp add: on_tree_def)

lemma board_getInclusionProof_inv:
  assumes "board_inv N b"
  shows "board_inv N (snd (board_getInclusionProof N vid n b))"
proof (cases "map_of (voteEntries b) vid")
  case (Some e)
  let ?n = "case n of Some s \<Rightarrow> s | None \<Rightarrow> size_of_tree (tree b)"
  note inv = log_invarD(1,2) [OF board_invD(1) [OF assms]]
  obtain r1 t1 where p: "getInclusionProof N (tree b) (index e) (Some ?n) = (r1, t1)" by fastforce
  obtain r2 t2 where r: "getRootAtSize N t1 ?n = (r2, t2)" by fastforce
  have k1: "kept N (tree b) t1" using getInclusionProof_kept [OF inv, of "index e" "Some ?n"] p by simp
  have k2: "kept N (tree b) t2"
    using getRootAtSize_kept [OF inv(1) kept_inv [OF k1], of ?n] r kept_trans [OF k1] by simp
  show ?thesis
    using assms board_inv_tree [OF assms k1] board_inv_tree [OF assms k2]
    by (auto simp: board_getInclusionProof_def Some Let_def p r split: sum.split)
qed (simp add: board_getInclusionProof_def assms)

lemma call_board_inv:
  assumes "board_inv N b"
  shows "board_inv N (call_board N op b)"
proof -
  note inv = log_invarD(1,2) [OF board_invD(1) [OF assms]]
  show ?thesis
    by (cases op)
      (use assms reads_kept [OF inv] in
        \<open>simp_all add: appendVote_inv getCurrentRoot_def board_getRootAtSize_def board_getConsistencyProof_def
          on_tree_inv board_getInclusionProof_inv board_inv_clear\<close>)
qed

interpretation board_calls: invariant_system "\<lambda>b. noble_ok N \<and> (\<exists>lid. b = new_board N lid)"
  "\<lambda>b op b'. b' = call_board N op b" "board_inv N" for N
  by unfold_locales (auto simp: board_inv_new call_board_inv)

lemma runs_board: "runs (\<lambda>b op b'. b' = call_board N op b) b ops (fold (call_board N) ops b)"
  by (induction ops arbitrary: b) auto

lemma reachable_board: "noble_ok N \<Longrightarrow> board_inv N (fold (call_board N) ops (new_board N lid))"
  using board_calls.reachable_inv [OF _ runs_board] by blast

section \<open>What the invariant gives\<close>

lemma board_lengths:
  assumes "board_inv N b"
  shows "length (contents N (tree b)) = length (commitments b)" "length (leaves (tree b)) = length (commitments b)"
    "length (voteEntries b) = length (commitments b)" "length (rootHistory b) = length (commitments b)"
  using board_invD(2) [OF assms] arg_cong [OF board_invD(7) [OF assms], of length]
    arg_cong [OF board_invD(10) [OF assms], of length]
  by (simp_all del: upt_Suc)

lemma history_root:
  assumes "board_inv N b" "0 < n" "n \<le> length (commitments b)"
  shows "snap_root (rootHistory b ! (n - 1)) = bytesToHex N (mth_spec N (take n (contents N (tree b))))"
  using merkle_log.prefix_roots_nth [OF board_invD(11) [OF assms(1)]] board_lengths [OF assms(1)] assms(2,3)
  by (auto simp: log_root_of_def)

lemma history_size:
  assumes "board_inv N b" "i < length (commitments b)"
  shows "snap_treeSize (rootHistory b ! i) = int (Suc i)"
proof -
  have "map snap_treeSize (rootHistory b) ! i = map int [1..<Suc (length (commitments b))] ! i"
    using board_invD(10) [OF assms(1)] by simp
  then show ?thesis using assms board_lengths(4) [OF assms(1)] by (simp del: upt_Suc)
qed

lemma entry_nth:
  assumes "board_inv N b" "i < length (commitments b)"
  shows "index (snd (voteEntries b ! i)) = int i" "commitment (snd (voteEntries b ! i)) = commitments b ! i"
    "fst (voteEntries b ! i) = voteId (snd (voteEntries b ! i))"
    "rootAtAppend (snd (voteEntries b ! i)) = snap_root (rootHistory b ! i)"
proof -
  note inv = board_invD [OF assms(1)] and len = board_lengths [OF assms(1)]
  show "index (snd (voteEntries b ! i)) = int i"
    using arg_cong [OF inv(8), of "\<lambda>xs. xs ! i"] assms(2) len by simp
  show "commitment (snd (voteEntries b ! i)) = commitments b ! i"
    using arg_cong [OF inv(7), of "\<lambda>xs. xs ! i"] assms(2) len by simp
  show "fst (voteEntries b ! i) = voteId (snd (voteEntries b ! i))"
    using inv(6) assms(2) len by (auto simp: list_all_length split: prod.splits)
  show "rootAtAppend (snd (voteEntries b ! i)) = snap_root (rootHistory b ! i)"
    using arg_cong [OF inv(9), of "\<lambda>xs. xs ! i"] assms(2) len by simp
qed

text \<open>The entry of a vote identifier is the one at its index.\<close>

lemma getVoteById_entry:
  assumes "board_inv N b" "getVoteById vid b = Some e"
  shows "\<exists>i < length (commitments b). voteEntries b ! i = (vid, e) \<and> index e = int i \<and> voteId e = vid"
proof -
  have "(vid, e) \<in> set (voteEntries b)"
    using assms(2) by (simp add: getVoteById_def map_of_SomeD)
  then obtain i where "i < length (voteEntries b)" "voteEntries b ! i = (vid, e)"
    by (auto simp: in_set_conv_nth)
  then show ?thesis using entry_nth(1,3) [OF assms(1), of i] board_lengths(3) [OF assms(1)] by auto
qed

lemma find_index:
  assumes "i < length xs" "\<And>j. j < length xs \<Longrightarrow> f (xs ! j) = int j"
  shows "List.find (\<lambda>e. f e = int i) xs = Some (xs ! i)"
  using assms by (auto simp: find_Some_iff)

lemma getVoteByIndex_entry:
  assumes "board_inv N b" "i < length (commitments b)" "int i \<le> MAX_SAFE_INTEGER"
  shows "getVoteByIndex (js_int (int i)) b = Some (snd (voteEntries b ! i))"
  using assms board_lengths(3) [OF assms(1)] find_index [of i "map snd (voteEntries b)" index] entry_nth(1) [OF assms(1)]
  by (simp add: getVoteByIndex_def)

lemma board_inclusion:
  assumes "board_inv N b" "getVoteById vid b = Some e" "index e < n" "n \<le> getSize b" "getSize b \<le> MAX_SAFE_INTEGER"
  shows "\<exists>p b'. board_getInclusionProof N vid (Some n) b = (Inr (Some p), b') \<and>
    treeSize p = n \<and> leafIndex p = index e \<and> rootHash p = snap_root (rootHistory b ! nat (n - 1)) \<and>
    board_verifyInclusionProof N (commitment e) (js_int (leafIndex p)) (ip_proofNodes p) (rootHash p) (treeSize p) = Inr True"
proof -
  note inv = board_invD [OF assms(1)] and len = board_lengths [OF assms(1)]
  note tr = log_invarD [OF inv(1)]
  obtain i where i: "i < length (commitments b)" "voteEntries b ! i = (vid, e)" "index e = int i"
    using getVoteById_entry [OF assms(1,2)] by blast
  have n: "0 < n" "n \<le> int (length (leaves (tree b)))" "int i < n" "n \<le> MAX_SAFE_INTEGER"
    using assms(3-5) i(3) by (simp_all add: getSize_def size_of_tree_def)
  let ?ds = "take (nat n) (contents N (tree b))"
  obtain t1 where p: "getInclusionProof N (tree b) (index e) (Some n) =
      (Inr (index e, map (bytesToHex N) (path_spec N (nat (index e)) ?ds)), t1)" "kept N (tree b) t1"
    using getInclusionProof_correct [OF tr(1,2), of "index e" n] n i(3) by auto
  have t1: "tree_inv N t1" "leaves t1 = leaves (tree b)" "contents N t1 = contents N (tree b)"
    using p(2) by (auto simp: kept_def contents_def)
  obtain t2 where r: "getRootAtSize N t1 n = (Inr (bytesToHex N (mth_spec N ?ds)), t2)"
    using getRootAtSize_value [OF tr(1) t1(1) n(1)] n(2) t1(2,3) by auto
  have "snap_root (rootHistory b ! nat (n - 1)) = bytesToHex N (mth_spec N ?ds)"
    using history_root [OF assms(1), of "nat n"] n len by (simp add: nat_diff_distrib)
  moreover have "hexToBytesStrict N (commitment e) = Inr (?ds ! i)"
  proof -
    have v: "commitment e = commitments b ! i" using entry_nth(2) [OF assms(1) i(1)] i(2) by simp
    have "canonical_hex (normalizeHexString (commitment e))"
      using tr(3) inv(2) i(1) v by (simp add: canonical_leaves_def list_all_length)
    moreover have "valid_leaf (normalizeHexString (commitment e))"
      using tree_invD(1) [OF tr(2)] inv(2) i(1) v by (simp add: list_all_length)
    ultimately have "hexToBytesStrict N (commitment e) = Inr (leaf_bytes N (normalizeHexString (commitment e)))"
      using valid_leaf_bytes(1) [OF tr(1), of "normalizeHexString (commitment e)"] by simp
    then show ?thesis
      using n(3) i(1) v inv(2) by (simp add: contents_def)
  qed
  moreover have "length ?ds = nat n" using n len by simp
  ultimately have "snap_root (rootHistory b ! nat (n - 1)) = bytesToHex N (mth_spec N ?ds)"
    "verifyInclusionProof N (commitment e) (int i) (map (bytesToHex N) (path_spec N i ?ds))
      (bytesToHex N (mth_spec N ?ds)) n = Inr True"
    using verifyInclusion_complete [OF tr(1), of i ?ds] n by (simp_all add: nat_less_iff)
  then show ?thesis
    using assms(2) n i(3) p(1) r
    by (simp add: board_getInclusionProof_def getVoteById_def [symmetric] size_of_tree_def board_verifyInclusionProof_def)
qed

lemma board_consistency:
  assumes "board_inv N b" "0 < m" "m \<le> n" "n \<le> getSize b" "getSize b < 2 ^ 32"
  shows "\<exists>p b'. board_getConsistencyProof N m n b = (Inr p, b') \<and> oldSize p = m \<and> newSize p = n \<and>
    verifyConsistency N (snap_root (rootHistory b ! nat (m - 1))) (snap_root (rootHistory b ! nat (n - 1))) p = Inr True"
proof -
  note inv = board_invD [OF assms(1)] and len = board_lengths [OF assms(1)]
  note tr = log_invarD [OF inv(1)]
  let ?ds = "take (nat n) (contents N (tree b))"
  have n: "n \<le> int (length (leaves (tree b)))" using assms(4) by (simp add: getSize_def size_of_tree_def)
  have l: "length ?ds = nat n" "nat m \<le> length ?ds" "nat m \<le> length (commitments b)" "nat n \<le> length (commitments b)"
    using n assms(3) len by simp_all
  obtain t1 where p: "getConsistencyProof N (tree b) m n = (Inr \<lparr>oldSize = m, newSize = n,
      proofNodes = map (bytesToHex N) (subproof_spec N (nat m) ?ds True)\<rparr>, t1)"
    using getConsistencyProof_correct [OF tr assms(2,3) n] by blast
  have "snap_root (rootHistory b ! nat (n - 1)) = bytesToHex N (mth_spec N ?ds)"
    "snap_root (rootHistory b ! nat (m - 1)) = bytesToHex N (mth_spec N (take (nat m) ?ds))"
    using history_root [OF assms(1), of "nat n"] history_root [OF assms(1), of "nat m"] l assms(2,3)
    by (simp_all add: nat_diff_distrib min_def)
  then show ?thesis
    using verifyConsistency_complete [OF tr(1) list_all_take [OF contents_length [OF tr(1,2)]], of "nat m" "nat n"] p l assms
    by (simp add: board_getConsistencyProof_def on_tree_def verifyConsistency_def getSize_def)
qed

section \<open>Properties of the board\<close>

text \<open>C12: after any sequence of calls on a board, the root history lists, in order, the reference roots
  of the prefixes of the log with their sizes, and the index, commitment and root of each entry are
  those of its position.\<close>

theorem board_history_is_prefix_roots:
  assumes "noble_ok N" "b = fold (call_board N) ops (new_board N lid)"
  shows "length (rootHistory b) = length (leaves (tree b)) \<and>
    (\<forall>i < length (rootHistory b).
       snap_treeSize (rootHistory b ! i) = int i + 1 \<and>
       snap_root (rootHistory b ! i) = bytesToHex N (mth_spec N (take (Suc i) (contents N (tree b)))) \<and>
       (\<exists>e. voteEntries b ! i = (voteId e, e) \<and> index e = int i \<and> commitment e = commitments b ! i \<and>
            rootAtAppend e = snap_root (rootHistory b ! i)))"
proof -
  have inv: "board_inv N b" using reachable_board [OF assms(1)] assms(2) by simp
  note len = board_lengths [OF inv]
  show ?thesis
  proof (intro conjI allI impI)
    fix i
    assume "i < length (rootHistory b)"
    then have i: "i < length (commitments b)" using len by simp
    show "snap_treeSize (rootHistory b ! i) = int i + 1" using history_size [OF inv i] by simp
    show "snap_root (rootHistory b ! i) = bytesToHex N (mth_spec N (take (Suc i) (contents N (tree b))))"
      using history_root [OF inv, of "Suc i"] i by simp
    show "\<exists>e. voteEntries b ! i = (voteId e, e) \<and> index e = int i \<and> commitment e = commitments b ! i \<and>
        rootAtAppend e = snap_root (rootHistory b ! i)"
      using entry_nth [OF inv i] by (intro exI [of _ "snd (voteEntries b ! i)"]) (simp add: prod_eq_iff)
  qed (simp add: len)
qed

definition sample_id :: string where
  "sample_id = ''01234567-89ab-4cde-8f01-23456789abcd''"

definition sample_id2 :: string where
  "sample_id2 = ''11234567-89ab-4cde-8f01-23456789abcd''"

lemma sample_ids [simp]: "isValidVoteId sample_id" "isValidVoteId sample_id2" "sample_id \<noteq> sample_id2" "sample_id2 \<noteq> sample_id"
  by code_simp+

definition sample_ops :: "board_op list" where
  "sample_ops = [AppendVote 7 sample_id leaf_a, AppendVote 8 sample_id leaf_b, CurrentRoot, AppendVote 9 sample_id2 leaf_b]"

theorem board_history_is_prefix_roots_witness:
  "let b = fold (call_board demo_noble) sample_ops (new_board demo_noble None) in
   length (rootHistory b) = length (leaves (tree b)) \<and>
    (\<forall>i < length (rootHistory b).
       snap_treeSize (rootHistory b ! i) = int i + 1 \<and>
       snap_root (rootHistory b ! i) = bytesToHex demo_noble (mth_spec demo_noble (take (Suc i) (contents demo_noble (tree b)))) \<and>
       (\<exists>e. voteEntries b ! i = (voteId e, e) \<and> index e = int i \<and> commitment e = commitments b ! i \<and>
            rootAtAppend e = snap_root (rootHistory b ! i)))"
  unfolding Let_def by (rule board_history_is_prefix_roots [OF demo_noble_ok refl])

text \<open>What a successful and a failed append do, on a reachable board.\<close>

lemma appendVote_state:
  assumes "board_inv N b" "vote_acceptable vid c b"
  shows "getVoteById vid (snd (appendVote N now vid c b)) =
      Some \<lparr>voteId = vid, commitment = normalizeHexString c, index = int (length (commitments b)), timestamp = now,
            rootAtAppend = log_root_of N (contents N (tree b) @ [leaf_bytes N (normalizeHexString (normalizeHexString c))])\<rparr>"
    "commitments (snd (appendVote N now vid c b)) = commitments b @ [normalizeHexString c]"
    "leaves (tree (snd (appendVote N now vid c b))) = leaves (tree b) @ [normalizeHexString (normalizeHexString c)]"
    "voteEntries (snd (appendVote N now vid c b)) = voteEntries b @ [(vid, the (getVoteById vid (snd (appendVote N now vid c b))))]"
    "\<exists>a. fst (appendVote N now vid c b) = Inr a \<and> ar_index a = int (length (commitments b))"
proof -
  have "map_of (voteEntries b) vid = None"
    using assms(2) by (auto simp: vote_acceptable_def map_of_eq_None_iff)
  then show "getVoteById vid (snd (appendVote N now vid c b)) =
      Some \<lparr>voteId = vid, commitment = normalizeHexString c, index = int (length (commitments b)), timestamp = now,
            rootAtAppend = log_root_of N (contents N (tree b) @ [leaf_bytes N (normalizeHexString (normalizeHexString c))])\<rparr>"
    "commitments (snd (appendVote N now vid c b)) = commitments b @ [normalizeHexString c]"
    "leaves (tree (snd (appendVote N now vid c b))) = leaves (tree b) @ [normalizeHexString (normalizeHexString c)]"
    "voteEntries (snd (appendVote N now vid c b)) = voteEntries b @ [(vid, the (getVoteById vid (snd (appendVote N now vid c b))))]"
    "\<exists>a. fst (appendVote N now vid c b) = Inr a \<and> ar_index a = int (length (commitments b))"
    using appendVote_accepts [OF assms, of now] by (auto simp: getVoteById_def map_add_def Let_def)
qed

text \<open>C13: \<open>appendVote\<close> succeeds exactly when the identifier is a new valid UUID, the normalised
  commitment is a valid 32-byte hex string not on the board and the index is safe; a success gives the
  entry the next index and makes it retrievable by identifier and by index; a failure changes nothing.\<close>

theorem appendVote_spec:
  assumes "noble_ok N" "b = fold (call_board N) ops (new_board N lid)"
  shows "if vote_acceptable vid c b
    then (\<exists>a e. fst (appendVote N now vid c b) = Inr a \<and> ar_index a = getSize b \<and>
           getVoteById vid (snd (appendVote N now vid c b)) = Some e \<and> commitment e = normalizeHexString c \<and>
           getVoteByIndex (js_int (ar_index a)) (snd (appendVote N now vid c b)) = Some e \<and>
           getSize (snd (appendVote N now vid c b)) = getSize b + 1)
    else (\<exists>err. appendVote N now vid c b = (Inl err, b))"
proof (cases "vote_acceptable vid c b")
  case False
  then show ?thesis using appendVote_rejects by simp
next
  case True
  have inv: "board_inv N b" using reachable_board [OF assms(1)] assms(2) by simp
  note st = appendVote_state [OF inv True, of now] and len = board_lengths [OF inv]
  have idx: "int (length (commitments b)) \<le> MAX_SAFE_INTEGER" using True by (simp add: vote_acceptable_def)
  have "getVoteByIndex (js_int (int (length (commitments b)))) (snd (appendVote N now vid c b)) =
      Some (snd (voteEntries (snd (appendVote N now vid c b)) ! length (commitments b)))"
    by (rule getVoteByIndex_entry [OF appendVote_inv [OF inv] _ idx]) (simp add: st(2))
  then show ?thesis
    using True st len by (auto simp: getSize_def size_of_tree_def nth_append)
qed

lemma sample_acceptable: "vote_acceptable sample_id leaf_a (new_board N lid)"
  by (simp add: vote_acceptable_def new_board_def MAX_SAFE_INTEGER_def)

theorem appendVote_spec_witness:
  "\<exists>a e. fst (appendVote demo_noble 7 sample_id leaf_a (new_board demo_noble None)) = Inr a \<and>
     ar_index a = getSize (new_board demo_noble None) \<and>
     getVoteById sample_id (snd (appendVote demo_noble 7 sample_id leaf_a (new_board demo_noble None))) = Some e \<and>
     commitment e = leaf_a \<and>
     getVoteByIndex (js_int (ar_index a)) (snd (appendVote demo_noble 7 sample_id leaf_a (new_board demo_noble None))) = Some e"
  using appendVote_spec [OF demo_noble_ok, of "new_board demo_noble None" "[]" None sample_id leaf_a 7]
  by (auto simp: sample_acceptable)

text \<open>On a reachable board, every recorded vote has an inclusion proof for every tree size that
  contains it; the proof ends in the root the history records for that size and the board's own
  verifier accepts it for the recorded commitment.\<close>

theorem recorded_vote_has_accepted_proof:
  assumes "noble_ok N" "b = fold (call_board N) ops (new_board N lid)" "getVoteById vid b = Some e"
    "index e < n" "n \<le> getSize b" "getSize b \<le> MAX_SAFE_INTEGER"
  shows "\<exists>p b'. board_getInclusionProof N vid (Some n) b = (Inr (Some p), b') \<and>
    treeSize p = n \<and> leafIndex p = index e \<and> rootHash p = snap_root (rootHistory b ! nat (n - 1)) \<and>
    board_verifyInclusionProof N (commitment e) (js_int (leafIndex p)) (ip_proofNodes p) (rootHash p) (treeSize p) = Inr True"
  using board_inclusion [OF reachable_board [OF assms(1)]] assms by blast

definition sample_board :: board where
  "sample_board = fold (call_board demo_noble) [AppendVote 7 sample_id leaf_a, AppendVote 8 sample_id2 leaf_b] (new_board demo_noble None)"

lemma sample_board_facts:
  "getSize sample_board = 2" "\<exists>e. getVoteById sample_id2 sample_board = Some e \<and> index e = 1"
proof -
  let ?b0 = "new_board demo_noble None"
  let ?b1 = "snd (appendVote demo_noble 7 sample_id leaf_a ?b0)"
  have inv: "board_inv demo_noble ?b0" by (rule board_inv_new [OF demo_noble_ok])
  note st = appendVote_state [OF inv sample_acceptable, of 7]
  have inv1: "board_inv demo_noble ?b1" by (rule appendVote_inv [OF inv])
  have n: "commitments ?b0 = []" "voteEntries ?b0 = []" "leaves (tree ?b0) = []"
    by (simp_all add: new_board_def) (simp add: new_tree_def)
  have "vote_acceptable sample_id2 leaf_b ?b1"
    using st n board_invD(4) [OF inv1]
    by (simp add: vote_acceptable_def MAX_SAFE_INTEGER_def) (simp add: leaf_a_def leaf_b_def)
  note st2 = appendVote_state [OF inv1 this, of 8]
  show "getSize sample_board = 2" "\<exists>e. getVoteById sample_id2 sample_board = Some e \<and> index e = 1"
    using st st2 n by (simp_all add: sample_board_def getSize_def size_of_tree_def)
qed

theorem recorded_vote_has_accepted_proof_witness:
  "\<exists>e. getVoteById sample_id2 sample_board = Some e \<and> (\<exists>p b'. board_getInclusionProof demo_noble sample_id2 (Some 2) sample_board = (Inr (Some p), b') \<and>
    treeSize p = 2 \<and> leafIndex p = index e \<and> rootHash p = snap_root (rootHistory sample_board ! nat (2 - 1)) \<and>
    board_verifyInclusionProof demo_noble (commitment e) (js_int (leafIndex p)) (ip_proofNodes p) (rootHash p) (treeSize p) = Inr True)"
proof -
  obtain e where e: "getVoteById sample_id2 sample_board = Some e" "index e = 1"
    using sample_board_facts(2) by blast
  show ?thesis
    by (intro exI [of _ e] conjI e(1) recorded_vote_has_accepted_proof [OF demo_noble_ok sample_board_def e(1)])
      (simp_all add: e(2) sample_board_facts(1) MAX_SAFE_INTEGER_def)
qed

text \<open>On a reachable board, any two roots of the history are linked by a consistency proof that
  the board generates and its verifier accepts.\<close>

theorem recorded_roots_are_consistent:
  assumes "noble_ok N" "b = fold (call_board N) ops (new_board N lid)" "0 < m" "m \<le> n" "n \<le> getSize b" "getSize b < 2 ^ 32"
  shows "\<exists>p b'. board_getConsistencyProof N m n b = (Inr p, b') \<and> oldSize p = m \<and> newSize p = n \<and>
    verifyConsistency N (snap_root (rootHistory b ! nat (m - 1))) (snap_root (rootHistory b ! nat (n - 1))) p = Inr True"
  using board_consistency [OF reachable_board [OF assms(1)]] assms by blast

theorem recorded_roots_are_consistent_witness:
  "\<exists>p b'. board_getConsistencyProof demo_noble 1 2 sample_board = (Inr p, b') \<and> oldSize p = 1 \<and> newSize p = 2 \<and>
    verifyConsistency demo_noble (snap_root (rootHistory sample_board ! nat (1 - 1))) (snap_root (rootHistory sample_board ! nat (2 - 1))) p = Inr True"
  by (rule recorded_roots_are_consistent [OF demo_noble_ok sample_board_def]) (simp_all add: sample_board_facts)

text \<open>C14: the duplicate check of \<open>appendVote\<close> compares strings that may still carry a prefix: after a
  commitment was recorded, the same commitment written with two prefixes is accepted again under
  another identifier, and the log then holds the same leaf twice.\<close>

theorem duplicate_commitment_accepted:
  assumes "noble_ok N" "canonical_hex h" "length h = 64" "isValidVoteId v" "isValidVoteId w" "v \<noteq> w"
    "b = snd (appendVote N now v h (new_board N lid))"
  shows "\<exists>a. fst (appendVote N later w (''0x0x'' @ h) b) = Inr a \<and>
    leaves (tree (snd (appendVote N later w (''0x0x'' @ h) b))) = [h, h]"
proof -
  let ?b0 = "new_board N lid"
  have inv: "board_inv N ?b0" by (rule board_inv_new [OF assms(1)])
  have n: "commitments ?b0 = []" "voteEntries ?b0 = []" "leaves (tree ?b0) = []" "commitmentSet ?b0 = {}"
    by (simp_all add: new_board_def) (simp add: new_tree_def)
  have norm: "normalizeHexString (''0x0x'' @ h) = ''0x'' @ h" "normalizeHexString (''0x'' @ h) = h"
    using double_prefix [OF assms(2)] by simp_all
  have "vote_acceptable v h ?b0" using assms n by (simp add: vote_acceptable_def MAX_SAFE_INTEGER_def)
  note st = appendVote_state [OF inv this, of now, folded assms(7)]
  have inv1: "board_inv N b" unfolding assms(7) by (rule appendVote_inv [OF inv])
  have ne: "''0x'' @ h \<noteq> h" by (metis append_self_conv2 list.distinct(1))
  have "isValidHexString (''0x'' @ h) (Some 32)"
    using norm(2) assms(2,3) by (simp add: isValidHexString_def canonical_hex_def)
  then have "vote_acceptable w (''0x0x'' @ h) b"
    using st n assms(2-6) norm(1) board_invD(4) [OF inv1] ne
    by (auto simp: vote_acceptable_def MAX_SAFE_INTEGER_def)
  from appendVote_state [OF inv1 this, of later] show ?thesis
    using st(3) n norm assms(2) by auto
qed

theorem duplicate_commitment_accepted_witness:
  "\<exists>a. fst (appendVote demo_noble 8 sample_id2 (''0x0x'' @ leaf_a) (snd (appendVote demo_noble 7 sample_id leaf_a (new_board demo_noble None)))) = Inr a \<and>
    leaves (tree (snd (appendVote demo_noble 8 sample_id2 (''0x0x'' @ leaf_a) (snd (appendVote demo_noble 7 sample_id leaf_a (new_board demo_noble None)))))) = [leaf_a, leaf_a]"
  by (rule duplicate_commitment_accepted [OF demo_noble_ok _ _ _ _ _ refl]) simp_all

end
