(* ===== verification/Checks.thy ===== *)
theory Checks
  imports Prelude
begin

text \<open>
  The catalogue of verification checks (packages/verification/src/verification/verification-checks.ts and
  step-types.ts): the identifiers, the table of definitions, which checks are required, the
  definitions and the inputs of a step.
\<close>

section \<open>Data\<close>

datatype step_id = cast_as_intended | recorded_as_cast | counted_as_recorded | stark_verification

datatype step_status = Pending | Running | Success | Failed | NotRun

datatype evidence_kind = Local | Public | Zk | Demo

datatype check_role =
    proof_verification
  | cast_receipt_integrity
  | recorded_inclusion
  | recorded_append_only
  | tally_input_integrity
  | tally_completeness
  | user_inclusion
  | tally_consistency
  | optional_external_audit

datatype check_criticality = Required | Optional

text \<open>The identifiers of the table; at run time a check may carry another string.\<close>

datatype check_id =
    cast_receipt_present
  | cast_choice_range
  | cast_random_format
  | cast_commitment_match
  | recorded_commitment_in_bulletin
  | recorded_index_in_range
  | recorded_root_at_cast_consistent
  | recorded_inclusion_proof
  | recorded_consistency_proof
  | recorded_sth_third_party
  | counted_input_sanity
  | counted_unique_indices
  | counted_unique_commitments
  | counted_tally_consistent
  | counted_missing_indices_zero
  | counted_expected_vs_tree_size
  | counted_election_manifest_consistent
  | counted_close_statement_consistent
  | counted_my_vote_included
  | counted_input_commitment_match
  | stark_image_id_match
  | stark_receipt_verify
  | unknown_check string

datatype note_key = NotPresented | PresentedButInvalid | Excluded | MissingReceipt | ProofUnavailable

record verification_check =
  id_of :: check_id
  status :: step_status
  evidence :: evidence_kind
  inputs :: "string list"
  derivedFrom :: "check_id option"
  noteKey :: "note_key option"

record check_definition =
  def_id :: check_id
  category :: step_id
  def_evidence :: evidence_kind
  def_inputs :: "string list"
  role :: check_role
  criticality :: check_criticality
  def_derivedFrom :: "check_id option"

definition VERIFICATION_CHECK_DEFINITIONS :: "check_definition list" where
  "VERIFICATION_CHECK_DEFINITIONS =
     [
       \<lparr>def_id = cast_receipt_present, category = cast_as_intended, def_evidence = Local,
        def_inputs = [''user.voteId'', ''user.commitment''],
        role = cast_receipt_integrity, criticality = Required, def_derivedFrom = None\<rparr>,
       \<lparr>def_id = cast_choice_range, category = cast_as_intended, def_evidence = Local,
        def_inputs = [''user.choice''],
        role = cast_receipt_integrity, criticality = Required, def_derivedFrom = None\<rparr>,
       \<lparr>def_id = cast_random_format, category = cast_as_intended, def_evidence = Local,
        def_inputs = [''user.random''],
        role = cast_receipt_integrity, criticality = Required, def_derivedFrom = None\<rparr>,
       \<lparr>def_id = cast_commitment_match, category = cast_as_intended, def_evidence = Local,
        def_inputs = [''electionId'', ''user.choice'', ''user.random'', ''user.commitment''],
        role = cast_receipt_integrity, criticality = Required, def_derivedFrom = None\<rparr>,
       \<lparr>def_id = recorded_commitment_in_bulletin, category = recorded_as_cast, def_evidence = Public,
        def_inputs = [''user.commitment'', ''user.voteReceipt'', ''user.merklePath''],
        role = recorded_inclusion, criticality = Optional, def_derivedFrom = Some recorded_inclusion_proof\<rparr>,
       \<lparr>def_id = recorded_index_in_range, category = recorded_as_cast, def_evidence = Public,
        def_inputs = [''user.voteReceipt'', ''treeSize''],
        role = recorded_inclusion, criticality = Required, def_derivedFrom = None\<rparr>,
       \<lparr>def_id = recorded_root_at_cast_consistent, category = recorded_as_cast, def_evidence = Public,
        def_inputs = [''user.voteReceipt'', ''user.merklePath'', ''bulletinRoot'', ''treeSize''],
        role = recorded_append_only, criticality = Optional, def_derivedFrom = Some recorded_consistency_proof\<rparr>,
       \<lparr>def_id = recorded_inclusion_proof, category = recorded_as_cast, def_evidence = Public,
        def_inputs = [''user.commitment'', ''user.voteReceipt'', ''user.merklePath''],
        role = recorded_inclusion, criticality = Required, def_derivedFrom = None\<rparr>,
       \<lparr>def_id = recorded_consistency_proof, category = recorded_as_cast, def_evidence = Public,
        def_inputs = [''user.voteReceipt'', ''user.merklePath'', ''bulletinRoot'', ''treeSize''],
        role = recorded_append_only, criticality = Required, def_derivedFrom = None\<rparr>,
       \<lparr>def_id = recorded_sth_third_party, category = recorded_as_cast, def_evidence = Public,
        def_inputs = [''sthDigest''],
        role = optional_external_audit, criticality = Optional, def_derivedFrom = None\<rparr>,
       \<lparr>def_id = counted_input_sanity, category = counted_as_recorded, def_evidence = Public,
        def_inputs = [''proofBundleStatus'', ''bulletinRoot'', ''treeSize''],
        role = tally_input_integrity, criticality = Required, def_derivedFrom = None\<rparr>,
       \<lparr>def_id = counted_unique_indices, category = counted_as_recorded, def_evidence = Public,
        def_inputs = [''proofBundleStatus''],
        role = tally_input_integrity, criticality = Required, def_derivedFrom = None\<rparr>,
       \<lparr>def_id = counted_unique_commitments, category = counted_as_recorded, def_evidence = Public,
        def_inputs = [''proofBundleStatus''],
        role = tally_input_integrity, criticality = Required, def_derivedFrom = None\<rparr>,
       \<lparr>def_id = counted_tally_consistent, category = counted_as_recorded, def_evidence = Zk,
        def_inputs = [''tally.counts'', ''tally.totalVotes''],
        role = tally_consistency, criticality = Required, def_derivedFrom = None\<rparr>,
       \<lparr>def_id = counted_missing_indices_zero, category = counted_as_recorded, def_evidence = Zk,
        def_inputs = [''missingSlots'', ''invalidPresentedSlots''],
        role = tally_completeness, criticality = Required, def_derivedFrom = None\<rparr>,
       \<lparr>def_id = counted_expected_vs_tree_size, category = counted_as_recorded, def_evidence = Zk,
        def_inputs = [''totalExpected'', ''treeSize''],
        role = tally_input_integrity, criticality = Required, def_derivedFrom = None\<rparr>,
       \<lparr>def_id = counted_election_manifest_consistent, category = counted_as_recorded, def_evidence = Public,
        def_inputs = [''electionManifest'', ''electionId'', ''electionConfigHash'', ''proofBundleStatus''],
        role = tally_input_integrity, criticality = Required, def_derivedFrom = None\<rparr>,
       \<lparr>def_id = counted_close_statement_consistent, category = counted_as_recorded, def_evidence = Public,
        def_inputs = [''closeStatement'', ''logId'', ''timestamp'', ''sthDigest'', ''bulletinRoot'', ''treeSize''],
        role = tally_input_integrity, criticality = Required, def_derivedFrom = None\<rparr>,
       \<lparr>def_id = counted_my_vote_included, category = counted_as_recorded, def_evidence = Zk,
        def_inputs = [''includedBitmapRoot'', ''user.voteReceipt''],
        role = user_inclusion, criticality = Required, def_derivedFrom = None\<rparr>,
       \<lparr>def_id = counted_input_commitment_match, category = counted_as_recorded, def_evidence = Public,
        def_inputs = [''proofBundleStatus'', ''inputCommitment''],
        role = tally_input_integrity, criticality = Required, def_derivedFrom = None\<rparr>,
       \<lparr>def_id = stark_image_id_match, category = stark_verification, def_evidence = Zk,
        def_inputs = [''imageId''],
        role = proof_verification, criticality = Required, def_derivedFrom = None\<rparr>,
       \<lparr>def_id = stark_receipt_verify, category = stark_verification, def_evidence = Zk,
        def_inputs = [''proofBundleStatus''],
        role = proof_verification, criticality = Required, def_derivedFrom = None\<rparr>
     ]"

definition VERIFICATION_CHECK_IDS :: "check_id list" where
  "VERIFICATION_CHECK_IDS = map def_id VERIFICATION_CHECK_DEFINITIONS"

section \<open>Operations\<close>

definition CHECK_DEFINITIONS_BY_STEP :: "step_id \<Rightarrow> check_definition list" where
  "CHECK_DEFINITIONS_BY_STEP =
     fold (\<lambda>d acc. acc(category d := acc (category d) @ [d])) VERIFICATION_CHECK_DEFINITIONS (\<lambda>_. [])"

text \<open>The context is the optional flag \<open>sthSourcesConfigured\<close>; an absent context or flag is falsy.\<close>

definition isVerificationCheckRequired :: "check_definition \<Rightarrow> bool option \<Rightarrow> bool" where
  "isVerificationCheckRequired d sthSourcesConfigured =
     (if criticality d = Required then True
      else if role d = optional_external_audit then sthSourcesConfigured = Some True
      else False)"

definition getVerificationAllCheckDefinitionsForStep :: "step_id \<Rightarrow> check_definition list" where
  "getVerificationAllCheckDefinitionsForStep stepId = CHECK_DEFINITIONS_BY_STEP stepId"

definition getVerificationRequiredCheckDefinitionsForStep :: "step_id \<Rightarrow> bool option \<Rightarrow> check_definition list" where
  "getVerificationRequiredCheckDefinitionsForStep stepId ctx =
     filter (\<lambda>d. isVerificationCheckRequired d ctx) (getVerificationAllCheckDefinitionsForStep stepId)"

definition getVerificationRequiredCheckIdsForStep :: "step_id \<Rightarrow> bool option \<Rightarrow> check_id list" where
  "getVerificationRequiredCheckIdsForStep stepId ctx =
     map def_id (getVerificationRequiredCheckDefinitionsForStep stepId ctx)"

text \<open>The inputs of a step in order of first occurrence; \<open>seen\<close> is the set of the source's loop.\<close>

fun collect_inputs :: "string list \<Rightarrow> string set \<times> string list \<Rightarrow> string set \<times> string list" where
  "collect_inputs [] acc = acc"
| "collect_inputs (i # is) (seen, ins) =
     collect_inputs is (if i \<in> seen then (seen, ins) else (insert i seen, ins @ [i]))"

definition getVerificationStepInputs :: "step_id \<Rightarrow> string list" where
  "getVerificationStepInputs stepId =
     snd (fold (\<lambda>d. collect_inputs (def_inputs d)) (getVerificationAllCheckDefinitionsForStep stepId) ({}, []))"

section \<open>Facts about the table\<close>

lemmas table_defs = VERIFICATION_CHECK_DEFINITIONS_def

lemma fold_by_category:
  "fold (\<lambda>d acc. acc(category d := acc (category d) @ [d])) ds acc s = acc s @ filter (\<lambda>d. category d = s) ds"
  by (induction ds arbitrary: acc) auto

lemma definitions_by_step:
  "getVerificationAllCheckDefinitionsForStep s = filter (\<lambda>d. category d = s) VERIFICATION_CHECK_DEFINITIONS"
  by (simp add: getVerificationAllCheckDefinitionsForStep_def CHECK_DEFINITIONS_BY_STEP_def fold_by_category)

lemma required_ids_for_step:
  "set (getVerificationRequiredCheckIdsForStep s ctx) =
     {def_id d | d. d \<in> set VERIFICATION_CHECK_DEFINITIONS \<and> category d = s \<and> isVerificationCheckRequired d ctx}"
  by (auto simp: getVerificationRequiredCheckIdsForStep_def getVerificationRequiredCheckDefinitionsForStep_def
      definitions_by_step)

lemma distinct_check_ids: "distinct VERIFICATION_CHECK_IDS"
  by (simp add: VERIFICATION_CHECK_IDS_def table_defs)

text \<open>Every identifier of the table belongs to exactly one definition.\<close>

lemma definition_unique:
  assumes "d \<in> set VERIFICATION_CHECK_DEFINITIONS" "d' \<in> set VERIFICATION_CHECK_DEFINITIONS" "def_id d = def_id d'"
  shows "d = d'"
  using distinct_check_ids assms unfolding VERIFICATION_CHECK_IDS_def by (metis distinct_map inj_onD)

text \<open>How roles relate to categories: what the summary relies on.\<close>

lemma table_roles:
  assumes "d \<in> set VERIFICATION_CHECK_DEFINITIONS"
  shows "role d = proof_verification \<longleftrightarrow> category d = stark_verification"
    and "role d \<in> {proof_verification, tally_completeness, user_inclusion, tally_input_integrity, tally_consistency} \<Longrightarrow>
      criticality d = Required"
    and "role d \<in> {tally_completeness, user_inclusion, tally_input_integrity, tally_consistency} \<longleftrightarrow>
      category d = counted_as_recorded"
  using assms unfolding table_defs by auto

lemma collect_inputs_correct:
  assumes "distinct ins" "seen = set ins"
  shows "distinct (snd (collect_inputs is (seen, ins))) \<and>
    set (snd (collect_inputs is (seen, ins))) = set ins \<union> set is \<and>
    fst (collect_inputs is (seen, ins)) = set (snd (collect_inputs is (seen, ins)))"
  using assms
proof (induction "is" arbitrary: seen ins)
  case (Cons i "is")
  show ?case
  proof (cases "i \<in> seen")
    case True
    with Cons.IH [OF Cons.prems] Cons.prems(2) show ?thesis by auto
  next
    case False
    with Cons.IH [of "ins @ [i]" "insert i seen"] Cons.prems show ?thesis by auto
  qed
qed simp

lemma step_inputs_correct:
  "distinct (getVerificationStepInputs s)"
  "set (getVerificationStepInputs s) = (\<Union>d \<in> set (getVerificationAllCheckDefinitionsForStep s). set (def_inputs d))"
proof -
  have "distinct (snd r) \<and> fst r = set (snd r) \<and> set (snd r) = set ins \<union> (\<Union>d \<in> set ds. set (def_inputs d))"
    if "r = fold (\<lambda>d. collect_inputs (def_inputs d)) ds (set ins, ins)" "distinct ins" for ds :: "check_definition list" and ins r
    using that
  proof (induction ds arbitrary: ins)
    case (Cons d ds)
    obtain seen' ins' where c: "collect_inputs (def_inputs d) (set ins, ins) = (seen', ins')" by fastforce
    from collect_inputs_correct [OF Cons.prems(2) refl, of "def_inputs d"] c
    have "distinct ins'" "set ins' = set ins \<union> set (def_inputs d)" "seen' = set ins'" by auto
    with Cons.IH [of ins'] Cons.prems(1) c show ?case by (auto simp: Un_assoc)
  qed simp
  from this [of _ _ "[]"] show "distinct (getVerificationStepInputs s)"
    "set (getVerificationStepInputs s) = (\<Union>d \<in> set (getVerificationAllCheckDefinitionsForStep s). set (def_inputs d))"
    by (simp_all add: getVerificationStepInputs_def)
qed

end
