(* ===== verification/Summary.thy ===== *)
theory Summary
  imports Checks
begin

text \<open>
  The single summary shown to a voter (packages/verification/src/verification/verification-summary.ts):
  resolution of the checks against the table, the blocking summaries, the terminal ones, and the
  explanatory message of an exclusion.  The theorems characterise when the summary is
  \<open>fully_verified\<close> and when its tone is a failure, and show that the order and multiplicity of the
  checks do not matter.
\<close>

section \<open>Data\<close>

datatype summary_status =
    fully_verified | demo_only | in_progress | missing_evidence | verified_with_limitations
  | user_vote_excluded | votes_excluded | votes_excluded_unknown
  | recorded_integrity_failed | published_tally_mismatch | counted_integrity_failed
  | cast_integrity_failed | proof_verification_failed

datatype summary_tone = ToneVerified | ToneDemo | ToneWarning | ToneFailed

record summary_context =
  missingSlots :: "jsnum option"
  invalidPresentedSlots :: "jsnum option"
  rejectedRecords :: "jsnum option"
  excludedSlots :: "jsnum option"
  sthSourcesConfigured :: "bool option"
  devModeEvidence :: "bool option"

record summary_result =
  sum_status :: summary_status
  tone :: summary_tone
  messageKey :: "string option"

type_synonym resolved_check = "verification_check \<times> check_definition"

record summary_evidence =
  resolved :: "resolved_check list"
  hasUnknown :: bool
  requiredChecks :: "resolved_check list"
  optionalChecks :: "resolved_check list"
  missingRequiredChecks :: "check_definition list"

datatype exclusion_reason = ReasonMissing | ReasonInvalid | ReasonMixed | ReasonUnknown

section \<open>Operations\<close>

definition CHECK_DEFINITION_BY_ID :: "check_id \<Rightarrow> check_definition option" where
  "CHECK_DEFINITION_BY_ID = map_of (map (\<lambda>d. (def_id d, d)) VERIFICATION_CHECK_DEFINITIONS)"

fun STATUS_PRIORITY :: "step_status \<Rightarrow> nat" where
  "STATUS_PRIORITY Success = 0"
| "STATUS_PRIORITY NotRun = 1"
| "STATUS_PRIORITY Pending = 2"
| "STATUS_PRIORITY Running = 3"
| "STATUS_PRIORITY Failed = 4"

text \<open>The table is only consulted for the three exclusion statuses and the two plain reasons.\<close>

fun EXCLUSION_MESSAGE_KEYS :: "summary_status \<Rightarrow> exclusion_reason \<Rightarrow> string option" where
  "EXCLUSION_MESSAGE_KEYS user_vote_excluded ReasonMissing = Some ''pages.verify.resultSummary.userVoteMissingSub''"
| "EXCLUSION_MESSAGE_KEYS user_vote_excluded ReasonInvalid = Some ''pages.verify.resultSummary.userVoteInvalidSub''"
| "EXCLUSION_MESSAGE_KEYS votes_excluded ReasonMissing = Some ''pages.verify.resultSummary.votesMissingSub''"
| "EXCLUSION_MESSAGE_KEYS votes_excluded ReasonInvalid = Some ''pages.verify.resultSummary.votesInvalidSub''"
| "EXCLUSION_MESSAGE_KEYS votes_excluded_unknown ReasonMissing = Some ''pages.verify.resultSummary.votesMissingUnknownUserSub''"
| "EXCLUSION_MESSAGE_KEYS votes_excluded_unknown ReasonInvalid = Some ''pages.verify.resultSummary.votesInvalidUnknownUserSub''"
| "EXCLUSION_MESSAGE_KEYS _ _ = None"

definition ctx_get :: "(summary_context \<Rightarrow> 'a option) \<Rightarrow> summary_context option \<Rightarrow> 'a option" where
  "ctx_get f ctx = (case ctx of None \<Rightarrow> None | Some c \<Rightarrow> f c)"

definition isRequiredCheck :: "check_definition \<Rightarrow> summary_context option \<Rightarrow> bool" where
  "isRequiredCheck d ctx = isVerificationCheckRequired d (ctx_get sthSourcesConfigured ctx)"

definition toPositiveCount :: "jsnum option \<Rightarrow> jsnum option" where
  "toPositiveCount v =
     (case v of
        None \<Rightarrow> None
      | Some x \<Rightarrow> if \<not> isFinite x then None else if num_lt (js_int 0) x then Some x else None)"

definition resolveExclusionReason :: "summary_context option \<Rightarrow> exclusion_reason option" where
  "resolveExclusionReason ctx =
     (let missing = toPositiveCount (ctx_get missingSlots ctx);
          invalid = toPositiveCount (ctx_get invalidPresentedSlots ctx);
          excluded = toPositiveCount (ctx_get excludedSlots ctx)
      in if missing = None \<and> invalid = None then (if excluded \<noteq> None then Some ReasonUnknown else None)
         else if missing \<noteq> None \<and> invalid \<noteq> None then Some ReasonMixed
         else if missing \<noteq> None then Some ReasonMissing else Some ReasonInvalid)"

definition resolveExclusionMessageKey :: "summary_status \<Rightarrow> exclusion_reason option \<Rightarrow> string option" where
  "resolveExclusionMessageKey st reason =
     (case reason of
        None \<Rightarrow> None
      | Some ReasonMixed \<Rightarrow> None
      | Some ReasonUnknown \<Rightarrow> None
      | Some r \<Rightarrow> EXCLUSION_MESSAGE_KEYS st r)"

fun resolveChecks :: "verification_check list \<Rightarrow> resolved_check list \<times> bool" where
  "resolveChecks [] = ([], False)"
| "resolveChecks (c # cs) =
     (let (res, unk) = resolveChecks cs
      in case CHECK_DEFINITION_BY_ID (id_of c) of
           None \<Rightarrow> (res, True)
         | Some d \<Rightarrow> ((c, d) # res, unk))"

definition hasDemoEvidence :: "resolved_check list \<Rightarrow> bool" where
  "hasDemoEvidence cs = list_ex (\<lambda>(c, d). evidence c = Demo) cs"

definition isInProgress :: "step_status \<Rightarrow> bool" where
  "isInProgress s = (s = Pending \<or> s = Running)"

text \<open>\<open>reduce\<close> of a non-empty array starts from its first element.\<close>

fun resolveWorstStatus :: "step_status list \<Rightarrow> step_status" where
  "resolveWorstStatus (s # ss) =
     fold (\<lambda>s worst. if STATUS_PRIORITY s > STATUS_PRIORITY worst then s else worst) ss s"
| "resolveWorstStatus [] = Success"

definition resolveRoleStatus :: "resolved_check list \<Rightarrow> check_role \<Rightarrow> step_status option" where
  "resolveRoleStatus cs r =
     (let statuses = map (status \<circ> fst) (filter (\<lambda>(c, d). role d = r) cs)
      in if length statuses = 0 then None else Some (resolveWorstStatus statuses))"

definition categoryFailed :: "resolved_check list \<Rightarrow> step_id \<Rightarrow> bool" where
  "categoryFailed cs cat = list_ex (\<lambda>(c, d). category d = cat \<and> status c = Failed) cs"

definition categoryAllRequiredSucceeded ::
  "resolved_check list \<Rightarrow> check_definition list \<Rightarrow> step_id \<Rightarrow> bool" where
  "categoryAllRequiredSucceeded req missing cat =
     (if list_ex (\<lambda>d. category d = cat) missing then False
      else let cs = filter (\<lambda>(c, d). category d = cat) req
           in if length cs = 0 then False else list_all (\<lambda>(c, d). status c = Success) cs)"

definition resolveSummaryEvidence ::
  "resolved_check list \<Rightarrow> bool \<Rightarrow> summary_context option \<Rightarrow> summary_evidence" where
  "resolveSummaryEvidence res unk ctx =
     (let requiredDefinitions = filter (\<lambda>d. isRequiredCheck d ctx) VERIFICATION_CHECK_DEFINITIONS;
          resolvedIds = set (map (def_id \<circ> snd) res)
      in \<lparr>resolved = res, hasUnknown = unk,
          requiredChecks = filter (\<lambda>(c, d). isRequiredCheck d ctx) res,
          optionalChecks = filter (\<lambda>(c, d). \<not> isRequiredCheck d ctx) res,
          missingRequiredChecks = filter (\<lambda>d. def_id d \<notin> resolvedIds) requiredDefinitions\<rparr>)"

definition plain_summary :: "summary_status \<Rightarrow> summary_tone \<Rightarrow> summary_result" where
  "plain_summary st tn = \<lparr>sum_status = st, tone = tn, messageKey = None\<rparr>"

definition deriveExclusionSummary :: "step_status option \<Rightarrow> summary_context option \<Rightarrow> summary_result" where
  "deriveExclusionSummary userInclusionStatus ctx =
     (let st = (if userInclusionStatus = Some Failed then user_vote_excluded
                else if userInclusionStatus = Some Success then votes_excluded
                else votes_excluded_unknown)
      in \<lparr>sum_status = st, tone = ToneFailed,
          messageKey = resolveExclusionMessageKey st (resolveExclusionReason ctx)\<rparr>)"

definition deriveBlockingSummary :: "summary_evidence \<Rightarrow> summary_context option \<Rightarrow> summary_result option" where
  "deriveBlockingSummary ev ctx =
     (if list_ex (\<lambda>(c, d). isInProgress (status c)) (requiredChecks ev)
      then Some (plain_summary in_progress ToneWarning)
      else if resolveRoleStatus (resolved ev) proof_verification = Some Failed
      then Some (plain_summary proof_verification_failed ToneFailed)
      else if resolveRoleStatus (resolved ev) tally_completeness = Some Failed
      then Some (deriveExclusionSummary (resolveRoleStatus (resolved ev) user_inclusion) ctx)
      else if categoryFailed (requiredChecks ev) recorded_as_cast
      then Some (plain_summary recorded_integrity_failed ToneFailed)
      else None)"

definition hasPublishedTallyMismatch :: "summary_evidence \<Rightarrow> bool \<Rightarrow> bool" where
  "hasPublishedTallyMismatch ev hasRequiredNotRun =
     (resolveRoleStatus (resolved ev) tally_consistency = Some Failed \<and>
      list_all (\<lambda>r. resolveRoleStatus (resolved ev) r = Some Success)
        [proof_verification, tally_completeness, user_inclusion, tally_input_integrity] \<and>
      categoryAllRequiredSucceeded (requiredChecks ev) (missingRequiredChecks ev) recorded_as_cast \<and>
      \<not> hasRequiredNotRun \<and> length (missingRequiredChecks ev) = 0 \<and> \<not> hasUnknown ev)"

definition deriveSuccessfulEvidenceSummary :: "summary_evidence \<Rightarrow> summary_context option \<Rightarrow> summary_result" where
  "deriveSuccessfulEvidenceSummary ev ctx =
     (if ctx_get devModeEvidence ctx = Some True \<or> hasDemoEvidence (resolved ev)
      then plain_summary demo_only ToneDemo
      else if list_ex (\<lambda>(c, d). status c = Failed \<or> status c = NotRun) (optionalChecks ev)
      then plain_summary verified_with_limitations ToneWarning
      else plain_summary fully_verified ToneVerified)"

definition deriveTerminalSummary :: "summary_evidence \<Rightarrow> summary_context option \<Rightarrow> summary_result" where
  "deriveTerminalSummary ev ctx =
     (let hasRequiredNotRun = list_ex (\<lambda>(c, d). status c = NotRun) (requiredChecks ev)
      in if hasPublishedTallyMismatch ev hasRequiredNotRun
         then plain_summary published_tally_mismatch ToneFailed
         else if categoryFailed (requiredChecks ev) counted_as_recorded
         then plain_summary counted_integrity_failed ToneFailed
         else if categoryFailed (requiredChecks ev) cast_as_intended
         then plain_summary cast_integrity_failed ToneFailed
         else if hasRequiredNotRun \<or> hasUnknown ev \<or>
                 resolveRoleStatus (resolved ev) tally_completeness = None \<or>
                 resolveRoleStatus (resolved ev) user_inclusion = None \<or>
                 length (missingRequiredChecks ev) > 0
         then plain_summary missing_evidence ToneWarning
         else deriveSuccessfulEvidenceSummary ev ctx)"

definition deriveVerificationSummary ::
  "verification_check list option \<Rightarrow> summary_context option \<Rightarrow> summary_result option" where
  "deriveVerificationSummary checks ctx =
     (case checks of
        None \<Rightarrow> None
      | Some [] \<Rightarrow> None
      | Some cs \<Rightarrow>
          (let (res, unk) = resolveChecks cs
           in if length res = 0 then None
              else let ev = resolveSummaryEvidence res unk ctx
                   in case deriveBlockingSummary ev ctx of
                        Some r \<Rightarrow> Some r
                      | None \<Rightarrow> Some (deriveTerminalSummary ev ctx)))"

section \<open>Resolution\<close>

lemma lookup_definition:
  "CHECK_DEFINITION_BY_ID i = Some d \<longleftrightarrow> d \<in> set VERIFICATION_CHECK_DEFINITIONS \<and> def_id d = i"
proof -
  have "distinct (map fst (map (\<lambda>d. (def_id d, d)) VERIFICATION_CHECK_DEFINITIONS))"
    using distinct_check_ids by (simp add: VERIFICATION_CHECK_IDS_def comp_def)
  then show ?thesis
    by (auto simp: CHECK_DEFINITION_BY_ID_def map_of_eq_Some_iff)
qed

lemma resolveChecks_set:
  "set (fst (resolveChecks cs)) = {(c, d). c \<in> set cs \<and> d \<in> set VERIFICATION_CHECK_DEFINITIONS \<and> def_id d = id_of c}"
proof (induction cs)
  case (Cons c cs)
  show ?case
  proof (cases "CHECK_DEFINITION_BY_ID (id_of c)")
    case None
    then have "\<And>d. d \<in> set VERIFICATION_CHECK_DEFINITIONS \<Longrightarrow> def_id d \<noteq> id_of c"
      using lookup_definition by (metis option.distinct(1))
    with Cons None show ?thesis by (auto simp: split: prod.split)
  next
    case (Some d)
    then have "d \<in> set VERIFICATION_CHECK_DEFINITIONS" "def_id d = id_of c" by (simp_all add: lookup_definition)
    with Cons Some definition_unique show ?thesis by (auto split: prod.split)
  qed
qed simp

lemma resolveChecks_unknown:
  "snd (resolveChecks cs) \<longleftrightarrow> (\<exists>c \<in> set cs. id_of c \<notin> set VERIFICATION_CHECK_IDS)"
proof (induction cs)
  case (Cons c cs)
  have "CHECK_DEFINITION_BY_ID (id_of c) = None \<longleftrightarrow> id_of c \<notin> set VERIFICATION_CHECK_IDS"
    by (auto simp: CHECK_DEFINITION_BY_ID_def VERIFICATION_CHECK_IDS_def map_of_eq_None_iff image_image)
  with Cons show ?case by (auto split: option.split prod.split)
qed simp

section \<open>The worst status\<close>

lemma worst_fold:
  "fold (\<lambda>s worst. if STATUS_PRIORITY s > STATUS_PRIORITY worst then s else worst) ss s \<in> insert s (set ss) \<and>
   (\<forall>x \<in> insert s (set ss). STATUS_PRIORITY x \<le>
      STATUS_PRIORITY (fold (\<lambda>s worst. if STATUS_PRIORITY s > STATUS_PRIORITY worst then s else worst) ss s))"
proof (induction ss arbitrary: s)
  case (Cons x ss)
  show ?case
    using Cons.IH [of x] Cons.IH [of s] by (auto simp: not_less intro: order.trans less_imp_le)
qed simp

lemma worst_status:
  assumes "ss \<noteq> []"
  shows "resolveWorstStatus ss \<in> set ss" "x \<in> set ss \<Longrightarrow> STATUS_PRIORITY x \<le> STATUS_PRIORITY (resolveWorstStatus ss)"
  using worst_fold assms by (cases ss; force)+

lemma priority_inj: "STATUS_PRIORITY x = STATUS_PRIORITY y \<longleftrightarrow> x = y"
  by (cases x; cases y) simp_all

lemma worst_Failed: "ss \<noteq> [] \<Longrightarrow> resolveWorstStatus ss = Failed \<longleftrightarrow> Failed \<in> set ss"
proof -
  assume ss: "ss \<noteq> []"
  have "resolveWorstStatus ss = Failed" if "Failed \<in> set ss"
    using worst_status(2) [OF ss that] by (cases "resolveWorstStatus ss") simp_all
  then show ?thesis using worst_status(1) [OF ss] by metis
qed

lemma worst_Success: "ss \<noteq> [] \<Longrightarrow> resolveWorstStatus ss = Success \<longleftrightarrow> (\<forall>x \<in> set ss. x = Success)"
proof -
  assume ss: "ss \<noteq> []"
  have "x = Success" if "resolveWorstStatus ss = Success" "x \<in> set ss" for x
    using worst_status(2) [OF ss that(2)] that(1) by (cases x) simp_all
  then show ?thesis using worst_status(1) [OF ss] by metis
qed

lemma worst_set:
  assumes "set ss = set ss'"
  shows "resolveWorstStatus ss = resolveWorstStatus ss'"
proof (cases "ss = []")
  case True
  with assms show ?thesis by simp
next
  case False
  then have "ss' \<noteq> []" using assms by auto
  with False assms show ?thesis
    using worst_status [OF False] worst_status [of ss'] by (metis antisym priority_inj)
qed

lemma role_None: "resolveRoleStatus cs r = None \<longleftrightarrow> (\<forall>(c, d) \<in> set cs. role d \<noteq> r)"
  by (auto simp: resolveRoleStatus_def filter_empty_conv)

lemma role_Failed: "resolveRoleStatus cs r = Some Failed \<longleftrightarrow> (\<exists>(c, d) \<in> set cs. role d = r \<and> status c = Failed)"
proof (cases "filter (\<lambda>(c, d). role d = r) cs = []")
  case True
  then show ?thesis by (auto simp: resolveRoleStatus_def filter_empty_conv)
next
  case False
  then show ?thesis
    using worst_Failed [of "map (status \<circ> fst) (filter (\<lambda>(c, d). role d = r) cs)"]
    by (force simp: resolveRoleStatus_def)
qed

section \<open>What the summary says of the checks\<close>

text \<open>Some check of the list has a required definition and a status satisfying \<open>P\<close>.\<close>

definition required_with :: "(step_status \<Rightarrow> bool) \<Rightarrow> verification_check list \<Rightarrow> summary_context option \<Rightarrow> bool" where
  "required_with P cs ctx \<longleftrightarrow>
     (\<exists>c \<in> set cs. \<exists>d \<in> set VERIFICATION_CHECK_DEFINITIONS. def_id d = id_of c \<and> isRequiredCheck d ctx \<and> P (status c))"

definition evidence_of :: "verification_check list \<Rightarrow> summary_context option \<Rightarrow> summary_evidence" where
  "evidence_of cs ctx = resolveSummaryEvidence (fst (resolveChecks cs)) (snd (resolveChecks cs)) ctx"

lemma summary_unfold:
  "deriveVerificationSummary (Some cs) ctx =
     (if fst (resolveChecks cs) = [] then None
      else case deriveBlockingSummary (evidence_of cs ctx) ctx of
             Some r \<Rightarrow> Some r
           | None \<Rightarrow> Some (deriveTerminalSummary (evidence_of cs ctx) ctx))"
  by (cases cs) (auto simp: deriveVerificationSummary_def evidence_of_def Let_def split: prod.split option.split)

lemma evidence_fields:
  "resolved (evidence_of cs ctx) = fst (resolveChecks cs)"
  "hasUnknown (evidence_of cs ctx) \<longleftrightarrow> (\<exists>c \<in> set cs. id_of c \<notin> set VERIFICATION_CHECK_IDS)"
  "set (requiredChecks (evidence_of cs ctx)) = {(c, d) \<in> set (fst (resolveChecks cs)). isRequiredCheck d ctx}"
  "set (optionalChecks (evidence_of cs ctx)) = {(c, d) \<in> set (fst (resolveChecks cs)). \<not> isRequiredCheck d ctx}"
  "set (missingRequiredChecks (evidence_of cs ctx)) =
     {d \<in> set VERIFICATION_CHECK_DEFINITIONS. isRequiredCheck d ctx \<and> (\<forall>c \<in> set cs. id_of c \<noteq> def_id d)}"
  by (auto simp: evidence_of_def resolveSummaryEvidence_def resolveChecks_unknown Let_def) (auto simp: resolveChecks_set image_iff)

lemma required_list_ex:
  "list_ex (\<lambda>(c, d). P (status c)) (requiredChecks (evidence_of cs ctx)) \<longleftrightarrow> required_with P cs ctx"
  by (auto simp: list_ex_iff evidence_fields resolveChecks_set required_with_def)

lemma required_role:
  assumes "d \<in> set VERIFICATION_CHECK_DEFINITIONS"
    "role d \<in> {proof_verification, tally_completeness, user_inclusion, tally_input_integrity, tally_consistency}"
  shows "isRequiredCheck d ctx"
  using table_roles(2) [OF assms] by (simp add: isRequiredCheck_def isVerificationCheckRequired_def)

lemma categoryFailed_iff:
  "categoryFailed (requiredChecks (evidence_of cs ctx)) cat \<longleftrightarrow>
     (\<exists>c \<in> set cs. \<exists>d \<in> set VERIFICATION_CHECK_DEFINITIONS.
        def_id d = id_of c \<and> isRequiredCheck d ctx \<and> category d = cat \<and> status c = Failed)"
  by (auto simp: categoryFailed_def list_ex_iff evidence_fields resolveChecks_set)

lemma role_failed_iff:
  assumes "r \<in> {proof_verification, tally_completeness, user_inclusion, tally_input_integrity, tally_consistency}"
  shows "resolveRoleStatus (resolved (evidence_of cs ctx)) r = Some Failed \<longleftrightarrow>
     (\<exists>c \<in> set cs. \<exists>d \<in> set VERIFICATION_CHECK_DEFINITIONS.
        def_id d = id_of c \<and> isRequiredCheck d ctx \<and> role d = r \<and> status c = Failed)"
proof -
  have "resolveRoleStatus (resolved (evidence_of cs ctx)) r = Some Failed \<longleftrightarrow>
     (\<exists>c \<in> set cs. \<exists>d \<in> set VERIFICATION_CHECK_DEFINITIONS. def_id d = id_of c \<and> role d = r \<and> status c = Failed)"
    by (auto simp: role_Failed evidence_fields resolveChecks_set)
  then show ?thesis using required_role assms by blast
qed

text \<open>A failed required check is found by the proof role or by the category it belongs to.\<close>

lemma required_failed_cases:
  "required_with (\<lambda>s. s = Failed) cs ctx \<longleftrightarrow>
     resolveRoleStatus (resolved (evidence_of cs ctx)) proof_verification = Some Failed \<or>
     categoryFailed (requiredChecks (evidence_of cs ctx)) recorded_as_cast \<or>
     categoryFailed (requiredChecks (evidence_of cs ctx)) counted_as_recorded \<or>
     categoryFailed (requiredChecks (evidence_of cs ctx)) cast_as_intended"
proof -
  have "required_with (\<lambda>s. s = Failed) cs ctx \<longleftrightarrow>
    (\<exists>c \<in> set cs. \<exists>d \<in> set VERIFICATION_CHECK_DEFINITIONS. def_id d = id_of c \<and> isRequiredCheck d ctx \<and>
       (category d = stark_verification \<or> category d = recorded_as_cast \<or> category d = counted_as_recorded \<or>
        category d = cast_as_intended) \<and> status c = Failed)"
    unfolding required_with_def using step_id.exhaust by metis
  then show ?thesis
    unfolding categoryFailed_iff role_failed_iff [of proof_verification, simplified] using table_roles(1) by blast
qed

lemma completeness_failed_counted:
  assumes "r \<in> {tally_completeness, user_inclusion, tally_input_integrity, tally_consistency}"
    "resolveRoleStatus (resolved (evidence_of cs ctx)) r = Some Failed"
  shows "categoryFailed (requiredChecks (evidence_of cs ctx)) counted_as_recorded"
proof -
  have "r \<in> {proof_verification, tally_completeness, user_inclusion, tally_input_integrity, tally_consistency}"
    using assms(1) by blast
  from role_failed_iff [OF this] assms show ?thesis
    unfolding categoryFailed_iff using table_roles(3) by blast
qed

lemma role_present:
  assumes "d \<in> set VERIFICATION_CHECK_DEFINITIONS" "role d = r" "c \<in> set cs" "id_of c = def_id d"
  shows "resolveRoleStatus (resolved (evidence_of cs ctx)) r \<noteq> None"
  using assms by (simp add: role_None evidence_fields resolveChecks_set) metis

lemma table_has_roles:
  "\<exists>d \<in> set VERIFICATION_CHECK_DEFINITIONS. role d = tally_completeness"
  "\<exists>d \<in> set VERIFICATION_CHECK_DEFINITIONS. role d = user_inclusion"
  by (simp_all add: table_defs)

text \<open>The evidence is complete: every check is of the table and every required definition has a check.\<close>

definition complete_evidence :: "verification_check list \<Rightarrow> summary_context option \<Rightarrow> bool" where
  "complete_evidence cs ctx \<longleftrightarrow>
     (\<forall>c \<in> set cs. id_of c \<in> set VERIFICATION_CHECK_IDS) \<and>
     (\<forall>d \<in> set VERIFICATION_CHECK_DEFINITIONS. isRequiredCheck d ctx \<longrightarrow> (\<exists>c \<in> set cs. id_of c = def_id d))"

lemma complete_evidence_roles:
  assumes "complete_evidence cs ctx"
  shows "resolveRoleStatus (resolved (evidence_of cs ctx)) tally_completeness \<noteq> None"
    "resolveRoleStatus (resolved (evidence_of cs ctx)) user_inclusion \<noteq> None"
    "fst (resolveChecks cs) \<noteq> []"
proof -
  have "resolveRoleStatus (resolved (evidence_of cs ctx)) r \<noteq> None"
    if "\<exists>d \<in> set VERIFICATION_CHECK_DEFINITIONS. role d = r"
      "r \<in> {proof_verification, tally_completeness, user_inclusion, tally_input_integrity, tally_consistency}" for r
  proof -
    from that obtain d where d: "d \<in> set VERIFICATION_CHECK_DEFINITIONS" "role d = r" by blast
    then have "isRequiredCheck d ctx" using required_role that(2) by simp
    with assms d(1) obtain c where "c \<in> set cs" "id_of c = def_id d" unfolding complete_evidence_def by blast
    with role_present d show ?thesis by blast
  qed
  from this [OF table_has_roles(1)] this [OF table_has_roles(2)]
  show t: "resolveRoleStatus (resolved (evidence_of cs ctx)) tally_completeness \<noteq> None"
    "resolveRoleStatus (resolved (evidence_of cs ctx)) user_inclusion \<noteq> None" by simp_all
  from t(1) show "fst (resolveChecks cs) \<noteq> []" by (auto simp: role_None evidence_fields)
qed

lemma incomplete_iff:
  "hasUnknown (evidence_of cs ctx) \<or> 0 < length (missingRequiredChecks (evidence_of cs ctx)) \<longleftrightarrow> \<not> complete_evidence cs ctx"
proof -
  have "0 < length (missingRequiredChecks (evidence_of cs ctx)) \<longleftrightarrow> set (missingRequiredChecks (evidence_of cs ctx)) \<noteq> {}"
    by simp
  then show ?thesis unfolding evidence_fields complete_evidence_def by blast
qed

lemma mismatch_failed:
  "hasPublishedTallyMismatch (evidence_of cs ctx) b \<Longrightarrow> required_with (\<lambda>s. s = Failed) cs ctx"
  using completeness_failed_counted [of tally_consistency] required_failed_cases
  by (auto simp: hasPublishedTallyMismatch_def)

lemma exclusion_tone [simp]:
  "tone (deriveExclusionSummary u ctx) = ToneFailed" "sum_status (deriveExclusionSummary u ctx) \<noteq> fully_verified"
  by (simp_all add: deriveExclusionSummary_def Let_def)

lemma plain_fields [simp]: "sum_status (plain_summary st tn) = st" "tone (plain_summary st tn) = tn"
  by (simp_all add: plain_summary_def)

text \<open>The branches of the summary, in the order of the code.\<close>

lemma summary_branches:
  fixes cs ctx
  defines "ev \<equiv> evidence_of cs ctx"
  shows "deriveVerificationSummary (Some cs) ctx =
    (if fst (resolveChecks cs) = [] then None
     else Some
       (if required_with isInProgress cs ctx then plain_summary in_progress ToneWarning
        else if resolveRoleStatus (resolved ev) proof_verification = Some Failed
        then plain_summary proof_verification_failed ToneFailed
        else if resolveRoleStatus (resolved ev) tally_completeness = Some Failed
        then deriveExclusionSummary (resolveRoleStatus (resolved ev) user_inclusion) ctx
        else if categoryFailed (requiredChecks ev) recorded_as_cast
        then plain_summary recorded_integrity_failed ToneFailed
        else deriveTerminalSummary ev ctx))"
  by (simp add: summary_unfold deriveBlockingSummary_def ev_def required_list_ex)

lemma fully_verified_branch:
  "sum_status (deriveTerminalSummary ev ctx) = fully_verified \<longleftrightarrow>
     \<not> hasPublishedTallyMismatch ev (list_ex (\<lambda>(c, d). status c = NotRun) (requiredChecks ev)) \<and>
     \<not> categoryFailed (requiredChecks ev) counted_as_recorded \<and> \<not> categoryFailed (requiredChecks ev) cast_as_intended \<and>
     \<not> list_ex (\<lambda>(c, d). status c = NotRun) (requiredChecks ev) \<and>
     \<not> (hasUnknown ev \<or> 0 < length (missingRequiredChecks ev)) \<and>
     resolveRoleStatus (resolved ev) tally_completeness \<noteq> None \<and> resolveRoleStatus (resolved ev) user_inclusion \<noteq> None \<and>
     ctx_get devModeEvidence ctx \<noteq> Some True \<and> \<not> hasDemoEvidence (resolved ev) \<and>
     \<not> list_ex (\<lambda>(c, d). status c = Failed \<or> status c = NotRun) (optionalChecks ev)"
  by (simp add: deriveTerminalSummary_def deriveSuccessfulEvidenceSummary_def Let_def)

lemma failed_branch:
  "tone (deriveTerminalSummary ev ctx) = ToneFailed \<longleftrightarrow>
     hasPublishedTallyMismatch ev (list_ex (\<lambda>(c, d). status c = NotRun) (requiredChecks ev)) \<or>
     categoryFailed (requiredChecks ev) counted_as_recorded \<or> categoryFailed (requiredChecks ev) cast_as_intended"
  by (simp add: deriveTerminalSummary_def deriveSuccessfulEvidenceSummary_def Let_def)

lemma demo_evidence_iff:
  "hasDemoEvidence (resolved (evidence_of cs ctx)) \<longleftrightarrow> (\<exists>c \<in> set cs. id_of c \<in> set VERIFICATION_CHECK_IDS \<and> evidence c = Demo)"
  by (simp add: hasDemoEvidence_def list_ex_iff evidence_fields resolveChecks_set VERIFICATION_CHECK_IDS_def image_iff) metis

lemma not_success_cases: "s \<noteq> Success \<longleftrightarrow> isInProgress s \<or> s = NotRun \<or> s = Failed"
  by (cases s) (simp_all add: isInProgress_def)

lemma required_not_success:
  "required_with (\<lambda>s. s \<noteq> Success) cs ctx \<longleftrightarrow>
     required_with isInProgress cs ctx \<or> required_with (\<lambda>s. s = NotRun) cs ctx \<or> required_with (\<lambda>s. s = Failed) cs ctx"
  unfolding required_with_def not_success_cases by blast

lemma branch_logic:
  assumes "fail \<longleftrightarrow> pf \<or> rf \<or> cf \<or> ca" "tc \<Longrightarrow> fail" "mm \<Longrightarrow> fail"
    "all_there \<Longrightarrow> ne" "all_there \<Longrightarrow> tcn" "all_there \<Longrightarrow> uin"
  shows "(ne \<and> \<not> ip \<and> \<not> pf \<and> \<not> tc \<and> \<not> rf \<and>
      (\<not> mm \<and> \<not> cf \<and> \<not> ca \<and> \<not> nr \<and> \<not> \<not> all_there \<and> tcn \<and> uin \<and> dev \<and> \<not> demo \<and> \<not> opt)) \<longleftrightarrow>
    all_there \<and> \<not> (ip \<or> nr \<or> fail) \<and> \<not> opt \<and> \<not> demo \<and> dev"
  using assms by blast

lemma fully_verified_char:
  "(\<exists>r. deriveVerificationSummary (Some cs) ctx = Some r \<and> sum_status r = fully_verified) \<longleftrightarrow>
     complete_evidence cs ctx \<and>
     \<not> required_with (\<lambda>s. s \<noteq> Success) cs ctx \<and>
     \<not> (\<exists>(c, d) \<in> set (optionalChecks (evidence_of cs ctx)). status c = Failed \<or> status c = NotRun) \<and>
     \<not> (\<exists>c \<in> set cs. id_of c \<in> set VERIFICATION_CHECK_IDS \<and> evidence c = Demo) \<and>
     ctx_get devModeEvidence ctx \<noteq> Some True"
proof -
  let ?ev = "evidence_of cs ctx"
  have tc: "resolveRoleStatus (resolved ?ev) tally_completeness = Some Failed \<Longrightarrow> required_with (\<lambda>s. s = Failed) cs ctx"
    using completeness_failed_counted [of tally_completeness] required_failed_cases by blast
  have "(\<exists>r. deriveVerificationSummary (Some cs) ctx = Some r \<and> sum_status r = fully_verified) \<longleftrightarrow>
      fst (resolveChecks cs) \<noteq> [] \<and> \<not> required_with isInProgress cs ctx \<and>
      resolveRoleStatus (resolved ?ev) proof_verification \<noteq> Some Failed \<and>
      resolveRoleStatus (resolved ?ev) tally_completeness \<noteq> Some Failed \<and>
      \<not> categoryFailed (requiredChecks ?ev) recorded_as_cast \<and> sum_status (deriveTerminalSummary ?ev ctx) = fully_verified"
    by (simp add: summary_branches)
  also have "\<dots> \<longleftrightarrow> complete_evidence cs ctx \<and> \<not> required_with (\<lambda>s. s \<noteq> Success) cs ctx \<and>
     \<not> (\<exists>(c, d) \<in> set (optionalChecks (evidence_of cs ctx)). status c = Failed \<or> status c = NotRun) \<and>
     \<not> (\<exists>c \<in> set cs. id_of c \<in> set VERIFICATION_CHECK_IDS \<and> evidence c = Demo) \<and>
     ctx_get devModeEvidence ctx \<noteq> Some True"
    unfolding fully_verified_branch required_list_ex [of "\<lambda>s. s = NotRun"]
    unfolding demo_evidence_iff list_ex_iff required_not_success incomplete_iff
    by (rule branch_logic [OF required_failed_cases tc mismatch_failed complete_evidence_roles(3,1,2)])
  finally show ?thesis .
qed


text \<open>Unless a required check is still pending or running, the tone is a failure exactly when
  some required check failed: no failure is hidden and none is invented.\<close>

theorem failed_tone_iff:
  "(\<exists>r. deriveVerificationSummary (Some cs) ctx = Some r \<and> tone r = ToneFailed) \<longleftrightarrow>
     required_with (\<lambda>s. s = Failed) cs ctx \<and> \<not> required_with isInProgress cs ctx"
proof -
  let ?ev = "evidence_of cs ctx"
  have ne: "fst (resolveChecks cs) \<noteq> []" if "required_with (\<lambda>s. s = Failed) cs ctx"
  proof -
    from that obtain c d where "(c, d) \<in> set (fst (resolveChecks cs))"
      unfolding required_with_def resolveChecks_set by blast
    then show ?thesis by auto
  qed
  have tc: "resolveRoleStatus (resolved ?ev) tally_completeness = Some Failed \<Longrightarrow> required_with (\<lambda>s. s = Failed) cs ctx"
    using completeness_failed_counted [of tally_completeness] required_failed_cases by blast
  have "(\<exists>r. deriveVerificationSummary (Some cs) ctx = Some r \<and> tone r = ToneFailed) \<longleftrightarrow>
      fst (resolveChecks cs) \<noteq> [] \<and> \<not> required_with isInProgress cs ctx \<and>
      (resolveRoleStatus (resolved ?ev) proof_verification = Some Failed \<or>
       resolveRoleStatus (resolved ?ev) tally_completeness = Some Failed \<or>
       categoryFailed (requiredChecks ?ev) recorded_as_cast \<or> tone (deriveTerminalSummary ?ev ctx) = ToneFailed)"
    by (simp add: summary_branches)
  also have "\<dots> \<longleftrightarrow> required_with (\<lambda>s. s = Failed) cs ctx \<and> \<not> required_with isInProgress cs ctx"
    unfolding failed_branch using mismatch_failed [of cs ctx] tc ne required_failed_cases [of cs ctx] by blast
  finally show ?thesis .
qed

text \<open>The summary depends on the set of checks only, not on their order or on repetitions.\<close>

theorem summary_order_independent:
  assumes "set cs = set cs'"
  shows "deriveVerificationSummary (Some cs) ctx = deriveVerificationSummary (Some cs') ctx"
proof -
  let ?ev = "evidence_of cs ctx" and ?ev' = "evidence_of cs' ctx"
  have res: "set (fst (resolveChecks cs)) = set (fst (resolveChecks cs'))"
    by (simp add: resolveChecks_set assms)
  have sets: "set (resolved ?ev) = set (resolved ?ev')" "hasUnknown ?ev = hasUnknown ?ev'"
    "set (requiredChecks ?ev) = set (requiredChecks ?ev')" "set (optionalChecks ?ev) = set (optionalChecks ?ev')"
    "set (missingRequiredChecks ?ev) = set (missingRequiredChecks ?ev')"
    using res assms by (simp_all only: evidence_fields)
  have missing: "length (missingRequiredChecks ?ev) = 0 \<longleftrightarrow> length (missingRequiredChecks ?ev') = 0"
    using sets(5) by (metis length_0_conv set_empty)
  have role: "resolveRoleStatus (resolved ?ev) r = resolveRoleStatus (resolved ?ev') r" for r
  proof -
    have "set (map (status \<circ> fst) (filter (\<lambda>(c, d). role d = r) (resolved ?ev))) =
        set (map (status \<circ> fst) (filter (\<lambda>(c, d). role d = r) (resolved ?ev')))"
      using sets(1) by (simp only: set_map set_filter)
    from worst_set [OF this] this show ?thesis
      unfolding resolveRoleStatus_def Let_def by (metis length_0_conv set_empty)
  qed
  have "categoryAllRequiredSucceeded (requiredChecks ?ev) (missingRequiredChecks ?ev) c =
      categoryAllRequiredSucceeded (requiredChecks ?ev') (missingRequiredChecks ?ev') c" for c
    using sets(3,5)
    by (simp add: categoryAllRequiredSucceeded_def list_ex_iff list_all_iff filter_empty_conv)
  then have "hasPublishedTallyMismatch ?ev b = hasPublishedTallyMismatch ?ev' b" for b
    using sets(2) missing role by (simp only: hasPublishedTallyMismatch_def)
  moreover have cat: "categoryFailed (requiredChecks ?ev) c = categoryFailed (requiredChecks ?ev') c" for c
    using sets(3) by (simp add: categoryFailed_def list_ex_iff)
  moreover have "hasDemoEvidence (resolved ?ev) = hasDemoEvidence (resolved ?ev')"
    using sets(1) by (simp add: hasDemoEvidence_def list_ex_iff)
  moreover have "list_ex P (requiredChecks ?ev) = list_ex P (requiredChecks ?ev')"
    "list_ex P (optionalChecks ?ev) = list_ex P (optionalChecks ?ev')" for P
    using sets(3,4) by (simp_all add: list_ex_iff)
  moreover have "(0 < length (missingRequiredChecks ?ev)) = (0 < length (missingRequiredChecks ?ev'))"
    using missing by linarith
  ultimately have terminal: "deriveTerminalSummary ?ev ctx = deriveTerminalSummary ?ev' ctx"
    using sets(2) role by (simp only: deriveTerminalSummary_def deriveSuccessfulEvidenceSummary_def Let_def)
  have "fst (resolveChecks cs) = [] \<longleftrightarrow> fst (resolveChecks cs') = []"
    using res by (metis set_empty)
  moreover have "required_with isInProgress cs ctx = required_with isInProgress cs' ctx"
    by (simp add: required_with_def assms)
  ultimately show ?thesis using role terminal cat by (simp only: summary_branches)
qed

definition sample_check :: "check_id \<Rightarrow> step_status \<Rightarrow> verification_check" where
  "sample_check i s = \<lparr>id_of = i, status = s, evidence = Public, inputs = [], derivedFrom = None, noteKey = None\<rparr>"

theorem summary_order_independent_witness:
  "deriveVerificationSummary (Some [sample_check counted_input_sanity Failed, sample_check recorded_index_in_range Success]) None =
   deriveVerificationSummary (Some [sample_check recorded_index_in_range Success, sample_check counted_input_sanity Failed,
     sample_check recorded_index_in_range Success]) None"
  by (rule summary_order_independent) auto

end
