(* ===== verification/JsSort.thy ===== *)
theory JsSort
  imports Prelude "HOL-Library.Multiset"
begin

text \<open>
  \<^verbatim>\<open>Array.prototype.sort\<close> with a comparator.  The sort of the language is stable, so for a comparator
  that is a linear preorder its result is determined; stable insertion computes it.  The locale is the
  contract of such a comparator on the values it is used on: with it, the sorted array depends only on
  the multiset of the elements.
\<close>

fun insert_by :: "('a \<Rightarrow> 'a \<Rightarrow> int) \<Rightarrow> 'a \<Rightarrow> 'a list \<Rightarrow> 'a list" where
  "insert_by c x [] = [x]"
| "insert_by c x (y # ys) = (if c x y \<le> 0 then x # y # ys else y # insert_by c x ys)"

definition js_sort :: "('a \<Rightarrow> 'a \<Rightarrow> int) \<Rightarrow> 'a list \<Rightarrow> 'a list" where
  "js_sort c xs = foldr (insert_by c) xs []"

lemma mset_insert_by [simp]: "mset (insert_by c x ys) = add_mset x (mset ys)"
  by (induction ys) auto

lemma mset_js_sort [simp]: "mset (js_sort c xs) = mset xs"
  by (induction xs) (auto simp: js_sort_def)

lemma set_js_sort [simp]: "set (js_sort c xs) = set xs"
  using mset_js_sort [of c xs] by (metis set_mset_mset)

lemma length_js_sort [simp]: "length (js_sort c xs) = length xs"
  using mset_js_sort [of c xs] by (metis size_mset)

locale js_order =
  fixes D :: "'a set" and c :: "'a \<Rightarrow> 'a \<Rightarrow> int"
  assumes cmp_eq: "x \<in> D \<Longrightarrow> y \<in> D \<Longrightarrow> c x y = 0 \<longleftrightarrow> x = y"
    and cmp_flip: "x \<in> D \<Longrightarrow> y \<in> D \<Longrightarrow> c x y < 0 \<longleftrightarrow> 0 < c y x"
    and cmp_trans: "x \<in> D \<Longrightarrow> y \<in> D \<Longrightarrow> z \<in> D \<Longrightarrow> c x y \<le> 0 \<Longrightarrow> c y z \<le> 0 \<Longrightarrow> c x z \<le> 0"
begin

lemma cmp_total: "x \<in> D \<Longrightarrow> y \<in> D \<Longrightarrow> c x y \<le> 0 \<or> c y x \<le> 0"
  using cmp_flip [of x y] by linarith

lemma cmp_antisym: "x \<in> D \<Longrightarrow> y \<in> D \<Longrightarrow> c x y \<le> 0 \<Longrightarrow> c y x \<le> 0 \<Longrightarrow> x = y"
  using cmp_flip [of x y] cmp_eq [of x y] by linarith

abbreviation below :: "'a \<Rightarrow> 'a \<Rightarrow> bool" where
  "below x y \<equiv> c x y \<le> 0"

lemma sorted_insert_by:
  "x \<in> D \<Longrightarrow> set ys \<subseteq> D \<Longrightarrow> sorted_wrt below ys \<Longrightarrow> sorted_wrt below (insert_by c x ys)"
proof (induction ys)
  case (Cons y ys)
  have set_ins: "set (insert_by c x ys) = insert x (set ys)"
    using mset_insert_by [of c x ys] by (metis set_mset_add_mset_insert set_mset_mset)
  show ?case
  proof (cases "c x y \<le> 0")
    case True
    then have "c x z \<le> 0" if "z \<in> set ys" for z
      using cmp_trans [OF Cons.prems(1) _ _ True, of z] Cons.prems(2,3) that by auto
    with True Cons.prems(3) show ?thesis by simp
  next
    case False
    then have "c y x \<le> 0" using cmp_total [of x y] Cons.prems(1,2) by auto
    with False Cons set_ins show ?thesis by simp
  qed
qed simp

lemma sorted_js_sort: "set xs \<subseteq> D \<Longrightarrow> sorted_wrt below (js_sort c xs)"
proof (induction xs)
  case (Cons x xs)
  then show ?case
    using sorted_insert_by [of x "js_sort c xs"] set_js_sort [of c xs] by (auto simp: js_sort_def)
qed (simp add: js_sort_def)

lemma sorted_unique:
  "set xs \<subseteq> D \<Longrightarrow> sorted_wrt below xs \<Longrightarrow> sorted_wrt below ys \<Longrightarrow> mset xs = mset ys \<Longrightarrow> xs = ys"
proof (induction xs arbitrary: ys)
  case (Cons x xs)
  then obtain y ys' where ys: "ys = y # ys'" by (cases ys) auto
  have sets: "set ys = set (x # xs)" using Cons.prems(4) by (metis set_mset_mset)
  then have "y \<in> D" "x \<in> D" using Cons.prems(1) ys by auto
  moreover have "y = x \<or> c x y \<le> 0" "x = y \<or> c y x \<le> 0"
    using Cons.prems(2,3) sets ys by auto
  ultimately have "x = y" using cmp_antisym by blast
  with Cons ys show ?case by auto
qed simp

lemma js_sort_mset: "set xs \<subseteq> D \<Longrightarrow> mset xs = mset ys \<Longrightarrow> js_sort c xs = js_sort c ys"
  by (rule sorted_unique) (use sorted_js_sort [of xs] sorted_js_sort [of ys] mset_eq_setD [of xs ys] in simp_all)

end

text \<open>Comparing arrays element by element, then by length.\<close>

fun list_cmp :: "('a \<Rightarrow> 'a \<Rightarrow> int) \<Rightarrow> 'a list \<Rightarrow> 'a list \<Rightarrow> int" where
  "list_cmp c (x # xs) (y # ys) = (let r = c x y in if r \<noteq> 0 then r else list_cmp c xs ys)"
| "list_cmp c xs ys = int (length xs) - int (length ys)"

lemma list_cmp_order:
  assumes "js_order UNIV c"
  shows "js_order UNIV (list_cmp c)"
proof -
  from assms have eq: "\<And>x y. c x y = 0 \<longleftrightarrow> x = y" and flip: "\<And>x y. c x y < 0 \<longleftrightarrow> 0 < c y x"
    and trans: "\<And>x y z. c x y \<le> 0 \<Longrightarrow> c y z \<le> 0 \<Longrightarrow> c x z \<le> 0"
    by (auto simp: js_order_def)
  show ?thesis
  proof
    fix xs ys :: "'a list"
    show "list_cmp c xs ys = 0 \<longleftrightarrow> xs = ys"
    proof (induction xs arbitrary: ys)
      case (Cons x xs)
      then show ?case using eq by (cases ys) (auto simp: Let_def)
    qed (simp, metis)
    show "list_cmp c xs ys < 0 \<longleftrightarrow> 0 < list_cmp c ys xs"
    proof (induction xs arbitrary: ys)
      case Nil
      then show ?case by (cases ys) auto
    next
      case step: (Cons x xs)
      show ?case
      proof (cases ys)
        case (Cons y zs)
        then show ?thesis using step.IH [of zs] eq [of x y] eq [of y x] flip [of x y] by (auto simp: Let_def)
      qed simp
    qed
  next
    fix xs ys zs :: "'a list"
    show "list_cmp c xs ys \<le> 0 \<Longrightarrow> list_cmp c ys zs \<le> 0 \<Longrightarrow> list_cmp c xs zs \<le> 0"
    proof (induction xs arbitrary: ys zs)
      case Nil
      then show ?case by (cases zs) auto
    next
      case (Cons x xs)
      show ?case
      proof (cases ys)
        case ys: (Cons y ys')
        show ?thesis
        proof (cases zs)
          case zs: (Cons z zs')
          have "c x y \<le> 0" "c y z \<le> 0" using Cons.prems ys zs by (auto simp: Let_def split: if_splits)
          then have le: "c x z \<le> 0" by (rule trans)
          show ?thesis
          proof (cases "c x z = 0")
            case True
            then have "c x y = 0" "c y z = 0"
              using \<open>c x y \<le> 0\<close> \<open>c y z \<le> 0\<close> eq flip [of x y] by auto
            with Cons.IH [of ys' zs'] Cons.prems ys zs True show ?thesis by (simp add: Let_def)
          qed (use le zs in \<open>simp add: Let_def\<close>)
        qed (use Cons.prems ys in auto)
      qed (use Cons.prems in auto)
    qed
  qed
qed

end
