(* ===== verification/Contract.thy ===== *)
theory Contract
  imports CryptoPrimitives JsSort
begin

text \<open>
  The hashing contract shared with the zkVM guest (packages/zkvm-contract/src/zkvm/types.ts, hex.ts,
  identifiers.ts): fixed-width little-endian integers, the vote commitment, the canonical encoding of
  the public input, the input commitment and the digest of a signed tree head.  The theorems show that
  the encodings are injective, so that equal digests mean equal data or a hash collision, and that the
  input commitment does not depend on the order of the votes.
\<close>

section \<open>Definitions\<close>

datatype contract_error =
    ZkHexFailure hex_error
  | NotUnsignedInRange
  | TimestampNotPositive
  | ElectionIdLength | BulletinRootLength | VoteCommitmentLength | MerklePathNodeLength
  | NotHex32

subsection \<open>hex.ts\<close>

definition zk_addHexPrefix :: "string \<Rightarrow> string" where
  "zk_addHexPrefix hex =
     (if hex = [] then ''0x''
      else let withoutPrefix = (if startsWith hex ''0x'' \<or> startsWith hex ''0X'' then drop 2 hex else hex)
           in ''0x'' @ toLowerCase withoutPrefix)"

definition zk_hexToBytesStrict :: "noble \<Rightarrow> string \<Rightarrow> hex_error + byte list" where
  "zk_hexToBytesStrict N hex =
     (let normalized = normalizeHexString hex
      in if normalized = [] then Inl HexEmpty
         else if length normalized mod 2 \<noteq> 0 then Inl HexOddLength
         else if \<not> list_all is_lower_hex normalized then Inl HexInvalid
         else (case hexToBytes N normalized of Some bs \<Rightarrow> Inr bs | None \<Rightarrow> Inl HexRangeError))"

subsection \<open>identifiers.ts\<close>

definition asHex32Identifier :: "string \<Rightarrow> contract_error + string" where
  "asHex32Identifier v =
     (if startsWith (toLowerCase v) ''0x'' \<and> length v = 66 \<and> list_all is_hex_char (drop 2 v) then Inr v else Inl NotHex32)"

definition asInputCommitment :: "string \<Rightarrow> contract_error + string" where
  "asInputCommitment v = asHex32Identifier v"

subsection \<open>types.ts: integers\<close>

definition UINT16_MAX :: int where "UINT16_MAX = 65535"
definition UINT32_MAX :: int where "UINT32_MAX = 4294967295"

definition assertUnsignedIntegerInRange :: "jsnum \<Rightarrow> int \<Rightarrow> contract_error + int" where
  "assertUnsignedIntegerInRange v m =
     (if \<not> isSafeInteger v \<or> num_lt v (js_int 0) \<or> num_lt (js_int m) v then Inl NotUnsignedInRange
      else Inr (to_int v))"

definition asUnixTimestampMillis :: "jsnum \<Rightarrow> contract_error + int" where
  "asUnixTimestampMillis v =
     res_bind (assertUnsignedIntegerInRange v MAX_SAFE_INTEGER) (\<lambda>t.
       if num_le v (js_int 0) then Inl TimestampNotPositive else Inr t)"

text \<open>\<open>DataView.setUint*\<close> with the little-endian flag: \<open>k\<close> bytes, the value taken modulo \<open>256 ^ k\<close>.\<close>

fun le_bytes :: "nat \<Rightarrow> int \<Rightarrow> byte list" where
  "le_bytes 0 v = []"
| "le_bytes (Suc k) v = word_of_int v # le_bytes k (v div 256)"

definition uint16LE :: "jsnum \<Rightarrow> contract_error + byte list" where
  "uint16LE v = res_bind (assertUnsignedIntegerInRange v UINT16_MAX) (\<lambda>i. Inr (le_bytes 2 i))"

definition uint32LE :: "jsnum \<Rightarrow> contract_error + byte list" where
  "uint32LE v = res_bind (assertUnsignedIntegerInRange v UINT32_MAX) (\<lambda>i. Inr (le_bytes 4 i))"

definition uint64LE :: "int \<Rightarrow> byte list" where
  "uint64LE v = le_bytes 8 v"

subsection \<open>types.ts: the input commitment\<close>

record commitment_vote =
  cv_index :: jsnum
  cv_commitment :: string
  cv_merklePath :: "string list"

record normalized_vote =
  nv_index :: jsnum
  commitmentBytes :: "byte list"
  merklePathBytes :: "byte list list"

record commitment_input =
  ci_electionId :: string
  ci_bulletinRoot :: string
  ci_treeSize :: jsnum
  ci_totalExpected :: jsnum
  ci_votes :: "commitment_vote list"

definition COMMIT_DOMAIN_TAG :: "noble \<Rightarrow> byte list" where
  "COMMIT_DOMAIN_TAG N = utf8ToBytes N ''stark-ballot:commit|v1.0''"

definition INPUT_DOMAIN_TAG :: "noble \<Rightarrow> byte list" where
  "INPUT_DOMAIN_TAG N = utf8ToBytes N ''stark-ballot:input|v1.0''"

definition INPUT_COMMITMENT_FORMAT_VERSION :: jsnum where
  "INPUT_COMMITMENT_FORMAT_VERSION = js_int 10"

definition toUuidBytes :: "noble \<Rightarrow> string \<Rightarrow> contract_error + byte list" where
  "toUuidBytes N uuid = map_err ZkHexFailure (zk_hexToBytesStrict N (filter (\<lambda>c. c \<noteq> CHR ''-'') uuid))"

definition compareUint8Arrays :: "byte list \<Rightarrow> byte list \<Rightarrow> int" where
  "compareUint8Arrays = list_cmp (\<lambda>x y. uint x - uint y)"

definition compareMerklePaths :: "byte list list \<Rightarrow> byte list list \<Rightarrow> int" where
  "compareMerklePaths = list_cmp compareUint8Arrays"

definition normalizeInputCommitmentVote :: "noble \<Rightarrow> commitment_vote \<Rightarrow> contract_error + normalized_vote" where
  "normalizeInputCommitmentVote N v =
     res_bind (map_err ZkHexFailure (zk_hexToBytesStrict N (cv_commitment v))) (\<lambda>c.
     res_bind (res_map (\<lambda>n. map_err ZkHexFailure (zk_hexToBytesStrict N n)) (cv_merklePath v)) (\<lambda>p.
       Inr \<lparr>nv_index = cv_index v, commitmentBytes = c, merklePathBytes = p\<rparr>))"

definition toCanonicalInputCommitmentVote :: "noble \<Rightarrow> normalized_vote \<Rightarrow> commitment_vote" where
  "toCanonicalInputCommitmentVote N v =
     \<lparr>cv_index = nv_index v, cv_commitment = ''0x'' @ bytesToHex N (commitmentBytes v),
      cv_merklePath = map (\<lambda>n. ''0x'' @ bytesToHex N n) (merklePathBytes v)\<rparr>"

text \<open>
  The difference of two indices as a number to compare with zero; a difference that is not a number
  counts as zero for the sort.
\<close>

definition sign_diff :: "jsnum \<Rightarrow> jsnum \<Rightarrow> int" where
  "sign_diff a b = (if num_lt a b then -1 else if num_lt b a then 1 else 0)"

definition compareInputCommitmentVotes :: "normalized_vote \<Rightarrow> normalized_vote \<Rightarrow> int" where
  "compareInputCommitmentVotes l r =
     (if \<not> num_eq (nv_index l) (nv_index r) then sign_diff (nv_index l) (nv_index r)
      else let c = compareUint8Arrays (commitmentBytes l) (commitmentBytes r)
           in if c \<noteq> 0 then c else compareMerklePaths (merklePathBytes l) (merklePathBytes r))"

definition validateInputCommitmentPublicFields :: "noble \<Rightarrow> commitment_input \<Rightarrow> contract_error + unit" where
  "validateInputCommitmentPublicFields N i =
     res_bind (toUuidBytes N (ci_electionId i)) (\<lambda>e.
     if length e \<noteq> 16 then Inl ElectionIdLength else
     res_bind (map_err ZkHexFailure (zk_hexToBytesStrict N (ci_bulletinRoot i))) (\<lambda>r.
     if length r \<noteq> 32 then Inl BulletinRootLength else
     res_bind (assertUnsignedIntegerInRange (ci_treeSize i) UINT32_MAX) (\<lambda>_.
     res_bind (assertUnsignedIntegerInRange (ci_totalExpected i) UINT32_MAX) (\<lambda>_.
     res_bind (assertUnsignedIntegerInRange (js_int (int (length (ci_votes i)))) UINT32_MAX) (\<lambda>_. Inr ())))))"

definition canonicalizeInputCommitmentVotesForEncoding ::
  "noble \<Rightarrow> commitment_vote list \<Rightarrow> contract_error + commitment_vote list" where
  "canonicalizeInputCommitmentVotesForEncoding N votes =
     res_bind (res_map (normalizeInputCommitmentVote N) votes) (\<lambda>ns.
       Inr (map (toCanonicalInputCommitmentVote N) (js_sort compareInputCommitmentVotes ns)))"

definition encode_node :: "byte list \<Rightarrow> contract_error + byte list" where
  "encode_node n = (if length n \<noteq> 32 then Inl MerklePathNodeLength else Inr n)"

text \<open>The body of the loop over the sorted votes, as the bytes it appends.\<close>

definition encode_vote :: "normalized_vote \<Rightarrow> contract_error + byte list" where
  "encode_vote v =
     res_bind (assertUnsignedIntegerInRange (nv_index v) UINT32_MAX) (\<lambda>_.
     if length (commitmentBytes v) \<noteq> 32 then Inl VoteCommitmentLength else
     res_bind (assertUnsignedIntegerInRange (js_int (int (length (merklePathBytes v)))) UINT16_MAX) (\<lambda>_.
     res_bind (uint32LE (nv_index v)) (\<lambda>i.
     res_bind (uint16LE (js_int 32)) (\<lambda>l.
     res_bind (uint16LE (js_int (int (length (merklePathBytes v))))) (\<lambda>pl.
     res_bind (res_map encode_node (merklePathBytes v)) (\<lambda>nodes.
       Inr (i @ l @ commitmentBytes v @ pl @ concat nodes)))))))"

definition encodeInputCommitmentPreimage :: "noble \<Rightarrow> commitment_input \<Rightarrow> contract_error + byte list" where
  "encodeInputCommitmentPreimage N i =
     res_bind (validateInputCommitmentPublicFields N i) (\<lambda>_.
     res_bind (res_map (normalizeInputCommitmentVote N) (ci_votes i)) (\<lambda>ns.
     let sortedVotes = js_sort compareInputCommitmentVotes ns in
     res_bind (uint32LE INPUT_COMMITMENT_FORMAT_VERSION) (\<lambda>ver.
     res_bind (toUuidBytes N (ci_electionId i)) (\<lambda>e.
     res_bind (map_err ZkHexFailure (zk_hexToBytesStrict N (ci_bulletinRoot i))) (\<lambda>r.
     res_bind (uint32LE (ci_treeSize i)) (\<lambda>ts.
     res_bind (uint32LE (ci_totalExpected i)) (\<lambda>te.
     res_bind (uint32LE (js_int (int (length sortedVotes)))) (\<lambda>vc.
     res_bind (res_map encode_vote sortedVotes) (\<lambda>vs.
       Inr (INPUT_DOMAIN_TAG N @ ver @ e @ r @ ts @ te @ vc @ concat vs))))))))))"

definition computeInputCommitmentFromPublicInput :: "noble \<Rightarrow> commitment_input \<Rightarrow> contract_error + string" where
  "computeInputCommitmentFromPublicInput N i =
     res_bind (encodeInputCommitmentPreimage N i) (\<lambda>p. asInputCommitment (''0x'' @ bytesToHex N (sha256 N p)))"

subsection \<open>types.ts: the vote commitment and the STH digest\<close>

definition computeCommitment :: "noble \<Rightarrow> string \<Rightarrow> int \<Rightarrow> string \<Rightarrow> contract_error + string" where
  "computeCommitment N electionId choice random =
     res_bind (toUuidBytes N electionId) (\<lambda>e.
     res_bind (map_err ZkHexFailure (zk_hexToBytesStrict N random)) (\<lambda>r.
       Inr (''0x'' @ bytesToHex N (sha256 N (COMMIT_DOMAIN_TAG N @ e @ [word_of_int choice] @ r)))))"

definition computeSTHDigest :: "noble \<Rightarrow> string \<Rightarrow> jsnum \<Rightarrow> int \<Rightarrow> string \<Rightarrow> contract_error + string" where
  "computeSTHDigest N logId treeSize timestamp bulletinRoot =
     res_bind (map_err ZkHexFailure (zk_hexToBytesStrict N logId)) (\<lambda>l.
     res_bind (uint32LE treeSize) (\<lambda>ts.
     res_bind (map_err ZkHexFailure (zk_hexToBytesStrict N bulletinRoot)) (\<lambda>r.
       Inr (''0x'' @ bytesToHex N (sha256 N (l @ ts @ uint64LE timestamp @ r))))))"

section \<open>Codes\<close>

text \<open>
  A prefix-free code on a domain: what follows a code word does not matter for reading it.  Lists of
  code words of known length are then readable, too.
\<close>

locale prefix_code =
  fixes valid :: "'a \<Rightarrow> bool" and enc :: "'a \<Rightarrow> 'b list"
  assumes read_back: "valid x \<Longrightarrow> valid y \<Longrightarrow> enc x @ s = enc y @ t \<Longrightarrow> x = y \<and> s = t"
begin

lemma concat_read_back:
  "length xs = length ys \<Longrightarrow> list_all valid xs \<Longrightarrow> list_all valid ys \<Longrightarrow>
   concat (map enc xs) @ s = concat (map enc ys) @ t \<Longrightarrow> xs = ys \<and> s = t"
proof (induction xs ys rule: list_induct2)
  case (Cons x xs y ys)
  then show ?case using read_back [of x y "concat (map enc xs) @ s" "concat (map enc ys) @ t"] by simp
qed simp

end

lemma length_le_bytes [simp]: "length (le_bytes k v) = k"
  by (induction k arbitrary: v) auto

lemma le_bytes_inj:
  "0 \<le> v \<Longrightarrow> v < 256 ^ k \<Longrightarrow> 0 \<le> w \<Longrightarrow> w < 256 ^ k \<Longrightarrow> le_bytes k v = le_bytes k w \<Longrightarrow> v = w"
proof (induction k arbitrary: v w)
  case (Suc k)
  have "(word_of_int v :: byte) = word_of_int w" using Suc.prems(5) by simp
  then have "uint (word_of_int v :: byte) = uint (word_of_int w :: byte)" by simp
  then have m: "v mod 256 = w mod 256" by (simp add: uint_word_of_int)
  have "v div 256 = w div 256"
    using Suc.prems by (intro Suc.IH) (simp_all add: div_less_iff_less_mult)
  with m show ?case by (metis mult_div_mod_eq)
qed simp

interpretation uint_code: prefix_code "\<lambda>v. 0 \<le> v \<and> v < 256 ^ k" "le_bytes k" for k
  by unfold_locales (auto dest: le_bytes_inj)

interpretation block_code: prefix_code "\<lambda>bs :: byte list. length bs = k" "\<lambda>bs. bs" for k
  by unfold_locales auto

section \<open>The two decoders agree\<close>

lemma zk_hex_agrees:
  assumes "noble_ok N"
  shows "zk_hexToBytesStrict N s = Inr bs \<longleftrightarrow> hexToBytesStrict N s = Inr bs"
proof -
  let ?n = "normalizeHexString s"
  have low: "toLowerCase ?n = ?n" by (simp add: normalizeHexString_def Let_def)
  have "list_all is_lower_hex ?n \<longleftrightarrow> list_all is_hex_char ?n"
    using list_all_lower_hex_toLowerCase [of ?n] low by simp
  with hexToBytes_defined [OF assms, of ?n] show ?thesis
    by (auto simp: zk_hexToBytesStrict_def hexToBytesStrict_def Let_def split: if_splits option.splits
        elim: evenE)
qed

lemma unsigned_Inr:
  "assertUnsignedIntegerInRange v m = Inr i \<longleftrightarrow> v = js_int i \<and> 0 \<le> i \<and> i \<le> m \<and> i \<le> MAX_SAFE_INTEGER"
  by (auto simp: assertUnsignedIntegerInRange_def isSafeInteger_iff not_less)

lemma uint32LE_Inr: "uint32LE v = Inr bs \<longleftrightarrow> (\<exists>i. v = js_int i \<and> 0 \<le> i \<and> i \<le> UINT32_MAX \<and> bs = le_bytes 4 i)"
  by (auto simp: uint32LE_def err_simps unsigned_Inr UINT32_MAX_def MAX_SAFE_INTEGER_def)

lemma uint16LE_Inr: "uint16LE v = Inr bs \<longleftrightarrow> (\<exists>i. v = js_int i \<and> 0 \<le> i \<and> i \<le> UINT16_MAX \<and> bs = le_bytes 2 i)"
  by (auto simp: uint16LE_def err_simps unsigned_Inr UINT16_MAX_def MAX_SAFE_INTEGER_def)

lemma js_int_inj [simp]: "js_int i = js_int j \<longleftrightarrow> i = j"
  by (simp add: js_int_def)

section \<open>The encoding of the votes\<close>

definition encodable :: "normalized_vote \<Rightarrow> bool" where
  "encodable v \<longleftrightarrow>
     (\<exists>i. nv_index v = js_int i \<and> 0 \<le> i \<and> i \<le> UINT32_MAX) \<and> length (commitmentBytes v) = 32 \<and>
     int (length (merklePathBytes v)) \<le> UINT16_MAX \<and> list_all (\<lambda>n. length n = 32) (merklePathBytes v)"

definition vote_code :: "normalized_vote \<Rightarrow> byte list" where
  "vote_code v = le_bytes 4 (to_int (nv_index v)) @ le_bytes 2 32 @ commitmentBytes v @
     le_bytes 2 (int (length (merklePathBytes v))) @ concat (merklePathBytes v)"

lemma encode_nodes_Inr: "res_map encode_node ns = Inr ms \<longleftrightarrow> ms = ns \<and> list_all (\<lambda>n. length n = 32) ns"
  by (induction ns arbitrary: ms) (auto simp: err_simps encode_node_def)

lemma encode_vote_Inr: "encode_vote v = Inr bs \<longleftrightarrow> encodable v \<and> bs = vote_code v"
  by (auto simp: encode_vote_def encodable_def vote_code_def res_bind_eq_Inr map_err_eq_Inr unsigned_Inr encode_nodes_Inr uint32LE_Inr uint16LE_Inr
      UINT16_MAX_def UINT32_MAX_def MAX_SAFE_INTEGER_def)

lemma encode_votes_Inr: "res_map encode_vote vs = Inr bss \<longleftrightarrow> list_all encodable vs \<and> bss = map vote_code vs"
  by (induction vs arbitrary: bss) (auto simp: err_simps encode_vote_Inr)

interpretation vote_codes: prefix_code encodable vote_code
proof
  fix x y :: normalized_vote and s t :: "byte list"
  assume x: "encodable x" and y: "encodable y" and eq: "vote_code x @ s = vote_code y @ t"
  obtain i j where ij: "nv_index x = js_int i" "0 \<le> i" "i \<le> UINT32_MAX" "nv_index y = js_int j" "0 \<le> j" "j \<le> UINT32_MAX"
    using x y by (auto simp: encodable_def)
  have "i = j" "commitmentBytes x = commitmentBytes y"
    "int (length (merklePathBytes x)) = int (length (merklePathBytes y))"
    "concat (merklePathBytes x) @ s = concat (merklePathBytes y) @ t"
    using eq x y ij uint_code.read_back [of i 4 j]
      le_bytes_inj [of "int (length (merklePathBytes x))" 2 "int (length (merklePathBytes y))"]
    by (auto simp: vote_code_def encodable_def UINT32_MAX_def UINT16_MAX_def dest: le_bytes_inj)
  moreover from this have "merklePathBytes x = merklePathBytes y \<and> s = t"
    using block_code.concat_read_back [of "merklePathBytes x" "merklePathBytes y" 32 s t] x y
    by (auto simp: encodable_def)
  ultimately show "x = y \<and> s = t" using ij by simp
qed

section \<open>The order of the votes\<close>

interpretation byte_order: js_order UNIV "\<lambda>x y :: byte. uint x - uint y"
  by unfold_locales (auto simp: word_uint_eq_iff)

interpretation bytes_order: js_order UNIV compareUint8Arrays
  unfolding compareUint8Arrays_def by (rule list_cmp_order) unfold_locales

interpretation path_order: js_order UNIV compareMerklePaths
  unfolding compareMerklePaths_def by (rule list_cmp_order) unfold_locales

lemma vote_index_cmp:
  assumes "encodable x" "encodable y"
  obtains i j where "nv_index x = js_int i" "nv_index y = js_int j"
  using assms by (auto simp: encodable_def)

interpretation vote_order: js_order "Collect encodable" compareInputCommitmentVotes
proof
  fix x y :: normalized_vote
  assume "x \<in> Collect encodable" "y \<in> Collect encodable"
  then obtain i j where ij: "nv_index x = js_int i" "nv_index y = js_int j"
    by (auto elim: vote_index_cmp)
  show "compareInputCommitmentVotes x y = 0 \<longleftrightarrow> x = y"
    using ij bytes_order.cmp_eq path_order.cmp_eq
    by (auto simp: compareInputCommitmentVotes_def sign_diff_def Let_def js_simps)
  show "compareInputCommitmentVotes x y < 0 \<longleftrightarrow> 0 < compareInputCommitmentVotes y x"
    using ij bytes_order.cmp_eq [of "commitmentBytes x" "commitmentBytes y"]
      bytes_order.cmp_eq [of "commitmentBytes y" "commitmentBytes x"]
      bytes_order.cmp_flip [of "commitmentBytes x" "commitmentBytes y"]
      path_order.cmp_flip [of "merklePathBytes x" "merklePathBytes y"]
    by (auto simp: compareInputCommitmentVotes_def sign_diff_def Let_def js_simps)
next
  fix x y z :: normalized_vote
  assume D: "x \<in> Collect encodable" "y \<in> Collect encodable" "z \<in> Collect encodable"
    and le: "compareInputCommitmentVotes x y \<le> 0" "compareInputCommitmentVotes y z \<le> 0"
  obtain i j k where ijk: "nv_index x = js_int i" "nv_index y = js_int j" "nv_index z = js_int k"
    using D vote_index_cmp by (metis mem_Collect_eq)
  show "compareInputCommitmentVotes x z \<le> 0"
    using le ijk bytes_order.cmp_eq bytes_order.cmp_antisym
      bytes_order.cmp_trans [of "commitmentBytes x" "commitmentBytes y" "commitmentBytes z"]
      path_order.cmp_trans [of "merklePathBytes x" "merklePathBytes y" "merklePathBytes z"]
    by (auto simp: compareInputCommitmentVotes_def sign_diff_def Let_def js_simps split: if_splits)
qed

section \<open>The preimage\<close>

text \<open>What a successful encoding says of the input, with the sorted votes it wrote.\<close>

definition preimage_of :: "noble \<Rightarrow> byte list \<Rightarrow> byte list \<Rightarrow> int \<Rightarrow> int \<Rightarrow> normalized_vote list \<Rightarrow> byte list" where
  "preimage_of N e r ts te vs =
     INPUT_DOMAIN_TAG N @ le_bytes 4 10 @ e @ r @ le_bytes 4 ts @ le_bytes 4 te @
     le_bytes 4 (int (length vs)) @ concat (map vote_code vs)"

lemma encode_Inr:
  assumes "encodeInputCommitmentPreimage N i = Inr p"
  obtains e r ts te ns where "toUuidBytes N (ci_electionId i) = Inr e" "length e = 16"
    "zk_hexToBytesStrict N (ci_bulletinRoot i) = Inr r" "length r = 32"
    "ci_treeSize i = js_int ts" "0 \<le> ts" "ts \<le> UINT32_MAX"
    "ci_totalExpected i = js_int te" "0 \<le> te" "te \<le> UINT32_MAX"
    "res_map (normalizeInputCommitmentVote N) (ci_votes i) = Inr ns" "list_all encodable ns"
    "int (length ns) \<le> UINT32_MAX"
    "p = preimage_of N e r ts te (js_sort compareInputCommitmentVotes ns)"
proof -
  have "\<exists>e r ts te ns. toUuidBytes N (ci_electionId i) = Inr e \<and> length e = 16 \<and>
    zk_hexToBytesStrict N (ci_bulletinRoot i) = Inr r \<and> length r = 32 \<and>
    ci_treeSize i = js_int ts \<and> 0 \<le> ts \<and> ts \<le> UINT32_MAX \<and>
    ci_totalExpected i = js_int te \<and> 0 \<le> te \<and> te \<le> UINT32_MAX \<and>
    res_map (normalizeInputCommitmentVote N) (ci_votes i) = Inr ns \<and> list_all encodable (js_sort compareInputCommitmentVotes ns) \<and>
    int (length ns) \<le> UINT32_MAX \<and> p = preimage_of N e r ts te (js_sort compareInputCommitmentVotes ns)"
    using assms
    by (auto simp: encodeInputCommitmentPreimage_def validateInputCommitmentPublicFields_def preimage_of_def
        INPUT_COMMITMENT_FORMAT_VERSION_def encode_votes_Inr unsigned_Inr Let_def res_bind_eq_Inr map_err_eq_Inr uint32LE_Inr split: if_splits)
  then show thesis using that by (auto simp: list_all_iff)
qed

text \<open>The condition under which an encoding succeeds, from its parts.\<close>

lemma encode_from_parts:
  assumes "toUuidBytes N (ci_electionId i) = Inr e" "length e = 16"
    "zk_hexToBytesStrict N (ci_bulletinRoot i) = Inr r" "length r = 32"
    "ci_treeSize i = js_int ts" "0 \<le> ts" "ts \<le> UINT32_MAX"
    "ci_totalExpected i = js_int te" "0 \<le> te" "te \<le> UINT32_MAX"
    "res_map (normalizeInputCommitmentVote N) (ci_votes i) = Inr ns" "list_all encodable ns"
    "int (length ns) \<le> UINT32_MAX"
  shows "encodeInputCommitmentPreimage N i = Inr (preimage_of N e r ts te (js_sort compareInputCommitmentVotes ns))"
proof -
  have "length (ci_votes i) = length ns"
    using assms(11) by (auto simp: res_map_eq_Inr dest: list_all2_lengthD)
  moreover have "list_all encodable (js_sort compareInputCommitmentVotes ns)" using assms(12) by (simp add: list_all_iff)
  ultimately have "validateInputCommitmentPublicFields N i = Inr ()"
    "res_map encode_vote (js_sort compareInputCommitmentVotes ns) = Inr (map vote_code (js_sort compareInputCommitmentVotes ns))"
    using assms unsigned_Inr [of "js_int ts" UINT32_MAX ts] unsigned_Inr [of "js_int te" UINT32_MAX te]
      unsigned_Inr [of "js_int (int (length ns))" UINT32_MAX "int (length ns)"]
    by (simp_all add: validateInputCommitmentPublicFields_def encode_votes_Inr) (simp_all add: UINT32_MAX_def MAX_SAFE_INTEGER_def)
  moreover have "uint32LE (js_int 10) = Inr (le_bytes 4 10)" "uint32LE (js_int ts) = Inr (le_bytes 4 ts)"
    "uint32LE (js_int te) = Inr (le_bytes 4 te)" "uint32LE (js_int (int (length ns))) = Inr (le_bytes 4 (int (length ns)))"
    using assms(6,7,9,10,13) by (simp_all add: uint32LE_Inr) (simp add: UINT32_MAX_def)
  ultimately show ?thesis
    using assms(1,3,5,8,11)
    by (simp add: encodeInputCommitmentPreimage_def INPUT_COMMITMENT_FORMAT_VERSION_def preimage_of_def)
qed

lemma res_map_perm:
  assumes "res_map f xs = Inr ys" "mset xs = mset xs'"
  shows "\<exists>ys'. res_map f xs' = Inr ys' \<and> mset ys' = mset ys"
proof -
  have "\<forall>x. \<exists>y. x \<in> set xs \<longrightarrow> f x = Inr y"
    using assms(1) by (auto simp: res_map_eq_Inr list_all2_conv_all_nth in_set_conv_nth)
  then obtain g where all: "\<And>x. x \<in> set xs \<Longrightarrow> f x = Inr (g x)" by metis
  have map_ok: "res_map f zs = Inr (map g zs)" if "set zs \<subseteq> set xs" for zs
    using that all by (induction zs) auto
  have "res_map f xs' = Inr (map g xs')" "ys = map g xs"
    using map_ok [of xs'] map_ok [of xs] assms mset_eq_setD [of xs xs'] by auto
  with assms(2) show ?thesis by (metis mset_map)
qed

text \<open>The canonical encoding, and with it the input commitment, does not depend on the order in
  which the votes are listed: if one order encodes, every other order gives the same commitment.\<close>

theorem input_commitment_order_independent:
  assumes "computeInputCommitmentFromPublicInput N i = Inr c" "mset vs = mset (ci_votes i)"
  shows "computeInputCommitmentFromPublicInput N (i\<lparr>ci_votes := vs\<rparr>) = Inr c"
proof -
  obtain p where p: "encodeInputCommitmentPreimage N i = Inr p"
    "asInputCommitment (''0x'' @ bytesToHex N (sha256 N p)) = Inr c"
    using assms(1) by (auto simp: computeInputCommitmentFromPublicInput_def res_bind_eq_Inr)
  from encode_Inr [OF p(1)] obtain e r ts te ns where parts: "toUuidBytes N (ci_electionId i) = Inr e" "length e = 16"
    "zk_hexToBytesStrict N (ci_bulletinRoot i) = Inr r" "length r = 32"
    "ci_treeSize i = js_int ts" "0 \<le> ts" "ts \<le> UINT32_MAX"
    "ci_totalExpected i = js_int te" "0 \<le> te" "te \<le> UINT32_MAX"
    "res_map (normalizeInputCommitmentVote N) (ci_votes i) = Inr ns" "list_all encodable ns"
    "int (length ns) \<le> UINT32_MAX" and eq: "p = preimage_of N e r ts te (js_sort compareInputCommitmentVotes ns)" .
  obtain ms where ms: "res_map (normalizeInputCommitmentVote N) vs = Inr ms" "mset ms = mset ns"
    using res_map_perm [OF parts(11), of vs] assms(2) by auto
  have "set ms = set ns" "length ms = length ns" using ms(2) by (auto dest: mset_eq_setD mset_eq_length)
  then have "encodeInputCommitmentPreimage N (i\<lparr>ci_votes := vs\<rparr>) =
      Inr (preimage_of N e r ts te (js_sort compareInputCommitmentVotes ms))"
    using parts ms(1) by (intro encode_from_parts) (auto simp: list_all_iff)
  moreover have "js_sort compareInputCommitmentVotes ms = js_sort compareInputCommitmentVotes ns"
    using vote_order.js_sort_mset [of ms ns] ms(2) parts(12) \<open>set ms = set ns\<close> by (auto simp: list_all_iff)
  ultimately show ?thesis using p(2) eq by (simp add: computeInputCommitmentFromPublicInput_def)
qed

text \<open>Two inputs with the same public content: the decoded identifiers and numbers, and the votes in
  canonical form and order.\<close>

definition same_public_input :: "noble \<Rightarrow> commitment_input \<Rightarrow> commitment_input \<Rightarrow> bool" where
  "same_public_input N i j \<longleftrightarrow>
     toUuidBytes N (ci_electionId i) = toUuidBytes N (ci_electionId j) \<and>
     zk_hexToBytesStrict N (ci_bulletinRoot i) = zk_hexToBytesStrict N (ci_bulletinRoot j) \<and>
     ci_treeSize i = ci_treeSize j \<and> ci_totalExpected i = ci_totalExpected j \<and>
     canonicalizeInputCommitmentVotesForEncoding N (ci_votes i) =
       canonicalizeInputCommitmentVotesForEncoding N (ci_votes j)"

lemma preimage_inj:
  assumes "encodeInputCommitmentPreimage N i = Inr p" "encodeInputCommitmentPreimage N j = Inr p"
  shows "same_public_input N i j"
proof -
  from encode_Inr [OF assms(1)] obtain e r ts te ns where 1: "toUuidBytes N (ci_electionId i) = Inr e" "length e = 16"
    "zk_hexToBytesStrict N (ci_bulletinRoot i) = Inr r" "length r = 32"
    "ci_treeSize i = js_int ts" "0 \<le> ts" "ts \<le> UINT32_MAX"
    "ci_totalExpected i = js_int te" "0 \<le> te" "te \<le> UINT32_MAX"
    "res_map (normalizeInputCommitmentVote N) (ci_votes i) = Inr ns" "list_all encodable ns"
    "int (length ns) \<le> UINT32_MAX" "p = preimage_of N e r ts te (js_sort compareInputCommitmentVotes ns)" .
  from encode_Inr [OF assms(2)] obtain e' r' ts' te' ns' where 2: "toUuidBytes N (ci_electionId j) = Inr e'" "length e' = 16"
    "zk_hexToBytesStrict N (ci_bulletinRoot j) = Inr r'" "length r' = 32"
    "ci_treeSize j = js_int ts'" "0 \<le> ts'" "ts' \<le> UINT32_MAX"
    "ci_totalExpected j = js_int te'" "0 \<le> te'" "te' \<le> UINT32_MAX"
    "res_map (normalizeInputCommitmentVote N) (ci_votes j) = Inr ns'" "list_all encodable ns'"
    "int (length ns') \<le> UINT32_MAX" "p = preimage_of N e' r' ts' te' (js_sort compareInputCommitmentVotes ns')" .
  let ?vs = "js_sort compareInputCommitmentVotes ns" and ?vs' = "js_sort compareInputCommitmentVotes ns'"
  have eqs: "e = e'" "r = r'" "le_bytes 4 ts = le_bytes 4 ts'" "le_bytes 4 te = le_bytes 4 te'"
    "le_bytes 4 (int (length ns)) = le_bytes 4 (int (length ns'))" "concat (map vote_code ?vs) = concat (map vote_code ?vs')"
    using 1(2,4,14) 2(2,4,14) by (simp_all add: preimage_of_def)
  have "ts = ts'" "te = te'" "int (length ns) = int (length ns')"
    using le_bytes_inj [of ts 4 ts'] le_bytes_inj [of te 4 te'] le_bytes_inj [of "int (length ns)" 4 "int (length ns')"]
      eqs 1(6,7,9,10,13) 2(6,7,9,10,13) by (simp_all add: UINT32_MAX_def)
  moreover from this have "?vs = ?vs'"
    using vote_codes.concat_read_back [of ?vs ?vs' "[]" "[]"] eqs(6) 1(12) 2(12) by (simp add: list_all_iff)
  ultimately show ?thesis
    using 1(1,3,5,8,11) 2(1,3,5,8,11) eqs(1,2)
    by (simp add: same_public_input_def canonicalizeInputCommitmentVotesForEncoding_def)
qed

text \<open>C15: the input commitment binds the public input: equal commitments come from inputs with the same
  election, root, sizes and canonical votes, or from two different preimages with the same hash.\<close>

theorem input_commitment_binding:
  assumes "noble_ok N" "computeInputCommitmentFromPublicInput N i = Inr c" "computeInputCommitmentFromPublicInput N j = Inr c"
  shows "same_public_input N i j \<or>
    (\<exists>p q. encodeInputCommitmentPreimage N i = Inr p \<and> encodeInputCommitmentPreimage N j = Inr q \<and>
       p \<noteq> q \<and> sha256 N p = sha256 N q)"
proof -
  obtain p q where pq: "encodeInputCommitmentPreimage N i = Inr p" "asInputCommitment (''0x'' @ bytesToHex N (sha256 N p)) = Inr c"
    "encodeInputCommitmentPreimage N j = Inr q" "asInputCommitment (''0x'' @ bytesToHex N (sha256 N q)) = Inr c"
    using assms(2,3) by (auto simp: computeInputCommitmentFromPublicInput_def res_bind_eq_Inr)
  then have "sha256 N p = sha256 N q"
    using assms(1) by (auto simp: asInputCommitment_def asHex32Identifier_def split: if_splits)
  with pq preimage_inj show ?thesis by blast
qed

section \<open>Vote commitment and tree head\<close>

definition uuid16 :: "noble \<Rightarrow> string \<Rightarrow> bool" where
  "uuid16 N e \<longleftrightarrow> (case toUuidBytes N e of Inr b \<Rightarrow> length b = 16 | Inl _ \<Rightarrow> False)"

text \<open>The bytes hashed for a commitment and for the digest of a tree head.\<close>

definition bytes_of :: "'e + byte list \<Rightarrow> byte list" where
  "bytes_of x = (case x of Inr b \<Rightarrow> b | Inl _ \<Rightarrow> [])"

definition commitment_preimage :: "noble \<Rightarrow> string \<Rightarrow> int \<Rightarrow> string \<Rightarrow> byte list" where
  "commitment_preimage N e c r =
     COMMIT_DOMAIN_TAG N @ bytes_of (toUuidBytes N e) @ [word_of_int c] @ bytes_of (zk_hexToBytesStrict N r)"

definition sth_preimage :: "noble \<Rightarrow> string \<Rightarrow> int \<Rightarrow> int \<Rightarrow> string \<Rightarrow> byte list" where
  "sth_preimage N l n t r =
     bytes_of (zk_hexToBytesStrict N l) @ le_bytes 4 n @ le_bytes 8 t @ bytes_of (zk_hexToBytesStrict N r)"

lemma byte_of_int_inj:
  assumes "(word_of_int c :: byte) = word_of_int d" "0 \<le> c" "c < 256" "0 \<le> d" "d < 256"
  shows "c = d"
proof -
  have "uint (word_of_int c :: byte) = uint (word_of_int d :: byte)" using assms(1) by simp
  then show ?thesis using assms(2-5) by (simp add: uint_word_of_int)
qed

lemma commitment_inj:
  assumes "noble_ok N" "computeCommitment N e c r = Inr h" "computeCommitment N e' c' r' = Inr h"
    "uuid16 N e" "uuid16 N e'" "0 \<le> c" "c < 256" "0 \<le> c'" "c' < 256"
  shows "toUuidBytes N e = toUuidBytes N e' \<and> c = c' \<and> zk_hexToBytesStrict N r = zk_hexToBytesStrict N r' \<or>
    (commitment_preimage N e c r \<noteq> commitment_preimage N e' c' r' \<and>
     sha256 N (commitment_preimage N e c r) = sha256 N (commitment_preimage N e' c' r'))"
proof -
  obtain eb rb where 1: "toUuidBytes N e = Inr eb" "zk_hexToBytesStrict N r = Inr rb"
    "h = ''0x'' @ bytesToHex N (sha256 N (commitment_preimage N e c r))"
    using assms(2) by (auto simp: computeCommitment_def commitment_preimage_def bytes_of_def res_bind_eq_Inr map_err_eq_Inr)
  obtain eb' rb' where 2: "toUuidBytes N e' = Inr eb'" "zk_hexToBytesStrict N r' = Inr rb'"
    "h = ''0x'' @ bytesToHex N (sha256 N (commitment_preimage N e' c' r'))"
    using assms(3) by (auto simp: computeCommitment_def commitment_preimage_def bytes_of_def res_bind_eq_Inr map_err_eq_Inr)
  have len: "length eb = length eb'" using assms(4,5) 1 2 by (simp add: uuid16_def)
  have sha: "sha256 N (commitment_preimage N e c r) = sha256 N (commitment_preimage N e' c' r')"
    using 1(3) 2(3) assms(1) by simp
  show ?thesis
  proof (cases "commitment_preimage N e c r = commitment_preimage N e' c' r'")
    case True
    with len 1 2 have "eb = eb'" "(word_of_int c :: byte) = word_of_int c'" "rb = rb'"
      by (simp_all add: commitment_preimage_def bytes_of_def)
    with 1 2 show ?thesis
      using byte_of_int_inj [of c c'] assms(6-9) by simp
  qed (use sha in blast)
qed

text \<open>C16: a vote commitment binds the election, the choice and the randomness: two openings of the same
  commitment under identifiers of 16 bytes agree in all three, or their two preimages collide.\<close>

theorem vote_commitment_binding:
  assumes "noble_ok N" "computeCommitment N e c r = Inr h" "computeCommitment N e' c' r' = Inr h"
    "uuid16 N e" "uuid16 N e'" "0 \<le> c" "c < 256" "0 \<le> c'" "c' < 256"
  shows "toUuidBytes N e = toUuidBytes N e' \<and> c = c' \<and> zk_hexToBytesStrict N r = zk_hexToBytesStrict N r' \<or>
    (commitment_preimage N e c r \<noteq> commitment_preimage N e' c' r' \<and>
     sha256 N (commitment_preimage N e c r) = sha256 N (commitment_preimage N e' c' r'))"
  using assms by (rule commitment_inj)

text \<open>The digest of a tree head, for log identifiers of 32 bytes.\<close>

lemma computeSTHDigest_Inr:
  assumes "computeSTHDigest N l n t r = Inr h"
  obtains i lb rb where "n = js_int i" "0 \<le> i" "i \<le> UINT32_MAX" "zk_hexToBytesStrict N l = Inr lb"
    "zk_hexToBytesStrict N r = Inr rb" "h = ''0x'' @ bytesToHex N (sha256 N (sth_preimage N l i t r))"
  using assms
  by (auto simp: computeSTHDigest_def sth_preimage_def bytes_of_def res_bind_eq_Inr map_err_eq_Inr uint32LE_Inr uint64LE_def)

lemma sth_digest_inj:
  assumes "noble_ok N" "computeSTHDigest N l (js_int n) t r = Inr h" "computeSTHDigest N l' (js_int n') t' r' = Inr h"
    "length (bytes_of (zk_hexToBytesStrict N l)) = 32" "length (bytes_of (zk_hexToBytesStrict N l')) = 32"
    "0 \<le> t" "t < 2 ^ 64" "0 \<le> t'" "t' < 2 ^ 64"
  shows "zk_hexToBytesStrict N l = zk_hexToBytesStrict N l' \<and> n = n' \<and> t = t' \<and> zk_hexToBytesStrict N r = zk_hexToBytesStrict N r' \<or>
    (sth_preimage N l n t r \<noteq> sth_preimage N l' n' t' r' \<and> sha256 N (sth_preimage N l n t r) = sha256 N (sth_preimage N l' n' t' r'))"
proof -
  obtain lb rb where 1: "0 \<le> n" "n \<le> UINT32_MAX" "zk_hexToBytesStrict N l = Inr lb" "zk_hexToBytesStrict N r = Inr rb"
    "h = ''0x'' @ bytesToHex N (sha256 N (sth_preimage N l n t r))"
    using assms(2) by (auto elim: computeSTHDigest_Inr)
  obtain lb' rb' where 2: "0 \<le> n'" "n' \<le> UINT32_MAX" "zk_hexToBytesStrict N l' = Inr lb'" "zk_hexToBytesStrict N r' = Inr rb'"
    "h = ''0x'' @ bytesToHex N (sha256 N (sth_preimage N l' n' t' r'))"
    using assms(3) by (auto elim: computeSTHDigest_Inr)
  have sha: "sha256 N (sth_preimage N l n t r) = sha256 N (sth_preimage N l' n' t' r')"
    using 1(5) 2(5) assms(1) by simp
  show ?thesis
  proof (cases "sth_preimage N l n t r = sth_preimage N l' n' t' r'")
    case True
    then have "lb = lb'" "le_bytes 4 n = le_bytes 4 n'" "le_bytes 8 t = le_bytes 8 t'" "rb = rb'"
      using assms(4,5) 1 2 by (simp_all add: sth_preimage_def bytes_of_def)
    then show ?thesis
      using le_bytes_inj [of n 4 n'] le_bytes_inj [of t 8 t'] 1 2 assms(6-9) by (simp add: UINT32_MAX_def)
  qed (use sha in blast)
qed

section \<open>Witnesses\<close>

definition demo_election :: string where
  "demo_election = ''01234567-89ab-4cde-8f01-23456789abcd''"

definition demo_hash :: string where
  "demo_hash = ''0x'' @ replicate 64 CHR ''a''"

definition demo_vote :: "int \<Rightarrow> commitment_vote" where
  "demo_vote i = \<lparr>cv_index = js_int i, cv_commitment = demo_hash, cv_merklePath = [demo_hash]\<rparr>"

definition demo_input :: commitment_input where
  "demo_input = \<lparr>ci_electionId = demo_election, ci_bulletinRoot = demo_hash, ci_treeSize = js_int 2,
     ci_totalExpected = js_int 2, ci_votes = [demo_vote 1, demo_vote 0]\<rparr>"

lemma compute_from_encode:
  assumes "noble_ok N" "encodeInputCommitmentPreimage N i = Inr p"
  shows "computeInputCommitmentFromPublicInput N i = Inr (''0x'' @ bytesToHex N (sha256 N p))"
proof -
  have "list_all is_hex_char (bytesToHex N (sha256 N p))"
    using lower_bytesToHex [OF assms(1), of "sha256 N p"] by (auto simp: list_all_iff is_lower_hex_hex)
  moreover have "startsWith (toLowerCase (''0x'' @ bytesToHex N (sha256 N p))) ''0x''"
  proof -
    have "lower_char CHR ''0'' = CHR ''0''" "lower_char CHR ''x'' = CHR ''x''" by code_simp+
    then show ?thesis by (simp add: startsWith_def toLowerCase_def)
  qed
  ultimately show ?thesis
    using assms length_bytesToHex [OF assms(1), of "sha256 N p"] length_sha256 [OF assms(1), of p]
    by (simp add: computeInputCommitmentFromPublicInput_def asInputCommitment_def asHex32Identifier_def)
qed

definition demo_bytes :: "byte list" where
  "demo_bytes = replicate 32 0xAA"

lemma demo_decodes: "zk_hexToBytesStrict demo_noble demo_hash = Inr demo_bytes" "uuid16 demo_noble demo_election"
  by code_simp+

lemma demo_input_commits: "\<exists>c. computeInputCommitmentFromPublicInput demo_noble demo_input = Inr c"
proof -
  obtain e where e: "toUuidBytes demo_noble demo_election = Inr e" "length e = 16"
    using demo_decodes(2) by (auto simp: uuid16_def split: sum.splits)
  have "encodeInputCommitmentPreimage demo_noble demo_input = Inr (preimage_of demo_noble e demo_bytes 2 2
      (js_sort compareInputCommitmentVotes
        [\<lparr>nv_index = js_int 1, commitmentBytes = demo_bytes, merklePathBytes = [demo_bytes]\<rparr>,
         \<lparr>nv_index = js_int 0, commitmentBytes = demo_bytes, merklePathBytes = [demo_bytes]\<rparr>]))"
    using e demo_decodes(1)
    by (intro encode_from_parts)
      (auto simp: demo_input_def demo_vote_def normalizeInputCommitmentVote_def encodable_def UINT32_MAX_def UINT16_MAX_def demo_bytes_def)
  from compute_from_encode [OF demo_noble_ok this] show ?thesis by blast
qed

theorem input_commitment_order_independent_witness:
  "\<exists>c. computeInputCommitmentFromPublicInput demo_noble demo_input = Inr c \<and>
     computeInputCommitmentFromPublicInput demo_noble (demo_input\<lparr>ci_votes := [demo_vote 0, demo_vote 1]\<rparr>) = Inr c"
  using demo_input_commits input_commitment_order_independent [of demo_noble demo_input _ "[demo_vote 0, demo_vote 1]"]
  by (auto simp: demo_input_def)

theorem input_commitment_binding_witness:
  "same_public_input demo_noble demo_input demo_input \<or>
    (\<exists>p q. encodeInputCommitmentPreimage demo_noble demo_input = Inr p \<and> encodeInputCommitmentPreimage demo_noble demo_input = Inr q \<and>
       p \<noteq> q \<and> sha256 demo_noble p = sha256 demo_noble q)"
  using demo_input_commits input_commitment_binding [OF demo_noble_ok] by blast

lemma demo_commits: "\<exists>h. computeCommitment demo_noble demo_election 3 demo_hash = Inr h"
  using demo_decodes by (auto simp: computeCommitment_def uuid16_def split: sum.splits)

theorem vote_commitment_binding_witness:
  "toUuidBytes demo_noble demo_election = toUuidBytes demo_noble demo_election \<and> (3::int) = 3 \<and>
     zk_hexToBytesStrict demo_noble demo_hash = zk_hexToBytesStrict demo_noble demo_hash \<or>
    (commitment_preimage demo_noble demo_election 3 demo_hash \<noteq> commitment_preimage demo_noble demo_election 3 demo_hash \<and>
     sha256 demo_noble (commitment_preimage demo_noble demo_election 3 demo_hash) =
       sha256 demo_noble (commitment_preimage demo_noble demo_election 3 demo_hash))"
proof -
  obtain h where "computeCommitment demo_noble demo_election 3 demo_hash = Inr h" using demo_commits by blast
  from vote_commitment_binding [OF demo_noble_ok this this demo_decodes(2,2)] show ?thesis by simp
qed

end
