(* ===== verification/Bitmap.thy ===== *)
theory Bitmap
  imports CryptoPrimitives
begin

text \<open>
  The bitmap of counted votes and its Merkle tree (packages/zkvm-contract/src/zkvm/bitmap-core.ts,
  packages/verification/src/merkle/bitmap-merkle-tree.ts, packages/verification/src/verification/
  bitmap-proof-types.ts and bitmap-verifier.ts): packing of bits into chunks of 32 bytes, the tree over the
  chunks (an unpaired node is promoted), generation and verification of the proof of one bit.
\<close>

unbundle bit_operations_syntax

section \<open>bitmap-core.ts\<close>

datatype bitmap_error =
    BitOffsetOutOfRange | ByteMissing | InvalidChunkFormat | InvalidNodeFormat | BitmapHexRange
  | EmptyBitmap | BitIndexOutOfRange
  | BadBitIndex | BadTreeSize | BadLeafIndex | BadBitOffset | BadRoot

definition BITMAP_CHUNK_BYTES :: nat where "BITMAP_CHUNK_BYTES = 32"
definition BITMAP_CHUNK_BITS :: nat where "BITMAP_CHUNK_BITS = 256"

text \<open>Setting the bit of an index in an array of bytes, least significant bit first.\<close>

definition set_bit_at :: "nat \<Rightarrow> byte list \<Rightarrow> byte list" where
  "set_bit_at i bytes = bytes[i div 8 := (bytes ! (i div 8)) OR push_bit (i mod 8) 1]"

definition packBitmapBitsToBytes :: "bool list \<Rightarrow> byte list" where
  "packBitmapBitsToBytes bits =
     fold (\<lambda>i bytes. if bits ! i then set_bit_at i bytes else bytes)
       [0..<length bits] (replicate ((length bits + 7) div 8) 0)"

text \<open>The loop over the offsets, one iteration per 32 bytes.\<close>

function chunks_of :: "byte list \<Rightarrow> byte list list" where
  "chunks_of bytes =
     (if bytes = [] then []
      else let part = take BITMAP_CHUNK_BYTES bytes
           in (part @ replicate (BITMAP_CHUNK_BYTES - length part) 0) # chunks_of (drop BITMAP_CHUNK_BYTES bytes))"
  by pat_completeness auto
termination by (relation "measure length") (simp_all add: BITMAP_CHUNK_BYTES_def)

declare chunks_of.simps [simp del]

definition splitBitmapBytesIntoChunks :: "byte list \<Rightarrow> byte list list" where
  "splitBitmapBytesIntoChunks bytes =
     (let chunks = chunks_of bytes
      in if length chunks = 0 then [replicate BITMAP_CHUNK_BYTES 0] else chunks)"

definition BITMAP_LEAF_USAGE_TAG :: "noble \<Rightarrow> byte list" where
  "BITMAP_LEAF_USAGE_TAG N = utf8ToBytes N ''stark-ballot:leaf|v1''"

definition hashBitmapLeafChunk :: "noble \<Rightarrow> byte list \<Rightarrow> byte list" where
  "hashBitmapLeafChunk N chunk = sha256 N (0 # BITMAP_LEAF_USAGE_TAG N @ chunk)"

definition hashBitmapInternalNode :: "noble \<Rightarrow> byte list \<Rightarrow> byte list \<Rightarrow> byte list" where
  "hashBitmapInternalNode N left right = sha256 N (1 # left @ right)"

fun next_level :: "noble \<Rightarrow> byte list list \<Rightarrow> byte list list" where
  "next_level N (l # r # rest) = hashBitmapInternalNode N l r # next_level N rest"
| "next_level N [l] = [l]"
| "next_level N [] = []"

lemma length_next_level [simp]: "length (next_level N xs) = (length xs + 1) div 2"
  by (induction N xs rule: next_level.induct) auto

function (sequential) level_loop :: "noble \<Rightarrow> byte list list \<Rightarrow> byte list list list" where
  "level_loop N xs = (if length xs > 1 then xs # level_loop N (next_level N xs) else [xs])"
  by auto
termination by (relation "measure (\<lambda>(N, xs). length xs)") auto

declare level_loop.simps [simp del]

definition buildBitmapMerkleTreeByteLevels :: "noble \<Rightarrow> byte list list \<Rightarrow> byte list list list" where
  "buildBitmapMerkleTreeByteLevels N lvs =
     (if length lvs = 0 then [[replicate BITMAP_CHUNK_BYTES 0]] else level_loop N lvs)"

text \<open>The last level has one node; its absence would throw and is the empty result here.\<close>

definition computeBitmapMerkleRootBytes :: "noble \<Rightarrow> byte list list \<Rightarrow> byte list" where
  "computeBitmapMerkleRootBytes N lvs =
     (case last (buildBitmapMerkleTreeByteLevels N lvs) of r # _ \<Rightarrow> r | [] \<Rightarrow> [])"

definition bitmap_leaves :: "noble \<Rightarrow> bool list \<Rightarrow> byte list list" where
  "bitmap_leaves N bitmap =
     map (hashBitmapLeafChunk N) (splitBitmapBytesIntoChunks (packBitmapBitsToBytes bitmap))"

definition computeIncludedBitmapRootHex :: "noble \<Rightarrow> bool list \<Rightarrow> string" where
  "computeIncludedBitmapRootHex N bitmap =
     ''0x'' @ bytesToHex N (computeBitmapMerkleRootBytes N (bitmap_leaves N bitmap))"

definition calculateBitmapLeafIndex :: "int \<Rightarrow> int" where
  "calculateBitmapLeafIndex bitIndex = bitIndex div int BITMAP_CHUNK_BITS"

definition calculateBitmapBitOffset :: "int \<Rightarrow> int" where
  "calculateBitmapBitOffset bitIndex = bitIndex mod int BITMAP_CHUNK_BITS"

definition getBitmapLeafChunkBytes :: "bool list \<Rightarrow> nat \<Rightarrow> byte list" where
  "getBitmapLeafChunkBytes bitmap leafIndex =
     (let startBit = leafIndex * BITMAP_CHUNK_BITS;
          endBit = min (startBit + BITMAP_CHUNK_BITS) (length bitmap)
      in fold (\<lambda>i chunk. if bitmap ! i then set_bit_at (i - startBit) chunk else chunk)
           [startBit..<endBit] (replicate BITMAP_CHUNK_BYTES 0))"

definition getBitmapLeafChunkHex :: "noble \<Rightarrow> bool list \<Rightarrow> nat \<Rightarrow> string" where
  "getBitmapLeafChunkHex N bitmap leafIndex = bytesToHex N (getBitmapLeafChunkBytes bitmap leafIndex)"

definition isBitmapChunkHex :: "string \<Rightarrow> bool" where
  "isBitmapChunkHex chunkHex = (length chunkHex = 64 \<and> list_all is_hex_char chunkHex)"

definition extractBitFromBitmapChunkBytes :: "byte list \<Rightarrow> int \<Rightarrow> bitmap_error + bool" where
  "extractBitFromBitmapChunkBytes chunk bitOffset =
     (if bitOffset < 0 \<or> bitOffset \<ge> int BITMAP_CHUNK_BITS then Inl BitOffsetOutOfRange
      else if nat (bitOffset div 8) \<ge> length chunk then Inl ByteMissing
      else Inr ((chunk ! nat (bitOffset div 8)) AND push_bit (nat (bitOffset mod 8)) 1 \<noteq> 0))"

definition bitmap_hexToBytes :: "noble \<Rightarrow> string \<Rightarrow> bitmap_error + byte list" where
  "bitmap_hexToBytes N s = (case hexToBytes N s of Some bs \<Rightarrow> Inr bs | None \<Rightarrow> Inl BitmapHexRange)"

definition extractBitFromBitmapChunkHex :: "noble \<Rightarrow> string \<Rightarrow> int \<Rightarrow> bitmap_error + bool" where
  "extractBitFromBitmapChunkHex N chunkHex bitOffset =
     (if \<not> isBitmapChunkHex chunkHex then Inl InvalidChunkFormat
      else res_bind (bitmap_hexToBytes N chunkHex) (\<lambda>bs. extractBitFromBitmapChunkBytes bs bitOffset))"

definition hashBitmapLeafChunkHex :: "noble \<Rightarrow> string \<Rightarrow> bitmap_error + string" where
  "hashBitmapLeafChunkHex N chunkHex =
     (if \<not> isBitmapChunkHex chunkHex then Inl InvalidChunkFormat
      else res_bind (bitmap_hexToBytes N chunkHex) (\<lambda>bs. Inr (bytesToHex N (hashBitmapLeafChunk N bs))))"

definition hashBitmapInternalNodeHex :: "noble \<Rightarrow> string \<Rightarrow> string \<Rightarrow> bitmap_error + string" where
  "hashBitmapInternalNodeHex N leftHex rightHex =
     (if \<not> isBitmapChunkHex leftHex \<or> \<not> isBitmapChunkHex rightHex then Inl InvalidNodeFormat
      else res_bind (bitmap_hexToBytes N leftHex) (\<lambda>l.
           res_bind (bitmap_hexToBytes N rightHex) (\<lambda>r. Inr (bytesToHex N (hashBitmapInternalNode N l r)))))"

definition buildBitmapMerkleTreeHexLevels :: "noble \<Rightarrow> bool list \<Rightarrow> string list list" where
  "buildBitmapMerkleTreeHexLevels N bitmap =
     map (map (bytesToHex N)) (buildBitmapMerkleTreeByteLevels N (bitmap_leaves N bitmap))"

section \<open>bitmap-proof-types.ts\<close>

definition asBitmapBitIndex :: "jsnum \<Rightarrow> bitmap_error + int" where
  "asBitmapBitIndex v = (if \<not> isSafeInteger v \<or> num_lt v (js_int 0) then Inl BadBitIndex else Inr (to_int v))"

definition asAuthenticatedBitmapTreeSize :: "jsnum \<Rightarrow> bitmap_error + int" where
  "asAuthenticatedBitmapTreeSize v = (if \<not> isSafeInteger v \<or> num_le v (js_int 0) then Inl BadTreeSize else Inr (to_int v))"

definition asBitmapLeafIndex :: "jsnum \<Rightarrow> bitmap_error + int" where
  "asBitmapLeafIndex v = (if \<not> isSafeInteger v \<or> num_lt v (js_int 0) then Inl BadLeafIndex else Inr (to_int v))"

definition asBitmapBitOffset :: "jsnum \<Rightarrow> bitmap_error + int" where
  "asBitmapBitOffset v =
     (if \<not> isSafeInteger v \<or> num_lt v (js_int 0) \<or> num_le (js_int 256) v then Inl BadBitOffset else Inr (to_int v))"

definition asBitmapRoot :: "string \<Rightarrow> bitmap_error + string" where
  "asBitmapRoot v =
     (if isBitmapChunkHex v \<or> (startsWith v ''0x'' \<and> isBitmapChunkHex (drop 2 v)) then Inr v else Inl BadRoot)"

datatype position = Left | Right

record path_node =
  node_hash :: string
  position :: position

record bitmap_proof =
  leafChunk :: string
  auditPath :: "path_node list"

record bitmap_result =
  valid :: bool
  included :: bool
  res_leafIndex :: int
  res_bitOffset :: int

record proof_context =
  bitIndex :: int
  ctx_treeSize :: int
  expectedRoot :: string

section \<open>bitmap-merkle-tree.ts\<close>

text \<open>The loop over the levels below the root; a missing sibling is an unpaired node.\<close>

fun audit_path :: "string list list \<Rightarrow> nat \<Rightarrow> path_node list" where
  "audit_path (lv # lv' # rest) i =
     (let isLeft = (i mod 2 = 0); sib = (if isLeft then i + 1 else i - 1)
      in (if sib < length lv \<and> lv ! sib \<noteq> [] then [\<lparr>node_hash = lv ! sib, position = (if isLeft then Right else Left)\<rparr>] else []) @
         audit_path (lv' # rest) (i div 2))"
| "audit_path _ i = []"

definition generateBitmapMerkleProof :: "noble \<Rightarrow> bool list \<Rightarrow> int \<Rightarrow> bitmap_error + (bitmap_proof \<times> int \<times> int)" where
  "generateBitmapMerkleProof N bitmap pos =
     (if length bitmap = 0 then Inl EmptyBitmap
      else if pos < 0 \<or> pos \<ge> int (length bitmap) then Inl BitIndexOutOfRange
      else let li = calculateBitmapLeafIndex pos
           in Inr (\<lparr>leafChunk = getBitmapLeafChunkHex N bitmap (nat li),
                    auditPath = audit_path (buildBitmapMerkleTreeHexLevels N bitmap) (nat li)\<rparr>, li, pos))"

function deriveAuditPathPositions :: "nat \<Rightarrow> nat \<Rightarrow> position list" where
  "deriveAuditPathPositions i n =
     (if n > 1 then
        (let sib = (if i mod 2 = 0 then i + 1 else i - 1)
         in (if sib < n then [if i mod 2 = 0 then Right else Left] else []) @
            deriveAuditPathPositions (i div 2) ((n + 1) div 2))
      else [])"
  by auto
termination by (relation "measure (\<lambda>(i, n). n)") auto

declare deriveAuditPathPositions.simps [simp del]

definition isValidAuthenticatedTreeShape :: "int \<Rightarrow> int \<Rightarrow> int \<Rightarrow> path_node list \<Rightarrow> bool" where
  "isValidAuthenticatedTreeShape ts pos li path =
     (if \<bar>ts\<bar> > MAX_SAFE_INTEGER \<or> ts \<le> 0 then False
      else if pos \<ge> ts then False
      else let leafCount = (ts + 255) div 256
           in if li \<ge> leafCount then False
              else let expected = deriveAuditPathPositions (nat li) (nat leafCount)
                   in if length path \<noteq> length expected then False
                      else list_all2 (\<lambda>n p. position n = p) path expected)"

fun padding_zero :: "noble \<Rightarrow> string \<Rightarrow> int list \<Rightarrow> bitmap_error + bool" where
  "padding_zero N chunk [] = Inr True"
| "padding_zero N chunk (off # offs) =
     res_bind (extractBitFromBitmapChunkHex N chunk off) (\<lambda>b. if b then Inr False else padding_zero N chunk offs)"

definition hasZeroUnusedPadding :: "noble \<Rightarrow> string \<Rightarrow> int \<Rightarrow> int \<Rightarrow> bitmap_error + bool" where
  "hasZeroUnusedPadding N chunkHex ts li =
     (let leafCount = (ts + 255) div 256
      in if li \<noteq> leafCount - 1 then Inr True
         else let used = ts mod 256
              in if used = 0 then Inr True else padding_zero N chunkHex (map int [nat used..<256]))"

definition invalidBitmapResult :: "int \<Rightarrow> int \<Rightarrow> bitmap_result" where
  "invalidBitmapResult li bo = \<lparr>valid = False, included = False, res_leafIndex = li, res_bitOffset = bo\<rparr>"

text \<open>The climb from the leaf to the root: \<open>Inr None\<close> when a node of the path is not a hash.\<close>

fun climb :: "noble \<Rightarrow> path_node list \<Rightarrow> string \<Rightarrow> bitmap_error + string option" where
  "climb N [] h = Inr (Some h)"
| "climb N (n # ns) h =
     (if \<not> isBitmapChunkHex (node_hash n) then Inr None
      else case position n of
             Left \<Rightarrow> res_bind (hashBitmapInternalNodeHex N (node_hash n) h) (climb N ns)
           | Right \<Rightarrow> res_bind (hashBitmapInternalNodeHex N h (node_hash n)) (climb N ns))"

definition verifyBitmapMerkleProof ::
  "noble \<Rightarrow> string \<Rightarrow> path_node list \<Rightarrow> proof_context \<Rightarrow> bitmap_error + bitmap_result" where
  "verifyBitmapMerkleProof N chunk path ctx =
     res_bind (asBitmapLeafIndex (js_int (calculateBitmapLeafIndex (bitIndex ctx)))) (\<lambda>li.
     res_bind (asBitmapBitOffset (js_int (calculateBitmapBitOffset (bitIndex ctx)))) (\<lambda>bo.
     if \<not> isValidAuthenticatedTreeShape (ctx_treeSize ctx) (bitIndex ctx) li path then Inr (invalidBitmapResult li bo)
     else if \<not> isBitmapChunkHex chunk then Inr (invalidBitmapResult li bo)
     else res_bind (hasZeroUnusedPadding N chunk (ctx_treeSize ctx) li) (\<lambda>zero.
       if \<not> zero then Inr (invalidBitmapResult li bo)
       else res_bind (extractBitFromBitmapChunkHex N chunk bo) (\<lambda>inc.
            res_bind (hashBitmapLeafChunkHex N chunk) (\<lambda>h0.
            res_bind (climb N path h0) (\<lambda>r.
              case r of
                None \<Rightarrow> Inr \<lparr>valid = False, included = inc, res_leafIndex = li, res_bitOffset = bo\<rparr>
              | Some h \<Rightarrow>
                  (let computedRoot = ''0x'' @ h;
                       normalizedExpected = (if startsWith (expectedRoot ctx) ''0x'' then expectedRoot ctx
                                             else ''0x'' @ expectedRoot ctx)
                   in Inr \<lparr>valid = (computedRoot = normalizedExpected), included = inc,
                           res_leafIndex = li, res_bitOffset = bo\<rparr>)))))))"

definition buildAuthenticatedBitmapProofContext ::
  "jsnum \<Rightarrow> jsnum \<Rightarrow> string \<Rightarrow> bitmap_error + proof_context" where
  "buildAuthenticatedBitmapProofContext pos ts bmRoot =
     res_bind (asBitmapBitIndex pos) (\<lambda>b.
     res_bind (asAuthenticatedBitmapTreeSize ts) (\<lambda>t.
     res_bind (asBitmapRoot bmRoot) (\<lambda>r. Inr \<lparr>bitIndex = b, ctx_treeSize = t, expectedRoot = r\<rparr>)))"

section \<open>bitmap-verifier.ts\<close>

definition safe_position :: "jsnum \<Rightarrow> int" where
  "safe_position pos = (if isSafeInteger pos \<and> num_le (js_int 0) pos then to_int pos else 0)"

definition safeLeafIndexForResult :: "jsnum \<Rightarrow> bitmap_error + int" where
  "safeLeafIndexForResult pos = asBitmapLeafIndex (js_int (calculateBitmapLeafIndex (safe_position pos)))"

definition safeBitOffsetForResult :: "jsnum \<Rightarrow> bitmap_error + int" where
  "safeBitOffsetForResult pos = asBitmapBitOffset (js_int (calculateBitmapBitOffset (safe_position pos)))"

definition verifyBitmapProof :: "noble \<Rightarrow> bitmap_proof \<Rightarrow> jsnum \<Rightarrow> string \<Rightarrow> jsnum \<Rightarrow> bitmap_error + bitmap_result" where
  "verifyBitmapProof N p pos bmRoot ts =
     (case buildAuthenticatedBitmapProofContext pos ts bmRoot of
        Inl _ \<Rightarrow>
          res_bind (safeLeafIndexForResult pos) (\<lambda>li.
          res_bind (safeBitOffsetForResult pos) (\<lambda>bo. Inr (invalidBitmapResult li bo)))
      | Inr ctx \<Rightarrow> verifyBitmapMerkleProof N (leafChunk p) (auditPath p) ctx)"

definition verifyAdmittedBitmapProof :: "noble \<Rightarrow> jsnum \<Rightarrow> string \<Rightarrow> bitmap_proof \<Rightarrow> jsnum \<Rightarrow> bitmap_error + bitmap_result" where
  "verifyAdmittedBitmapProof N myIndex bmRoot p ts =
     res_bind (asBitmapBitIndex myIndex) (\<lambda>b.
     res_bind (asAuthenticatedBitmapTreeSize ts) (\<lambda>t. verifyBitmapProof N p (js_int b) bmRoot (js_int t)))"

text \<open>The privacy notice of the result is a constant text and is left out.\<close>

definition verifyMyVoteWasCounted :: "noble \<Rightarrow> jsnum \<Rightarrow> string \<Rightarrow> bitmap_proof \<Rightarrow> jsnum \<Rightarrow> bitmap_error + bitmap_result" where
  "verifyMyVoteWasCounted N myIndex bmRoot p ts = verifyAdmittedBitmapProof N myIndex bmRoot p ts"

datatype vote_inclusion_status = counted | presented_but_invalid | not_presented | unknown_excluded

record explained_result = bitmap_result +
  seen :: "bool option"
  statusDetail :: vote_inclusion_status

definition explain :: "bitmap_result \<Rightarrow> bool option \<Rightarrow> vote_inclusion_status \<Rightarrow> explained_result" where
  "explain r s d = \<lparr>valid = valid r, included = included r, res_leafIndex = res_leafIndex r,
     res_bitOffset = res_bitOffset r, seen = s, statusDetail = d\<rparr>"

definition explainVoteInclusionStatus ::
  "noble \<Rightarrow> jsnum \<Rightarrow> string \<Rightarrow> string option \<Rightarrow> bitmap_proof \<Rightarrow> bitmap_proof option \<Rightarrow> jsnum \<Rightarrow> bitmap_error + explained_result" where
  "explainVoteInclusionStatus N myIndex includedRoot seenRoot includedProof seenProof ts =
     res_bind (verifyMyVoteWasCounted N myIndex includedRoot includedProof ts) (\<lambda>r.
     if \<not> valid r then Inr (explain r None unknown_excluded)
     else if included r then Inr (explain r (Some True) counted)
     else (case seenRoot of
             None \<Rightarrow> Inr (explain r None unknown_excluded)
           | Some sr \<Rightarrow>
               if sr = [] then Inr (explain r None unknown_excluded)
               else (case seenProof of
                       None \<Rightarrow> Inr (explain r None unknown_excluded)
                     | Some sp \<Rightarrow>
                         res_bind (verifyAdmittedBitmapProof N myIndex sr sp ts) (\<lambda>s.
                           Inr (explain r (if valid s then Some (included s) else None)
                             (if valid s then (if included s then presented_but_invalid else not_presented)
                              else unknown_excluded))))))"

end
