(* ===== verification/BitmapProofs.thy ===== *)
theory BitmapProofs
  imports Bitmap
begin

text \<open>
  Correctness of the bitmap: the bits of packed bytes and of the chunks, the shape of the levels, and
  completeness and soundness of the proof of one bit.
\<close>

unbundle bit_operations_syntax

section \<open>Bits in bytes\<close>

definition chunk_bit :: "byte list \<Rightarrow> nat \<Rightarrow> bool" where
  "chunk_bit bytes i = bit (bytes ! (i div 8)) (i mod 8)"

lemma length_set_bit_at [simp]: "length (set_bit_at i bytes) = length bytes"
  by (simp add: set_bit_at_def)

lemma bit_or_push:
  fixes b :: byte
  assumes "k < 8" "m < 8"
  shows "bit (b OR 2 ^ k) m \<longleftrightarrow> bit b m \<or> m = k"
  using assms by (auto simp: bit_or_iff bit_exp_iff)

lemma chunk_bit_set_bit_at:
  assumes "i div 8 < length bytes" "j div 8 < length bytes"
  shows "chunk_bit (set_bit_at i bytes) j \<longleftrightarrow> chunk_bit bytes j \<or> j = i"
proof (cases "i div 8 = j div 8")
  case True
  then have "j = i \<longleftrightarrow> j mod 8 = i mod 8" by (metis div_mult_mod_eq)
  with True assms show ?thesis by (simp add: chunk_bit_def set_bit_at_def bit_or_push)
next
  case False
  with assms show ?thesis by (auto simp: chunk_bit_def set_bit_at_def)
qed

lemma fold_set_bits:
  assumes "\<forall>i \<in> set is. g i div 8 < length bytes" "j div 8 < length bytes"
  shows "length (fold (\<lambda>i c. if P i then set_bit_at (g i) c else c) is bytes) = length bytes \<and>
    (chunk_bit (fold (\<lambda>i c. if P i then set_bit_at (g i) c else c) is bytes) j \<longleftrightarrow>
     chunk_bit bytes j \<or> (\<exists>i \<in> set is. P i \<and> g i = j))"
  using assms
proof (induction "is" arbitrary: bytes)
  case (Cons i "is")
  then show ?case
    using Cons.IH [of "set_bit_at (g i) bytes"] Cons.IH [of bytes] chunk_bit_set_bit_at [of "g i" bytes j] by auto
qed simp

lemma length_fold_set_bits [simp]:
  "length (fold (\<lambda>i c. if P i then set_bit_at (g i) c else c) is bytes) = length bytes"
  by (induction "is" arbitrary: bytes) auto

lemma chunk_bit_replicate [simp]: "j div 8 < n \<Longrightarrow> \<not> chunk_bit (replicate n 0) j"
  by (simp add: chunk_bit_def)

lemma bytes_eqI:
  assumes "length xs = length ys" "\<And>j. j < 8 * length xs \<Longrightarrow> chunk_bit xs j = chunk_bit ys j"
  shows "xs = ys"
proof (rule nth_equalityI [OF assms(1)])
  fix i
  assume i: "i < length xs"
  show "xs ! i = ys ! i"
  proof (rule bit_word_eqI)
    fix m
    assume "m < LENGTH(8)"
    then have "m < 8" by simp
    with i assms(2) [of "8 * i + m"] show "bit (xs ! i) m = bit (ys ! i) m"
      by (simp add: chunk_bit_def)
  qed
qed

lemma length_pack [simp]: "length (packBitmapBitsToBytes bits) = (length bits + 7) div 8"
  by (simp add: packBitmapBitsToBytes_def)

lemma div8_less: "i < n \<Longrightarrow> i div 8 < (n + 7) div (8::nat)"
  using div_le_mono [of "i + 8" "n + 7" 8] by simp

lemma pack_bit:
  assumes "j div 8 < (length bits + 7) div 8"
  shows "chunk_bit (packBitmapBitsToBytes bits) j \<longleftrightarrow> j < length bits \<and> bits ! j"
proof -
  have "\<forall>i \<in> set [0..<length bits]. i div 8 < length (replicate ((length bits + 7) div 8) (0::byte))"
    by (simp add: div8_less)
  from fold_set_bits [OF this, of j "\<lambda>i. bits ! i"] assms show ?thesis
    by (auto simp: packBitmapBitsToBytes_def)
qed

section \<open>Chunks\<close>

lemma ceil_step: "0 < n \<Longrightarrow> Suc ((n - 32 + 31) div 32) = (n + 31) div (32::nat)"
proof (cases "n \<le> 32")
  case True
  assume "0 < n"
  with True have "(n + 31) div 32 = 1" by (intro div_nat_eqI) simp_all
  with True show ?thesis by simp
next
  case False
  then have "n + 31 = 32 + (n - 32 + 31)" by simp
  then show ?thesis by (metis div_add_self1 add.commute plus_1_eq_Suc zero_neq_numeral)
qed

lemma chunks_of_unfold:
  "chunks_of [] = []"
  "bytes \<noteq> [] \<Longrightarrow> chunks_of bytes = (let part = take 32 bytes in part @ replicate (32 - length part) 0) # chunks_of (drop 32 bytes)"
  by (simp_all add: chunks_of.simps [of "[]"] chunks_of.simps [of bytes] BITMAP_CHUNK_BYTES_def Let_def)

lemma chunks_of_length: "length (chunks_of bytes) = (length bytes + 31) div 32"
proof (induction bytes rule: chunks_of.induct)
  case (1 bytes)
  show ?case
  proof (cases "bytes = []")
    case False
    then have "length (chunks_of (drop 32 bytes)) = (length bytes - 32 + 31) div 32" using 1 by (simp add: BITMAP_CHUNK_BYTES_def)
    moreover have "0 < length bytes" using False by simp
    ultimately show ?thesis using False ceil_step [of "length bytes"] by (simp add: chunks_of_unfold)
  qed (simp add: chunks_of_unfold)
qed

lemma chunks_of_nth:
  "k < (length bytes + 31) div 32 \<Longrightarrow>
   chunks_of bytes ! k = (let part = take 32 (drop (32 * k) bytes) in part @ replicate (32 - length part) 0)"
proof (induction k arbitrary: bytes)
  case 0
  then have "bytes \<noteq> []" by auto
  then show ?case by (simp add: chunks_of_unfold)
next
  case (Suc k)
  have "bytes \<noteq> []" using Suc.prems by auto
  moreover have "k < (length (drop 32 bytes) + 31) div 32" using Suc.prems by simp
  ultimately show ?case using Suc.IH [of "drop 32 bytes"] by (simp add: chunks_of_unfold add.commute)
qed

text \<open>The number of chunks of a bitmap, and that a chunk computed directly is the chunk of the packed bytes.\<close>

lemma bitmap_leaf_count:
  assumes "0 < n"
  shows "((n + 7) div 8 + 31) div 32 = (n + 255) div (256::nat)" "0 < (n + 255) div (256::nat)"
proof -
  have "(n + 7) div 8 + 31 = (n + 255) div 8"
    using div_mult_self1 [of 8 "n + 7" 31] by simp
  then have "((n + 7) div 8 + 31) div 32 = (n + 255) div 8 div 32" by simp
  also have "\<dots> = (n + 255) div (8 * 32)" by (rule div_mult2_eq [symmetric])
  finally show "((n + 7) div 8 + 31) div 32 = (n + 255) div 256" by simp
  show "0 < (n + 255) div (256::nat)" using assms by (simp add: div_greater_zero_iff)
qed

lemma length_chunks:
  assumes "bitmap \<noteq> []"
  shows "length (splitBitmapBytesIntoChunks (packBitmapBitsToBytes bitmap)) = (length bitmap + 255) div 256"
proof -
  have "0 < length bitmap" using assms by simp
  from bitmap_leaf_count [OF this] show ?thesis
    by (simp add: splitBitmapBytesIntoChunks_def chunks_of_length Let_def del: length_0_conv)
qed

lemma pad_bit:
  assumes "j < 256" "length part \<le> 32"
  shows "chunk_bit (part @ replicate (32 - length part) 0) j \<longleftrightarrow> j div 8 < length part \<and> chunk_bit part j"
proof -
  have "j div 8 < 32" using assms(1) by simp
  with assms(2) show ?thesis by (auto simp: chunk_bit_def nth_append)
qed

lemma nth_chunks:
  assumes "bitmap \<noteq> []" "k < (length bitmap + 255) div 256"
  shows "splitBitmapBytesIntoChunks (packBitmapBitsToBytes bitmap) ! k =
    (let part = take 32 (drop (32 * k) (packBitmapBitsToBytes bitmap)) in part @ replicate (32 - length part) 0)"
proof -
  have "0 < length bitmap" using assms by simp
  from bitmap_leaf_count [OF this] assms(2) show ?thesis
    using chunks_of_nth [of k "packBitmapBitsToBytes bitmap"]
    by (simp add: splitBitmapBytesIntoChunks_def chunks_of_length Let_def del: length_0_conv)
qed

lemma length_leaf_chunk [simp]: "length (getBitmapLeafChunkBytes bitmap k) = 32"
  by (simp add: getBitmapLeafChunkBytes_def BITMAP_CHUNK_BYTES_def Let_def)

lemma leaf_chunk_bit:
  assumes "j < 256"
  shows "chunk_bit (getBitmapLeafChunkBytes bitmap k) j \<longleftrightarrow> 256 * k + j < length bitmap \<and> bitmap ! (256 * k + j)"
proof -
  let ?is = "[k * 256..<min (k * 256 + 256) (length bitmap)]"
  have "\<forall>i \<in> set ?is. (i - k * 256) div 8 < length (replicate 32 (0::byte))" by auto
  from fold_set_bits [OF this, of j "\<lambda>i. bitmap ! i"] assms
  have "chunk_bit (getBitmapLeafChunkBytes bitmap k) j \<longleftrightarrow> (\<exists>i \<in> set ?is. bitmap ! i \<and> i - k * 256 = j)"
    by (simp add: getBitmapLeafChunkBytes_def BITMAP_CHUNK_BYTES_def BITMAP_CHUNK_BITS_def Let_def)
  also have "\<dots> \<longleftrightarrow> 256 * k + j < length bitmap \<and> bitmap ! (256 * k + j)"
    using assms by (auto simp: mult.commute intro!: bexI [of _ "256 * k + j"])
  finally show ?thesis .
qed

lemma leaf_chunk_is_chunk:
  assumes "bitmap \<noteq> []" "k < (length bitmap + 255) div 256"
  shows "splitBitmapBytesIntoChunks (packBitmapBitsToBytes bitmap) ! k = getBitmapLeafChunkBytes bitmap k"
proof (rule bytes_eqI)
  let ?p = "packBitmapBitsToBytes bitmap"
  show len: "length (splitBitmapBytesIntoChunks ?p ! k) = length (getBitmapLeafChunkBytes bitmap k)"
    by (simp add: nth_chunks [OF assms] Let_def)
  fix j
  assume "j < 8 * length (splitBitmapBytesIntoChunks ?p ! k)"
  then have j: "j < 256" using len by simp
  let ?part = "take 32 (drop (32 * k) ?p)"
  have split: "(256 * k + j) div 8 = 32 * k + j div 8" "(256 * k + j) mod 8 = j mod 8"
    using div_mult_self3 [of 8 "32 * k" j] mod_mult_self3 [of "32 * k" 8 j] by simp_all
  have "j div 8 < 32" using j by simp
  then have eq: "j div 8 < length ?part \<longleftrightarrow> (256 * k + j) div 8 < (length bitmap + 7) div 8"
    by (simp add: split(1) less_diff_conv) (simp add: add.commute)
  have "chunk_bit (splitBitmapBytesIntoChunks ?p ! k) j \<longleftrightarrow> j div 8 < length ?part \<and> chunk_bit ?part j"
    using pad_bit [OF j, of ?part] by (simp add: nth_chunks [OF assms] Let_def)
  also have "\<dots> \<longleftrightarrow> (256 * k + j) div 8 < (length bitmap + 7) div 8 \<and> chunk_bit ?p (256 * k + j)"
  proof (cases "j div 8 < length ?part")
    case True
    then have "32 * k \<le> length ?p" by (cases "32 * k \<le> length ?p") simp_all
    with True have "?part ! (j div 8) = ?p ! (32 * k + j div 8)" by (simp add: nth_drop)
    with True eq show ?thesis by (simp add: chunk_bit_def split)
  qed (use eq in blast)
  also have "\<dots> \<longleftrightarrow> 256 * k + j < length bitmap \<and> bitmap ! (256 * k + j)"
    using pack_bit [of "256 * k + j" bitmap] div8_less [of "256 * k + j" "length bitmap"] by blast
  finally show "chunk_bit (splitBitmapBytesIntoChunks ?p ! k) j = chunk_bit (getBitmapLeafChunkBytes bitmap k) j"
    using leaf_chunk_bit [OF j] by simp
qed

lemma extract_bit:
  assumes "length chunk = 32" "0 \<le> off" "off < 256"
  shows "extractBitFromBitmapChunkBytes chunk off = Inr (chunk_bit chunk (nat off))"
proof -
  have "nat (off div 8) < 32" using assms(2,3) by auto
  moreover have "nat (off div 8) = nat off div 8" "nat (off mod 8) = nat off mod 8"
    using assms(2) by (simp_all add: nat_div_distrib nat_mod_distrib)
  ultimately show ?thesis
    using assms
    by (simp add: extractBitFromBitmapChunkBytes_def BITMAP_CHUNK_BITS_def chunk_bit_def and_exp_eq_0_iff_not_bit)
qed

section \<open>Levels\<close>

lemma next_level_nth:
  "i < (length xs + 1) div 2 \<Longrightarrow> next_level N xs ! i =
     (if 2 * i + 1 < length xs then hashBitmapInternalNode N (xs ! (2 * i)) (xs ! (2 * i + 1)) else xs ! (2 * i))"
proof (induction N xs arbitrary: i rule: next_level.induct)
  case (1 N l r rest)
  then show ?case by (cases i) auto
qed auto

lemma next_level_32:
  assumes "noble_ok N"
  shows "list_all (\<lambda>h. length h = 32) xs \<Longrightarrow> list_all (\<lambda>h. length h = 32) (next_level N xs)"
  using assms by (induction N xs rule: next_level.induct) (auto simp: hashBitmapInternalNode_def length_sha256)

text \<open>The root of a non-empty level.\<close>

definition tree_root :: "noble \<Rightarrow> byte list list \<Rightarrow> byte list" where
  "tree_root N xs = hd (last (level_loop N xs))"

lemma level_loop_ne [simp]: "level_loop N xs \<noteq> []"
  by (subst level_loop.simps) simp

lemma tree_root_single: "length xs = 1 \<Longrightarrow> tree_root N xs = xs ! 0"
  by (cases xs) (simp_all add: tree_root_def level_loop.simps)

lemma tree_root_step: "1 < length xs \<Longrightarrow> tree_root N xs = tree_root N (next_level N xs)"
  by (simp add: tree_root_def level_loop.simps [of N xs])

lemma level_induct [consumes 1, case_names single step]:
  assumes "xs \<noteq> []" "\<And>xs. length xs = 1 \<Longrightarrow> P xs" "\<And>xs. 1 < length xs \<Longrightarrow> P (next_level N xs) \<Longrightarrow> P xs"
  shows "P xs"
  using assms(1)
proof (induction "length xs" arbitrary: xs rule: less_induct)
  case less
  show ?case
  proof (cases "length xs = 1")
    case False
    then have "1 < length xs" using less.prems by (cases xs) auto
    moreover from this have "length (next_level N xs) < length xs" "next_level N xs \<noteq> []" by (auto simp flip: length_0_conv)
    ultimately show ?thesis using less.hyps assms(3) by blast
  qed (rule assms(2))
qed

lemma root_bytes:
  assumes "xs \<noteq> []"
  shows "computeBitmapMerkleRootBytes N xs = tree_root N xs"
proof -
  have "last (level_loop N xs) \<noteq> []"
    using assms
  proof (induction rule: level_induct [where N = N])
    case (single xs)
    then show ?case by (subst level_loop.simps) auto
  next
    case (step xs)
    then show ?case by (subst level_loop.simps) simp
  qed
  then show ?thesis
    using assms by (auto simp: computeBitmapMerkleRootBytes_def buildBitmapMerkleTreeByteLevels_def tree_root_def split: list.split)
qed

section \<open>The climb\<close>

lemma chunkHex_bytes:
  assumes "noble_ok N" "isBitmapChunkHex s"
  obtains bs where "bitmap_hexToBytes N s = Inr bs" "length bs = 32"
proof -
  from assms obtain bs where bs: "hexToBytes N s = Some bs"
    using hexToBytes_defined [OF assms(1), of s] by (auto simp: isBitmapChunkHex_def)
  moreover have "length s = 2 * length bs"
    using bytesToHex_hexToBytes [OF assms(1) bs] length_bytesToHex [OF assms(1), of bs] by (simp add: toLowerCase_def)
  ultimately show thesis using that assms(2) by (simp add: bitmap_hexToBytes_def isBitmapChunkHex_def)
qed

lemma hex_is_chunkHex [simp]:
  assumes "noble_ok N" "length bs = 32"
  shows "isBitmapChunkHex (bytesToHex N bs)" "bitmap_hexToBytes N (bytesToHex N bs) = Inr bs"
proof -
  have "list_all is_hex_char (bytesToHex N bs)"
    using lower_bytesToHex [OF assms(1), of bs] by (auto simp: list_all_iff is_lower_hex_hex)
  then show "isBitmapChunkHex (bytesToHex N bs)" "bitmap_hexToBytes N (bytesToHex N bs) = Inr bs"
    using assms by (simp_all add: isBitmapChunkHex_def length_bytesToHex bitmap_hexToBytes_def hexToBytes_bytesToHex)
qed

lemma nodeHex [simp]:
  assumes "noble_ok N" "length l = 32" "length r = 32"
  shows "hashBitmapInternalNodeHex N (bytesToHex N l) (bytesToHex N r) = Inr (bytesToHex N (hashBitmapInternalNode N l r))"
  using assms by (simp add: hashBitmapInternalNodeHex_def)

lemma length_node [simp]: "noble_ok N \<Longrightarrow> length (hashBitmapInternalNode N l r) = 32"
  by (simp add: hashBitmapInternalNode_def length_sha256)

text \<open>The levels above a level, and where an index goes.\<close>

lemma audit_path_step:
  assumes "1 < length xs"
  shows "audit_path (map (map (bytesToHex N)) (level_loop N xs)) i =
    (let sib = (if i mod 2 = 0 then i + 1 else i - 1)
     in (if sib < length xs \<and> bytesToHex N (xs ! sib) \<noteq> []
         then [\<lparr>node_hash = bytesToHex N (xs ! sib), position = (if i mod 2 = 0 then Right else Left)\<rparr>] else []) @
        audit_path (map (map (bytesToHex N)) (level_loop N (next_level N xs))) (i div 2))"
proof -
  obtain y ys where "level_loop N (next_level N xs) = y # ys" by (cases "level_loop N (next_level N xs)") auto
  then show ?thesis
    using assms by (subst level_loop.simps) (auto simp: Let_def)
qed

lemma audit_path_single: "length xs \<le> 1 \<Longrightarrow> audit_path (map (map (bytesToHex N)) (level_loop N xs)) i = []"
  by (subst level_loop.simps) simp

text \<open>One step up: the parent of the node at an index.\<close>

lemma parent_nth:
  assumes "i < length xs"
  shows "next_level N xs ! (i div 2) =
    (if i mod 2 = 0 then (if i + 1 < length xs then hashBitmapInternalNode N (xs ! i) (xs ! (i + 1)) else xs ! i)
     else hashBitmapInternalNode N (xs ! (i - 1)) (xs ! i))"
proof (cases "i mod 2 = 0")
  case True
  then have "2 * (i div 2) = i" by auto
  with assms True show ?thesis by (subst next_level_nth) auto
next
  case False
  then have "2 * (i div 2) = i - 1" "2 * (i div 2) + 1 = i" by presburger+
  with assms False show ?thesis by (subst next_level_nth) auto
qed

lemma positions_step:
  "1 < n \<Longrightarrow> deriveAuditPathPositions i n =
     (if (if i mod 2 = 0 then i + 1 else i - 1) < n then [if i mod 2 = 0 then Right else Left] else []) @
     deriveAuditPathPositions (i div 2) ((n + 1) div 2)"
  by (subst deriveAuditPathPositions.simps) (simp add: Let_def)

lemma climb_complete:
  assumes "noble_ok N" "xs \<noteq> []"
  shows "list_all (\<lambda>h. length h = 32) xs \<Longrightarrow> i < length xs \<Longrightarrow>
    climb N (audit_path (map (map (bytesToHex N)) (level_loop N xs)) i) (bytesToHex N (xs ! i)) =
      Inr (Some (bytesToHex N (tree_root N xs))) \<and>
    map position (audit_path (map (map (bytesToHex N)) (level_loop N xs)) i) = deriveAuditPathPositions i (length xs)"
  using assms(2)
proof (induction arbitrary: i rule: level_induct [where N = N])
  case (single xs)
  then show ?case by (simp add: audit_path_single tree_root_single deriveAuditPathPositions.simps)
next
  case (step xs)
  have l: "length (xs ! j) = 32" if "j < length xs" for j
    using step.prems(1) that by (simp add: list_all_length)
  have "i div 2 < length (next_level N xs)" using step.prems(2) by auto
  note IH = step.IH [OF next_level_32 [OF assms(1) step.prems(1)] this]
  let ?sib = "if i mod 2 = 0 then i + 1 else i - 1"
  have "bytesToHex N (xs ! ?sib) \<noteq> []" if "?sib < length xs"
    using l [OF that] assms(1) by (metis bytesToHex_Nil_iff list.size(3) zero_neq_numeral)
  then have path: "audit_path (map (map (bytesToHex N)) (level_loop N xs)) i =
     (if ?sib < length xs then [\<lparr>node_hash = bytesToHex N (xs ! ?sib), position = (if i mod 2 = 0 then Right else Left)\<rparr>] else []) @
        audit_path (map (map (bytesToHex N)) (level_loop N (next_level N xs))) (i div 2)"
    using audit_path_step [OF step.hyps, of N i] by (auto simp: Let_def)
  have sib_odd: "i - 1 < length xs" using step.prems(2) by simp
  show ?case
    using IH l step.prems(2) sib_odd assms(1)
    by (cases "i mod 2 = 0"; cases "i + 1 < length xs")
      (simp_all add: path tree_root_step [OF step.hyps] positions_step [OF step.hyps] parent_nth [OF step.prems(2)])
qed

section \<open>Soundness of the climb\<close>

text \<open>The byte strings hashed when climbing, and when building the levels.\<close>

definition hex_bytes :: "noble \<Rightarrow> string \<Rightarrow> byte list" where
  "hex_bytes N s = (case bitmap_hexToBytes N s of Inr bs \<Rightarrow> bs | Inl _ \<Rightarrow> [])"

fun climb_preimages :: "noble \<Rightarrow> path_node list \<Rightarrow> byte list \<Rightarrow> byte list list" where
  "climb_preimages N [] h = []"
| "climb_preimages N (n # ns) h =
     (let p = (case position n of Left \<Rightarrow> 1 # hex_bytes N (node_hash n) @ h | Right \<Rightarrow> 1 # h @ hex_bytes N (node_hash n))
      in p # climb_preimages N ns (sha256 N p))"

fun pair_preimages :: "byte list list \<Rightarrow> byte list list" where
  "pair_preimages (l # r # rest) = (1 # l @ r) # pair_preimages rest"
| "pair_preimages _ = []"

function level_preimages :: "noble \<Rightarrow> byte list list \<Rightarrow> byte list list" where
  "level_preimages N xs = (if length xs > 1 then pair_preimages xs @ level_preimages N (next_level N xs) else [])"
  by auto
termination by (relation "measure (\<lambda>(N, xs). length xs)") auto

declare level_preimages.simps [simp del]

lemma pair_in_preimages: "2 * k + 1 < length xs \<Longrightarrow> 1 # xs ! (2 * k) @ xs ! (2 * k + 1) \<in> set (pair_preimages xs)"
proof (induction xs arbitrary: k rule: pair_preimages.induct)
  case (1 l r rest)
  then show ?case by (cases k) auto
qed auto

lemma climb_Cons:
  assumes "noble_ok N" "length hb = 32" "climb N (n # ns) (bytesToHex N hb) = Inr (Some h)"
  shows "length (hex_bytes N (node_hash n)) = 32"
    "climb N ns (bytesToHex N (case position n of
        Left \<Rightarrow> hashBitmapInternalNode N (hex_bytes N (node_hash n)) hb
      | Right \<Rightarrow> hashBitmapInternalNode N hb (hex_bytes N (node_hash n)))) = Inr (Some h)"
proof -
  have hex: "isBitmapChunkHex (node_hash n)" using assms(3) by (auto split: if_splits)
  from chunkHex_bytes [OF assms(1) this] obtain bs where bs: "bitmap_hexToBytes N (node_hash n) = Inr bs" "length bs = 32" .
  then show "length (hex_bytes N (node_hash n)) = 32" by (simp add: hex_bytes_def)
  show "climb N ns (bytesToHex N (case position n of
        Left \<Rightarrow> hashBitmapInternalNode N (hex_bytes N (node_hash n)) hb
      | Right \<Rightarrow> hashBitmapInternalNode N hb (hex_bytes N (node_hash n)))) = Inr (Some h)"
    using assms hex bs by (cases "position n") (simp_all add: hashBitmapInternalNodeHex_def hex_bytes_def)
qed

text \<open>Two internal nodes with the same hash have the same children, or their preimages collide.\<close>

lemma node_eq:
  assumes "hashBitmapInternalNode N a b = hashBitmapInternalNode N c d" "length a = length c"
    "1 # a @ b \<in> set ps" "1 # c @ d \<in> set qs"
  shows "a = c \<and> b = d \<or> collides N ps qs"
  using collidesI [OF assms(3,4)] assms(1,2) by (auto simp: hashBitmapInternalNode_def)

lemma climb_sound:
  assumes "noble_ok N" "xs \<noteq> []"
  shows "list_all (\<lambda>h. length h = 32) xs \<Longrightarrow> i < length xs \<Longrightarrow> length hb = 32 \<Longrightarrow>
    map position ns = deriveAuditPathPositions i (length xs) \<Longrightarrow>
    climb N ns (bytesToHex N hb) = Inr (Some (bytesToHex N (tree_root N xs))) \<Longrightarrow>
    hb = xs ! i \<or> collides N (climb_preimages N ns hb) (level_preimages N xs)"
  using assms(2)
proof (induction arbitrary: i hb ns rule: level_induct [where N = N])
  case (single xs)
  then have "ns = []" "i = 0" by (simp_all add: deriveAuditPathPositions.simps)
  with single assms(1) show ?case by (simp add: tree_root_single)
next
  case (step xs)
  let ?sib = "if i mod 2 = 0 then i + 1 else i - 1" and ?qs = "level_preimages N xs"
  have l: "length (xs ! j) = 32" if "j < length xs" for j
    using step.prems(1) that by (simp add: list_all_length)
  have up: "i div 2 < length (next_level N xs)" using step.prems(2) by auto
  have qs: "?qs = pair_preimages xs @ level_preimages N (next_level N xs)"
    using step.hyps by (simp add: level_preimages.simps)
  note IH = step.IH [OF next_level_32 [OF assms(1) step.prems(1)] up]
  note par = parent_nth [OF step.prems(2), of N]
  show ?case
  proof (cases "?sib < length xs")
    case False
    then have even: "i mod 2 = 0" "\<not> i + 1 < length xs" using step.prems(2) by (auto split: if_splits)
    then have "map position ns = deriveAuditPathPositions (i div 2) (length (next_level N xs))"
      using step.prems(4) positions_step [OF step.hyps, of i] by simp
    from IH [OF step.prems(3) this] step.prems(5) tree_root_step [OF step.hyps]
    have "hb = next_level N xs ! (i div 2) \<or> collides N (climb_preimages N ns hb) (level_preimages N (next_level N xs))" by simp
    with even par collides_mono [of N "climb_preimages N ns hb" "level_preimages N (next_level N xs)" "climb_preimages N ns hb" ?qs]
    show ?thesis by (auto simp: qs)
  next
    case True
    then obtain n ns' where ns: "ns = n # ns'" "position n = (if i mod 2 = 0 then Right else Left)"
      "map position ns' = deriveAuditPathPositions (i div 2) (length (next_level N xs))"
      using step.prems(4) positions_step [OF step.hyps, of i] by (cases ns) auto
    let ?s = "hex_bytes N (node_hash n)"
    define p where "p = (if i mod 2 = 0 then 1 # hb @ ?s else 1 # ?s @ hb)"
    have pre: "climb_preimages N ns hb = p # climb_preimages N ns' (sha256 N p)"
      by (simp add: ns(1,2) p_def Let_def)
    have c: "length ?s = 32" "climb N ns' (bytesToHex N (sha256 N p)) = Inr (Some (bytesToHex N (tree_root N (next_level N xs))))"
      using climb_Cons [OF assms(1) step.prems(3), of n ns'] step.prems(5) ns tree_root_step [OF step.hyps]
      by (auto simp: p_def hashBitmapInternalNode_def split: if_splits)
    from IH [OF _ ns(3) c(2)] have
      "sha256 N p = next_level N xs ! (i div 2) \<or> collides N (climb_preimages N ns' (sha256 N p)) (level_preimages N (next_level N xs))"
      using assms(1) by (simp add: length_sha256)
    moreover have "hb = xs ! i \<or> collides N (climb_preimages N ns hb) ?qs" if eq: "sha256 N p = next_level N xs ! (i div 2)"
    proof (cases "i mod 2 = 0")
      case even: True
      then have "2 * (i div 2) = i" by auto
      then have "1 # xs ! i @ xs ! (i + 1) \<in> set ?qs"
        using pair_in_preimages [of "i div 2" xs] True even by (simp add: qs)
      with even True eq par step.prems(2,3) l show ?thesis
        using node_eq [of N hb ?s "xs ! i" "xs ! (i + 1)" "climb_preimages N ns hb" ?qs]
        by (auto simp: pre p_def hashBitmapInternalNode_def)
    next
      case odd: False
      then have "2 * (i div 2) = i - 1" "2 * (i div 2) + 1 = i" by presburger+
      then have "1 # xs ! (i - 1) @ xs ! i \<in> set ?qs"
        using pair_in_preimages [of "i div 2" xs] step.prems(2) by (simp add: qs)
      with odd True eq par step.prems(2,3) l c(1) show ?thesis
        using node_eq [of N ?s hb "xs ! (i - 1)" "xs ! i" "climb_preimages N ns hb" ?qs]
        by (auto simp: pre p_def hashBitmapInternalNode_def)
    qed
    moreover have "collides N (climb_preimages N ns hb) ?qs"
      if "collides N (climb_preimages N ns' (sha256 N p)) (level_preimages N (next_level N xs))"
      using that by (rule collides_mono) (auto simp: pre qs)
    ultimately show ?thesis by blast
  qed
qed

section \<open>The proof of one bit\<close>

lemma bitmap_leaves_facts:
  assumes "noble_ok N" "bitmap \<noteq> []"
  shows "length (bitmap_leaves N bitmap) = (length bitmap + 255) div 256" "bitmap_leaves N bitmap \<noteq> []"
    "list_all (\<lambda>h. length h = 32) (bitmap_leaves N bitmap)"
    "k < (length bitmap + 255) div 256 \<Longrightarrow> bitmap_leaves N bitmap ! k = hashBitmapLeafChunk N (getBitmapLeafChunkBytes bitmap k)"
proof -
  show len: "length (bitmap_leaves N bitmap) = (length bitmap + 255) div 256"
    using length_chunks [OF assms(2)] by (simp add: bitmap_leaves_def)
  have "0 < (length bitmap + 255) div 256" using bitmap_leaf_count(2) assms(2) by simp
  with len show "bitmap_leaves N bitmap \<noteq> []" by force
  show "list_all (\<lambda>h. length h = 32) (bitmap_leaves N bitmap)"
    using assms(1) by (simp add: bitmap_leaves_def list_all_iff hashBitmapLeafChunk_def length_sha256)
  show "k < (length bitmap + 255) div 256 \<Longrightarrow> bitmap_leaves N bitmap ! k = hashBitmapLeafChunk N (getBitmapLeafChunkBytes bitmap k)"
    using length_chunks [OF assms(2)] leaf_chunk_is_chunk [OF assms(2)] by (simp add: bitmap_leaves_def)
qed

lemma root_hex:
  assumes "noble_ok N" "bitmap \<noteq> []"
  shows "computeIncludedBitmapRootHex N bitmap = ''0x'' @ bytesToHex N (tree_root N (bitmap_leaves N bitmap))"
  using root_bytes bitmap_leaves_facts(2) [OF assms] by (simp add: computeIncludedBitmapRootHex_def)

lemma tree_root_32:
  assumes "noble_ok N" "xs \<noteq> []"
  shows "list_all (\<lambda>h. length h = 32) xs \<Longrightarrow> length (tree_root N xs) = 32"
  using assms(2)
proof (induction rule: level_induct [where N = N])
  case (single xs)
  then show ?case by (simp add: tree_root_single list_all_length)
next
  case (step xs)
  then show ?case using next_level_32 [OF assms(1)] tree_root_step [OF step.hyps] by simp
qed

lemma index_in_tree: "i < n \<Longrightarrow> i div 256 < (n + 255) div (256::nat)"
  using div_le_mono [of "i + 256" "n + 255" 256] by simp

lemma context_of_ints:
  assumes "0 \<le> i" "i \<le> MAX_SAFE_INTEGER" "0 < n" "n \<le> MAX_SAFE_INTEGER" "asBitmapRoot r = Inr r"
  shows "buildAuthenticatedBitmapProofContext (js_int i) (js_int n) r = Inr \<lparr>bitIndex = i, ctx_treeSize = n, expectedRoot = r\<rparr>"
  using assms
  by (simp add: buildAuthenticatedBitmapProofContext_def asBitmapBitIndex_def asAuthenticatedBitmapTreeSize_def num_le_def js_int_def)

lemma branded_positions:
  assumes "0 \<le> i" "i \<le> MAX_SAFE_INTEGER"
  shows "asBitmapLeafIndex (js_int (calculateBitmapLeafIndex i)) = Inr (i div 256)"
    "asBitmapBitOffset (js_int (calculateBitmapBitOffset i)) = Inr (i mod 256)"
proof -
  have "0 \<le> i div 256" "i div 256 \<le> i" using assms(1) by presburger+
  then show "asBitmapLeafIndex (js_int (calculateBitmapLeafIndex i)) = Inr (i div 256)"
    using assms by (simp add: asBitmapLeafIndex_def calculateBitmapLeafIndex_def BITMAP_CHUNK_BITS_def)
  have "asBitmapBitOffset (js_int m) = Inr m" if "0 \<le> m" "m < 256" for m
    using that by (auto simp: asBitmapBitOffset_def num_le_def MAX_SAFE_INTEGER_def js_int_def)
  from this [of "i mod 256"] show "asBitmapBitOffset (js_int (calculateBitmapBitOffset i)) = Inr (i mod 256)"
    by (simp add: calculateBitmapBitOffset_def BITMAP_CHUNK_BITS_def)
qed

lemma padding_zero_True:
  "(\<And>off. off \<in> set offs \<Longrightarrow> extractBitFromBitmapChunkHex N c off = Inr False) \<Longrightarrow> padding_zero N c offs = Inr True"
  by (induction offs) auto

lemma extract_hex:
  assumes "noble_ok N" "length bs = 32" "0 \<le> off" "off < 256"
  shows "extractBitFromBitmapChunkHex N (bytesToHex N bs) off = Inr (chunk_bit bs (nat off))"
  using assms extract_bit by (simp add: extractBitFromBitmapChunkHex_def)

lemma ceil256:
  assumes "n mod 256 \<noteq> (0::nat)"
  shows "(n + 255) div 256 = Suc (n div 256)"
proof -
  define q r where "q = n div 256" and "r = n mod 256"
  then have n: "n = 256 * q + r" "0 < r" "r < 256" using assms by simp_all
  have "(256 * q + r + 255) div 256 = Suc q" using n(2,3) by (intro div_nat_eqI) simp_all
  with n(1) show ?thesis by (simp add: q_def)
qed

lemma padding_of_chunk:
  assumes "noble_ok N" "i < length bitmap"
  shows "hasZeroUnusedPadding N (bytesToHex N (getBitmapLeafChunkBytes bitmap (i div 256))) (int (length bitmap)) (int (i div 256)) = Inr True"
proof (cases "int (i div 256) = (int (length bitmap) + 255) div 256 - 1 \<and> int (length bitmap) mod 256 \<noteq> 0")
  case True
  let ?k = "i div 256" and ?n = "length bitmap"
  have r: "?n mod 256 \<noteq> 0" using True by (simp flip: of_nat_mod [where 'a = int, of _ 256, simplified])
  have "int ((?n + 255) div 256) = (int ?n + 255) div 256" by (simp add: zdiv_int)
  moreover have "(?n + 255) div 256 = Suc (?n div 256)" using ceil256 [OF r] .
  ultimately have "?k = ?n div 256" using True by linarith
  then have k: "256 * ?k + ?n mod 256 = ?n" by simp
  have zeros: "extractBitFromBitmapChunkHex N (bytesToHex N (getBitmapLeafChunkBytes bitmap ?k)) off = Inr False"
    if "off \<in> set (map int [nat (int ?n mod 256)..<256])" for off
  proof -
    have off: "0 \<le> off" "off < 256" "?n mod 256 \<le> nat off" using that by (auto simp: nat_mod_distrib)
    then have "\<not> 256 * ?k + nat off < ?n" using k by linarith
    then show ?thesis using extract_hex [OF assms(1) length_leaf_chunk off(1,2)] leaf_chunk_bit [of "nat off" bitmap ?k] off by simp
  qed
  have "padding_zero N (bytesToHex N (getBitmapLeafChunkBytes bitmap ?k)) (map int [nat (int ?n mod 256)..<256]) = Inr True"
    by (rule padding_zero_True) (rule zeros)
  with True show ?thesis by (simp add: hasZeroUnusedPadding_def Let_def)
qed (auto simp: hasZeroUnusedPadding_def Let_def)

lemma shape_int: "nat ((int n + 255) div 256) = (n + 255) div 256"
  by (metis nat_int of_nat_add of_nat_numeral zdiv_int)

text \<open>The parts of the generated proof, and that each passes its check.\<close>

definition generated_path :: "noble \<Rightarrow> bool list \<Rightarrow> nat \<Rightarrow> path_node list" where
  "generated_path N bitmap i = audit_path (map (map (bytesToHex N)) (level_loop N (bitmap_leaves N bitmap))) (i div 256)"

lemma leaf_index_int: "calculateBitmapLeafIndex (int i) = int (i div 256)"
  by (simp add: calculateBitmapLeafIndex_def BITMAP_CHUNK_BITS_def zdiv_int)

lemma generated_proof:
  assumes "noble_ok N" "i < length bitmap"
  shows "generateBitmapMerkleProof N bitmap (int i) =
      Inr (\<lparr>leafChunk = bytesToHex N (getBitmapLeafChunkBytes bitmap (i div 256)), auditPath = generated_path N bitmap i\<rparr>,
           int (i div 256), int i)"
proof -
  have ne: "bitmap \<noteq> []" using assms(2) by auto
  have "\<not> (int i < 0 \<or> int (length bitmap) \<le> int i)" using assms(2) by simp
  then show ?thesis
    using bitmap_leaves_facts(2) [OF assms(1) ne]
    by (simp add: generateBitmapMerkleProof_def leaf_index_int getBitmapLeafChunkHex_def buildBitmapMerkleTreeHexLevels_def
        buildBitmapMerkleTreeByteLevels_def ne generated_path_def)
qed

lemma generated_climb:
  assumes "noble_ok N" "i < length bitmap"
  shows "climb N (generated_path N bitmap i) (bytesToHex N (hashBitmapLeafChunk N (getBitmapLeafChunkBytes bitmap (i div 256)))) =
      Inr (Some (bytesToHex N (tree_root N (bitmap_leaves N bitmap))))"
    "map position (generated_path N bitmap i) = deriveAuditPathPositions (i div 256) ((length bitmap + 255) div 256)"
proof -
  have ne: "bitmap \<noteq> []" using assms(2) by auto
  note ls = bitmap_leaves_facts [OF assms(1) ne]
  have k: "i div 256 < (length bitmap + 255) div 256" by (rule index_in_tree [OF assms(2)])
  then show "climb N (generated_path N bitmap i) (bytesToHex N (hashBitmapLeafChunk N (getBitmapLeafChunkBytes bitmap (i div 256)))) =
      Inr (Some (bytesToHex N (tree_root N (bitmap_leaves N bitmap))))"
    "map position (generated_path N bitmap i) = deriveAuditPathPositions (i div 256) ((length bitmap + 255) div 256)"
    using climb_complete [OF assms(1) ls(2,3), of "i div 256"] ls(1) ls(4) [OF k] by (simp_all add: generated_path_def)
qed

lemma shape_iff:
  assumes "i < n" "int n \<le> MAX_SAFE_INTEGER"
  shows "isValidAuthenticatedTreeShape (int n) (int i) (int (i div 256)) ns \<longleftrightarrow>
    map position ns = deriveAuditPathPositions (i div 256) ((n + 255) div 256)"
proof -
  have "int (i div 256) < int ((n + 255) div 256)" using index_in_tree [OF assms(1)] by linarith
  then have k: "\<not> (int n + 255) div 256 \<le> int (i div 256)" by (simp add: zdiv_int)
  have "list_all2 (\<lambda>n p. position n = p) ns ps \<longleftrightarrow> map position ns = ps" for ps
    by (auto simp: list_all2_conv_all_nth list_eq_iff_nth_eq)
  then have "(if length ns \<noteq> length ps then False else list_all2 (\<lambda>n p. position n = p) ns ps) \<longleftrightarrow> map position ns = ps" for ps
    by auto
  then show ?thesis
    using assms k by (simp add: isValidAuthenticatedTreeShape_def Let_def shape_int)
qed

lemma generated_bit:
  assumes "noble_ok N" "i < length bitmap"
  shows "extractBitFromBitmapChunkHex N (bytesToHex N (getBitmapLeafChunkBytes bitmap (i div 256))) (int i mod 256) = Inr (bitmap ! i)"
proof -
  have "nat (int i mod 256) = i mod 256" by (simp add: nat_mod_distrib)
  then show ?thesis
    using extract_hex [OF assms(1) length_leaf_chunk, of "int i mod 256" bitmap "i div 256"]
      leaf_chunk_bit [of "i mod 256" bitmap "i div 256"] assms(2) by simp
qed

text \<open>On integers in range the verifier is the check of the tree shape, of the chunk and the climb.\<close>

lemma verify_ints:
  assumes "0 \<le> i" "i < n" "n \<le> MAX_SAFE_INTEGER" "asBitmapRoot r = Inr r"
  shows "verifyAdmittedBitmapProof N (js_int i) r p (js_int n) =
    verifyBitmapMerkleProof N (leafChunk p) (auditPath p) \<lparr>bitIndex = i, ctx_treeSize = n, expectedRoot = r\<rparr>"
proof -
  have "asBitmapBitIndex (js_int i) = Inr i" "asAuthenticatedBitmapTreeSize (js_int n) = Inr n"
    using assms by (auto simp: asBitmapBitIndex_def asAuthenticatedBitmapTreeSize_def num_le_def js_int_def)
  then show ?thesis
    using context_of_ints [of i n r] assms by (simp add: verifyAdmittedBitmapProof_def verifyBitmapProof_def)
qed

lemma root_admitted:
  assumes "noble_ok N" "bitmap \<noteq> []"
  shows "asBitmapRoot (computeIncludedBitmapRootHex N bitmap) = Inr (computeIncludedBitmapRootHex N bitmap)"
  using tree_root_32 [OF assms(1) bitmap_leaves_facts(2,3) [OF assms]] assms(1)
  by (simp add: root_hex [OF assms] asBitmapRoot_def startsWith_def)

lemma verify_generated:
  assumes "noble_ok N" "i < length bitmap" "int (length bitmap) \<le> MAX_SAFE_INTEGER"
  shows "verifyMyVoteWasCounted N (js_int (int i)) (computeIncludedBitmapRootHex N bitmap)
      \<lparr>leafChunk = bytesToHex N (getBitmapLeafChunkBytes bitmap (i div 256)), auditPath = generated_path N bitmap i\<rparr>
      (js_int (int (length bitmap))) =
    Inr \<lparr>valid = True, included = bitmap ! i, res_leafIndex = int (i div 256), res_bitOffset = int i mod 256\<rparr>"
proof -
  let ?n = "length bitmap" and ?k = "i div 256" and ?r = "computeIncludedBitmapRootHex N bitmap"
  let ?c = "getBitmapLeafChunkBytes bitmap ?k"
  have ne: "bitmap \<noteq> []" using assms(2) by auto
  have brand: "asBitmapLeafIndex (js_int (calculateBitmapLeafIndex (int i))) = Inr (int ?k)"
    "asBitmapBitOffset (js_int (calculateBitmapBitOffset (int i))) = Inr (int i mod 256)"
    using branded_positions [of "int i"] assms(2,3) by (simp_all add: zdiv_int)
  have "verifyBitmapMerkleProof N (bytesToHex N ?c) (generated_path N bitmap i)
        \<lparr>bitIndex = int i, ctx_treeSize = int ?n, expectedRoot = ?r\<rparr> =
      Inr \<lparr>valid = True, included = bitmap ! i, res_leafIndex = int ?k, res_bitOffset = int i mod 256\<rparr>"
    using brand shape_iff [OF assms(2,3)] generated_climb [OF assms(1,2)] padding_of_chunk [OF assms(1,2)]
      generated_bit [OF assms(1,2)] assms(1)
    by (simp add: verifyBitmapMerkleProof_def hashBitmapLeafChunkHex_def root_hex [OF assms(1) ne] startsWith_def)
  then show ?thesis
    using verify_ints [of "int i" "int ?n" ?r N] root_admitted [OF assms(1) ne] assms(2,3)
    by (simp add: verifyMyVoteWasCounted_def)
qed

text \<open>C17: the proof generated for a bit of the bitmap is accepted against the root of the bitmap and
  reports the value of that bit.\<close>

theorem bitmap_proof_round_trip:
  assumes "noble_ok N" "i < length bitmap" "int (length bitmap) \<le> MAX_SAFE_INTEGER"
  shows "\<exists>p li r. generateBitmapMerkleProof N bitmap (int i) = Inr (p, li, int i) \<and>
    verifyMyVoteWasCounted N (js_int (int i)) (computeIncludedBitmapRootHex N bitmap) p (js_int (int (length bitmap))) = Inr r \<and>
    valid r \<and> included r = bitmap ! i"
  using generated_proof [OF assms(1,2)] verify_generated [OF assms] by simp

theorem bitmap_proof_round_trip_witness:
  "\<exists>p li r. generateBitmapMerkleProof demo_noble [True, False] (int 1) = Inr (p, li, int 1) \<and>
    verifyMyVoteWasCounted demo_noble (js_int (int 1)) (computeIncludedBitmapRootHex demo_noble [True, False]) p
      (js_int (int (length [True, False]))) = Inr r \<and>
    valid r \<and> included r = [True, False] ! 1"
  by (rule bitmap_proof_round_trip) (simp_all add: demo_noble_ok MAX_SAFE_INTEGER_def)

text \<open>The byte strings hashed by a verifier, and for the root of a bitmap.\<close>

definition proof_preimages :: "noble \<Rightarrow> bitmap_proof \<Rightarrow> byte list list" where
  "proof_preimages N p =
     (0 # BITMAP_LEAF_USAGE_TAG N @ hex_bytes N (leafChunk p)) #
     climb_preimages N (auditPath p) (hashBitmapLeafChunk N (hex_bytes N (leafChunk p)))"

definition bitmap_preimages :: "noble \<Rightarrow> bool list \<Rightarrow> byte list list" where
  "bitmap_preimages N bitmap =
     map (\<lambda>c. 0 # BITMAP_LEAF_USAGE_TAG N @ c) (splitBitmapBytesIntoChunks (packBitmapBitsToBytes bitmap)) @
     level_preimages N (bitmap_leaves N bitmap)"

lemma verify_valid_cases:
  assumes "noble_ok N" "i < length bitmap" "int (length bitmap) \<le> MAX_SAFE_INTEGER"
    "verifyBitmapMerkleProof N c ns \<lparr>bitIndex = int i, ctx_treeSize = int (length bitmap), expectedRoot = computeIncludedBitmapRootHex N bitmap\<rparr> = Inr r"
    "valid r"
  shows "isBitmapChunkHex c" "map position ns = deriveAuditPathPositions (i div 256) ((length bitmap + 255) div 256)"
    "included r = chunk_bit (hex_bytes N c) (i mod 256)"
    "climb N ns (bytesToHex N (hashBitmapLeafChunk N (hex_bytes N c))) = Inr (Some (bytesToHex N (tree_root N (bitmap_leaves N bitmap))))"
    "length (hex_bytes N c) = 32"
proof -
  have ne: "bitmap \<noteq> []" using assms(2) by auto
  have brand: "asBitmapLeafIndex (js_int (calculateBitmapLeafIndex (int i))) = Inr (int (i div 256))"
    "asBitmapBitOffset (js_int (calculateBitmapBitOffset (int i))) = Inr (int i mod 256)"
    using branded_positions [of "int i"] assms(2,3) by (simp_all add: zdiv_int)
  note V = assms(4) [unfolded verifyBitmapMerkleProof_def]
  show hex: "isBitmapChunkHex c"
    using V assms(5) brand by (auto simp: invalidBitmapResult_def split: if_splits)
  show "map position ns = deriveAuditPathPositions (i div 256) ((length bitmap + 255) div 256)"
    using V assms(5) brand shape_iff [OF assms(2,3), of ns] by (auto simp: invalidBitmapResult_def split: if_splits)
  from chunkHex_bytes [OF assms(1) hex] obtain bs where bs: "bitmap_hexToBytes N c = Inr bs" "length bs = 32" .
  then have hb: "hex_bytes N c = bs" by (simp add: hex_bytes_def)
  show "length (hex_bytes N c) = 32" using hb bs by simp
  have m: "nat (int i mod 256) = i mod 256" by (simp add: nat_mod_distrib)
  have ext: "extractBitFromBitmapChunkHex N c (int i mod 256) = Inr (chunk_bit bs (i mod 256))"
    using extract_bit [OF bs(2), of "int i mod 256"] hex bs(1) m by (simp add: extractBitFromBitmapChunkHex_def)
  have leaf: "hashBitmapLeafChunkHex N c = Inr (bytesToHex N (hashBitmapLeafChunk N bs))"
    using hex bs by (simp add: hashBitmapLeafChunkHex_def)
  from V assms(5) brand ext leaf obtain h where
    h: "climb N ns (bytesToHex N (hashBitmapLeafChunk N bs)) = Inr (Some h)"
      "''0x'' @ h = computeIncludedBitmapRootHex N bitmap" "included r = chunk_bit bs (i mod 256)"
    by (auto simp: invalidBitmapResult_def res_bind_eq_Inr Let_def root_hex [OF assms(1) ne] startsWith_def split: if_splits option.splits)
  then show "included r = chunk_bit (hex_bytes N c) (i mod 256)"
    "climb N ns (bytesToHex N (hashBitmapLeafChunk N (hex_bytes N c))) = Inr (Some (bytesToHex N (tree_root N (bitmap_leaves N bitmap))))"
    by (simp_all add: hb root_hex [OF assms(1) ne])
qed

lemma verify_admitted_sound:
  assumes "noble_ok N" "i < length bitmap" "int (length bitmap) \<le> MAX_SAFE_INTEGER"
    "verifyAdmittedBitmapProof N (js_int (int i)) (computeIncludedBitmapRootHex N bitmap) p (js_int (int (length bitmap))) = Inr r"
    "valid r"
  shows "included r = bitmap ! i \<or> collides N (proof_preimages N p) (bitmap_preimages N bitmap)"
proof -
  let ?k = "i div 256" and ?bs = "hex_bytes N (leafChunk p)" and ?c = "getBitmapLeafChunkBytes bitmap (i div 256)"
  let ?P = "proof_preimages N p" and ?Q = "bitmap_preimages N bitmap"
  have ne: "bitmap \<noteq> []" using assms(2) by auto
  note ls = bitmap_leaves_facts [OF assms(1) ne]
  have k: "?k < (length bitmap + 255) div 256" by (rule index_in_tree [OF assms(2)])
  have "verifyBitmapMerkleProof N (leafChunk p) (auditPath p) \<lparr>bitIndex = int i, ctx_treeSize = int (length bitmap),
      expectedRoot = computeIncludedBitmapRootHex N bitmap\<rparr> = Inr r"
    using assms(2-4) verify_ints [of "int i" "int (length bitmap)" _ N p] root_admitted [OF assms(1) ne]
    by simp
  note v = verify_valid_cases [OF assms(1-3) this assms(5)]
  have "hashBitmapLeafChunk N ?bs = bitmap_leaves N bitmap ! ?k \<or>
      collides N (climb_preimages N (auditPath p) (hashBitmapLeafChunk N ?bs)) (level_preimages N (bitmap_leaves N bitmap))"
    using climb_sound [OF assms(1) ls(2,3), of ?k "hashBitmapLeafChunk N ?bs" "auditPath p"] v(2,4) ls(1) k assms(1)
    by (simp add: hashBitmapLeafChunk_def length_sha256)
  then consider "hashBitmapLeafChunk N ?bs = hashBitmapLeafChunk N ?c" | "collides N ?P ?Q"
    using ls(4) [OF k] collides_mono [of N _ _ ?P ?Q] by (auto simp: proof_preimages_def bitmap_preimages_def)
  then show ?thesis
  proof cases
    case 1
    have "?c \<in> set (splitBitmapBytesIntoChunks (packBitmapBitsToBytes bitmap))"
      using leaf_chunk_is_chunk [OF ne k] length_chunks [OF ne] k by (metis nth_mem)
    then have "0 # BITMAP_LEAF_USAGE_TAG N @ ?c \<in> set ?Q" by (simp add: bitmap_preimages_def)
    with collidesI [of "0 # BITMAP_LEAF_USAGE_TAG N @ ?bs" ?P "0 # BITMAP_LEAF_USAGE_TAG N @ ?c" ?Q N] 1
    have "?bs = ?c \<or> collides N ?P ?Q" by (simp add: proof_preimages_def hashBitmapLeafChunk_def)
    then show ?thesis
      using v(3) leaf_chunk_bit [of "i mod 256" bitmap ?k] assms(2) by auto
  qed simp
qed

text \<open>C11: soundness of the proof of one bit.  If any proof is accepted for an index against the root of a
  bitmap of the authenticated size, the bit it reports is the bit of the bitmap at that index, or two
  different byte strings with the same hash can be read off the proof and the bitmap.\<close>

theorem bitmap_proof_sound:
  assumes "noble_ok N" "i < length bitmap" "int (length bitmap) \<le> MAX_SAFE_INTEGER"
    "verifyMyVoteWasCounted N (js_int (int i)) (computeIncludedBitmapRootHex N bitmap) p (js_int (int (length bitmap))) = Inr r"
    "valid r"
  shows "included r = bitmap ! i \<or> collides N (proof_preimages N p) (bitmap_preimages N bitmap)"
  using verify_admitted_sound [OF assms(1-3) _ assms(5)] assms(4) by (simp add: verifyMyVoteWasCounted_def)

theorem bitmap_proof_sound_witness:
  "\<exists>p r. verifyMyVoteWasCounted demo_noble (js_int (int 0)) (computeIncludedBitmapRootHex demo_noble [True, False]) p
      (js_int (int (length [True, False]))) = Inr r \<and> valid r \<and>
    (included r = [True, False] ! 0 \<or> collides demo_noble (proof_preimages demo_noble p) (bitmap_preimages demo_noble [True, False]))"
proof -
  have "int (length [True, False]) \<le> MAX_SAFE_INTEGER" "0 < length [True, False]" by (simp_all add: MAX_SAFE_INTEGER_def)
  note v = verify_generated [OF demo_noble_ok this(2,1)]
  then show ?thesis
    using bitmap_proof_sound [OF demo_noble_ok \<open>0 < length [True, False]\<close> \<open>int (length [True, False]) \<le> MAX_SAFE_INTEGER\<close> v]
    by (intro exI conjI) auto
qed

end
