(* ===== verification/JsValue.thy ===== *)
theory JsValue
  imports Prelude
begin

text \<open>
  Values of unknown type as the boundary code receives them (packages/validation/src/unknown-value-guards.ts):
  a parsed JSON document with \<^verbatim>\<open>undefined\<close>.  An object is the list of its own enumerable properties.
  The decimal printing of numbers and the quoting of strings are those of \<^verbatim>\<open>JSON.stringify\<close>.
\<close>

datatype jsval =
    JUndef | JNull | JBool bool | JNum jsnum | JStr string
  | JArr "jsval list" | JObj "(string \<times> jsval) list"

section \<open>Numbers and strings as text\<close>

definition digit_char :: "nat \<Rightarrow> char" where
  "digit_char d = char_of (48 + d)"

fun show_nat :: "nat \<Rightarrow> string" where
  "show_nat n = (if n < 10 then [digit_char n] else show_nat (n div 10) @ [digit_char (n mod 10)])"

declare show_nat.simps [simp del]

definition show_int :: "int \<Rightarrow> string" where
  "show_int i = (if i < 0 then CHR ''-'' # show_nat (nat (- i)) else show_nat (nat i))"

definition json_hex_digit :: "nat \<Rightarrow> char" where
  "json_hex_digit d = (if d < 10 then char_of (48 + d) else char_of (87 + d))"

definition escape_char :: "char \<Rightarrow> string" where
  "escape_char c =
     (let n = (of_char c :: nat) in
      if n = 34 \<or> n = 92 then [char_of (92::nat), c]
      else if n = 8 then [char_of (92::nat), CHR ''b'']
      else if n = 9 then [char_of (92::nat), CHR ''t'']
      else if n = 10 then [char_of (92::nat), CHR ''n'']
      else if n = 12 then [char_of (92::nat), CHR ''f'']
      else if n = 13 then [char_of (92::nat), CHR ''r'']
      else if n < 32 then [char_of (92::nat), CHR ''u'', CHR ''0'', CHR ''0'', json_hex_digit (n div 16), json_hex_digit (n mod 16)]
      else [c])"

definition json_string :: "string \<Rightarrow> string" where
  "json_string s = [char_of (34::nat)] @ concat (map escape_char s) @ [char_of (34::nat)]"

section \<open>unknown-value-guards.ts\<close>

fun js_get :: "jsval \<Rightarrow> string \<Rightarrow> jsval" where
  "js_get (JObj fields) key = (case map_of fields key of Some v \<Rightarrow> v | None \<Rightarrow> JUndef)"
| "js_get _ key = JUndef"

fun js_keys :: "jsval \<Rightarrow> string list" where
  "js_keys (JObj fields) = map fst fields"
| "js_keys (JArr xs) = map show_nat [0..<length xs]"
| "js_keys _ = []"

fun isNonNullObject :: "jsval \<Rightarrow> bool" where
  "isNonNullObject (JObj _) = True"
| "isNonNullObject (JArr _) = True"
| "isNonNullObject _ = False"

fun as_string :: "jsval \<Rightarrow> string option" where
  "as_string (JStr s) = Some s"
| "as_string _ = None"

fun as_number :: "jsval \<Rightarrow> jsnum option" where
  "as_number (JNum n) = (if isFinite n then Some n else None)"
| "as_number _ = None"

fun as_array :: "jsval \<Rightarrow> jsval list option" where
  "as_array (JArr xs) = Some xs"
| "as_array _ = None"

definition getStringProperty :: "jsval \<Rightarrow> string \<Rightarrow> string option" where
  "getStringProperty v key = (if \<not> isNonNullObject v then None else as_string (js_get v key))"

definition getNumberProperty :: "jsval \<Rightarrow> string \<Rightarrow> jsnum option" where
  "getNumberProperty v key = (if \<not> isNonNullObject v then None else as_number (js_get v key))"

definition getObjectProperty :: "jsval \<Rightarrow> string \<Rightarrow> jsval option" where
  "getObjectProperty v key =
     (if \<not> isNonNullObject v then None
      else let candidate = js_get v key in if isNonNullObject candidate then Some candidate else None)"

definition getArrayProperty :: "jsval \<Rightarrow> string \<Rightarrow> jsval list option" where
  "getArrayProperty v key = (if \<not> isNonNullObject v then None else as_array (js_get v key))"

section \<open>Absent values\<close>

text \<open>\<^verbatim>\<open>a ?? b\<close> on optional values, and the truth value of an optional string.\<close>

fun nullish :: "'a option \<Rightarrow> 'a option \<Rightarrow> 'a option" where
  "nullish (Some a) b = Some a"
| "nullish None b = b"

fun truthy :: "string option \<Rightarrow> bool" where
  "truthy (Some s) = (s \<noteq> [])"
| "truthy None = False"

lemma truthy_iff: "truthy x \<longleftrightarrow> (\<exists>s. x = Some s \<and> s \<noteq> [])"
  by (cases x) auto

lemma nullish_eq_Some: "nullish a b = Some x \<longleftrightarrow> a = Some x \<or> a = None \<and> b = Some x"
  by (cases a) auto

lemma js_get_Some: "js_get v k \<noteq> JUndef \<Longrightarrow> isNonNullObject v"
  by (cases v) auto

lemma getStringProperty_eq: "getStringProperty v key = as_string (js_get v key)"
  by (cases v) (auto simp: getStringProperty_def)

lemma getNumberProperty_eq: "getNumberProperty v key = as_number (js_get v key)"
  by (cases v) (auto simp: getNumberProperty_def)

lemma getArrayProperty_eq: "getArrayProperty v key = as_array (js_get v key)"
  by (cases v) (auto simp: getArrayProperty_def)

end
