(* ===== verification/Evidence.thy ===== *)
theory Evidence
  imports Checks JsValue Contract MerkleLog BitmapProofs
begin

text \<open>
  The evidence the verification engine evaluates (packages/verification/src/verification/engine/types.ts
  and admit-evidence.ts) and the small verifiers it calls: excluded-count.ts, index-identifiers.ts,
  consistency-verifier.ts, public-audit-artifacts.ts with zkvm-contract election-config.ts, and
  packages/merkle/src/rfc6962-proof.ts.

  An optional property is an \<open>option\<close>; a property the engine tests with \<^verbatim>\<open>typeof\<close> although its type
  declares it present is an \<open>option\<close> as well, so that the test is a branch of the model.
  \<^verbatim>\<open>AdmittedEvidence\<close> (availability and value) is the option type: \<^verbatim>\<open>toAdmittedEvidence\<close> and
  \<^verbatim>\<open>evidenceValue\<close> are the identity on it.
\<close>

section \<open>Results of checks\<close>

text \<open>A diagnostic: a literal text, a template with its values, or the message of an exception.\<close>

datatype message =
    Text string
  | ThrownByTree tree_error
  | ThrownByContract contract_error
  | RecomputeFailed contract_error
  | UnknownChoice string
  | ExcludedSlotsMessage jsnum
  | TallySumMismatch jsnum jsnum
  | InvalidJournalFields "string list"
  | SizeRangeMismatch jsnum jsnum jsnum jsnum
  | RootMismatch string string string string
  | ConsistencyThrown tree_error

fun message_truthy :: "message option \<Rightarrow> bool" where
  "message_truthy (Some (Text s)) = (s \<noteq> [])"
| "message_truthy (Some _) = True"
| "message_truthy None = False"

record check_result =
  res_status :: step_status
  res_error :: "message option"
  res_noteKey :: "note_key option"

definition outcome :: "step_status \<Rightarrow> check_result" where
  "outcome s = \<lparr>res_status = s, res_error = None, res_noteKey = None\<rparr>"

definition failed_with :: "message \<Rightarrow> check_result" where
  "failed_with m = \<lparr>res_status = Failed, res_error = Some m, res_noteKey = None\<rparr>"

definition noted :: "step_status \<Rightarrow> note_key option \<Rightarrow> check_result" where
  "noted s n = \<lparr>res_status = s, res_error = None, res_noteKey = n\<rparr>"

lemma res_status_simps [simp]:
  "res_status (outcome s) = s" "res_status (failed_with m) = Failed" "res_status (noted s n) = s"
  by (simp_all add: outcome_def failed_with_def noted_def)

section \<open>Inputs\<close>

record vote_receipt =
  rc_voteId :: "string option"
  rc_commitment :: "string option"
  rc_bulletinIndex :: jsnum
  rc_bulletinRootAtCast :: string

text \<open>The proof of a receipt before it is admitted; an entry of the path may be no string.\<close>

record proof_candidate =
  pc_hasProofMode :: bool
  pc_leafIndex :: "jsnum option"
  pc_treeSize :: "jsnum option"
  pc_merklePath :: "string option list option"
  pc_bulletinRootAtCast :: "string option"

record canonical_proof =
  cp_leafIndex :: jsnum
  cp_treeSize :: jsnum
  cp_merklePath :: "string list"
  cp_bulletinRootAtCast :: string

record user_vote =
  uv_vote :: "string option"
  uv_random :: "string option"
  uv_commitment :: "string option"
  uv_voteId :: "string option"
  uv_proof :: "proof_candidate option"

record zkvm_journal =
  j_electionId :: string
  j_electionConfigHash :: string
  j_bulletinRoot :: string
  j_treeSize :: jsnum
  j_totalExpected :: jsnum
  j_sthDigest :: string
  j_verifiedTally :: "jsnum list option"
  j_totalVotes :: "jsnum option"
  j_validVotes :: "jsnum option"
  j_missingSlots :: "jsnum option"
  j_invalidPresentedSlots :: "jsnum option"
  j_excludedSlots :: "jsnum option"
  j_seenBitmapRoot :: "string option"
  j_includedBitmapRoot :: string
  j_inputCommitment :: string

record public_input_authority =
  pa_electionId :: string
  pa_electionConfigHash :: string
  pa_methodVersion :: jsnum
  pa_bulletinRoot :: string
  pa_treeSize :: jsnum
  pa_totalExpected :: jsnum
  pa_votesCount :: jsnum
  pa_uniqueIndices :: bool
  pa_uniqueCommitments :: bool
  pa_logId :: string
  pa_timestamp :: jsnum
  pa_recomputedInputCommitment :: string

record election_config =
  ec_totalExpected :: int
  ec_choices :: "string list"
  ec_version :: string
  ec_botCount :: int
  ec_merkleTreeDepth :: int

record election_manifest = election_config +
  em_electionId :: string
  em_electionConfigHash :: string

record close_statement =
  cs_logId :: string
  cs_treeSize :: jsnum
  cs_timestamp :: jsnum
  cs_bulletinRoot :: string
  cs_sthDigest :: string

record admitted_consistency_proof =
  ac_fromTreeSize :: jsnum
  ac_toTreeSize :: jsnum
  ac_rootAtFromTreeSize :: string
  ac_rootAtToTreeSize :: string
  ac_proofNodes :: "string list"

datatype 'a acquisition =
    Admitted 'a
  | Unavailable "string option" | Malformed "string option" | TransportFailed "string option"

datatype bitmap_proof_source = Mock | Real

record tally_input =
  ti_counts :: "(string \<Rightarrow> jsnum option) option"
  ti_totalVotes :: "jsnum option"

section \<open>The outcome of the external verifier\<close>

datatype verifier_status = VNotRun | VRunning | VSuccess | VDevMode | VFailed

datatype failure_category =
    NoFailure | VerifierCrash | CorruptBundle | S3Denied | S3Missing | Timeout | UnknownFailure

text \<open>The receipt image id is absent, \<^verbatim>\<open>null\<close> (\<open>Some None\<close>) or a string.\<close>

record verification_report =
  rep_status :: "verifier_status option"
  expected_image_id :: "string option"
  receipt_image_id :: "string option option"
  dev_mode_receipt :: "bool option"

record verifier_outcome =
  vo_status :: verifier_status
  vo_report :: "verification_report option"
  vo_failureCategory :: "failure_category option"

record evaluation_base =
  in_electionId :: "string option"
  in_electionConfigHash :: "string option"
  in_logId :: "string option"
  in_sthSourcesConfigured :: "bool option"
  in_claimedImageId :: "string option"
  in_comparisonImageId :: "string option"
  in_allowDevModeVerification :: "bool option"
  in_voteReceipt :: "vote_receipt option"
  in_userVote :: "user_vote option"
  in_journal :: "zkvm_journal option"
  in_electionManifest :: "election_manifest option"
  in_closeStatement :: "close_statement option"
  in_sthDigest :: "string option"
  in_sthVerified :: "bool option"
  in_bulletinRoot :: "string option"
  in_treeSize :: "jsnum option"
  in_publicInputAuthority :: "public_input_authority option"
  in_seenBitmapRoot :: "string option"
  in_includedBitmapRoot :: "string option"
  in_bitmapProofSource :: "bitmap_proof_source option"
  in_missingSlots :: "jsnum option"
  in_invalidPresentedSlots :: "jsnum option"
  in_excludedSlots :: "jsnum option"
  in_tally :: "tally_input option"
  in_verifiedTally :: "jsnum option list option"
  in_totalExpected :: "jsnum option"
  in_inputCommitment :: "string option"

record evaluation_input = evaluation_base +
  inp_consistencyProof :: "admitted_consistency_proof acquisition option"
  inp_includedBitmapProof :: "bitmap_proof acquisition option"
  inp_seenBitmapProof :: "bitmap_proof acquisition option"
  inp_verifierOutcome :: "verifier_outcome option"

record admitted_evidence = evaluation_base +
  ev_consistencyProof :: "admitted_consistency_proof acquisition"
  ev_includedBitmapProof :: "bitmap_proof acquisition"
  ev_seenBitmapProof :: "bitmap_proof acquisition"
  ev_verifierOutcome :: verifier_outcome

section \<open>admit-evidence.ts\<close>

definition admitVerificationStatus :: "jsval \<Rightarrow> verifier_status option" where
  "admitVerificationStatus v =
     (case as_string v of
        None \<Rightarrow> None
      | Some s \<Rightarrow> map_of [(''success'', VSuccess), (''failed'', VFailed), (''dev_mode'', VDevMode),
                          (''not_run'', VNotRun), (''running'', VRunning)] s)"

definition TERMINAL_VERIFICATION_STATUSES :: "verifier_status list" where
  "TERMINAL_VERIFICATION_STATUSES = [VSuccess, VFailed, VDevMode]"

definition admitFailureCategory :: "jsval \<Rightarrow> failure_category option" where
  "admitFailureCategory v =
     (case as_string v of
        None \<Rightarrow> None
      | Some s \<Rightarrow> map_of [(''none'', NoFailure), (''verifier_crash'', VerifierCrash), (''corrupt_bundle'', CorruptBundle),
                          (''s3_denied'', S3Denied), (''s3_missing'', S3Missing), (''timeout'', Timeout), (''unknown'', UnknownFailure)] s)"

definition admitComparisonReport :: "string option \<Rightarrow> string option option \<Rightarrow> jsval \<Rightarrow> verification_report option" where
  "admitComparisonReport expected receipt devMode =
     (if expected = None \<or> receipt = None \<or> devMode \<noteq> JUndef then None
      else Some \<lparr>rep_status = None, expected_image_id = expected, receipt_image_id = receipt, dev_mode_receipt = None\<rparr>)"

definition admitSuccessReport :: "string option \<Rightarrow> string option option \<Rightarrow> verification_report option" where
  "admitSuccessReport expected receipt =
     (if receipt = Some None then None
      else Some \<lparr>rep_status = Some VSuccess, expected_image_id = expected, receipt_image_id = receipt,
                 dev_mode_receipt = Some False\<rparr>)"

fun is_boolean :: "jsval \<Rightarrow> bool" where
  "is_boolean (JBool b) = True"
| "is_boolean _ = False"

definition admitStatusBearingReport ::
  "jsval \<Rightarrow> string option \<Rightarrow> string option option \<Rightarrow> verification_report option" where
  "admitStatusBearingReport inp expected receipt =
     (let s = js_get inp ''status''; dev = js_get inp ''dev_mode_receipt'' in
      if s = JUndef then admitComparisonReport expected receipt dev
      else if s = JStr ''success'' \<and> dev = JBool False then admitSuccessReport expected receipt
      else if s = JStr ''dev_mode'' \<and> dev = JBool True
           then Some \<lparr>rep_status = Some VDevMode, expected_image_id = expected, receipt_image_id = receipt, dev_mode_receipt = Some True\<rparr>
      else if s = JStr ''failed'' \<and> is_boolean dev
           then Some \<lparr>rep_status = Some VFailed, expected_image_id = expected, receipt_image_id = receipt,
                      dev_mode_receipt = Some (dev = JBool True)\<rparr>
      else None)"

text \<open>The image ids of a report: \<open>Inl\<close> when the property has a wrong type.\<close>

fun report_expected :: "jsval \<Rightarrow> unit + string option" where
  "report_expected JUndef = Inr None"
| "report_expected (JStr s) = Inr (Some s)"
| "report_expected _ = Inl ()"

fun report_receipt :: "jsval \<Rightarrow> unit + string option option" where
  "report_receipt JUndef = Inr None"
| "report_receipt JNull = Inr (Some None)"
| "report_receipt (JStr s) = Inr (Some (Some s))"
| "report_receipt _ = Inl ()"

definition admitReportEvidence :: "jsval \<Rightarrow> verification_report option" where
  "admitReportEvidence inp =
     (if \<not> isNonNullObject inp then None
      else (case report_expected (js_get inp ''expected_image_id'') of
              Inl _ \<Rightarrow> None
            | Inr expected \<Rightarrow>
                (case report_receipt (js_get inp ''receipt_image_id'') of
                   Inl _ \<Rightarrow> None
                 | Inr receipt \<Rightarrow> admitStatusBearingReport inp expected receipt)))"

definition resolveCoherentVerifierStatus ::
  "verifier_status option \<Rightarrow> verifier_status option \<Rightarrow> verification_report option \<Rightarrow> (verifier_status \<times> verification_report option) option" where
  "resolveCoherentVerifierStatus vs rs report =
     (let statuses = List.map_filter (\<lambda>x. x) [vs, rs, Option.bind report rep_status] in
      if card (set statuses) > 1 then None
      else let s = (case statuses of x # _ \<Rightarrow> x | [] \<Rightarrow> VNotRun) in
           if (s = VNotRun \<or> s = VRunning) \<and> report \<noteq> None then None else Some (s, report))"

definition admitVerifierStatusEvidence :: "jsval \<Rightarrow> (verifier_status \<times> verification_report option) option" where
  "admitVerifierStatusEvidence inp =
     (let raw = js_get inp ''verificationStatus''; vs = admitVerificationStatus raw in
      if raw \<noteq> JUndef \<and> vs = None then None
      else let rawReportStatus = js_get inp ''verificationReportStatus''; rs = admitVerificationStatus rawReportStatus in
           if rawReportStatus \<noteq> JUndef \<and> (case rs of None \<Rightarrow> True | Some s \<Rightarrow> s \<notin> set TERMINAL_VERIFICATION_STATUSES) then None
           else let rawReport = js_get inp ''verificationReport'';
                    report = (if rawReport = JUndef then None else admitReportEvidence rawReport) in
                if rawReport \<noteq> JUndef \<and> report = None then None
                else resolveCoherentVerifierStatus vs rs report)"

text \<open>Narrowing a report to the kind its outcome admits throws on any other kind (the exception names the
  expected kind).\<close>

definition narrow_report :: "verifier_status \<Rightarrow> verification_report option \<Rightarrow> verifier_status + verification_report option" where
  "narrow_report s report =
     (case report of
        None \<Rightarrow> Inr None
      | Some r \<Rightarrow> if rep_status r = Some s \<or> rep_status r = None then Inr (Some r) else Inl s)"

definition buildFailedVerifierOutcome ::
  "verification_report option \<Rightarrow> failure_category option \<Rightarrow> verifier_status + verifier_outcome option" where
  "buildFailedVerifierOutcome report cat =
     (if cat = Some NoFailure then Inr None
      else res_bind (narrow_report VFailed report) (\<lambda>r.
             Inr (Some \<lparr>vo_status = VFailed, vo_report = r, vo_failureCategory = nullish cat (Some UnknownFailure)\<rparr>)))"

definition buildVerifierOutcome ::
  "verifier_status \<Rightarrow> verification_report option \<Rightarrow> failure_category option \<Rightarrow> verifier_status + verifier_outcome option" where
  "buildVerifierOutcome s report cat =
     (case s of
        VNotRun \<Rightarrow> Inr (Some \<lparr>vo_status = s, vo_report = None, vo_failureCategory = Some NoFailure\<rparr>)
      | VRunning \<Rightarrow> Inr (Some \<lparr>vo_status = s, vo_report = None, vo_failureCategory = Some NoFailure\<rparr>)
      | VSuccess \<Rightarrow> res_bind (narrow_report VSuccess report) (\<lambda>r.
                     Inr (Some \<lparr>vo_status = s, vo_report = r, vo_failureCategory = Some NoFailure\<rparr>))
      | VDevMode \<Rightarrow> res_bind (narrow_report VDevMode report) (\<lambda>r.
                     Inr (Some \<lparr>vo_status = s, vo_report = r, vo_failureCategory = Some NoFailure\<rparr>))
      | VFailed \<Rightarrow> buildFailedVerifierOutcome report cat)"

definition admitVerifierOutcome :: "jsval \<Rightarrow> verifier_status + verifier_outcome option" where
  "admitVerifierOutcome inp =
     (if \<not> isNonNullObject inp then Inr None
      else (case admitVerifierStatusEvidence inp of
              None \<Rightarrow> Inr None
            | Some (s, report) \<Rightarrow>
                (let raw = js_get inp ''failureCategory''; cat = admitFailureCategory raw in
                 if raw \<noteq> JUndef \<and> cat = None then Inr None
                 else if s \<noteq> VFailed \<and> cat \<noteq> None \<and> cat \<noteq> Some NoFailure then Inr None
                 else buildVerifierOutcome s report cat)))"

definition normalizeVerifierOutcome :: "verifier_outcome \<Rightarrow> verifier_outcome" where
  "normalizeVerifierOutcome oc =
     (case vo_status oc of
        VNotRun \<Rightarrow> oc\<lparr>vo_report := None, vo_failureCategory := Some NoFailure\<rparr>
      | VRunning \<Rightarrow> oc\<lparr>vo_report := None, vo_failureCategory := Some NoFailure\<rparr>
      | VSuccess \<Rightarrow> oc\<lparr>vo_failureCategory := Some NoFailure\<rparr>
      | VDevMode \<Rightarrow> oc\<lparr>vo_failureCategory := Some NoFailure\<rparr>
      | VFailed \<Rightarrow> oc\<lparr>vo_failureCategory := nullish (vo_failureCategory oc) (Some UnknownFailure)\<rparr>)"

definition orUnavailable :: "'a acquisition option \<Rightarrow> 'a acquisition" where
  "orUnavailable a = (case a of Some x \<Rightarrow> x | None \<Rightarrow> Unavailable None)"

definition admitVerificationEvidence :: "evaluation_input \<Rightarrow> admitted_evidence" where
  "admitVerificationEvidence inp =
     evaluation_base.extend (evaluation_base.truncate inp)
       (admitted_evidence.fields
          (orUnavailable (inp_consistencyProof inp))
          (orUnavailable (inp_includedBitmapProof inp))
          (orUnavailable (inp_seenBitmapProof inp))
          (normalizeVerifierOutcome
             (case inp_verifierOutcome inp of
                Some oc \<Rightarrow> oc
              | None \<Rightarrow> \<lparr>vo_status = VNotRun, vo_report = None, vo_failureCategory = None\<rparr>)))"

section \<open>Small verifiers\<close>

subsection \<open>excluded-count.ts\<close>

definition resolveExcludedCount ::
  "zkvm_journal option \<Rightarrow> jsnum option \<Rightarrow> jsnum option \<Rightarrow> jsnum option \<Rightarrow> bool \<Rightarrow> jsnum option" where
  "resolveExcludedCount journal missing invalid excluded fallbackToZero =
     (case journal of
        Some j \<Rightarrow> j_excludedSlots j
      | None \<Rightarrow>
          if excluded \<noteq> None then excluded
          else (case (missing, invalid) of
                  (Some m, Some i) \<Rightarrow> Some (num_add m i)
                | _ \<Rightarrow> if fallbackToZero
                        then Some (num_add (case missing of Some m \<Rightarrow> m | None \<Rightarrow> js_int 0)
                                           (case invalid of Some i \<Rightarrow> i | None \<Rightarrow> js_int 0))
                        else None))"

subsection \<open>index-identifiers.ts\<close>

definition engine_asBulletinIndex :: "jsnum \<Rightarrow> int option" where
  "engine_asBulletinIndex v = (if \<not> isSafeInteger v \<or> num_lt v (js_int 0) then None else Some (to_int v))"

definition engine_asLeafIndex :: "jsnum \<Rightarrow> int option" where
  "engine_asLeafIndex v = (if \<not> isSafeInteger v \<or> num_lt v (js_int 0) then None else Some (to_int v))"

subsection \<open>rfc6962-proof.ts\<close>

definition toCanonicalRfc6962Proof :: "proof_candidate option \<Rightarrow> canonical_proof option" where
  "toCanonicalRfc6962Proof p =
     (case p of
        None \<Rightarrow> None
      | Some p \<Rightarrow>
          if pc_hasProofMode p then None
          else (case (pc_leafIndex p, pc_treeSize p, pc_merklePath p, pc_bulletinRootAtCast p) of
                  (Some li, Some ts, Some entries, Some r) \<Rightarrow>
                    (let strings = List.map_filter (\<lambda>x. x) entries in
                     if length strings \<noteq> length entries then None
                     else Some \<lparr>cp_leafIndex = li, cp_treeSize = ts, cp_merklePath = strings, cp_bulletinRootAtCast = r\<rparr>)
                | _ \<Rightarrow> None))"

subsection \<open>consistency-verifier.ts\<close>

datatype consistency_failure = SplitViewAttack | ProofInvalid

record consistency_result =
  cv_isValid :: bool
  cv_error :: "message option"
  cv_type :: "consistency_failure option"

record consistency_expectation =
  ce_fromTreeSize :: jsnum
  ce_toTreeSize :: jsnum
  ce_rootAtFromTreeSize :: string
  ce_rootAtToTreeSize :: string

text \<open>The engine calls it with integers as expected sizes; equal sizes of the proof are then integers, too.\<close>

definition client_verifyConsistencyProof ::
  "noble \<Rightarrow> admitted_consistency_proof \<Rightarrow> consistency_expectation \<Rightarrow> consistency_result" where
  "client_verifyConsistencyProof N p e =
     (if \<not> num_eq (ac_fromTreeSize p) (ce_fromTreeSize e) \<or> \<not> num_eq (ac_toTreeSize p) (ce_toTreeSize e) then
        \<lparr>cv_isValid = False,
         cv_error = Some (SizeRangeMismatch (ce_fromTreeSize e) (ce_toTreeSize e) (ac_fromTreeSize p) (ac_toTreeSize p)),
         cv_type = Some ProofInvalid\<rparr>
      else
        let proofOld = normalizeHexString (ac_rootAtFromTreeSize p);
            proofNew = normalizeHexString (ac_rootAtToTreeSize p);
            expectedOld = normalizeHexString (ce_rootAtFromTreeSize e);
            expectedNew = normalizeHexString (ce_rootAtToTreeSize e)
        in if proofOld \<noteq> expectedOld \<or> proofNew \<noteq> expectedNew then
             \<lparr>cv_isValid = False, cv_error = Some (RootMismatch expectedOld proofOld expectedNew proofNew),
              cv_type = Some SplitViewAttack\<rparr>
           else (case verifyConsistencyProof N proofOld proofNew
                        \<lparr>oldSize = to_int (ac_fromTreeSize p), newSize = to_int (ac_toTreeSize p),
                         proofNodes = map normalizeHexString (ac_proofNodes p)\<rparr> of
                   Inl err \<Rightarrow> \<lparr>cv_isValid = False, cv_error = Some (ConsistencyThrown err), cv_type = Some ProofInvalid\<rparr>
                 | Inr v \<Rightarrow>
                     if \<not> v then \<lparr>cv_isValid = False,
                         cv_error = Some (Text ''Consistency proof failed cryptographic verification.''), cv_type = Some ProofInvalid\<rparr>
                     else \<lparr>cv_isValid = True, cv_error = None, cv_type = None\<rparr>))"

subsection \<open>election-config.ts and public-audit-artifacts.ts\<close>

text \<open>\<^verbatim>\<open>JSON.stringify\<close> of the configuration, its properties in the order of the object literal.\<close>

fun join_with :: "string \<Rightarrow> string list \<Rightarrow> string" where
  "join_with sep [] = []"
| "join_with sep [x] = x"
| "join_with sep (x # xs) = x @ sep @ join_with sep xs"

definition canonicalConfig :: "'a election_config_scheme \<Rightarrow> string" where
  "canonicalConfig c =
     ''{'' @ join_with '',''
       [json_string ''totalExpected'' @ '':'' @ show_int (ec_totalExpected c),
        json_string ''choices'' @ '':['' @ join_with '','' (map json_string (ec_choices c)) @ '']'',
        json_string ''version'' @ '':'' @ json_string (ec_version c),
        json_string ''botCount'' @ '':'' @ show_int (ec_botCount c),
        json_string ''merkleTreeDepth'' @ '':'' @ show_int (ec_merkleTreeDepth c)] @ ''}''"

definition hashElectionConfig :: "noble \<Rightarrow> 'a election_config_scheme \<Rightarrow> string" where
  "hashElectionConfig N c = ''0x'' @ bytesToHex N (sha256 N (utf8ToBytes N (canonicalConfig c)))"

definition hasMatchingElectionConfigHash :: "noble \<Rightarrow> 'a election_config_scheme \<Rightarrow> string \<Rightarrow> bool" where
  "hasMatchingElectionConfigHash N c h = (normalizeHexString (hashElectionConfig N c) = normalizeHexString h)"

definition recomputeElectionManifestHash :: "noble \<Rightarrow> election_manifest \<Rightarrow> string" where
  "recomputeElectionManifestHash N m = hashElectionConfig N m"

datatype manifest_error = ConfigUnavailable | TotalExpectedMismatch | ConfigHashMismatch

definition resolveElectionConfigForManifest ::
  "noble \<Rightarrow> election_config option \<Rightarrow> string \<Rightarrow> int \<Rightarrow> manifest_error + election_config" where
  "resolveElectionConfigForManifest N config h expectedTotal =
     (case config of
        None \<Rightarrow> Inl ConfigUnavailable
      | Some c \<Rightarrow>
          if ec_totalExpected c \<noteq> expectedTotal then Inl TotalExpectedMismatch
          else if \<not> hasMatchingElectionConfigHash N c h then Inl ConfigHashMismatch
          else Inr c)"

definition buildElectionManifest :: "noble \<Rightarrow> string \<Rightarrow> election_config \<Rightarrow> election_manifest" where
  "buildElectionManifest N electionId c =
     (let manifest = election_config.extend c (election_manifest.fields electionId [])
      in manifest\<lparr>em_electionConfigHash := recomputeElectionManifestHash N manifest\<rparr>)"

definition normalizeHex32 :: "string \<Rightarrow> contract_error + string" where
  "normalizeHex32 v = (if \<not> isValidHexString v (Some 32) then Inl NotHex32 else Inr (addHexPrefix (normalizeHexString v)))"

definition buildCloseStatement :: "noble \<Rightarrow> string \<Rightarrow> jsnum \<Rightarrow> jsnum \<Rightarrow> string \<Rightarrow> contract_error + close_statement" where
  "buildCloseStatement N logId ts time bulletinRoot =
     res_bind (normalizeHex32 logId) (\<lambda>l.
     res_bind (normalizeHex32 bulletinRoot) (\<lambda>r.
     res_bind (asUnixTimestampMillis time) (\<lambda>t.
     res_bind (computeSTHDigest N l ts t r) (\<lambda>d.
       Inr \<lparr>cs_logId = l, cs_treeSize = ts, cs_timestamp = time, cs_bulletinRoot = r, cs_sthDigest = d\<rparr>))))"

section \<open>What is admitted\<close>

text \<open>A coherent outcome: the status of the report, if it has one, is the status of the outcome, work that
  has not ended has no report, and a failure category other than none goes with the status failed.\<close>

definition coherent_outcome :: "verifier_outcome \<Rightarrow> bool" where
  "coherent_outcome oc \<longleftrightarrow>
     (\<forall>r. vo_report oc = Some r \<longrightarrow> rep_status r = None \<or> rep_status r = Some (vo_status oc)) \<and>
     (vo_status oc \<in> {VNotRun, VRunning} \<longrightarrow> vo_report oc = None) \<and>
     (case vo_failureCategory oc of None \<Rightarrow> False | Some c \<Rightarrow> (c = NoFailure) = (vo_status oc \<noteq> VFailed))"

lemma distinct_statuses:
  assumes "\<not> 1 < card (set xs)" "x \<in> set xs" "y \<in> set xs"
  shows "x = y"
proof (rule ccontr)
  assume "x \<noteq> y"
  then have "card {x, y} = 2" by simp
  moreover have "card {x, y} \<le> card (set xs)" by (rule card_mono) (use assms in auto)
  ultimately show False using assms(1) by simp
qed

lemma resolveCoherentVerifierStatus_Some:
  assumes "resolveCoherentVerifierStatus vs rs report = Some (s, report')"
  shows "report' = report"
    "\<And>r x. report = Some r \<Longrightarrow> rep_status r = Some x \<Longrightarrow> x = s"
    "s \<in> {VNotRun, VRunning} \<Longrightarrow> report = None"
proof -
  let ?xs = "List.map_filter (\<lambda>x. x) [vs, rs, Option.bind report rep_status]"
  have card: "\<not> 1 < card (set ?xs)" and s: "s = (case ?xs of x # _ \<Rightarrow> x | [] \<Rightarrow> VNotRun)"
    using assms by (auto simp: resolveCoherentVerifierStatus_def Let_def split: if_splits)
  show "report' = report" "s \<in> {VNotRun, VRunning} \<Longrightarrow> report = None"
    using assms by (auto simp: resolveCoherentVerifierStatus_def Let_def split: if_splits)
  fix r x assume r: "report = Some r" "rep_status r = Some x"
  then have x: "x \<in> set ?xs" by (auto simp: List.map_filter_def)
  then obtain y ys where ys: "?xs = y # ys" by (cases ?xs) auto
  then have "s = y" "y \<in> set ?xs" using s by (simp_all split: list.splits)
  then show "x = s" using distinct_statuses [OF card x] by simp
qed

lemma buildVerifierOutcome_coherent:
  assumes "\<And>r. report = Some r \<Longrightarrow> rep_status r = None \<or> rep_status r = Some s"
    "s \<in> {VNotRun, VRunning} \<Longrightarrow> report = None"
  shows "\<exists>x. buildVerifierOutcome s report cat = Inr x \<and> (case x of None \<Rightarrow> True | Some oc \<Rightarrow> coherent_outcome oc)"
proof -
  have "narrow_report s report = Inr report"
    using assms(1) by (cases report) (auto simp: narrow_report_def)
  then show ?thesis
    using assms by (cases s; cases cat)
      (auto simp: buildVerifierOutcome_def buildFailedVerifierOutcome_def coherent_outcome_def)
qed

text \<open>C18: the outcome admitted from an untrusted value.  Admission never throws (the narrowing of a report
  cannot fail after the coherence test), and an admitted outcome is coherent: it cannot carry a report of
  another status, a report of unfinished work or a failure category next to a success.\<close>

theorem admitted_outcome_coherent:
  "\<exists>x. admitVerifierOutcome v = Inr x \<and> (case x of None \<Rightarrow> True | Some oc \<Rightarrow> coherent_outcome oc)"
proof (cases "admitVerifierStatusEvidence v")
  case (Some sr)
  obtain s report where sr: "sr = (s, report)" by (cases sr)
  from Some sr obtain vs rs where "resolveCoherentVerifierStatus vs rs report = Some (s, report)"
    using resolveCoherentVerifierStatus_Some(1)
    by (fastforce simp: admitVerifierStatusEvidence_def Let_def split: if_splits)
  note c = resolveCoherentVerifierStatus_Some(2,3) [OF this]
  have "rep_status r = None \<or> rep_status r = Some s" if "report = Some r" for r
    using c(1) [OF that] by (cases "rep_status r") auto
  note b = buildVerifierOutcome_coherent [OF this c(2), of "admitFailureCategory (js_get v ''failureCategory'')"]
  show ?thesis
  proof (cases "admitVerifierOutcome v = Inr None")
    case False
    then have "admitVerifierOutcome v = buildVerifierOutcome s report (admitFailureCategory (js_get v ''failureCategory''))"
      using Some sr by (auto simp: admitVerifierOutcome_def Let_def)
    with b show ?thesis by simp
  qed simp
qed (auto simp: admitVerifierOutcome_def)

lemma normalize_coherent: "coherent_outcome oc \<Longrightarrow> normalizeVerifierOutcome oc = oc"
  by (cases oc) (auto simp: coherent_outcome_def normalizeVerifierOutcome_def split: verifier_status.splits option.splits)

end
