(* ===== verification/Evaluate.thy ===== *)
theory Evaluate
  imports Evidence
begin

text \<open>
  The evaluation of the checks (packages/verification/src/verification/local-cast-checks.ts and
  engine/evaluate-checks.ts).  One definition per resolver; \<open>CHECK_EVALUATORS\<close> dispatches on the check and
  passes each resolver the evidence its context selector picks.  The promises of the source are the
  sums of the model: a rejected promise is \<open>Inl\<close>.  The cache of \<^verbatim>\<open>helpers.evaluate\<close> memoises a pure function
  and is not part of the state.
\<close>

section \<open>local-cast-checks.ts\<close>

definition VOTE_CHOICES :: "string list" where
  "VOTE_CHOICES = [''A'', ''B'', ''C'', ''D'', ''E'']"

fun index_of :: "'a \<Rightarrow> 'a list \<Rightarrow> nat option" where
  "index_of x [] = None"
| "index_of x (y # ys) = (if x = y then Some 0 else map_option Suc (index_of x ys))"

definition LOCAL_CAST_CHECK_IDS :: "check_id list" where
  "LOCAL_CAST_CHECK_IDS = [cast_receipt_present, cast_choice_range, cast_random_format, cast_commitment_match]"

definition resolveCastReceiptPresent :: "vote_receipt option \<Rightarrow> check_result" where
  "resolveCastReceiptPresent receipt =
     (case receipt of
        None \<Rightarrow> outcome NotRun
      | Some r \<Rightarrow> if \<not> truthy (rc_voteId r) \<or> \<not> truthy (rc_commitment r)
                  then failed_with (Text ''Invalid receipt: missing commitment or voteId'')
                  else outcome Success)"

definition resolveCastChoiceRange :: "string option \<Rightarrow> check_result" where
  "resolveCastChoiceRange choice =
     (case choice of
        None \<Rightarrow> outcome NotRun
      | Some c \<Rightarrow> if c = [] then outcome NotRun
                  else if c \<notin> set VOTE_CHOICES then failed_with (UnknownChoice c)
                  else outcome Success)"

definition resolveCastRandomFormat :: "string option \<Rightarrow> check_result" where
  "resolveCastRandomFormat random =
     (case random of
        None \<Rightarrow> outcome NotRun
      | Some r \<Rightarrow> if r = [] then outcome NotRun
                  else if isValidHexString r (Some 32) then outcome Success
                  else failed_with (Text ''Random value must be a 32-byte hex string.''))"

definition compareRecomputedCommitment :: "noble \<Rightarrow> string \<Rightarrow> nat \<Rightarrow> string \<Rightarrow> string \<Rightarrow> check_result" where
  "compareRecomputedCommitment N electionId choiceIndex random normalizedCommitment =
     (case computeCommitment N electionId (int choiceIndex) random of
        Inl e \<Rightarrow> failed_with (RecomputeFailed e)
      | Inr recomputed \<Rightarrow>
          if normalizedCommitment \<noteq> normalizeHexString recomputed
          then failed_with (Text ''Commitment mismatch between receipt and recomputed value.'')
          else outcome Success)"

definition resolveCastCommitmentMatch ::
  "noble \<Rightarrow> string option \<Rightarrow> vote_receipt option \<Rightarrow> string option \<Rightarrow> string option \<Rightarrow> check_result" where
  "resolveCastCommitmentMatch N electionId receipt choice random =
     (if \<not> truthy electionId \<or> \<not> truthy (Option.bind receipt rc_commitment) \<or> \<not> truthy choice \<or> \<not> truthy random
      then outcome NotRun
      else let normalizedCommitment = normalizeHexString (the (Option.bind receipt rc_commitment))
           in if normalizedCommitment = [] then failed_with (Text ''Receipt commitment is malformed.'')
              else (case index_of (the choice) VOTE_CHOICES of
                      None \<Rightarrow> failed_with (UnknownChoice (the choice))
                    | Some i \<Rightarrow> compareRecomputedCommitment N (the electionId) i (the random) normalizedCommitment))"

record local_cast_results =
  lc_receipt_present :: check_result
  lc_choice_range :: check_result
  lc_random_format :: check_result
  lc_commitment_match :: check_result

definition evaluateLocalCastChecks ::
  "noble \<Rightarrow> string option \<Rightarrow> vote_receipt option \<Rightarrow> string option \<Rightarrow> string option \<Rightarrow> local_cast_results" where
  "evaluateLocalCastChecks N electionId receipt choice random =
     \<lparr>lc_receipt_present = resolveCastReceiptPresent receipt,
      lc_choice_range = resolveCastChoiceRange choice,
      lc_random_format = resolveCastRandomFormat random,
      lc_commitment_match = resolveCastCommitmentMatch N electionId receipt choice random\<rparr>"

definition local_result :: "local_cast_results \<Rightarrow> check_id \<Rightarrow> check_result option" where
  "local_result lr i =
     map_of [(cast_receipt_present, lc_receipt_present lr), (cast_choice_range, lc_choice_range lr),
             (cast_random_format, lc_random_format lr), (cast_commitment_match, lc_commitment_match lr)] i"

text \<open>The loop over the server checks: every id is in the table and none is repeated.\<close>

fun overlay_ids_ok :: "verification_check list \<Rightarrow> check_id list \<Rightarrow> bool" where
  "overlay_ids_ok [] seenIds = (length seenIds = length VERIFICATION_CHECK_DEFINITIONS)"
| "overlay_ids_ok (c # cs) seenIds =
     (if id_of c \<notin> set VERIFICATION_CHECK_IDS \<or> id_of c \<in> set seenIds then False
      else overlay_ids_ok cs (id_of c # seenIds))"

definition overlayLocalCastChecks ::
  "verification_check list \<Rightarrow> local_cast_results \<Rightarrow> verification_check list option" where
  "overlayLocalCastChecks serverChecks lr =
     (if length serverChecks \<noteq> length VERIFICATION_CHECK_DEFINITIONS then None
      else if \<not> overlay_ids_ok serverChecks [] then None
      else Some (map (\<lambda>c. case local_result lr (id_of c) of
                            None \<Rightarrow> c
                          | Some r \<Rightarrow>
                              (case find (\<lambda>d. def_id d = id_of c) VERIFICATION_CHECK_DEFINITIONS of
                                 None \<Rightarrow> c
                               | Some d \<Rightarrow> \<lparr>id_of = id_of c, status = res_status r, evidence = def_evidence d,
                                           inputs = def_inputs d, derivedFrom = def_derivedFrom d, noteKey = None\<rparr>)) serverChecks))"

definition projectLocalCastStatuses :: "local_cast_results \<Rightarrow> (check_id \<times> step_status) list" where
  "projectLocalCastStatuses lr =
     [(cast_receipt_present, res_status (lc_receipt_present lr)), (cast_choice_range, res_status (lc_choice_range lr)),
      (cast_random_format, res_status (lc_random_format lr)), (cast_commitment_match, res_status (lc_commitment_match lr))]"

section \<open>evaluate-checks.ts: recorded as cast\<close>

datatype engine_error = UnsafeBulletinIndex | UnsafeLeafIndex | UnknownCheck

definition isValidCount :: "jsnum option \<Rightarrow> bool" where
  "isValidCount v = (case v of None \<Rightarrow> False | Some n \<Rightarrow> isInteger n \<and> num_le (js_int 0) n)"

definition inclusion_of :: "noble \<Rightarrow> string \<Rightarrow> canonical_proof \<Rightarrow> check_result" where
  "inclusion_of N commitment p =
     (case verifyCTMerkleInclusion N commitment (cp_merklePath p) (to_int (cp_leafIndex p)) (cp_bulletinRootAtCast p)
             (to_int (cp_treeSize p)) of
        Inl e \<Rightarrow> failed_with (ThrownByTree e)
      | Inr b \<Rightarrow> if b then outcome Success else failed_with (Text ''Inclusion proof verification failed.''))"

definition resolveRecordedInclusionProof ::
  "noble \<Rightarrow> user_vote option \<Rightarrow> vote_receipt option \<Rightarrow> check_result" where
  "resolveRecordedInclusionProof N userVote voteReceipt =
     (case (toCanonicalRfc6962Proof (Option.bind userVote uv_proof), voteReceipt) of
        (Some p, Some receipt) \<Rightarrow>
          if \<not> truthy (Option.bind userVote uv_commitment) then outcome NotRun
          else if \<not> isValidCount (Some (rc_bulletinIndex receipt)) then outcome NotRun
          else (case (engine_asBulletinIndex (rc_bulletinIndex receipt), engine_asLeafIndex (cp_leafIndex p)) of
                  (Some i, Some li) \<Rightarrow>
                    if li \<noteq> i
                    then failed_with (Text ''Inclusion proof leaf index does not match receipt bulletin index.'')
                    else if \<not> isInteger (cp_treeSize p) \<or> num_le (cp_treeSize p) (js_int 0)
                    then failed_with (Text ''Inclusion proof tree size is invalid.'')
                    else if \<not> num_eq (cp_treeSize p) (js_int (i + 1))
                    then failed_with (Text ''Inclusion proof tree size does not match the cast snapshot.'')
                    else if normalizeHexString (cp_bulletinRootAtCast p) \<noteq> normalizeHexString (rc_bulletinRootAtCast receipt)
                    then failed_with (Text ''Inclusion proof root does not match receipt root at cast.'')
                    else inclusion_of N (the (Option.bind userVote uv_commitment)) p
                | _ \<Rightarrow> failed_with (Text ''Inclusion proof leaf index is invalid.''))
      | _ \<Rightarrow> outcome NotRun)"

definition resolveRecordedIndexInRange :: "vote_receipt option \<Rightarrow> jsnum option \<Rightarrow> check_result" where
  "resolveRecordedIndexInRange voteReceipt ts =
     (case (voteReceipt, ts) of
        (Some r, Some n) \<Rightarrow>
          if \<not> isInteger (rc_bulletinIndex r) \<or> \<not> isInteger n then outcome NotRun
          else (case engine_asBulletinIndex (rc_bulletinIndex r) of
                  None \<Rightarrow> failed_with (Text ''Invalid bulletin index'')
                | Some i \<Rightarrow> if num_lt (js_int i) n then outcome Success else failed_with (Text ''Invalid bulletin index''))
      | _ \<Rightarrow> outcome NotRun)"

definition isPositiveTreeSize :: "jsnum \<Rightarrow> bool" where
  "isPositiveTreeSize v = (isInteger v \<and> num_lt (js_int 0) v)"

text \<open>The validation of the cast snapshot returns the failure, or nothing; the two index brands throw.\<close>

definition validateConsistencySnapshot ::
  "canonical_proof \<Rightarrow> vote_receipt \<Rightarrow> jsnum \<Rightarrow> engine_error + check_result option" where
  "validateConsistencySnapshot p receipt finalSize =
     (if \<not> isInteger (cp_leafIndex p) \<or> num_lt (cp_leafIndex p) (js_int 0)
      then Inr (Some (failed_with (Text ''Consistency proof leaf index is invalid.'')))
      else (case engine_asBulletinIndex (rc_bulletinIndex receipt) of
              None \<Rightarrow> Inl UnsafeBulletinIndex
            | Some i \<Rightarrow>
                (case engine_asLeafIndex (cp_leafIndex p) of
                   None \<Rightarrow> Inl UnsafeLeafIndex
                 | Some li \<Rightarrow>
                     Inr (if li \<noteq> i
                          then Some (failed_with (Text ''Consistency proof leaf index does not match receipt bulletin index.''))
                          else if \<not> isInteger (cp_treeSize p) \<or> num_le (cp_treeSize p) (js_int 0)
                          then Some (failed_with (Text ''Consistency proof tree size is invalid.''))
                          else if \<not> num_eq (cp_treeSize p) (js_int (i + 1))
                          then Some (failed_with (Text ''Consistency proof tree size does not match the cast snapshot.''))
                          else if normalizeHexString (cp_bulletinRootAtCast p) \<noteq> normalizeHexString (rc_bulletinRootAtCast receipt)
                          then Some (failed_with (Text ''Root mismatch: receipt and inclusion proof disagree''))
                          else if num_lt finalSize (cp_treeSize p)
                          then Some (failed_with (Text ''Consistency proof tree size exceeds final bulletin size.''))
                          else None))))"

definition hasReceiptCastRoot :: "vote_receipt option \<Rightarrow> bool" where
  "hasReceiptCastRoot receipt = (case receipt of None \<Rightarrow> False | Some r \<Rightarrow> rc_bulletinRootAtCast r \<noteq> [])"

definition verifyAdmittedConsistencyProof ::
  "noble \<Rightarrow> admitted_consistency_proof acquisition \<Rightarrow> consistency_expectation \<Rightarrow> check_result" where
  "verifyAdmittedConsistencyProof N acq snapshot =
     (case acq of
        Unavailable _ \<Rightarrow> outcome NotRun
      | Malformed m \<Rightarrow> failed_with (case m of Some t \<Rightarrow> Text t | None \<Rightarrow> Text ''Consistency proof evidence could not be admitted.'')
      | TransportFailed m \<Rightarrow> failed_with (case m of Some t \<Rightarrow> Text t | None \<Rightarrow> Text ''Consistency proof evidence could not be admitted.'')
      | Admitted p \<Rightarrow>
          (let r = client_verifyConsistencyProof N p snapshot
           in if cv_isValid r then outcome Success
              else failed_with (case cv_error r of Some m \<Rightarrow> m | None \<Rightarrow> Text ''Consistency proof verification failed.'')))"

definition resolveRecordedConsistencyProof ::
  "noble \<Rightarrow> vote_receipt option \<Rightarrow> user_vote option \<Rightarrow> string option \<Rightarrow> jsnum option \<Rightarrow>
    admitted_consistency_proof acquisition \<Rightarrow> engine_error + check_result" where
  "resolveRecordedConsistencyProof N voteReceipt userVote bulletinRoot ts acq =
     (case (voteReceipt, ts) of
        (Some receipt, Some finalSize) \<Rightarrow>
          if \<not> hasReceiptCastRoot voteReceipt \<or> \<not> truthy bulletinRoot then Inr (outcome NotRun)
          else if \<not> isPositiveTreeSize finalSize then Inr (outcome NotRun)
          else (case toCanonicalRfc6962Proof (Option.bind userVote uv_proof) of
                  None \<Rightarrow> Inr (outcome NotRun)
                | Some p \<Rightarrow>
                    if \<not> isValidCount (Some (rc_bulletinIndex receipt)) then Inr (outcome NotRun)
                    else res_bind (validateConsistencySnapshot p receipt finalSize) (\<lambda>snapshotError.
                         case snapshotError of
                           Some e \<Rightarrow> Inr e
                         | None \<Rightarrow>
                             Inr (verifyAdmittedConsistencyProof N acq
                                    \<lparr>ce_fromTreeSize = cp_treeSize p, ce_toTreeSize = finalSize,
                                     ce_rootAtFromTreeSize = rc_bulletinRootAtCast receipt,
                                     ce_rootAtToTreeSize = the bulletinRoot\<rparr>)))
      | _ \<Rightarrow> Inr (outcome NotRun))"

definition hasPublicSthEvidence :: "'a evaluation_base_scheme \<Rightarrow> bool" where
  "hasPublicSthEvidence ev =
     (truthy (nullish (map_option j_sthDigest (in_journal ev)) (in_sthDigest ev)) \<and>
      truthy (nullish (map_option j_bulletinRoot (in_journal ev)) (in_bulletinRoot ev)) \<and>
      nullish (map_option j_treeSize (in_journal ev)) (in_treeSize ev) \<noteq> None)"

definition resolveRecordedSthThirdParty :: "'a evaluation_base_scheme \<Rightarrow> check_result" where
  "resolveRecordedSthThirdParty ev =
     (if \<not> hasPublicSthEvidence ev then outcome NotRun
      else if in_sthSourcesConfigured ev \<noteq> Some True then outcome NotRun
      else (case in_sthVerified ev of
              None \<Rightarrow> outcome NotRun
            | Some v \<Rightarrow> outcome (if v then Success else Failed)))"

section \<open>evaluate-checks.ts: counted as recorded\<close>

definition resolveCountedInputSanity :: "public_input_authority option \<Rightarrow> check_result" where
  "resolveCountedInputSanity authority =
     (case authority of
        None \<Rightarrow> outcome NotRun
      | Some a \<Rightarrow>
          if \<not> isInteger (pa_treeSize a) \<or> num_le (pa_treeSize a) (js_int 0) then outcome Failed
          else if num_lt (pa_treeSize a) (pa_votesCount a) then outcome Failed
          else if \<not> isValidHexString (pa_bulletinRoot a) (Some 32) then outcome Failed
          else if normalizeHexString (pa_bulletinRoot a) = replicate 64 CHR ''0'' then outcome Failed
          else outcome Success)"

definition resolveCountedUniqueIndices :: "public_input_authority option \<Rightarrow> check_result" where
  "resolveCountedUniqueIndices authority =
     (case authority of None \<Rightarrow> outcome NotRun | Some a \<Rightarrow> outcome (if pa_uniqueIndices a then Success else Failed))"

definition resolveCountedUniqueCommitments :: "public_input_authority option \<Rightarrow> check_result" where
  "resolveCountedUniqueCommitments authority =
     (case authority of None \<Rightarrow> outcome NotRun | Some a \<Rightarrow> outcome (if pa_uniqueCommitments a then Success else Failed))"

definition num_sum :: "jsnum list \<Rightarrow> jsnum" where
  "num_sum xs = foldl num_add (js_int 0) xs"

definition comparePublishedTally ::
  "(string \<Rightarrow> jsnum option) \<Rightarrow> jsnum \<Rightarrow> jsnum option list \<Rightarrow> check_result" where
  "comparePublishedTally counts totalVotes verifiedTally =
     (let countsArray = map counts VOTE_CHOICES in
      if None \<in> set countsArray then outcome NotRun
      else if length verifiedTally < length countsArray \<or> None \<in> set verifiedTally then outcome NotRun
      else let normalizedVerified = take (length countsArray) verifiedTally;
               tallyMatches = list_all2 (\<lambda>c v. num_eq (the c) (the v)) countsArray normalizedVerified
           in if tallyMatches \<and> num_eq (num_sum (map the normalizedVerified)) totalVotes
              then outcome Success else outcome Failed)"

definition validateJournalTally :: "zkvm_journal option \<Rightarrow> check_result" where
  "validateJournalTally journal =
     (case journal of
        None \<Rightarrow> outcome NotRun
      | Some j \<Rightarrow>
          (case (j_verifiedTally j, j_validVotes j) of
             (Some tally, Some validVotes) \<Rightarrow>
               if \<not> num_eq (num_sum tally) validVotes then failed_with (TallySumMismatch (num_sum tally) validVotes)
               else outcome Success
           | _ \<Rightarrow> outcome NotRun))"

definition resolveCountedTallyConsistent ::
  "zkvm_journal option \<Rightarrow> tally_input option \<Rightarrow> jsnum option list option \<Rightarrow> step_status option \<Rightarrow> check_result" where
  "resolveCountedTallyConsistent journal tally verifiedTally zkGateStatus =
     (case zkGateStatus of
        Some s \<Rightarrow> outcome s
      | None \<Rightarrow>
          if (case Option.bind journal j_totalVotes of None \<Rightarrow> False | Some n \<Rightarrow> num_eq n (js_int 0))
          then failed_with (Text ''No votes processed by zkVM'')
          else (case (Option.bind tally ti_counts, Option.bind tally ti_totalVotes, verifiedTally) of
                  (Some counts, Some totalVotes, Some vt) \<Rightarrow> comparePublishedTally counts totalVotes vt
                | _ \<Rightarrow> validateJournalTally journal))"

definition resolveInvalidJournalCounts :: "zkvm_journal option \<Rightarrow> check_result option" where
  "resolveInvalidJournalCounts journal =
     (case journal of
        None \<Rightarrow> None
      | Some j \<Rightarrow>
          (let invalidFields =
             (if \<not> isValidCount (j_excludedSlots j) then [''excludedSlots''] else []) @
             (if \<not> isValidCount (j_missingSlots j) then [''missingSlots''] else []) @
             (if \<not> isValidCount (j_invalidPresentedSlots j) then [''invalidPresentedSlots''] else []) @
             (if \<not> isValidCount (j_validVotes j) then [''validVotes''] else [])
           in if length invalidFields = 0 then None else Some (failed_with (InvalidJournalFields invalidFields))))"

definition resolveCountedMissingIndicesZero ::
  "zkvm_journal option \<Rightarrow> jsnum option \<Rightarrow> jsnum option \<Rightarrow> jsnum option \<Rightarrow> step_status option \<Rightarrow> check_result" where
  "resolveCountedMissingIndicesZero journal missing invalid excluded zkGateStatus =
     (case resolveInvalidJournalCounts journal of
        Some e \<Rightarrow> e
      | None \<Rightarrow>
          (case resolveExcludedCount journal missing invalid excluded False of
             None \<Rightarrow> outcome NotRun
           | Some n \<Rightarrow>
               if num_lt (js_int 0) n then failed_with (ExcludedSlotsMessage n)
               else (case zkGateStatus of Some s \<Rightarrow> outcome s | None \<Rightarrow> outcome Success)))"

definition resolveCountedExpectedVsTreeSize ::
  "zkvm_journal option \<Rightarrow> jsnum option \<Rightarrow> jsnum option \<Rightarrow> step_status option \<Rightarrow> check_result" where
  "resolveCountedExpectedVsTreeSize journal expected ts zkGateStatus =
     (case zkGateStatus of
        Some s \<Rightarrow> outcome s
      | None \<Rightarrow>
          (case (nullish expected (map_option j_totalExpected journal), nullish ts (map_option j_treeSize journal)) of
             (Some e, Some n) \<Rightarrow>
               if \<not> isInteger e \<or> \<not> isInteger n then outcome NotRun
               else outcome (if num_eq e n then Success else Failed)
           | _ \<Rightarrow> outcome NotRun))"

definition resolveCountedInputCommitmentMatch ::
  "zkvm_journal option \<Rightarrow> string option \<Rightarrow> public_input_authority option \<Rightarrow> step_status option \<Rightarrow> check_result" where
  "resolveCountedInputCommitmentMatch journal inputCommitment authority zkGateStatus =
     (case zkGateStatus of
        Some s \<Rightarrow> outcome s
      | None \<Rightarrow>
          (case authority of
             None \<Rightarrow> outcome NotRun
           | Some a \<Rightarrow>
               (let resolved = nullish (map_option j_inputCommitment journal) inputCommitment in
                if \<not> truthy resolved then outcome NotRun
                else if pa_recomputedInputCommitment a = [] then outcome NotRun
                else outcome (if normalizeHexString (pa_recomputedInputCommitment a) = normalizeHexString (the resolved)
                              then Success else Failed))))"

text \<open>The non-empty strings among optional candidates.\<close>

definition present_strings :: "string option list \<Rightarrow> string list" where
  "present_strings xs = filter (\<lambda>s. s \<noteq> []) (List.map_filter (\<lambda>x. x) xs)"

definition compareElectionManifestInputs ::
  "'a evaluation_base_scheme \<Rightarrow> election_manifest \<Rightarrow> string \<Rightarrow> check_result" where
  "compareElectionManifestInputs ev manifest recomputedHash =
     (let candidateElectionIds = present_strings
            [Some (em_electionId manifest), in_electionId ev, map_option pa_electionId (in_publicInputAuthority ev),
             map_option j_electionId (in_journal ev)]
      in if card (set candidateElectionIds) > 1
         then failed_with (Text ''Election manifest electionId does not match verification inputs.'')
         else let candidateHashes = present_strings
                    [Some (em_electionConfigHash manifest), in_electionConfigHash ev,
                     map_option pa_electionConfigHash (in_publicInputAuthority ev), map_option j_electionConfigHash (in_journal ev)]
              in if list_ex (\<lambda>v. normalizeHexString v \<noteq> normalizeHexString recomputedHash) candidateHashes
                 then failed_with (Text ''Election config hash mismatch between manifest and verification inputs.'')
                 else outcome Success)"

definition resolveCountedElectionManifestConsistent ::
  "noble \<Rightarrow> 'a evaluation_base_scheme \<Rightarrow> step_status option \<Rightarrow> check_result" where
  "resolveCountedElectionManifestConsistent N ev zkGateStatus =
     (case zkGateStatus of
        Some s \<Rightarrow> outcome s
      | None \<Rightarrow>
          (case in_electionManifest ev of
             None \<Rightarrow> outcome NotRun
           | Some manifest \<Rightarrow>
               (let recomputedHash = recomputeElectionManifestHash N manifest in
                if normalizeHexString recomputedHash \<noteq> normalizeHexString (em_electionConfigHash manifest)
                then failed_with (Text ''Election manifest hash does not match its declared configuration.'')
                else compareElectionManifestInputs ev manifest recomputedHash)))"

definition validateCloseStatementArtifact :: "noble \<Rightarrow> close_statement \<Rightarrow> check_result option" where
  "validateCloseStatementArtifact N c =
     (case buildCloseStatement N (cs_logId c) (cs_treeSize c) (cs_timestamp c) (cs_bulletinRoot c) of
        Inl e \<Rightarrow> Some (failed_with (ThrownByContract e))
      | Inr recomputed \<Rightarrow>
          if normalizeHexString (cs_sthDigest recomputed) \<noteq> normalizeHexString (cs_sthDigest c)
          then Some (failed_with (Text ''Close statement digest does not match its declared snapshot.''))
          else None)"

definition compareCloseStatementInputs ::
  "'a evaluation_base_scheme \<Rightarrow> close_statement \<Rightarrow> string \<Rightarrow> check_result" where
  "compareCloseStatementInputs ev c admittedDigest =
     (let logIds = present_strings [Some (cs_logId c), in_logId ev];
          sizes = filter isInteger (List.map_filter (\<lambda>x. x) [Some (cs_treeSize c), in_treeSize ev, map_option j_treeSize (in_journal ev)]);
          roots = present_strings [Some (cs_bulletinRoot c), in_bulletinRoot ev, map_option j_bulletinRoot (in_journal ev)];
          digests = present_strings [Some (cs_sthDigest c), in_sthDigest ev, map_option j_sthDigest (in_journal ev)]
      in if card (set (map normalizeHexString logIds)) > 1
         then failed_with (Text ''Close statement logId does not match verification inputs.'')
         else if card (set sizes) > 1
         then failed_with (Text ''Close statement treeSize does not match verification inputs.'')
         else if card (set (map normalizeHexString roots)) > 1
         then failed_with (Text ''Close statement bulletinRoot does not match verification inputs.'')
         else if list_ex (\<lambda>v. normalizeHexString v \<noteq> normalizeHexString admittedDigest) digests
         then failed_with (Text ''Close statement STH digest does not match verification inputs.'')
         else outcome Success)"

definition resolveCountedCloseStatementConsistent ::
  "noble \<Rightarrow> 'a evaluation_base_scheme \<Rightarrow> step_status option \<Rightarrow> check_result" where
  "resolveCountedCloseStatementConsistent N ev zkGateStatus =
     (case zkGateStatus of
        Some s \<Rightarrow> outcome s
      | None \<Rightarrow>
          (case in_closeStatement ev of
             None \<Rightarrow> outcome NotRun
           | Some c \<Rightarrow>
               (case map_option pa_timestamp (in_publicInputAuthority ev) of
                  None \<Rightarrow> outcome NotRun
                | Some t \<Rightarrow>
                    if \<not> isInteger t then outcome NotRun
                    else (case validateCloseStatementArtifact N c of
                            Some e \<Rightarrow> e
                          | None \<Rightarrow>
                              if \<not> num_eq (cs_timestamp c) t
                              then failed_with (Text ''Close statement timestamp does not match public input.'')
                              else compareCloseStatementInputs ev c (cs_sthDigest c)))))"

subsection \<open>My vote included\<close>

definition hasBitmapReceiptPosition :: "jsnum option \<Rightarrow> bool" where
  "hasBitmapReceiptPosition v = (case v of None \<Rightarrow> False | Some n \<Rightarrow> isInteger n)"

definition admitBitmapTreeSize :: "jsnum option \<Rightarrow> int option" where
  "admitBitmapTreeSize candidate =
     (case candidate of
        None \<Rightarrow> None
      | Some n \<Rightarrow> (case asAuthenticatedBitmapTreeSize n of Inl _ \<Rightarrow> None | Inr t \<Rightarrow> Some t))"

definition included_root :: "'a evaluation_base_scheme \<Rightarrow> string option" where
  "included_root ev = nullish (map_option j_includedBitmapRoot (in_journal ev)) (in_includedBitmapRoot ev)"

definition resolveCountedMyVoteIncludedNoteKey :: "'a evaluation_base_scheme \<Rightarrow> note_key option" where
  "resolveCountedMyVoteIncludedNoteKey ev =
     (if (case resolveExcludedCount (in_journal ev) (in_missingSlots ev) (in_invalidPresentedSlots ev) (in_excludedSlots ev) False of
            None \<Rightarrow> False | Some n \<Rightarrow> num_lt (js_int 0) n)
      then Some Excluded
      else if \<not> truthy (included_root ev) \<or> \<not> hasBitmapReceiptPosition (map_option rc_bulletinIndex (in_voteReceipt ev))
      then Some MissingReceipt
      else if in_bitmapProofSource ev = None then Some ProofUnavailable
      else None)"

definition unresolvedMyVoteCheck :: "'a evaluation_base_scheme \<Rightarrow> check_result" where
  "unresolvedMyVoteCheck ev = noted NotRun (resolveCountedMyVoteIncludedNoteKey ev)"

definition resolveBitmapProofAuthority ::
  "'a evaluation_base_scheme \<Rightarrow> string option \<times> string option \<times> jsnum option" where
  "resolveBitmapProofAuthority ev =
     (included_root ev,
      nullish (Option.bind (in_journal ev) j_seenBitmapRoot) (in_seenBitmapRoot ev),
      nullish (map_option j_treeSize (in_journal ev)) (in_treeSize ev))"

definition hasAdmittedBitmapProofSource :: "'a evaluation_base_scheme \<Rightarrow> bool" where
  "hasAdmittedBitmapProofSource ev = (in_bitmapProofSource ev = Some Mock \<or> in_bitmapProofSource ev = Some Real)"

definition projectMyVoteProofResult :: "bool \<Rightarrow> bool \<Rightarrow> vote_inclusion_status option \<Rightarrow> check_result" where
  "projectMyVoteProofResult v inc detail =
     (if \<not> v then outcome Failed
      else if inc then outcome Success
      else (case detail of
              None \<Rightarrow> outcome Failed
            | Some not_presented \<Rightarrow> noted Failed (Some NotPresented)
            | Some presented_but_invalid \<Rightarrow> noted Failed (Some PresentedButInvalid)
            | Some unknown_excluded \<Rightarrow> noted Failed (Some Excluded)
            | Some counted \<Rightarrow> outcome Failed))"

fun admitted_value :: "'a acquisition \<Rightarrow> 'a option" where
  "admitted_value (Admitted v) = Some v"
| "admitted_value _ = None"

definition evaluateMyVoteBitmapProof ::
  "noble \<Rightarrow> admitted_evidence \<Rightarrow> jsnum \<Rightarrow> string \<Rightarrow> string option \<Rightarrow> int \<Rightarrow> bitmap_proof \<Rightarrow> check_result" where
  "evaluateMyVoteBitmapProof N ev bulletinIndex includedRoot seenRoot ts includedProof =
     (if truthy seenRoot then
        (case explainVoteInclusionStatus N bulletinIndex includedRoot seenRoot includedProof
                (admitted_value (ev_seenBitmapProof ev)) (js_int ts) of
           Inl _ \<Rightarrow> unresolvedMyVoteCheck ev
         | Inr r \<Rightarrow> projectMyVoteProofResult (valid r) (included r) (Some (statusDetail r)))
      else
        (case verifyMyVoteWasCounted N bulletinIndex includedRoot includedProof (js_int ts) of
           Inl _ \<Rightarrow> unresolvedMyVoteCheck ev
         | Inr r \<Rightarrow> projectMyVoteProofResult (valid r) (included r) None))"

definition resolveCountedMyVoteIncluded :: "noble \<Rightarrow> admitted_evidence \<Rightarrow> step_status option \<Rightarrow> check_result" where
  "resolveCountedMyVoteIncluded N ev zkGateStatus =
     (case zkGateStatus of
        Some s \<Rightarrow> outcome s
      | None \<Rightarrow>
          (case resolveBitmapProofAuthority ev of
             (includedRoot, seenRoot, candidate) \<Rightarrow>
               (let receiptIndex = map_option rc_bulletinIndex (in_voteReceipt ev) in
                if \<not> truthy includedRoot \<or> \<not> hasBitmapReceiptPosition receiptIndex then unresolvedMyVoteCheck ev
                else (case admitBitmapTreeSize candidate of
                        None \<Rightarrow> unresolvedMyVoteCheck ev
                      | Some ts \<Rightarrow>
                          if \<not> hasAdmittedBitmapProofSource ev then unresolvedMyVoteCheck ev
                          else (case admitted_value (ev_includedBitmapProof ev) of
                                  None \<Rightarrow> unresolvedMyVoteCheck ev
                                | Some p \<Rightarrow> evaluateMyVoteBitmapProof N ev (the receiptIndex) (the includedRoot) seenRoot ts p)))))"

section \<open>evaluate-checks.ts: STARK verification\<close>

definition isValidImageId :: "string \<Rightarrow> bool" where
  "isValidImageId v = isValidHexString v (Some 32)"

definition hasValidImageIdEvidence ::
  "string option \<Rightarrow> string option \<Rightarrow> verification_report option \<Rightarrow> bool" where
  "hasValidImageIdEvidence claimed comparison report =
     (list_all (\<lambda>v. case v of None \<Rightarrow> True | Some s \<Rightarrow> isValidImageId s)
        [claimed, comparison, Option.bind report expected_image_id] \<and>
      (case Option.bind report receipt_image_id of Some (Some s) \<Rightarrow> isValidImageId s | _ \<Rightarrow> True))"

definition compareConfirmedReceiptImageId ::
  "string \<Rightarrow> string \<Rightarrow> string option \<Rightarrow> string option \<Rightarrow> check_result" where
  "compareConfirmedReceiptImageId expectedId receiptId claimed comparison =
     (let expected = normalizeHexString expectedId; receipt = normalizeHexString receiptId in
      if expected \<noteq> receipt then outcome Failed
      else if truthy claimed \<and> normalizeHexString (the claimed) \<noteq> receipt
      then failed_with (Text ''Claimed ImageID does not match verifier-confirmed receipt ImageID.'')
      else if truthy comparison \<and> normalizeHexString (the comparison) \<noteq> receipt
      then failed_with (Text ''Comparison-only journal ImageID does not match verifier-confirmed receipt ImageID.'')
      else outcome Success)"

definition compareVerifierImageIds ::
  "string option \<Rightarrow> string option \<Rightarrow> verification_report option \<Rightarrow> check_result" where
  "compareVerifierImageIds claimed comparison report =
     (case report of
        None \<Rightarrow> outcome NotRun
      | Some r \<Rightarrow>
          if \<not> truthy (expected_image_id r) then outcome NotRun
          else (case receipt_image_id r of
                  None \<Rightarrow> outcome NotRun
                | Some rid \<Rightarrow>
                    if \<not> truthy rid then outcome Failed
                    else compareConfirmedReceiptImageId (the (expected_image_id r)) (the rid) claimed comparison))"

definition resolveStarkImageIdMatch ::
  "string option \<Rightarrow> string option \<Rightarrow> verification_report option \<Rightarrow> step_status \<Rightarrow> check_result" where
  "resolveStarkImageIdMatch claimed comparison report s =
     (if s = Running \<or> s = NotRun \<or> s = Failed then outcome s
      else if \<not> hasValidImageIdEvidence claimed comparison report
      then failed_with (Text ''ImageID evidence must be a 32-byte hexadecimal value.'')
      else if truthy claimed \<and> truthy comparison \<and> normalizeHexString (the claimed) \<noteq> normalizeHexString (the comparison)
      then failed_with (Text ''Claimed ImageID does not match comparison evidence.'')
      else compareVerifierImageIds claimed comparison report)"

definition resolveStarkStatus :: "verifier_outcome \<Rightarrow> bool option \<Rightarrow> step_status" where
  "resolveStarkStatus oc allowDevMode =
     (case vo_status oc of
        VDevMode \<Rightarrow> if allowDevMode = Some True then Success else NotRun
      | VNotRun \<Rightarrow> NotRun | VRunning \<Rightarrow> Running | VSuccess \<Rightarrow> Success | VFailed \<Rightarrow> Failed)"

definition resolveZkGateStatus :: "step_status \<Rightarrow> step_status option" where
  "resolveZkGateStatus s =
     (if s = Running then Some Pending
      else if s = NotRun then Some NotRun
      else if s = Failed then Some Failed
      else None)"

section \<open>evaluate-checks.ts: the evaluators\<close>

definition ZK_GATE_CONTROLLED_CHECK_IDS :: "check_id list" where
  "ZK_GATE_CONTROLLED_CHECK_IDS =
     [counted_tally_consistent, counted_expected_vs_tree_size, counted_election_manifest_consistent,
      counted_close_statement_consistent, counted_my_vote_included, counted_input_commitment_match]"

definition isCheckStatusZkGateControlled :: "check_id \<Rightarrow> bool" where
  "isCheckStatusZkGateControlled i = (i \<in> set ZK_GATE_CONTROLLED_CHECK_IDS)"

record evaluation_runtime =
  starkStatus :: step_status
  zkGateStatus :: "step_status option"
  localCastResults :: local_cast_results

definition CHECK_EVALUATORS ::
  "noble \<Rightarrow> (check_id \<Rightarrow> engine_error + check_result) \<Rightarrow> check_id \<Rightarrow> admitted_evidence \<Rightarrow> evaluation_runtime \<Rightarrow>
    engine_error + check_result" where
  "CHECK_EVALUATORS N evaluate i ev rt =
     (case i of
        cast_receipt_present \<Rightarrow> Inr (lc_receipt_present (localCastResults rt))
      | cast_choice_range \<Rightarrow> Inr (lc_choice_range (localCastResults rt))
      | cast_random_format \<Rightarrow> Inr (lc_random_format (localCastResults rt))
      | cast_commitment_match \<Rightarrow> Inr (lc_commitment_match (localCastResults rt))
      | recorded_commitment_in_bulletin \<Rightarrow> evaluate recorded_inclusion_proof
      | recorded_index_in_range \<Rightarrow> Inr (resolveRecordedIndexInRange (in_voteReceipt ev) (in_treeSize ev))
      | recorded_root_at_cast_consistent \<Rightarrow> evaluate recorded_consistency_proof
      | recorded_inclusion_proof \<Rightarrow> Inr (resolveRecordedInclusionProof N (in_userVote ev) (in_voteReceipt ev))
      | recorded_consistency_proof \<Rightarrow>
          resolveRecordedConsistencyProof N (in_voteReceipt ev) (in_userVote ev) (in_bulletinRoot ev) (in_treeSize ev)
            (ev_consistencyProof ev)
      | recorded_sth_third_party \<Rightarrow> Inr (resolveRecordedSthThirdParty ev)
      | counted_input_sanity \<Rightarrow> Inr (resolveCountedInputSanity (in_publicInputAuthority ev))
      | counted_unique_indices \<Rightarrow> Inr (resolveCountedUniqueIndices (in_publicInputAuthority ev))
      | counted_unique_commitments \<Rightarrow> Inr (resolveCountedUniqueCommitments (in_publicInputAuthority ev))
      | counted_tally_consistent \<Rightarrow>
          Inr (resolveCountedTallyConsistent (in_journal ev) (in_tally ev) (in_verifiedTally ev) (zkGateStatus rt))
      | counted_missing_indices_zero \<Rightarrow>
          Inr (resolveCountedMissingIndicesZero (in_journal ev) (in_missingSlots ev) (in_invalidPresentedSlots ev)
                 (in_excludedSlots ev) (zkGateStatus rt))
      | counted_expected_vs_tree_size \<Rightarrow>
          Inr (resolveCountedExpectedVsTreeSize (in_journal ev) (in_totalExpected ev) (in_treeSize ev) (zkGateStatus rt))
      | counted_election_manifest_consistent \<Rightarrow> Inr (resolveCountedElectionManifestConsistent N ev (zkGateStatus rt))
      | counted_close_statement_consistent \<Rightarrow> Inr (resolveCountedCloseStatementConsistent N ev (zkGateStatus rt))
      | counted_my_vote_included \<Rightarrow> Inr (resolveCountedMyVoteIncluded N ev (zkGateStatus rt))
      | counted_input_commitment_match \<Rightarrow>
          Inr (resolveCountedInputCommitmentMatch (in_journal ev) (in_inputCommitment ev) (in_publicInputAuthority ev) (zkGateStatus rt))
      | stark_image_id_match \<Rightarrow>
          Inr (resolveStarkImageIdMatch (in_claimedImageId ev) (in_comparisonImageId ev) (vo_report (ev_verifierOutcome ev)) (starkStatus rt))
      | stark_receipt_verify \<Rightarrow> Inr (outcome (starkStatus rt))
      | unknown_check s \<Rightarrow> Inl UnknownCheck)"

text \<open>\<^verbatim>\<open>helpers.evaluate\<close>: two evaluators delegate to a check that does not delegate, so one level of calls is enough.\<close>

definition evaluateSelectedCheck :: "noble \<Rightarrow> admitted_evidence \<Rightarrow> evaluation_runtime \<Rightarrow> check_id \<Rightarrow> engine_error + check_result" where
  "evaluateSelectedCheck N ev rt i =
     CHECK_EVALUATORS N (\<lambda>j. CHECK_EVALUATORS N (\<lambda>_. Inl UnknownCheck) j ev rt) i ev rt"

definition evaluation_runtime_of :: "noble \<Rightarrow> admitted_evidence \<Rightarrow> bool \<Rightarrow> evaluation_runtime" where
  "evaluation_runtime_of N ev applyZkGate =
     (let stark = resolveStarkStatus (ev_verifierOutcome ev) (in_allowDevModeVerification ev) in
      \<lparr>starkStatus = stark,
       zkGateStatus = (if applyZkGate then resolveZkGateStatus stark else None),
       localCastResults = evaluateLocalCastChecks N (in_electionId ev) (in_voteReceipt ev)
         (Option.bind (in_userVote ev) uv_vote) (Option.bind (in_userVote ev) uv_random)\<rparr>)"

definition evaluateChecks ::
  "noble \<Rightarrow> evaluation_input \<Rightarrow> check_id list \<Rightarrow> bool option \<Rightarrow> engine_error + (check_id \<times> check_result) list" where
  "evaluateChecks N inp checkIds applyZkGate =
     (let ev = admitVerificationEvidence inp;
          rt = evaluation_runtime_of N ev (case applyZkGate of None \<Rightarrow> True | Some b \<Rightarrow> b)
      in res_map (\<lambda>i. res_bind (evaluateSelectedCheck N ev rt i) (\<lambda>r. Inr (i, r))) checkIds)"

definition evaluateAllChecks ::
  "noble \<Rightarrow> evaluation_input \<Rightarrow> bool option \<Rightarrow> engine_error + (check_id \<times> check_result) list" where
  "evaluateAllChecks N inp applyZkGate = evaluateChecks N inp VERIFICATION_CHECK_IDS applyZkGate"

end
