(* ===== verification/Engine.thy ===== *)
theory Engine
  imports Evaluate
begin

text \<open>
  What a successful check of the verification engine means: the gated checks need a verified proof, and the
  recorded-as-cast checks place the vote in the published log.
\<close>

section \<open>Reading results\<close>

definition check_succeeds :: "(check_id \<times> check_result) list \<Rightarrow> check_id \<Rightarrow> bool" where
  "check_succeeds rs i = (case map_of rs i of None \<Rightarrow> False | Some r \<Rightarrow> res_status r = Success)"

definition runtime_of :: "noble \<Rightarrow> evaluation_input \<Rightarrow> bool option \<Rightarrow> evaluation_runtime" where
  "runtime_of N inp gate =
     evaluation_runtime_of N (admitVerificationEvidence inp) (case gate of None \<Rightarrow> True | Some b \<Rightarrow> b)"

lemma admit_fields [simp]:
  "in_electionId (admitVerificationEvidence inp) = in_electionId inp"
  "in_electionConfigHash (admitVerificationEvidence inp) = in_electionConfigHash inp"
  "in_logId (admitVerificationEvidence inp) = in_logId inp"
  "in_sthSourcesConfigured (admitVerificationEvidence inp) = in_sthSourcesConfigured inp"
  "in_claimedImageId (admitVerificationEvidence inp) = in_claimedImageId inp"
  "in_comparisonImageId (admitVerificationEvidence inp) = in_comparisonImageId inp"
  "in_allowDevModeVerification (admitVerificationEvidence inp) = in_allowDevModeVerification inp"
  "in_voteReceipt (admitVerificationEvidence inp) = in_voteReceipt inp"
  "in_userVote (admitVerificationEvidence inp) = in_userVote inp"
  "in_journal (admitVerificationEvidence inp) = in_journal inp"
  "in_electionManifest (admitVerificationEvidence inp) = in_electionManifest inp"
  "in_closeStatement (admitVerificationEvidence inp) = in_closeStatement inp"
  "in_sthDigest (admitVerificationEvidence inp) = in_sthDigest inp"
  "in_sthVerified (admitVerificationEvidence inp) = in_sthVerified inp"
  "in_bulletinRoot (admitVerificationEvidence inp) = in_bulletinRoot inp"
  "in_treeSize (admitVerificationEvidence inp) = in_treeSize inp"
  "in_publicInputAuthority (admitVerificationEvidence inp) = in_publicInputAuthority inp"
  "in_seenBitmapRoot (admitVerificationEvidence inp) = in_seenBitmapRoot inp"
  "in_includedBitmapRoot (admitVerificationEvidence inp) = in_includedBitmapRoot inp"
  "in_bitmapProofSource (admitVerificationEvidence inp) = in_bitmapProofSource inp"
  "in_missingSlots (admitVerificationEvidence inp) = in_missingSlots inp"
  "in_invalidPresentedSlots (admitVerificationEvidence inp) = in_invalidPresentedSlots inp"
  "in_excludedSlots (admitVerificationEvidence inp) = in_excludedSlots inp"
  "in_tally (admitVerificationEvidence inp) = in_tally inp"
  "in_verifiedTally (admitVerificationEvidence inp) = in_verifiedTally inp"
  "in_totalExpected (admitVerificationEvidence inp) = in_totalExpected inp"
  "in_inputCommitment (admitVerificationEvidence inp) = in_inputCommitment inp"
  by (simp_all add: admitVerificationEvidence_def evaluation_base.defs)

lemma admit_acquisitions [simp]:
  "ev_consistencyProof (admitVerificationEvidence inp) = orUnavailable (inp_consistencyProof inp)"
  "ev_includedBitmapProof (admitVerificationEvidence inp) = orUnavailable (inp_includedBitmapProof inp)"
  "ev_seenBitmapProof (admitVerificationEvidence inp) = orUnavailable (inp_seenBitmapProof inp)"
  "ev_verifierOutcome (admitVerificationEvidence inp) =
     normalizeVerifierOutcome (case inp_verifierOutcome inp of Some oc \<Rightarrow> oc
       | None \<Rightarrow> \<lparr>vo_status = VNotRun, vo_report = None, vo_failureCategory = None\<rparr>)"
  by (simp_all add: admitVerificationEvidence_def evaluation_base.defs admitted_evidence.defs)

lemma map_of_list_all2:
  assumes "list_all2 (\<lambda>i p. fst p = i \<and> P i (snd p)) is ps" "map_of ps i = Some r"
  shows "P i r" "i \<in> set is"
proof -
  have "P i r \<and> i \<in> set is"
    using assms by (induction rule: list_all2_induct) (auto split: if_splits)
  then show "P i r" "i \<in> set is" by simp_all
qed

lemma evaluateChecks_pairs:
  assumes "evaluateChecks N inp ids gate = Inr rs"
  shows "list_all2 (\<lambda>i p. fst p = i \<and>
    evaluateSelectedCheck N (admitVerificationEvidence inp) (runtime_of N inp gate) i = Inr (snd p)) ids rs"
  using assms by (auto simp: evaluateChecks_def Let_def runtime_of_def err_simps elim!: list_all2_mono)

lemma evaluated:
  assumes "evaluateChecks N inp ids gate = Inr rs" "check_succeeds rs i"
  obtains r where "evaluateSelectedCheck N (admitVerificationEvidence inp) (runtime_of N inp gate) i = Inr r"
    "res_status r = Success"
  using assms(2) map_of_list_all2(1) [OF evaluateChecks_pairs [OF assms(1)]]
  by (auto simp: check_succeeds_def split: option.splits)

lemmas selected = evaluateSelectedCheck_def CHECK_EVALUATORS_def

section \<open>The gate of the zkVM proof\<close>

lemma stark_success:
  assumes "resolveStarkStatus (ev_verifierOutcome (admitVerificationEvidence inp)) (in_allowDevModeVerification inp) = Success"
  shows "\<exists>oc. inp_verifierOutcome inp = Some oc \<and>
    (vo_status oc = VSuccess \<or> vo_status oc = VDevMode \<and> in_allowDevModeVerification inp = Some True)"
  using assms
  by (auto simp: resolveStarkStatus_def normalizeVerifierOutcome_def
      split: option.splits verifier_status.splits if_splits)

lemma gate_status:
  "resolveZkGateStatus s = None \<longleftrightarrow> s = Success \<or> s = Pending"
  "resolveZkGateStatus s \<noteq> Some Success"
  by (cases s; simp add: resolveZkGateStatus_def)+

lemma stark_not_pending: "resolveStarkStatus oc b \<noteq> Pending"
  by (auto simp: resolveStarkStatus_def split: verifier_status.splits)

text \<open>With the gate closed a gated check repeats the status of the gate.\<close>

lemma gated_status:
  assumes "evaluateSelectedCheck N ev rt i = Inr r" "zkGateStatus rt = Some s" "isCheckStatusZkGateControlled i"
  shows "res_status r = s"
  using assms
  by (auto simp: isCheckStatusZkGateControlled_def ZK_GATE_CONTROLLED_CHECK_IDS_def selected
      resolveCountedTallyConsistent_def resolveCountedExpectedVsTreeSize_def resolveCountedElectionManifestConsistent_def
      resolveCountedCloseStatementConsistent_def resolveCountedMyVoteIncluded_def resolveCountedInputCommitmentMatch_def)

lemma missing_gate:
  assumes "evaluateSelectedCheck N ev rt counted_missing_indices_zero = Inr r" "zkGateStatus rt = Some s" "res_status r = Success"
  shows "s = Success"
  using assms
  by (auto simp: selected resolveCountedMissingIndicesZero_def resolveInvalidJournalCounts_def Let_def
      split: option.splits if_splits)

lemma image_gate:
  assumes "evaluateSelectedCheck N ev rt stark_image_id_match = Inr r" "res_status r = Success"
  shows "starkStatus rt = Success \<or> starkStatus rt = Pending"
  using assms by (cases "starkStatus rt") (auto simp: selected resolveStarkImageIdMatch_def)

lemma gate_open:
  assumes "evaluateChecks N inp ids gate = Inr rs" "check_succeeds rs i" "isCheckStatusZkGateControlled i"
  obtains r where "zkGateStatus (runtime_of N inp gate) = None" "res_status r = Success"
    "evaluateSelectedCheck N (admitVerificationEvidence inp) (runtime_of N inp gate) i = Inr r"
proof -
  obtain r where r: "evaluateSelectedCheck N (admitVerificationEvidence inp) (runtime_of N inp gate) i = Inr r"
    "res_status r = Success" using evaluated [OF assms(1,2)] .
  have "zkGateStatus (runtime_of N inp gate) = None"
  proof (cases "zkGateStatus (runtime_of N inp gate)")
    case (Some s)
    then have "s = Success" using gated_status [OF r(1) _ assms(3)] r(2) by simp
    then show ?thesis
      using Some gate_status(2) by (auto simp: runtime_of_def evaluation_runtime_of_def Let_def split: if_splits option.splits)
  qed simp
  then show thesis using that r by blast
qed

lemma verified_proof_needed:
  assumes "evaluateChecks N inp ids gate = Inr rs" "gate \<noteq> Some False" "check_succeeds rs i"
    "isCheckStatusZkGateControlled i \<or> i \<in> {counted_missing_indices_zero, stark_image_id_match, stark_receipt_verify}"
  shows "\<exists>oc. inp_verifierOutcome inp = Some oc \<and>
    (vo_status oc = VSuccess \<or> vo_status oc = VDevMode \<and> in_allowDevModeVerification inp = Some True)"
proof (rule stark_success)
  let ?rt = "runtime_of N inp gate"
  let ?s = "resolveStarkStatus (ev_verifierOutcome (admitVerificationEvidence inp)) (in_allowDevModeVerification inp)"
  have rt: "starkStatus ?rt = ?s" "zkGateStatus ?rt = resolveZkGateStatus ?s"
    using assms(2) by (auto simp: runtime_of_def evaluation_runtime_of_def Let_def split: option.splits)
  obtain r where r: "evaluateSelectedCheck N (admitVerificationEvidence inp) ?rt i = Inr r" "res_status r = Success"
    using evaluated [OF assms(1,3)] .
  show "?s = Success"
  proof (cases "resolveZkGateStatus ?s")
    case None
    then show ?thesis using gate_status(1) stark_not_pending by blast
  next
    case (Some g)
    then have g: "zkGateStatus ?rt = Some g" "g \<noteq> Success" using rt gate_status(2) by auto
    from assms(4) show ?thesis
    proof (elim disjE insertE)
      assume "isCheckStatusZkGateControlled i"
      then show ?thesis using gated_status [OF r(1) g(1)] r(2) g(2) by simp
    next
      assume "i = counted_missing_indices_zero"
      then show ?thesis using missing_gate [OF _ g(1)] r g(2) by blast
    next
      assume "i = stark_image_id_match"
      then show ?thesis using image_gate r rt stark_not_pending by metis
    next
      assume "i = stark_receipt_verify"
      then show ?thesis using r rt by (auto simp: selected)
    qed simp
  qed
qed

text \<open>C6: no check that rests on the zkVM proof succeeds without it.  When the gate is applied (the default)
  and one of the gated checks, the completeness check or a STARK check succeeds, the external verifier
  reported success, or development mode where it was allowed explicitly.\<close>

theorem zk_checks_need_verified_proof:
  assumes "evaluateChecks N inp ids gate = Inr rs" "gate \<noteq> Some False" "check_succeeds rs i"
    "isCheckStatusZkGateControlled i \<or> i \<in> {counted_missing_indices_zero, stark_image_id_match, stark_receipt_verify}"
  shows "\<exists>oc. inp_verifierOutcome inp = Some oc \<and>
    (vo_status oc = VSuccess \<or> vo_status oc = VDevMode \<and> in_allowDevModeVerification inp = Some True)"
  using assms by (rule verified_proof_needed)

definition empty_input :: evaluation_input where
  "empty_input =
     \<lparr>in_electionId = None, in_electionConfigHash = None, in_logId = None, in_sthSourcesConfigured = None,
      in_claimedImageId = None, in_comparisonImageId = None, in_allowDevModeVerification = None,
      in_voteReceipt = None, in_userVote = None, in_journal = None, in_electionManifest = None,
      in_closeStatement = None, in_sthDigest = None, in_sthVerified = None, in_bulletinRoot = None,
      in_treeSize = None, in_publicInputAuthority = None, in_seenBitmapRoot = None, in_includedBitmapRoot = None,
      in_bitmapProofSource = None, in_missingSlots = None, in_invalidPresentedSlots = None, in_excludedSlots = None,
      in_tally = None, in_verifiedTally = None, in_totalExpected = None, in_inputCommitment = None,
      inp_consistencyProof = None, inp_includedBitmapProof = None, inp_seenBitmapProof = None,
      inp_verifierOutcome = None\<rparr>"

lemma single_check:
  assumes "evaluateSelectedCheck N (admitVerificationEvidence inp) (runtime_of N inp gate) i = Inr r"
  shows "evaluateChecks N inp [i] gate = Inr [(i, r)]"
  using assms by (simp add: evaluateChecks_def runtime_of_def Let_def)

definition verified_input :: evaluation_input where
  "verified_input = empty_input\<lparr>inp_verifierOutcome :=
     Some \<lparr>vo_status = VSuccess, vo_report = None, vo_failureCategory = None\<rparr>\<rparr>"

theorem zk_checks_need_verified_proof_witness:
  "\<exists>oc. inp_verifierOutcome verified_input = Some oc \<and>
    (vo_status oc = VSuccess \<or> vo_status oc = VDevMode \<and> in_allowDevModeVerification verified_input = Some True)"
proof (rule zk_checks_need_verified_proof [of demo_noble _ "[stark_receipt_verify]" None _ stark_receipt_verify])
  show "evaluateChecks demo_noble verified_input [stark_receipt_verify] None = Inr [(stark_receipt_verify, outcome Success)]"
    by (rule single_check) (simp add: selected runtime_of_def evaluation_runtime_of_def verified_input_def empty_input_def
        resolveStarkStatus_def normalizeVerifierOutcome_def Let_def)
qed (simp_all add: check_succeeds_def)

section \<open>Recorded as cast\<close>

text \<open>The outputs of the hash functions are printed bytes, so an accepted root is.\<close>

lemma hashPair_printed: "hashPair N l r = Inr h \<Longrightarrow> \<exists>b. h = bytesToHex N b"
  by (auto simp: hashPair_def err_simps sha256Hex_def)

lemma hashLeaf_printed: "hashLeaf N l = Inr h \<Longrightarrow> \<exists>b. h = bytesToHex N b"
  by (auto simp: hashLeaf_def err_simps sha256Hex_def)

lemma path_printed:
  assumes "verifyPathRecursive N i n h nodes pos = Inr (c, k)" "h = bytesToHex N b"
  shows "\<exists>b'. c = bytesToHex N b'"
  using assms
proof (induction N i n h nodes pos arbitrary: c k rule: verifyPathRecursive.induct)
  case (1 N i n h nodes pos)
  then show ?case
    by (subst (asm) (3) verifyPathRecursive.simps)
      (auto simp: err_simps Let_def hashPair_printed split: if_splits)
qed

lemma inclusion_root_printed:
  assumes "verifyInclusionProof N leaf i nodes r n = Inr True"
  shows "\<exists>b. r = bytesToHex N b"
  using assms hashLeaf_printed path_printed
  by (fastforce simp: verifyInclusionProof_def err_simps split: if_splits sum.splits)

lemma index_Some:
  "engine_asBulletinIndex v = Some i \<Longrightarrow> v = js_int i \<and> 0 \<le> i"
  "engine_asLeafIndex v = Some i \<Longrightarrow> v = js_int i \<and> 0 \<le> i"
  by (auto simp: engine_asBulletinIndex_def engine_asLeafIndex_def isSafeInteger_iff split: if_splits)

lemma inclusion_success:
  assumes "res_status (resolveRecordedInclusionProof N uv vr) = Success"
  obtains p receipt c i where
    "toCanonicalRfc6962Proof (Option.bind uv uv_proof) = Some p" "vr = Some receipt" "Option.bind uv uv_commitment = Some c"
    "rc_bulletinIndex receipt = js_int i" "0 \<le> i"
    "normalizeHexString (cp_bulletinRootAtCast p) = normalizeHexString (rc_bulletinRootAtCast receipt)"
    "verifyInclusionProof N (normalizeHexString c) i (map normalizeHexString (cp_merklePath p))
       (normalizeHexString (rc_bulletinRootAtCast receipt)) (i + 1) = Inr True"
proof -
  from assms obtain p receipt c where
    p: "toCanonicalRfc6962Proof (Option.bind uv uv_proof) = Some p" "vr = Some receipt" "Option.bind uv uv_commitment = Some c"
    by (auto simp: resolveRecordedInclusionProof_def truthy_iff split: option.splits if_splits)
  from assms p obtain i where
    i: "engine_asBulletinIndex (rc_bulletinIndex receipt) = Some i" "engine_asLeafIndex (cp_leafIndex p) = Some i"
      "num_eq (cp_treeSize p) (js_int (i + 1))"
      "normalizeHexString (cp_bulletinRootAtCast p) = normalizeHexString (rc_bulletinRootAtCast receipt)"
      "res_status (inclusion_of N c p) = Success"
    by (auto simp: resolveRecordedInclusionProof_def truthy_iff split: option.splits if_splits)
  have "cp_treeSize p = js_int (i + 1)" "cp_leafIndex p = js_int i" "rc_bulletinIndex receipt = js_int i" "0 \<le> i"
    using i index_Some num_eqD by blast+
  moreover from this i(4,5) have "verifyInclusionProof N (normalizeHexString c) i (map normalizeHexString (cp_merklePath p))
      (normalizeHexString (rc_bulletinRootAtCast receipt)) (i + 1) = Inr True"
    by (auto simp: inclusion_of_def verifyCTMerkleInclusion_def split: sum.splits if_splits)
  ultimately show thesis using that p i(4) by blast
qed

lemma consistency_success:
  assumes "resolveRecordedConsistencyProof N vr uv br ts acq = Inr r" "res_status r = Success"
  obtains receipt rt n q i where
    "vr = Some receipt" "br = Some rt" "ts = Some (js_int n)" "acq = Admitted q"
    "rc_bulletinIndex receipt = js_int i" "0 \<le> i" "i + 1 \<le> n"
    "verifyConsistencyProof N (normalizeHexString (rc_bulletinRootAtCast receipt)) (normalizeHexString rt)
       \<lparr>oldSize = i + 1, newSize = n, proofNodes = map normalizeHexString (ac_proofNodes q)\<rparr> = Inr True"
proof -
  from assms obtain receipt m rt p where
    p: "vr = Some receipt" "ts = Some m" "br = Some rt" "toCanonicalRfc6962Proof (Option.bind uv uv_proof) = Some p"
      "isPositiveTreeSize m" "validateConsistencySnapshot p receipt m = Inr None"
      "res_status (verifyAdmittedConsistencyProof N acq
         \<lparr>ce_fromTreeSize = cp_treeSize p, ce_toTreeSize = m,
          ce_rootAtFromTreeSize = rc_bulletinRootAtCast receipt, ce_rootAtToTreeSize = rt\<rparr>) = Success"
    by (auto simp: resolveRecordedConsistencyProof_def truthy_iff err_simps validateConsistencySnapshot_def
        split: option.splits if_splits)
  from p(5) obtain n where n: "m = js_int n" by (auto simp: isPositiveTreeSize_def elim: isInteger_cases)
  from p(6) obtain i where i: "engine_asBulletinIndex (rc_bulletinIndex receipt) = Some i"
      "num_eq (cp_treeSize p) (js_int (i + 1))" "\<not> num_lt m (cp_treeSize p)"
    by (auto simp: validateConsistencySnapshot_def split: option.splits if_splits)
  have ts: "cp_treeSize p = js_int (i + 1)" "rc_bulletinIndex receipt = js_int i" "0 \<le> i"
    using i index_Some num_eqD by blast+
  from p(7) obtain q where q: "acq = Admitted q"
      "cv_isValid (client_verifyConsistencyProof N q
         \<lparr>ce_fromTreeSize = cp_treeSize p, ce_toTreeSize = m,
          ce_rootAtFromTreeSize = rc_bulletinRootAtCast receipt, ce_rootAtToTreeSize = rt\<rparr>)"
    by (auto simp: verifyAdmittedConsistencyProof_def Let_def split: acquisition.splits if_splits)
  then have "verifyConsistencyProof N (normalizeHexString (rc_bulletinRootAtCast receipt)) (normalizeHexString rt)
      \<lparr>oldSize = i + 1, newSize = n, proofNodes = map normalizeHexString (ac_proofNodes q)\<rparr> = Inr True"
    using ts n by (auto simp: client_verifyConsistencyProof_def Let_def dest!: num_eqD split: if_splits sum.splits)
  then show thesis using that p q ts n i(3) by auto
qed

text \<open>The consistency check in terms of logs: the root at cast is the root of the prefix, or a collision.\<close>

lemma prefix_root:
  assumes "noble_ok N" "0 \<le> i" "i + 1 \<le> int (length ds)" "length ds < 2 ^ 32" "r = bytesToHex N b"
    "verifyConsistencyProof N r (bytesToHex N (mth_spec N ds)) \<lparr>oldSize = i + 1, newSize = int (length ds), proofNodes = ns\<rparr> = Inr True"
  shows "r = bytesToHex N (mth_spec N (take (nat i + 1) ds)) \<or>
    collides N (consistency_preimages N r \<lparr>oldSize = i + 1, newSize = int (length ds), proofNodes = ns\<rparr>) (tree_preimages N ds)"
proof (cases "i + 1 = int (length ds)")
  case True
  then have "nat i + 1 = length ds" using assms(2) by simp
  moreover have "r = bytesToHex N (mth_spec N ds)" using assms(6) True by (simp add: verifyConsistencyProof_def)
  ultimately show ?thesis by simp
next
  case False
  let ?p = "\<lparr>oldSize = i + 1, newSize = int (length ds), proofNodes = ns\<rparr>"
  have "nat (i + 1) = nat i + 1" using assms(2) by simp
  then have "hexToBytesStrict N r = Inr (mth_spec N (take (nat i + 1) ds)) \<or>
      collides N (consistency_preimages N r ?p) (tree_preimages N ds)"
    using verifyConsistency_sound(2) [OF assms(1,6)] False assms(4) by simp
  moreover have "r = bytesToHex N (mth_spec N (take (nat i + 1) ds))"
    if h: "hexToBytesStrict N r = Inr (mth_spec N (take (nat i + 1) ds))"
  proof -
    have "b \<noteq> []" using h assms(1,5) by (auto simp: hexToBytesStrict_def bytesToHex_Nil_iff)
    then show ?thesis using h assms(1,5) by simp
  qed
  ultimately show ?thesis by blast
qed

lemma recorded_as_cast_core:
  assumes "noble_ok N" "evaluateChecks N inp ids gate = Inr rs"
    "check_succeeds rs recorded_inclusion_proof" "check_succeeds rs recorded_consistency_proof"
    "in_bulletinRoot inp = Some br" "normalizeHexString br = bytesToHex N (mth_spec N ds)"
    "in_treeSize inp = Some (js_int (int (length ds)))" "length ds < 2 ^ 32"
  shows "\<exists>receipt c i p q. in_voteReceipt inp = Some receipt \<and> Option.bind (in_userVote inp) uv_commitment = Some c \<and>
    rc_bulletinIndex receipt = js_int (int i) \<and> i < length ds \<and>
    toCanonicalRfc6962Proof (Option.bind (in_userVote inp) uv_proof) = Some p \<and> inp_consistencyProof inp = Some (Admitted q) \<and>
    (leaf_bytes N (normalizeHexString c) = ds ! i \<or>
     collides N (inclusion_preimages N (normalizeHexString c) (int i) (map normalizeHexString (cp_merklePath p)) (int i + 1))
       (tree_preimages N (take (i + 1) ds)) \<or>
     collides N (consistency_preimages N (normalizeHexString (rc_bulletinRootAtCast receipt))
         \<lparr>oldSize = int i + 1, newSize = int (length ds), proofNodes = map normalizeHexString (ac_proofNodes q)\<rparr>)
       (tree_preimages N ds))"
proof -
  have "res_status (resolveRecordedInclusionProof N (in_userVote inp) (in_voteReceipt inp)) = Success"
    using evaluated [OF assms(2,3)] by (auto simp: selected)
  then obtain p receipt c i where
    p: "toCanonicalRfc6962Proof (Option.bind (in_userVote inp) uv_proof) = Some p" "in_voteReceipt inp = Some receipt"
      "Option.bind (in_userVote inp) uv_commitment = Some c" "rc_bulletinIndex receipt = js_int i" "0 \<le> i"
      "verifyInclusionProof N (normalizeHexString c) i (map normalizeHexString (cp_merklePath p))
         (normalizeHexString (rc_bulletinRootAtCast receipt)) (i + 1) = Inr True"
    by (rule inclusion_success)
  from evaluated [OF assms(2,4)] obtain r where
    "resolveRecordedConsistencyProof N (in_voteReceipt inp) (in_userVote inp) (in_bulletinRoot inp) (in_treeSize inp)
       (orUnavailable (inp_consistencyProof inp)) = Inr r" "res_status r = Success"
    by (auto simp: selected)
  then obtain receipt' rt n q i' where
    q: "in_voteReceipt inp = Some receipt'" "in_bulletinRoot inp = Some rt" "in_treeSize inp = Some (js_int n)"
      "orUnavailable (inp_consistencyProof inp) = Admitted q" "rc_bulletinIndex receipt' = js_int i'" "i' + 1 \<le> n"
      "verifyConsistencyProof N (normalizeHexString (rc_bulletinRootAtCast receipt')) (normalizeHexString rt)
         \<lparr>oldSize = i' + 1, newSize = n, proofNodes = map normalizeHexString (ac_proofNodes q)\<rparr> = Inr True"
    by (rule consistency_success)
  let ?r = "normalizeHexString (rc_bulletinRootAtCast receipt)" and ?k = "nat i"
  have eqs: "receipt' = receipt" "i' = i" "rt = br" "n = int (length ds)" "inp_consistencyProof inp = Some (Admitted q)"
    using p q assms(5,7) by (auto simp: orUnavailable_def split: option.splits)
  obtain b where b: "?r = bytesToHex N b" using inclusion_root_printed [OF p(6)] by blast
  have len: "i + 1 \<le> int (length ds)" using q(6) eqs by simp
  then have "?k < length ds" "int ?k = i" using p(5) by linarith+
  then have k: "?k < length ds" "int ?k = i" "length (take (?k + 1) ds) = ?k + 1" by simp_all
  have "?r = bytesToHex N (mth_spec N (take (?k + 1) ds)) \<or>
      collides N (consistency_preimages N ?r \<lparr>oldSize = i + 1, newSize = int (length ds), proofNodes = map normalizeHexString (ac_proofNodes q)\<rparr>)
        (tree_preimages N ds)"
    using prefix_root [OF assms(1) p(5) len assms(8) b] q(7) eqs assms(6) by simp
  moreover have "leaf_bytes N (normalizeHexString c) = ds ! ?k \<or>
      collides N (inclusion_preimages N (normalizeHexString c) i (map normalizeHexString (cp_merklePath p)) (i + 1))
        (tree_preimages N (take (?k + 1) ds))"
    if "?r = bytesToHex N (mth_spec N (take (?k + 1) ds))"
    using verifyInclusion_sound [OF assms(1), of "normalizeHexString c" i _ "take (?k + 1) ds"] p(6) that k by (simp add: add.commute)
  ultimately show ?thesis
    using p eqs k by (intro exI [of _ receipt] exI [of _ c] exI [of _ ?k] exI [of _ p] exI [of _ q]) auto
qed

text \<open>C7: recorded as cast, end to end.  If the inclusion check and the consistency check both succeed and
  the published root and size are those of a log, the receipt names a position of that log and the entry
  there is the commitment of the voter, or a hash collision can be read off the two proofs and the log.
  The receipt, the proofs and every other part of the input are arbitrary.\<close>

theorem recorded_as_cast_sound:
  assumes "noble_ok N" "evaluateChecks N inp ids gate = Inr rs"
    "check_succeeds rs recorded_inclusion_proof" "check_succeeds rs recorded_consistency_proof"
    "in_bulletinRoot inp = Some br" "normalizeHexString br = bytesToHex N (mth_spec N ds)"
    "in_treeSize inp = Some (js_int (int (length ds)))" "length ds < 2 ^ 32"
  shows "\<exists>receipt c i p q. in_voteReceipt inp = Some receipt \<and> Option.bind (in_userVote inp) uv_commitment = Some c \<and>
    rc_bulletinIndex receipt = js_int (int i) \<and> i < length ds \<and>
    toCanonicalRfc6962Proof (Option.bind (in_userVote inp) uv_proof) = Some p \<and> inp_consistencyProof inp = Some (Admitted q) \<and>
    (leaf_bytes N (normalizeHexString c) = ds ! i \<or>
     collides N (inclusion_preimages N (normalizeHexString c) (int i) (map normalizeHexString (cp_merklePath p)) (int i + 1))
       (tree_preimages N (take (i + 1) ds)) \<or>
     collides N (consistency_preimages N (normalizeHexString (rc_bulletinRootAtCast receipt))
         \<lparr>oldSize = int i + 1, newSize = int (length ds), proofNodes = map normalizeHexString (ac_proofNodes q)\<rparr>)
       (tree_preimages N ds))"
  using assms by (rule recorded_as_cast_core)

definition demo_log :: "byte list list" where
  "demo_log = [leaf_bytes demo_noble leaf_a]"

definition demo_root :: string where
  "demo_root = bytesToHex demo_noble (mth_spec demo_noble demo_log)"

definition recorded_input :: evaluation_input where
  "recorded_input = empty_input
     \<lparr>in_voteReceipt := Some \<lparr>rc_voteId = Some ''v'', rc_commitment = Some leaf_a, rc_bulletinIndex = js_int 0,
                             rc_bulletinRootAtCast = demo_root\<rparr>,
      in_userVote := Some \<lparr>uv_vote = None, uv_random = None, uv_commitment = Some leaf_a, uv_voteId = None,
        uv_proof = Some \<lparr>pc_hasProofMode = False, pc_leafIndex = Some (js_int 0), pc_treeSize = Some (js_int 1),
          pc_merklePath = Some [], pc_bulletinRootAtCast = Some demo_root\<rparr>\<rparr>,
      in_bulletinRoot := Some demo_root, in_treeSize := Some (js_int 1),
      inp_consistencyProof := Some (Admitted \<lparr>ac_fromTreeSize = js_int 1, ac_toTreeSize = js_int 1,
        ac_rootAtFromTreeSize = demo_root, ac_rootAtToTreeSize = demo_root, ac_proofNodes = []\<rparr>)\<rparr>"

lemma demo_root_facts [simp]: "normalizeHexString demo_root = demo_root" "demo_root \<noteq> []"
proof -
  show "normalizeHexString demo_root = demo_root" using demo_noble_ok by (simp add: demo_root_def)
  have "mth_spec demo_noble demo_log \<noteq> []"
    using leafH_not_Nil [OF demo_noble_ok] by (simp add: demo_log_def mth_spec_simps)
  then show "demo_root \<noteq> []" using demo_noble_ok by (simp add: demo_root_def bytesToHex_Nil_iff)
qed

lemma demo_inclusion: "verifyInclusionProof demo_noble leaf_a 0 [] demo_root 1 = Inr True"
  using verifyInclusion_complete [OF demo_noble_ok, of 0 demo_log leaf_a] demo_leaf_bytes
  by (simp add: demo_root_def demo_log_def path_spec_small)

lemma recorded_input_evaluates:
  "evaluateChecks demo_noble recorded_input [recorded_inclusion_proof, recorded_consistency_proof] None =
     Inr [(recorded_inclusion_proof, outcome Success), (recorded_consistency_proof, outcome Success)]"
  using demo_inclusion
  by (simp add: evaluateChecks_def selected recorded_input_def empty_input_def resolveRecordedInclusionProof_def
      resolveRecordedConsistencyProof_def toCanonicalRfc6962Proof_def isValidCount_def engine_asBulletinIndex_def engine_asLeafIndex_def
      MAX_SAFE_INTEGER_def inclusion_of_def verifyCTMerkleInclusion_def List.map_filter_def hasReceiptCastRoot_def
      isPositiveTreeSize_def validateConsistencySnapshot_def orUnavailable_def verifyAdmittedConsistencyProof_def
      client_verifyConsistencyProof_def verifyConsistencyProof_def) (simp add: leaf_a_def)

theorem recorded_as_cast_sound_witness:
  "\<exists>receipt c i p q. in_voteReceipt recorded_input = Some receipt \<and> Option.bind (in_userVote recorded_input) uv_commitment = Some c \<and>
    rc_bulletinIndex receipt = js_int (int i) \<and> i < length demo_log \<and>
    toCanonicalRfc6962Proof (Option.bind (in_userVote recorded_input) uv_proof) = Some p \<and>
    inp_consistencyProof recorded_input = Some (Admitted q) \<and>
    (leaf_bytes demo_noble (normalizeHexString c) = demo_log ! i \<or>
     collides demo_noble (inclusion_preimages demo_noble (normalizeHexString c) (int i) (map normalizeHexString (cp_merklePath p)) (int i + 1))
       (tree_preimages demo_noble (take (i + 1) demo_log)) \<or>
     collides demo_noble (consistency_preimages demo_noble (normalizeHexString (rc_bulletinRootAtCast receipt))
         \<lparr>oldSize = int i + 1, newSize = int (length demo_log), proofNodes = map normalizeHexString (ac_proofNodes q)\<rparr>)
       (tree_preimages demo_noble demo_log))"
  by (rule recorded_as_cast_sound [OF demo_noble_ok recorded_input_evaluates, of demo_root])
    (simp_all add: check_succeeds_def recorded_input_def empty_input_def demo_log_def, simp add: demo_root_def demo_log_def)

end
