(* ===== verification/CountedChecks.thy ===== *)
theory CountedChecks
  imports Engine
begin

text \<open>
  What the counted-as-recorded checks and the voter's own checks mean: the bitmap check places the vote in
  the published bitmap, the digest checks bind the artefacts they compare, the completeness check fails
  closed, and which inputs make the evaluation of all checks throw.
\<close>

section \<open>Counted as recorded\<close>

lemma verify_of_explain:
  assumes "explainVoteInclusionStatus N i r sr p sp ts = Inr e" "valid e" "included e"
  shows "\<exists>v. verifyMyVoteWasCounted N i r p ts = Inr v \<and> valid v \<and> included v"
  using assms
  by (auto simp: explainVoteInclusionStatus_def explain_def err_simps split: if_splits option.splits)

lemma my_vote_success:
  assumes "res_status (resolveCountedMyVoteIncluded N ev gate) = Success" "gate = None"
  obtains receipt rt n p v where
    "in_voteReceipt ev = Some receipt" "included_root ev = Some rt"
    "nullish (map_option j_treeSize (in_journal ev)) (in_treeSize ev) = Some (js_int n)" "0 < n" "n \<le> MAX_SAFE_INTEGER"
    "ev_includedBitmapProof ev = Admitted p"
    "verifyMyVoteWasCounted N (rc_bulletinIndex receipt) rt p (js_int n) = Inr v" "valid v" "included v"
proof -
  from assms obtain receipt rt n m p sr where
    e: "in_voteReceipt ev = Some receipt" "included_root ev = Some rt"
      "nullish (map_option j_treeSize (in_journal ev)) (in_treeSize ev) = Some m" "asAuthenticatedBitmapTreeSize m = Inr n"
      "admitted_value (ev_includedBitmapProof ev) = Some p"
      "res_status (evaluateMyVoteBitmapProof N ev (rc_bulletinIndex receipt) rt sr n p) = Success"
    by (auto simp: resolveCountedMyVoteIncluded_def resolveBitmapProofAuthority_def Let_def unresolvedMyVoteCheck_def
        admitBitmapTreeSize_def truthy_iff hasBitmapReceiptPosition_def split: option.splits if_splits sum.splits)
  have n: "m = js_int n" "0 < n" "n \<le> MAX_SAFE_INTEGER"
    using e(4) by (auto simp: asAuthenticatedBitmapTreeSize_def isSafeInteger_iff split: if_splits)
  have p: "ev_includedBitmapProof ev = Admitted p" using e(5) by (cases "ev_includedBitmapProof ev") auto
  from e(6) have "\<exists>v. verifyMyVoteWasCounted N (rc_bulletinIndex receipt) rt p (js_int n) = Inr v \<and> valid v \<and> included v"
    by (auto simp: evaluateMyVoteBitmapProof_def unresolvedMyVoteCheck_def projectMyVoteProofResult_def
        split: if_splits sum.splits option.splits vote_inclusion_status.splits dest!: verify_of_explain)
  then show thesis using that e n p by blast
qed

lemma my_vote_counted_core:
  assumes "noble_ok N" "evaluateChecks N inp ids gate = Inr rs" "check_succeeds rs counted_my_vote_included"
    "nullish (map_option j_includedBitmapRoot (in_journal inp)) (in_includedBitmapRoot inp) = Some (computeIncludedBitmapRootHex N bitmap)"
    "nullish (map_option j_treeSize (in_journal inp)) (in_treeSize inp) = Some (js_int (int (length bitmap)))"
    "in_voteReceipt inp = Some receipt" "rc_bulletinIndex receipt = js_int (int i)" "i < length bitmap"
  shows "bitmap ! i \<or> (\<exists>p. inp_includedBitmapProof inp = Some (Admitted p) \<and>
    collides N (proof_preimages N p) (bitmap_preimages N bitmap))"
proof -
  obtain r where r: "zkGateStatus (runtime_of N inp gate) = None" "res_status r = Success"
      "evaluateSelectedCheck N (admitVerificationEvidence inp) (runtime_of N inp gate) counted_my_vote_included = Inr r"
    using gate_open [OF assms(2,3)] by (auto simp: isCheckStatusZkGateControlled_def ZK_GATE_CONTROLLED_CHECK_IDS_def)
  then have "res_status (resolveCountedMyVoteIncluded N (admitVerificationEvidence inp) None) = Success"
    using r by (auto simp: selected)
  then obtain receipt' rt n p v where
    v: "in_voteReceipt (admitVerificationEvidence inp) = Some receipt'" "included_root (admitVerificationEvidence inp) = Some rt"
      "nullish (map_option j_treeSize (in_journal (admitVerificationEvidence inp))) (in_treeSize (admitVerificationEvidence inp)) = Some (js_int n)"
      "n \<le> MAX_SAFE_INTEGER" "ev_includedBitmapProof (admitVerificationEvidence inp) = Admitted p"
      "verifyMyVoteWasCounted N (rc_bulletinIndex receipt') rt p (js_int n) = Inr v" "valid v" "included v"
    using my_vote_success [OF _ refl] by metis
  have "inp_includedBitmapProof inp = Some (Admitted p)" using v(5) by (auto simp: orUnavailable_def split: option.splits)
  moreover have "verifyAdmittedBitmapProof N (js_int (int i)) (computeIncludedBitmapRootHex N bitmap) p (js_int (int (length bitmap))) = Inr v"
    using v assms(4-7) by (simp add: included_root_def verifyMyVoteWasCounted_def)
  then have "included v = bitmap ! i \<or> collides N (proof_preimages N p) (bitmap_preimages N bitmap)"
    using verify_admitted_sound [OF assms(1,8) _ _ v(7)] v(3,4) assms(5) by simp
  ultimately show ?thesis using v(8) by auto
qed

text \<open>C8: counted as recorded, for the voter.  If the check that my vote was included succeeds
  and the root it used is the root of a bitmap of the authenticated size, the bit of the receipt's
  position is set in that bitmap, or a hash collision can be read off the proof and the bitmap.\<close>

theorem my_vote_counted_sound:
  assumes "noble_ok N" "evaluateChecks N inp ids gate = Inr rs" "check_succeeds rs counted_my_vote_included"
    "nullish (map_option j_includedBitmapRoot (in_journal inp)) (in_includedBitmapRoot inp) = Some (computeIncludedBitmapRootHex N bitmap)"
    "nullish (map_option j_treeSize (in_journal inp)) (in_treeSize inp) = Some (js_int (int (length bitmap)))"
    "in_voteReceipt inp = Some receipt" "rc_bulletinIndex receipt = js_int (int i)" "i < length bitmap"
  shows "bitmap ! i \<or> (\<exists>p. inp_includedBitmapProof inp = Some (Admitted p) \<and>
    collides N (proof_preimages N p) (bitmap_preimages N bitmap))"
  using assms by (rule my_vote_counted_core)

definition demo_bitmap :: "bool list" where
  "demo_bitmap = [True, False]"

definition counted_input :: evaluation_input where
  "counted_input = verified_input
     \<lparr>in_voteReceipt := Some \<lparr>rc_voteId = Some ''v'', rc_commitment = Some leaf_a, rc_bulletinIndex = js_int 0, rc_bulletinRootAtCast = []\<rparr>,
      in_includedBitmapRoot := Some (computeIncludedBitmapRootHex demo_noble demo_bitmap),
      in_treeSize := Some (js_int 2), in_bitmapProofSource := Some Mock,
      inp_includedBitmapProof := Some (Admitted
        \<lparr>leafChunk = bytesToHex demo_noble (getBitmapLeafChunkBytes demo_bitmap 0), auditPath = generated_path demo_noble demo_bitmap 0\<rparr>)\<rparr>"

lemma counted_input_evaluates:
  "evaluateChecks demo_noble counted_input [counted_my_vote_included] None = Inr [(counted_my_vote_included, outcome Success)]"
proof (rule single_check)
  have "verifyMyVoteWasCounted demo_noble (js_int 0) (computeIncludedBitmapRootHex demo_noble demo_bitmap)
      \<lparr>leafChunk = bytesToHex demo_noble (getBitmapLeafChunkBytes demo_bitmap 0), auditPath = generated_path demo_noble demo_bitmap 0\<rparr> (js_int 2) =
    Inr \<lparr>valid = True, included = True, res_leafIndex = 0, res_bitOffset = 0\<rparr>"
    using verify_generated [OF demo_noble_ok, of 0 demo_bitmap] by (simp add: demo_bitmap_def MAX_SAFE_INTEGER_def)
  then show "evaluateSelectedCheck demo_noble (admitVerificationEvidence counted_input) (runtime_of demo_noble counted_input None)
      counted_my_vote_included = Inr (outcome Success)"
    by (simp add: selected runtime_of_def evaluation_runtime_of_def counted_input_def verified_input_def empty_input_def Let_def
        resolveStarkStatus_def normalizeVerifierOutcome_def resolveZkGateStatus_def resolveCountedMyVoteIncluded_def
        resolveBitmapProofAuthority_def included_root_def hasBitmapReceiptPosition_def admitBitmapTreeSize_def
        asAuthenticatedBitmapTreeSize_def MAX_SAFE_INTEGER_def hasAdmittedBitmapProofSource_def orUnavailable_def
        evaluateMyVoteBitmapProof_def projectMyVoteProofResult_def computeIncludedBitmapRootHex_def)
qed

theorem my_vote_counted_sound_witness:
  "demo_bitmap ! 0 \<or> (\<exists>p. inp_includedBitmapProof counted_input = Some (Admitted p) \<and>
    collides demo_noble (proof_preimages demo_noble p) (bitmap_preimages demo_noble demo_bitmap))"
  by (rule my_vote_counted_sound [OF demo_noble_ok counted_input_evaluates, of _ "the (in_voteReceipt counted_input)"])
    (simp_all add: check_succeeds_def counted_input_def verified_input_def empty_input_def demo_bitmap_def)

section \<open>Digests\<close>

text \<open>The data a close statement declares, as the digest sees it.\<close>

definition same_snapshot :: "noble \<Rightarrow> close_statement \<Rightarrow> close_statement \<Rightarrow> bool" where
  "same_snapshot N a b \<longleftrightarrow>
     normalizeHexString (cs_logId a) = normalizeHexString (cs_logId b) \<and> cs_treeSize a = cs_treeSize b \<and>
     cs_timestamp a = cs_timestamp b \<and> normalizeHexString (cs_bulletinRoot a) = normalizeHexString (cs_bulletinRoot b)"

lemma hex32_bytes:
  assumes "noble_ok N" "normalizeHex32 v = Inr w"
  obtains b where "zk_hexToBytesStrict N w = Inr b" "zk_hexToBytesStrict N v = Inr b"
    "bytesToHex N b = normalizeHexString v" "length b = 32"
proof -
  let ?s = "normalizeHexString v"
  have v: "isValidHexString v (Some 32)" "w = ''0x'' @ normalizeHexString ?s"
    using assms(2) by (auto simp: normalizeHex32_def addHexPrefix_def split: if_splits)
  have s: "canonical_hex ?s" "length ?s = 64"
    using isValidHexString_canonical [OF v(1)] isValidHexString_length [OF v(1)] by simp_all
  then have hex: "list_all is_hex_char ?s" and w: "normalizeHexString w = ?s"
    using v(2) double_prefix(2) by (auto simp: canonical_hex_def list_all_iff is_lower_hex_hex)
  then obtain b where b: "hexToBytes N ?s = Some b"
    using hexToBytes_defined [OF assms(1), of ?s] s(2) by auto
  then have "bytesToHex N b = ?s"
    using bytesToHex_hexToBytes [OF assms(1)] s(1) by (simp add: canonical_hex_def toLowerCase_lower_hex)
  moreover from this have "length b = 32" using length_bytesToHex [OF assms(1), of b] s(2) by simp
  moreover have "zk_hexToBytesStrict N w = Inr b" "zk_hexToBytesStrict N v = Inr b"
    using s b w by (auto simp: zk_hexToBytesStrict_def canonical_hex_def Let_def)
  ultimately show thesis using that by blast
qed

text \<open>A statement that passes its own digest: its parts, and the digest as a hash of them.\<close>

definition statement_preimage :: "noble \<Rightarrow> close_statement \<Rightarrow> byte list" where
  "statement_preimage N c =
     sth_preimage N (cs_logId c) (to_int (cs_treeSize c)) (to_int (cs_timestamp c)) (cs_bulletinRoot c)"

lemma valid_statement:
  assumes "noble_ok N" "validateCloseStatementArtifact N c = None"
  obtains lb rb n t where
    "cs_treeSize c = js_int n" "0 \<le> n" "n \<le> UINT32_MAX" "cs_timestamp c = js_int t" "0 \<le> t" "t < 2 ^ 64"
    "zk_hexToBytesStrict N (cs_logId c) = Inr lb" "bytesToHex N lb = normalizeHexString (cs_logId c)" "length lb = 32"
    "zk_hexToBytesStrict N (cs_bulletinRoot c) = Inr rb" "bytesToHex N rb = normalizeHexString (cs_bulletinRoot c)"
    "normalizeHexString (cs_sthDigest c) = bytesToHex N (sha256 N (statement_preimage N c))"
proof -
  obtain l r t d where
    b: "normalizeHex32 (cs_logId c) = Inr l" "normalizeHex32 (cs_bulletinRoot c) = Inr r"
      "asUnixTimestampMillis (cs_timestamp c) = Inr t" "computeSTHDigest N l (cs_treeSize c) t r = Inr d"
      "normalizeHexString d = normalizeHexString (cs_sthDigest c)"
    using assms(2) by (auto simp: validateCloseStatementArtifact_def buildCloseStatement_def err_simps split: sum.splits if_splits)
  obtain lb where lb: "zk_hexToBytesStrict N l = Inr lb" "zk_hexToBytesStrict N (cs_logId c) = Inr lb"
      "bytesToHex N lb = normalizeHexString (cs_logId c)" "length lb = 32"
    using hex32_bytes [OF assms(1) b(1)] .
  obtain rb where rb: "zk_hexToBytesStrict N r = Inr rb" "zk_hexToBytesStrict N (cs_bulletinRoot c) = Inr rb"
      "bytesToHex N rb = normalizeHexString (cs_bulletinRoot c)"
    using hex32_bytes [OF assms(1) b(2)] .
  have t: "cs_timestamp c = js_int t" "0 \<le> t" "t < 2 ^ 64"
    using b(3) by (auto simp: asUnixTimestampMillis_def assertUnsignedIntegerInRange_def isSafeInteger_iff err_simps
        MAX_SAFE_INTEGER_def split: if_splits)
  obtain n where n: "cs_treeSize c = js_int n" "0 \<le> n" "n \<le> UINT32_MAX" "d = ''0x'' @ bytesToHex N (sha256 N (sth_preimage N l n t r))"
    using computeSTHDigest_Inr [OF b(4)] by metis
  have "statement_preimage N c = sth_preimage N l n t r"
    using lb rb t n by (simp add: statement_preimage_def sth_preimage_def)
  then have "normalizeHexString (cs_sthDigest c) = bytesToHex N (sha256 N (statement_preimage N c))"
    using b(5) n(4) double_prefix(2) assms(1) by simp
  then show thesis using that n t lb rb by blast
qed

lemma statement_binding:
  assumes "noble_ok N" "validateCloseStatementArtifact N a = None" "validateCloseStatementArtifact N b = None"
    "normalizeHexString (cs_sthDigest a) = normalizeHexString (cs_sthDigest b)"
  shows "same_snapshot N a b \<or>
    (statement_preimage N a \<noteq> statement_preimage N b \<and> sha256 N (statement_preimage N a) = sha256 N (statement_preimage N b))"
proof -
  obtain la ra n t where
    A: "cs_treeSize a = js_int n" "0 \<le> n" "n \<le> UINT32_MAX" "cs_timestamp a = js_int t" "0 \<le> t" "t < 2 ^ 64"
      "zk_hexToBytesStrict N (cs_logId a) = Inr la" "bytesToHex N la = normalizeHexString (cs_logId a)" "length la = 32"
      "zk_hexToBytesStrict N (cs_bulletinRoot a) = Inr ra" "bytesToHex N ra = normalizeHexString (cs_bulletinRoot a)"
      "normalizeHexString (cs_sthDigest a) = bytesToHex N (sha256 N (statement_preimage N a))"
    using valid_statement [OF assms(1,2)] .
  obtain lb rb n' t' where
    B: "cs_treeSize b = js_int n'" "0 \<le> n'" "n' \<le> UINT32_MAX" "cs_timestamp b = js_int t'" "0 \<le> t'" "t' < 2 ^ 64"
      "zk_hexToBytesStrict N (cs_logId b) = Inr lb" "bytesToHex N lb = normalizeHexString (cs_logId b)" "length lb = 32"
      "zk_hexToBytesStrict N (cs_bulletinRoot b) = Inr rb" "bytesToHex N rb = normalizeHexString (cs_bulletinRoot b)"
      "normalizeHexString (cs_sthDigest b) = bytesToHex N (sha256 N (statement_preimage N b))"
    using valid_statement [OF assms(1,3)] .
  have "sha256 N (statement_preimage N a) = sha256 N (statement_preimage N b)"
    using A(12) B(12) assms(1,4) by simp
  moreover have "same_snapshot N a b" if eq: "statement_preimage N a = statement_preimage N b"
  proof -
    have 1: "la @ le_bytes 4 n @ le_bytes 8 t @ ra = lb @ le_bytes 4 n' @ le_bytes 8 t' @ rb"
      using eq A B by (simp add: statement_preimage_def sth_preimage_def bytes_of_def)
    then have "la = lb" and 2: "le_bytes 4 n @ le_bytes 8 t @ ra = le_bytes 4 n' @ le_bytes 8 t' @ rb"
      using A(9) B(9) by simp_all
    moreover have n: "n = n'" and 3: "le_bytes 8 t @ ra = le_bytes 8 t' @ rb"
      using uint_code.read_back [OF _ _ 2] A(2,3) B(2,3) by (auto simp: UINT32_MAX_def)
    moreover have "t = t'" "ra = rb"
      using uint_code.read_back [OF _ _ 3] A(5,6) B(5,6) by auto
    ultimately show ?thesis using A B by (simp add: same_snapshot_def)
  qed
  ultimately show ?thesis by blast
qed

lemma list_ex_present: "Some s \<in> set xs \<Longrightarrow> s \<noteq> [] \<Longrightarrow> \<not> list_ex P (present_strings xs) \<Longrightarrow> \<not> P s"
  by (force simp: present_strings_def List.map_filter_def list_ex_iff)

lemma close_success:
  assumes "res_status (resolveCountedCloseStatementConsistent N ev None) = Success"
  obtains c where "in_closeStatement ev = Some c" "validateCloseStatementArtifact N c = None"
    "res_status (compareCloseStatementInputs ev c (cs_sthDigest c)) = Success"
  using assms
  by (auto simp: resolveCountedCloseStatementConsistent_def validateCloseStatementArtifact_def
      split: option.splits if_splits sum.splits)

lemma compare_close_digest:
  assumes "res_status (compareCloseStatementInputs ev c d) = Success" "in_journal ev = Some j" "j_sthDigest j \<noteq> []"
  shows "normalizeHexString (j_sthDigest j) = normalizeHexString d"
  using assms list_ex_present [of "j_sthDigest j" "[Some (cs_sthDigest c), in_sthDigest ev, map_option j_sthDigest (in_journal ev)]"]
  by (auto simp: compareCloseStatementInputs_def Let_def split: if_splits)

text \<open>The close statement pins the snapshot.  If two evaluations accept their close statements and
  their journals commit to the same tree-head digest, both statements declare the same log, size, time
  and root: two voters with the same digest cannot have been shown different boards, unless the two
  hashed tree heads are a collision.\<close>

theorem close_statement_binding:
  assumes "noble_ok N" "evaluateChecks N inp ids gate = Inr rs" "check_succeeds rs counted_close_statement_consistent"
    "evaluateChecks N inp' ids' gate' = Inr rs'" "check_succeeds rs' counted_close_statement_consistent"
    "in_journal inp = Some j" "in_journal inp' = Some j'" "j_sthDigest j = j_sthDigest j'" "j_sthDigest j \<noteq> []"
  shows "\<exists>c c'. in_closeStatement inp = Some c \<and> in_closeStatement inp' = Some c' \<and>
    (same_snapshot N c c' \<or>
     (statement_preimage N c \<noteq> statement_preimage N c' \<and> sha256 N (statement_preimage N c) = sha256 N (statement_preimage N c')))"
proof -
  have "\<exists>c. in_closeStatement i = Some c \<and> validateCloseStatementArtifact N c = None \<and>
      normalizeHexString (j_sthDigest k) = normalizeHexString (cs_sthDigest c)"
    if e: "evaluateChecks N i xs g = Inr qs" "check_succeeds qs counted_close_statement_consistent"
      "in_journal i = Some k" "j_sthDigest k \<noteq> []" for i xs g qs k
  proof -
    obtain r where "zkGateStatus (runtime_of N i g) = None" "res_status r = Success"
        "evaluateSelectedCheck N (admitVerificationEvidence i) (runtime_of N i g) counted_close_statement_consistent = Inr r"
      using gate_open [OF e(1,2)] by (auto simp: isCheckStatusZkGateControlled_def ZK_GATE_CONTROLLED_CHECK_IDS_def)
    then have "res_status (resolveCountedCloseStatementConsistent N (admitVerificationEvidence i) None) = Success"
      by (auto simp: selected)
    then obtain c where c: "in_closeStatement (admitVerificationEvidence i) = Some c" "validateCloseStatementArtifact N c = None"
        "res_status (compareCloseStatementInputs (admitVerificationEvidence i) c (cs_sthDigest c)) = Success"
      by (rule close_success)
    then show ?thesis using compare_close_digest [OF c(3)] e(3,4) by simp
  qed
  from this [OF assms(2,3,6,9)] this [OF assms(4,5,7)] obtain c c' where
    c: "in_closeStatement inp = Some c" "validateCloseStatementArtifact N c = None"
      "normalizeHexString (j_sthDigest j) = normalizeHexString (cs_sthDigest c)"
      "in_closeStatement inp' = Some c'" "validateCloseStatementArtifact N c' = None"
      "normalizeHexString (j_sthDigest j') = normalizeHexString (cs_sthDigest c')"
    using assms(8,9) by auto
  from statement_binding [OF assms(1) c(2,5)] c assms(8) show ?thesis by auto
qed

lemma build_validates:
  assumes "buildCloseStatement N l n t r = Inr c"
  shows "validateCloseStatementArtifact N c = None"
proof -
  have idem: "normalizeHex32 w = Inr w" if "normalizeHex32 v = Inr w" for v w
  proof -
    have v: "isValidHexString v (Some 32)" "w = ''0x'' @ normalizeHexString v"
      using that isValidHexString_canonical [of v "Some 32"] by (auto simp: normalizeHex32_def addHexPrefix_def split: if_splits)
    have c: "canonical_hex (normalizeHexString v)" "length (normalizeHexString v) = 64"
      using isValidHexString_canonical [OF v(1)] isValidHexString_length [OF v(1)] by simp_all
    then have "normalizeHexString w = normalizeHexString v" using v(2) double_prefix(2) by simp
    then show ?thesis using c v(2) by (simp add: normalizeHex32_def isValidHexString_def addHexPrefix_def canonical_hex_def)
  qed
  from assms obtain l' r' where "normalizeHex32 l = Inr l'" "normalizeHex32 r = Inr r'" "cs_logId c = l'" "cs_bulletinRoot c = r'"
    "cs_treeSize c = n" "cs_timestamp c = t"
    by (auto simp: buildCloseStatement_def err_simps)
  with idem assms have "buildCloseStatement N (cs_logId c) (cs_treeSize c) (cs_timestamp c) (cs_bulletinRoot c) = Inr c"
    by (simp add: buildCloseStatement_def)
  then show ?thesis by (simp add: validateCloseStatementArtifact_def)
qed

lemma demo_builds: "\<exists>c. buildCloseStatement demo_noble leaf_a (js_int 1) (js_int 5) leaf_a = Inr c"
proof -
  have h: "normalizeHex32 leaf_a = Inr (''0x'' @ leaf_a)"
    by (simp add: normalizeHex32_def addHexPrefix_def isValidHexString_def canonical_hex_def [symmetric])
      (simp add: leaf_a_def)
  obtain b where "zk_hexToBytesStrict demo_noble (''0x'' @ leaf_a) = Inr b"
    using hex32_bytes [OF demo_noble_ok h] .
  then show ?thesis
    using h by (simp add: buildCloseStatement_def asUnixTimestampMillis_def assertUnsignedIntegerInRange_def
        MAX_SAFE_INTEGER_def computeSTHDigest_def uint32LE_def UINT32_MAX_def)
qed

text \<open>A built close statement passes its own check: \<open>buildCloseStatement\<close> normalises its inputs, and
  recomputing the digest from the normalised statement gives the digest it declares.\<close>

theorem built_statement_validates:
  assumes "buildCloseStatement N l n t r = Inr c"
  shows "validateCloseStatementArtifact N c = None"
  using assms by (rule build_validates)

theorem built_statement_validates_witness:
  "\<exists>c. buildCloseStatement demo_noble leaf_a (js_int 1) (js_int 5) leaf_a = Inr c \<and> validateCloseStatementArtifact demo_noble c = None"
  using demo_builds built_statement_validates by blast

definition demo_journal :: "close_statement \<Rightarrow> zkvm_journal" where
  "demo_journal c =
     \<lparr>j_electionId = ''e'', j_electionConfigHash = [], j_bulletinRoot = cs_bulletinRoot c, j_treeSize = cs_treeSize c,
      j_totalExpected = js_int 1, j_sthDigest = cs_sthDigest c, j_verifiedTally = None, j_totalVotes = None,
      j_validVotes = None, j_missingSlots = None, j_invalidPresentedSlots = None, j_excludedSlots = None,
      j_seenBitmapRoot = None, j_includedBitmapRoot = [], j_inputCommitment = []\<rparr>"

definition demo_authority :: public_input_authority where
  "demo_authority =
     \<lparr>pa_electionId = ''e'', pa_electionConfigHash = [], pa_methodVersion = js_int 14, pa_bulletinRoot = leaf_a,
      pa_treeSize = js_int 1, pa_totalExpected = js_int 1, pa_votesCount = js_int 1, pa_uniqueIndices = True,
      pa_uniqueCommitments = True, pa_logId = leaf_a, pa_timestamp = js_int 5, pa_recomputedInputCommitment = []\<rparr>"

definition closing_input :: "close_statement \<Rightarrow> evaluation_input" where
  "closing_input c = verified_input\<lparr>in_closeStatement := Some c, in_journal := Some (demo_journal c),
     in_publicInputAuthority := Some demo_authority\<rparr>"

lemma closing_input_evaluates:
  assumes "buildCloseStatement demo_noble leaf_a (js_int 1) (js_int 5) leaf_a = Inr c"
  shows "evaluateChecks demo_noble (closing_input c) [counted_close_statement_consistent] None =
      Inr [(counted_close_statement_consistent, outcome Success)]" "cs_sthDigest c \<noteq> []"
proof -
  show d: "cs_sthDigest c \<noteq> []" using assms by (auto simp: buildCloseStatement_def err_simps computeSTHDigest_def)
  have c: "cs_timestamp c = js_int 5" "cs_treeSize c = js_int 1" "cs_logId c \<noteq> []" "cs_bulletinRoot c \<noteq> []"
    using assms by (auto simp: buildCloseStatement_def err_simps normalizeHex32_def addHexPrefix_def split: if_splits)
  show "evaluateChecks demo_noble (closing_input c) [counted_close_statement_consistent] None =
      Inr [(counted_close_statement_consistent, outcome Success)]"
    by (rule single_check)
      (use d c build_validates [OF assms] in \<open>simp add: selected runtime_of_def evaluation_runtime_of_def closing_input_def
        verified_input_def empty_input_def Let_def resolveStarkStatus_def normalizeVerifierOutcome_def resolveZkGateStatus_def
        resolveCountedCloseStatementConsistent_def demo_authority_def demo_journal_def compareCloseStatementInputs_def
        present_strings_def List.map_filter_def\<close>)
qed

theorem close_statement_binding_witness:
  "\<exists>inp :: evaluation_input. \<exists>c c'. in_closeStatement inp = Some c \<and> in_closeStatement inp = Some c' \<and>
    (same_snapshot demo_noble c c' \<or>
     (statement_preimage demo_noble c \<noteq> statement_preimage demo_noble c' \<and>
      sha256 demo_noble (statement_preimage demo_noble c) = sha256 demo_noble (statement_preimage demo_noble c')))"
proof -
  obtain c where c: "buildCloseStatement demo_noble leaf_a (js_int 1) (js_int 5) leaf_a = Inr c" using demo_builds by blast
  note e = closing_input_evaluates [OF c]
  have j: "in_journal (closing_input c) = Some (demo_journal c)" "j_sthDigest (demo_journal c) \<noteq> []"
    "check_succeeds [(counted_close_statement_consistent, outcome Success)] counted_close_statement_consistent"
    using e(2) by (simp_all add: closing_input_def demo_journal_def check_succeeds_def)
  show ?thesis
    using close_statement_binding [OF demo_noble_ok e(1) j(3) e(1) j(3) j(1) j(1) refl j(2)] by blast
qed

section \<open>Cast as intended\<close>

lemma cast_success:
  assumes "res_status (resolveCastCommitmentMatch N eid vr choice rnd) = Success"
  obtains e c x r k h where "eid = Some e" "Option.bind vr rc_commitment = Some c" "choice = Some x" "rnd = Some r"
    "k < length VOTE_CHOICES" "VOTE_CHOICES ! k = x" "computeCommitment N e (int k) r = Inr h" "normalizeHexString c = normalizeHexString h"
proof -
  have idx: "k < length xs \<and> xs ! k = x" if "index_of x xs = Some k" for k x and xs :: "string list"
    using that by (induction xs arbitrary: k) (auto split: if_splits simp: nth_Cons')
  from assms obtain e c x r k h where "eid = Some e" "Option.bind vr rc_commitment = Some c" "choice = Some x" "rnd = Some r"
    "index_of x VOTE_CHOICES = Some k" "computeCommitment N e (int k) r = Inr h" "normalizeHexString c = normalizeHexString h"
    by (auto simp: resolveCastCommitmentMatch_def compareRecomputedCommitment_def truthy_iff Let_def
        split: if_splits option.splits sum.splits)
  with idx show thesis using that by blast
qed

section \<open>Completeness fails closed\<close>

lemma valid_count_zero: "isValidCount (Some n) \<Longrightarrow> num_lt (js_int 0) n \<or> n = js_int 0"
  by (auto simp: isValidCount_def isInteger_iff)

definition malformed_counts :: "zkvm_journal \<Rightarrow> bool" where
  "malformed_counts j =
     list_ex (\<lambda>v. \<not> isValidCount v) [j_excludedSlots j, j_missingSlots j, j_invalidPresentedSlots j, j_validVotes j]"

lemma completeness_check_iff:
  "(res_status (resolveCountedMissingIndicesZero (Some j) m i x g) = Success) =
     ((g = None \<or> g = Some Success) \<and> j_excludedSlots j = Some (js_int 0) \<and> malformed_counts j = False) \<and>
   (res_status (resolveCountedMissingIndicesZero (Some j) m i x g) = Failed) =
     (malformed_counts j \<or> (\<exists>n. j_excludedSlots j = Some n \<and> num_lt (js_int 0) n) \<or> g = Some Failed)"
proof (cases "malformed_counts j")
  case True
  then show ?thesis
    by (auto simp: malformed_counts_def resolveCountedMissingIndicesZero_def resolveInvalidJournalCounts_def Let_def)
next
  case False
  then obtain n where n: "j_excludedSlots j = Some n" "isValidCount (Some n)"
    by (cases "j_excludedSlots j") (auto simp: malformed_counts_def isValidCount_def)
  have "resolveInvalidJournalCounts (Some j) = None"
    using False by (simp add: malformed_counts_def resolveInvalidJournalCounts_def)
  then show ?thesis
    using False n valid_count_zero [OF n(2)]
    by (auto simp: resolveCountedMissingIndicesZero_def resolveExcludedCount_def split: option.splits)
qed

text \<open>The completeness check on a journal.  It succeeds exactly when the gate is open, the four counts of
  the journal are non-negative integers and no slot is excluded; it fails exactly when a count is malformed,
  a slot is excluded (both whatever the gate says) or the gate failed.\<close>

theorem completeness_check_spec:
  "(res_status (resolveCountedMissingIndicesZero (Some j) m i x g) = Success) =
     ((g = None \<or> g = Some Success) \<and> j_excludedSlots j = Some (js_int 0) \<and> malformed_counts j = False) \<and>
   (res_status (resolveCountedMissingIndicesZero (Some j) m i x g) = Failed) =
     (malformed_counts j \<or> (\<exists>n. j_excludedSlots j = Some n \<and> num_lt (js_int 0) n) \<or> g = Some Failed)"
  by (rule completeness_check_iff)

section \<open>When the evaluation throws\<close>

text \<open>The one exception the evaluators let through: the consistency check reads its snapshot and meets a
  receipt or proof index that is a non-negative integer but not a safe one.\<close>

definition unsafe_snapshot :: "evaluation_input \<Rightarrow> bool" where
  "unsafe_snapshot inp =
     (case (in_voteReceipt inp, in_treeSize inp, toCanonicalRfc6962Proof (Option.bind (in_userVote inp) uv_proof)) of
        (Some receipt, Some n, Some p) \<Rightarrow>
          hasReceiptCastRoot (in_voteReceipt inp) \<and> truthy (in_bulletinRoot inp) \<and> isPositiveTreeSize n \<and>
          isValidCount (Some (rc_bulletinIndex receipt)) \<and> isValidCount (Some (cp_leafIndex p)) \<and>
          (\<not> isSafeInteger (rc_bulletinIndex receipt) \<or> \<not> isSafeInteger (cp_leafIndex p))
      | _ \<Rightarrow> False)"

lemma valid_count_iff: "isValidCount (Some v) \<longleftrightarrow> isInteger v \<and> \<not> num_lt v (js_int 0)"
  by (auto simp: isValidCount_def isInteger_iff)

lemma snapshot_throws_iff:
  assumes "isValidCount (Some (rc_bulletinIndex receipt))"
  shows "isl (validateConsistencySnapshot p receipt n) \<longleftrightarrow>
      isValidCount (Some (cp_leafIndex p)) \<and> (\<not> isSafeInteger (rc_bulletinIndex receipt) \<or> \<not> isSafeInteger (cp_leafIndex p))"
  using assms by (auto simp: validateConsistencySnapshot_def valid_count_iff engine_asBulletinIndex_def engine_asLeafIndex_def
      split: option.splits)

lemma isl_bind_option: "isl (res_bind m (case_option (Inr a) Inr)) = isl m"
  by (cases m) (auto split: option.splits)

lemma consistency_throws_iff:
  "isl (resolveRecordedConsistencyProof N (in_voteReceipt inp) (in_userVote inp) (in_bulletinRoot inp) (in_treeSize inp) acq) \<longleftrightarrow>
    unsafe_snapshot inp"
  by (auto simp: resolveRecordedConsistencyProof_def unsafe_snapshot_def snapshot_throws_iff isl_bind_option split: option.splits)

lemma isl_res_map: "isl (res_map f xs) \<longleftrightarrow> (\<exists>x\<in>set xs. isl (f x))"
  by (induction xs) (auto simp: res_bind_def split: sum.splits)

lemma check_throws_iff:
  "isl (evaluateSelectedCheck N (admitVerificationEvidence inp) rt i) \<longleftrightarrow>
    (\<exists>s. i = unknown_check s) \<or> i \<in> {recorded_consistency_proof, recorded_root_at_cast_consistent} \<and> unsafe_snapshot inp"
  by (cases i) (auto simp: selected consistency_throws_iff)

lemma evaluation_throws:
  "isl (evaluateChecks N inp ids gate) =
    ((\<exists>s. unknown_check s \<in> set ids) \<or>
     (recorded_consistency_proof \<in> set ids \<or> recorded_root_at_cast_consistent \<in> set ids) \<and> unsafe_snapshot inp)"
proof -
  have "isl (res_bind m (\<lambda>r. Inr (i, r))) = isl m" for m :: "engine_error + check_result" and i :: check_id
    by (cases m) auto
  then show ?thesis
    by (auto simp: evaluateChecks_def Let_def isl_res_map check_throws_iff)
qed

text \<open>C19: when the evaluation throws.  Evaluating known checks throws exactly when the consistency check (or
  the check derived from it) is among them and the snapshot carries an index beyond the safe integers; all
  the other checks of that evaluation are then lost with it.  Every other malformed input is a status.\<close>

theorem evaluation_throws_iff:
  "isl (evaluateChecks N inp ids gate) =
    ((\<exists>s. unknown_check s \<in> set ids) \<or>
     (recorded_consistency_proof \<in> set ids \<or> recorded_root_at_cast_consistent \<in> set ids) \<and> unsafe_snapshot inp)"
  by (rule evaluation_throws)

end
