(* ===== verification/Stages.thy ===== *)
theory Stages
  imports CountedChecks Summary
begin

text \<open>
  From the results of the checks to what is shown: the status of a step
  (packages/verification/src/verification/engine/derive-stages.ts and build-verification-steps.ts) and the
  list of projected checks (build-verification-checks.ts).
\<close>

section \<open>derive-stages.ts\<close>

type_synonym check_results = "(check_id \<times> check_result) list"

definition status_in :: "check_results \<Rightarrow> check_id \<Rightarrow> step_status" where
  "status_in checks i = (case map_of checks i of Some r \<Rightarrow> res_status r | None \<Rightarrow> NotRun)"

definition deriveStageStatusFromChecks :: "check_results \<Rightarrow> check_id list \<Rightarrow> step_status" where
  "deriveStageStatusFromChecks checks checkIds =
     (let statuses = map (status_in checks) checkIds in
      if Failed \<in> set statuses then Failed
      else if Running \<in> set statuses then Running
      else if Pending \<in> set statuses then Pending
      else if list_all (\<lambda>s. s = Success) statuses then Success
      else NotRun)"

fun pickStageError :: "check_results \<Rightarrow> check_id list \<Rightarrow> message option" where
  "pickStageError checks [] = None"
| "pickStageError checks (i # is) =
     (case map_of checks i of
        None \<Rightarrow> pickStageError checks is
      | Some r \<Rightarrow> if res_status r = Failed \<and> message_truthy (res_error r) then res_error r else pickStageError checks is)"

definition applyStepGuards :: "step_id \<Rightarrow> step_status \<Rightarrow> 'a evaluation_base_scheme option \<Rightarrow> step_status" where
  "applyStepGuards stepId s ctx =
     (case ctx of
        None \<Rightarrow> s
      | Some c \<Rightarrow>
          if stepId = counted_as_recorded \<and> in_journal c = None \<and> s \<noteq> Failed then NotRun
          else if stepId = recorded_as_cast \<and> Option.bind (Option.bind (in_userVote c) uv_proof) pc_treeSize = None then NotRun
          else s)"

definition deriveStepStatusFromChecks ::
  "step_id \<Rightarrow> check_id list \<Rightarrow> check_results \<Rightarrow> 'a evaluation_base_scheme option \<Rightarrow> step_status \<times> message option" where
  "deriveStepStatusFromChecks stepId checkIds checks ctx =
     (let s = deriveStageStatusFromChecks checks checkIds;
          err = (if s = Failed then pickStageError checks checkIds else None);
          guarded = applyStepGuards stepId s ctx
      in if guarded \<noteq> s then (guarded, None) else (s, if message_truthy err then err else None))"

section \<open>build-verification-checks.ts\<close>

datatype cast_source = Server | Client

fun js_unique :: "'a list \<Rightarrow> 'a list" where
  "js_unique [] = []"
| "js_unique (x # xs) = x # js_unique (filter (\<lambda>y. y \<noteq> x) xs)"

definition with_source :: "check_definition \<Rightarrow> check_id list" where
  "with_source d = (case def_derivedFrom d of Some s \<Rightarrow> [def_id d, s] | None \<Rightarrow> [def_id d])"

definition CHECK_IDS_ALL :: "check_id list" where
  "CHECK_IDS_ALL = js_unique (concat (map with_source VERIFICATION_CHECK_DEFINITIONS))"

definition CHECK_IDS_WITHOUT_CAST :: "check_id list" where
  "CHECK_IDS_WITHOUT_CAST =
     js_unique (concat (map with_source (filter (\<lambda>d. category d \<noteq> cast_as_intended) VERIFICATION_CHECK_DEFINITIONS)))"

definition evaluateVerificationCheckResults ::
  "noble \<Rightarrow> evaluation_input \<Rightarrow> cast_source option \<Rightarrow> bool option \<Rightarrow> engine_error + check_results" where
  "evaluateVerificationCheckResults N inp castSource applyZkGate =
     evaluateChecks N inp (case castSource of Some Server \<Rightarrow> CHECK_IDS_ALL | _ \<Rightarrow> CHECK_IDS_WITHOUT_CAST) applyZkGate"

definition resolveCheckNote :: "check_result option \<Rightarrow> note_key option" where
  "resolveCheckNote r =
     (case r of
        None \<Rightarrow> None
      | Some r \<Rightarrow> if res_status r = NotRun \<or> res_status r = Failed then res_noteKey r else None)"

definition projectEvaluatedVerificationCheck ::
  "check_definition \<Rightarrow> check_results \<Rightarrow> evidence_kind \<Rightarrow> verification_check" where
  "projectEvaluatedVerificationCheck d checks kind =
     (let derivedResult = Option.bind (def_derivedFrom d) (map_of checks);
          result = nullish derivedResult (map_of checks (def_id d));
          note = resolveCheckNote (map_of checks (def_id d));
          s = (case result of Some r \<Rightarrow> res_status r | None \<Rightarrow> NotRun)
      in \<lparr>id_of = def_id d, status = s, evidence = kind, inputs = def_inputs d, derivedFrom = def_derivedFrom d,
          noteKey = (if s = NotRun \<or> s = Failed then note else None)\<rparr>)"

definition projectVerificationCheck ::
  "check_definition \<Rightarrow> check_results \<Rightarrow> cast_source \<Rightarrow> bool \<Rightarrow> verification_check" where
  "projectVerificationCheck d checks castSource usesDevModeEvidence =
     (let kind = (if usesDevModeEvidence \<and> def_evidence d = Zk then Demo else def_evidence d) in
      if castSource = Client \<and> category d = cast_as_intended
      then \<lparr>id_of = def_id d, status = NotRun, evidence = kind, inputs = def_inputs d, derivedFrom = None, noteKey = None\<rparr>
      else projectEvaluatedVerificationCheck d checks kind)"

definition usesDevModeEvidence :: "evaluation_input \<Rightarrow> bool" where
  "usesDevModeEvidence inp =
     (case inp_verifierOutcome inp of
        None \<Rightarrow> False
      | Some oc \<Rightarrow> vo_status oc = VDevMode \<or> Option.bind (vo_report oc) dev_mode_receipt = Some True)"

definition buildVerificationChecksFromResults ::
  "evaluation_input \<Rightarrow> cast_source option \<Rightarrow> check_results \<Rightarrow> verification_check list" where
  "buildVerificationChecksFromResults inp castSource checks =
     map (\<lambda>d. projectVerificationCheck d checks (case castSource of Some s \<Rightarrow> s | None \<Rightarrow> Client) (usesDevModeEvidence inp))
       VERIFICATION_CHECK_DEFINITIONS"

definition buildVerificationChecks ::
  "noble \<Rightarrow> evaluation_input \<Rightarrow> cast_source option \<Rightarrow> engine_error + verification_check list" where
  "buildVerificationChecks N inp castSource =
     res_bind (evaluateVerificationCheckResults N inp castSource None) (\<lambda>checks.
       Inr (buildVerificationChecksFromResults inp castSource checks))"

section \<open>build-verification-steps.ts\<close>

record verification_step =
  step_id_of :: step_id
  step_status_of :: step_status
  step_inputs :: "string list"
  step_error :: "message option"

definition VERIFICATION_STEP_IDS :: "step_id list" where
  "VERIFICATION_STEP_IDS = [cast_as_intended, recorded_as_cast, counted_as_recorded, stark_verification]"

text \<open>A diagnostic is a non-blank text; the templates and thrown messages are never blank.\<close>

fun blank_message :: "message \<Rightarrow> bool" where
  "blank_message (Text s) = (js_trim s = [])"
| "blank_message _ = False"

definition hasCanonicalVerificationSteps :: "verification_step list \<Rightarrow> bool" where
  "hasCanonicalVerificationSteps steps =
     (if length steps \<noteq> length VERIFICATION_STEP_IDS then False
      else list_all2 (\<lambda>i step.
             step_id_of step = i \<and> step_inputs step = getVerificationStepInputs i \<and>
             (case step_error step of
                None \<Rightarrow> True
              | Some m \<Rightarrow> step_status_of step = Failed \<and> \<not> blank_message m)) VERIFICATION_STEP_IDS steps)"

definition createStep :: "step_id \<Rightarrow> step_status \<Rightarrow> message option \<Rightarrow> verification_step" where
  "createStep i s err =
     \<lparr>step_id_of = i, step_status_of = s, step_inputs = getVerificationStepInputs i,
      step_error = (if message_truthy err then err else None)\<rparr>"

definition resolveRequirementContext :: "evaluation_input \<Rightarrow> bool option" where
  "resolveRequirementContext inp = Some (in_sthSourcesConfigured inp = Some True)"

definition buildStepFromChecks ::
  "step_id \<Rightarrow> check_results \<Rightarrow> evaluation_input \<Rightarrow> bool option \<Rightarrow> verification_step" where
  "buildStepFromChecks stepId checks inp requirement =
     (case deriveStepStatusFromChecks stepId (getVerificationRequiredCheckIdsForStep stepId requirement) checks (Some inp) of
        (s, err) \<Rightarrow> createStep stepId s err)"

definition buildVerificationSteps ::
  "noble \<Rightarrow> evaluation_input \<Rightarrow> cast_source option \<Rightarrow> check_results option \<Rightarrow> engine_error + verification_step list" where
  "buildVerificationSteps N inp castSource checkResults =
     (let source = (case castSource of Some s \<Rightarrow> s | None \<Rightarrow> Client); requirement = resolveRequirementContext inp in
      res_bind (case checkResults of Some c \<Rightarrow> Inr c | None \<Rightarrow> evaluateVerificationCheckResults N inp (Some source) None) (\<lambda>checks.
        Inr [if source = Client then createStep cast_as_intended NotRun None
             else buildStepFromChecks cast_as_intended checks inp requirement,
             buildStepFromChecks recorded_as_cast checks inp requirement,
             buildStepFromChecks counted_as_recorded checks inp requirement,
             buildStepFromChecks stark_verification checks inp requirement]))"

end
