(* ===== verification/StageProofs.thy ===== *)
theory StageProofs
  imports Stages
begin

text \<open>
  The status of a step is determined by its required checks and its guard, a built list of steps has the
  canonical shape, and a failure of the recorded-as-cast checks can be hidden by the guard of that step.
\<close>

section \<open>Status of a step\<close>

definition guard_ok :: "step_id \<Rightarrow> evaluation_input \<Rightarrow> bool" where
  "guard_ok s inp =
     (case s of
        counted_as_recorded \<Rightarrow> in_journal inp \<noteq> None
      | recorded_as_cast \<Rightarrow> Option.bind (Option.bind (in_userVote inp) uv_proof) pc_treeSize \<noteq> None
      | _ \<Rightarrow> True)"

definition hides_failure :: "step_id \<Rightarrow> evaluation_input \<Rightarrow> bool" where
  "hides_failure s inp = (s = recorded_as_cast \<and> \<not> guard_ok s inp)"

lemma check_succeeds_status: "check_succeeds checks i \<longleftrightarrow> status_in checks i = Success"
  by (auto simp: check_succeeds_def status_in_def split: option.splits)

lemma stage_status_iff:
  "deriveStageStatusFromChecks checks ids = Success \<longleftrightarrow> list_all (check_succeeds checks) ids"
  "deriveStageStatusFromChecks checks ids = Failed \<longleftrightarrow> list_ex (\<lambda>i. status_in checks i = Failed) ids"
  by (auto simp: deriveStageStatusFromChecks_def Let_def check_succeeds_status list_all_iff list_ex_iff image_iff)
    (metis)+

lemma step_status:
  "step_status_of (buildStepFromChecks s checks inp req) =
     applyStepGuards s (deriveStageStatusFromChecks checks (getVerificationRequiredCheckIdsForStep s req)) (Some inp)"
  by (simp add: buildStepFromChecks_def deriveStepStatusFromChecks_def Let_def createStep_def)

text \<open>The status of a step.  It is a success exactly when all its required checks succeeded and its guard
  holds (a journal for counted-as-recorded, a proof with a tree size for recorded-as-cast); it is a failure
  exactly when a required check failed, except that the guard of recorded-as-cast comes before failures.\<close>

theorem step_status_spec:
  "(step_status_of (buildStepFromChecks s checks inp req) = Success) =
     (list_all (check_succeeds checks) (getVerificationRequiredCheckIdsForStep s req) \<and> guard_ok s inp) \<and>
   (step_status_of (buildStepFromChecks s checks inp req) = Failed) =
     (list_ex (\<lambda>i. status_in checks i = Failed) (getVerificationRequiredCheckIdsForStep s req) \<and>
      hides_failure s inp = False)"
  using stage_status_iff [of checks "getVerificationRequiredCheckIdsForStep s req", symmetric]
  by (cases s) (auto simp: step_status applyStepGuards_def guard_ok_def hides_failure_def)

text \<open>C20: the guard of recorded-as-cast hides failures.  Without a tree size in the voter's proof the step is
  shown as not run even when one of its required checks, such as the range of the receipt's index, failed;
  the counted-as-recorded step keeps a failure when its own evidence, the journal, is missing.\<close>

theorem recorded_failure_hidden:
  assumes "Option.bind (Option.bind (in_userVote inp) uv_proof) pc_treeSize = None" "in_journal inp = None"
    "status_in checks recorded_index_in_range = Failed" "status_in checks counted_missing_indices_zero = Failed"
  shows "step_status_of (buildStepFromChecks recorded_as_cast checks inp req) = NotRun \<and>
    step_status_of (buildStepFromChecks counted_as_recorded checks inp req) = Failed"
proof -
  have "counted_missing_indices_zero \<in> set (getVerificationRequiredCheckIdsForStep counted_as_recorded req)"
    by (simp add: getVerificationRequiredCheckIdsForStep_def getVerificationRequiredCheckDefinitionsForStep_def
        definitions_by_step table_defs isVerificationCheckRequired_def)
  then have "deriveStageStatusFromChecks checks (getVerificationRequiredCheckIdsForStep counted_as_recorded req) = Failed"
    using assms(4) stage_status_iff(2) by (auto simp: list_ex_iff)
  then show ?thesis using assms(1,2) by (simp add: step_status applyStepGuards_def)
qed

definition failing_input :: evaluation_input where
  "failing_input = empty_input
     \<lparr>in_voteReceipt := Some \<lparr>rc_voteId = None, rc_commitment = None, rc_bulletinIndex = js_int 7, rc_bulletinRootAtCast = []\<rparr>,
      in_treeSize := Some (js_int 3), in_excludedSlots := Some (js_int 1)\<rparr>"

theorem recorded_failure_hidden_witness:
  "\<exists>checks. evaluateChecks demo_noble failing_input [recorded_index_in_range, counted_missing_indices_zero] None = Inr checks \<and>
    step_status_of (buildStepFromChecks recorded_as_cast checks failing_input (Some False)) = NotRun \<and>
    step_status_of (buildStepFromChecks counted_as_recorded checks failing_input (Some False)) = Failed"
proof -
  let ?checks = "[(recorded_index_in_range, failed_with (Text ''Invalid bulletin index'')),
    (counted_missing_indices_zero, failed_with (ExcludedSlotsMessage (js_int 1)))]"
  have "evaluateChecks demo_noble failing_input [recorded_index_in_range, counted_missing_indices_zero] None = Inr ?checks"
    by (simp add: evaluateChecks_def selected failing_input_def empty_input_def resolveRecordedIndexInRange_def
        engine_asBulletinIndex_def MAX_SAFE_INTEGER_def resolveCountedMissingIndicesZero_def resolveInvalidJournalCounts_def
        resolveExcludedCount_def)
  then show ?thesis
    using recorded_failure_hidden [of failing_input ?checks "Some False"]
    by (simp add: failing_input_def empty_input_def status_in_def)
qed

section \<open>Shape of the built steps\<close>

definition good_error :: "check_result \<Rightarrow> bool" where
  "good_error r = (case res_error r of None \<Rightarrow> True | Some m \<Rightarrow> \<not> blank_message m)"

lemma good_error_simps [simp]:
  "good_error (outcome s)" "good_error (noted s n)" "good_error (failed_with m) \<longleftrightarrow> \<not> blank_message m"
  by (simp_all add: good_error_def outcome_def noted_def failed_with_def)

lemma js_trim_Cons [simp]:
  assumes "\<not> is_js_space c"
  shows "js_trim (c # cs) \<noteq> []"
proof -
  have "\<not> (\<forall>x \<in> set (rev (c # cs)). is_js_space x)" using assms by auto
  then have "dropWhile is_js_space (rev (c # cs)) \<noteq> []" by (simp only: dropWhile_eq_Nil_conv not_False_eq_True)
  moreover have "dropWhile is_js_space (c # cs) = c # cs" using assms by simp
  ultimately show ?thesis by (simp only: js_trim_def rev_is_Nil_conv not_False_eq_True)
qed

lemma letters_not_space [simp]: "65 \<le> (of_char c :: nat) \<Longrightarrow> of_char c < (160::nat) \<Longrightarrow> \<not> is_js_space c"
  by (auto simp: is_js_space_def Let_def)

text \<open>The message of a malformed or failed acquisition is the caller's; the others are texts of the source.\<close>

definition acquisition_message_ok :: "'a acquisition \<Rightarrow> bool" where
  "acquisition_message_ok a =
     (case a of Malformed (Some m) \<Rightarrow> js_trim m \<noteq> [] | TransportFailed (Some m) \<Rightarrow> js_trim m \<noteq> [] | _ \<Rightarrow> True)"

lemma good_cast:
  "good_error (resolveCastReceiptPresent vr)" "good_error (resolveCastChoiceRange ch)" "good_error (resolveCastRandomFormat rd)"
  "good_error (resolveCastCommitmentMatch N e vr ch rd)"
  by (auto simp: resolveCastReceiptPresent_def resolveCastChoiceRange_def resolveCastRandomFormat_def resolveCastCommitmentMatch_def
      compareRecomputedCommitment_def Let_def split: option.splits sum.splits)

lemma good_recorded:
  "good_error (resolveRecordedIndexInRange vr ts)" "good_error (resolveRecordedInclusionProof N uv vr)"
  "good_error (resolveRecordedSthThirdParty ev)"
  by (auto simp: resolveRecordedIndexInRange_def resolveRecordedInclusionProof_def inclusion_of_def resolveRecordedSthThirdParty_def
      split: option.splits sum.splits)

lemma good_consistency:
  assumes "resolveRecordedConsistencyProof N vr uv br ts acq = Inr r" "acquisition_message_ok acq"
  shows "good_error r"
proof -
  have "good_error (verifyAdmittedConsistencyProof N acq e)" for e
    using assms(2)
    by (auto simp: verifyAdmittedConsistencyProof_def acquisition_message_ok_def Let_def client_verifyConsistencyProof_def
        split: acquisition.splits option.splits sum.splits)
  moreover have "good_error x" if "validateConsistencySnapshot p receipt n = Inr (Some x)" for p receipt n x
    using that by (auto simp: validateConsistencySnapshot_def split: option.splits if_splits)
  ultimately show ?thesis
    using assms(1) by (auto simp: resolveRecordedConsistencyProof_def err_simps split: option.splits if_splits)
qed

lemma good_counted:
  "good_error (resolveCountedInputSanity a)" "good_error (resolveCountedUniqueIndices a)" "good_error (resolveCountedUniqueCommitments a)"
  "good_error (resolveCountedTallyConsistent j t v g)" "good_error (resolveCountedMissingIndicesZero j ms iv ex g)"
  "good_error (resolveCountedExpectedVsTreeSize j x ts g)" "good_error (resolveCountedInputCommitmentMatch j ic a g)"
  by (auto simp: resolveCountedInputSanity_def resolveCountedUniqueIndices_def resolveCountedUniqueCommitments_def
      resolveCountedTallyConsistent_def comparePublishedTally_def validateJournalTally_def resolveCountedMissingIndicesZero_def
      resolveInvalidJournalCounts_def resolveCountedExpectedVsTreeSize_def resolveCountedInputCommitmentMatch_def Let_def
      split: option.splits if_splits)

lemma good_artifacts:
  "good_error (resolveCountedElectionManifestConsistent N ev g)" "good_error (resolveCountedCloseStatementConsistent N ev g)"
  "good_error (resolveCountedMyVoteIncluded N ev' g)" "good_error (resolveStarkImageIdMatch cl cm rp s)"
proof -
  show "good_error (resolveCountedElectionManifestConsistent N ev g)"
    by (auto simp: resolveCountedElectionManifestConsistent_def compareElectionManifestInputs_def Let_def split: option.splits)
  have "good_error (compareCloseStatementInputs ev c d)" for c d
    by (simp add: compareCloseStatementInputs_def Let_def)
  moreover have "good_error r" if "validateCloseStatementArtifact N c = Some r" for c r
    using that by (auto simp: validateCloseStatementArtifact_def split: sum.splits if_splits)
  ultimately show "good_error (resolveCountedCloseStatementConsistent N ev g)"
    by (auto simp: resolveCountedCloseStatementConsistent_def split: option.splits)
  have "good_error (projectMyVoteProofResult v i d)" for v i d
    by (auto simp: projectMyVoteProofResult_def split: option.splits vote_inclusion_status.splits)
  then show "good_error (resolveCountedMyVoteIncluded N ev' g)"
    by (auto simp: resolveCountedMyVoteIncluded_def resolveBitmapProofAuthority_def evaluateMyVoteBitmapProof_def unresolvedMyVoteCheck_def Let_def
        split: option.splits sum.splits)
  show "good_error (resolveStarkImageIdMatch cl cm rp s)"
    by (auto simp: resolveStarkImageIdMatch_def compareVerifierImageIds_def compareConfirmedReceiptImageId_def Let_def split: option.splits)
qed

lemma good_selected:
  assumes "evaluateSelectedCheck N ev (evaluation_runtime_of N ev g) i = Inr r" "acquisition_message_ok (ev_consistencyProof ev)"
  shows "good_error r"
  using assms good_consistency [OF _ assms(2)]
  by (cases i) (auto simp: selected evaluation_runtime_of_def evaluateLocalCastChecks_def Let_def good_cast good_recorded good_counted good_artifacts)

lemma pick_error_good:
  assumes "\<forall>(i, r) \<in> set checks. good_error r" "pickStageError checks ids = Some m"
  shows "\<not> blank_message m"
  using assms(2)
proof (induction ids)
  case (Cons i "is")
  have "good_error r" if "map_of checks i = Some r" for r using assms(1) map_of_SomeD [OF that] by auto
  then show ?case using Cons by (auto simp: good_error_def split: option.splits if_splits)
qed simp

lemma built_step_canonical:
  assumes "\<forall>(i, r) \<in> set checks. good_error r" "step = buildStepFromChecks s checks inp req"
  shows "step_id_of step = s" "step_inputs step = getVerificationStepInputs s"
    "case step_error step of None \<Rightarrow> True | Some m \<Rightarrow> step_status_of step = Failed \<and> \<not> blank_message m"
  using assms(2) pick_error_good [OF assms(1), of "getVerificationRequiredCheckIdsForStep s req"]
  by (auto simp: buildStepFromChecks_def deriveStepStatusFromChecks_def createStep_def Let_def split: option.splits if_splits)

text \<open>C21: the steps the engine builds have the canonical shape its own validator demands: the four steps in
  order, with the inputs of the catalogue, and a diagnostic only on a failed step and never blank.  The one
  diagnostic that is not a text of the engine, the message of a consistency proof that could not be
  acquired, must not be blank.\<close>

theorem built_steps_canonical:
  assumes "buildVerificationSteps N inp src None = Inr steps" "acquisition_message_ok (orUnavailable (inp_consistencyProof inp))"
  shows "hasCanonicalVerificationSteps steps"
proof -
  from assms(1) obtain checks src' where c: "evaluateVerificationCheckResults N inp (Some src') None = Inr checks"
    and s: "steps = [if src' = Client then createStep cast_as_intended NotRun None
             else buildStepFromChecks cast_as_intended checks inp (resolveRequirementContext inp),
             buildStepFromChecks recorded_as_cast checks inp (resolveRequirementContext inp),
             buildStepFromChecks counted_as_recorded checks inp (resolveRequirementContext inp),
             buildStepFromChecks stark_verification checks inp (resolveRequirementContext inp)]"
    by (auto simp: buildVerificationSteps_def Let_def err_simps)
  have good: "\<forall>(i, r) \<in> set checks. good_error r"
  proof (clarify)
    fix i r assume "(i, r) \<in> set checks"
    then obtain g where "evaluateSelectedCheck N (admitVerificationEvidence inp) (evaluation_runtime_of N (admitVerificationEvidence inp) g) i = Inr r"
      using evaluateChecks_pairs [OF c [unfolded evaluateVerificationCheckResults_def]]
      by (auto simp: list_all2_conv_all_nth in_set_conv_nth runtime_of_def)
    then show "good_error r" using good_selected assms(2) by simp
  qed
  show ?thesis
    using built_step_canonical [OF good refl]
    by (auto simp: s hasCanonicalVerificationSteps_def VERIFICATION_STEP_IDS_def) (simp_all add: createStep_def)
qed

lemma known_ids: "unknown_check s \<notin> set CHECK_IDS_ALL" "unknown_check s \<notin> set CHECK_IDS_WITHOUT_CAST"
  by (simp_all add: CHECK_IDS_ALL_def CHECK_IDS_WITHOUT_CAST_def table_defs with_source_def)

lemma evaluates:
  assumes "\<not> unsafe_snapshot inp"
  shows "\<exists>checks. evaluateVerificationCheckResults N inp src gate = Inr checks"
proof -
  have "\<not> isl (evaluateVerificationCheckResults N inp src gate)"
    using assms known_ids evaluation_throws
    by (auto simp: evaluateVerificationCheckResults_def split: option.splits cast_source.splits)
  then show ?thesis by (cases "evaluateVerificationCheckResults N inp src gate") auto
qed

theorem built_steps_canonical_witness:
  "\<exists>steps. buildVerificationSteps demo_noble recorded_input None None = Inr steps \<and> hasCanonicalVerificationSteps steps"
proof -
  have safe: "\<not> unsafe_snapshot recorded_input"
    by (simp add: unsafe_snapshot_def recorded_input_def empty_input_def toCanonicalRfc6962Proof_def List.map_filter_def MAX_SAFE_INTEGER_def)
  obtain checks where "evaluateVerificationCheckResults demo_noble recorded_input (Some Client) None = Inr checks"
    using evaluates [OF safe] by blast
  then obtain steps where s: "buildVerificationSteps demo_noble recorded_input None None = Inr steps"
    by (simp add: buildVerificationSteps_def Let_def)
  then show ?thesis
    using built_steps_canonical [OF s] by (simp add: recorded_input_def empty_input_def orUnavailable_def acquisition_message_ok_def)
qed

end
