(* ===== verification/EndToEnd.thy ===== *)
theory EndToEnd
  imports StageProofs
begin

text \<open>
  From the summary back to the evidence: when the summary of the projected checks, with the voter's own checks
  laid over them, is fully verified, the underlying checks succeeded on the evidence.
\<close>

lemma overlay_members:
  assumes "overlayLocalCastChecks sc lr = Some cs" "c \<in> set cs" "id_of c \<notin> set LOCAL_CAST_CHECK_IDS"
  shows "c \<in> set sc"
proof -
  have "local_result lr i \<noteq> None \<longleftrightarrow> i \<in> set LOCAL_CAST_CHECK_IDS" for i
    by (auto simp: local_result_def LOCAL_CAST_CHECK_IDS_def)
  then show ?thesis
    using assms by (fastforce simp: overlayLocalCastChecks_def split: if_splits option.splits)
qed

lemma projected_member:
  assumes "c \<in> set (buildVerificationChecksFromResults inp src checks)" "d \<in> set VERIFICATION_CHECK_DEFINITIONS"
    "id_of c = def_id d" "category d \<noteq> cast_as_intended" "def_derivedFrom d = None"
  shows "status c = status_in checks (def_id d)"
    "evidence c = (if usesDevModeEvidence inp \<and> def_evidence d = Zk then Demo else def_evidence d)"
proof -
  obtain d' where d': "d' \<in> set VERIFICATION_CHECK_DEFINITIONS"
    "c = projectVerificationCheck d' checks (case src of Some s \<Rightarrow> s | None \<Rightarrow> Client) (usesDevModeEvidence inp)"
    using assms(1) by (auto simp: buildVerificationChecksFromResults_def)
  have "id_of c = def_id d'"
    by (simp add: d'(2) projectVerificationCheck_def projectEvaluatedVerificationCheck_def Let_def)
  then have "d' = d" using definition_unique d'(1) assms(2,3) by metis
  then show "status c = status_in checks (def_id d)"
    "evidence c = (if usesDevModeEvidence inp \<and> def_evidence d = Zk then Demo else def_evidence d)"
    using d'(2) assms(4,5)
    by (auto simp: projectVerificationCheck_def projectEvaluatedVerificationCheck_def Let_def status_in_def split: option.splits)
qed

lemma cast_ids: "d \<in> set VERIFICATION_CHECK_DEFINITIONS \<Longrightarrow> def_id d \<in> set LOCAL_CAST_CHECK_IDS \<longleftrightarrow> category d = cast_as_intended"
  by (auto simp: table_defs LOCAL_CAST_CHECK_IDS_def)

lemma required_succeeds:
  assumes "overlayLocalCastChecks (buildVerificationChecksFromResults inp src checks) lr = Some cs"
    "deriveVerificationSummary (Some cs) ctx = Some r" "sum_status r = fully_verified"
    "d \<in> set VERIFICATION_CHECK_DEFINITIONS" "criticality d = Required" "category d \<noteq> cast_as_intended" "def_derivedFrom d = None"
  shows "check_succeeds checks (def_id d)" "def_evidence d = Zk \<Longrightarrow> \<not> usesDevModeEvidence inp"
proof -
  have req: "isRequiredCheck d ctx" using assms(5) by (simp add: isRequiredCheck_def isVerificationCheckRequired_def)
  have f: "complete_evidence cs ctx" "\<not> required_with (\<lambda>s. s \<noteq> Success) cs ctx"
    "\<not> (\<exists>c \<in> set cs. id_of c \<in> set VERIFICATION_CHECK_IDS \<and> evidence c = Demo)"
    using fully_verified_char [of cs ctx] assms(2,3) by blast+
  obtain c where c: "c \<in> set cs" "id_of c = def_id d"
    using f(1) req assms(4) unfolding complete_evidence_def by blast
  then have sc: "c \<in> set (buildVerificationChecksFromResults inp src checks)"
    using overlay_members [OF assms(1)] cast_ids [OF assms(4)] assms(6) by simp
  have "status c = Success"
    using f(2) c req assms(4) by (auto simp: required_with_def)
  then show "check_succeeds checks (def_id d)"
    using projected_member(1) [OF sc assms(4) c(2) assms(6,7)] by (simp add: check_succeeds_status)
  show "\<not> usesDevModeEvidence inp" if "def_evidence d = Zk"
    using projected_member(2) [OF sc assms(4) c(2) assms(6,7)] f(3) c assms(4) that by (auto simp: VERIFICATION_CHECK_IDS_def)
qed

definition plain_required :: "check_definition \<Rightarrow> bool" where
  "plain_required d = (criticality d = Required \<and> category d \<noteq> cast_as_intended \<and> def_derivedFrom d = None)"

lemma required_entries:
  "\<exists>d \<in> set VERIFICATION_CHECK_DEFINITIONS. def_id d = recorded_inclusion_proof \<and> plain_required d"
  "\<exists>d \<in> set VERIFICATION_CHECK_DEFINITIONS. def_id d = recorded_consistency_proof \<and> plain_required d"
  "\<exists>d \<in> set VERIFICATION_CHECK_DEFINITIONS. def_id d = counted_my_vote_included \<and> plain_required d"
  "\<exists>d \<in> set VERIFICATION_CHECK_DEFINITIONS. def_id d = counted_missing_indices_zero \<and> plain_required d"
  "\<exists>d \<in> set VERIFICATION_CHECK_DEFINITIONS. def_id d = stark_receipt_verify \<and> plain_required d \<and> def_evidence d = Zk"
  by (simp_all add: table_defs plain_required_def)

lemma fully_verified_checks:
  assumes "overlayLocalCastChecks (buildVerificationChecksFromResults inp src checks) lr = Some cs"
    "deriveVerificationSummary (Some cs) ctx = Some r" "sum_status r = fully_verified"
  shows "check_succeeds checks recorded_inclusion_proof" "check_succeeds checks recorded_consistency_proof"
    "check_succeeds checks counted_my_vote_included" "check_succeeds checks counted_missing_indices_zero"
    "check_succeeds checks stark_receipt_verify" "\<not> usesDevModeEvidence inp"
proof -
  have s: "check_succeeds checks i" if "\<exists>d \<in> set VERIFICATION_CHECK_DEFINITIONS. def_id d = i \<and> plain_required d" for i
    using that required_succeeds(1) [OF assms] by (auto simp: plain_required_def)
  show "check_succeeds checks recorded_inclusion_proof" by (rule s [OF required_entries(1)])
  show "check_succeeds checks recorded_consistency_proof" by (rule s [OF required_entries(2)])
  show "check_succeeds checks counted_my_vote_included" by (rule s [OF required_entries(3)])
  show "check_succeeds checks counted_missing_indices_zero" by (rule s [OF required_entries(4)])
  show "check_succeeds checks stark_receipt_verify" using required_entries(5) s by blast
  show "\<not> usesDevModeEvidence inp"
    using required_entries(5) required_succeeds(2) [OF assms] by (auto simp: plain_required_def)
qed

lemma missing_success:
  assumes "res_status (resolveCountedMissingIndicesZero (Some j) m i x g) = Success"
  shows "j_excludedSlots j = Some (js_int 0)"
proof -
  have "resolveInvalidJournalCounts (Some j) = None" using assms
    by (auto simp: resolveCountedMissingIndicesZero_def resolveInvalidJournalCounts_def Let_def split: option.splits if_splits)
  then have "isValidCount (j_excludedSlots j)" by (auto simp: resolveInvalidJournalCounts_def Let_def split: if_splits)
  then show ?thesis using assms valid_count_zero
    by (auto simp: resolveCountedMissingIndicesZero_def resolveInvalidJournalCounts_def resolveExcludedCount_def Let_def
        isValidCount_def split: option.splits if_splits)
qed

section \<open>What is hashed\<close>

text \<open>The byte strings hashed while verifying the voter's evidence, and for the published log and bitmap.\<close>

definition voter_preimages :: "noble \<Rightarrow> evaluation_input \<Rightarrow> int \<Rightarrow> byte list list" where
  "voter_preimages N inp n =
     (case (toCanonicalRfc6962Proof (Option.bind (in_userVote inp) uv_proof), Option.bind (in_userVote inp) uv_commitment, in_voteReceipt inp) of
        (Some p, Some c, Some receipt) \<Rightarrow>
          (let i = to_int (rc_bulletinIndex receipt) in
           inclusion_preimages N (normalizeHexString c) i (map normalizeHexString (cp_merklePath p)) (i + 1) @
           (case inp_consistencyProof inp of
              Some (Admitted q) \<Rightarrow>
                consistency_preimages N (normalizeHexString (rc_bulletinRootAtCast receipt))
                  \<lparr>oldSize = i + 1, newSize = n, proofNodes = map normalizeHexString (ac_proofNodes q)\<rparr>
            | _ \<Rightarrow> []))
      | _ \<Rightarrow> []) @
     (case inp_includedBitmapProof inp of Some (Admitted b) \<Rightarrow> proof_preimages N b | _ \<Rightarrow> [])"

definition published_preimages :: "noble \<Rightarrow> byte list list \<Rightarrow> bool list \<Rightarrow> nat \<Rightarrow> byte list list" where
  "published_preimages N ds bitmap i =
     tree_preimages N (take (i + 1) ds) @ tree_preimages N ds @ bitmap_preimages N bitmap"

text \<open>Both soundness results, with their collisions collected.\<close>

lemma recorded_and_counted:
  assumes "noble_ok N" "evaluateChecks N inp ids gate = Inr rs"
    "check_succeeds rs recorded_inclusion_proof" "check_succeeds rs recorded_consistency_proof" "check_succeeds rs counted_my_vote_included"
    "in_bulletinRoot inp = Some br" "normalizeHexString br = bytesToHex N (mth_spec N ds)"
    "in_treeSize inp = Some (js_int (int (length ds)))" "length ds < 2 ^ 32"
    "in_journal inp = Some j" "j_treeSize j = js_int (int (length ds))" "length bitmap = length ds"
    "j_includedBitmapRoot j = computeIncludedBitmapRootHex N bitmap"
  shows "\<exists>receipt c i. in_voteReceipt inp = Some receipt \<and> Option.bind (in_userVote inp) uv_commitment = Some c \<and>
    rc_bulletinIndex receipt = js_int (int i) \<and> i < length ds \<and>
    (leaf_bytes N (normalizeHexString c) = ds ! i \<and> bitmap ! i \<or>
     collides N (voter_preimages N inp (int (length ds))) (published_preimages N ds bitmap i))"
proof -
  obtain receipt c i p q where
    r: "in_voteReceipt inp = Some receipt" "Option.bind (in_userVote inp) uv_commitment = Some c"
      "rc_bulletinIndex receipt = js_int (int i)" "i < length ds"
      "toCanonicalRfc6962Proof (Option.bind (in_userVote inp) uv_proof) = Some p" "inp_consistencyProof inp = Some (Admitted q)"
    and leaf: "leaf_bytes N (normalizeHexString c) = ds ! i \<or>
     collides N (inclusion_preimages N (normalizeHexString c) (int i) (map normalizeHexString (cp_merklePath p)) (int i + 1))
       (tree_preimages N (take (i + 1) ds)) \<or>
     collides N (consistency_preimages N (normalizeHexString (rc_bulletinRootAtCast receipt))
         \<lparr>oldSize = int i + 1, newSize = int (length ds), proofNodes = map normalizeHexString (ac_proofNodes q)\<rparr>)
       (tree_preimages N ds)"
    using recorded_as_cast_core [OF assms(1-4,6-9)] by (elim exE conjE)
  have bit: "bitmap ! i \<or> (\<exists>b. inp_includedBitmapProof inp = Some (Admitted b) \<and>
      collides N (proof_preimages N b) (bitmap_preimages N bitmap))"
    using my_vote_counted_core [OF assms(1,2,5), of bitmap receipt i] r assms(10-13) by simp
  let ?V = "voter_preimages N inp (int (length ds))" and ?P = "published_preimages N ds bitmap i"
  let ?I = "inclusion_preimages N (normalizeHexString c) (int i) (map normalizeHexString (cp_merklePath p)) (int i + 1)"
  let ?C = "consistency_preimages N (normalizeHexString (rc_bulletinRootAtCast receipt))
    \<lparr>oldSize = int i + 1, newSize = int (length ds), proofNodes = map normalizeHexString (ac_proofNodes q)\<rparr>"
  have V: "set ?I \<subseteq> set ?V" "set ?C \<subseteq> set ?V"
    "\<And>b. inp_includedBitmapProof inp = Some (Admitted b) \<Longrightarrow> set (proof_preimages N b) \<subseteq> set ?V"
    using r by (simp_all add: voter_preimages_def Let_def) blast+
  have P: "set (tree_preimages N (take (i + 1) ds)) \<subseteq> set ?P" "set (tree_preimages N ds) \<subseteq> set ?P"
    "set (bitmap_preimages N bitmap) \<subseteq> set ?P"
    by (auto simp: published_preimages_def)
  have "leaf_bytes N (normalizeHexString c) = ds ! i \<or> collides N ?V ?P"
    using leaf collides_mono [OF _ V(1) P(1)] collides_mono [OF _ V(2) P(2)] by blast
  moreover have "bitmap ! i \<or> collides N ?V ?P"
    using bit collides_mono [OF _ V(3) P(3)] by blast
  ultimately show ?thesis using r by blast
qed

end
