(* ===== verification/VerifiedExample.thy ===== *)
theory VerifiedExample
  imports EndToEnd
begin

text \<open>
  An election with one voter in which every check succeeds: the example on which the end-to-end theorem is
  applied.  The log holds one commitment, the bitmap one set bit, and the artefacts are built by the
  program's own builders.
\<close>

definition full_bitmap :: "bool list" where
  "full_bitmap = [True]"

definition full_config :: election_config where
  "full_config = \<lparr>ec_totalExpected = 1, ec_choices = VOTE_CHOICES, ec_version = ''1.0'', ec_botCount = 0, ec_merkleTreeDepth = 1\<rparr>"

definition full_manifest :: election_manifest where
  "full_manifest = buildElectionManifest demo_noble ''e'' full_config"

definition full_journal :: "close_statement \<Rightarrow> zkvm_journal" where
  "full_journal c =
     \<lparr>j_electionId = ''e'', j_electionConfigHash = em_electionConfigHash full_manifest, j_bulletinRoot = demo_root,
      j_treeSize = js_int 1, j_totalExpected = js_int 1, j_sthDigest = cs_sthDigest c,
      j_verifiedTally = Some (map js_int [1, 0, 0, 0, 0]), j_totalVotes = Some (js_int 1), j_validVotes = Some (js_int 1),
      j_missingSlots = Some (js_int 0), j_invalidPresentedSlots = Some (js_int 0), j_excludedSlots = Some (js_int 0),
      j_seenBitmapRoot = None, j_includedBitmapRoot = computeIncludedBitmapRootHex demo_noble full_bitmap,
      j_inputCommitment = leaf_b\<rparr>"

definition full_authority :: public_input_authority where
  "full_authority =
     \<lparr>pa_electionId = ''e'', pa_electionConfigHash = em_electionConfigHash full_manifest, pa_methodVersion = js_int 14,
      pa_bulletinRoot = demo_root, pa_treeSize = js_int 1, pa_totalExpected = js_int 1, pa_votesCount = js_int 1,
      pa_uniqueIndices = True, pa_uniqueCommitments = True, pa_logId = leaf_a, pa_timestamp = js_int 5,
      pa_recomputedInputCommitment = leaf_b\<rparr>"

definition full_input :: "close_statement \<Rightarrow> evaluation_input" where
  "full_input c = recorded_input
     \<lparr>in_journal := Some (full_journal c), in_publicInputAuthority := Some full_authority,
      in_electionManifest := Some full_manifest, in_closeStatement := Some c,
      in_sthSourcesConfigured := Some True, in_sthVerified := Some True, in_bitmapProofSource := Some Mock,
      inp_includedBitmapProof := Some (Admitted
        \<lparr>leafChunk = bytesToHex demo_noble (getBitmapLeafChunkBytes full_bitmap 0), auditPath = generated_path demo_noble full_bitmap 0\<rparr>),
      inp_verifierOutcome := Some \<lparr>vo_status = VSuccess,
        vo_report = Some \<lparr>rep_status = Some VSuccess, expected_image_id = Some leaf_a, receipt_image_id = Some (Some leaf_a),
          dev_mode_receipt = Some False\<rparr>, vo_failureCategory = None\<rparr>\<rparr>"

lemmas full_input_simps = full_input_def recorded_input_def empty_input_def full_journal_def full_authority_def

definition full_statement :: "close_statement \<Rightarrow> bool" where
  "full_statement c \<longleftrightarrow> buildCloseStatement demo_noble leaf_a (js_int 1) (js_int 5) demo_root = Inr c"

lemma demo_root_hex [simp]: "canonical_hex demo_root" "length demo_root = 64"
  using lower_bytesToHex [OF demo_noble_ok] length_bytesToHex [OF demo_noble_ok] length_sha256 [OF demo_noble_ok]
  by (simp_all add: demo_root_def demo_log_def mth_spec_simps leafH_def canonical_hex_def)

lemma demo_root_nonzero: "demo_root \<noteq> replicate 64 CHR ''0''"
  by code_simp

lemma hex32_of: "canonical_hex s \<Longrightarrow> length s = 64 \<Longrightarrow> normalizeHex32 s = Inr (''0x'' @ s)"
  by (auto simp: normalizeHex32_def addHexPrefix_def isValidHexString_def canonical_hex_def [symmetric])

lemma full_statement_exists: "\<exists>c. full_statement c"
proof -
  have h: "normalizeHex32 leaf_a = Inr (''0x'' @ leaf_a)" "normalizeHex32 demo_root = Inr (''0x'' @ demo_root)"
    by (simp_all add: hex32_of)
  obtain a b where "zk_hexToBytesStrict demo_noble (''0x'' @ leaf_a) = Inr a" "zk_hexToBytesStrict demo_noble (''0x'' @ demo_root) = Inr b"
    using hex32_bytes [OF demo_noble_ok h(1)] hex32_bytes [OF demo_noble_ok h(2)] by metis
  then show ?thesis
    using h by (simp add: full_statement_def buildCloseStatement_def asUnixTimestampMillis_def assertUnsignedIntegerInRange_def
        MAX_SAFE_INTEGER_def computeSTHDigest_def uint32LE_def UINT32_MAX_def)
qed

lemma full_statement_fields:
  assumes "full_statement c"
  shows "cs_timestamp c = js_int 5" "cs_treeSize c = js_int 1" "cs_logId c \<noteq> []" "normalizeHexString (cs_bulletinRoot c) = demo_root"
    "cs_sthDigest c \<noteq> []" "validateCloseStatementArtifact demo_noble c = None"
proof -
  have h: "normalizeHex32 leaf_a = Inr (''0x'' @ leaf_a)" "normalizeHex32 demo_root = Inr (''0x'' @ demo_root)"
    by (simp_all add: hex32_of)
  have "cs_timestamp c = js_int 5 \<and> cs_treeSize c = js_int 1 \<and> cs_logId c = ''0x'' @ leaf_a \<and> cs_bulletinRoot c = ''0x'' @ demo_root"
    using assms h by (auto simp: full_statement_def buildCloseStatement_def err_simps)
  then show "cs_timestamp c = js_int 5" "cs_treeSize c = js_int 1" "cs_logId c \<noteq> []" "normalizeHexString (cs_bulletinRoot c) = demo_root"
    using double_prefix(2) [of demo_root] by simp_all
  show "cs_sthDigest c \<noteq> []" using assms by (auto simp: full_statement_def buildCloseStatement_def err_simps computeSTHDigest_def)
  show "validateCloseStatementArtifact demo_noble c = None" using assms build_validates by (simp add: full_statement_def)
qed

section \<open>Every check succeeds\<close>

definition full_runtime :: "close_statement \<Rightarrow> evaluation_runtime" where
  "full_runtime c = runtime_of demo_noble (full_input c) None"

lemma full_runtime_simps [simp]: "starkStatus (full_runtime c) = Success" "zkGateStatus (full_runtime c) = None"
  by (simp_all add: full_runtime_def runtime_of_def evaluation_runtime_of_def Let_def resolveStarkStatus_def
      normalizeVerifierOutcome_def resolveZkGateStatus_def full_input_simps)

definition full_success :: "close_statement \<Rightarrow> check_id \<Rightarrow> bool" where
  "full_success c i \<longleftrightarrow> evaluateSelectedCheck demo_noble (admitVerificationEvidence (full_input c)) (full_runtime c) i = Inr (outcome Success)"

lemma full_recorded:
  "full_success c recorded_inclusion_proof" "full_success c recorded_commitment_in_bulletin"
  "full_success c recorded_consistency_proof" "full_success c recorded_root_at_cast_consistent"
  "full_success c recorded_index_in_range"
proof -
  show a: "full_success c recorded_inclusion_proof"
    using demo_inclusion by (simp add: full_success_def selected full_input_simps resolveRecordedInclusionProof_def
        toCanonicalRfc6962Proof_def isValidCount_def engine_asBulletinIndex_def engine_asLeafIndex_def
        MAX_SAFE_INTEGER_def inclusion_of_def verifyCTMerkleInclusion_def List.map_filter_def) (simp add: leaf_a_def)
  show b: "full_success c recorded_consistency_proof"
    by (simp add: full_success_def selected full_input_simps resolveRecordedConsistencyProof_def
        toCanonicalRfc6962Proof_def isValidCount_def engine_asBulletinIndex_def engine_asLeafIndex_def
        MAX_SAFE_INTEGER_def List.map_filter_def hasReceiptCastRoot_def
        isPositiveTreeSize_def validateConsistencySnapshot_def orUnavailable_def verifyAdmittedConsistencyProof_def
        client_verifyConsistencyProof_def verifyConsistencyProof_def)
  show "full_success c recorded_commitment_in_bulletin" using a by (simp add: full_success_def selected)
  show "full_success c recorded_root_at_cast_consistent" using b by (simp add: full_success_def selected)
  show "full_success c recorded_index_in_range"
    by (simp add: full_success_def selected full_input_simps resolveRecordedIndexInRange_def engine_asBulletinIndex_def MAX_SAFE_INTEGER_def)
qed

lemma full_public:
  "full_success c counted_input_sanity" "full_success c counted_unique_indices" "full_success c counted_unique_commitments"
  "full_success c counted_input_commitment_match"
  "full_success c counted_expected_vs_tree_size" "full_success c counted_missing_indices_zero"
  "full_success c counted_tally_consistent" "full_success c stark_receipt_verify"
  using demo_root_nonzero
  by (simp_all add: full_success_def selected full_input_simps resolveCountedInputSanity_def resolveCountedUniqueIndices_def
      resolveCountedUniqueCommitments_def resolveCountedInputCommitmentMatch_def resolveCountedExpectedVsTreeSize_def
      resolveCountedMissingIndicesZero_def resolveInvalidJournalCounts_def isValidCount_def resolveExcludedCount_def Let_def
      resolveCountedTallyConsistent_def validateJournalTally_def num_sum_def) (simp_all add: leaf_b_def)

lemma full_sth: "full_statement c \<Longrightarrow> full_success c recorded_sth_third_party"
  by (simp add: full_success_def selected full_input_simps resolveRecordedSthThirdParty_def hasPublicSthEvidence_def full_statement_fields)

lemma full_image: "full_success c stark_image_id_match"
  by (simp add: full_success_def selected full_input_simps resolveStarkImageIdMatch_def hasValidImageIdEvidence_def isValidImageId_def
      compareVerifierImageIds_def compareConfirmedReceiptImageId_def normalizeVerifierOutcome_def) (simp add: leaf_a_def)

lemma full_close: "full_statement c \<Longrightarrow> full_success c counted_close_statement_consistent"
  by (simp add: full_success_def selected full_input_simps resolveCountedCloseStatementConsistent_def compareCloseStatementInputs_def
      present_strings_def List.map_filter_def full_statement_fields)

lemma full_manifest_ok: "full_success c counted_election_manifest_consistent"
proof -
  have "em_electionId full_manifest = ''e''" "recomputeElectionManifestHash demo_noble full_manifest = em_electionConfigHash full_manifest"
    by (simp_all add: full_manifest_def buildElectionManifest_def Let_def recomputeElectionManifestHash_def hashElectionConfig_def
        canonicalConfig_def full_config_def election_config.defs election_manifest.defs)
  then show ?thesis
    by (simp add: full_success_def selected full_input_simps resolveCountedElectionManifestConsistent_def compareElectionManifestInputs_def
      present_strings_def List.map_filter_def Let_def)
qed

lemma full_included: "full_success c counted_my_vote_included"
proof -
  have "verifyMyVoteWasCounted demo_noble (js_int 0) (computeIncludedBitmapRootHex demo_noble full_bitmap)
      \<lparr>leafChunk = bytesToHex demo_noble (getBitmapLeafChunkBytes full_bitmap 0), auditPath = generated_path demo_noble full_bitmap 0\<rparr> (js_int 1) =
    Inr \<lparr>valid = True, included = True, res_leafIndex = 0, res_bitOffset = 0\<rparr>"
    using verify_generated [OF demo_noble_ok, of 0 full_bitmap] by (simp add: full_bitmap_def MAX_SAFE_INTEGER_def)
  then show ?thesis
    by (simp add: full_success_def selected full_input_simps resolveCountedMyVoteIncluded_def
        resolveBitmapProofAuthority_def included_root_def hasBitmapReceiptPosition_def admitBitmapTreeSize_def
        asAuthenticatedBitmapTreeSize_def MAX_SAFE_INTEGER_def hasAdmittedBitmapProofSource_def orUnavailable_def
        evaluateMyVoteBitmapProof_def projectMyVoteProofResult_def computeIncludedBitmapRootHex_def)
qed

lemmas full_all = full_recorded full_public full_sth full_image full_close full_manifest_ok full_included

lemma full_checks:
  assumes "full_statement c" "i \<in> set CHECK_IDS_WITHOUT_CAST"
  shows "full_success c i"
  using assms(2) full_all [of c] full_sth [OF assms(1)] full_close [OF assms(1)]
  by (simp add: CHECK_IDS_WITHOUT_CAST_def table_defs with_source_def) (elim disjE, simp_all)

lemma res_map_all: "(\<And>x. x \<in> set xs \<Longrightarrow> f x = Inr (g x)) \<Longrightarrow> res_map f xs = Inr (map g xs)"
  by (induction xs) auto

definition full_results :: "check_results" where
  "full_results = map (\<lambda>i. (i, outcome Success)) CHECK_IDS_WITHOUT_CAST"

lemma full_evaluation:
  assumes "full_statement c"
  shows "evaluateVerificationCheckResults demo_noble (full_input c) None None = Inr full_results"
  unfolding evaluateVerificationCheckResults_def evaluateChecks_def Let_def full_results_def
  using full_checks [OF assms]
  by (simp add: full_success_def full_runtime_def runtime_of_def res_map_all)

definition full_local :: local_cast_results where
  "full_local = \<lparr>lc_receipt_present = outcome Success, lc_choice_range = outcome Success, lc_random_format = outcome Success,
     lc_commitment_match = outcome Success\<rparr>"

definition full_projection :: "verification_check list" where
  "full_projection = map (\<lambda>d. \<lparr>id_of = def_id d, status = Success, evidence = def_evidence d, inputs = def_inputs d,
     derivedFrom = def_derivedFrom d, noteKey = None\<rparr>) VERIFICATION_CHECK_DEFINITIONS"

lemma full_overlay:
  "overlayLocalCastChecks (buildVerificationChecksFromResults (full_input c) None full_results) full_local = Some full_projection"
proof -
  have "\<not> usesDevModeEvidence (full_input c)" by (simp add: usesDevModeEvidence_def full_input_simps)
  then have "buildVerificationChecksFromResults (full_input c) None full_results =
      map (\<lambda>d. projectVerificationCheck d full_results Client False) VERIFICATION_CHECK_DEFINITIONS"
    by (simp add: buildVerificationChecksFromResults_def)
  moreover have "overlayLocalCastChecks (map (\<lambda>d. projectVerificationCheck d full_results Client False) VERIFICATION_CHECK_DEFINITIONS) full_local =
      Some full_projection"
    by code_simp
  ultimately show ?thesis by simp
qed

lemma full_summary: "\<exists>r. deriveVerificationSummary (Some full_projection) None = Some r \<and> sum_status r = fully_verified"
proof -
  have "map_option sum_status (deriveVerificationSummary (Some full_projection) None) = Some fully_verified"
    by code_simp
  then show ?thesis by auto
qed

end
