(* ===== verification/Guards.thy ===== *)
theory Guards
  imports CountedChecks BulletinBoard
begin

text \<open>
  The remaining guards of packages/validation/src/unknown-value-guards.ts: typed arrays, own keys and integer
  admission, with the facts the parsers of this development need about them.
\<close>

definition hasOwn :: "jsval \<Rightarrow> string \<Rightarrow> bool" where
  "hasOwn v key = (key \<in> set (js_keys v))"

fun isArray :: "jsval \<Rightarrow> bool" where
  "isArray (JArr xs) = True"
| "isArray _ = False"

definition isNonArrayObject :: "jsval \<Rightarrow> bool" where
  "isNonArrayObject v = (isNonNullObject v \<and> \<not> isArray v)"

text \<open>The expected keys are a set of the source: a list without repetitions.\<close>

definition hasExactOwnKeys :: "jsval \<Rightarrow> string list \<Rightarrow> bool" where
  "hasExactOwnKeys v expected =
     (length (js_keys v) = length expected \<and> list_all (\<lambda>k. k \<in> set expected) (js_keys v))"

definition hasOnlyAllowedKeys :: "jsval \<Rightarrow> string list \<Rightarrow> bool" where
  "hasOnlyAllowedKeys v allowed = list_all (\<lambda>k. k \<in> set allowed) (js_keys v)"

fun as_boolean :: "jsval \<Rightarrow> bool option" where
  "as_boolean (JBool b) = Some b"
| "as_boolean _ = None"

definition isStringArray :: "jsval \<Rightarrow> string list option" where
  "isStringArray v = Option.bind (as_array v) (\<lambda>xs. those (map as_string xs))"

definition isNumberArray :: "jsval \<Rightarrow> jsnum list option" where
  "isNumberArray v = Option.bind (as_array v) (\<lambda>xs. those (map as_number xs))"

definition isBooleanArray :: "jsval \<Rightarrow> bool list option" where
  "isBooleanArray v = Option.bind (as_array v) (\<lambda>xs. those (map as_boolean xs))"

definition getStringArrayProperty :: "jsval \<Rightarrow> string \<Rightarrow> string list option" where
  "getStringArrayProperty v key = (if \<not> isNonNullObject v then None else isStringArray (js_get v key))"

definition getNumberArrayProperty :: "jsval \<Rightarrow> string \<Rightarrow> jsnum list option" where
  "getNumberArrayProperty v key = (if \<not> isNonNullObject v then None else isNumberArray (js_get v key))"

definition getBooleanArrayProperty :: "jsval \<Rightarrow> string \<Rightarrow> bool list option" where
  "getBooleanArrayProperty v key = (if \<not> isNonNullObject v then None else isBooleanArray (js_get v key))"

text \<open>The integer guards are applied to numbers that may be absent.\<close>

definition isNonNegativeInteger :: "jsnum option \<Rightarrow> bool" where
  "isNonNegativeInteger v = (case v of None \<Rightarrow> False | Some n \<Rightarrow> isInteger n \<and> num_le (js_int 0) n)"

definition isNonNegativeSafeInteger :: "jsnum option \<Rightarrow> bool" where
  "isNonNegativeSafeInteger v = (case v of None \<Rightarrow> False | Some n \<Rightarrow> isSafeInteger n \<and> num_le (js_int 0) n)"

definition isPositiveSafeInteger :: "jsnum option \<Rightarrow> bool" where
  "isPositiveSafeInteger v = (isNonNegativeSafeInteger v \<and> (case v of None \<Rightarrow> False | Some n \<Rightarrow> num_lt (js_int 0) n))"

definition requireNonNullObject :: "jsval \<Rightarrow> string \<Rightarrow> string + jsval" where
  "requireNonNullObject v label = (if \<not> isNonNullObject v then Inl (''Expected '' @ label @ '' to be a record'') else Inr v)"

section \<open>Facts\<close>

lemma get_arrays_eq:
  "getStringArrayProperty v key = isStringArray (js_get v key)"
  "getNumberArrayProperty v key = isNumberArray (js_get v key)"
  "getBooleanArrayProperty v key = isBooleanArray (js_get v key)"
  by (cases v; simp add: getStringArrayProperty_def getNumberArrayProperty_def getBooleanArrayProperty_def
      isStringArray_def isNumberArray_def isBooleanArray_def)+

lemmas get_eqs = get_arrays_eq getStringProperty_eq getNumberProperty_eq getArrayProperty_eq

lemma those_map_Some [simp]: "(\<And>x. x \<in> set xs \<Longrightarrow> f x = Some (g x)) \<Longrightarrow> those (map f xs) = Some (map g xs)"
  by (induction xs) auto

lemma typed_arrays [simp]:
  "isStringArray (JArr (map JStr ss)) = Some ss"
  "isBooleanArray (JArr (map JBool bs)) = Some bs"
  "(\<And>n. n \<in> set ns \<Longrightarrow> isFinite n) \<Longrightarrow> isNumberArray (JArr (map JNum ns)) = Some ns"
proof -
  show "isStringArray (JArr (map JStr ss)) = Some ss" by (simp add: isStringArray_def comp_def)
  show "isBooleanArray (JArr (map JBool bs)) = Some bs" by (simp add: isBooleanArray_def comp_def)
  assume "\<And>n. n \<in> set ns \<Longrightarrow> isFinite n"
  then show "isNumberArray (JArr (map JNum ns)) = Some ns"
    using those_map_Some [of ns "as_number \<circ> JNum" "\<lambda>n. n"] by (simp add: isNumberArray_def)
qed

lemma isFinite_js_int [simp]: "isFinite (js_int i)"
  by (simp add: js_int_def)

lemma as_number_js_int [simp]: "as_number (JNum (js_int i)) = Some (js_int i)"
  by (simp add: js_int_def)

lemma as_number_Some: "as_number v = Some n \<longleftrightarrow> v = JNum n \<and> isFinite n"
  by (cases v) auto

lemma as_string_Some: "as_string v = Some s \<longleftrightarrow> v = JStr s"
  by (cases v) auto

lemma isNonNegativeInteger_iff: "isNonNegativeInteger v \<longleftrightarrow> (\<exists>n. v = Some (js_int (int n)))"
proof
  assume "isNonNegativeInteger v"
  then obtain i where "v = Some (js_int i)" "0 \<le> i" by (auto simp: isNonNegativeInteger_def isInteger_iff split: option.splits)
  then show "\<exists>n. v = Some (js_int (int n))" by (intro exI [of _ "nat i"]) simp
qed (auto simp: isNonNegativeInteger_def)

lemma isNonNegativeSafeInteger_iff:
  "isNonNegativeSafeInteger v \<longleftrightarrow> (\<exists>n. v = Some (js_int (int n)) \<and> int n \<le> MAX_SAFE_INTEGER)"
proof
  assume "isNonNegativeSafeInteger v"
  then obtain i where "v = Some (js_int i)" "0 \<le> i" "i \<le> MAX_SAFE_INTEGER"
    by (auto simp: isNonNegativeSafeInteger_def isSafeInteger_iff split: option.splits)
  then show "\<exists>n. v = Some (js_int (int n)) \<and> int n \<le> MAX_SAFE_INTEGER" by (intro exI [of _ "nat i"]) simp
qed (auto simp: isNonNegativeSafeInteger_def)

end
