(* ===== verification/Journal.thy ===== *)
theory Journal
  imports Guards
begin

text \<open>
  The journal of the zkVM as it is admitted (packages/zkvm-contract/src/zkvm/journal-guards.ts) and projected
  before it is stored or published (public-journal.ts).  The admission checks the accounting of the vote
  slots with additions that are guarded against unsafe integers; the main lemma shows that the guards
  never decide: on 32-bit counts the test is the plain integer accounting.
\<close>

section \<open>journal-guards.ts\<close>

definition CURRENT_METHOD_VERSION :: int where
  "CURRENT_METHOD_VERSION = 14"

definition CURRENT_JOURNAL_KEYS :: "string list" where
  "CURRENT_JOURNAL_KEYS =
     [''electionId'', ''electionConfigHash'', ''bulletinRoot'', ''treeSize'', ''totalExpected'', ''sthDigest'',
      ''verifiedTally'', ''totalVotes'', ''validVotes'', ''invalidVotes'', ''seenIndicesCount'', ''missingSlots'',
      ''invalidPresentedSlots'', ''rejectedRecords'', ''seenBitmapRoot'', ''includedBitmapRoot'', ''excludedSlots'',
      ''inputCommitment'', ''methodVersion'', ''imageId'']"

definition LEGACY_JOURNAL_COUNT_KEYS :: "string list" where
  "LEGACY_JOURNAL_COUNT_KEYS = [''missingIndices'', ''invalidIndices'', ''countedIndices'', ''excludedCount'']"

definition CURRENT_JOURNAL_REQUIRED_KEYS :: "string list" where
  "CURRENT_JOURNAL_REQUIRED_KEYS = filter (\<lambda>k. k \<notin> {''imageId''}) CURRENT_JOURNAL_KEYS"

definition isSupportedJournalMethodVersion :: "jsnum option \<Rightarrow> bool" where
  "isSupportedJournalMethodVersion v =
     (case v of None \<Rightarrow> False | Some n \<Rightarrow> isInteger n \<and> num_eq n (js_int CURRENT_METHOD_VERSION))"

definition hasExactCurrentJournalKeys :: "jsval \<Rightarrow> bool" where
  "hasExactCurrentJournalKeys v =
     (list_all (\<lambda>k. k \<in> set CURRENT_JOURNAL_KEYS) (js_keys v) \<and> list_all (hasOwn v) CURRENT_JOURNAL_REQUIRED_KEYS)"

definition hasLegacyJournalCountAliases :: "jsval \<Rightarrow> bool" where
  "hasLegacyJournalCountAliases v = (isNonNullObject v \<and> list_ex (hasOwn v) LEGACY_JOURNAL_COUNT_KEYS)"

record vote_slot_partition =
  vp_verifiedTally :: "jsnum list option"
  vp_treeSize :: "jsnum option"
  vp_seenIndicesCount :: "jsnum option"
  vp_missingSlots :: "jsnum option"
  vp_invalidPresentedSlots :: "jsnum option"
  vp_rejectedRecords :: "jsnum option"
  vp_excludedSlots :: "jsnum option"
  vp_seenBitmapRoot :: "string option"
  vp_includedBitmapRoot :: "string option"

record journal_semantics = vote_slot_partition +
  vp_totalExpected :: "jsnum option"
  vp_totalVotes :: "jsnum option"
  vp_validVotes :: "jsnum option"
  vp_invalidVotes :: "jsnum option"

definition addSafeIntegers :: "jsnum \<Rightarrow> jsnum \<Rightarrow> jsnum option" where
  "addSafeIntegers left right = (let s = num_add left right in if isSafeInteger s then Some s else None)"

definition isCurrentJournalUint32 :: "jsnum option \<Rightarrow> bool" where
  "isCurrentJournalUint32 v =
     (case v of None \<Rightarrow> False | Some n \<Rightarrow> isSafeInteger n \<and> num_le (js_int 0) n \<and> num_le n (js_int UINT32_MAX))"

definition isCurrentJournalPositiveUint32 :: "jsnum option \<Rightarrow> bool" where
  "isCurrentJournalPositiveUint32 v = (isCurrentJournalUint32 v \<and> num_lt (js_int 0) (the v))"

text \<open>\<^verbatim>\<open>===\<close> between a number or \<^verbatim>\<open>undefined\<close> and a number.\<close>

fun same_number :: "jsnum option \<Rightarrow> jsnum option \<Rightarrow> bool" where
  "same_number (Some a) (Some b) = num_eq a b"
| "same_number None None = True"
| "same_number _ _ = False"

definition tally_total :: "jsnum list \<Rightarrow> jsnum" where
  "tally_total tally = foldl (\<lambda>s c. case addSafeIntegers s c of Some t \<Rightarrow> t | None \<Rightarrow> NaN) (js_int 0) tally"

definition hasCoherentZkVMVoteSlotPartition :: "'a vote_slot_partition_scheme \<Rightarrow> bool" where
  "hasCoherentZkVMVoteSlotPartition p =
     (if vp_verifiedTally p = None \<or> length (the (vp_verifiedTally p)) \<noteq> length VOTE_CHOICES \<or>
         \<not> list_all (\<lambda>n. isCurrentJournalUint32 (Some n)) (the (vp_verifiedTally p)) \<or>
         \<not> isCurrentJournalPositiveUint32 (vp_treeSize p) \<or>
         \<not> isCurrentJournalUint32 (vp_seenIndicesCount p) \<or>
         \<not> isCurrentJournalUint32 (vp_missingSlots p) \<or>
         \<not> isCurrentJournalUint32 (vp_invalidPresentedSlots p) \<or>
         \<not> isCurrentJournalUint32 (vp_rejectedRecords p) \<or>
         \<not> isCurrentJournalUint32 (vp_excludedSlots p) \<or>
         \<not> truthy (vp_seenBitmapRoot p) \<or> \<not> truthy (vp_includedBitmapRoot p)
      then False
      else
        let tallyTotal = tally_total (the (vp_verifiedTally p));
            invalid = the (vp_invalidPresentedSlots p); missing = the (vp_missingSlots p); seenCount = the (vp_seenIndicesCount p)
        in isSafeInteger tallyTotal \<and>
           same_number (addSafeIntegers tallyTotal invalid) (vp_seenIndicesCount p) \<and>
           same_number (addSafeIntegers seenCount missing) (vp_treeSize p) \<and>
           num_le invalid (the (vp_rejectedRecords p)) \<and>
           same_number (addSafeIntegers missing invalid) (vp_excludedSlots p) \<and>
           (\<not> num_eq invalid (js_int 0) \<or>
            normalizeHexString (the (vp_seenBitmapRoot p)) = normalizeHexString (the (vp_includedBitmapRoot p))))"

definition hasCoherentCurrentZkVMJournalSemantics :: "journal_semantics \<Rightarrow> bool" where
  "hasCoherentCurrentZkVMJournalSemantics p =
     (if \<not> hasCoherentZkVMVoteSlotPartition p \<or>
         \<not> isCurrentJournalUint32 (vp_totalExpected p) \<or> \<not> isCurrentJournalUint32 (vp_totalVotes p) \<or>
         \<not> isCurrentJournalUint32 (vp_validVotes p) \<or> \<not> isCurrentJournalUint32 (vp_invalidVotes p)
      then False
      else
        let tallyTotal = map_option tally_total (vp_verifiedTally p)
        in same_number tallyTotal (vp_validVotes p) \<and>
           same_number (addSafeIntegers (the (vp_validVotes p)) (the (vp_invalidVotes p))) (vp_totalVotes p) \<and>
           same_number (vp_rejectedRecords p) (vp_invalidVotes p))"

definition isCurrentJournalRecord :: "jsval \<Rightarrow> bool" where
  "isCurrentJournalRecord v = (isNonNullObject v \<and> hasExactCurrentJournalKeys v \<and> \<not> hasLegacyJournalCountAliases v)"

definition isJournalHash :: "string option \<Rightarrow> bool" where
  "isJournalHash v = (truthy v \<and> isValidHexString (the v) (Some 32))"

text \<open>\<^verbatim>\<open>UUID_PATTERN\<close>: versions 1 to 5, in either case.\<close>

definition UUID_PATTERN :: "(char \<Rightarrow> bool) list" where
  "UUID_PATTERN =
     replicate 8 is_hex_char @ [is_dash] @ replicate 4 is_hex_char @ [is_dash] @
     [\<lambda>c. c \<in> set ''12345''] @ replicate 3 is_hex_char @ [is_dash] @
     [\<lambda>c. c \<in> set ''89abAB''] @ replicate 3 is_hex_char @ [is_dash] @ replicate 12 is_hex_char"

definition journal_semantics_of :: "jsval \<Rightarrow> journal_semantics" where
  "journal_semantics_of v =
     \<lparr>vp_verifiedTally = getNumberArrayProperty v ''verifiedTally'', vp_treeSize = getNumberProperty v ''treeSize'',
      vp_seenIndicesCount = getNumberProperty v ''seenIndicesCount'', vp_missingSlots = getNumberProperty v ''missingSlots'',
      vp_invalidPresentedSlots = getNumberProperty v ''invalidPresentedSlots'',
      vp_rejectedRecords = getNumberProperty v ''rejectedRecords'', vp_excludedSlots = getNumberProperty v ''excludedSlots'',
      vp_seenBitmapRoot = getStringProperty v ''seenBitmapRoot'', vp_includedBitmapRoot = getStringProperty v ''includedBitmapRoot'',
      vp_totalExpected = getNumberProperty v ''totalExpected'', vp_totalVotes = getNumberProperty v ''totalVotes'',
      vp_validVotes = getNumberProperty v ''validVotes'', vp_invalidVotes = getNumberProperty v ''invalidVotes''\<rparr>"

definition isSupportedZkVMJournal :: "jsval \<Rightarrow> bool" where
  "isSupportedZkVMJournal v =
     (if \<not> isCurrentJournalRecord v then False
      else
        let electionId = getStringProperty v ''electionId''; imageId = getStringProperty v ''imageId'' in
        if \<not> truthy electionId \<or> \<not> matches UUID_PATTERN (the electionId) then False
        else if \<not> list_all isJournalHash (map (getStringProperty v)
               [''electionConfigHash'', ''bulletinRoot'', ''sthDigest'', ''includedBitmapRoot'', ''inputCommitment'', ''seenBitmapRoot''])
        then False
        else if imageId \<noteq> None \<and> \<not> isValidHexString (the imageId) (Some 32) then False
        else if \<not> hasCoherentCurrentZkVMJournalSemantics (journal_semantics_of v) then False
        else isSupportedJournalMethodVersion (getNumberProperty v ''methodVersion''))"

section \<open>public-journal.ts\<close>

record current_journal = zkvm_journal +
  cj_invalidVotes :: jsnum
  cj_seenIndicesCount :: jsnum
  cj_rejectedRecords :: jsnum
  cj_methodVersion :: jsnum
  cj_imageId :: "string option"

datatype journal_error = LegacyCountAliases | MissingSeenBitmapRoot

text \<open>The journal behind a supported value: its typed properties.\<close>

definition the_string :: "jsval \<Rightarrow> string \<Rightarrow> string" where
  "the_string v k = (case getStringProperty v k of Some s \<Rightarrow> s | None \<Rightarrow> [])"

definition the_number :: "jsval \<Rightarrow> string \<Rightarrow> jsnum" where
  "the_number v k = (case getNumberProperty v k of Some n \<Rightarrow> n | None \<Rightarrow> NaN)"

definition toPublicZkvmJournal :: "jsval \<Rightarrow> journal_error + current_journal" where
  "toPublicZkvmJournal v =
     (if hasLegacyJournalCountAliases v then Inl LegacyCountAliases
      else if \<not> same_number (getNumberProperty v ''methodVersion'') (Some (js_int CURRENT_METHOD_VERSION)) \<or>
              getStringProperty v ''seenBitmapRoot'' = None
      then Inl MissingSeenBitmapRoot
      else Inr
        \<lparr>j_electionId = the_string v ''electionId'', j_electionConfigHash = the_string v ''electionConfigHash'',
         j_bulletinRoot = the_string v ''bulletinRoot'', j_treeSize = the_number v ''treeSize'',
         j_totalExpected = the_number v ''totalExpected'', j_sthDigest = the_string v ''sthDigest'',
         j_verifiedTally = map_option (take 5) (getNumberArrayProperty v ''verifiedTally''),
         j_totalVotes = Some (the_number v ''totalVotes''), j_validVotes = Some (the_number v ''validVotes''),
         j_missingSlots = Some (the_number v ''missingSlots''),
         j_invalidPresentedSlots = Some (the_number v ''invalidPresentedSlots''),
         j_excludedSlots = Some (the_number v ''excludedSlots''),
         j_seenBitmapRoot = getStringProperty v ''seenBitmapRoot'', j_includedBitmapRoot = the_string v ''includedBitmapRoot'',
         j_inputCommitment = the_string v ''inputCommitment'',
         cj_invalidVotes = the_number v ''invalidVotes'', cj_seenIndicesCount = the_number v ''seenIndicesCount'',
         cj_rejectedRecords = the_number v ''rejectedRecords'', cj_methodVersion = js_int CURRENT_METHOD_VERSION,
         cj_imageId = getStringProperty v ''imageId''\<rparr>)"

section \<open>The accounting\<close>

lemma uint32_iff: "isCurrentJournalUint32 v \<longleftrightarrow> (\<exists>n. v = Some (js_int (int n)) \<and> n < 2 ^ 32)"
proof
  assume "isCurrentJournalUint32 v"
  then obtain i where "v = Some (js_int i)" "0 \<le> i" "i < 2 ^ 32"
    by (auto simp: isCurrentJournalUint32_def isSafeInteger_iff UINT32_MAX_def split: option.splits)
  then show "\<exists>n. v = Some (js_int (int n)) \<and> n < 2 ^ 32" by (intro exI [of _ "nat i"]) auto
qed (auto simp: isCurrentJournalUint32_def UINT32_MAX_def MAX_SAFE_INTEGER_def)

lemma add_safe:
  "a < 2 ^ 50 \<Longrightarrow> b < 2 ^ 50 \<Longrightarrow> addSafeIntegers (js_int (int a)) (js_int (int b)) = Some (js_int (int (a + b)))"
  by (simp add: addSafeIntegers_def MAX_SAFE_INTEGER_def)

text \<open>The guarded sum of 32-bit counts is their sum.\<close>

lemma tally_fold:
  assumes "\<forall>c \<in> set cs. c < 2 ^ 32" "length cs \<le> 2 ^ 16" "a + length cs * 2 ^ 32 < 2 ^ 50"
  shows "foldl (\<lambda>s c. case addSafeIntegers s c of Some t \<Rightarrow> t | None \<Rightarrow> NaN) (js_int (int a)) (map (\<lambda>c. js_int (int c)) cs) =
    js_int (int (a + sum_list cs))"
  using assms
proof (induction cs arbitrary: a)
  case (Cons c cs)
  have "addSafeIntegers (js_int (int a)) (js_int (int c)) = Some (js_int (int (a + c)))"
    using Cons.prems by (intro add_safe) auto
  moreover have "a + c + length cs * 2 ^ 32 < 2 ^ 50" using Cons.prems by auto
  ultimately show ?case using Cons.IH [of "a + c"] Cons.prems by (simp add: add.assoc)
qed simp

lemma tally_total_eq:
  assumes "\<forall>c \<in> set cs. c < 2 ^ 32" "length cs = 5"
  shows "tally_total (map (\<lambda>c. js_int (int c)) cs) = js_int (int (sum_list cs))" "sum_list cs < 2 ^ 50"
proof -
  show "tally_total (map (\<lambda>c. js_int (int c)) cs) = js_int (int (sum_list cs))"
    using tally_fold [of cs 0] assms by (simp add: tally_total_def)
  have "sum_list cs \<le> length cs * 2 ^ 32" using assms(1)
  proof (induction cs)
    case (Cons c cs)
    then have "c \<le> 2 ^ 32" "sum_list cs \<le> length cs * 2 ^ 32" by auto
    then show ?case by simp
  qed simp
  then show "sum_list cs < 2 ^ 50" using assms(2) by simp
qed

text \<open>The accounting of the slots of an election, on natural numbers.\<close>

record slot_counts =
  sc_tally :: "nat list"
  sc_treeSize :: nat
  sc_seen :: nat
  sc_missing :: nat
  sc_invalidPresented :: nat
  sc_rejected :: nat
  sc_excluded :: nat

definition slots_of :: "slot_counts \<Rightarrow> string \<Rightarrow> string \<Rightarrow> vote_slot_partition" where
  "slots_of c seenRoot includedRoot =
     \<lparr>vp_verifiedTally = Some (map (\<lambda>n. js_int (int n)) (sc_tally c)), vp_treeSize = Some (js_int (int (sc_treeSize c))),
      vp_seenIndicesCount = Some (js_int (int (sc_seen c))), vp_missingSlots = Some (js_int (int (sc_missing c))),
      vp_invalidPresentedSlots = Some (js_int (int (sc_invalidPresented c))),
      vp_rejectedRecords = Some (js_int (int (sc_rejected c))), vp_excludedSlots = Some (js_int (int (sc_excluded c))),
      vp_seenBitmapRoot = Some seenRoot, vp_includedBitmapRoot = Some includedRoot\<rparr>"

definition bounded_counts :: "slot_counts \<Rightarrow> bool" where
  "bounded_counts c \<longleftrightarrow>
     length (sc_tally c) = 5 \<and>
     list_all (\<lambda>n. n < 2 ^ 32) (sc_tally c @ [sc_treeSize c, sc_seen c, sc_missing c, sc_invalidPresented c, sc_rejected c, sc_excluded c])"

definition balanced_slots :: "slot_counts \<Rightarrow> bool" where
  "balanced_slots c \<longleftrightarrow>
     0 < sc_treeSize c \<and> sum_list (sc_tally c) + sc_invalidPresented c = sc_seen c \<and> sc_seen c + sc_missing c = sc_treeSize c \<and>
     sc_missing c + sc_invalidPresented c = sc_excluded c \<and> sc_invalidPresented c \<le> sc_rejected c"

definition bitmap_roots_ok :: "slot_counts \<Rightarrow> string \<Rightarrow> string \<Rightarrow> bool" where
  "bitmap_roots_ok c s i \<longleftrightarrow>
     s \<noteq> [] \<and> i \<noteq> [] \<and> (sc_invalidPresented c = 0 \<longrightarrow> normalizeHexString s = normalizeHexString i)"

lemma uint32_int [simp]: "isCurrentJournalUint32 (Some (js_int (int n))) \<longleftrightarrow> n < 2 ^ 32"
  by (auto simp: uint32_iff)

lemma partition_unfold:
  "hasCoherentZkVMVoteSlotPartition (slots_of c s i) \<longleftrightarrow>
     bounded_counts c \<and> balanced_slots c \<and> s \<noteq> [] \<and> i \<noteq> [] \<and>
     (sc_invalidPresented c = 0 \<longrightarrow> normalizeHexString s = normalizeHexString i)"
proof (cases "bounded_counts c")
  case True
  then have t: "tally_total (map (\<lambda>c. js_int (int c)) (sc_tally c)) = js_int (int (sum_list (sc_tally c)))" "sum_list (sc_tally c) < 2 ^ 50"
    using tally_total_eq [of "sc_tally c"] by (auto simp: bounded_counts_def list_all_iff)
  then show ?thesis using True
    by (simp add: hasCoherentZkVMVoteSlotPartition_def slots_of_def isCurrentJournalPositiveUint32_def bounded_counts_def
        balanced_slots_def list_all_iff VOTE_CHOICES_def Let_def add_safe MAX_SAFE_INTEGER_def t) linarith
next
  case False
  then show ?thesis
    by (auto simp: hasCoherentZkVMVoteSlotPartition_def slots_of_def isCurrentJournalPositiveUint32_def bounded_counts_def
        list_all_iff VOTE_CHOICES_def)
qed

text \<open>C22: the accounting of vote slots is exact.  On any counts, the guarded test of the journal accepts
  exactly when every count is a 32-bit number and the plain equations hold: the counted, the rejected and
  the missing slots add up to the tree size, the exclusions are the missing and the rejected slots, and
  where no presented slot was rejected both bitmaps have one root.  The guards against unsafe sums never
  reject a balanced journal and never let an unbalanced one pass.\<close>

theorem slot_accounting_exact:
  "hasCoherentZkVMVoteSlotPartition (slots_of c s i) =
     (bounded_counts c \<and> balanced_slots c \<and> bitmap_roots_ok c s i)"
  by (simp add: partition_unfold bitmap_roots_ok_def)

section \<open>Admitted journals\<close>

lemma partition_counts:
  assumes "hasCoherentZkVMVoteSlotPartition p"
  obtains c s i where "vote_slot_partition.truncate p = slots_of c s i"
proof -
  have u: "isCurrentJournalUint32 (vp_treeSize p)" "isCurrentJournalUint32 (vp_seenIndicesCount p)"
    "isCurrentJournalUint32 (vp_missingSlots p)" "isCurrentJournalUint32 (vp_invalidPresentedSlots p)"
    "isCurrentJournalUint32 (vp_rejectedRecords p)" "isCurrentJournalUint32 (vp_excludedSlots p)"
    "truthy (vp_seenBitmapRoot p)" "truthy (vp_includedBitmapRoot p)"
    and ta: "vp_verifiedTally p \<noteq> None" "list_all (\<lambda>n. isCurrentJournalUint32 (Some n)) (the (vp_verifiedTally p))"
    using assms by (auto simp: hasCoherentZkVMVoteSlotPartition_def isCurrentJournalPositiveUint32_def split: if_splits)
  obtain ts sn ms ip rj ex sr ir where
    f: "vp_treeSize p = Some (js_int (int ts))" "vp_seenIndicesCount p = Some (js_int (int sn))"
      "vp_missingSlots p = Some (js_int (int ms))" "vp_invalidPresentedSlots p = Some (js_int (int ip))"
      "vp_rejectedRecords p = Some (js_int (int rj))" "vp_excludedSlots p = Some (js_int (int ex))"
      "vp_seenBitmapRoot p = Some sr" "vp_includedBitmapRoot p = Some ir"
    using u by (auto simp: uint32_iff truthy_iff)
  obtain tl where tl: "vp_verifiedTally p = Some tl" using ta(1) by auto
  have "\<forall>n \<in> set tl. \<exists>k. n = js_int (int k)" using ta(2) tl by (auto simp: list_all_iff uint32_iff)
  then obtain ks where ks: "tl = map (\<lambda>n. js_int (int n)) ks"
    by (metis (no_types, lifting) ex_map_conv)
  show thesis
    by (rule that [of "\<lparr>sc_tally = ks, sc_treeSize = ts, sc_seen = sn, sc_missing = ms, sc_invalidPresented = ip,
        sc_rejected = rj, sc_excluded = ex\<rparr>" sr ir])
      (simp add: vote_slot_partition.truncate_def slots_of_def f tl ks)
qed

lemma coherent_truncate:
  "hasCoherentZkVMVoteSlotPartition (vote_slot_partition.truncate p) = hasCoherentZkVMVoteSlotPartition p"
  by (simp add: hasCoherentZkVMVoteSlotPartition_def vote_slot_partition.truncate_def)

text \<open>A supported journal is projected without an exception, and its projection is typed.\<close>

lemma supported_journal:
  assumes "isSupportedZkVMJournal v"
  obtains c s i tv where "toPublicZkvmJournal v = Inr
      \<lparr>j_electionId = the_string v ''electionId'', j_electionConfigHash = the_string v ''electionConfigHash'',
       j_bulletinRoot = the_string v ''bulletinRoot'', j_treeSize = js_int (int (sc_treeSize c)),
       j_totalExpected = the_number v ''totalExpected'', j_sthDigest = the_string v ''sthDigest'',
       j_verifiedTally = Some (map (\<lambda>n. js_int (int n)) (sc_tally c)),
       j_totalVotes = Some (js_int (int tv)), j_validVotes = Some (js_int (int (sum_list (sc_tally c)))),
       j_missingSlots = Some (js_int (int (sc_missing c))),
       j_invalidPresentedSlots = Some (js_int (int (sc_invalidPresented c))),
       j_excludedSlots = Some (js_int (int (sc_excluded c))),
       j_seenBitmapRoot = Some s, j_includedBitmapRoot = i, j_inputCommitment = the_string v ''inputCommitment'',
       cj_invalidVotes = js_int (int (sc_rejected c)), cj_seenIndicesCount = js_int (int (sc_seen c)),
       cj_rejectedRecords = js_int (int (sc_rejected c)), cj_methodVersion = js_int CURRENT_METHOD_VERSION,
       cj_imageId = getStringProperty v ''imageId''\<rparr>"
    "bounded_counts c" "balanced_slots c" "tv = sum_list (sc_tally c) + sc_rejected c" "tv < 2 ^ 32"
proof -
  let ?p = "journal_semantics_of v"
  have sem: "hasCoherentCurrentZkVMJournalSemantics ?p" and leg: "\<not> hasLegacyJournalCountAliases v"
    and mv: "isSupportedJournalMethodVersion (getNumberProperty v ''methodVersion'')"
    using assms by (auto simp: isSupportedZkVMJournal_def isCurrentJournalRecord_def Let_def split: if_splits)
  have part: "hasCoherentZkVMVoteSlotPartition ?p"
    and eqs: "same_number (map_option tally_total (vp_verifiedTally ?p)) (vp_validVotes ?p)"
      "same_number (addSafeIntegers (the (vp_validVotes ?p)) (the (vp_invalidVotes ?p))) (vp_totalVotes ?p)"
      "same_number (vp_rejectedRecords ?p) (vp_invalidVotes ?p)"
    and u: "isCurrentJournalUint32 (vp_totalVotes ?p)" "isCurrentJournalUint32 (vp_validVotes ?p)" "isCurrentJournalUint32 (vp_invalidVotes ?p)"
    using sem by (auto simp: hasCoherentCurrentZkVMJournalSemantics_def Let_def split: if_splits)
  obtain c s i where tr: "vote_slot_partition.truncate ?p = slots_of c s i" using partition_counts [OF part] .
  then have "hasCoherentZkVMVoteSlotPartition (slots_of c s i)" using part coherent_truncate by metis
  then have c: "bounded_counts c" "balanced_slots c" by (simp_all add: partition_unfold)
  have f: "getNumberArrayProperty v ''verifiedTally'' = Some (map (\<lambda>n. js_int (int n)) (sc_tally c))"
    "getNumberProperty v ''treeSize'' = Some (js_int (int (sc_treeSize c)))"
    "getNumberProperty v ''seenIndicesCount'' = Some (js_int (int (sc_seen c)))"
    "getNumberProperty v ''missingSlots'' = Some (js_int (int (sc_missing c)))"
    "getNumberProperty v ''invalidPresentedSlots'' = Some (js_int (int (sc_invalidPresented c)))"
    "getNumberProperty v ''rejectedRecords'' = Some (js_int (int (sc_rejected c)))"
    "getNumberProperty v ''excludedSlots'' = Some (js_int (int (sc_excluded c)))"
    "getStringProperty v ''seenBitmapRoot'' = Some s" "getStringProperty v ''includedBitmapRoot'' = Some i"
    using tr by (simp_all add: vote_slot_partition.truncate_def slots_of_def journal_semantics_of_def)
  obtain tv vv iv where n: "getNumberProperty v ''totalVotes'' = Some (js_int (int tv))" "tv < 2 ^ 32"
    "getNumberProperty v ''validVotes'' = Some (js_int (int vv))" "vv < 2 ^ 32" "getNumberProperty v ''invalidVotes'' = Some (js_int (int iv))" "iv < 2 ^ 32"
    using u by (auto simp: uint32_iff journal_semantics_of_def)
  have len: "length (sc_tally c) = 5" "\<forall>k \<in> set (sc_tally c). k < 2 ^ 32" using c(1) by (auto simp: bounded_counts_def list_all_iff)
  have vals: "vv = sum_list (sc_tally c)" "iv = sc_rejected c" "tv = vv + iv"
    using eqs n f len tally_total_eq(1) [OF len(2,1)] by (simp_all add: journal_semantics_of_def add_safe)
  have mvs: "same_number (getNumberProperty v ''methodVersion'') (Some (js_int CURRENT_METHOD_VERSION))"
    using mv by (auto simp: isSupportedJournalMethodVersion_def split: option.splits)
  show thesis
    by (rule that [of c tv s i])
      (use leg mvs f n vals c len in \<open>simp_all add: toPublicZkvmJournal_def the_number_def the_string_def\<close>)
qed

text \<open>What the size check says of a journal when the evidence has no numbers of its own.\<close>

lemma size_check_success:
  assumes "res_status (resolveCountedExpectedVsTreeSize (Some j) None None None) = Success"
  shows "j_totalExpected j = j_treeSize j"
  using assms by (auto simp: resolveCountedExpectedVsTreeSize_def isInteger_iff split: if_splits)

text \<open>C23: a complete election counts as many votes as were expected.  If the journal was admitted, and the completeness
  check and the check of the expected against the tree size succeed on its projection, then no slot is missing and none
  was presented with an invalid vote, every slot was seen, and the counts of the five choices add up to the tree size,
  to the expected number of votes and to the number of valid votes.  The votes processed beyond these are exactly the
  rejected records.\<close>

theorem complete_journal_counts_every_slot:
  assumes "isSupportedZkVMJournal v" "toPublicZkvmJournal v = Inr j"
    "res_status (resolveCountedMissingIndicesZero (Some (zkvm_journal.truncate j)) m i x g) = Success"
    "res_status (resolveCountedExpectedVsTreeSize (Some (zkvm_journal.truncate j)) None None None) = Success"
  shows "\<exists>tally rejected. j_verifiedTally j = Some (map (\<lambda>n. js_int (int n)) tally) \<and> length tally = length VOTE_CHOICES \<and>
    j_treeSize j = js_int (int (sum_list tally)) \<and> j_totalExpected j = js_int (int (sum_list tally)) \<and>
    j_validVotes j = Some (js_int (int (sum_list tally))) \<and> cj_seenIndicesCount j = js_int (int (sum_list tally)) \<and>
    j_missingSlots j = Some (js_int 0) \<and> j_invalidPresentedSlots j = Some (js_int 0) \<and>
    cj_rejectedRecords j = js_int (int rejected) \<and> j_totalVotes j = Some (js_int (int (sum_list tally + rejected)))"
proof -
  have ex: "j_excludedSlots j = Some (js_int 0)"
    using conjunct1 [OF completeness_check_iff, of "zkvm_journal.truncate j" m i x g] assms(3)
    by (simp add: zkvm_journal.truncate_def)
  have te: "j_totalExpected j = j_treeSize j" using size_check_success [OF assms(4)] by (simp add: zkvm_journal.truncate_def)
  from supported_journal [OF assms(1)] obtain c tv where
    j: "j_verifiedTally j = Some (map (\<lambda>n. js_int (int n)) (sc_tally c))" "j_treeSize j = js_int (int (sc_treeSize c))"
      "j_validVotes j = Some (js_int (int (sum_list (sc_tally c))))" "j_excludedSlots j = Some (js_int (int (sc_excluded c)))"
      "cj_seenIndicesCount j = js_int (int (sc_seen c))" "j_missingSlots j = Some (js_int (int (sc_missing c)))"
      "j_invalidPresentedSlots j = Some (js_int (int (sc_invalidPresented c)))" "cj_rejectedRecords j = js_int (int (sc_rejected c))"
      "j_totalVotes j = Some (js_int (int tv))"
    and b: "bounded_counts c" "balanced_slots c" "tv = sum_list (sc_tally c) + sc_rejected c"
    by (rule supported_journal [OF assms(1)]) (use assms(2) in auto)
  have "sc_excluded c = 0" using ex j(4) by simp
  then have "sc_missing c = 0" "sc_invalidPresented c = 0" "sc_seen c = sum_list (sc_tally c)" "sc_treeSize c = sum_list (sc_tally c)"
    using b(2) by (simp_all add: balanced_slots_def)
  then show ?thesis
    using j te b(1,3) by (intro exI [of _ "sc_tally c"] exI [of _ "sc_rejected c"]) (simp add: bounded_counts_def VOTE_CHOICES_def)
qed

definition sample_journal :: jsval where
  "sample_journal = JObj
     ([(k, JStr leaf_a). k \<leftarrow> [''electionConfigHash'', ''bulletinRoot'', ''sthDigest'', ''seenBitmapRoot'', ''includedBitmapRoot'', ''inputCommitment'']] @
      [(''electionId'', JStr ''00000000-0000-4000-8000-000000000000''), (''treeSize'', JNum (js_int 3)), (''totalExpected'', JNum (js_int 3)),
       (''verifiedTally'', JArr (map (JNum \<circ> js_int) [2, 0, 1, 0, 0])), (''totalVotes'', JNum (js_int 4)), (''validVotes'', JNum (js_int 3)),
       (''invalidVotes'', JNum (js_int 1)), (''seenIndicesCount'', JNum (js_int 3)), (''missingSlots'', JNum (js_int 0)),
       (''invalidPresentedSlots'', JNum (js_int 0)), (''rejectedRecords'', JNum (js_int 1)), (''excludedSlots'', JNum (js_int 0)),
       (''methodVersion'', JNum (js_int 14))])"

lemma sample_journal_keys:
  "isCurrentJournalRecord sample_journal" "matches UUID_PATTERN ''00000000-0000-4000-8000-000000000000''"
  by code_simp+

lemma sample_semantics: "hasCoherentCurrentZkVMJournalSemantics (journal_semantics_of sample_journal)"
proof -
  let ?c = "\<lparr>sc_tally = [2, 0, 1, 0, 0], sc_treeSize = 3, sc_seen = 3, sc_missing = 0,
        sc_invalidPresented = 0, sc_rejected = 1, sc_excluded = 0\<rparr>"
  have tr: "vote_slot_partition.truncate (journal_semantics_of sample_journal) = slots_of ?c leaf_a leaf_a"
    by (simp add: journal_semantics_of_def sample_journal_def get_eqs isNumberArray_def slots_of_def vote_slot_partition.truncate_def)
  have "hasCoherentZkVMVoteSlotPartition (slots_of ?c leaf_a leaf_a)"
    by (simp add: partition_unfold bounded_counts_def balanced_slots_def leaf_a_def)
  then have "hasCoherentZkVMVoteSlotPartition (journal_semantics_of sample_journal)"
    using coherent_truncate [of "journal_semantics_of sample_journal"] tr by simp
  then show ?thesis
    using tally_total_eq(1) [of "[2, 0, 1, 0, 0]"]
    by (simp add: hasCoherentCurrentZkVMJournalSemantics_def journal_semantics_of_def sample_journal_def get_eqs isNumberArray_def
        isCurrentJournalUint32_def UINT32_MAX_def MAX_SAFE_INTEGER_def addSafeIntegers_def)
qed

lemma sample_fields:
  "getStringProperty sample_journal ''electionId'' = Some ''00000000-0000-4000-8000-000000000000''"
  "getStringProperty sample_journal ''imageId'' = None" "getNumberProperty sample_journal ''methodVersion'' = Some (js_int 14)"
  "getStringProperty sample_journal ''electionConfigHash'' = Some leaf_a" "getStringProperty sample_journal ''bulletinRoot'' = Some leaf_a"
  "getStringProperty sample_journal ''sthDigest'' = Some leaf_a" "getStringProperty sample_journal ''includedBitmapRoot'' = Some leaf_a"
  "getStringProperty sample_journal ''inputCommitment'' = Some leaf_a" "getStringProperty sample_journal ''seenBitmapRoot'' = Some leaf_a"
  "getNumberProperty sample_journal ''excludedSlots'' = Some (js_int 0)" "getNumberProperty sample_journal ''missingSlots'' = Some (js_int 0)"
  "getNumberProperty sample_journal ''invalidPresentedSlots'' = Some (js_int 0)" "getNumberProperty sample_journal ''validVotes'' = Some (js_int 3)"
  "getNumberProperty sample_journal ''treeSize'' = Some (js_int 3)" "getNumberProperty sample_journal ''totalExpected'' = Some (js_int 3)"
  by (simp_all add: sample_journal_def get_eqs)

lemma sample_journal_ok:
  "isSupportedZkVMJournal sample_journal"
  "res_status (resolveCountedMissingIndicesZero (Some (zkvm_journal.truncate (projr (toPublicZkvmJournal sample_journal)))) None None None None) = Success"
  "res_status (resolveCountedExpectedVsTreeSize (Some (zkvm_journal.truncate (projr (toPublicZkvmJournal sample_journal)))) None None None) = Success"
proof -
  show "isSupportedZkVMJournal sample_journal"
    unfolding isSupportedZkVMJournal_def Let_def using sample_journal_keys sample_semantics sample_fields
    by (simp add: isJournalHash_def isSupportedJournalMethodVersion_def CURRENT_METHOD_VERSION_def) (simp add: leaf_a_def)
  show "res_status (resolveCountedMissingIndicesZero (Some (zkvm_journal.truncate (projr (toPublicZkvmJournal sample_journal)))) None None None None) = Success"
    using sample_journal_keys(1) sample_fields
    by (simp add: completeness_check_iff malformed_counts_def isValidCount_def zkvm_journal.truncate_def toPublicZkvmJournal_def
        the_number_def isCurrentJournalRecord_def CURRENT_METHOD_VERSION_def)
  show "res_status (resolveCountedExpectedVsTreeSize (Some (zkvm_journal.truncate (projr (toPublicZkvmJournal sample_journal)))) None None None) = Success"
    using sample_journal_keys(1) sample_fields
    by (simp add: resolveCountedExpectedVsTreeSize_def zkvm_journal.truncate_def toPublicZkvmJournal_def
        the_number_def isCurrentJournalRecord_def CURRENT_METHOD_VERSION_def)
qed

theorem complete_journal_counts_every_slot_witness:
  "\<exists>tally rejected. j_verifiedTally (projr (toPublicZkvmJournal sample_journal)) = Some (map (\<lambda>n. js_int (int n)) tally) \<and>
    j_totalExpected (projr (toPublicZkvmJournal sample_journal)) = js_int (int (sum_list tally)) \<and>
    cj_seenIndicesCount (projr (toPublicZkvmJournal sample_journal)) = js_int (int (sum_list tally)) \<and>
    j_totalVotes (projr (toPublicZkvmJournal sample_journal)) = Some (js_int (int (sum_list tally + rejected)))"
proof -
  have "toPublicZkvmJournal sample_journal = Inr (projr (toPublicZkvmJournal sample_journal))"
    by (rule supported_journal [OF sample_journal_ok(1)]) simp
  from complete_journal_counts_every_slot [OF sample_journal_ok(1) this sample_journal_ok(2,3)] show ?thesis by blast
qed

end
