(* ===== verification/PublicInput.thy ===== *)
theory PublicInput
  imports Journal
begin

text \<open>
  The public input of the proof (packages/verification/src/verification/public-input-contract.ts): parsing an
  untrusted artefact into observed fields, the diagnostics and, when there are none, the authority the
  verification engine uses; and the stored form of that authority.

  The source mutates \<^verbatim>\<open>format\<close>, \<^verbatim>\<open>observed\<close> and \<^verbatim>\<open>errors\<close> through a sequence of observers; the model threads them
  as a state.
\<close>

section \<open>Data\<close>

definition PUBLIC_INPUT_SCHEMA :: string where
  "PUBLIC_INPUT_SCHEMA = ''stark-ballot.public_input''"

definition PUBLIC_INPUT_VERSION :: string where
  "PUBLIC_INPUT_VERSION = ''1.1''"

datatype artifact_source = Bundle | Generated

record artifact_provenance =
  pv_source :: artifact_source
  pv_finalizationId :: "string option"
  pv_bundleKey :: "string option"

text \<open>\<^verbatim>\<open>Partial<PublicInputArtifactProvenance>\<close>.\<close>

record partial_provenance =
  pp_source :: "artifact_source option"
  pp_finalizationId :: "string option"
  pp_bundleKey :: "string option"

record artifact_format =
  af_schema :: "string option"
  af_version :: "string option"

record observed_fields =
  ob_electionId :: "string option"
  ob_electionConfigHash :: "string option"
  ob_votesCount :: jsnum
  ob_treeSize :: jsnum
  ob_totalExpected :: "jsnum option"
  ob_bulletinRoot :: string
  ob_logId :: "string option"
  ob_timestamp :: "jsnum option"
  ob_methodVersion :: "jsnum option"
  ob_uniqueIndices :: bool
  ob_uniqueCommitments :: bool
  ob_recomputedInputCommitment :: "string option"

record supported_artifact =
  sa_provenance :: artifact_provenance
  sa_typedAuthority :: public_input_authority

record parsed_artifact =
  pr_format :: artifact_format
  pr_provenance :: partial_provenance
  pr_observed :: observed_fields
  pr_typedAuthority :: "public_input_authority option"
  pr_valid :: bool
  pr_errors :: "string list"

type_synonym observation = "observed_fields \<times> string list"

definition EMPTY_HEX_32 :: string where
  "EMPTY_HEX_32 = ''0x'' @ replicate 64 CHR ''0''"

definition PUBLIC_INPUT_KEYS :: "string list" where
  "PUBLIC_INPUT_KEYS =
     [''schema'', ''version'', ''electionId'', ''electionConfigHash'', ''bulletinRoot'', ''treeSize'', ''totalExpected'',
      ''logId'', ''timestamp'', ''methodVersion'', ''votes'']"

definition PUBLIC_INPUT_VOTE_KEYS :: "string list" where
  "PUBLIC_INPUT_VOTE_KEYS = [''index'', ''commitment'', ''merklePath'']"

definition STORED_PUBLIC_INPUT_KEYS :: "string list" where
  "STORED_PUBLIC_INPUT_KEYS = [''format'', ''provenance'', ''typedAuthority'']"

definition PUBLIC_INPUT_FORMAT_KEYS :: "string list" where
  "PUBLIC_INPUT_FORMAT_KEYS = [''schema'', ''version'']"

definition PUBLIC_INPUT_PROVENANCE_KEYS :: "string list" where
  "PUBLIC_INPUT_PROVENANCE_KEYS = [''source'', ''finalizationId'', ''bundleKey'']"

definition PUBLIC_INPUT_AUTHORITY_KEYS :: "string list" where
  "PUBLIC_INPUT_AUTHORITY_KEYS =
     [''electionId'', ''electionConfigHash'', ''methodVersion'', ''bulletinRoot'', ''treeSize'', ''totalExpected'', ''votesCount'',
      ''uniqueIndices'', ''uniqueCommitments'', ''logId'', ''timestamp'', ''recomputedInputCommitment'']"

definition unexpectedKeys :: "jsval \<Rightarrow> string list \<Rightarrow> string list" where
  "unexpectedKeys v allowed = map (\<lambda>k. ''unexpected_key:'' @ k) (filter (\<lambda>k. k \<notin> set allowed) (js_keys v))"

section \<open>Building\<close>

record zkvm_input_vote = commitment_vote +
  zv_choice :: int
  zv_random :: string

record zkvm_input =
  zi_electionId :: string
  zi_electionConfigHash :: string
  zi_bulletinRoot :: string
  zi_treeSize :: jsnum
  zi_totalExpected :: jsnum
  zi_logId :: string
  zi_timestamp :: jsnum
  zi_votes :: "zkvm_input_vote list"

definition buildPublicInputArtifactFromZkvmInput :: "zkvm_input \<Rightarrow> jsnum \<Rightarrow> jsval" where
  "buildPublicInputArtifactFromZkvmInput inp methodVersion =
     JObj [(''schema'', JStr PUBLIC_INPUT_SCHEMA), (''version'', JStr PUBLIC_INPUT_VERSION),
       (''electionId'', JStr (zi_electionId inp)), (''electionConfigHash'', JStr (zi_electionConfigHash inp)),
       (''bulletinRoot'', JStr (zi_bulletinRoot inp)), (''treeSize'', JNum (zi_treeSize inp)),
       (''totalExpected'', JNum (zi_totalExpected inp)), (''logId'', JStr (zi_logId inp)),
       (''timestamp'', JNum (zi_timestamp inp)), (''methodVersion'', JNum methodVersion),
       (''votes'', JArr (map (\<lambda>v. JObj [(''index'', JNum (cv_index v)), (''commitment'', JStr (cv_commitment v)),
          (''merklePath'', JArr (map JStr (cv_merklePath v)))]) (zi_votes inp)))]"

section \<open>Observers\<close>

definition observePublicInputFormat :: "jsval \<Rightarrow> artifact_format \<Rightarrow> string list \<Rightarrow> artifact_format \<times> string list" where
  "observePublicInputFormat raw format errors =
     (let schema = getStringProperty raw ''schema'';
          format1 = (if truthy schema then format\<lparr>af_schema := schema\<rparr> else format);
          errors1 = (if schema \<noteq> Some PUBLIC_INPUT_SCHEMA then errors @ [''schema''] else errors);
          version = getStringProperty raw ''version'';
          format2 = (if truthy version then format1\<lparr>af_version := version\<rparr> else format1);
          errors2 = (if version \<noteq> Some PUBLIC_INPUT_VERSION then errors1 @ [''version''] else errors1)
      in (format2, errors2))"

definition observeElectionId :: "jsval \<Rightarrow> observation \<Rightarrow> observation" where
  "observeElectionId raw = (\<lambda>(ob, errors).
     let electionId = getStringProperty raw ''electionId''
     in if \<not> truthy electionId then (ob, errors @ [''electionId'']) else (ob\<lparr>ob_electionId := electionId\<rparr>, errors))"

definition isPublicInputHash :: "string option \<Rightarrow> bool" where
  "isPublicInputHash v = (case v of None \<Rightarrow> False | Some s \<Rightarrow> length s > 0 \<and> isValidHexString s (Some 32))"

definition isPublicInputInteger :: "jsnum option \<Rightarrow> bool" where
  "isPublicInputInteger v = (case v of None \<Rightarrow> False | Some n \<Rightarrow> isInteger n)"

definition canonical_hash :: "string \<Rightarrow> string" where
  "canonical_hash s = addHexPrefix (normalizeHexString s)"

text \<open>\<^verbatim>\<open>observed[field] = value\<close> is the update that goes with the name of the field.\<close>

definition observePublicInputHash ::
  "jsval \<Rightarrow> string \<Rightarrow> (string \<Rightarrow> observed_fields \<Rightarrow> observed_fields) \<Rightarrow> observation \<Rightarrow> observation" where
  "observePublicInputHash raw field set_field = (\<lambda>(ob, errors).
     let value = getStringProperty raw field
     in if \<not> isPublicInputHash value then (ob, errors @ [field])
        else (set_field (canonical_hash (the value)) ob, errors))"

definition observePublicInputInteger ::
  "jsval \<Rightarrow> string \<Rightarrow> (jsnum \<Rightarrow> observed_fields \<Rightarrow> observed_fields) \<Rightarrow> observation \<Rightarrow> observation" where
  "observePublicInputInteger raw field set_field = (\<lambda>(ob, errors).
     let value = getNumberProperty raw field
     in if \<not> isPublicInputInteger value then (ob, errors @ [field]) else (set_field (the value) ob, errors))"

definition admitPublicInputVotePath :: "jsval \<Rightarrow> string list \<Rightarrow> string list option \<times> string list" where
  "admitPublicInputVotePath voteEntry errors =
     (case Option.bind (getArrayProperty voteEntry ''merklePath'') (\<lambda>ns. those (map as_string ns)) of
        None \<Rightarrow> (None, errors @ [''vote_merkle_path''])
      | Some ns \<Rightarrow> if \<not> list_all (\<lambda>n. isValidHexString n (Some 32)) ns then (None, errors @ [''vote_merkle_path_hex''])
                   else (Some ns, errors))"

definition admitPublicInputVote :: "jsval \<Rightarrow> string list \<Rightarrow> commitment_vote option \<times> string list" where
  "admitPublicInputVote voteEntry errors0 =
     (if \<not> isNonNullObject voteEntry then (None, errors0 @ [''vote_record''])
      else
        let errors = errors0 @ unexpectedKeys voteEntry PUBLIC_INPUT_VOTE_KEYS;
            idx = getNumberProperty voteEntry ''index''
        in if (case idx of None \<Rightarrow> True | Some n \<Rightarrow> \<not> isInteger n \<or> num_lt n (js_int 0)) then (None, errors @ [''vote_index''])
           else
             let commit = getStringProperty voteEntry ''commitment''
             in if \<not> truthy commit \<or> \<not> isValidHexString (the commit) (Some 32) then (None, errors @ [''vote_commitment''])
                else (case admitPublicInputVotePath voteEntry errors of
                        (None, errors1) \<Rightarrow> (None, errors1)
                      | (Some p, errors1) \<Rightarrow> (Some \<lparr>cv_index = the idx, cv_commitment = the commit, cv_merklePath = p\<rparr>, errors1)))"

text \<open>The loop over the votes: the parsed votes in order, with the two sets of what was seen.\<close>

record vote_scan =
  sv_votes :: "commitment_vote list"
  sv_indices :: "jsnum set"
  sv_commitments :: "string set"

definition observe_vote :: "jsval \<Rightarrow> vote_scan \<times> observation \<Rightarrow> vote_scan \<times> observation" where
  "observe_vote entry = (\<lambda>(s, ob, errors).
     case admitPublicInputVote entry errors of
       (None, errors1) \<Rightarrow> (s, ob, errors1)
     | (Some v, errors1) \<Rightarrow>
         let c = normalizeHexString (cv_commitment v);
             ob1 = (if cv_index v \<in> sv_indices s then ob\<lparr>ob_uniqueIndices := False\<rparr> else ob);
             ob2 = (if c \<in> sv_commitments s then ob1\<lparr>ob_uniqueCommitments := False\<rparr> else ob1)
         in (\<lparr>sv_votes = sv_votes s @ [v], sv_indices = insert (cv_index v) (sv_indices s),
              sv_commitments = insert c (sv_commitments s)\<rparr>, ob2, errors1))"

definition observePublicInputVotes :: "jsval list \<Rightarrow> observation \<Rightarrow> commitment_vote list \<times> observation" where
  "observePublicInputVotes votes obs =
     (case fold observe_vote votes (\<lparr>sv_votes = [], sv_indices = {}, sv_commitments = {}\<rparr>, obs) of
        (s, obs') \<Rightarrow> (sv_votes s, obs'))"

definition observePublicInputCommitment ::
  "noble \<Rightarrow> commitment_vote list \<Rightarrow> nat \<Rightarrow> string option \<Rightarrow> observation \<Rightarrow> observation" where
  "observePublicInputCommitment N parsedVotes votesCount electionId = (\<lambda>(ob, errors).
     if length errors = 0 \<and> length parsedVotes = votesCount \<and> truthy electionId \<and> ob_totalExpected ob \<noteq> None
     then (case computeInputCommitmentFromPublicInput N
                 \<lparr>ci_electionId = the electionId, ci_bulletinRoot = ob_bulletinRoot ob, ci_treeSize = ob_treeSize ob,
                  ci_totalExpected = the (ob_totalExpected ob), ci_votes = parsedVotes\<rparr> of
             Inr c \<Rightarrow> (ob\<lparr>ob_recomputedInputCommitment := Some c\<rparr>, errors)
           | Inl _ \<Rightarrow> (ob, errors @ [''input_commitment'']))
     else (ob, errors))"

definition derivePublicInputAuthority :: "observation \<Rightarrow> public_input_authority option" where
  "derivePublicInputAuthority = (\<lambda>(ob, errors).
     if length errors = 0 \<and> truthy (ob_electionId ob) \<and> truthy (ob_electionConfigHash ob) \<and> ob_totalExpected ob \<noteq> None \<and>
        truthy (ob_logId ob) \<and> ob_timestamp ob \<noteq> None \<and> ob_methodVersion ob \<noteq> None \<and> truthy (ob_recomputedInputCommitment ob)
     then Some \<lparr>pa_electionId = the (ob_electionId ob), pa_electionConfigHash = the (ob_electionConfigHash ob),
                pa_methodVersion = the (ob_methodVersion ob), pa_bulletinRoot = ob_bulletinRoot ob, pa_treeSize = ob_treeSize ob,
                pa_totalExpected = the (ob_totalExpected ob), pa_votesCount = ob_votesCount ob,
                pa_uniqueIndices = ob_uniqueIndices ob, pa_uniqueCommitments = ob_uniqueCommitments ob,
                pa_logId = the (ob_logId ob), pa_timestamp = the (ob_timestamp ob),
                pa_recomputedInputCommitment = the (ob_recomputedInputCommitment ob)\<rparr>
     else None)"

definition finalizeParsedPublicInput ::
  "artifact_format \<Rightarrow> partial_provenance \<Rightarrow> observation \<Rightarrow> public_input_authority option \<Rightarrow> parsed_artifact" where
  "finalizeParsedPublicInput format provenance obs authority =
     \<lparr>pr_format = format, pr_provenance = provenance, pr_observed = fst obs, pr_typedAuthority = authority,
      pr_valid = (length (snd obs) = 0), pr_errors = snd obs\<rparr>"

definition initial_observed :: observed_fields where
  "initial_observed =
     \<lparr>ob_electionId = None, ob_electionConfigHash = None, ob_votesCount = js_int 0, ob_treeSize = js_int 0,
      ob_totalExpected = None, ob_bulletinRoot = EMPTY_HEX_32, ob_logId = None, ob_timestamp = None, ob_methodVersion = None,
      ob_uniqueIndices = True, ob_uniqueCommitments = True, ob_recomputedInputCommitment = None\<rparr>"

text \<open>The observers of the scalar fields, in the order of the source.\<close>

definition observe_fields :: "jsval \<Rightarrow> observation \<Rightarrow> observation" where
  "observe_fields raw obs =
     (let o1 = observeElectionId raw obs;
          o2 = observePublicInputHash raw ''electionConfigHash'' (\<lambda>v ob. ob\<lparr>ob_electionConfigHash := Some v\<rparr>) o1;
          o3 = observePublicInputHash raw ''bulletinRoot'' (\<lambda>v ob. ob\<lparr>ob_bulletinRoot := v\<rparr>) o2;
          o4 = observePublicInputInteger raw ''treeSize'' (\<lambda>v ob. ob\<lparr>ob_treeSize := v\<rparr>) o3;
          o5 = observePublicInputInteger raw ''totalExpected'' (\<lambda>v ob. ob\<lparr>ob_totalExpected := Some v\<rparr>) o4;
          o6 = observePublicInputHash raw ''logId'' (\<lambda>v ob. ob\<lparr>ob_logId := Some v\<rparr>) o5;
          o7 = observePublicInputInteger raw ''timestamp'' (\<lambda>v ob. ob\<lparr>ob_timestamp := Some v\<rparr>) o6
      in observePublicInputInteger raw ''methodVersion'' (\<lambda>v ob. ob\<lparr>ob_methodVersion := Some v\<rparr>) o7)"

definition parsePublicInputArtifact :: "noble \<Rightarrow> jsval \<Rightarrow> partial_provenance \<Rightarrow> parsed_artifact" where
  "parsePublicInputArtifact N raw options =
     (let format = \<lparr>af_schema = None, af_version = None\<rparr> in
      if \<not> isNonNullObject raw
      then finalizeParsedPublicInput format options (initial_observed, [''public_input_not_record'']) None
      else
        case observePublicInputFormat raw format (unexpectedKeys raw PUBLIC_INPUT_KEYS) of
          (format1, errors) \<Rightarrow>
            (case observe_fields raw (initial_observed, errors) of
               (ob, errors1) \<Rightarrow>
                 (case getArrayProperty raw ''votes'' of
                    None \<Rightarrow> finalizeParsedPublicInput format1 options (ob, errors1 @ [''votes'']) None
                  | Some votes \<Rightarrow>
                      (case observePublicInputVotes votes (ob\<lparr>ob_votesCount := js_int (int (length votes))\<rparr>, errors1) of
                         (parsedVotes, obs) \<Rightarrow>
                           let final = observePublicInputCommitment N parsedVotes (length votes) (getStringProperty raw ''electionId'') obs
                           in finalizeParsedPublicInput format1 options final (derivePublicInputAuthority final)))))"

definition toSupportedPublicInputArtifact :: "parsed_artifact \<Rightarrow> supported_artifact option" where
  "toSupportedPublicInputArtifact parsed =
     (case (pr_typedAuthority parsed, pp_source (pr_provenance parsed)) of
        (Some a, Some src) \<Rightarrow>
          if \<not> pr_valid parsed \<or> af_schema (pr_format parsed) \<noteq> Some PUBLIC_INPUT_SCHEMA \<or>
             af_version (pr_format parsed) \<noteq> Some PUBLIC_INPUT_VERSION
          then None
          else Some \<lparr>sa_provenance = \<lparr>pv_source = src, pv_finalizationId = pp_finalizationId (pr_provenance parsed),
                                     pv_bundleKey = pp_bundleKey (pr_provenance parsed)\<rparr>,
                     sa_typedAuthority = a\<rparr>
      | _ \<Rightarrow> None)"

definition parseSupportedPublicInputArtifact :: "noble \<Rightarrow> jsval \<Rightarrow> artifact_provenance \<Rightarrow> supported_artifact option" where
  "parseSupportedPublicInputArtifact N raw p =
     toSupportedPublicInputArtifact (parsePublicInputArtifact N raw
       \<lparr>pp_source = Some (pv_source p), pp_finalizationId = pv_finalizationId p, pp_bundleKey = pv_bundleKey p\<rparr>)"

text \<open>The builder throws with the diagnostics when its own artefact is invalid.\<close>

definition buildSupportedPublicInputArtifactFromZkvmInput ::
  "noble \<Rightarrow> zkvm_input \<Rightarrow> jsnum \<Rightarrow> string option \<Rightarrow> string option \<Rightarrow> string list + supported_artifact" where
  "buildSupportedPublicInputArtifactFromZkvmInput N inp methodVersion finalizationId bundleKey =
     (let parsed = parsePublicInputArtifact N (buildPublicInputArtifactFromZkvmInput inp methodVersion)
            \<lparr>pp_source = Some Generated, pp_finalizationId = finalizationId, pp_bundleKey = bundleKey\<rparr>
      in case toSupportedPublicInputArtifact parsed of
           None \<Rightarrow> Inl (pr_errors parsed)
         | Some a \<Rightarrow> Inr a)"

section \<open>What an accepted artefact says\<close>

text \<open>Every observer appends to the diagnostics and decides independently of them.\<close>

lemma admit_path_errors:
  "admitPublicInputVotePath e errs = (fst (admitPublicInputVotePath e []), errs @ snd (admitPublicInputVotePath e []))"
  by (auto simp: admitPublicInputVotePath_def split: option.splits)

lemma admit_vote_errors:
  "admitPublicInputVote e errs = (fst (admitPublicInputVote e []), errs @ snd (admitPublicInputVote e []))"
proof -
  have p: "admitPublicInputVotePath e es = (fst (admitPublicInputVotePath e []), es @ snd (admitPublicInputVotePath e []))" for es
    by (rule admit_path_errors)
  show ?thesis
    by (simp add: admitPublicInputVote_def Let_def p [of "errs @ _"] p [of "unexpectedKeys _ _"] split: option.splits)
qed

text \<open>An observer leaves no diagnostic exactly when there was none and its field is well formed; it then stores
  the field.\<close>

lemma hash_step:
  "snd (observePublicInputHash raw k s x) = [] \<longleftrightarrow> snd x = [] \<and> isPublicInputHash (getStringProperty raw k)"
  "isPublicInputHash (getStringProperty raw k) \<Longrightarrow>
     observePublicInputHash raw k s x = (s (canonical_hash (the (getStringProperty raw k))) (fst x), snd x)"
  by (auto simp: observePublicInputHash_def Let_def split: prod.splits)

lemma integer_step:
  "snd (observePublicInputInteger raw k s x) = [] \<longleftrightarrow> snd x = [] \<and> isPublicInputInteger (getNumberProperty raw k)"
  "isPublicInputInteger (getNumberProperty raw k) \<Longrightarrow>
     observePublicInputInteger raw k s x = (s (the (getNumberProperty raw k)) (fst x), snd x)"
  by (auto simp: observePublicInputInteger_def Let_def split: prod.splits)

lemma election_step:
  "snd (observeElectionId raw x) = [] \<longleftrightarrow> snd x = [] \<and> truthy (getStringProperty raw ''electionId'')"
  "truthy (getStringProperty raw ''electionId'') \<Longrightarrow>
     observeElectionId raw x = ((fst x)\<lparr>ob_electionId := getStringProperty raw ''electionId''\<rparr>, snd x)"
  by (auto simp: observeElectionId_def Let_def split: prod.splits)

definition has_scalars :: "jsval \<Rightarrow> bool" where
  "has_scalars raw \<longleftrightarrow>
     truthy (getStringProperty raw ''electionId'') \<and>
     list_all (\<lambda>k. isPublicInputHash (getStringProperty raw k)) [''electionConfigHash'', ''bulletinRoot'', ''logId''] \<and>
     list_all (\<lambda>k. isPublicInputInteger (getNumberProperty raw k)) [''treeSize'', ''totalExpected'', ''timestamp'', ''methodVersion'']"

definition with_scalars :: "jsval \<Rightarrow> observed_fields" where
  "with_scalars raw = initial_observed
     \<lparr>ob_electionId := getStringProperty raw ''electionId'',
      ob_electionConfigHash := Some (canonical_hash (the (getStringProperty raw ''electionConfigHash''))),
      ob_bulletinRoot := canonical_hash (the (getStringProperty raw ''bulletinRoot'')),
      ob_treeSize := the (getNumberProperty raw ''treeSize''),
      ob_totalExpected := Some (the (getNumberProperty raw ''totalExpected'')),
      ob_logId := Some (canonical_hash (the (getStringProperty raw ''logId''))),
      ob_timestamp := Some (the (getNumberProperty raw ''timestamp'')),
      ob_methodVersion := Some (the (getNumberProperty raw ''methodVersion''))\<rparr>"

lemma fields_observed:
  "observe_fields raw (initial_observed, errs) = (ob, []) \<longleftrightarrow> errs = [] \<and> has_scalars raw \<and> ob = with_scalars raw"
proof -
  have "snd (observe_fields raw (initial_observed, errs)) = [] \<longleftrightarrow> errs = [] \<and> has_scalars raw"
    by (auto simp: observe_fields_def Let_def has_scalars_def hash_step(1) integer_step(1) election_step(1))
  moreover have "has_scalars raw \<Longrightarrow> fst (observe_fields raw (initial_observed, errs)) = with_scalars raw"
    by (simp add: observe_fields_def Let_def has_scalars_def with_scalars_def hash_step(2) integer_step(2) election_step(2))
  ultimately show ?thesis by (metis fst_conv snd_conv prod.collapse)
qed

lemma format_observed:
  "observePublicInputFormat raw \<lparr>af_schema = None, af_version = None\<rparr> errs = (fm, []) \<longleftrightarrow>
     errs = [] \<and> getStringProperty raw ''schema'' = Some PUBLIC_INPUT_SCHEMA \<and> getStringProperty raw ''version'' = Some PUBLIC_INPUT_VERSION \<and>
     fm = \<lparr>af_schema = Some PUBLIC_INPUT_SCHEMA, af_version = Some PUBLIC_INPUT_VERSION\<rparr>"
  by (auto simp: observePublicInputFormat_def Let_def PUBLIC_INPUT_SCHEMA_def PUBLIC_INPUT_VERSION_def)

section \<open>Votes\<close>

text \<open>The votes of an artefact that was accepted: each entry decodes without a diagnostic.\<close>

definition decodes_to :: "jsval \<Rightarrow> commitment_vote \<Rightarrow> bool" where
  "decodes_to entry v \<longleftrightarrow> admitPublicInputVote entry [] = (Some v, [])"

text \<open>The state of the scan after the votes \<open>vs\<close>.\<close>

definition scan_of :: "commitment_vote list \<Rightarrow> vote_scan" where
  "scan_of vs = \<lparr>sv_votes = vs, sv_indices = set (map cv_index vs), sv_commitments = set (map (normalizeHexString \<circ> cv_commitment) vs)\<rparr>"

definition with_flags :: "commitment_vote list \<Rightarrow> observed_fields \<Rightarrow> observed_fields" where
  "with_flags vs ob = ob\<lparr>ob_uniqueIndices := distinct (map cv_index vs),
     ob_uniqueCommitments := distinct (map (normalizeHexString \<circ> cv_commitment) vs)\<rparr>"

lemma observe_vote_step:
  assumes "decodes_to e v"
  shows "observe_vote e (scan_of vs, with_flags vs ob, errs) = (scan_of (vs @ [v]), with_flags (vs @ [v]) ob, errs)"
  using assms admit_vote_errors [of e errs]
  by (auto simp: observe_vote_def decodes_to_def scan_of_def with_flags_def Let_def)

lemma observe_vote_errors:
  "snd (snd (observe_vote e (s, ob, errs))) = errs @ snd (admitPublicInputVote e [])"
  by (subst admit_vote_errors [of e errs] | simp add: observe_vote_def Let_def split: option.splits prod.splits)+

lemma scan_errors: "\<exists>es. snd (snd (fold observe_vote entries (s, ob, errs))) = errs @ es"
proof (induction entries arbitrary: s ob errs)
  case (Cons e entries)
  obtain s' ob' errs' where o: "observe_vote e (s, ob, errs) = (s', ob', errs')" by (metis prod_cases3)
  then have "errs' = errs @ snd (admitPublicInputVote e [])" using observe_vote_errors [of e s ob errs] by simp
  then show ?case using o Cons.IH [of s' ob' errs'] by auto
qed simp

lemma refused_vote: "fst (admitPublicInputVote e []) = None \<Longrightarrow> snd (admitPublicInputVote e []) \<noteq> []"
  by (auto simp: admitPublicInputVote_def admitPublicInputVotePath_def Let_def split: option.splits if_splits)

lemma scan_observed:
  "fold observe_vote entries (scan_of vs, with_flags vs ob, []) = (s, ob', []) \<longleftrightarrow>
     (\<exists>ws. list_all2 decodes_to entries ws \<and> s = scan_of (vs @ ws) \<and> ob' = with_flags (vs @ ws) ob)"
proof (induction entries arbitrary: vs)
  case Nil
  show ?case by auto
next
  case (Cons e entries)
  show ?case
  proof (cases "\<exists>v. decodes_to e v")
    case True
    then obtain v where v: "decodes_to e v" by blast
    then have "decodes_to e w \<longleftrightarrow> w = v" for w by (auto simp: decodes_to_def)
    then show ?thesis
      using Cons.IH [of "vs @ [v]"] observe_vote_step [OF v] by (auto simp: list_all2_Cons1)
  next
    case False
    then have "snd (admitPublicInputVote e []) \<noteq> []"
      using refused_vote [of e] by (cases "admitPublicInputVote e []") (auto simp: decodes_to_def)
    moreover obtain s1 ob1 errs1 where o: "observe_vote e (scan_of vs, with_flags vs ob, []) = (s1, ob1, errs1)" by (metis prod_cases3)
    ultimately have "errs1 \<noteq> []" using observe_vote_errors [of e "scan_of vs" "with_flags vs ob" "[]"] by simp
    then have "snd (snd (fold observe_vote (e # entries) (scan_of vs, with_flags vs ob, []))) \<noteq> []"
      using o scan_errors [of entries s1 ob1 errs1] by auto
    then show ?thesis using False by (auto simp: list_all2_Cons1)
  qed
qed

definition commitment_input_of :: "jsval \<Rightarrow> commitment_vote list \<Rightarrow> commitment_input" where
  "commitment_input_of raw vs =
     \<lparr>ci_electionId = the (getStringProperty raw ''electionId''),
      ci_bulletinRoot = canonical_hash (the (getStringProperty raw ''bulletinRoot'')),
      ci_treeSize = the (getNumberProperty raw ''treeSize''), ci_totalExpected = the (getNumberProperty raw ''totalExpected''),
      ci_votes = vs\<rparr>"

definition authority_of :: "jsval \<Rightarrow> commitment_vote list \<Rightarrow> string \<Rightarrow> public_input_authority" where
  "authority_of raw vs c =
     \<lparr>pa_electionId = the (getStringProperty raw ''electionId''),
      pa_electionConfigHash = canonical_hash (the (getStringProperty raw ''electionConfigHash'')),
      pa_methodVersion = the (getNumberProperty raw ''methodVersion''),
      pa_bulletinRoot = canonical_hash (the (getStringProperty raw ''bulletinRoot'')),
      pa_treeSize = the (getNumberProperty raw ''treeSize''), pa_totalExpected = the (getNumberProperty raw ''totalExpected''),
      pa_votesCount = js_int (int (length vs)), pa_uniqueIndices = distinct (map cv_index vs),
      pa_uniqueCommitments = distinct (map (normalizeHexString \<circ> cv_commitment) vs),
      pa_logId = canonical_hash (the (getStringProperty raw ''logId'')), pa_timestamp = the (getNumberProperty raw ''timestamp''),
      pa_recomputedInputCommitment = c\<rparr>"

text \<open>When an artefact is well formed with these votes and this commitment.\<close>

definition well_formed_artifact :: "noble \<Rightarrow> jsval \<Rightarrow> commitment_vote list \<Rightarrow> string \<Rightarrow> bool" where
  "well_formed_artifact N raw vs c \<longleftrightarrow>
     isNonNullObject raw \<and> unexpectedKeys raw PUBLIC_INPUT_KEYS = [] \<and>
     getStringProperty raw ''schema'' = Some PUBLIC_INPUT_SCHEMA \<and> getStringProperty raw ''version'' = Some PUBLIC_INPUT_VERSION \<and>
     has_scalars raw \<and>
     (case getArrayProperty raw ''votes'' of None \<Rightarrow> False | Some entries \<Rightarrow> list_all2 decodes_to entries vs) \<and>
     computeInputCommitmentFromPublicInput N (commitment_input_of raw vs) = Inr c"

lemma commitment_not_Nil: "computeInputCommitmentFromPublicInput N i = Inr c \<Longrightarrow> c \<noteq> []"
  by (auto simp: computeInputCommitmentFromPublicInput_def asInputCommitment_def asHex32Identifier_def err_simps split: if_splits)

lemma canonical_hash_not_Nil [simp]: "canonical_hash s \<noteq> []"
  by (simp add: canonical_hash_def addHexPrefix_def)

lemma flags_initial: "with_flags [] ((with_scalars raw)\<lparr>ob_votesCount := n\<rparr>) = (with_scalars raw)\<lparr>ob_votesCount := n\<rparr>"
  by (simp add: with_flags_def with_scalars_def initial_observed_def)

lemma votes_observed:
  "observePublicInputVotes entries ((with_scalars raw)\<lparr>ob_votesCount := n\<rparr>, []) = (vs, ob, []) \<longleftrightarrow>
     list_all2 decodes_to entries vs \<and> ob = with_flags vs ((with_scalars raw)\<lparr>ob_votesCount := n\<rparr>)"
proof -
  let ?ob = "(with_scalars raw)\<lparr>ob_votesCount := n\<rparr>"
  have s: "\<lparr>sv_votes = [], sv_indices = {}, sv_commitments = {}\<rparr> = scan_of []" "sv_votes (scan_of ws) = ws" for ws
    by (simp_all add: scan_of_def)
  have "observePublicInputVotes entries (?ob, []) = (vs, ob, []) \<longleftrightarrow>
      (\<exists>s. fold observe_vote entries (scan_of [], with_flags [] ?ob, []) = (s, ob, []) \<and> vs = sv_votes s)"
    by (auto simp: observePublicInputVotes_def flags_initial s(1) split: prod.splits)
  then show ?thesis by (auto simp: scan_observed s(2))
qed

lemma commitment_observed:
  assumes "ob_totalExpected ob = Some te" "truthy eid"
  shows "observePublicInputCommitment N vs (length vs) eid (ob, errs) = (ob', []) \<longleftrightarrow>
    errs = [] \<and> (\<exists>c. computeInputCommitmentFromPublicInput N
         \<lparr>ci_electionId = the eid, ci_bulletinRoot = ob_bulletinRoot ob, ci_treeSize = ob_treeSize ob, ci_totalExpected = te, ci_votes = vs\<rparr> = Inr c \<and>
       ob' = ob\<lparr>ob_recomputedInputCommitment := Some c\<rparr>)"
  using assms by (auto simp: observePublicInputCommitment_def split: sum.splits)

lemma votes_errors: "\<exists>es. snd (snd (observePublicInputVotes entries (ob, errs))) = errs @ es"
  using scan_errors [of entries] by (simp add: observePublicInputVotes_def split: prod.splits) (metis snd_conv)

lemma commitment_errors: "\<exists>es. snd (observePublicInputCommitment N vs n e (ob, errs)) = errs @ es"
  by (auto simp: observePublicInputCommitment_def split: sum.splits)

lemma fields_errors: "snd (observe_fields raw (initial_observed, errs)) = [] \<Longrightarrow> errs = []"
  using fields_observed [of raw errs "fst (observe_fields raw (initial_observed, errs))"] by (simp add: prod_eq_iff)

lemma scalars_fields:
  assumes "has_scalars raw"
  shows "ob_totalExpected (with_flags vs ((with_scalars raw)\<lparr>ob_votesCount := n\<rparr>)) = Some (the (getNumberProperty raw ''totalExpected''))"
    "ob_bulletinRoot (with_flags vs ((with_scalars raw)\<lparr>ob_votesCount := n\<rparr>)) = canonical_hash (the (getStringProperty raw ''bulletinRoot''))"
    "ob_treeSize (with_flags vs ((with_scalars raw)\<lparr>ob_votesCount := n\<rparr>)) = the (getNumberProperty raw ''treeSize'')"
    "truthy (getStringProperty raw ''electionId'')"
  using assms by (auto simp: with_flags_def with_scalars_def has_scalars_def)

lemma derived_authority:
  assumes "has_scalars raw" "c \<noteq> []"
  shows "derivePublicInputAuthority
      ((with_flags vs ((with_scalars raw)\<lparr>ob_votesCount := js_int (int (length vs))\<rparr>))\<lparr>ob_recomputedInputCommitment := Some c\<rparr>, []) =
    Some (authority_of raw vs c)"
  using assms by (simp add: derivePublicInputAuthority_def with_flags_def with_scalars_def initial_observed_def authority_of_def has_scalars_def)

lemma parse_accepts:
  assumes "well_formed_artifact N raw vs c"
  shows "pr_valid (parsePublicInputArtifact N raw opt)"
    "pr_typedAuthority (parsePublicInputArtifact N raw opt) = Some (authority_of raw vs c)"
    "pr_format (parsePublicInputArtifact N raw opt) = \<lparr>af_schema = Some PUBLIC_INPUT_SCHEMA, af_version = Some PUBLIC_INPUT_VERSION\<rparr>"
    "pr_provenance (parsePublicInputArtifact N raw opt) = opt"
proof -
  note w = assms [unfolded well_formed_artifact_def]
  obtain entries where e: "getArrayProperty raw ''votes'' = Some entries" "list_all2 decodes_to entries vs"
    using w by (auto split: option.splits)
  have hs: "has_scalars raw" using w by blast
  have len: "length entries = length vs" using e(2) by (rule list_all2_lengthD)
  let ?ob = "(with_scalars raw)\<lparr>ob_votesCount := js_int (int (length vs))\<rparr>"
  have 1: "observePublicInputFormat raw \<lparr>af_schema = None, af_version = None\<rparr> [] =
      (\<lparr>af_schema = Some PUBLIC_INPUT_SCHEMA, af_version = Some PUBLIC_INPUT_VERSION\<rparr>, [])"
    using w by (simp add: format_observed)
  have 2: "observe_fields raw (initial_observed, []) = (with_scalars raw, [])"
    using w by (simp add: fields_observed)
  have 3: "observePublicInputVotes entries (?ob, []) = (vs, with_flags vs ?ob, [])"
    using e(2) by (simp add: votes_observed)
  have 4: "observePublicInputCommitment N vs (length vs) (getStringProperty raw ''electionId'') (with_flags vs ?ob, []) =
      ((with_flags vs ?ob)\<lparr>ob_recomputedInputCommitment := Some c\<rparr>, [])"
    using w scalars_fields [OF hs] commitment_observed [OF scalars_fields(1) [OF hs] scalars_fields(4) [OF hs]] by (simp add: commitment_input_of_def)
  have d: "derivePublicInputAuthority ((with_flags vs ?ob)\<lparr>ob_recomputedInputCommitment := Some c\<rparr>, []) = Some (authority_of raw vs c)"
    using derived_authority [OF hs] w commitment_not_Nil by blast
  show "pr_valid (parsePublicInputArtifact N raw opt)"
    "pr_typedAuthority (parsePublicInputArtifact N raw opt) = Some (authority_of raw vs c)"
    "pr_format (parsePublicInputArtifact N raw opt) = \<lparr>af_schema = Some PUBLIC_INPUT_SCHEMA, af_version = Some PUBLIC_INPUT_VERSION\<rparr>"
    "pr_provenance (parsePublicInputArtifact N raw opt) = opt"
    using w by (simp_all add: parsePublicInputArtifact_def Let_def 1 2 e(1) len 3 4 d finalizeParsedPublicInput_def)
qed

text \<open>Conversely, a valid result comes from a well-formed artefact.\<close>

lemma parse_accepted:
  assumes "pr_valid (parsePublicInputArtifact N raw opt)"
  obtains vs c where "well_formed_artifact N raw vs c"
proof -
  have obj: "isNonNullObject raw"
    using assms by (rule contrapos_pp) (simp add: parsePublicInputArtifact_def finalizeParsedPublicInput_def Let_def)
  obtain fm errs where fm: "observePublicInputFormat raw \<lparr>af_schema = None, af_version = None\<rparr> (unexpectedKeys raw PUBLIC_INPUT_KEYS) = (fm, errs)"
    by fastforce
  obtain ob errs1 where ob: "observe_fields raw (initial_observed, errs) = (ob, errs1)" by fastforce
  obtain entries where e: "getArrayProperty raw ''votes'' = Some entries"
    using assms obj fm ob by (cases "getArrayProperty raw ''votes''") (auto simp: parsePublicInputArtifact_def finalizeParsedPublicInput_def Let_def)
  obtain vs ob2 errs2 where vs: "observePublicInputVotes entries (ob\<lparr>ob_votesCount := js_int (int (length entries))\<rparr>, errs1) = (vs, ob2, errs2)"
    by (metis prod_cases3)
  have fin: "snd (observePublicInputCommitment N vs (length entries) (getStringProperty raw ''electionId'') (ob2, errs2)) = []"
    using assms obj fm ob e vs by (simp add: parsePublicInputArtifact_def finalizeParsedPublicInput_def Let_def)
  have n2: "errs2 = []" using commitment_errors [of N vs "length entries" "getStringProperty raw ''electionId''" ob2 errs2] fin by auto
  have n1: "errs1 = []" using votes_errors [of entries "ob\<lparr>ob_votesCount := js_int (int (length entries))\<rparr>" errs1] vs n2 by auto
  have f: "errs = []" "has_scalars raw" "ob = with_scalars raw" using ob n1 by (simp_all add: fields_observed)
  have fmt: "unexpectedKeys raw PUBLIC_INPUT_KEYS = []" "getStringProperty raw ''schema'' = Some PUBLIC_INPUT_SCHEMA"
      "getStringProperty raw ''version'' = Some PUBLIC_INPUT_VERSION"
    using fm f(1) by (simp_all add: format_observed)
  have v: "list_all2 decodes_to entries vs" "ob2 = with_flags vs ((with_scalars raw)\<lparr>ob_votesCount := js_int (int (length entries))\<rparr>)"
    using vs n1 n2 f(3) by (simp_all add: votes_observed)
  have len: "length entries = length vs" using v(1) by (rule list_all2_lengthD)
  obtain ob3 where "observePublicInputCommitment N vs (length vs) (getStringProperty raw ''electionId'') (ob2, []) = (ob3, [])"
    using fin n2 len by (metis prod.collapse)
  then obtain c where "computeInputCommitmentFromPublicInput N (commitment_input_of raw vs) = Inr c"
    using commitment_observed [OF scalars_fields(1) [OF f(2)] scalars_fields(4) [OF f(2)]] scalars_fields [OF f(2)] v(2)
    by (auto simp: commitment_input_of_def)
  then show thesis using that [of vs c] obj fmt f(2) e v(1) by (simp add: well_formed_artifact_def)
qed

lemma parse_supported_iff:
  "(parseSupportedPublicInputArtifact N raw p = Some a) =
     (\<exists>vs c. well_formed_artifact N raw vs c \<and> a = \<lparr>sa_provenance = p, sa_typedAuthority = authority_of raw vs c\<rparr>)"
proof
  let ?opt = "\<lparr>pp_source = Some (pv_source p), pp_finalizationId = pv_finalizationId p, pp_bundleKey = pv_bundleKey p\<rparr>"
  assume l: "parseSupportedPublicInputArtifact N raw p = Some a"
  then have "pr_valid (parsePublicInputArtifact N raw ?opt)"
    by (auto simp: parseSupportedPublicInputArtifact_def toSupportedPublicInputArtifact_def split: option.splits if_splits)
  then obtain vs c where w: "well_formed_artifact N raw vs c" by (rule parse_accepted)
  with l show "\<exists>vs c. well_formed_artifact N raw vs c \<and> a = \<lparr>sa_provenance = p, sa_typedAuthority = authority_of raw vs c\<rparr>"
    using parse_accepts [OF w, of ?opt]
    by (intro exI [of _ vs] exI [of _ c])
      (auto simp: parseSupportedPublicInputArtifact_def toSupportedPublicInputArtifact_def split: if_splits)
next
  let ?opt = "\<lparr>pp_source = Some (pv_source p), pp_finalizationId = pv_finalizationId p, pp_bundleKey = pv_bundleKey p\<rparr>"
  assume "\<exists>vs c. well_formed_artifact N raw vs c \<and> a = \<lparr>sa_provenance = p, sa_typedAuthority = authority_of raw vs c\<rparr>"
  then show "parseSupportedPublicInputArtifact N raw p = Some a"
    using parse_accepts [of N raw _ _ ?opt]
    by (auto simp: parseSupportedPublicInputArtifact_def toSupportedPublicInputArtifact_def)
qed

text \<open>What an admitted public input says.  Parsing accepts exactly the well-formed artefacts, and the
  authority it derives holds the canonical fields, the number of votes, whether their indices and their
  commitments (without regard to case and prefix) are pairwise different, and the input commitment
  recomputed from the listed votes.\<close>

theorem public_input_authority_spec:
  "(parseSupportedPublicInputArtifact N raw p = Some a) =
     (\<exists>vs c. well_formed_artifact N raw vs c \<and> a = \<lparr>sa_provenance = p, sa_typedAuthority = authority_of raw vs c\<rparr>)"
  by (rule parse_supported_iff)

end
