(* ===== verification/PublicInputStore.thy ===== *)
theory PublicInputStore
  imports PublicInput
begin

text \<open>
  The stored form of a supported public input (public-input-contract.ts, \<open>parseStoredPublicInputArtifact\<close>), and
  the two round trips of the contract: a generated artefact is accepted, and a stored one is read back.
\<close>

section \<open>Stored artefacts\<close>

definition admitStoredInputRecord :: "jsval option \<Rightarrow> string list \<Rightarrow> jsval option" where
  "admitStoredInputRecord value allowedKeys =
     (case value of
        None \<Rightarrow> None
      | Some v \<Rightarrow> if isNonNullObject v \<and> \<not> isArray v \<and> length (unexpectedKeys v allowedKeys) = 0 then Some v else None)"

definition hasCurrentPublicInputFormat :: "jsval \<Rightarrow> bool" where
  "hasCurrentPublicInputFormat format =
     (getStringProperty format ''schema'' = Some PUBLIC_INPUT_SCHEMA \<and> getStringProperty format ''version'' = Some PUBLIC_INPUT_VERSION)"

fun source_of :: "string option \<Rightarrow> artifact_source option" where
  "source_of None = None"
| "source_of (Some s) = (if s = ''bundle'' then Some Bundle else if s = ''generated'' then Some Generated else None)"

text \<open>\<^verbatim>\<open>s ? { field: s } : {}\<close>.\<close>

definition if_truthy :: "string option \<Rightarrow> string option" where
  "if_truthy s = (if truthy s then s else None)"

definition projectStoredPublicInputProvenance :: "jsval \<Rightarrow> artifact_source \<Rightarrow> artifact_provenance" where
  "projectStoredPublicInputProvenance provenance src =
     \<lparr>pv_source = src, pv_finalizationId = if_truthy (getStringProperty provenance ''finalizationId''),
      pv_bundleKey = if_truthy (getStringProperty provenance ''bundleKey'')\<rparr>"

definition admitStoredInputIdentity :: "jsval \<Rightarrow> (string \<times> string \<times> jsnum) option" where
  "admitStoredInputIdentity record =
     (let electionId = getStringProperty record ''electionId''; h = getStringProperty record ''electionConfigHash'';
          methodVersion = getNumberProperty record ''methodVersion''
      in if \<not> truthy electionId \<or> \<not> isPublicInputHash h \<or> \<not> isPublicInputInteger methodVersion then None
         else Some (the electionId, canonical_hash (the h), the methodVersion))"

definition admitStoredInputSnapshot :: "jsval \<Rightarrow> (string \<times> jsnum \<times> jsnum \<times> string \<times> jsnum) option" where
  "admitStoredInputSnapshot record =
     (let bulletinRoot = getStringProperty record ''bulletinRoot''; ts = getNumberProperty record ''treeSize'';
          totalExpected = getNumberProperty record ''totalExpected''; lid = getStringProperty record ''logId'';
          time = getNumberProperty record ''timestamp''
      in if \<not> isPublicInputHash bulletinRoot \<or> \<not> isPublicInputInteger ts \<or> \<not> isPublicInputInteger totalExpected \<or>
            \<not> isPublicInputHash lid \<or> \<not> isPublicInputInteger time
         then None
         else Some (canonical_hash (the bulletinRoot), the ts, the totalExpected, canonical_hash (the lid), the time))"

definition admitStoredInputVoteFacts :: "jsval \<Rightarrow> (jsnum \<times> bool \<times> bool \<times> string) option" where
  "admitStoredInputVoteFacts record =
     (let votesCount = getNumberProperty record ''votesCount''; uniqueIndices = as_boolean (js_get record ''uniqueIndices'');
          uniqueCommits = as_boolean (js_get record ''uniqueCommitments'');
          recomputed = getStringProperty record ''recomputedInputCommitment''
      in if \<not> isPublicInputInteger votesCount \<or> uniqueIndices = None \<or> uniqueCommits = None \<or> \<not> isPublicInputHash recomputed
         then None
         else Some (the votesCount, the uniqueIndices, the uniqueCommits, canonical_hash (the recomputed)))"

definition admitStoredPublicInputAuthority :: "jsval \<Rightarrow> public_input_authority option" where
  "admitStoredPublicInputAuthority record =
     (case (admitStoredInputIdentity record, admitStoredInputSnapshot record, admitStoredInputVoteFacts record) of
        (Some (electionId, configHash, methodVersion), Some (bulletinRoot, ts, totalExpected, lid, time),
         Some (votesCount, uniqueIndices, uniqueCommits, recomputed)) \<Rightarrow>
          Some \<lparr>pa_electionId = electionId, pa_electionConfigHash = configHash, pa_methodVersion = methodVersion,
                pa_bulletinRoot = bulletinRoot, pa_treeSize = ts, pa_totalExpected = totalExpected, pa_votesCount = votesCount,
                pa_uniqueIndices = uniqueIndices, pa_uniqueCommitments = uniqueCommits, pa_logId = lid,
                pa_timestamp = time, pa_recomputedInputCommitment = recomputed\<rparr>
      | _ \<Rightarrow> None)"

definition parseStoredPublicInputArtifact :: "jsval \<Rightarrow> supported_artifact option" where
  "parseStoredPublicInputArtifact value =
     (case admitStoredInputRecord (Some value) STORED_PUBLIC_INPUT_KEYS of
        None \<Rightarrow> None
      | Some record \<Rightarrow>
          (case (admitStoredInputRecord (getObjectProperty record ''format'') PUBLIC_INPUT_FORMAT_KEYS,
                 admitStoredInputRecord (getObjectProperty record ''provenance'') PUBLIC_INPUT_PROVENANCE_KEYS,
                 admitStoredInputRecord (getObjectProperty record ''typedAuthority'') PUBLIC_INPUT_AUTHORITY_KEYS) of
             (Some format, Some provenance, Some authorityRecord) \<Rightarrow>
               if \<not> hasCurrentPublicInputFormat format then None
               else (case source_of (getStringProperty provenance ''source'') of
                       None \<Rightarrow> None
                     | Some src \<Rightarrow>
                         (case admitStoredPublicInputAuthority authorityRecord of
                            None \<Rightarrow> None
                          | Some a \<Rightarrow> Some \<lparr>sa_provenance = projectStoredPublicInputProvenance provenance src, sa_typedAuthority = a\<rparr>))
           | _ \<Rightarrow> None))"

text \<open>A supported artefact as the object that is stored.\<close>

definition opt_field :: "string \<Rightarrow> jsval option \<Rightarrow> (string \<times> jsval) list" where
  "opt_field k v = (case v of None \<Rightarrow> [] | Some x \<Rightarrow> [(k, x)])"

definition source_name :: "artifact_source \<Rightarrow> string" where
  "source_name s = (case s of Bundle \<Rightarrow> ''bundle'' | Generated \<Rightarrow> ''generated'')"

definition provenance_value :: "artifact_provenance \<Rightarrow> jsval" where
  "provenance_value p =
     JObj ([(''source'', JStr (source_name (pv_source p)))] @ opt_field ''finalizationId'' (map_option JStr (pv_finalizationId p)) @
       opt_field ''bundleKey'' (map_option JStr (pv_bundleKey p)))"

definition authority_value :: "public_input_authority \<Rightarrow> jsval" where
  "authority_value a =
     JObj [(''electionId'', JStr (pa_electionId a)), (''electionConfigHash'', JStr (pa_electionConfigHash a)),
       (''methodVersion'', JNum (pa_methodVersion a)), (''bulletinRoot'', JStr (pa_bulletinRoot a)), (''treeSize'', JNum (pa_treeSize a)),
       (''totalExpected'', JNum (pa_totalExpected a)), (''votesCount'', JNum (pa_votesCount a)),
       (''uniqueIndices'', JBool (pa_uniqueIndices a)), (''uniqueCommitments'', JBool (pa_uniqueCommitments a)),
       (''logId'', JStr (pa_logId a)), (''timestamp'', JNum (pa_timestamp a)),
       (''recomputedInputCommitment'', JStr (pa_recomputedInputCommitment a))]"

definition stored_value :: "supported_artifact \<Rightarrow> jsval" where
  "stored_value s =
     JObj [(''format'', JObj [(''schema'', JStr PUBLIC_INPUT_SCHEMA), (''version'', JStr PUBLIC_INPUT_VERSION)]),
       (''provenance'', provenance_value (sa_provenance s)), (''typedAuthority'', authority_value (sa_typedAuthority s))]"

section \<open>Round trips\<close>

text \<open>The canonical authorities: what the parsers produce.\<close>

definition canonical_hash_ok :: "string \<Rightarrow> bool" where
  "canonical_hash_ok s \<longleftrightarrow> isPublicInputHash (Some s) \<and> canonical_hash s = s"

definition canonical_authority :: "public_input_authority \<Rightarrow> bool" where
  "canonical_authority a \<longleftrightarrow>
     pa_electionId a \<noteq> [] \<and>
     list_all canonical_hash_ok [pa_electionConfigHash a, pa_bulletinRoot a, pa_logId a, pa_recomputedInputCommitment a] \<and>
     list_all isInteger [pa_methodVersion a, pa_treeSize a, pa_totalExpected a, pa_votesCount a, pa_timestamp a]"

definition provenance_ok :: "artifact_provenance \<Rightarrow> bool" where
  "provenance_ok p \<longleftrightarrow> pv_finalizationId p \<noteq> Some [] \<and> pv_bundleKey p \<noteq> Some []"

lemma isInteger_isFinite [simp]: "isInteger n \<Longrightarrow> isFinite n"
  by (auto simp: isInteger_iff)

lemma authority_read_back: "canonical_authority a \<Longrightarrow> admitStoredPublicInputAuthority (authority_value a) = Some a"
  by (simp add: canonical_authority_def canonical_hash_ok_def admitStoredPublicInputAuthority_def admitStoredInputIdentity_def
      admitStoredInputSnapshot_def admitStoredInputVoteFacts_def authority_value_def get_eqs isPublicInputInteger_def
      Let_def)

lemma provenance_read_back:
  assumes "provenance_ok p"
  shows "source_of (getStringProperty (provenance_value p) ''source'') = Some (pv_source p)"
    "projectStoredPublicInputProvenance (provenance_value p) (pv_source p) = p"
    "admitStoredInputRecord (Some (provenance_value p)) PUBLIC_INPUT_PROVENANCE_KEYS = Some (provenance_value p)"
  using assms
  by (cases p; cases "pv_source p"; cases "pv_finalizationId p"; cases "pv_bundleKey p";
      simp add: provenance_value_def source_name_def opt_field_def get_eqs projectStoredPublicInputProvenance_def if_truthy_def
        provenance_ok_def admitStoredInputRecord_def unexpectedKeys_def PUBLIC_INPUT_PROVENANCE_KEYS_def)+

lemma stored_read_back:
  assumes "canonical_authority (sa_typedAuthority s)" "provenance_ok (sa_provenance s)"
  shows "parseStoredPublicInputArtifact (stored_value s) = Some s"
proof -
  have keys: "admitStoredInputRecord (Some (stored_value s)) STORED_PUBLIC_INPUT_KEYS = Some (stored_value s)"
    "admitStoredInputRecord (Some (authority_value a)) PUBLIC_INPUT_AUTHORITY_KEYS = Some (authority_value a)" for a
    by (simp_all add: admitStoredInputRecord_def stored_value_def authority_value_def unexpectedKeys_def STORED_PUBLIC_INPUT_KEYS_def
        PUBLIC_INPUT_AUTHORITY_KEYS_def)
  have obj: "isNonNullObject (provenance_value p)" "isNonNullObject (authority_value a)" for p a
    by (simp_all add: provenance_value_def authority_value_def)
  have get: "getObjectProperty (stored_value s) ''provenance'' = Some (provenance_value (sa_provenance s))"
    "getObjectProperty (stored_value s) ''typedAuthority'' = Some (authority_value (sa_typedAuthority s))"
    "getObjectProperty (stored_value s) ''format'' = Some (JObj [(''schema'', JStr PUBLIC_INPUT_SCHEMA), (''version'', JStr PUBLIC_INPUT_VERSION)])"
    by (simp_all add: getObjectProperty_def stored_value_def obj)
  have fmt: "admitStoredInputRecord (Some (JObj [(''schema'', JStr a), (''version'', JStr b)])) PUBLIC_INPUT_FORMAT_KEYS =
      Some (JObj [(''schema'', JStr a), (''version'', JStr b)])" for a b
    by (simp add: admitStoredInputRecord_def unexpectedKeys_def PUBLIC_INPUT_FORMAT_KEYS_def)
  show ?thesis
    using assms provenance_read_back [OF assms(2)] authority_read_back [OF assms(1)]
    by (simp add: parseStoredPublicInputArtifact_def keys get fmt hasCurrentPublicInputFormat_def get_eqs)
qed

lemma canonical_hash_idem:
  assumes "isPublicInputHash (Some s)"
  shows "canonical_hash_ok (canonical_hash s)"
proof -
  have v: "isValidHexString s (Some 32)" using assms by (simp add: isPublicInputHash_def)
  let ?n = "normalizeHexString s"
  have n: "canonical_hex ?n" "length ?n = 64" using isValidHexString_canonical [OF v] isValidHexString_length [OF v] by simp_all
  then have c: "canonical_hash s = ''0x'' @ ?n" by (simp add: canonical_hash_def addHexPrefix_def)
  have "normalizeHexString (''0x'' @ ?n) = ?n" using double_prefix(2) n(1) by simp
  then show ?thesis
    using n c by (simp add: canonical_hash_ok_def isPublicInputHash_def isValidHexString_def canonical_hex_def [symmetric])
      (simp add: canonical_hash_def addHexPrefix_def)
qed

lemma commitment_canonical:
  assumes "noble_ok N" "computeInputCommitmentFromPublicInput N i = Inr c"
  shows "canonical_hash_ok c"
proof -
  obtain p where p: "c = ''0x'' @ bytesToHex N (sha256 N p)"
    using assms(2) by (auto simp: computeInputCommitmentFromPublicInput_def asInputCommitment_def asHex32Identifier_def err_simps split: if_splits)
  let ?h = "bytesToHex N (sha256 N p)"
  have h: "canonical_hex ?h" "length ?h = 64"
    using lower_bytesToHex [OF assms(1)] length_bytesToHex [OF assms(1)] length_sha256 [OF assms(1)] by (simp_all add: canonical_hex_def)
  then have "isPublicInputHash (Some ?h)" using sample_valid by (fastforce simp: isPublicInputHash_def)
  from canonical_hash_idem [OF this] show ?thesis using h p by (simp add: canonical_hash_def addHexPrefix_def)
qed

lemma hash_present: "isPublicInputHash v \<Longrightarrow> canonical_hash_ok (canonical_hash (the v))"
  using canonical_hash_idem by (cases v) (simp_all add: isPublicInputHash_def)

lemma integer_present: "isPublicInputInteger v \<Longrightarrow> isInteger (the v)"
  by (cases v) (simp_all add: isPublicInputInteger_def)

lemma truthy_present: "truthy v \<Longrightarrow> the v \<noteq> []"
  by (cases v) simp_all

lemma accepted_canonical:
  assumes "noble_ok N" "well_formed_artifact N raw vs c"
  shows "canonical_authority (authority_of raw vs c)"
proof -
  have h: "has_scalars raw" and c: "canonical_hash_ok c"
    using assms(2) commitment_canonical [OF assms(1)] by (auto simp: well_formed_artifact_def)
  then show ?thesis
    by (simp add: canonical_authority_def authority_of_def has_scalars_def hash_present integer_present truthy_present)
qed

text \<open>A stored public input is read back unchanged.  Whatever an accepted artefact was parsed into, with a
  provenance whose identifiers are not empty, is the value that reading its stored form gives.\<close>

theorem stored_public_input_round_trip:
  assumes "noble_ok N" "parseSupportedPublicInputArtifact N raw p = Some s" "provenance_ok p"
  shows "parseStoredPublicInputArtifact (stored_value s) = Some s"
proof (rule stored_read_back)
  obtain vs c where w: "well_formed_artifact N raw vs c" "s = \<lparr>sa_provenance = p, sa_typedAuthority = authority_of raw vs c\<rparr>"
    using assms(2) parse_supported_iff by metis
  then show "canonical_authority (sa_typedAuthority s)" "provenance_ok (sa_provenance s)"
    using accepted_canonical [OF assms(1) w(1)] assms(3) by simp_all
qed

section \<open>Generated artefacts\<close>

text \<open>The inputs of the prover whose public part is well formed.\<close>

definition publishable :: "noble \<Rightarrow> zkvm_input \<Rightarrow> bool" where
  "publishable N inp \<longleftrightarrow>
     zi_electionId inp \<noteq> [] \<and> list_all (\<lambda>h. isPublicInputHash (Some h)) [zi_electionConfigHash inp, zi_bulletinRoot inp, zi_logId inp] \<and>
     isInteger (zi_timestamp inp) \<and>
     list_all (\<lambda>v. isInteger (cv_index v) \<and> num_le (js_int 0) (cv_index v) \<and> isPublicInputHash (Some (cv_commitment v)) \<and>
       list_all (\<lambda>n. isValidHexString n (Some 32)) (cv_merklePath v)) (zi_votes inp)"

definition public_votes :: "zkvm_input \<Rightarrow> commitment_vote list" where
  "public_votes inp = map commitment_vote.truncate (zi_votes inp)"

definition public_commitment_input :: "zkvm_input \<Rightarrow> commitment_input" where
  "public_commitment_input inp =
     \<lparr>ci_electionId = zi_electionId inp, ci_bulletinRoot = canonical_hash (zi_bulletinRoot inp), ci_treeSize = zi_treeSize inp,
      ci_totalExpected = zi_totalExpected inp, ci_votes = public_votes inp\<rparr>"

lemma vote_decodes:
  fixes v :: zkvm_input_vote
  assumes "isInteger (cv_index v)" "num_le (js_int 0) (cv_index v)" "isPublicInputHash (Some (cv_commitment v))"
    "list_all (\<lambda>n. isValidHexString n (Some 32)) (cv_merklePath v)"
  shows "decodes_to (JObj [(''index'', JNum (cv_index v)), (''commitment'', JStr (cv_commitment v)),
     (''merklePath'', JArr (map JStr (cv_merklePath v)))]) (commitment_vote.truncate v)"
proof -
  obtain i where i: "cv_index v = js_int i" "0 \<le> i" using assms(1,2) by (auto simp: isInteger_iff)
  show ?thesis
    using assms(3,4) i
    by (simp add: decodes_to_def admitPublicInputVote_def admitPublicInputVotePath_def unexpectedKeys_def PUBLIC_INPUT_VOTE_KEYS_def
        get_eqs comp_def isPublicInputHash_def commitment_vote.truncate_def Let_def)
qed

lemma built_well_formed:
  assumes "publishable N inp" "isInteger methodVersion" "computeInputCommitmentFromPublicInput N (public_commitment_input inp) = Inr c"
  shows "well_formed_artifact N (buildPublicInputArtifactFromZkvmInput inp methodVersion) (public_votes inp) c"
proof -
  let ?raw = "buildPublicInputArtifactFromZkvmInput inp methodVersion"
  have ints: "isInteger (zi_treeSize inp)" "isInteger (zi_totalExpected inp)"
    using assms(3) by (auto simp: computeInputCommitmentFromPublicInput_def encodeInputCommitmentPreimage_def validateInputCommitmentPublicFields_def
        public_commitment_input_def err_simps unsigned_Inr split: if_splits)
  have s: "getStringProperty ?raw ''electionId'' = Some (zi_electionId inp)" "getStringProperty ?raw ''electionConfigHash'' = Some (zi_electionConfigHash inp)"
    "getStringProperty ?raw ''bulletinRoot'' = Some (zi_bulletinRoot inp)" "getStringProperty ?raw ''logId'' = Some (zi_logId inp)"
    "getStringProperty ?raw ''schema'' = Some PUBLIC_INPUT_SCHEMA" "getStringProperty ?raw ''version'' = Some PUBLIC_INPUT_VERSION"
    "unexpectedKeys ?raw PUBLIC_INPUT_KEYS = []" "isNonNullObject ?raw"
    by (simp_all add: buildPublicInputArtifactFromZkvmInput_def get_eqs unexpectedKeys_def PUBLIC_INPUT_KEYS_def)
  have n: "getNumberProperty ?raw ''treeSize'' = Some (zi_treeSize inp)" "getNumberProperty ?raw ''totalExpected'' = Some (zi_totalExpected inp)"
    "getNumberProperty ?raw ''timestamp'' = Some (zi_timestamp inp)" "getNumberProperty ?raw ''methodVersion'' = Some methodVersion"
    using ints assms(1,2) by (simp_all add: buildPublicInputArtifactFromZkvmInput_def get_eqs publishable_def)
  have v: "list_all2 decodes_to (map (\<lambda>v. JObj [(''index'', JNum (cv_index v)), (''commitment'', JStr (cv_commitment v)),
       (''merklePath'', JArr (map JStr (cv_merklePath v)))]) (zi_votes inp)) (public_votes inp)"
    using assms(1) vote_decodes by (auto simp: public_votes_def list_all2_conv_all_nth publishable_def list_all_length)
  have a: "getArrayProperty ?raw ''votes'' = Some (map (\<lambda>v. JObj [(''index'', JNum (cv_index v)), (''commitment'', JStr (cv_commitment v)),
       (''merklePath'', JArr (map JStr (cv_merklePath v)))]) (zi_votes inp))"
    by (simp add: buildPublicInputArtifactFromZkvmInput_def get_eqs)
  have "has_scalars ?raw" using assms(1,2) s n ints by (simp add: has_scalars_def publishable_def isPublicInputInteger_def)
  then show ?thesis
    using s n v a assms(3) by (simp add: well_formed_artifact_def commitment_input_of_def public_commitment_input_def)
qed

text \<open>C24: a generated public input is accepted.  For every input of the prover whose public part is well formed
  and has an input commitment, the builder returns the artefact instead of throwing; its authority carries
  that commitment, the number of votes and the canonical hashes, and no choice or random value of a vote.\<close>

theorem generated_public_input_accepted:
  assumes "publishable N inp" "isInteger methodVersion" "computeInputCommitmentFromPublicInput N (public_commitment_input inp) = Inr c"
  shows "buildSupportedPublicInputArtifactFromZkvmInput N inp methodVersion finalizationId bundleKey = Inr
    \<lparr>sa_provenance = \<lparr>pv_source = Generated, pv_finalizationId = finalizationId, pv_bundleKey = bundleKey\<rparr>,
     sa_typedAuthority =
       \<lparr>pa_electionId = zi_electionId inp, pa_electionConfigHash = canonical_hash (zi_electionConfigHash inp), pa_methodVersion = methodVersion,
        pa_bulletinRoot = canonical_hash (zi_bulletinRoot inp), pa_treeSize = zi_treeSize inp, pa_totalExpected = zi_totalExpected inp,
        pa_votesCount = js_int (int (length (zi_votes inp))), pa_uniqueIndices = distinct (map cv_index (zi_votes inp)),
        pa_uniqueCommitments = distinct (map (normalizeHexString \<circ> cv_commitment) (zi_votes inp)),
        pa_logId = canonical_hash (zi_logId inp), pa_timestamp = zi_timestamp inp, pa_recomputedInputCommitment = c\<rparr>\<rparr>"
proof -
  let ?raw = "buildPublicInputArtifactFromZkvmInput inp methodVersion"
  note w = built_well_formed [OF assms]
  have "isInteger (zi_treeSize inp)" "isInteger (zi_totalExpected inp)" "isInteger (zi_timestamp inp)"
    using assms(1,3) by (auto simp: publishable_def computeInputCommitmentFromPublicInput_def encodeInputCommitmentPreimage_def
        validateInputCommitmentPublicFields_def public_commitment_input_def err_simps unsigned_Inr split: if_splits)
  then have "authority_of ?raw (public_votes inp) c =
      \<lparr>pa_electionId = zi_electionId inp, pa_electionConfigHash = canonical_hash (zi_electionConfigHash inp), pa_methodVersion = methodVersion,
        pa_bulletinRoot = canonical_hash (zi_bulletinRoot inp), pa_treeSize = zi_treeSize inp, pa_totalExpected = zi_totalExpected inp,
        pa_votesCount = js_int (int (length (zi_votes inp))), pa_uniqueIndices = distinct (map cv_index (zi_votes inp)),
        pa_uniqueCommitments = distinct (map (normalizeHexString \<circ> cv_commitment) (zi_votes inp)),
        pa_logId = canonical_hash (zi_logId inp), pa_timestamp = zi_timestamp inp, pa_recomputedInputCommitment = c\<rparr>"
    using assms(2)
    by (simp add: authority_of_def buildPublicInputArtifactFromZkvmInput_def get_eqs public_votes_def comp_def commitment_vote.truncate_def)
  then show ?thesis
    using parse_accepts [OF w]
    by (simp add: buildSupportedPublicInputArtifactFromZkvmInput_def toSupportedPublicInputArtifact_def Let_def)
qed

definition demo_zkvm_input :: zkvm_input where
  "demo_zkvm_input =
     \<lparr>zi_electionId = demo_election, zi_electionConfigHash = leaf_a, zi_bulletinRoot = demo_hash, zi_treeSize = ci_treeSize demo_input,
      zi_totalExpected = ci_totalExpected demo_input, zi_logId = leaf_b, zi_timestamp = js_int 5,
      zi_votes = map (\<lambda>v. commitment_vote.extend v (zkvm_input_vote.fields 0 [])) (ci_votes demo_input)\<rparr>"

lemma demo_hash_ok: "isPublicInputHash (Some demo_hash)" "isPublicInputHash (Some leaf_a)" "isPublicInputHash (Some leaf_b)"
  "canonical_hash demo_hash = demo_hash" "isValidHexString demo_hash (Some 32)" "demo_election \<noteq> []"
proof -
  show l: "isPublicInputHash (Some leaf_a)" "isPublicInputHash (Some leaf_b)"
    using sample_valid sample_leaves by (auto simp: isPublicInputHash_def)
  have "leaf_a \<noteq> []" by (simp add: leaf_a_def)
  then have "canonical_hash leaf_a = ''0x'' @ leaf_a" by (simp add: canonical_hash_def addHexPrefix_def)
  then have "canonical_hash leaf_a = demo_hash" by (simp add: demo_hash_def leaf_a_def)
  then have "canonical_hash_ok demo_hash" using canonical_hash_idem [OF l(1)] by simp
  then show "isPublicInputHash (Some demo_hash)" "canonical_hash demo_hash = demo_hash" "isValidHexString demo_hash (Some 32)"
    by (simp_all add: canonical_hash_ok_def isPublicInputHash_def)
  show "demo_election \<noteq> []" by (simp add: demo_election_def)
qed

lemma demo_publishable:
  "publishable demo_noble demo_zkvm_input" "public_commitment_input demo_zkvm_input = demo_input"
  using demo_hash_ok
  by (simp_all add: publishable_def demo_zkvm_input_def demo_input_def demo_vote_def public_commitment_input_def public_votes_def
      commitment_vote.defs)

theorem generated_public_input_accepted_witness:
  "\<exists>c. computeInputCommitmentFromPublicInput demo_noble demo_input = Inr c \<and>
    buildSupportedPublicInputArtifactFromZkvmInput demo_noble demo_zkvm_input (js_int 14) (Some ''f'') None = Inr
    \<lparr>sa_provenance = \<lparr>pv_source = Generated, pv_finalizationId = Some ''f'', pv_bundleKey = None\<rparr>,
     sa_typedAuthority =
       \<lparr>pa_electionId = demo_election, pa_electionConfigHash = canonical_hash leaf_a, pa_methodVersion = js_int 14,
        pa_bulletinRoot = canonical_hash demo_hash, pa_treeSize = js_int 2, pa_totalExpected = js_int 2,
        pa_votesCount = js_int 2, pa_uniqueIndices = True, pa_uniqueCommitments = False,
        pa_logId = canonical_hash leaf_b, pa_timestamp = js_int 5, pa_recomputedInputCommitment = c\<rparr>\<rparr>"
proof -
  obtain c where c: "computeInputCommitmentFromPublicInput demo_noble demo_input = Inr c" using demo_input_commits by blast
  then show ?thesis
    using generated_public_input_accepted [of demo_noble demo_zkvm_input "js_int 14" c "Some ''f''" None] demo_publishable
    by (simp add: demo_zkvm_input_def demo_input_def demo_vote_def commitment_vote.defs)
qed

theorem stored_public_input_round_trip_witness:
  "\<exists>s. parseSupportedPublicInputArtifact demo_noble (buildPublicInputArtifactFromZkvmInput demo_zkvm_input (js_int 14))
      \<lparr>pv_source = Bundle, pv_finalizationId = None, pv_bundleKey = Some ''k''\<rparr> = Some s \<and>
    parseStoredPublicInputArtifact (stored_value s) = Some s"
proof -
  let ?p = "\<lparr>pv_source = Bundle, pv_finalizationId = None, pv_bundleKey = Some ''k''\<rparr>"
  obtain c where c: "computeInputCommitmentFromPublicInput demo_noble demo_input = Inr c" using demo_input_commits by blast
  have "well_formed_artifact demo_noble (buildPublicInputArtifactFromZkvmInput demo_zkvm_input (js_int 14)) (public_votes demo_zkvm_input) c"
    by (rule built_well_formed) (use c demo_publishable in simp_all)
  then obtain s where s: "parseSupportedPublicInputArtifact demo_noble (buildPublicInputArtifactFromZkvmInput demo_zkvm_input (js_int 14)) ?p = Some s"
    using parse_supported_iff by blast
  with stored_public_input_round_trip [OF demo_noble_ok s] show ?thesis by (auto simp: provenance_ok_def)
qed

end
