(* ===== verification/Schema.thy ===== *)
theory Schema
  imports Guards
begin

text \<open>
  The schema library of the boundary code (packages/validation/src/schema.ts): schemas as data, one constructor
  per class, and \<open>parseInternal\<close> with the issues it reports.  A regular expression is the set of strings it
  accepts; the callbacks of refinements and transformations are functions on values.
\<close>

section \<open>Schemas\<close>

datatype path_item = Key string | Index nat

type_synonym js_path = "path_item list"

record schema_issue =
  issue_path :: js_path
  issue_message :: string

datatype string_constraint = MinLength nat | MaxLength nat | Pattern "string \<Rightarrow> bool" | UuidFormat
datatype number_constraint = IntegerRule | Minimum jsnum bool | Maximum jsnum bool
datatype array_constraint = MinItems nat | MaxItems nat | ExactLength nat
datatype unknown_key_policy = Strip | Strict | Passthrough

text \<open>A rule is a constraint with its message.\<close>

datatype schema =
    NeverSchema
  | StringSchema "(string_constraint \<times> string) list" "string option"
  | NumberSchema "(number_constraint \<times> string) list"
  | BooleanSchema
  | UnknownSchema
  | UndefinedSchema
  | LiteralSchema jsval string
  | EnumSchema "string list" string
  | OptionalSchema schema
  | NullableSchema schema
  | RefinementSchema schema "jsval \<Rightarrow> js_path \<Rightarrow> schema_issue list"
  | TransformSchema schema "jsval \<Rightarrow> jsval"
  | ArraySchema schema "(array_constraint \<times> string) list"
  | TupleSchema "schema list" string
  | ObjectSchema "(string \<times> schema) list" unknown_key_policy schema
  | UnionSchema "schema list"

text \<open>\<open>LiteralSchema\<close>, \<open>EnumSchema\<close> and \<open>TupleSchema\<close> carry the message the source prints from their parameters.\<close>

definition schema_UUID_PATTERN :: "(char \<Rightarrow> bool) list" where
  "schema_UUID_PATTERN =
     replicate 8 is_hex_char @ [is_dash] @ replicate 4 is_hex_char @ [is_dash] @
     [\<lambda>c. c \<in> set ''12345''] @ replicate 3 is_hex_char @ [is_dash] @
     [\<lambda>c. c \<in> set ''89AaBb''] @ replicate 3 is_hex_char @ [is_dash] @ replicate 12 is_hex_char"

definition fail_at :: "string \<Rightarrow> js_path \<Rightarrow> schema_issue list + 'a" where
  "fail_at message p = Inl [\<lparr>issue_path = p, issue_message = message\<rparr>]"

text \<open>A result that collected issues on its way.\<close>

definition settle :: "schema_issue list \<Rightarrow> 'a \<Rightarrow> schema_issue list + 'a" where
  "settle issues v = (if issues = [] then Inr v else Inl issues)"

definition collectRuleIssues ::
  "'v \<Rightarrow> ('r \<times> string) list \<Rightarrow> ('v \<Rightarrow> 'r \<Rightarrow> bool) \<Rightarrow> js_path \<Rightarrow> schema_issue list" where
  "collectRuleIssues v rules matches_rule p =
     map (\<lambda>(r, m). \<lparr>issue_path = p, issue_message = m\<rparr>) (filter (\<lambda>(r, m). \<not> matches_rule v r) rules)"

fun matchesStringRule :: "string \<Rightarrow> string_constraint \<Rightarrow> bool" where
  "matchesStringRule v (MinLength n) = (n \<le> length v)"
| "matchesStringRule v (MaxLength n) = (length v \<le> n)"
| "matchesStringRule v (Pattern P) = P v"
| "matchesStringRule v UuidFormat = matches schema_UUID_PATTERN v"

fun matchesNumberRule :: "jsnum \<Rightarrow> number_constraint \<Rightarrow> bool" where
  "matchesNumberRule v IntegerRule = isInteger v"
| "matchesNumberRule v (Minimum m exclusive) = (if exclusive then num_lt m v else num_le m v)"
| "matchesNumberRule v (Maximum m exclusive) = (if exclusive then num_lt v m else num_le v m)"

fun matchesArrayRule :: "'a list \<Rightarrow> array_constraint \<Rightarrow> bool" where
  "matchesArrayRule v (MinItems n) = (n \<le> length v)"
| "matchesArrayRule v (MaxItems n) = (length v \<le> n)"
| "matchesArrayRule v (ExactLength n) = (length v = n)"

text \<open>\<^verbatim>\<open>===\<close> between a value and a primitive.\<close>

fun strict_eq :: "jsval \<Rightarrow> jsval \<Rightarrow> bool" where
  "strict_eq (JNum a) (JNum b) = num_eq a b"
| "strict_eq (JStr a) (JStr b) = (a = b)"
| "strict_eq (JBool a) (JBool b) = (a = b)"
| "strict_eq JNull JNull = True"
| "strict_eq JUndef JUndef = True"
| "strict_eq _ _ = False"

fun isPlainRecord :: "jsval \<Rightarrow> bool" where
  "isPlainRecord (JObj fs) = True"
| "isPlainRecord _ = False"

fun is_never :: "schema \<Rightarrow> bool" where
  "is_never NeverSchema = True"
| "is_never _ = False"

section \<open>Parsing\<close>

text \<open>The schemas without components, one definition per class.\<close>

definition parse_string :: "(string_constraint \<times> string) list \<Rightarrow> string option \<Rightarrow> jsval \<Rightarrow> js_path \<Rightarrow> schema_issue list + jsval" where
  "parse_string rules requiredError v p =
     (case v of
        JUndef \<Rightarrow> fail_at (case requiredError of Some m \<Rightarrow> m | None \<Rightarrow> ''Expected string'') p
      | JStr t \<Rightarrow> settle (collectRuleIssues t rules matchesStringRule p) v
      | _ \<Rightarrow> fail_at ''Expected string'' p)"

definition parse_number :: "(number_constraint \<times> string) list \<Rightarrow> jsval \<Rightarrow> js_path \<Rightarrow> schema_issue list + jsval" where
  "parse_number rules v p =
     (case v of
        JNum n \<Rightarrow> if \<not> isFinite n then fail_at ''Expected number'' p
                  else settle (collectRuleIssues n rules matchesNumberRule p) v
      | _ \<Rightarrow> fail_at ''Expected number'' p)"

definition parse_boolean :: "jsval \<Rightarrow> js_path \<Rightarrow> schema_issue list + jsval" where
  "parse_boolean v p = (case v of JBool b \<Rightarrow> Inr v | _ \<Rightarrow> fail_at ''Expected boolean'' p)"

definition parse_literal :: "jsval \<Rightarrow> string \<Rightarrow> jsval \<Rightarrow> js_path \<Rightarrow> schema_issue list + jsval" where
  "parse_literal l message v p = (if strict_eq v l then Inr l else fail_at message p)"

definition parse_enum :: "string list \<Rightarrow> string \<Rightarrow> jsval \<Rightarrow> js_path \<Rightarrow> schema_issue list + jsval" where
  "parse_enum values message v p =
     (case v of JStr t \<Rightarrow> if t \<in> set values then Inr v else fail_at message p | _ \<Rightarrow> fail_at message p)"

lemmas leaf_defs = parse_string_def parse_number_def parse_boolean_def parse_literal_def parse_enum_def

text \<open>
  The loops over items, properties and options are the functions that follow \<open>parseInternal\<close>: the items of an
  array and of a tuple, the known and the unknown properties of an object (issues and output entries), and
  the options of a union, which returns the first success or all failures.
\<close>

function (sequential) parseInternal :: "schema \<Rightarrow> jsval \<Rightarrow> js_path \<Rightarrow> schema_issue list + jsval"
  and parse_items :: "schema \<Rightarrow> jsval list \<Rightarrow> js_path \<Rightarrow> nat \<Rightarrow> schema_issue list \<times> jsval list"
  and parse_tuple :: "schema list \<Rightarrow> jsval list \<Rightarrow> js_path \<Rightarrow> nat \<Rightarrow> schema_issue list \<times> jsval list"
  and parseKnownProperties :: "(string \<times> schema) list \<Rightarrow> jsval \<Rightarrow> js_path \<Rightarrow> schema_issue list \<times> (string \<times> jsval) list"
  and parseUnknownProperties :: "(string \<times> jsval) list \<Rightarrow> string list \<Rightarrow> unknown_key_policy \<Rightarrow> schema \<Rightarrow> js_path \<Rightarrow>
    schema_issue list \<times> (string \<times> jsval) list"
  and parse_options :: "schema list \<Rightarrow> jsval \<Rightarrow> js_path \<Rightarrow> schema_issue list + jsval"
where
  "parseInternal NeverSchema v p = fail_at ''Expected never'' p"
| "parseInternal (StringSchema rules requiredError) v p = parse_string rules requiredError v p"
| "parseInternal (NumberSchema rules) v p = parse_number rules v p"
| "parseInternal BooleanSchema v p = parse_boolean v p"
| "parseInternal UnknownSchema v p = Inr v"
| "parseInternal UndefinedSchema v p = (if v = JUndef then Inr JUndef else fail_at ''Expected undefined'' p)"
| "parseInternal (LiteralSchema l message) v p = parse_literal l message v p"
| "parseInternal (EnumSchema values message) v p = parse_enum values message v p"
| "parseInternal (OptionalSchema inner) v p = (if v = JUndef then Inr JUndef else parseInternal inner v p)"
| "parseInternal (NullableSchema inner) v p = (if v = JNull then Inr JNull else parseInternal inner v p)"
| "parseInternal (RefinementSchema inner refine) v p =
     (case parseInternal inner v p of Inl e \<Rightarrow> Inl e | Inr w \<Rightarrow> settle (refine w p) w)"
| "parseInternal (TransformSchema inner f) v p =
     (case parseInternal inner v p of Inl e \<Rightarrow> Inl e | Inr w \<Rightarrow> Inr (f w))"
| "parseInternal (ArraySchema item rules) v p =
     (case v of
        JArr xs \<Rightarrow>
          (case parse_items item xs p 0 of
             (issues, parsed) \<Rightarrow> settle (collectRuleIssues xs rules matchesArrayRule p @ issues) (JArr parsed))
      | _ \<Rightarrow> fail_at ''Expected array'' p)"
| "parseInternal (TupleSchema items message) v p =
     (case v of
        JArr xs \<Rightarrow>
          if length xs \<noteq> length items then fail_at message p
          else (case parse_tuple items xs p 0 of (issues, parsed) \<Rightarrow> settle issues (JArr parsed))
      | _ \<Rightarrow> fail_at ''Expected tuple'' p)"
| "parseInternal (ObjectSchema shape unknownKeys catchall) v p =
     (case v of
        JObj fs \<Rightarrow>
          (case parseKnownProperties shape v p of
             (issues1, out1) \<Rightarrow>
               (case parseUnknownProperties fs (map fst shape) unknownKeys catchall p of
                  (issues2, out2) \<Rightarrow> settle (issues1 @ issues2) (JObj (out1 @ out2))))
      | _ \<Rightarrow> fail_at ''Expected object'' p)"
| "parseInternal (UnionSchema options) v p =
     (case parse_options options v p of
        Inr w \<Rightarrow> Inr w
      | Inl issues \<Rightarrow> if issues \<noteq> [] then Inl issues else fail_at ''Invalid union'' p)"
| "parse_items item [] p i = ([], [])"
| "parse_items item (x # xs) p i =
     (case parse_items item xs p (Suc i) of
        (issues, parsed) \<Rightarrow>
          (case parseInternal item x (p @ [Index i]) of Inr y \<Rightarrow> (issues, y # parsed) | Inl e \<Rightarrow> (e @ issues, parsed)))"
| "parse_tuple [] xs p i = ([], [])"
| "parse_tuple (s # ss) xs p i =
     (case parse_tuple ss (tl xs) p (Suc i) of
        (issues, parsed) \<Rightarrow>
          (case parseInternal s (case xs of [] \<Rightarrow> JUndef | x # _ \<Rightarrow> x) (p @ [Index i]) of
             Inr y \<Rightarrow> (issues, y # parsed) | Inl e \<Rightarrow> (e @ issues, parsed)))"
| "parseKnownProperties [] v p = ([], [])"
| "parseKnownProperties ((k, s) # shape) v p =
     (case parseKnownProperties shape v p of
        (issues, out) \<Rightarrow>
          (case parseInternal s (js_get v k) (p @ [Key k]) of
             Inr w \<Rightarrow> (issues, (if w \<noteq> JUndef \<or> hasOwn v k then [(k, w)] else []) @ out)
           | Inl e \<Rightarrow> (e @ issues, out)))"
| "parseUnknownProperties [] known policy catchall p = ([], [])"
| "parseUnknownProperties ((k, x) # fs) known policy catchall p =
     (case parseUnknownProperties fs known policy catchall p of
        (issues, out) \<Rightarrow>
          if k \<in> set known then (issues, out)
          else if \<not> is_never catchall
          then (case parseInternal catchall x (p @ [Key k]) of Inr w \<Rightarrow> (issues, (k, w) # out) | Inl e \<Rightarrow> (e @ issues, out))
          else (case policy of
                  Strict \<Rightarrow> (\<lparr>issue_path = p @ [Key k], issue_message = ''Unrecognized key''\<rparr> # issues, out)
                | Passthrough \<Rightarrow> (issues, (k, x) # out)
                | Strip \<Rightarrow> (issues, out)))"
| "parse_options [] v p = Inl []"
| "parse_options (s # ss) v p =
     (case parseInternal s v p of
        Inr w \<Rightarrow> Inr w
      | Inl e \<Rightarrow> (case parse_options ss v p of Inr w \<Rightarrow> Inr w | Inl es \<Rightarrow> Inl (e @ es)))"
  by pat_completeness auto

termination
  by (relation "inv_image (less_than <*lex*> less_than)
       (\<lambda>x. case x of
              Inl (Inl (s, v, p)) \<Rightarrow> (size s, 0)
            | Inl (Inr (Inl (s, xs, p, i))) \<Rightarrow> (size s, Suc (length xs))
            | Inl (Inr (Inr (ss, xs, p, i))) \<Rightarrow> (size_list size ss, 0)
            | Inr (Inl (shape, v, p)) \<Rightarrow> (size_list (size_prod (\<lambda>_. 0) size) shape, 0)
            | Inr (Inr (Inl (fs, known, policy, s, p))) \<Rightarrow> (size s, Suc (length fs))
            | Inr (Inr (Inr (ss, v, p))) \<Rightarrow> (size_list size ss, 0))")
    auto

definition safeParse :: "schema \<Rightarrow> jsval \<Rightarrow> schema_issue list + jsval" where
  "safeParse s v = parseInternal s v []"

section \<open>Failures name an issue\<close>

lemma settle_simps [simp]:
  "settle is v = Inr w \<longleftrightarrow> is = [] \<and> w = v" "settle is v = Inl e \<longleftrightarrow> is \<noteq> [] \<and> e = is"
  by (auto simp: settle_def)

lemma fail_at_simps [simp]: "fail_at m p \<noteq> Inr w" "fail_at m p = Inl e \<longleftrightarrow> e = [\<lparr>issue_path = p, issue_message = m\<rparr>]"
  by (auto simp: fail_at_def)

lemma failure_has_issue: "parseInternal s v p = Inl e \<Longrightarrow> e \<noteq> []"
  by (induction s arbitrary: v p e)
    (auto simp: leaf_defs split: jsval.splits option.splits if_splits sum.splits prod.splits)

lemma failure_not_empty [simp]: "parseInternal s v p \<noteq> Inl []"
  using failure_has_issue by blast

section \<open>Parsed values parse to themselves\<close>

text \<open>Schemas without unions and transformations whose objects list every property once.\<close>

fun plain_schema :: "schema \<Rightarrow> bool" where
  "plain_schema (OptionalSchema s) = plain_schema s"
| "plain_schema (NullableSchema s) = plain_schema s"
| "plain_schema (RefinementSchema s r) = plain_schema s"
| "plain_schema (TransformSchema s f) = False"
| "plain_schema (ArraySchema s rules) = plain_schema s"
| "plain_schema (TupleSchema ss m) = list_all plain_schema ss"
| "plain_schema (ObjectSchema shape policy catchall) =
     (distinct (map fst shape) \<and> list_all (\<lambda>(k, s). plain_schema s) shape \<and> plain_schema catchall)"
| "plain_schema (UnionSchema ss) = False"
| "plain_schema _ = True"

lemma strict_eq_refl: "strict_eq v l \<Longrightarrow> strict_eq l l"
  by (cases v; cases l; auto dest: num_eqD)

lemma array_rules_length:
  "length xs = length ys \<Longrightarrow> collectRuleIssues xs rules matchesArrayRule p = collectRuleIssues ys rules matchesArrayRule p"
proof -
  assume "length xs = length ys"
  then have "matchesArrayRule xs r = matchesArrayRule ys r" for r by (cases r) auto
  then show ?thesis by (simp add: collectRuleIssues_def)
qed

text \<open>The value that reading the output under a key gives.\<close>

definition reads_as :: "jsval \<Rightarrow> string list \<Rightarrow> (string \<times> jsval) list \<Rightarrow> bool" where
  "reads_as v ks out \<longleftrightarrow>
     (\<forall>k \<in> set ks. js_get v k = (case map_of out k of Some w \<Rightarrow> w | None \<Rightarrow> JUndef) \<and> hasOwn v k = (k \<in> fst ` set out))"

lemma known_keys: "parseKnownProperties shape v p = (issues, out) \<Longrightarrow> (k, w) \<in> set out \<Longrightarrow> k \<in> fst ` set shape"
  by (induction shape arbitrary: issues out) (fastforce split: prod.splits sum.splits if_splits)+

lemma unknown_keys: "parseUnknownProperties fs ks policy catchall p = (issues, out) \<Longrightarrow> (k, w) \<in> set out \<Longrightarrow> k \<notin> set ks"
  by (induction fs arbitrary: issues out) (auto split: prod.splits sum.splits if_splits unknown_key_policy.splits)

lemma unknown_skips:
  "fst ` set a \<subseteq> set ks \<Longrightarrow> parseUnknownProperties (a @ b) ks policy catchall p = parseUnknownProperties b ks policy catchall p"
proof (induction a)
  case (Cons x a) then show ?case by (cases x) (auto split: prod.splits)
qed simp

lemma object_reads:
  assumes "parseUnknownProperties fs (map fst shape) policy catchall p = ([], out2)"
  shows "reads_as (JObj (out1 @ out2)) (map fst shape) out1"
  unfolding reads_as_def
proof
  fix k assume k: "k \<in> set (map fst shape)"
  then have n: "k \<notin> fst ` set out2" using unknown_keys [OF assms] by fastforce
  then have "map_of out2 k = None" by (simp add: map_of_eq_None_iff)
  then have "map_of (out1 @ out2) k = map_of out1 k" by (simp add: map_add_def split: option.splits)
  then show "js_get (JObj (out1 @ out2)) k = (case map_of out1 k of Some w \<Rightarrow> w | None \<Rightarrow> JUndef) \<and>
      hasOwn (JObj (out1 @ out2)) k = (k \<in> fst ` set out1)"
    using n by (auto simp: hasOwn_def)
qed

lemma reads_cons:
  assumes "reads_as v' (k # ks) ((if b then [(k, w)] else []) @ out)" "k \<notin> set ks" "k \<notin> fst ` set out" "\<not> b \<Longrightarrow> w = JUndef"
  shows "js_get v' k = w" "hasOwn v' k = b" "reads_as v' ks out"
proof -
  have "map_of out k = None" using assms(3) by (simp add: map_of_eq_None_iff)
  then show "js_get v' k = w" "hasOwn v' k = b" "reads_as v' ks out"
    using assms by (auto simp: reads_as_def split: if_splits)
qed

text \<open>A schema whose results parse to themselves, and what the loops inherit from it.\<close>

definition stable :: "schema \<Rightarrow> bool" where
  "stable s \<longleftrightarrow> (\<forall>v p w. parseInternal s v p = Inr w \<longrightarrow> parseInternal s w p = Inr w)"

lemma parse_items_Cons:
  "parse_items s (x # xs) p i = ([], ys) \<longleftrightarrow>
     (\<exists>y zs. parseInternal s x (p @ [Index i]) = Inr y \<and> parse_items s xs p (Suc i) = ([], zs) \<and> ys = y # zs)"
  by (cases "parse_items s xs p (Suc i)"; cases "parseInternal s x (p @ [Index i])") auto

lemma parse_tuple_Cons:
  "parse_tuple (s # ss) xs p i = ([], ys) \<longleftrightarrow>
     (\<exists>y zs. parseInternal s (case xs of [] \<Rightarrow> JUndef | x # _ \<Rightarrow> x) (p @ [Index i]) = Inr y \<and>
             parse_tuple ss (tl xs) p (Suc i) = ([], zs) \<and> ys = y # zs)"
  by (cases "parse_tuple ss (tl xs) p (Suc i)";
      cases "parseInternal s (case xs of [] \<Rightarrow> JUndef | x # _ \<Rightarrow> x) (p @ [Index i])") auto

lemma parseKnownProperties_Cons:
  "parseKnownProperties ((k, s) # shape) v p = ([], out) \<longleftrightarrow>
     (\<exists>w zs. parseInternal s (js_get v k) (p @ [Key k]) = Inr w \<and> parseKnownProperties shape v p = ([], zs) \<and>
             out = (if w \<noteq> JUndef \<or> hasOwn v k then [(k, w)] else []) @ zs)"
  by (cases "parseKnownProperties shape v p"; cases "parseInternal s (js_get v k) (p @ [Key k])") auto

lemma parseUnknownProperties_Cons:
  "parseUnknownProperties ((k, x) # fs) known policy s p = ([], out) \<longleftrightarrow>
     (\<exists>zs. parseUnknownProperties fs known policy s p = ([], zs) \<and>
        (if k \<in> set known then out = zs
         else if \<not> is_never s then \<exists>w. parseInternal s x (p @ [Key k]) = Inr w \<and> out = (k, w) # zs
         else policy \<noteq> Strict \<and> out = (if policy = Passthrough then (k, x) # zs else zs)))"
  by (cases "parseUnknownProperties fs known policy s p"; cases "parseInternal s x (p @ [Key k])"; cases policy) auto

lemmas parse_Cons = parse_items_Cons parse_tuple_Cons parseKnownProperties_Cons parseUnknownProperties_Cons

lemma items_again:
  "stable s \<Longrightarrow> parse_items s xs p i = ([], ys) \<Longrightarrow> parse_items s ys p i = ([], ys) \<and> length ys = length xs"
proof (induction xs arbitrary: ys i)
  case (Cons x xs)
  from Cons.prems(2) obtain y zs where "parseInternal s x (p @ [Index i]) = Inr y" "parse_items s xs p (Suc i) = ([], zs)" "ys = y # zs"
    unfolding parse_Cons by blast
  with Cons.IH [of "Suc i" zs] Cons.prems(1) show ?case by (simp add: stable_def)
qed simp

lemma tuple_again:
  "list_all stable ss \<Longrightarrow> parse_tuple ss xs p i = ([], ys) \<Longrightarrow> parse_tuple ss ys p i = ([], ys) \<and> length ys = length ss"
proof (induction ss arbitrary: xs ys i)
  case (Cons s ss)
  from Cons.prems(2) obtain y zs where "parseInternal s (case xs of [] \<Rightarrow> JUndef | x # _ \<Rightarrow> x) (p @ [Index i]) = Inr y"
    "parse_tuple ss (tl xs) p (Suc i) = ([], zs)" "ys = y # zs"
    unfolding parse_Cons by blast
  with Cons.IH [of "tl xs" "Suc i" zs] Cons.prems(1) show ?case by (simp add: stable_def)
qed simp

lemma known_again:
  assumes "list_all (\<lambda>(k, s). stable s) shape" "distinct (map fst shape)"
    "parseKnownProperties shape v p = ([], out)" "reads_as v' (map fst shape) out"
  shows "parseKnownProperties shape v' p = ([], out)"
  using assms
proof (induction shape arbitrary: out)
  case (Cons ks shape)
  obtain k s where ks: "ks = (k, s)" by (cases ks)
  from Cons.prems(3) obtain w zs where o: "parseInternal s (js_get v k) (p @ [Key k]) = Inr w"
    "parseKnownProperties shape v p = ([], zs)" "out = (if w \<noteq> JUndef \<or> hasOwn v k then [(k, w)] else []) @ zs"
    unfolding ks parse_Cons by blast
  have d: "k \<notin> set (map fst shape)" "distinct (map fst shape)" using Cons.prems(2) ks by auto
  then have "k \<notin> fst ` set zs" using known_keys [OF o(2)] by fastforce
  moreover have "reads_as v' (k # map fst shape) ((if w \<noteq> JUndef \<or> hasOwn v k then [(k, w)] else []) @ zs)"
    using Cons.prems(4) ks unfolding o(3) by simp
  ultimately have r: "js_get v' k = w" "hasOwn v' k \<longleftrightarrow> w \<noteq> JUndef \<or> hasOwn v k" "reads_as v' (map fst shape) zs"
    using reads_cons [of v' k "map fst shape" "w \<noteq> JUndef \<or> hasOwn v k" w zs] d(1) by blast+
  have "parseInternal s w (p @ [Key k]) = Inr w" using Cons.prems(1) ks o(1) by (auto simp: stable_def)
  moreover have "parseKnownProperties shape v' p = ([], zs)"
    using Cons.IH [OF _ d(2) o(2) r(3)] Cons.prems(1) by simp
  ultimately show ?case unfolding ks parse_Cons using r(1,2) o(3) by simp
qed simp

lemma unknown_again:
  "stable s \<Longrightarrow> parseUnknownProperties fs ks policy s p = ([], out) \<Longrightarrow> parseUnknownProperties out ks policy s p = ([], out)"
proof (induction fs arbitrary: out)
  case (Cons kx fs)
  obtain k x where kx: "kx = (k, x)" by (cases kx)
  from Cons.prems(2) obtain zs where z: "parseUnknownProperties fs ks policy s p = ([], zs)"
    and out: "if k \<in> set ks then out = zs
         else if \<not> is_never s then \<exists>w. parseInternal s x (p @ [Key k]) = Inr w \<and> out = (k, w) # zs
         else policy \<noteq> Strict \<and> out = (if policy = Passthrough then (k, x) # zs else zs)"
    unfolding kx parse_Cons by blast
  have "parseUnknownProperties zs ks policy s p = ([], zs)" using Cons.IH [OF Cons.prems(1) z] .
  with out Cons.prems(1) show ?case by (auto simp: parse_Cons stable_def split: if_splits simp del: parseUnknownProperties.simps(2))
qed simp

lemma object_again:
  assumes "list_all (\<lambda>(k, s). stable s) shape" "distinct (map fst shape)" "stable catchall"
  shows "stable (ObjectSchema shape unknownKeys catchall)"
  unfolding stable_def
proof (intro allI impI)
  fix v p w assume "parseInternal (ObjectSchema shape unknownKeys catchall) v p = Inr w"
  then obtain fs out1 out2 where o: "v = JObj fs" "parseKnownProperties shape v p = ([], out1)"
    "parseUnknownProperties fs (map fst shape) unknownKeys catchall p = ([], out2)" "w = JObj (out1 @ out2)"
    by (auto split: jsval.splits prod.splits)
  have "parseKnownProperties shape w p = ([], out1)"
    using known_again [OF assms(1,2) o(2)] object_reads [OF o(3)] o(4) by simp
  moreover have "parseUnknownProperties (out1 @ out2) (map fst shape) unknownKeys catchall p = ([], out2)"
    using known_keys [OF o(2)] unknown_again [OF assms(3) o(3)] by (subst unknown_skips) fastforce+
  ultimately show "parseInternal (ObjectSchema shape unknownKeys catchall) w p = Inr w" using o(4) by simp
qed

lemma plain_stable: "plain_schema s \<Longrightarrow> stable s"
proof (induction s rule: plain_schema.induct)
  case (5 s rules)
  show ?case
    unfolding stable_def
  proof (intro allI impI)
    fix v p w assume "parseInternal (ArraySchema s rules) v p = Inr w"
    then obtain xs ys where "v = JArr xs" "parse_items s xs p 0 = ([], ys)" "w = JArr ys"
      "collectRuleIssues xs rules matchesArrayRule p = []"
      by (auto split: jsval.splits prod.splits)
    then show "parseInternal (ArraySchema s rules) w p = Inr w"
      using items_again [of s xs p 0 ys] 5 array_rules_length [of ys xs] by simp
  qed
next
  case (6 ss m)
  then have "list_all stable ss" by (auto simp: list_all_iff)
  from tuple_again [OF this] show ?case by (auto simp: stable_def split: jsval.splits prod.splits if_splits)
next
  case (7 shape policy catchall)
  then show ?case by (intro object_again) (auto simp: list_all_iff)
qed (auto simp: stable_def leaf_defs split: jsval.splits sum.splits if_splits dest: strict_eq_refl)

section \<open>Errors\<close>

text \<open>The message and the flattened form of \<open>SchemaError\<close>; a record of messages per field in the order of first use.\<close>

fun show_path_item :: "path_item \<Rightarrow> string" where
  "show_path_item (Key k) = k"
| "show_path_item (Index n) = show_nat n"

definition SchemaError_message :: "schema_issue list \<Rightarrow> string" where
  "SchemaError_message issues =
     (let text = join_with ''; '' (map (\<lambda>i. let p = join_with ''.'' (map show_path_item (issue_path i))
                                            in if p \<noteq> [] then p @ '': '' @ issue_message i else issue_message i) issues)
      in if text \<noteq> [] then text else ''Invalid input'')"

record flattened_error =
  formErrors :: "string list"
  fieldErrors :: "(string \<times> string list) list"

fun add_field_error :: "string \<Rightarrow> string \<Rightarrow> (string \<times> string list) list \<Rightarrow> (string \<times> string list) list" where
  "add_field_error k m [] = [(k, [m])]"
| "add_field_error k m ((l, ms) # fs) = (if l = k then (l, ms @ [m]) # fs else (l, ms) # add_field_error k m fs)"

definition flatten_step :: "schema_issue \<Rightarrow> flattened_error \<Rightarrow> flattened_error" where
  "flatten_step i e =
     (case issue_path i of
        [] \<Rightarrow> e\<lparr>formErrors := formErrors e @ [issue_message i]\<rparr>
      | x # _ \<Rightarrow> e\<lparr>fieldErrors := add_field_error (show_path_item x) (issue_message i) (fieldErrors e)\<rparr>)"

definition flatten :: "schema_issue list \<Rightarrow> flattened_error" where
  "flatten issues = fold flatten_step issues \<lparr>formErrors = [], fieldErrors = []\<rparr>"

text \<open>The messages a flattened error shows.\<close>

definition shown_messages :: "flattened_error \<Rightarrow> string set" where
  "shown_messages e = set (formErrors e) \<union> (\<Union>(k, ms) \<in> set (fieldErrors e). set ms)"

lemma add_field_error_messages:
  "(\<Union>(k, ms) \<in> set (add_field_error l m fs). set ms) = insert m (\<Union>(k, ms) \<in> set fs. set ms)"
  by (induction l m fs rule: add_field_error.induct) auto

lemma flatten_step_messages: "shown_messages (flatten_step i e) = insert (issue_message i) (shown_messages e)"
  by (simp add: flatten_step_def shown_messages_def add_field_error_messages split: list.split)

lemma flatten_messages: "shown_messages (flatten issues) = issue_message ` set issues"
proof -
  have "shown_messages (fold flatten_step issues e) = shown_messages e \<union> issue_message ` set issues" for e
    by (induction issues arbitrary: e) (auto simp: flatten_step_messages)
  then show ?thesis by (simp add: flatten_def shown_messages_def)
qed

text \<open>Parsing normalises.  For every schema built without unions and transformations whose objects list each
  property once, a value that was parsed successfully is accepted again by the same schema and returned
  unchanged: the stripped, defaulted-by-omission form that the boundary code keeps is a fixed point, whatever
  the unknown-key policy, the catch-all schema, the rules and the refinements are.
\<close>

theorem parsed_value_is_fixed_point:
  assumes "plain_schema s" "safeParse s v = Inr w"
  shows "safeParse s w = Inr w"
  using plain_stable [OF assms(1)] assms(2) by (auto simp: safeParse_def stable_def)

definition sample_schema :: schema where
  "sample_schema =
     ObjectSchema [(''id'', StringSchema [(MinLength 2, ''too short'')] None),
                   (''votes'', ArraySchema (NumberSchema [(IntegerRule, ''Expected integer'')]) [(MinItems 1, ''empty'')]),
                   (''note'', OptionalSchema BooleanSchema)]
       Strip NeverSchema"

definition sample_value :: jsval where
  "sample_value = JObj [(''extra'', JNull), (''votes'', JArr [JNum (js_int 4), JNum (js_int 7)]), (''id'', JStr ''ab'')]"

definition sample_parsed :: jsval where
  "sample_parsed = JObj [(''id'', JStr ''ab''), (''votes'', JArr [JNum (js_int 4), JNum (js_int 7)])]"

lemma sample_parses: "safeParse sample_schema sample_value = Inr sample_parsed"
  by (simp add: safeParse_def leaf_defs sample_schema_def sample_value_def sample_parsed_def collectRuleIssues_def hasOwn_def js_int_def settle_def)

theorem parsed_value_is_fixed_point_witness:
  "sample_value \<noteq> sample_parsed \<and> safeParse sample_schema sample_parsed = Inr sample_parsed"
proof
  show "sample_value \<noteq> sample_parsed" by (simp add: sample_value_def sample_parsed_def)
  have "plain_schema sample_schema" by (simp add: sample_schema_def)
  from parsed_value_is_fixed_point [OF this sample_parses]
  show "safeParse sample_schema sample_parsed = Inr sample_parsed" .
qed

text \<open>A rejected value is rejected with a reason.  Whenever a schema of any kind fails, the error it carries has
  a message, every message of it is shown by its flattened form, and that form shows nothing else.
\<close>

theorem rejection_is_explained:
  assumes "safeParse s v = Inl issues"
  shows "issues \<noteq> [] \<and> shown_messages (flatten issues) = issue_message ` set issues"
  using failure_has_issue assms by (auto simp: safeParse_def flatten_messages)

theorem rejection_is_explained_witness:
  "shown_messages (flatten [\<lparr>issue_path = [Key ''id''], issue_message = ''too short''\<rparr>,
                            \<lparr>issue_path = [Key ''votes''], issue_message = ''empty''\<rparr>]) = {''too short'', ''empty''}"
proof -
  have "safeParse sample_schema (JObj [(''id'', JStr ''a''), (''votes'', JArr [])]) =
      Inl [\<lparr>issue_path = [Key ''id''], issue_message = ''too short''\<rparr>, \<lparr>issue_path = [Key ''votes''], issue_message = ''empty''\<rparr>]"
    by (simp add: safeParse_def leaf_defs sample_schema_def collectRuleIssues_def hasOwn_def settle_def)
  from rejection_is_explained [OF this] show ?thesis by auto
qed

end
