(* ===== verification/FinalizationStorage.thy ===== *)
theory FinalizationStorage
  imports PublicInputStore Schema
begin

text \<open>
  The stored values of a finalization (packages/application/src/finalize): identifiers (finalization-id.ts), the
  data types (finalization-types.ts) and the admission of their stored forms (finalization-storage.ts): scenario
  contexts, lifecycle states, bitmaps, receipts, public audit artefacts and the result authority.
\<close>

section \<open>Identifiers\<close>

definition is_segment_char :: "char \<Rightarrow> bool" where
  "is_segment_char c = (let n = (of_char c :: nat) in 48 \<le> n \<and> n \<le> 57 \<or> 65 \<le> n \<and> n \<le> 90 \<or> 97 \<le> n \<and> n \<le> 122 \<or> n = 45)"

definition isSafeVerifierSegment :: "string \<Rightarrow> bool" where
  "isSafeVerifierSegment v = (v \<noteq> [] \<and> list_all is_segment_char v)"

definition parseFinalizationId :: "jsval \<Rightarrow> string option" where
  "parseFinalizationId v = (case v of JStr s \<Rightarrow> if isSafeVerifierSegment s then Some s else None | _ \<Rightarrow> None)"

datatype identifier_error = EmptyIdentifier string | UnsafeIdentifier string | InvalidFinalizationId

definition assertSafeSegment :: "string \<Rightarrow> string \<Rightarrow> identifier_error + unit" where
  "assertSafeSegment v label =
     (if length v = 0 then Inl (EmptyIdentifier label)
      else if \<not> (v \<noteq> [] \<and> list_all is_segment_char v) then Inl (UnsafeIdentifier label) else Inr ())"

definition asSessionId :: "string \<Rightarrow> identifier_error + string" where
  "asSessionId v = res_bind (assertSafeSegment v ''sessionId'') (\<lambda>_. Inr v)"

definition asFinalizationId :: "string \<Rightarrow> identifier_error + string" where
  "asFinalizationId v = (case parseFinalizationId (JStr v) of None \<Rightarrow> Inl InvalidFinalizationId | Some i \<Rightarrow> Inr i)"

definition CROCKFORD_BASE32 :: string where
  "CROCKFORD_BASE32 = ''0123456789ABCDEFGHJKMNPQRSTVWXYZ''"

text \<open>The loop prepends one digit per round; \<open>time\<close> is the floored, non-negative time.\<close>

fun encodeTimeComponent :: "nat \<Rightarrow> nat \<Rightarrow> string \<Rightarrow> string" where
  "encodeTimeComponent time 0 output = output"
| "encodeTimeComponent time (Suc n) output = encodeTimeComponent (time div 32) n (CROCKFORD_BASE32 ! (time mod 32) # output)"

text \<open>The bytes are those of \<^verbatim>\<open>randomBytes\<close>.\<close>

definition encodeRandomComponent :: "byte list \<Rightarrow> string" where
  "encodeRandomComponent bytes = map (\<lambda>b. CROCKFORD_BASE32 ! (unat b mod 32)) bytes"

definition generateFinalizationId :: "nat \<Rightarrow> byte list \<Rightarrow> identifier_error + string" where
  "generateFinalizationId time bytes = asFinalizationId (encodeTimeComponent time 10 [] @ encodeRandomComponent bytes)"

section \<open>Data types\<close>

text \<open>The counts per choice are a list in the order of \<open>VOTE_CHOICES\<close>.\<close>

record scenario_context =
  sc_scenarios :: "string list"
  sc_tamperMode :: string
  sc_claimedCounts :: "jsnum list"
  sc_claimedTotalVotes :: jsnum
  sc_ignoredCount :: jsnum
  sc_recountedCount :: jsnum
  sc_userRecountChoice :: "string option"
  sc_affectedBotIds :: "jsnum list option"

record finalization_tally =
  ft_counts :: "jsnum list"
  ft_totalVotes :: jsnum
  ft_tamperedCount :: jsnum

record receipt_publication =
  rp_receiptHash :: string
  rp_boardIndex :: jsnum
  rp_timestamp :: "jsnum option"

record bitmap_data =
  bd_includedBitmap :: "bool list"
  bd_includedBitmapRoot :: string
  bd_seen :: "(bool list \<times> string) option"
  bd_treeSize :: jsnum
  bd_finalizedAtMs :: jsnum

record tamper_summary =
  ts_ignoredVotes :: jsnum
  ts_recountedVotes :: jsnum
  ts_userRecountedTo :: "string option"
  ts_affectedBotIds :: "jsnum list option"

datatype receipt_journal = ReceiptText string | ReceiptBytes "jsnum list"

record receipt_with_image_id =
  ri_seal :: string
  ri_journal :: receipt_journal
  ri_imageId :: "string option"
  ri_metadata :: "jsval option"

text \<open>An unavailable artefact is \<open>None\<close>; manifest and close statement are kept as the objects they are.\<close>

record public_audit =
  au_publicInputArtifact :: supported_artifact
  au_electionManifest :: jsval
  au_closeStatement :: jsval

record artifact_availability =
  aa_publicAudit :: "public_audit option"
  aa_receipt :: "receipt_with_image_id option"
  aa_receiptPublication :: "receipt_publication option"
  aa_bitmap :: "(bitmap_proof_source \<times> bitmap_data) option"

definition createUnavailableFinalizationArtifacts :: artifact_availability where
  "createUnavailableFinalizationArtifacts =
     \<lparr>aa_publicAudit = None, aa_receipt = None, aa_receiptPublication = None, aa_bitmap = None\<rparr>"

record scenario_presentation =
  pr_tamperDetected :: "bool option"
  pr_scenarios :: "string list option"
  pr_tamperSummary :: "tamper_summary option"

record result_authority = scenario_presentation +
  ra_tally :: finalization_tally
  ra_imageId :: string
  ra_journal :: current_journal
  ra_artifacts :: artifact_availability

definition FinalizationFailureCategory :: "string list" where
  "FinalizationFailureCategory =
     [''configuration'', ''input'', ''prover_execution'', ''infrastructure_interruption'', ''image_signature'', ''capacity'',
      ''artifact'', ''upload'', ''timeout'', ''unknown'']"

text \<open>The error of a failed finalization is the object \<^verbatim>\<open>{ code, message, category?, details? }\<close>.\<close>

datatype finalization_state =
    Pending (state_id: string) (queuedAtMs: jsnum)
  | Running (state_id: string) (queuedAtMs: jsnum) jsnum
  | Succeeded (state_id: string) (queuedAtMs: jsnum) jsnum jsnum
  | FailedState (state_id: string) (queuedAtMs: jsnum) "jsnum option" jsnum jsval
  | TimedOut (state_id: string) (queuedAtMs: jsnum) "jsnum option" jsnum

fun state_status :: "finalization_state \<Rightarrow> string" where
  "state_status (Pending _ _) = ''pending''"
| "state_status (Running _ _ _) = ''running''"
| "state_status (Succeeded _ _ _ _) = ''succeeded''"
| "state_status (FailedState _ _ _ _ _) = ''failed''"
| "state_status (TimedOut _ _ _ _) = ''timeout''"

section \<open>Scenario contexts\<close>

definition isIntegerArray :: "jsnum list \<Rightarrow> bool" where
  "isIntegerArray xs = list_all isInteger xs"

text \<open>\<^verbatim>\<open>null | VoteChoice\<close> as an option inside an option: \<open>None\<close> is a rejected value.\<close>

fun nullable_choice :: "jsval \<Rightarrow> string option option" where
  "nullable_choice JNull = Some None"
| "nullable_choice (JStr s) = (if s \<in> set VOTE_CHOICES then Some (Some s) else None)"
| "nullable_choice _ = None"

definition isNullableVoteChoice :: "jsval \<Rightarrow> bool" where
  "isNullableVoteChoice v = (nullable_choice v \<noteq> None)"

text \<open>\<open>None\<close> is the \<^verbatim>\<open>null\<close> of the source, a rejected list.\<close>

definition parseAffectedBotIds :: "jsval \<Rightarrow> jsnum list option option" where
  "parseAffectedBotIds v =
     (let ids = getNumberArrayProperty v ''affectedBotIds''
      in if hasOwn v ''affectedBotIds'' \<and> (case ids of None \<Rightarrow> True | Some xs \<Rightarrow> \<not> isIntegerArray xs) then None else Some ids)"

definition parseCountRecord :: "jsval \<Rightarrow> jsnum list option" where
  "parseCountRecord v =
     (if \<not> isNonNullObject v \<or> length (js_keys v) \<noteq> length VOTE_CHOICES then None
      else those (map (\<lambda>choice. let count = getNumberProperty v choice in if \<not> isNonNegativeInteger count then None else count) VOTE_CHOICES))"

definition FINALIZATION_SCENARIO_CONTEXT_KEYS :: "string list" where
  "FINALIZATION_SCENARIO_CONTEXT_KEYS = [''scenarios'', ''tamperMode'', ''claimedCounts'', ''claimedTotalVotes'', ''summary'']"

definition FINALIZATION_SCENARIO_SUMMARY_KEYS :: "string list" where
  "FINALIZATION_SCENARIO_SUMMARY_KEYS = [''ignoredCount'', ''recountedCount'', ''userRecountChoice'', ''affectedBotIds'']"

definition SCENARIO_TAMPER_MODES :: "string list" where
  "SCENARIO_TAMPER_MODES = [''none'', ''input'', ''claim'']"

definition parseFinalizationScenarioContext :: "jsval \<Rightarrow> scenario_context option" where
  "parseFinalizationScenarioContext v =
     (if \<not> isNonNullObject v \<or> \<not> hasOnlyAllowedKeys v FINALIZATION_SCENARIO_CONTEXT_KEYS then None
      else
        let scenarios = getStringArrayProperty v ''scenarios''; tamperMode = getStringProperty v ''tamperMode'';
            claimedCounts = parseCountRecord (js_get v ''claimedCounts''); claimedTotalVotes = getNumberProperty v ''claimedTotalVotes''
        in case getObjectProperty v ''summary'' of
             None \<Rightarrow> None
           | Some summary \<Rightarrow>
               if scenarios = None \<or> \<not> truthy tamperMode \<or> the tamperMode \<notin> set SCENARIO_TAMPER_MODES \<or> claimedCounts = None \<or>
                  \<not> isNonNegativeInteger claimedTotalVotes \<or> \<not> hasOnlyAllowedKeys summary FINALIZATION_SCENARIO_SUMMARY_KEYS
               then None
               else
                 let ignoredCount = getNumberProperty summary ''ignoredCount''; recountedCount = getNumberProperty summary ''recountedCount''
                 in if \<not> isNonNegativeInteger ignoredCount \<or> \<not> isNonNegativeInteger recountedCount then None
                    else case (nullable_choice (js_get summary ''userRecountChoice''), parseAffectedBotIds summary) of
                           (Some choice, Some ids) \<Rightarrow>
                             Some \<lparr>sc_scenarios = the scenarios, sc_tamperMode = the tamperMode, sc_claimedCounts = the claimedCounts,
                                   sc_claimedTotalVotes = the claimedTotalVotes, sc_ignoredCount = the ignoredCount,
                                   sc_recountedCount = the recountedCount, sc_userRecountChoice = choice, sc_affectedBotIds = ids\<rparr>
                         | _ \<Rightarrow> None)"

section \<open>Lifecycle states\<close>

definition FINALIZATION_ERROR_KEYS :: "string list" where
  "FINALIZATION_ERROR_KEYS = [''code'', ''message'', ''category'', ''details'']"

text \<open>\<open>None\<close> is the \<^verbatim>\<open>null\<close> of the source, a rejected category.\<close>

definition parseFinalizationErrorCategory :: "jsval \<Rightarrow> string option option" where
  "parseFinalizationErrorCategory v =
     (let cat = getStringProperty v ''category''
      in if hasOwn v ''category'' \<and> (case cat of None \<Rightarrow> True | Some c \<Rightarrow> c \<notin> set FinalizationFailureCategory) then None
         else Some cat)"

definition error_value :: "string \<Rightarrow> string \<Rightarrow> string option \<Rightarrow> jsval option \<Rightarrow> jsval" where
  "error_value code message cat details =
     JObj ([(''code'', JStr code), (''message'', JStr message)] @ opt_field ''category'' (map_option JStr cat) @
       opt_field ''details'' details)"

definition parseFinalizationError :: "jsval \<Rightarrow> jsval option" where
  "parseFinalizationError v =
     (if \<not> isNonNullObject v \<or> \<not> hasOnlyAllowedKeys v FINALIZATION_ERROR_KEYS then None
      else case (getStringProperty v ''code'', getStringProperty v ''message'', parseFinalizationErrorCategory v) of
             (Some code, Some message, Some cat) \<Rightarrow>
               Some (error_value code message (if truthy cat then cat else None)
                 (if hasOwn v ''details'' then Some (js_get v ''details'') else None))
           | _ \<Rightarrow> None)"

definition FINALIZATION_STATE_KEYS_BY_STATUS :: "(string \<times> string list) list" where
  "FINALIZATION_STATE_KEYS_BY_STATUS =
     [(''pending'', [''status'', ''finalizationId'', ''queuedAtMs'']),
      (''running'', [''status'', ''finalizationId'', ''queuedAtMs'', ''startedAtMs'']),
      (''succeeded'', [''status'', ''finalizationId'', ''queuedAtMs'', ''startedAtMs'', ''completedAtMs'']),
      (''failed'', [''status'', ''finalizationId'', ''queuedAtMs'', ''startedAtMs'', ''failedAtMs'', ''error'']),
      (''timeout'', [''status'', ''finalizationId'', ''queuedAtMs'', ''startedAtMs'', ''timeoutAtMs''])]"

definition isFinalizationStatus :: "string \<Rightarrow> bool" where
  "isFinalizationStatus s = (s \<in> set (map fst FINALIZATION_STATE_KEYS_BY_STATUS))"

definition parseFailedFinalization :: "jsval \<Rightarrow> string \<Rightarrow> jsnum \<Rightarrow> jsnum option \<Rightarrow> finalization_state option" where
  "parseFailedFinalization v i queued started =
     (let failedAtMs = getNumberProperty v ''failedAtMs''; error = parseFinalizationError (js_get v ''error'')
      in if \<not> isNonNegativeInteger failedAtMs \<or> error = None then None
         else Some (FailedState i queued started (the failedAtMs) (the error)))"

definition parseCompletedFinalization :: "jsval \<Rightarrow> string \<Rightarrow> jsnum \<Rightarrow> jsnum option \<Rightarrow> finalization_state option" where
  "parseCompletedFinalization v i queued started =
     (let completedAtMs = getNumberProperty v ''completedAtMs''
      in if \<not> isNonNegativeInteger started \<or> \<not> isNonNegativeInteger completedAtMs then None
         else Some (Succeeded i queued (the started) (the completedAtMs)))"

definition parseFinalizationProgress ::
  "string \<Rightarrow> jsval \<Rightarrow> string \<Rightarrow> jsnum \<Rightarrow> jsnum option \<Rightarrow> finalization_state option" where
  "parseFinalizationProgress s v i queued started =
     (if s = ''pending'' then Some (Pending i queued)
      else if s = ''running'' then (if isNonNegativeInteger started then Some (Running i queued (the started)) else None)
      else if s = ''succeeded'' then parseCompletedFinalization v i queued started
      else if s = ''failed'' then parseFailedFinalization v i queued started
      else
        let timeoutAtMs = getNumberProperty v ''timeoutAtMs''
        in if isNonNegativeInteger timeoutAtMs then Some (TimedOut i queued started (the timeoutAtMs)) else None)"

definition parseFinalizationState :: "jsval \<Rightarrow> finalization_state option" where
  "parseFinalizationState v =
     (if \<not> isNonNullObject v then None
      else case getStringProperty v ''status'' of
        None \<Rightarrow> None
      | Some s \<Rightarrow>
          if s = [] \<or> \<not> isFinalizationStatus s then None
          else if \<not> hasOnlyAllowedKeys v (the (map_of FINALIZATION_STATE_KEYS_BY_STATUS s)) then None
          else
            let queued = getNumberProperty v ''queuedAtMs''; started = getNumberProperty v ''startedAtMs''
            in case parseFinalizationId (js_get v ''finalizationId'') of
                 None \<Rightarrow> None
               | Some i \<Rightarrow>
                   if \<not> isNonNegativeInteger queued then None
                   else if hasOwn v ''startedAtMs'' \<and> \<not> isNonNegativeInteger started then None
                   else parseFinalizationProgress s v i (the queued) started)"

end
