(* ===== verification/FinalizationResult.thy ===== *)
theory FinalizationResult
  imports FinalizationStorage
begin

text \<open>
  The result authority of a finalization: its stored parts (finalization-storage.ts), the schemas of the public
  audit artefacts (public-audit-artifacts.ts), and the record that binds a result to its lifecycle state
  (finalization-record.ts).
\<close>

section \<open>Public audit artefacts\<close>

definition refine_string :: "schema \<Rightarrow> (string \<Rightarrow> bool) \<Rightarrow> string \<Rightarrow> schema" where
  "refine_string s pred message =
     RefinementSchema s (\<lambda>v p. case v of JStr t \<Rightarrow> if pred t then [] else [\<lparr>issue_path = p, issue_message = message\<rparr>]
                                         | _ \<Rightarrow> [])"

definition publicAuditHex32Schema :: schema where
  "publicAuditHex32Schema = refine_string (StringSchema [] None) (\<lambda>v. isValidHexString v (Some 32)) ''Expected 32-byte hex string''"

definition publicAuditUint32Rules :: "(number_constraint \<times> string) list" where
  "publicAuditUint32Rules =
     [(IntegerRule, ''Expected integer''), (Minimum (js_int 0) False, ''Expected non-negative number''),
      (Maximum (js_int UINT32_MAX) False, ''Number must be less than or equal to 4294967295'')]"

definition publicAuditUint32Schema :: schema where
  "publicAuditUint32Schema = NumberSchema publicAuditUint32Rules"

definition publicAuditPositiveUint32Schema :: schema where
  "publicAuditPositiveUint32Schema =
     NumberSchema (publicAuditUint32Rules @ [(Minimum (js_int 1) False, ''Number must be greater than or equal to 1'')])"

definition nonEmptyString :: schema where
  "nonEmptyString = StringSchema [(MinLength 1, ''String must contain at least 1 character(s)'')] None"

definition electionManifestArtifactSchema :: schema where
  "electionManifestArtifactSchema =
     ObjectSchema
       [(''electionId'', StringSchema [(UuidFormat, ''Invalid UUID'')] None), (''totalExpected'', publicAuditUint32Schema),
        (''choices'', ArraySchema nonEmptyString [(MinItems 1, ''Array must contain at least 1 element(s)'')]),
        (''version'', nonEmptyString), (''botCount'', publicAuditUint32Schema),
        (''merkleTreeDepth'', publicAuditPositiveUint32Schema), (''electionConfigHash'', publicAuditHex32Schema)]
       Strict NeverSchema"

definition closeStatementArtifactSchema :: schema where
  "closeStatementArtifactSchema =
     ObjectSchema
       [(''logId'', publicAuditHex32Schema), (''treeSize'', publicAuditPositiveUint32Schema),
        (''timestamp'', NumberSchema [(IntegerRule, ''Expected integer''), (Minimum (js_int 0) False, ''Expected non-negative number''),
           (Maximum (js_int MAX_SAFE_INTEGER) False, ''Number must be less than or equal to 9007199254740991'')]),
        (''bulletinRoot'', publicAuditHex32Schema), (''sthDigest'', publicAuditHex32Schema)]
       Strict NeverSchema"

definition parses_with :: "schema \<Rightarrow> jsval \<Rightarrow> bool" where
  "parses_with s v = (case safeParse s v of Inr _ \<Rightarrow> True | Inl _ \<Rightarrow> False)"

definition isElectionManifest :: "jsval \<Rightarrow> bool" where
  "isElectionManifest v = parses_with electionManifestArtifactSchema v"

definition isCloseStatement :: "jsval \<Rightarrow> bool" where
  "isCloseStatement v = parses_with closeStatementArtifactSchema v"

section \<open>Parts of a result\<close>

definition FINALIZATION_TALLY_KEYS :: "string list" where
  "FINALIZATION_TALLY_KEYS = [''counts'', ''totalVotes'', ''tamperedCount'']"

definition parseFinalizationTally :: "jsval \<Rightarrow> finalization_tally option" where
  "parseFinalizationTally v =
     (if \<not> isNonNullObject v \<or> \<not> hasOnlyAllowedKeys v FINALIZATION_TALLY_KEYS then None
      else
        let counts = parseCountRecord (js_get v ''counts''); totalVotes = getNumberProperty v ''totalVotes'';
            tamperedCount = getNumberProperty v ''tamperedCount''
        in if counts = None \<or> \<not> isNonNegativeInteger totalVotes \<or> \<not> isNonNegativeInteger tamperedCount then None
           else Some \<lparr>ft_counts = the counts, ft_totalVotes = the totalVotes, ft_tamperedCount = the tamperedCount\<rparr>)"

definition parseReceiptJournal :: "jsval \<Rightarrow> receipt_journal option" where
  "parseReceiptJournal v =
     (case v of
        JStr s \<Rightarrow> Some (ReceiptText s)
      | _ \<Rightarrow>
          if \<not> isNonNullObject v \<or> \<not> hasOnlyAllowedKeys v [''bytes''] then None
          else (case getNumberArrayProperty v ''bytes'' of
                  None \<Rightarrow> None
                | Some bytes \<Rightarrow> if \<not> isIntegerArray bytes then None else Some (ReceiptBytes bytes)))"

text \<open>\<^verbatim>\<open>{ ...value }\<close>.\<close>

fun spread :: "jsval \<Rightarrow> (string \<times> jsval) list" where
  "spread (JObj fs) = fs"
| "spread (JArr xs) = zip (map show_nat [0..<length xs]) xs"
| "spread _ = []"

definition RECEIPT_KEYS :: "string list" where
  "RECEIPT_KEYS = [''seal'', ''journal'', ''imageId'', ''metadata'']"

text \<open>The test \<^verbatim>\<open>!journal\<close> rejects the empty text too.\<close>

definition parseReceiptWithImageId :: "jsval \<Rightarrow> receipt_with_image_id option" where
  "parseReceiptWithImageId v =
     (if \<not> isNonNullObject v \<or> \<not> hasOnlyAllowedKeys v RECEIPT_KEYS then None
      else case (getStringProperty v ''seal'', parseReceiptJournal (js_get v ''journal'')) of
             (Some seal, Some journal) \<Rightarrow>
               if journal = ReceiptText [] then None
               else Some \<lparr>ri_seal = seal, ri_journal = journal, ri_imageId = if_truthy (getStringProperty v ''imageId''),
                          ri_metadata = map_option (\<lambda>m. JObj (spread m)) (getObjectProperty v ''metadata'')\<rparr>
           | _ \<Rightarrow> None)"

definition RECEIPT_PUBLICATION_KEYS :: "string list" where
  "RECEIPT_PUBLICATION_KEYS = [''receiptHash'', ''boardIndex'', ''timestamp'']"

definition parseReceiptPublication :: "jsval \<Rightarrow> receipt_publication option" where
  "parseReceiptPublication v =
     (if \<not> isNonNullObject v \<or> \<not> hasOnlyAllowedKeys v RECEIPT_PUBLICATION_KEYS then None
      else
        let receiptHash = getStringProperty v ''receiptHash''; boardIndex = getNumberProperty v ''boardIndex'';
            time = getNumberProperty v ''timestamp''
        in if receiptHash = None \<or> \<not> isNonNegativeInteger boardIndex then None
           else if hasOwn v ''timestamp'' \<and> \<not> isNonNegativeInteger time then None
           else Some \<lparr>rp_receiptHash = the receiptHash, rp_boardIndex = the boardIndex, rp_timestamp = time\<rparr>)"

definition BITMAP_DATA_KEYS :: "string list" where
  "BITMAP_DATA_KEYS = [''includedBitmap'', ''includedBitmapRoot'', ''seenBitmap'', ''seenBitmapRoot'', ''treeSize'', ''finalizedAtMs'']"

definition BITMAP_ROOT_PATTERN :: "string \<Rightarrow> bool" where
  "BITMAP_ROOT_PATTERN s =
     (let body = (if startsWith s ''0x'' then drop 2 s else s) in length body = 64 \<and> list_all is_lower_hex body)"

text \<open>The outer \<open>None\<close> rejects; the inner one is the absence of the pair.\<close>

definition parseStoredSeenBitmap :: "jsval \<Rightarrow> (bool list \<times> string) option option" where
  "parseStoredSeenBitmap v =
     (let seenBitmap = getBooleanArrayProperty v ''seenBitmap''; seenRoot = getStringProperty v ''seenBitmapRoot'';
          hasSeenBitmap = hasOwn v ''seenBitmap''; hasSeenBitmapRoot = hasOwn v ''seenBitmapRoot''
      in if hasSeenBitmap \<noteq> hasSeenBitmapRoot then None
         else if hasSeenBitmap \<and> seenBitmap = None then None
         else if hasSeenBitmapRoot \<and> (case seenRoot of None \<Rightarrow> True | Some r \<Rightarrow> \<not> BITMAP_ROOT_PATTERN r) then None
         else Some (if seenBitmap \<noteq> None \<and> truthy seenRoot then Some (the seenBitmap, the seenRoot) else None))"

definition parseFinalizationBitmapData :: "jsval \<Rightarrow> bitmap_data option" where
  "parseFinalizationBitmapData v =
     (if \<not> isNonNullObject v \<or> \<not> hasOnlyAllowedKeys v BITMAP_DATA_KEYS then None
      else
        let includedBitmap = getBooleanArrayProperty v ''includedBitmap''; includedRoot = getStringProperty v ''includedBitmapRoot'';
            ts = getNumberProperty v ''treeSize''; finalizedAtMs = getNumberProperty v ''finalizedAtMs''
        in if includedBitmap = None \<or> includedRoot = None \<or> \<not> BITMAP_ROOT_PATTERN (the includedRoot) \<or>
              \<not> isNonNegativeSafeInteger ts \<or> \<not> isNonNegativeSafeInteger finalizedAtMs
           then None
           else (case parseStoredSeenBitmap v of
                   None \<Rightarrow> None
                 | Some seen_pair \<Rightarrow>
                     Some \<lparr>bd_includedBitmap = the includedBitmap, bd_includedBitmapRoot = the includedRoot, bd_seen = seen_pair,
                           bd_treeSize = the ts, bd_finalizedAtMs = the finalizedAtMs\<rparr>))"

definition encodeFinalizationBitmapData :: "bitmap_data \<Rightarrow> jsval" where
  "encodeFinalizationBitmapData d =
     JObj ([(''includedBitmap'', JArr (map JBool (bd_includedBitmap d))), (''includedBitmapRoot'', JStr (bd_includedBitmapRoot d))] @
       (case bd_seen d of None \<Rightarrow> [] | Some (bits, r) \<Rightarrow> [(''seenBitmap'', JArr (map JBool bits)), (''seenBitmapRoot'', JStr r)]) @
       [(''treeSize'', JNum (bd_treeSize d)), (''finalizedAtMs'', JNum (bd_finalizedAtMs d))])"

definition TAMPER_SUMMARY_KEYS :: "string list" where
  "TAMPER_SUMMARY_KEYS = [''ignoredVotes'', ''recountedVotes'', ''userRecountedTo'', ''affectedBotIds'']"

definition parseTamperSummary :: "jsval \<Rightarrow> tamper_summary option" where
  "parseTamperSummary v =
     (if \<not> isNonNullObject v \<or> \<not> hasOnlyAllowedKeys v TAMPER_SUMMARY_KEYS then None
      else
        let ignoredVotes = getNumberProperty v ''ignoredVotes''; recountedVotes = getNumberProperty v ''recountedVotes''
        in if \<not> isNonNegativeInteger ignoredVotes \<or> \<not> isNonNegativeInteger recountedVotes then None
           else (case (nullable_choice (js_get v ''userRecountedTo''), parseAffectedBotIds v) of
                   (Some choice, Some ids) \<Rightarrow>
                     Some \<lparr>ts_ignoredVotes = the ignoredVotes, ts_recountedVotes = the recountedVotes, ts_userRecountedTo = choice,
                           ts_affectedBotIds = ids\<rparr>
                 | _ \<Rightarrow> None))"

section \<open>Result authorities\<close>

definition parseStoredReceiptArtifacts :: "jsval \<Rightarrow> (receipt_with_image_id option \<times> receipt_publication option) option" where
  "parseStoredReceiptArtifacts v =
     (let hasReceipt = hasOwn v ''receipt''; receipt = (if hasReceipt then parseReceiptWithImageId (js_get v ''receipt'') else None);
          hasPublication = hasOwn v ''receiptPublication'';
          publication = (if hasPublication then parseReceiptPublication (js_get v ''receiptPublication'') else None)
      in if hasReceipt \<and> receipt = None then None
         else if hasPublication \<and> publication = None then None
         else Some (receipt, publication))"

definition ELECTION_MANIFEST_KEYS :: "string list" where
  "ELECTION_MANIFEST_KEYS =
     [''electionId'', ''totalExpected'', ''choices'', ''version'', ''botCount'', ''merkleTreeDepth'', ''electionConfigHash'']"

definition CLOSE_STATEMENT_KEYS :: "string list" where
  "CLOSE_STATEMENT_KEYS = [''logId'', ''treeSize'', ''timestamp'', ''bulletinRoot'', ''sthDigest'']"

definition parseStoredElectionManifest :: "jsval \<Rightarrow> jsval option" where
  "parseStoredElectionManifest v =
     (if isNonNullObject v \<and> hasOnlyAllowedKeys v ELECTION_MANIFEST_KEYS \<and> isElectionManifest v then Some v else None)"

definition parseStoredCloseStatement :: "jsval \<Rightarrow> jsval option" where
  "parseStoredCloseStatement v =
     (if isNonNullObject v \<and> hasOnlyAllowedKeys v CLOSE_STATEMENT_KEYS \<and> isCloseStatement v then Some v else None)"

definition parseStoredPublicAuditArtifacts :: "jsval \<Rightarrow> public_audit option option" where
  "parseStoredPublicAuditArtifacts v =
     (let presence = map (hasOwn v) [''publicInputArtifact'', ''electionManifest'', ''closeStatement'']
      in if list_all Not presence then Some None
         else if \<not> list_all id presence then None
         else case (parseStoredPublicInputArtifact (js_get v ''publicInputArtifact''), parseStoredElectionManifest (js_get v ''electionManifest''),
                    parseStoredCloseStatement (js_get v ''closeStatement'')) of
                (Some a, Some m, Some c) \<Rightarrow> Some (Some \<lparr>au_publicInputArtifact = a, au_electionManifest = m, au_closeStatement = c\<rparr>)
              | _ \<Rightarrow> None)"

fun proof_source_of :: "jsval \<Rightarrow> bitmap_proof_source option" where
  "proof_source_of (JStr s) = (if s = ''mock'' then Some Mock else if s = ''real'' then Some Real else None)"
| "proof_source_of _ = None"

definition parseStoredBitmapArtifact :: "jsval \<Rightarrow> (bitmap_proof_source \<times> bitmap_data) option option" where
  "parseStoredBitmapArtifact v =
     (let hasSource = hasOwn v ''bitmapProofSource''; hasData = hasOwn v ''bitmapData''
      in if \<not> hasSource \<and> \<not> hasData then Some None
         else if hasSource \<noteq> hasData then None
         else case proof_source_of (js_get v ''bitmapProofSource'') of
                None \<Rightarrow> None
              | Some source \<Rightarrow> map_option (\<lambda>data. Some (source, data)) (parseFinalizationBitmapData (js_get v ''bitmapData'')))"

definition projectStoredScenarioPresentation ::
  "bool option \<Rightarrow> string list option \<Rightarrow> tamper_summary option \<Rightarrow> scenario_presentation" where
  "projectStoredScenarioPresentation detected scenarios summary =
     \<lparr>pr_tamperDetected = detected, pr_scenarios = scenarios, pr_tamperSummary = summary\<rparr>"

definition parseStoredScenarioPresentation :: "jsval \<Rightarrow> scenario_presentation option" where
  "parseStoredScenarioPresentation v =
     (let detected = as_boolean (js_get v ''tamperDetected''); scenarios = getStringArrayProperty v ''scenarios'';
          rawSummary = js_get v ''tamperSummary'';
          summary = (if rawSummary \<noteq> JUndef then parseTamperSummary rawSummary else None)
      in if hasOwn v ''tamperDetected'' \<and> detected = None then None
         else if js_get v ''scenarios'' \<noteq> JUndef \<and> scenarios = None then None
         else if rawSummary \<noteq> JUndef \<and> summary = None then None
         else Some (projectStoredScenarioPresentation detected scenarios summary))"

definition FINALIZATION_RESULT_AUTHORITY_KEYS :: "string list" where
  "FINALIZATION_RESULT_AUTHORITY_KEYS =
     [''tally'', ''receipt'', ''receiptPublication'', ''imageId'', ''tamperDetected'', ''scenarios'', ''journal'',
      ''publicInputArtifact'', ''electionManifest'', ''closeStatement'', ''bitmapProofSource'', ''bitmapData'', ''tamperSummary'']"

definition JOURNAL_KEYS :: "string list" where
  "JOURNAL_KEYS =
     [''electionId'', ''electionConfigHash'', ''bulletinRoot'', ''treeSize'', ''totalExpected'', ''sthDigest'', ''verifiedTally'',
      ''totalVotes'', ''validVotes'', ''invalidVotes'', ''seenIndicesCount'', ''missingSlots'', ''invalidPresentedSlots'',
      ''rejectedRecords'', ''seenBitmapRoot'', ''includedBitmapRoot'', ''excludedSlots'', ''inputCommitment'', ''methodVersion'', ''imageId'']"

text \<open>
  The journal is projected after it was admitted; the projection of an admitted journal does not throw
  (\<open>supported_journal_projects\<close> below), so the branch for the exception is never taken.
\<close>

definition parseFinalizationResultAuthority :: "jsval \<Rightarrow> result_authority option" where
  "parseFinalizationResultAuthority v =
     (if \<not> isNonNullObject v \<or> \<not> hasOnlyAllowedKeys v FINALIZATION_RESULT_AUTHORITY_KEYS then None
      else
        let journalValue = js_get v ''journal'' in
        case (parseFinalizationTally (js_get v ''tally''), getStringProperty v ''imageId'') of
          (Some tally, Some imageId) \<Rightarrow>
            if \<not> isNonNullObject journalValue \<or> \<not> hasOnlyAllowedKeys journalValue JOURNAL_KEYS \<or> \<not> isSupportedZkVMJournal journalValue
            then None
            else case toPublicZkvmJournal journalValue of
                   Inl _ \<Rightarrow> None
                 | Inr journal \<Rightarrow>
                     (case (parseStoredScenarioPresentation v, parseStoredReceiptArtifacts v, parseStoredPublicAuditArtifacts v,
                            parseStoredBitmapArtifact v) of
                        (Some presentation, Some (receipt, publication), Some publicAudit, Some bitmap) \<Rightarrow>
                          Some (scenario_presentation.extend presentation
                            (result_authority.fields tally imageId journal
                              \<lparr>aa_publicAudit = publicAudit, aa_receipt = receipt, aa_receiptPublication = publication, aa_bitmap = bitmap\<rparr>))
                      | _ \<Rightarrow> None)
        | _ \<Rightarrow> None)"

definition ADMITTED_FINALIZATION_RESULT_AUTHORITY_KEYS :: "string list" where
  "ADMITTED_FINALIZATION_RESULT_AUTHORITY_KEYS =
     [''tally'', ''imageId'', ''tamperDetected'', ''scenarios'', ''journal'', ''artifacts'', ''tamperSummary'']"

definition FINALIZATION_ARTIFACT_AVAILABILITY_KEYS :: "string list" where
  "FINALIZATION_ARTIFACT_AVAILABILITY_KEYS = [''publicAudit'', ''receipt'', ''receiptPublication'', ''bitmap'']"

definition is_available :: "jsval \<Rightarrow> bool" where
  "is_available v = (js_get v ''availability'' = JStr ''available'')"

definition hasExactAvailabilityKeys :: "jsval \<Rightarrow> string list \<Rightarrow> bool" where
  "hasExactAvailabilityKeys v availableKeys =
     (if \<not> isNonNullObject v then False
      else
        let availability = js_get v ''availability'';
            expected = (if availability = JStr ''available'' then ''availability'' # availableKeys else [''availability''])
        in (availability = JStr ''available'' \<or> availability = JStr ''unavailable'') \<and> hasExactOwnKeys v expected)"

text \<open>\<^verbatim>\<open>...(condition ? { to: v[from] } : {})\<close>.\<close>

definition copy_if :: "bool \<Rightarrow> string \<Rightarrow> jsval \<Rightarrow> string \<Rightarrow> (string \<times> jsval) list" where
  "copy_if c to v from = (if c then [(to, js_get v from)] else [])"

definition admitFinalizationResultAuthority :: "jsval \<Rightarrow> result_authority option" where
  "admitFinalizationResultAuthority v =
     (if \<not> isNonNullObject v \<or> \<not> hasOnlyAllowedKeys v ADMITTED_FINALIZATION_RESULT_AUTHORITY_KEYS then None
      else
        let artifacts = js_get v ''artifacts'' in
        if \<not> isNonNullObject artifacts \<or> \<not> hasExactOwnKeys artifacts FINALIZATION_ARTIFACT_AVAILABILITY_KEYS then None
        else
          let publicAudit = js_get artifacts ''publicAudit''; receipt = js_get artifacts ''receipt'';
              receiptPublication = js_get artifacts ''receiptPublication''; bitmap = js_get artifacts ''bitmap''
          in if \<not> hasExactAvailabilityKeys publicAudit [''publicInputArtifact'', ''electionManifest'', ''closeStatement''] \<or>
                \<not> hasExactAvailabilityKeys receipt [''receipt''] \<or> \<not> hasExactAvailabilityKeys receiptPublication [''publication''] \<or>
                \<not> hasExactAvailabilityKeys bitmap [''proofSource'', ''data'']
             then None
             else parseFinalizationResultAuthority (JObj
               ([(''tally'', js_get v ''tally''), (''imageId'', js_get v ''imageId''), (''journal'', js_get v ''journal'')] @
                copy_if (hasOwn v ''tamperDetected'') ''tamperDetected'' v ''tamperDetected'' @
                copy_if (hasOwn v ''scenarios'') ''scenarios'' v ''scenarios'' @
                copy_if (hasOwn v ''tamperSummary'') ''tamperSummary'' v ''tamperSummary'' @
                copy_if (is_available receipt) ''receipt'' receipt ''receipt'' @
                copy_if (is_available receiptPublication) ''receiptPublication'' receiptPublication ''publication'' @
                copy_if (is_available publicAudit) ''publicInputArtifact'' publicAudit ''publicInputArtifact'' @
                copy_if (is_available publicAudit) ''electionManifest'' publicAudit ''electionManifest'' @
                copy_if (is_available publicAudit) ''closeStatement'' publicAudit ''closeStatement'' @
                copy_if (is_available bitmap) ''bitmapProofSource'' bitmap ''proofSource'' @
                copy_if (is_available bitmap) ''bitmapData'' bitmap ''data'')))"

section \<open>Records\<close>

record result_record =
  rr_finalizationId :: string
  rr_authority :: result_authority

record finalization_record =
  fr_sessionId :: string
  fr_finalizationId :: string
  fr_scenarioContext :: scenario_context
  fr_state :: finalization_state
  fr_finalizationResult :: "result_record option"

definition FINALIZATION_RECORD_KEYS :: "string list" where
  "FINALIZATION_RECORD_KEYS = [''sessionId'', ''finalizationId'', ''scenarioContext'', ''state'']"

definition SUCCEEDED_FINALIZATION_RECORD_KEYS :: "string list" where
  "SUCCEEDED_FINALIZATION_RECORD_KEYS = [''sessionId'', ''finalizationId'', ''scenarioContext'', ''state'', ''finalizationResult'']"

text \<open>\<^verbatim>\<open>{ ...value }\<close> without one property.\<close>

definition without_key :: "string \<Rightarrow> jsval \<Rightarrow> jsval" where
  "without_key k v = JObj (filter (\<lambda>f. fst f \<noteq> k) (spread v))"

definition parseResultRecordWith :: "jsval \<Rightarrow> (jsval \<Rightarrow> result_authority option) \<Rightarrow> result_record option" where
  "parseResultRecordWith v parseAuthority =
     (if \<not> isNonArrayObject v then None
      else case parseFinalizationId (js_get v ''finalizationId'') of
             None \<Rightarrow> None
           | Some i \<Rightarrow> map_option (\<lambda>a. \<lparr>rr_finalizationId = i, rr_authority = a\<rparr>) (parseAuthority (without_key ''finalizationId'' v)))"

definition parseFinalizationResultRecord :: "jsval \<Rightarrow> result_record option" where
  "parseFinalizationResultRecord v = parseResultRecordWith v parseFinalizationResultAuthority"

definition admitFinalizationResultRecord :: "jsval \<Rightarrow> result_record option" where
  "admitFinalizationResultRecord v = parseResultRecordWith v admitFinalizationResultAuthority"

definition asSessionIdOrUndefined :: "string \<Rightarrow> string option" where
  "asSessionIdOrUndefined v = (case asSessionId v of Inl _ \<Rightarrow> None | Inr s \<Rightarrow> Some s)"

definition parseFinalizationRecordIdentity ::
  "jsval \<Rightarrow> (string \<times> string \<times> finalization_state \<times> scenario_context) option" where
  "parseFinalizationRecordIdentity v =
     (case (case js_get v ''sessionId'' of JStr s \<Rightarrow> asSessionIdOrUndefined s | _ \<Rightarrow> None, parseFinalizationId (js_get v ''finalizationId''),
            parseFinalizationState (js_get v ''state''), parseFinalizationScenarioContext (js_get v ''scenarioContext'')) of
        (Some sessionId, Some i, Some state, Some context) \<Rightarrow>
          if state_id state \<noteq> i then None else Some (sessionId, i, state, context)
      | _ \<Rightarrow> None)"

fun is_succeeded :: "finalization_state \<Rightarrow> bool" where
  "is_succeeded (Succeeded _ _ _ _) = True"
| "is_succeeded _ = False"

definition parseRecordWith :: "jsval \<Rightarrow> (jsval \<Rightarrow> result_record option) \<Rightarrow> finalization_record option" where
  "parseRecordWith v parseResult =
     (if \<not> isNonArrayObject v then None
      else case parseFinalizationRecordIdentity v of
             None \<Rightarrow> None
           | Some (sessionId, i, state, context) \<Rightarrow>
               if is_succeeded state then
                 (if \<not> hasExactOwnKeys v SUCCEEDED_FINALIZATION_RECORD_KEYS then None
                  else case parseResult (js_get v ''finalizationResult'') of
                         None \<Rightarrow> None
                       | Some result \<Rightarrow>
                           if rr_finalizationId result \<noteq> i then None
                           else Some \<lparr>fr_sessionId = sessionId, fr_finalizationId = i, fr_scenarioContext = context, fr_state = state,
                                      fr_finalizationResult = Some result\<rparr>)
               else if \<not> hasExactOwnKeys v FINALIZATION_RECORD_KEYS then None
               else Some \<lparr>fr_sessionId = sessionId, fr_finalizationId = i, fr_scenarioContext = context, fr_state = state,
                          fr_finalizationResult = None\<rparr>)"

definition decodeFinalizationRecord :: "jsval \<Rightarrow> finalization_record option" where
  "decodeFinalizationRecord v = parseRecordWith v parseFinalizationResultRecord"

definition admitFinalizationRecord :: "jsval \<Rightarrow> finalization_record option" where
  "admitFinalizationRecord v = parseRecordWith v admitFinalizationResultRecord"

section \<open>Encoding\<close>

text \<open>The objects that the typed values of the source are.\<close>

definition counts_value :: "jsnum list \<Rightarrow> jsval" where
  "counts_value cs = JObj (zip VOTE_CHOICES (map JNum cs))"

definition choice_value :: "string option \<Rightarrow> jsval" where
  "choice_value c = (case c of None \<Rightarrow> JNull | Some s \<Rightarrow> JStr s)"

definition numbers_value :: "jsnum list \<Rightarrow> jsval" where
  "numbers_value ns = JArr (map JNum ns)"

definition strings_value :: "string list \<Rightarrow> jsval" where
  "strings_value ss = JArr (map JStr ss)"

definition context_value :: "scenario_context \<Rightarrow> jsval" where
  "context_value c =
     JObj [(''scenarios'', strings_value (sc_scenarios c)), (''tamperMode'', JStr (sc_tamperMode c)),
       (''claimedCounts'', counts_value (sc_claimedCounts c)), (''claimedTotalVotes'', JNum (sc_claimedTotalVotes c)),
       (''summary'', JObj ([(''ignoredCount'', JNum (sc_ignoredCount c)), (''recountedCount'', JNum (sc_recountedCount c)),
          (''userRecountChoice'', choice_value (sc_userRecountChoice c))] @
          opt_field ''affectedBotIds'' (map_option numbers_value (sc_affectedBotIds c))))]"

fun state_value :: "finalization_state \<Rightarrow> jsval" where
  "state_value (Pending i q) = JObj [(''status'', JStr ''pending''), (''finalizationId'', JStr i), (''queuedAtMs'', JNum q)]"
| "state_value (Running i q s) =
     JObj [(''status'', JStr ''running''), (''finalizationId'', JStr i), (''queuedAtMs'', JNum q), (''startedAtMs'', JNum s)]"
| "state_value (Succeeded i q s c) =
     JObj [(''status'', JStr ''succeeded''), (''finalizationId'', JStr i), (''queuedAtMs'', JNum q), (''startedAtMs'', JNum s),
       (''completedAtMs'', JNum c)]"
| "state_value (FailedState i q s f e) =
     JObj ([(''status'', JStr ''failed''), (''finalizationId'', JStr i), (''queuedAtMs'', JNum q)] @
       opt_field ''startedAtMs'' (map_option JNum s) @ [(''failedAtMs'', JNum f), (''error'', e)])"
| "state_value (TimedOut i q s t) =
     JObj ([(''status'', JStr ''timeout''), (''finalizationId'', JStr i), (''queuedAtMs'', JNum q)] @
       opt_field ''startedAtMs'' (map_option JNum s) @ [(''timeoutAtMs'', JNum t)])"

definition tally_value :: "finalization_tally \<Rightarrow> jsval" where
  "tally_value t =
     JObj [(''counts'', counts_value (ft_counts t)), (''totalVotes'', JNum (ft_totalVotes t)), (''tamperedCount'', JNum (ft_tamperedCount t))]"

fun receipt_journal_value :: "receipt_journal \<Rightarrow> jsval" where
  "receipt_journal_value (ReceiptText s) = JStr s"
| "receipt_journal_value (ReceiptBytes bs) = JObj [(''bytes'', numbers_value bs)]"

definition receipt_value :: "receipt_with_image_id \<Rightarrow> jsval" where
  "receipt_value r =
     JObj ([(''seal'', JStr (ri_seal r)), (''journal'', receipt_journal_value (ri_journal r))] @
       opt_field ''imageId'' (map_option JStr (ri_imageId r)) @ opt_field ''metadata'' (ri_metadata r))"

definition publication_value :: "receipt_publication \<Rightarrow> jsval" where
  "publication_value p =
     JObj ([(''receiptHash'', JStr (rp_receiptHash p)), (''boardIndex'', JNum (rp_boardIndex p))] @
       opt_field ''timestamp'' (map_option JNum (rp_timestamp p)))"

definition tamper_summary_value :: "tamper_summary \<Rightarrow> jsval" where
  "tamper_summary_value t =
     JObj ([(''ignoredVotes'', JNum (ts_ignoredVotes t)), (''recountedVotes'', JNum (ts_recountedVotes t)),
        (''userRecountedTo'', choice_value (ts_userRecountedTo t))] @ opt_field ''affectedBotIds'' (map_option numbers_value (ts_affectedBotIds t)))"

definition proof_source_value :: "bitmap_proof_source \<Rightarrow> jsval" where
  "proof_source_value s = JStr (case s of Mock \<Rightarrow> ''mock'' | Real \<Rightarrow> ''real'')"

definition journal_value :: "current_journal \<Rightarrow> jsval" where
  "journal_value j =
     JObj ([(''electionId'', JStr (j_electionId j)), (''electionConfigHash'', JStr (j_electionConfigHash j)),
       (''bulletinRoot'', JStr (j_bulletinRoot j)), (''treeSize'', JNum (j_treeSize j)), (''totalExpected'', JNum (j_totalExpected j)),
       (''sthDigest'', JStr (j_sthDigest j)), (''verifiedTally'', numbers_value (the (j_verifiedTally j))),
       (''totalVotes'', JNum (the (j_totalVotes j))), (''validVotes'', JNum (the (j_validVotes j))),
       (''invalidVotes'', JNum (cj_invalidVotes j)), (''seenIndicesCount'', JNum (cj_seenIndicesCount j)),
       (''missingSlots'', JNum (the (j_missingSlots j))), (''invalidPresentedSlots'', JNum (the (j_invalidPresentedSlots j))),
       (''rejectedRecords'', JNum (cj_rejectedRecords j)), (''seenBitmapRoot'', JStr (the (j_seenBitmapRoot j))),
       (''includedBitmapRoot'', JStr (j_includedBitmapRoot j)), (''excludedSlots'', JNum (the (j_excludedSlots j))),
       (''inputCommitment'', JStr (j_inputCommitment j)), (''methodVersion'', JNum (cj_methodVersion j))] @
       opt_field ''imageId'' (map_option JStr (cj_imageId j)))"

text \<open>An object literal whose properties may be left out.\<close>

definition opt_fields :: "(string \<times> jsval option) list \<Rightarrow> (string \<times> jsval) list" where
  "opt_fields kvs = concat (map (\<lambda>(k, v). opt_field k v) kvs)"

definition encodeFinalizationResultAuthority :: "result_authority \<Rightarrow> (string \<times> jsval) list" where
  "encodeFinalizationResultAuthority a =
     (let audit = aa_publicAudit (ra_artifacts a); bitmap = aa_bitmap (ra_artifacts a) in
      opt_fields
        [(''tally'', Some (tally_value (ra_tally a))), (''imageId'', Some (JStr (ra_imageId a))),
         (''journal'', Some (journal_value (ra_journal a))),
         (''tamperDetected'', map_option JBool (pr_tamperDetected a)), (''scenarios'', map_option strings_value (pr_scenarios a)),
         (''tamperSummary'', map_option tamper_summary_value (pr_tamperSummary a)),
         (''receipt'', map_option receipt_value (aa_receipt (ra_artifacts a))),
         (''receiptPublication'', map_option publication_value (aa_receiptPublication (ra_artifacts a))),
         (''publicInputArtifact'', map_option (\<lambda>p. stored_value (au_publicInputArtifact p)) audit),
         (''electionManifest'', map_option au_electionManifest audit), (''closeStatement'', map_option au_closeStatement audit),
         (''bitmapProofSource'', map_option (\<lambda>b. proof_source_value (fst b)) bitmap),
         (''bitmapData'', map_option (\<lambda>b. encodeFinalizationBitmapData (snd b)) bitmap)])"

datatype record_error = MissingResultAuthority

definition encodeFinalizationRecord :: "finalization_record \<Rightarrow> record_error + jsval" where
  "encodeFinalizationRecord r =
     (let common = [(''sessionId'', JStr (fr_sessionId r)), (''finalizationId'', JStr (fr_finalizationId r)),
                    (''scenarioContext'', context_value (fr_scenarioContext r)), (''state'', state_value (fr_state r))]
      in if \<not> is_succeeded (fr_state r) then Inr (JObj common)
         else case fr_finalizationResult r of
                None \<Rightarrow> Inl MissingResultAuthority
              | Some result \<Rightarrow>
                  Inr (JObj (common @ [(''finalizationResult'',
                    JObj ((''finalizationId'', JStr (rr_finalizationId result)) # encodeFinalizationResultAuthority (rr_authority result)))])))"

end
