(* ===== verification/FinalizationPolicy.thy ===== *)
theory FinalizationPolicy
  imports FinalizationResult
begin

text \<open>
  The finalization lifecycle (finalization-transition-policy.ts): admission of a command, the decision against
  the current record, and the record that is to be written.  Values that the policy checks at run time (the
  scenario context, the error and the result of a command) are untyped values here.
\<close>

section \<open>Commands and outcomes\<close>

datatype command_body =
    Queue
  | Start jsnum
  | Succeed jsnum jsnum jsval
  | Fail "jsnum option" jsnum jsval
  | TimeOut "jsnum option" jsnum
  | Cancel "jsnum option" jsnum string

record transition_command =
  tc_sessionId :: string
  tc_finalizationId :: string
  tc_queuedAtMs :: jsnum
  tc_scenarioContext :: "jsval option"
  tc_reason :: "string option"
  tc_body :: command_body

datatype invalid_reason =
    InvalidEvaluationTime | InvalidSessionId | InvalidFinalizationIdentifier | InvalidTimestamp | InvalidReason
  | InvalidError | InvalidFinalizationResult | InvalidScenarioContext

datatype transition_outcome =
    Applied finalization_state string finalization_record
  | Idempotent finalization_state
  | Rejected "finalization_state option" string
  | Invalid "finalization_state option" invalid_reason

record admitted_command =
  ac_body :: command_body
  ac_sessionId :: string
  ac_finalizationId :: string
  ac_state :: finalization_state
  ac_reason :: string
  ac_scenarioContext :: "scenario_context option"
  ac_successfulResult :: "result_authority option"
  ac_invalidSuccessfulResult :: bool

text \<open>The registered reasons (canonicalEvents.ts).\<close>

definition FINALIZATION_REASONS :: "string list" where
  "FINALIZATION_REASONS =
     [''FINALIZE_REQUESTED'', ''PROVER_INPUT_PERSISTENCE_UNAVAILABLE'', ''PROVER_INPUT_UPLOAD_FAILED'', ''SQS_PUBLISH_FAILED'',
      ''DISPATCH_REQUESTED'', ''STEP_FUNCTIONS_EXECUTION_CLOSED'', ''STEP_FUNCTIONS_DISPATCH'', ''RUNTIME_UPDATE_RECEIVED'',
      ''FINALIZATION_RESULT_INVALID'', ''FINALIZATION_DISPATCH_TIMEOUT'', ''FINALIZATION_OUTCOME_UNRECORDED'', ''EXECUTION_TIMED_OUT'',
      ''USER_CANCELLED'', ''FINALIZATION_NOT_CANCELLABLE'', ''STATE_PERSISTED'', ''IDEMPOTENT_RETRY'', ''EXECUTION_MISMATCH'',
      ''TERMINAL_STATE_STICKY'', ''INVALID_FINALIZATION_ARTIFACT'', ''CONDITIONAL_WRITE_CONFLICT'', ''FINALIZATION_FAILED'',
      ''FINALIZATION_BUNDLE_KEY_MISSING'', ''FINALIZATION_BUNDLE_RESTORE_FAILED'', ''PROVER_TASK_FAILED'',
      ''PROVER_IMAGE_SIGNATURE_FAILED'', ''PROVER_CAPACITY_WAIT_TIMEOUT'', ''PROVER_EXECUTION_ABORTED'', ''PROVER_EXECUTION_FAILED'']"

definition isFinalizationEventReason :: "jsval \<Rightarrow> bool" where
  "isFinalizationEventReason v = (case v of JStr s \<Rightarrow> s \<in> set FINALIZATION_REASONS | _ \<Rightarrow> False)"

section \<open>Admission\<close>

definition policy_isNonNegativeInteger :: "jsnum \<Rightarrow> bool" where
  "policy_isNonNegativeInteger n = (isSafeInteger n \<and> num_le (js_int 0) n)"

definition currentState :: "finalization_record option \<Rightarrow> finalization_state option" where
  "currentState currentRecord = map_option fr_state currentRecord"

definition invalidCommand :: "finalization_record option \<Rightarrow> invalid_reason \<Rightarrow> transition_outcome" where
  "invalidCommand currentRecord reason = Invalid (currentState currentRecord) reason"

fun resolveDefaultReason :: "command_body \<Rightarrow> string" where
  "resolveDefaultReason Queue = ''FINALIZE_REQUESTED''"
| "resolveDefaultReason (Start _) = ''RUNTIME_UPDATE_RECEIVED''"
| "resolveDefaultReason (Succeed _ _ _) = ''RUNTIME_UPDATE_RECEIVED''"
| "resolveDefaultReason (Fail _ _ error) =
     (case js_get error ''code'' of JStr s \<Rightarrow> if isFinalizationEventReason (JStr s) then s else ''FINALIZATION_FAILED''
                                   | _ \<Rightarrow> ''FINALIZATION_FAILED'')"
| "resolveDefaultReason (TimeOut _ _) = ''EXECUTION_TIMED_OUT''"
| "resolveDefaultReason (Cancel _ _ _) = ''USER_CANCELLED''"

definition hasValidBase :: "transition_command \<Rightarrow> invalid_reason option" where
  "hasValidBase c =
     (if \<not> isSafeVerifierSegment (tc_sessionId c) then Some InvalidSessionId
      else if \<not> isSafeVerifierSegment (tc_finalizationId c) then Some InvalidFinalizationIdentifier
      else if \<not> policy_isNonNegativeInteger (tc_queuedAtMs c) then Some InvalidTimestamp
      else if (case tc_reason c of None \<Rightarrow> False | Some r \<Rightarrow> \<not> isFinalizationEventReason (JStr r)) then Some InvalidReason
      else None)"

definition hasValidStartedAt :: "jsnum \<Rightarrow> jsnum \<Rightarrow> bool" where
  "hasValidStartedAt queued started = (policy_isNonNegativeInteger started \<and> num_le queued started)"

definition hasValidOptionalStartedAt :: "jsnum \<Rightarrow> jsnum option \<Rightarrow> bool" where
  "hasValidOptionalStartedAt queued started = (case started of None \<Rightarrow> True | Some s \<Rightarrow> hasValidStartedAt queued s)"

definition hasValidTerminalAt :: "jsnum \<Rightarrow> jsnum \<Rightarrow> bool" where
  "hasValidTerminalAt earliest terminal = (policy_isNonNegativeInteger terminal \<and> num_le earliest terminal)"

definition hasValidFailureError :: "jsval \<Rightarrow> bool" where
  "hasValidFailureError v =
     (if \<not> isNonNullObject v \<or> isArray v then False
      else as_string (js_get v ''code'') \<noteq> None \<and> as_string (js_get v ''message'') \<noteq> None \<and>
           (js_get v ''category'' = JUndef \<or>
            (case js_get v ''category'' of JStr s \<Rightarrow> s \<in> set FinalizationFailureCategory | _ \<Rightarrow> False)))"

definition admitScenarioContext :: "jsval option \<Rightarrow> scenario_context option" where
  "admitScenarioContext v = (case v of None \<Rightarrow> None | Some x \<Rightarrow> parseFinalizationScenarioContext x)"

definition hasRequiredScenarioContext :: "transition_command \<Rightarrow> scenario_context option \<Rightarrow> bool" where
  "hasRequiredScenarioContext c context = (context \<noteq> None \<or> tc_scenarioContext c = None \<and> tc_body c \<noteq> Queue)"

text \<open>What is common to the admitted commands; \<open>state\<close> completes it.\<close>

definition admitted_with :: "transition_command \<Rightarrow> scenario_context option \<Rightarrow> finalization_state \<Rightarrow> admitted_command" where
  "admitted_with c context state =
     \<lparr>ac_body = tc_body c, ac_sessionId = tc_sessionId c, ac_finalizationId = tc_finalizationId c, ac_state = state,
      ac_reason = (case tc_reason c of Some r \<Rightarrow> r | None \<Rightarrow> resolveDefaultReason (tc_body c)), ac_scenarioContext = context,
      ac_successfulResult = None, ac_invalidSuccessfulResult = False\<rparr>"

definition admitQueue :: "transition_command \<Rightarrow> scenario_context option \<Rightarrow> invalid_reason + admitted_command" where
  "admitQueue c context = Inr (admitted_with c context (Pending (tc_finalizationId c) (tc_queuedAtMs c)))"

definition admitStart :: "transition_command \<Rightarrow> scenario_context option \<Rightarrow> jsnum \<Rightarrow> invalid_reason + admitted_command" where
  "admitStart c context startedAtMs =
     (if \<not> hasValidStartedAt (tc_queuedAtMs c) startedAtMs then Inl InvalidTimestamp
      else Inr (admitted_with c context (Running (tc_finalizationId c) (tc_queuedAtMs c) startedAtMs)))"

definition admitSuccess ::
  "transition_command \<Rightarrow> scenario_context option \<Rightarrow> jsnum \<Rightarrow> jsnum \<Rightarrow> jsval \<Rightarrow> invalid_reason + admitted_command" where
  "admitSuccess c context startedAtMs completedAtMs result =
     (if \<not> hasValidStartedAt (tc_queuedAtMs c) startedAtMs \<or> \<not> hasValidTerminalAt startedAtMs completedAtMs then Inl InvalidTimestamp
      else
        let successfulResult = admitFinalizationResultAuthority result;
            base = admitted_with c context (Succeeded (tc_finalizationId c) (tc_queuedAtMs c) startedAtMs completedAtMs)
        in Inr (base\<lparr>ac_successfulResult := successfulResult, ac_invalidSuccessfulResult := (successfulResult = None)\<rparr>))"

definition admitFailure ::
  "transition_command \<Rightarrow> scenario_context option \<Rightarrow> jsnum option \<Rightarrow> jsnum \<Rightarrow> jsval \<Rightarrow> invalid_reason + admitted_command" where
  "admitFailure c context startedAtMs failedAtMs error =
     (if \<not> hasValidOptionalStartedAt (tc_queuedAtMs c) startedAtMs \<or>
         \<not> hasValidTerminalAt (case startedAtMs of Some s \<Rightarrow> s | None \<Rightarrow> tc_queuedAtMs c) failedAtMs
      then Inl InvalidTimestamp
      else Inr (admitted_with c context (FailedState (tc_finalizationId c) (tc_queuedAtMs c) startedAtMs failedAtMs error)))"

definition admitTimeout ::
  "transition_command \<Rightarrow> scenario_context option \<Rightarrow> jsnum option \<Rightarrow> jsnum \<Rightarrow> invalid_reason + admitted_command" where
  "admitTimeout c context startedAtMs timeoutAtMs =
     (if \<not> hasValidOptionalStartedAt (tc_queuedAtMs c) startedAtMs \<or>
         \<not> hasValidTerminalAt (case startedAtMs of Some s \<Rightarrow> s | None \<Rightarrow> tc_queuedAtMs c) timeoutAtMs
      then Inl InvalidTimestamp
      else Inr (admitted_with c context (TimedOut (tc_finalizationId c) (tc_queuedAtMs c) startedAtMs timeoutAtMs)))"

definition admitCancellation ::
  "transition_command \<Rightarrow> scenario_context option \<Rightarrow> jsnum option \<Rightarrow> jsnum \<Rightarrow> string \<Rightarrow> invalid_reason + admitted_command" where
  "admitCancellation c context startedAtMs failedAtMs message =
     (if \<not> hasValidOptionalStartedAt (tc_queuedAtMs c) startedAtMs \<or>
         \<not> hasValidTerminalAt (case startedAtMs of Some s \<Rightarrow> s | None \<Rightarrow> tc_queuedAtMs c) failedAtMs \<or>
         length (js_trim message) = 0
      then Inl InvalidError
      else Inr (admitted_with c context (FailedState (tc_finalizationId c) (tc_queuedAtMs c) startedAtMs failedAtMs
             (error_value ''USER_CANCELLED'' message None None))))"

definition admitCommandState :: "transition_command \<Rightarrow> scenario_context option \<Rightarrow> invalid_reason + admitted_command" where
  "admitCommandState c context =
     (case tc_body c of
        Queue \<Rightarrow> admitQueue c context
      | Start startedAtMs \<Rightarrow> admitStart c context startedAtMs
      | Succeed startedAtMs completedAtMs result \<Rightarrow> admitSuccess c context startedAtMs completedAtMs result
      | Fail startedAtMs failedAtMs error \<Rightarrow> admitFailure c context startedAtMs failedAtMs error
      | TimeOut startedAtMs timeoutAtMs \<Rightarrow> admitTimeout c context startedAtMs timeoutAtMs
      | Cancel startedAtMs failedAtMs message \<Rightarrow> admitCancellation c context startedAtMs failedAtMs message)"

text \<open>
  \<open>asSessionId\<close> and \<open>parseFinalizationId\<close> test what \<open>hasValidBase\<close> has tested: their failures are never reached
  (\<open>safe_segments\<close>).
\<close>

definition admitCommand :: "transition_command \<Rightarrow> invalid_reason + admitted_command" where
  "admitCommand c =
     (case hasValidBase c of
        Some r \<Rightarrow> Inl r
      | None \<Rightarrow>
          if asSessionId (tc_sessionId c) \<noteq> Inr (tc_sessionId c) then Inl InvalidSessionId
          else if parseFinalizationId (JStr (tc_finalizationId c)) = None then Inl InvalidFinalizationIdentifier
          else if (case tc_body c of Fail _ _ error \<Rightarrow> \<not> hasValidFailureError error | _ \<Rightarrow> False) then Inl InvalidError
          else
            let context = admitScenarioContext (tc_scenarioContext c)
            in if \<not> hasRequiredScenarioContext c context then Inl InvalidScenarioContext else admitCommandState c context)"

section \<open>The decision\<close>

fun isTerminalState :: "finalization_state \<Rightarrow> bool" where
  "isTerminalState (Pending _ _) = False"
| "isTerminalState (Running _ _ _) = False"
| "isTerminalState _ = True"

definition resolveTerminalRejectionReason :: "finalization_state \<Rightarrow> string" where
  "resolveTerminalRejectionReason state =
     (case state of
        FailedState _ _ _ _ error \<Rightarrow>
          (case js_get error ''code'' of JStr s \<Rightarrow> if isFinalizationEventReason (JStr s) then s else ''TERMINAL_STATE_STICKY''
                                       | _ \<Rightarrow> ''TERMINAL_STATE_STICKY'')
      | _ \<Rightarrow> ''TERMINAL_STATE_STICKY'')"

fun haveSameNonterminalState :: "finalization_state \<Rightarrow> finalization_state \<Rightarrow> bool" where
  "haveSameNonterminalState (Pending i q) (Pending j r) = (i = j \<and> num_eq q r)"
| "haveSameNonterminalState (Running i q s) (Running j r t) = (i = j \<and> num_eq q r \<and> num_eq s t)"
| "haveSameNonterminalState _ _ = False"

text \<open>
  The source compares \<^verbatim>\<open>JSON.stringify\<close> of the two contexts.  Both list their properties in the order in which
  \<open>parseFinalizationScenarioContext\<close> builds them and hold only strings, finite numbers, arrays and null, on
  which \<^verbatim>\<open>JSON.stringify\<close> is injective.
\<close>

definition haveSameScenarioContext :: "scenario_context \<Rightarrow> scenario_context \<Rightarrow> bool" where
  "haveSameScenarioContext left right = (left = right)"

definition buildNextRecord :: "finalization_record option \<Rightarrow> admitted_command \<Rightarrow> finalization_record option" where
  "buildNextRecord currentRecord a =
     (case nullish (ac_scenarioContext a) (map_option fr_scenarioContext currentRecord) of
        None \<Rightarrow> None
      | Some context \<Rightarrow>
          let base = \<lparr>fr_sessionId = ac_sessionId a, fr_finalizationId = ac_finalizationId a, fr_scenarioContext = context,
                      fr_state = ac_state a, fr_finalizationResult = None\<rparr>
          in if \<not> is_succeeded (ac_state a) then Some base
             else case ac_successfulResult a of
                    None \<Rightarrow> None
                  | Some result \<Rightarrow>
                      Some (base\<lparr>fr_finalizationResult := Some \<lparr>rr_finalizationId = ac_finalizationId a, rr_authority = result\<rparr>\<rparr>))"

definition isCurrentCancellableState :: "finalization_state option \<Rightarrow> string \<Rightarrow> bool" where
  "isCurrentCancellableState state i =
     (case state of None \<Rightarrow> False | Some s \<Rightarrow> state_id s = i \<and> (state_status s = ''pending'' \<or> state_status s = ''running''))"

fun is_cancel :: "command_body \<Rightarrow> bool" where
  "is_cancel (Cancel _ _ _) = True"
| "is_cancel _ = False"

definition mismatch_outcome :: "finalization_state \<Rightarrow> finalization_state option \<Rightarrow> transition_outcome option" where
  "mismatch_outcome nextState state =
     (case state of
        Some s \<Rightarrow> if state_id s \<noteq> state_id nextState then Some (Rejected state ''EXECUTION_MISMATCH'') else None
      | None \<Rightarrow> None)"

definition evaluatePriorFinalizationState ::
  "command_body \<Rightarrow> finalization_state \<Rightarrow> finalization_state option \<Rightarrow> transition_outcome option" where
  "evaluatePriorFinalizationState body nextState state =
     (if is_cancel body then
        (if \<not> isCurrentCancellableState state (state_id nextState) then Some (Rejected state ''FINALIZATION_NOT_CANCELLABLE'')
         else mismatch_outcome nextState state)
      else case state of
             Some s \<Rightarrow>
               if state_id s = state_id nextState \<and> isTerminalState s then
                 (if state_status s = state_status nextState then Some (Idempotent s)
                  else Some (Rejected state (resolveTerminalRejectionReason s)))
               else mismatch_outcome nextState state
           | None \<Rightarrow> None)"

definition evaluateFinalizationTransition ::
  "finalization_record option \<Rightarrow> transition_command \<Rightarrow> jsnum \<Rightarrow> transition_outcome" where
  "evaluateFinalizationTransition currentRecord c evaluatedAtMs =
     (if \<not> policy_isNonNegativeInteger evaluatedAtMs then invalidCommand currentRecord InvalidEvaluationTime
      else case admitCommand c of
        Inl reason \<Rightarrow> invalidCommand currentRecord reason
      | Inr a \<Rightarrow>
          let state = currentState currentRecord in
          if (case currentRecord of Some r \<Rightarrow> fr_sessionId r \<noteq> ac_sessionId a | None \<Rightarrow> False)
          then invalidCommand currentRecord InvalidSessionId
          else case evaluatePriorFinalizationState (tc_body c) (ac_state a) state of
            Some prior \<Rightarrow> prior
          | None \<Rightarrow>
              if ac_invalidSuccessfulResult a then invalidCommand currentRecord InvalidFinalizationResult
              else case buildNextRecord currentRecord a of
                None \<Rightarrow> invalidCommand currentRecord InvalidScenarioContext
              | Some nextRecord \<Rightarrow>
                  (case currentRecord of
                     Some r \<Rightarrow>
                       if haveSameNonterminalState (fr_state r) (ac_state a) \<and>
                          haveSameScenarioContext (fr_scenarioContext r) (fr_scenarioContext nextRecord)
                       then Idempotent (fr_state r)
                       else Applied (ac_state a) (ac_reason a) nextRecord
                   | None \<Rightarrow> Applied (ac_state a) (ac_reason a) nextRecord))"

end
