(* ===== verification/FinalizationLifecycle.thy ===== *)
theory FinalizationLifecycle
  imports FinalizationPolicy
begin

text \<open>
  What the lifecycle policy guarantees of every record it lets into the store: the shape of records, the order of
  their times, the identity of the attempt and the permanence of terminal states, for every sequence of
  commands.
\<close>

section \<open>Commands as steps\<close>

text \<open>The current record of a session after a command: replaced exactly when the policy applies the command.\<close>

definition apply_command :: "finalization_record option \<Rightarrow> transition_command \<times> jsnum \<Rightarrow> finalization_record option" where
  "apply_command cur ct =
     (case evaluateFinalizationTransition cur (fst ct) (snd ct) of Applied _ _ next_record \<Rightarrow> Some next_record | _ \<Rightarrow> cur)"

definition lifecycle_step :: "finalization_record option \<Rightarrow> transition_command \<times> jsnum \<Rightarrow> finalization_record option \<Rightarrow> bool" where
  "lifecycle_step cur ct cur' \<longleftrightarrow> cur' = apply_command cur ct"

fun times_of :: "finalization_state \<Rightarrow> jsnum list" where
  "times_of (Pending _ q) = [q]"
| "times_of (Running _ q s) = [q, s]"
| "times_of (Succeeded _ q s c) = [q, s, c]"
| "times_of (FailedState _ q s f _) = [q] @ (case s of None \<Rightarrow> [] | Some t \<Rightarrow> [t]) @ [f]"
| "times_of (TimedOut _ q s f) = [q] @ (case s of None \<Rightarrow> [] | Some t \<Rightarrow> [t]) @ [f]"

text \<open>The times of a state are exact non-negative integers in order.\<close>

definition ordered_times :: "finalization_state \<Rightarrow> bool" where
  "ordered_times s \<longleftrightarrow>
     (\<exists>ts :: nat list. times_of s = map (\<lambda>t. js_int (int t)) ts \<and> sorted ts \<and> list_all (\<lambda>t. int t \<le> MAX_SAFE_INTEGER) ts)"

definition record_inv :: "finalization_record \<Rightarrow> bool" where
  "record_inv r \<longleftrightarrow>
     isSafeVerifierSegment (fr_sessionId r) \<and> isSafeVerifierSegment (fr_finalizationId r) \<and>
     state_id (fr_state r) = fr_finalizationId r \<and> ordered_times (fr_state r) \<and>
     (if is_succeeded (fr_state r) then map_option rr_finalizationId (fr_finalizationResult r) = Some (fr_finalizationId r)
      else fr_finalizationResult r = None)"

section \<open>Admitted commands\<close>

lemma safe_segments:
  "isSafeVerifierSegment s \<Longrightarrow> asSessionId s = Inr s" "isSafeVerifierSegment s \<Longrightarrow> parseFinalizationId (JStr s) = Some s"
  by (simp_all add: asSessionId_def assertSafeSegment_def isSafeVerifierSegment_def parseFinalizationId_def res_bind_def)

lemma policy_integer_iff: "policy_isNonNegativeInteger n \<longleftrightarrow> (\<exists>k. n = js_int (int k) \<and> int k \<le> MAX_SAFE_INTEGER)"
proof -
  have "policy_isNonNegativeInteger n = isNonNegativeSafeInteger (Some n)"
    by (simp add: policy_isNonNegativeInteger_def isNonNegativeSafeInteger_def)
  then show ?thesis by (simp add: isNonNegativeSafeInteger_iff)
qed

lemma two_times:
  "policy_isNonNegativeInteger q \<Longrightarrow> hasValidStartedAt q s \<Longrightarrow>
     \<exists>a b. q = js_int (int a) \<and> s = js_int (int b) \<and> a \<le> b \<and> int b \<le> MAX_SAFE_INTEGER"
  by (auto simp: hasValidStartedAt_def policy_integer_iff)

lemma ordered_timesI:
  "times_of s = map (\<lambda>t. js_int (int t)) ts \<Longrightarrow> sorted ts \<Longrightarrow> list_all (\<lambda>t. int t \<le> MAX_SAFE_INTEGER) ts \<Longrightarrow> ordered_times s"
  unfolding ordered_times_def by blast

lemma ordered_pending: "policy_isNonNegativeInteger q \<Longrightarrow> ordered_times (Pending i q)"
  by (auto simp: policy_integer_iff intro!: ordered_timesI [where ts = "[_]"])

lemma ordered_running: "policy_isNonNegativeInteger q \<Longrightarrow> hasValidStartedAt q s \<Longrightarrow> ordered_times (Running i q s)"
  by (drule (1) two_times) (auto intro!: ordered_timesI [where ts = "[_, _]"])

lemma ordered_succeeded:
  "policy_isNonNegativeInteger q \<Longrightarrow> hasValidStartedAt q s \<Longrightarrow> hasValidTerminalAt s c \<Longrightarrow> ordered_times (Succeeded i q s c)"
  by (drule (1) two_times)
    (auto simp: hasValidTerminalAt_def policy_integer_iff intro!: ordered_timesI [where ts = "[_, _, _]"])

lemma ordered_ended:
  assumes "policy_isNonNegativeInteger q" "hasValidOptionalStartedAt q s"
    "hasValidTerminalAt (case s of Some t \<Rightarrow> t | None \<Rightarrow> q) f"
  shows "ordered_times (FailedState i q s f e)" "ordered_times (TimedOut i q s f)"
proof -
  have "\<exists>ts. [q] @ (case s of None \<Rightarrow> [] | Some t \<Rightarrow> [t]) @ [f] = map (\<lambda>t. js_int (int t)) ts \<and> sorted ts \<and>
      list_all (\<lambda>t. int t \<le> MAX_SAFE_INTEGER) ts"
  proof (cases s)
    case None
    with assms obtain a b where "q = js_int (int a)" "f = js_int (int b)" "a \<le> b" "int b \<le> MAX_SAFE_INTEGER"
      by (auto simp: hasValidTerminalAt_def policy_integer_iff)
    with None show ?thesis by (intro exI [of _ "[a, b]"]) auto
  next
    case (Some t)
    with assms two_times [of q t] obtain a b c where "q = js_int (int a)" "t = js_int (int b)" "f = js_int (int c)" "a \<le> b" "b \<le> c"
      "int c \<le> MAX_SAFE_INTEGER"
      by (auto simp: hasValidTerminalAt_def hasValidOptionalStartedAt_def policy_integer_iff)
    with Some show ?thesis by (intro exI [of _ "[a, b, c]"]) auto
  qed
  then show "ordered_times (FailedState i q s f e)" "ordered_times (TimedOut i q s f)" by (simp_all add: ordered_times_def)
qed

lemmas admit_defs = admitCommandState_def admitQueue_def admitStart_def admitSuccess_def admitFailure_def admitTimeout_def
  admitCancellation_def admitted_with_def Let_def

lemma admitted:
  assumes "admitCommand c = Inr a"
  shows "hasValidBase c = None" "ac_sessionId a = tc_sessionId c" "ac_finalizationId a = tc_finalizationId c"
    "state_id (ac_state a) = tc_finalizationId c" "ac_scenarioContext a = admitScenarioContext (tc_scenarioContext c)"
    "ac_invalidSuccessfulResult a \<longleftrightarrow> is_succeeded (ac_state a) \<and> ac_successfulResult a = None"
    "is_cancel (tc_body c) \<Longrightarrow> state_status (ac_state a) = ''failed''"
proof -
  have s: "hasValidBase c = None" "admitCommandState c (admitScenarioContext (tc_scenarioContext c)) = Inr a"
    using assms by (auto simp: admitCommand_def Let_def split: option.splits if_splits)
  show "hasValidBase c = None" by (rule s(1))
  show "ac_sessionId a = tc_sessionId c" "ac_finalizationId a = tc_finalizationId c"
    "state_id (ac_state a) = tc_finalizationId c" "ac_scenarioContext a = admitScenarioContext (tc_scenarioContext c)"
    "ac_invalidSuccessfulResult a \<longleftrightarrow> is_succeeded (ac_state a) \<and> ac_successfulResult a = None"
    "is_cancel (tc_body c) \<Longrightarrow> state_status (ac_state a) = ''failed''"
    using s(2) by (auto simp: admit_defs split: command_body.splits if_splits)
qed

lemma valid_base:
  "hasValidBase c = None \<Longrightarrow> isSafeVerifierSegment (tc_sessionId c) \<and> isSafeVerifierSegment (tc_finalizationId c) \<and>
     policy_isNonNegativeInteger (tc_queuedAtMs c)"
  by (auto simp: hasValidBase_def split: if_splits)

lemma admitted_times:
  assumes "admitCommand c = Inr a"
  shows "ordered_times (ac_state a)"
proof -
  have "admitCommandState c (admitScenarioContext (tc_scenarioContext c)) = Inr a"
    using assms by (auto simp: admitCommand_def Let_def split: option.splits if_splits)
  moreover have "policy_isNonNegativeInteger (tc_queuedAtMs c)" using valid_base [OF admitted(1) [OF assms]] by simp
  ultimately show ?thesis
    by (auto simp: admit_defs intro: ordered_pending ordered_running ordered_succeeded ordered_ended split: command_body.splits if_splits)
qed

section \<open>When a command is applied\<close>

lemma prior_None_iff:
  "evaluatePriorFinalizationState body nextState state = None \<longleftrightarrow>
     (case state of None \<Rightarrow> \<not> is_cancel body | Some s \<Rightarrow> state_id s = state_id nextState \<and> \<not> isTerminalState s)"
  by (cases state; cases "the state")
    (auto simp: evaluatePriorFinalizationState_def mismatch_outcome_def isCurrentCancellableState_def)

lemma prior_not_applied: "evaluatePriorFinalizationState body nextState state \<noteq> Some (Applied s r n)"
  by (auto simp: evaluatePriorFinalizationState_def mismatch_outcome_def split: option.splits if_splits)

lemma next_record:
  assumes "buildNextRecord cur a = Some n"
  shows "fr_sessionId n = ac_sessionId a" "fr_finalizationId n = ac_finalizationId a" "fr_state n = ac_state a"
    "if is_succeeded (ac_state a) then \<exists>x. fr_finalizationResult n = Some \<lparr>rr_finalizationId = ac_finalizationId a, rr_authority = x\<rparr> \<and>
         ac_successfulResult a = Some x
     else fr_finalizationResult n = None"
    "Some (fr_scenarioContext n) = nullish (ac_scenarioContext a) (map_option fr_scenarioContext cur)"
  using assms by (auto simp: buildNextRecord_def Let_def split: option.splits if_splits)

text \<open>The record may take the command: there is none, or it is the unfinished record of the same attempt.\<close>

definition open_for :: "finalization_record option \<Rightarrow> transition_command \<Rightarrow> bool" where
  "open_for cur c \<longleftrightarrow>
     (case cur of
        None \<Rightarrow> \<not> is_cancel (tc_body c)
      | Some r \<Rightarrow> fr_sessionId r = tc_sessionId c \<and> state_id (fr_state r) = tc_finalizationId c \<and> \<not> isTerminalState (fr_state r))"

definition repeats :: "finalization_record option \<Rightarrow> finalization_record \<Rightarrow> bool" where
  "repeats cur n \<longleftrightarrow>
     (case cur of None \<Rightarrow> False | Some r \<Rightarrow> haveSameNonterminalState (fr_state r) (fr_state n) \<and> fr_scenarioContext r = fr_scenarioContext n)"

lemma applied_iff:
  "evaluateFinalizationTransition cur c t = Applied s reason n \<longleftrightarrow>
     policy_isNonNegativeInteger t \<and>
     (\<exists>a. admitCommand c = Inr a \<and> open_for cur c \<and> \<not> ac_invalidSuccessfulResult a \<and> buildNextRecord cur a = Some n \<and>
          \<not> repeats cur n \<and> s = ac_state a \<and> reason = ac_reason a)"
proof (cases "admitCommand c")
  case (Inl e)
  then show ?thesis by (simp add: evaluateFinalizationTransition_def invalidCommand_def)
next
  case (Inr a)
  note a = admitted [OF Inr]
  show ?thesis
  proof (cases "evaluatePriorFinalizationState (tc_body c) (ac_state a) (currentState cur)")
    case (Some p)
    then have "\<not> open_for cur c \<or> (case cur of Some r \<Rightarrow> fr_sessionId r \<noteq> ac_sessionId a | None \<Rightarrow> False)"
      using prior_None_iff [of "tc_body c" "ac_state a" "currentState cur"] a
      by (auto simp: open_for_def currentState_def split: option.splits)
    then show ?thesis
      using Some prior_not_applied Inr a(2)
      by (auto simp: evaluateFinalizationTransition_def invalidCommand_def open_for_def Let_def split: option.splits if_splits)
  next
    case None
    then have "open_for cur c \<longleftrightarrow> (case cur of Some r \<Rightarrow> fr_sessionId r = ac_sessionId a | None \<Rightarrow> True)"
      using prior_None_iff [of "tc_body c" "ac_state a" "currentState cur"] a
      by (auto simp: open_for_def currentState_def split: option.splits)
    then show ?thesis
      using None Inr a
      by (cases cur; cases "buildNextRecord cur a")
        (auto simp: evaluateFinalizationTransition_def invalidCommand_def Let_def repeats_def haveSameScenarioContext_def next_record(3))
  qed
qed

section \<open>Invariants\<close>

lemma applied_record_inv:
  assumes "evaluateFinalizationTransition cur c t = Applied s reason n"
  shows "record_inv n"
proof -
  obtain a where a: "admitCommand c = Inr a" "buildNextRecord cur a = Some n" using assms by (auto simp: applied_iff)
  show ?thesis
    using next_record [OF a(2)] admitted [OF a(1)] valid_base [OF admitted(1) [OF a(1)]] admitted_times [OF a(1)]
    by (auto simp: record_inv_def split: if_splits)
qed

definition well_kept :: "finalization_record option \<Rightarrow> bool" where
  "well_kept cur \<longleftrightarrow> (case cur of None \<Rightarrow> True | Some r \<Rightarrow> record_inv r)"

interpretation lifecycle: invariant_system "\<lambda>cur. cur = None" lifecycle_step well_kept
proof
  fix cur ct cur' assume "well_kept cur" "lifecycle_step cur ct cur'"
  then show "well_kept cur'"
    by (auto simp: lifecycle_step_def apply_command_def well_kept_def split: transition_outcome.splits dest: applied_record_inv)
qed (simp add: well_kept_def)

text \<open>What a later record keeps of an earlier one.\<close>

definition continues :: "finalization_record option \<Rightarrow> finalization_record option \<Rightarrow> bool" where
  "continues cur cur' \<longleftrightarrow>
     (case cur of
        None \<Rightarrow> True
      | Some r \<Rightarrow> (case cur' of
                     None \<Rightarrow> False
                   | Some r' \<Rightarrow> fr_sessionId r' = fr_sessionId r \<and> fr_finalizationId r' = fr_finalizationId r \<and>
                               (if isTerminalState (fr_state r) then r' = r else True)))"

lemma step_continues: "well_kept cur \<Longrightarrow> lifecycle_step cur ct cur' \<Longrightarrow> continues cur cur'"
  by (auto simp: lifecycle_step_def apply_command_def well_kept_def continues_def record_inv_def open_for_def applied_iff next_record admitted
      split: transition_outcome.splits option.splits)

interpretation lifecycle_history: monotone_system "\<lambda>cur ct cur'. well_kept cur \<and> lifecycle_step cur ct cur'" continues
proof
  show "continues a b \<Longrightarrow> continues b c \<Longrightarrow> continues a c" for a b c
    by (auto simp: continues_def split: option.splits if_splits)
  show "well_kept s \<and> lifecycle_step s l s' \<Longrightarrow> continues s s'" for s l s' using step_continues by blast
qed (simp add: continues_def split: option.split)

lemma runs_kept:
  "runs lifecycle_step cur cs cur' \<Longrightarrow> well_kept cur \<Longrightarrow> runs (\<lambda>a ct b. well_kept a \<and> lifecycle_step a ct b) cur cs cur'"
proof (induction rule: runs.induct)
  case (runs_Cons s l s' ls s'')
  then have "well_kept s'" using lifecycle.step_inv by blast
  with runs_Cons show ?case by (auto intro: runs.intros)
qed auto

section \<open>A session\<close>

definition sample_context :: scenario_context where
  "sample_context =
     \<lparr>sc_scenarios = [''S1''], sc_tamperMode = ''input'', sc_claimedCounts = [js_int 1, js_int 0, js_int 0, js_int 0, js_int 0],
      sc_claimedTotalVotes = js_int 1, sc_ignoredCount = js_int 0, sc_recountedCount = js_int 1, sc_userRecountChoice = Some ''B'',
      sc_affectedBotIds = None\<rparr>"

definition sample_command :: "jsval option \<Rightarrow> command_body \<Rightarrow> transition_command" where
  "sample_command context body =
     \<lparr>tc_sessionId = ''s-1'', tc_finalizationId = ''F1'', tc_queuedAtMs = js_int 5, tc_scenarioContext = context, tc_reason = None,
      tc_body = body\<rparr>"

definition sample_record :: "finalization_state \<Rightarrow> finalization_record" where
  "sample_record s =
     \<lparr>fr_sessionId = ''s-1'', fr_finalizationId = ''F1'', fr_scenarioContext = sample_context, fr_state = s, fr_finalizationResult = None\<rparr>"

lemma sample_context_parses: "parseFinalizationScenarioContext (context_value sample_context) = Some sample_context"
  by (simp add: parseFinalizationScenarioContext_def context_value_def sample_context_def get_eqs hasOnlyAllowedKeys_def
      FINALIZATION_SCENARIO_CONTEXT_KEYS_def FINALIZATION_SCENARIO_SUMMARY_KEYS_def SCENARIO_TAMPER_MODES_def parseCountRecord_def
      counts_value_def VOTE_CHOICES_def isNonNegativeInteger_def strings_value_def choice_value_def getObjectProperty_def
      parseAffectedBotIds_def hasOwn_def opt_field_def isNumberArray_def isStringArray_def)

lemma sample_base: "hasValidBase (sample_command x body) = None"
  by (simp add: hasValidBase_def sample_command_def isSafeVerifierSegment_def is_segment_char_def policy_isNonNegativeInteger_def
      MAX_SAFE_INTEGER_def)

lemma sample_segments: "isSafeVerifierSegment ''s-1''" "isSafeVerifierSegment ''F1''"
  by (simp_all add: isSafeVerifierSegment_def is_segment_char_def)

lemmas sample_eval = apply_command_def evaluateFinalizationTransition_def admitCommand_def sample_base safe_segments [OF sample_segments(1)]
  safe_segments [OF sample_segments(2)] sample_command_def admit_defs admitScenarioContext_def sample_context_parses
  hasRequiredScenarioContext_def evaluatePriorFinalizationState_def currentState_def buildNextRecord_def policy_isNonNegativeInteger_def
  MAX_SAFE_INTEGER_def hasValidStartedAt_def hasValidOptionalStartedAt_def hasValidTerminalAt_def mismatch_outcome_def sample_record_def
  haveSameScenarioContext_def

lemma sample_run:
  "apply_command None (sample_command (Some (context_value sample_context)) Queue, js_int 6) = Some (sample_record (Pending ''F1'' (js_int 5)))"
  "apply_command (Some (sample_record (Pending ''F1'' (js_int 5)))) (sample_command None (Start (js_int 7)), js_int 8) =
     Some (sample_record (Running ''F1'' (js_int 5) (js_int 7)))"
  using sample_base
  by (simp_all add: sample_eval)

text \<open>A successful result as the synchronous finalization writes it: the bitmap roots carry the prefix.\<close>

definition sample_bitmap :: bitmap_data where
  "sample_bitmap =
     \<lparr>bd_includedBitmap = [True, True, True], bd_includedBitmapRoot = ''0x'' @ leaf_a, bd_seen = Some ([True, True, True], ''0x'' @ leaf_a),
      bd_treeSize = js_int 3, bd_finalizedAtMs = js_int 9\<rparr>"

definition sample_authority :: result_authority where
  "sample_authority =
     \<lparr>pr_tamperDetected = Some False, pr_scenarios = None, pr_tamperSummary = None,
      ra_tally = \<lparr>ft_counts = [js_int 2, js_int 0, js_int 1, js_int 0, js_int 0], ft_totalVotes = js_int 3, ft_tamperedCount = js_int 0\<rparr>,
      ra_imageId = ''image'', ra_journal = projr (toPublicZkvmJournal sample_journal),
      ra_artifacts = createUnavailableFinalizationArtifacts\<lparr>aa_bitmap := Some (Mock, sample_bitmap)\<rparr>\<rparr>"

definition sample_result :: jsval where
  "sample_result =
     JObj [(''tally'', tally_value (ra_tally sample_authority)), (''imageId'', JStr ''image''), (''journal'', sample_journal),
       (''tamperDetected'', JBool False),
       (''artifacts'', JObj [(''publicAudit'', JObj [(''availability'', JStr ''unavailable'')]), (''receipt'', JObj [(''availability'', JStr ''unavailable'')]),
          (''receiptPublication'', JObj [(''availability'', JStr ''unavailable'')]),
          (''bitmap'', JObj [(''availability'', JStr ''available''), (''proofSource'', JStr ''mock''),
             (''data'', encodeFinalizationBitmapData sample_bitmap)])])]"

definition sample_success :: finalization_record where
  "sample_success =
     (sample_record (Succeeded ''F1'' (js_int 5) (js_int 7) (js_int 9)))
       \<lparr>fr_finalizationResult := Some \<lparr>rr_finalizationId = ''F1'', rr_authority = sample_authority\<rparr>\<rparr>"

lemma prefixed_root: "BITMAP_ROOT_PATTERN (''0x'' @ leaf_a)" "BITMAP_ROOT_PATTERN leaf_a"
  by code_simp+

lemma sample_bitmap_parses: "parseFinalizationBitmapData (encodeFinalizationBitmapData sample_bitmap) = Some sample_bitmap"
  using prefixed_root
  by (simp add: parseFinalizationBitmapData_def encodeFinalizationBitmapData_def sample_bitmap_def get_eqs hasOnlyAllowedKeys_def BITMAP_DATA_KEYS_def
      parseStoredSeenBitmap_def hasOwn_def isBooleanArray_def isNonNegativeSafeInteger_def MAX_SAFE_INTEGER_def)

lemma sample_tally_parses: "parseFinalizationTally (tally_value (ra_tally sample_authority)) = Some (ra_tally sample_authority)"
  by (simp add: parseFinalizationTally_def tally_value_def sample_authority_def get_eqs hasOnlyAllowedKeys_def FINALIZATION_TALLY_KEYS_def
      parseCountRecord_def counts_value_def VOTE_CHOICES_def isNonNegativeInteger_def)

lemma sample_journal_parses:
  "isNonNullObject sample_journal" "hasOnlyAllowedKeys sample_journal JOURNAL_KEYS"
  "\<exists>j. toPublicZkvmJournal sample_journal = Inr j"
proof -
  show "isNonNullObject sample_journal" "hasOnlyAllowedKeys sample_journal JOURNAL_KEYS" by code_simp+
  show "\<exists>j. toPublicZkvmJournal sample_journal = Inr j" by (rule supported_journal [OF sample_journal_ok(1)]) blast
qed

lemma sample_result_admitted: "admitFinalizationResultAuthority sample_result = Some sample_authority"
proof -
  obtain j where j: "toPublicZkvmJournal sample_journal = Inr j" using sample_journal_parses(3) by blast
  let ?w = "JObj [(''tally'', tally_value (ra_tally sample_authority)), (''imageId'', JStr ''image''), (''journal'', sample_journal),
      (''tamperDetected'', JBool False), (''bitmapProofSource'', JStr ''mock''), (''bitmapData'', encodeFinalizationBitmapData sample_bitmap)]"
  have "parseStoredScenarioPresentation ?w = Some \<lparr>pr_tamperDetected = Some False, pr_scenarios = None, pr_tamperSummary = None\<rparr>"
    "parseStoredReceiptArtifacts ?w = Some (None, None)" "parseStoredPublicAuditArtifacts ?w = Some None"
    "parseStoredBitmapArtifact ?w = Some (Some (Mock, sample_bitmap))"
    using sample_bitmap_parses
    by (simp_all add: parseStoredScenarioPresentation_def projectStoredScenarioPresentation_def parseStoredReceiptArtifacts_def
        parseStoredPublicAuditArtifacts_def parseStoredBitmapArtifact_def hasOwn_def get_eqs isStringArray_def)
  then have "parseFinalizationResultAuthority ?w = Some sample_authority"
    using sample_tally_parses sample_journal_parses(1,2) sample_journal_ok(1) j
    by (simp add: parseFinalizationResultAuthority_def hasOnlyAllowedKeys_def FINALIZATION_RESULT_AUTHORITY_KEYS_def get_eqs)
      (simp add: sample_authority_def createUnavailableFinalizationArtifacts_def scenario_presentation.extend_def result_authority.fields_def)
  then show ?thesis
    by (simp add: admitFinalizationResultAuthority_def sample_result_def hasOnlyAllowedKeys_def ADMITTED_FINALIZATION_RESULT_AUTHORITY_KEYS_def
        hasExactOwnKeys_def FINALIZATION_ARTIFACT_AVAILABILITY_KEYS_def hasExactAvailabilityKeys_def copy_if_def is_available_def hasOwn_def Let_def)
qed

lemma sample_success_run:
  "apply_command (Some (sample_record (Running ''F1'' (js_int 5) (js_int 7)))) (sample_command None (Succeed (js_int 7) (js_int 9) sample_result), js_int 9) =
     Some sample_success"
  "apply_command (Some sample_success) (sample_command None (TimeOut (Some (js_int 7)) (js_int 10)), js_int 10) = Some sample_success"
  using sample_base sample_result_admitted
  by (simp_all add: sample_eval sample_success_def)

lemma sample_success_runs:
  "runs lifecycle_step None
     [(sample_command (Some (context_value sample_context)) Queue, js_int 6), (sample_command None (Start (js_int 7)), js_int 8),
      (sample_command None (Succeed (js_int 7) (js_int 9) sample_result), js_int 9)]
     (Some sample_success)"
  "runs lifecycle_step (Some sample_success) [(sample_command None (TimeOut (Some (js_int 7)) (js_int 10)), js_int 10)] (Some sample_success)"
  using sample_run(1,2) sample_success_run by (auto simp: lifecycle_step_def intro!: runs.intros)

section \<open>Properties\<close>

text \<open>C25: every record the policy lets into a session is well formed.  Starting from no record, after any sequence
  of commands, however malformed or out of order, the current record has safe identifiers, its state carries the
  identifier of the record, its times are exact non-negative integers with queued before started before ended, and
  it has a result exactly when it succeeded, bound to the same identifier.\<close>

theorem lifecycle_records_well_formed:
  assumes "runs lifecycle_step None cs (Some r)"
  shows "record_inv r"
  using lifecycle.reachable_inv [OF refl assms] by (simp add: well_kept_def)

theorem lifecycle_records_well_formed_witness:
  "record_inv sample_success"
  using lifecycle_records_well_formed [OF sample_success_runs(1)] .

text \<open>C26: an attempt keeps its identity and its end.  Whatever commands follow, the current record of a session is
  never dropped, never moves to another session or another finalization, and once its state is terminal it is
  never changed again.\<close>

theorem terminal_record_is_final:
  assumes "runs lifecycle_step None cs (Some r)" "runs lifecycle_step (Some r) ds cur"
  shows "\<exists>r'. cur = Some r' \<and> fr_sessionId r' = fr_sessionId r \<and> fr_finalizationId r' = fr_finalizationId r \<and>
    (if isTerminalState (fr_state r) then r' = r else True)"
proof -
  have "well_kept (Some r)" using lifecycle.reachable_inv [OF refl assms(1)] .
  from lifecycle_history.runs_le [OF runs_kept [OF assms(2) this]] show ?thesis
    by (auto simp: continues_def split: option.splits)
qed

theorem terminal_record_is_final_witness:
  "\<exists>r'. Some sample_success = Some r' \<and> fr_sessionId r' = fr_sessionId sample_success \<and>
     fr_finalizationId r' = fr_finalizationId sample_success \<and> (if isTerminalState (fr_state sample_success) then r' = sample_success else True)"
  by (rule terminal_record_is_final [OF sample_success_runs])

text \<open>Exactly when a command is applied.  The evaluation time must be a safe non-negative integer, the command
  must be admitted, the session must have no record (and then the command must not be a cancellation) or an
  unfinished record of the same session and the same finalization, a success must carry an admitted result, a
  scenario context must be given or recorded, and the command must not repeat the recorded state.  The new
  state is the admitted one and the record to be written is the one built from it.\<close>

theorem transition_applied_iff:
  "evaluateFinalizationTransition cur c t = Applied s reason n \<longleftrightarrow>
     policy_isNonNegativeInteger t \<and>
     (\<exists>a. admitCommand c = Inr a \<and> open_for cur c \<and> \<not> ac_invalidSuccessfulResult a \<and> buildNextRecord cur a = Some n \<and>
          \<not> repeats cur n \<and> s = ac_state a \<and> reason = ac_reason a)"
  by (rule applied_iff)

end
