(* ===== verification/FinalizationCodec.thy ===== *)
theory FinalizationCodec
  imports FinalizationLifecycle
begin

text \<open>
  The codec of finalization records: what was decoded is decoded again from its encoding, part by part, and
  the records the lifecycle policy produces can be read back.
\<close>

section \<open>Parts\<close>

lemma map_of_opt_field [simp]: "map_of (opt_field k v) k' = (if k = k' then v else None)"
  by (auto simp: opt_field_def split: option.splits)

lemma fst_opt_field [simp]: "fst ` set (opt_field k v) = (if v = None then {} else {k})"
  by (auto simp: opt_field_def split: option.splits)

lemma keys_opt_field: "map fst (opt_field k v) = (if v = None then [] else [k])"
  by (auto simp: opt_field_def split: option.splits)

lemma those_Some: "those xs = Some ys \<longleftrightarrow> xs = map Some ys"
  by (induction xs arbitrary: ys) (auto split: option.splits)

lemma number_array_finite: "isNumberArray v = Some ns \<Longrightarrow> n \<in> set ns \<Longrightarrow> isFinite n"
proof -
  assume a: "isNumberArray v = Some ns" "n \<in> set ns"
  then obtain xs where "as_array v = Some xs" "map as_number xs = map Some ns"
    by (auto simp: isNumberArray_def those_Some split: Option.bind_splits)
  then have "Some n \<in> as_number ` set xs" using a(2) by (metis image_eqI list.set_map)
  then show "isFinite n" by (auto simp: as_number_Some dest: sym)
qed

lemma get_not_own: "\<not> hasOwn v k \<Longrightarrow> js_get v k = JUndef"
proof (cases v)
  case (JObj fs)
  assume "\<not> hasOwn v k"
  then have "map_of fs k = None" using JObj by (simp add: hasOwn_def map_of_eq_None_iff)
  with JObj show ?thesis by simp
qed simp_all

lemma numbers_read_back: "isNumberArray v = Some ns \<Longrightarrow> isNumberArray (numbers_value ns) = Some ns"
  using number_array_finite by (auto simp: numbers_value_def)

lemma strings_read_back [simp]: "isStringArray (strings_value ss) = Some ss"
  by (simp add: strings_value_def)

lemma isStringArray_undefined [simp]: "isStringArray JUndef = None"
  by (simp add: isStringArray_def)

lemma choice_read_back: "nullable_choice v = Some c \<Longrightarrow> nullable_choice (choice_value c) = Some c"
  by (cases v rule: nullable_choice.cases) (auto simp: choice_value_def split: if_splits)

lemma nonneg_finite [simp]: "isNonNegativeInteger (Some n) \<Longrightarrow> isFinite n"
  by (auto simp: isNonNegativeInteger_iff)

lemma nonneg_safe_finite [simp]: "isNonNegativeSafeInteger (Some n) \<Longrightarrow> isFinite n"
  by (auto simp: isNonNegativeSafeInteger_iff)

lemma nonneg_the [simp]: "isNonNegativeInteger v \<Longrightarrow> isNonNegativeInteger (Some (the v))"
  by (auto simp: isNonNegativeInteger_iff)

lemma nonneg_Some: "isNonNegativeInteger v \<Longrightarrow> \<exists>n. v = Some n"
  by (auto simp: isNonNegativeInteger_iff)

lemma counts_read_back:
  assumes "parseCountRecord v = Some cs"
  shows "parseCountRecord (counts_value cs) = Some cs"
proof -
  obtain a b c d e where n: "cs = [a, b, c, d, e]" "list_all (\<lambda>n. isNonNegativeInteger (Some n)) cs"
    using assms by (auto simp: parseCountRecord_def VOTE_CHOICES_def Let_def split: option.splits if_splits)
  then show ?thesis by (simp add: parseCountRecord_def counts_value_def VOTE_CHOICES_def get_eqs)
qed

lemma bot_ids_read_back:
  assumes "parseAffectedBotIds v = Some ids" "js_get w ''affectedBotIds'' = (case ids of None \<Rightarrow> JUndef | Some ns \<Rightarrow> numbers_value ns)"
    "hasOwn w ''affectedBotIds'' = (ids \<noteq> None)"
  shows "parseAffectedBotIds w = Some ids"
proof (cases ids)
  case None
  with assms show ?thesis by (simp add: parseAffectedBotIds_def get_eqs isNumberArray_def)
next
  case (Some ns)
  then have "isNumberArray (js_get v ''affectedBotIds'') = Some ns" "isIntegerArray ns"
    using assms(1) get_not_own [of v "''affectedBotIds''"]
    by (auto simp: parseAffectedBotIds_def get_eqs Let_def isNumberArray_def split: if_splits option.splits)
  with Some assms(2,3) numbers_read_back show ?thesis by (auto simp: parseAffectedBotIds_def get_eqs)
qed

lemma context_read_back:
  assumes "parseFinalizationScenarioContext v = Some c"
  shows "parseFinalizationScenarioContext (context_value c) = Some c"
proof -
  obtain s where "getObjectProperty v ''summary'' = Some s"
    using assms by (auto simp: parseFinalizationScenarioContext_def Let_def split: if_splits option.splits)
  note s = this
  have f: "sc_tamperMode c \<in> set SCENARIO_TAMPER_MODES" "sc_tamperMode c \<noteq> []" "parseCountRecord (js_get v ''claimedCounts'') = Some (sc_claimedCounts c)"
    "isNonNegativeInteger (Some (sc_claimedTotalVotes c))" "isNonNegativeInteger (Some (sc_ignoredCount c))"
    "isNonNegativeInteger (Some (sc_recountedCount c))" "nullable_choice (js_get s ''userRecountChoice'') = Some (sc_userRecountChoice c)"
    "parseAffectedBotIds s = Some (sc_affectedBotIds c)"
    using assms s
    by (auto simp: parseFinalizationScenarioContext_def Let_def truthy_iff split: if_splits option.splits)
  let ?w = "JObj ([(''ignoredCount'', JNum (sc_ignoredCount c)), (''recountedCount'', JNum (sc_recountedCount c)),
          (''userRecountChoice'', choice_value (sc_userRecountChoice c))] @
          opt_field ''affectedBotIds'' (map_option numbers_value (sc_affectedBotIds c)))"
  have "parseAffectedBotIds ?w = Some (sc_affectedBotIds c)"
    by (rule bot_ids_read_back [OF f(8)]) (auto simp: hasOwn_def split: option.splits)
  moreover have "hasOnlyAllowedKeys ?w FINALIZATION_SCENARIO_SUMMARY_KEYS"
    by (simp add: hasOnlyAllowedKeys_def FINALIZATION_SCENARIO_SUMMARY_KEYS_def keys_opt_field)
  ultimately show ?thesis
    using f(1,2,4,5,6) counts_read_back [OF f(3)] choice_read_back [OF f(7)]
    by (simp add: parseFinalizationScenarioContext_def context_value_def get_eqs hasOnlyAllowedKeys_def
        FINALIZATION_SCENARIO_CONTEXT_KEYS_def getObjectProperty_def Let_def del: map_of_opt_field append.simps)
qed

lemma error_read_back:
  assumes "parseFinalizationError v = Some e"
  shows "parseFinalizationError e = Some e"
proof -
  obtain code message cat details where e: "e = error_value code message cat details"
    "case cat of None \<Rightarrow> True | Some c \<Rightarrow> c \<noteq> [] \<and> c \<in> set FinalizationFailureCategory"
    using assms get_not_own [of v "''category''"]
    by (auto simp: parseFinalizationError_def parseFinalizationErrorCategory_def Let_def get_eqs truthy_iff
        split: if_splits option.splits) 
  then show ?thesis
    by (cases cat; cases details)
      (auto simp: parseFinalizationError_def error_value_def hasOnlyAllowedKeys_def FINALIZATION_ERROR_KEYS_def opt_field_def get_eqs
        parseFinalizationErrorCategory_def hasOwn_def)
qed

definition times_nonneg :: "finalization_state \<Rightarrow> bool" where
  "times_nonneg s \<longleftrightarrow> list_all (\<lambda>t. isNonNegativeInteger (Some t)) (times_of s)"

text \<open>The states that are read back: safe identifier, integral times and an error in its stored form.\<close>

fun error_stored :: "finalization_state \<Rightarrow> bool" where
  "error_stored (FailedState _ _ _ _ e) = (parseFinalizationError e = Some e)"
| "error_stored _ = True"

definition storable_state :: "finalization_state \<Rightarrow> bool" where
  "storable_state s \<longleftrightarrow> isSafeVerifierSegment (state_id s) \<and> times_nonneg s \<and> error_stored s"

lemmas state_parse_defs = parseFinalizationState_def parseFinalizationProgress_def parseCompletedFinalization_def parseFailedFinalization_def Let_def

lemma parsed_state_storable:
  assumes "parseFinalizationState v = Some s"
  shows "storable_state s"
proof -
  obtain st i q where b: "getStringProperty v ''status'' = Some st" "parseFinalizationId (js_get v ''finalizationId'') = Some i"
    "isNonNegativeInteger (getNumberProperty v ''queuedAtMs'')" "q = the (getNumberProperty v ''queuedAtMs'')"
    "hasOwn v ''startedAtMs'' \<longrightarrow> isNonNegativeInteger (getNumberProperty v ''startedAtMs'')"
    and p: "parseFinalizationProgress st v i q (getNumberProperty v ''startedAtMs'') = Some s"
    using assms by (auto simp: parseFinalizationState_def Let_def split: if_splits option.splits)
  have i: "isSafeVerifierSegment i" using b(2) by (auto simp: parseFinalizationId_def split: jsval.splits if_splits)
  have q: "isNonNegativeInteger (Some q)" using b(3,4) by simp
  have st: "case getNumberProperty v ''startedAtMs'' of None \<Rightarrow> True | Some t \<Rightarrow> isNonNegativeInteger (Some t)"
    using b(5) get_not_own [of v "''startedAtMs''"] by (auto simp: get_eqs split: option.splits)
  show ?thesis
    using p i q st error_read_back
    by (auto simp: parseFinalizationProgress_def parseCompletedFinalization_def parseFailedFinalization_def Let_def storable_state_def
        times_nonneg_def split: if_splits option.splits)
qed

text \<open>What becomes of a state when it is stored: the error of a failure is brought into stored form or refused.\<close>

fun stored_state :: "finalization_state \<Rightarrow> finalization_state option" where
  "stored_state (FailedState i q s f e) = map_option (FailedState i q s f) (parseFinalizationError e)"
| "stored_state s = Some s"

lemma stored_state_iff: "stored_state s = Some s \<longleftrightarrow> error_stored s"
  by (cases s) auto

lemma stored_state_same:
  assumes "stored_state s = Some s'"
  shows "state_id s' = state_id s" "times_of s' = times_of s" "is_succeeded s' = is_succeeded s" "error_stored s'"
  using assms error_read_back by (cases s; auto)+

lemma state_read_back:
  assumes "isSafeVerifierSegment (state_id s)" "times_nonneg s"
  shows "parseFinalizationState (state_value s) = stored_state s"
proof -
  have i: "parseFinalizationId (JStr (state_id s)) = Some (state_id s)" using assms(1) by (simp add: parseFinalizationId_def)
  show ?thesis
    using assms(2) i
    by (cases s)
      (auto simp: times_nonneg_def state_parse_defs FINALIZATION_STATE_KEYS_BY_STATUS_def isFinalizationStatus_def
        hasOnlyAllowedKeys_def get_eqs hasOwn_def opt_field_def split: option.splits)
qed

section \<open>Parts of a result\<close>

lemma tally_read_back:
  assumes "parseFinalizationTally v = Some x"
  shows "parseFinalizationTally (tally_value x) = Some x"
proof -
  have f: "parseCountRecord (js_get v ''counts'') = Some (ft_counts x)" "isNonNegativeInteger (Some (ft_totalVotes x))"
    "isNonNegativeInteger (Some (ft_tamperedCount x))"
    using assms by (auto simp: parseFinalizationTally_def Let_def split: if_splits)
  then show ?thesis
    using counts_read_back [OF f(1)]
    by (simp add: parseFinalizationTally_def tally_value_def get_eqs hasOnlyAllowedKeys_def FINALIZATION_TALLY_KEYS_def)
qed

lemma receipt_journal_read_back:
  "parseReceiptJournal v = Some j \<Longrightarrow> parseReceiptJournal (receipt_journal_value j) = Some j"
  using numbers_read_back
  by (auto simp: parseReceiptJournal_def get_eqs hasOnlyAllowedKeys_def split: jsval.splits if_splits option.splits)

lemma receipt_read_back:
  assumes "parseReceiptWithImageId v = Some r"
  shows "parseReceiptWithImageId (receipt_value r) = Some r"
proof -
  obtain m where f: "parseReceiptJournal (js_get v ''journal'') = Some (ri_journal r)" "ri_journal r \<noteq> ReceiptText []"
    "ri_imageId r \<noteq> Some []" "ri_metadata r = map_option JObj m"
    using assms
    by (auto simp: parseReceiptWithImageId_def if_truthy_def option.map_comp comp_def split: if_splits option.splits
        intro: that [of "map_option spread (getObjectProperty v ''metadata'')"])
  show ?thesis
    using receipt_journal_read_back [OF f(1)] f(2-4)
    by (cases r; cases "ri_imageId r"; cases m)
      (auto simp: parseReceiptWithImageId_def receipt_value_def get_eqs hasOnlyAllowedKeys_def RECEIPT_KEYS_def keys_opt_field if_truthy_def
        getObjectProperty_def opt_field_def)
qed

lemma publication_read_back:
  assumes "parseReceiptPublication v = Some r"
  shows "parseReceiptPublication (publication_value r) = Some r"
proof -
  have "isNonNegativeInteger (Some (rp_boardIndex r))" "case rp_timestamp r of None \<Rightarrow> True | Some t \<Rightarrow> isNonNegativeInteger (Some t)"
    using assms get_not_own [of v "''timestamp''"]
    by (auto simp: parseReceiptPublication_def Let_def get_eqs split: if_splits option.splits)
  then show ?thesis
    by (cases r; cases "rp_timestamp r")
      (auto simp: parseReceiptPublication_def publication_value_def get_eqs hasOnlyAllowedKeys_def RECEIPT_PUBLICATION_KEYS_def opt_field_def hasOwn_def)
qed

lemma bitmap_read_back:
  assumes "parseFinalizationBitmapData v = Some d"
  shows "parseFinalizationBitmapData (encodeFinalizationBitmapData d) = Some d"
proof -
  have s: "parseStoredSeenBitmap v = Some (bd_seen d)" and f: "BITMAP_ROOT_PATTERN (bd_includedBitmapRoot d)"
    "isNonNegativeSafeInteger (Some (bd_treeSize d))" "isNonNegativeSafeInteger (Some (bd_finalizedAtMs d))"
    using assms by (auto simp: parseFinalizationBitmapData_def Let_def isNonNegativeSafeInteger_iff split: if_splits option.splits)
  have "case bd_seen d of None \<Rightarrow> True | Some (bits, r) \<Rightarrow> BITMAP_ROOT_PATTERN r \<and> r \<noteq> []"
    using s get_not_own [of v "''seenBitmap''"]
    by (auto simp: parseStoredSeenBitmap_def Let_def truthy_iff get_eqs isBooleanArray_def split: if_splits option.splits)
  with f show ?thesis
    by (cases d; cases "bd_seen d")
      (auto simp: parseFinalizationBitmapData_def encodeFinalizationBitmapData_def get_eqs hasOnlyAllowedKeys_def BITMAP_DATA_KEYS_def
        parseStoredSeenBitmap_def hasOwn_def isBooleanArray_def split: prod.splits)
qed

lemma tamper_summary_read_back:
  assumes "parseTamperSummary v = Some x"
  shows "parseTamperSummary (tamper_summary_value x) = Some x"
proof -
  have f: "isNonNegativeInteger (Some (ts_ignoredVotes x))" "isNonNegativeInteger (Some (ts_recountedVotes x))"
    "nullable_choice (js_get v ''userRecountedTo'') = Some (ts_userRecountedTo x)" "parseAffectedBotIds v = Some (ts_affectedBotIds x)"
    using assms by (auto simp: parseTamperSummary_def Let_def split: if_splits option.splits)
  have "parseAffectedBotIds (tamper_summary_value x) = Some (ts_affectedBotIds x)"
    by (rule bot_ids_read_back [OF f(4)]) (auto simp: hasOwn_def tamper_summary_value_def split: option.splits)
  then show ?thesis
    using f(1,2) choice_read_back [OF f(3)]
    by (simp add: parseTamperSummary_def hasOnlyAllowedKeys_def TAMPER_SUMMARY_KEYS_def keys_opt_field Let_def)
      (simp add: tamper_summary_value_def get_eqs keys_opt_field)
qed

lemma public_input_read_back:
  assumes "parseStoredPublicInputArtifact v = Some a"
  shows "parseStoredPublicInputArtifact (stored_value a) = Some a"
proof (rule stored_read_back)
  show "canonical_authority (sa_typedAuthority a)"
    using assms
    by (auto simp: parseStoredPublicInputArtifact_def admitStoredPublicInputAuthority_def admitStoredInputIdentity_def
        admitStoredInputSnapshot_def admitStoredInputVoteFacts_def Let_def canonical_authority_def hash_present integer_present truthy_present
        split: option.splits if_splits prod.splits)
  show "provenance_ok (sa_provenance a)"
    using assms
    by (auto simp: parseStoredPublicInputArtifact_def projectStoredPublicInputProvenance_def provenance_ok_def if_truthy_def
        split: option.splits if_splits)
qed

section \<open>Journals\<close>

definition journal_strings :: "string list" where
  "journal_strings = [''electionId'', ''electionConfigHash'', ''bulletinRoot'', ''sthDigest'', ''includedBitmapRoot'', ''inputCommitment'', ''seenBitmapRoot'']"

definition journal_numbers :: "string list" where
  "journal_numbers =
     [''treeSize'', ''totalExpected'', ''totalVotes'', ''validVotes'', ''invalidVotes'', ''seenIndicesCount'', ''missingSlots'',
      ''invalidPresentedSlots'', ''rejectedRecords'', ''excludedSlots'']"

lemma supported_fields:
  assumes "isSupportedZkVMJournal v"
  shows "list_all (\<lambda>k. getStringProperty v k = Some (the_string v k)) journal_strings"
    "list_all (\<lambda>k. getNumberProperty v k = Some (the_number v k) \<and> isFinite (the_number v k)) journal_numbers"
    "\<exists>ts. getNumberArrayProperty v ''verifiedTally'' = Some ts \<and> length ts = 5 \<and> (\<forall>n \<in> set ts. isFinite n)"
    "getNumberProperty v ''methodVersion'' = Some (js_int CURRENT_METHOD_VERSION)" "\<not> hasLegacyJournalCountAliases v"
proof -
  have r: "isCurrentJournalRecord v" "truthy (getStringProperty v ''electionId'')"
    "list_all isJournalHash (map (getStringProperty v)
       [''electionConfigHash'', ''bulletinRoot'', ''sthDigest'', ''includedBitmapRoot'', ''inputCommitment'', ''seenBitmapRoot''])"
    "hasCoherentCurrentZkVMJournalSemantics (journal_semantics_of v)" "isSupportedJournalMethodVersion (getNumberProperty v ''methodVersion'')"
    using assms by (auto simp: isSupportedZkVMJournal_def Let_def split: if_splits)
  show "list_all (\<lambda>k. getStringProperty v k = Some (the_string v k)) journal_strings"
    using r(2,3) by (auto simp: journal_strings_def the_string_def isJournalHash_def truthy_iff)
  have c: "hasCoherentZkVMVoteSlotPartition (journal_semantics_of v)"
    using r(4) by (auto simp: hasCoherentCurrentZkVMJournalSemantics_def split: if_splits)
  have "list_all (\<lambda>k. isCurrentJournalUint32 (getNumberProperty v k)) journal_numbers"
    using r(4) c
    by (auto simp: hasCoherentCurrentZkVMJournalSemantics_def hasCoherentZkVMVoteSlotPartition_def journal_numbers_def journal_semantics_of_def
        isCurrentJournalPositiveUint32_def split: if_splits)
  then show "list_all (\<lambda>k. getNumberProperty v k = Some (the_number v k) \<and> isFinite (the_number v k)) journal_numbers"
    by (rule list.pred_mono_strong) (auto simp: uint32_iff the_number_def)
  obtain ts where ts: "getNumberArrayProperty v ''verifiedTally'' = Some ts" "length ts = 5"
    using c by (auto simp: hasCoherentZkVMVoteSlotPartition_def journal_semantics_of_def VOTE_CHOICES_def split: if_splits)
  then have "\<forall>n \<in> set ts. isFinite n" using number_array_finite by (auto simp: get_eqs)
  with ts show "\<exists>ts. getNumberArrayProperty v ''verifiedTally'' = Some ts \<and> length ts = 5 \<and> (\<forall>n \<in> set ts. isFinite n)" by blast
  show "getNumberProperty v ''methodVersion'' = Some (js_int CURRENT_METHOD_VERSION)"
    using r(5) by (auto simp: isSupportedJournalMethodVersion_def dest: num_eqD split: option.splits)
  show "\<not> hasLegacyJournalCountAliases v" using r(1) by (simp add: isCurrentJournalRecord_def)
qed

lemma supported_journal_projects:
  assumes "isSupportedZkVMJournal v"
  shows "\<exists>j. toPublicZkvmJournal v = Inr j"
  using supported_fields [OF assms] by (simp add: toPublicZkvmJournal_def journal_strings_def)

lemma journal_value_gets:
  assumes "isSupportedZkVMJournal v" "toPublicZkvmJournal v = Inr j"
  shows "list_all (\<lambda>k. getStringProperty (journal_value j) k = getStringProperty v k) (''imageId'' # journal_strings)"
    "list_all (\<lambda>k. getNumberProperty (journal_value j) k = getNumberProperty v k) (''methodVersion'' # journal_numbers)"
    "getNumberArrayProperty (journal_value j) ''verifiedTally'' = getNumberArrayProperty v ''verifiedTally''"
proof -
  note f = supported_fields [OF assms(1)]
  obtain ts where ts: "getNumberArrayProperty v ''verifiedTally'' = Some ts" "length ts = 5" "\<forall>n \<in> set ts. isFinite n" using f(3) by blast
  have j: "j_electionId j = the_string v ''electionId''" "j_electionConfigHash j = the_string v ''electionConfigHash''"
    "j_bulletinRoot j = the_string v ''bulletinRoot''" "j_treeSize j = the_number v ''treeSize''"
    "j_totalExpected j = the_number v ''totalExpected''" "j_sthDigest j = the_string v ''sthDigest''"
    "j_verifiedTally j = Some ts"
    "j_totalVotes j = Some (the_number v ''totalVotes'')" "j_validVotes j = Some (the_number v ''validVotes'')"
    "j_missingSlots j = Some (the_number v ''missingSlots'')"
    "j_invalidPresentedSlots j = Some (the_number v ''invalidPresentedSlots'')"
    "j_excludedSlots j = Some (the_number v ''excludedSlots'')"
    "j_seenBitmapRoot j = getStringProperty v ''seenBitmapRoot''" "j_includedBitmapRoot j = the_string v ''includedBitmapRoot''"
    "j_inputCommitment j = the_string v ''inputCommitment''"
    "cj_invalidVotes j = the_number v ''invalidVotes''" "cj_seenIndicesCount j = the_number v ''seenIndicesCount''"
    "cj_rejectedRecords j = the_number v ''rejectedRecords''" "cj_methodVersion j = js_int CURRENT_METHOD_VERSION"
    "cj_imageId j = getStringProperty v ''imageId''"
    using assms(2) ts(1,2) by (auto simp: toPublicZkvmJournal_def split: if_splits)
  show "list_all (\<lambda>k. getStringProperty (journal_value j) k = getStringProperty v k) (''imageId'' # journal_strings)"
    using f(1) by (cases "as_string (js_get v ''imageId'')") (simp_all add: journal_strings_def journal_value_def j getStringProperty_eq)
  show "list_all (\<lambda>k. getNumberProperty (journal_value j) k = getNumberProperty v k) (''methodVersion'' # journal_numbers)"
    using f(2,4) by (simp add: journal_numbers_def journal_value_def j getNumberProperty_eq)
  show "getNumberArrayProperty (journal_value j) ''verifiedTally'' = getNumberArrayProperty v ''verifiedTally''"
    using ts by (simp add: journal_value_def j get_arrays_eq(2) [of "JObj _"] numbers_value_def)
qed

lemma journal_value_keys:
  "isNonNullObject (journal_value j)" "isCurrentJournalRecord (journal_value j)" "hasOnlyAllowedKeys (journal_value j) JOURNAL_KEYS"
  "\<not> hasLegacyJournalCountAliases (journal_value j)"
proof -
  show n: "isNonNullObject (journal_value j)" by (simp add: journal_value_def)
  show "hasOnlyAllowedKeys (journal_value j) JOURNAL_KEYS"
    by (simp add: hasOnlyAllowedKeys_def journal_value_def JOURNAL_KEYS_def keys_opt_field)
  show l: "\<not> hasLegacyJournalCountAliases (journal_value j)"
    by (simp add: hasLegacyJournalCountAliases_def LEGACY_JOURNAL_COUNT_KEYS_def hasOwn_def journal_value_def image_Un)
  have "hasExactCurrentJournalKeys (journal_value j)"
    by (simp add: hasExactCurrentJournalKeys_def journal_value_def CURRENT_JOURNAL_REQUIRED_KEYS_def CURRENT_JOURNAL_KEYS_def keys_opt_field hasOwn_def)
  with n l show "isCurrentJournalRecord (journal_value j)" by (simp add: isCurrentJournalRecord_def)
qed

lemma journal_read_back:
  assumes "isSupportedZkVMJournal v" "toPublicZkvmJournal v = Inr j"
  shows "isSupportedZkVMJournal (journal_value j)" "toPublicZkvmJournal (journal_value j) = Inr j"
proof -
  note g = journal_value_gets [OF assms]
  have s: "getStringProperty (journal_value j) k = getStringProperty v k" if "k \<in> set (''imageId'' # journal_strings)" for k
    using g(1) that unfolding list_all_iff by blast
  have n: "getNumberProperty (journal_value j) k = getNumberProperty v k" if "k \<in> set (''methodVersion'' # journal_numbers)" for k
    using g(2) that unfolding list_all_iff by blast
  have "journal_semantics_of (journal_value j) = journal_semantics_of v"
    by (simp add: journal_semantics_of_def s n g(3) journal_strings_def journal_numbers_def)
  then show "isSupportedZkVMJournal (journal_value j)"
    using assms(1) journal_value_keys(2) by (auto simp: isSupportedZkVMJournal_def Let_def s n journal_strings_def split: if_splits)
  have "toPublicZkvmJournal (journal_value j) = toPublicZkvmJournal v"
    using supported_fields(5) [OF assms(1)] journal_value_keys(4)
    by (simp add: toPublicZkvmJournal_def the_string_def the_number_def s n g(3) journal_strings_def journal_numbers_def)
  with assms(2) show "toPublicZkvmJournal (journal_value j) = Inr j" by simp
qed

section \<open>Result authorities\<close>

lemma opt_fields_Cons: "opt_fields ((k, v) # kvs) = opt_field k v @ opt_fields kvs"
  by (simp add: opt_fields_def)

lemma opt_fields_keys: "fst ` set (opt_fields kvs) \<subseteq> fst ` set kvs"
proof (induction kvs)
  case (Cons kv kvs)
  then show ?case by (cases kv) (auto simp: opt_fields_Cons opt_field_def split: option.splits)
qed (simp add: opt_fields_def)

lemma get_opt_fields:
  assumes "distinct (map fst kvs)"
  shows "js_get (JObj (opt_fields kvs)) k = (case map_of kvs k of Some (Some v) \<Rightarrow> v | _ \<Rightarrow> JUndef)"
    "hasOwn (JObj (opt_fields kvs)) k \<longleftrightarrow> (case map_of kvs k of Some (Some v) \<Rightarrow> True | _ \<Rightarrow> False)"
proof -
  have "map_of (opt_fields kvs) k = (case map_of kvs k of Some v \<Rightarrow> v | None \<Rightarrow> None)"
    using assms
  proof (induction kvs)
    case (Cons kv kvs)
    obtain k' v where kv: "kv = (k', v)" by (cases kv)
    have "map_of (opt_fields kvs) k' = None" using Cons.prems opt_fields_keys [of kvs] kv by (auto simp: map_of_eq_None_iff)
    with Cons kv show ?case by (auto simp: opt_fields_Cons map_add_def split: option.splits)
  qed (simp add: opt_fields_def)
  then show "js_get (JObj (opt_fields kvs)) k = (case map_of kvs k of Some (Some v) \<Rightarrow> v | _ \<Rightarrow> JUndef)"
    "hasOwn (JObj (opt_fields kvs)) k \<longleftrightarrow> (case map_of kvs k of Some (Some v) \<Rightarrow> True | _ \<Rightarrow> False)"
    using map_of_eq_None_iff [of "opt_fields kvs" k] by (auto simp: hasOwn_def split: option.splits)
qed

lemma authority_keys: "hasOnlyAllowedKeys (JObj (encodeFinalizationResultAuthority a)) FINALIZATION_RESULT_AUTHORITY_KEYS"
proof -
  have "set (map fst (encodeFinalizationResultAuthority a)) \<subseteq> set FINALIZATION_RESULT_AUTHORITY_KEYS"
    unfolding encodeFinalizationResultAuthority_def Let_def
    by (rule subset_trans [OF opt_fields_keys [folded set_map]]) (simp add: FINALIZATION_RESULT_AUTHORITY_KEYS_def)
  then show ?thesis by (auto simp: hasOnlyAllowedKeys_def list_all_iff)
qed

abbreviation opt_value :: "('a \<Rightarrow> jsval) \<Rightarrow> 'a option \<Rightarrow> jsval" where
  "opt_value f x \<equiv> (case x of None \<Rightarrow> JUndef | Some y \<Rightarrow> f y)"

lemma authority_gets:
  fixes a :: result_authority
  defines "w \<equiv> JObj (encodeFinalizationResultAuthority a)"
  shows "js_get w ''tally'' = tally_value (ra_tally a)" "js_get w ''imageId'' = JStr (ra_imageId a)"
    "js_get w ''journal'' = journal_value (ra_journal a)"
    "js_get w ''tamperDetected'' = opt_value JBool (pr_tamperDetected a)" "hasOwn w ''tamperDetected'' = (pr_tamperDetected a \<noteq> None)"
    "js_get w ''scenarios'' = opt_value strings_value (pr_scenarios a)"
    "js_get w ''tamperSummary'' = opt_value tamper_summary_value (pr_tamperSummary a)"
    "js_get w ''receipt'' = opt_value receipt_value (aa_receipt (ra_artifacts a))" "hasOwn w ''receipt'' = (aa_receipt (ra_artifacts a) \<noteq> None)"
    "js_get w ''receiptPublication'' = opt_value publication_value (aa_receiptPublication (ra_artifacts a))"
    "hasOwn w ''receiptPublication'' = (aa_receiptPublication (ra_artifacts a) \<noteq> None)"
    "js_get w ''publicInputArtifact'' = opt_value (\<lambda>p. stored_value (au_publicInputArtifact p)) (aa_publicAudit (ra_artifacts a))"
    "js_get w ''electionManifest'' = opt_value au_electionManifest (aa_publicAudit (ra_artifacts a))"
    "js_get w ''closeStatement'' = opt_value au_closeStatement (aa_publicAudit (ra_artifacts a))"
    "hasOwn w ''publicInputArtifact'' = (aa_publicAudit (ra_artifacts a) \<noteq> None)"
    "hasOwn w ''electionManifest'' = (aa_publicAudit (ra_artifacts a) \<noteq> None)"
    "hasOwn w ''closeStatement'' = (aa_publicAudit (ra_artifacts a) \<noteq> None)"
    "js_get w ''bitmapProofSource'' = opt_value (\<lambda>b. proof_source_value (fst b)) (aa_bitmap (ra_artifacts a))"
    "js_get w ''bitmapData'' = opt_value (\<lambda>b. encodeFinalizationBitmapData (snd b)) (aa_bitmap (ra_artifacts a))"
    "hasOwn w ''bitmapProofSource'' = (aa_bitmap (ra_artifacts a) \<noteq> None)" "hasOwn w ''bitmapData'' = (aa_bitmap (ra_artifacts a) \<noteq> None)"
  unfolding w_def encodeFinalizationResultAuthority_def Let_def
  by (simp_all add: get_opt_fields comp_def del: js_get.simps split: option.split)

lemma presentation_read_back:
  assumes "parseStoredScenarioPresentation v = Some p" "scenario_presentation.truncate a = p"
  shows "parseStoredScenarioPresentation (JObj (encodeFinalizationResultAuthority a)) = Some p"
proof -
  have f: "(if hasOwn v ''tamperDetected'' then pr_tamperDetected a \<noteq> None else True)"
    "case pr_tamperSummary a of None \<Rightarrow> True | Some x \<Rightarrow> parseTamperSummary (js_get v ''tamperSummary'') = Some x"
    "p = projectStoredScenarioPresentation (pr_tamperDetected a) (pr_scenarios a) (pr_tamperSummary a)"
    using assms
    by (auto simp: parseStoredScenarioPresentation_def projectStoredScenarioPresentation_def Let_def scenario_presentation.defs
        split: if_splits option.splits)
  have "case pr_tamperSummary a of None \<Rightarrow> True | Some x \<Rightarrow> parseTamperSummary (tamper_summary_value x) = Some x"
    using f(2) tamper_summary_read_back by (auto split: option.splits)
  moreover have "tamper_summary_value x \<noteq> JUndef" "strings_value y \<noteq> JUndef" for x y by (simp_all add: tamper_summary_value_def strings_value_def)
  ultimately show ?thesis
    unfolding f(3)
    by (cases "pr_tamperDetected a"; cases "pr_scenarios a"; cases "pr_tamperSummary a")
      (simp_all add: parseStoredScenarioPresentation_def authority_gets get_eqs del: js_get.simps)
qed

lemma receipts_read_back:
  assumes "parseStoredReceiptArtifacts v = Some (r, q)" "aa_receipt (ra_artifacts a) = r" "aa_receiptPublication (ra_artifacts a) = q"
  shows "parseStoredReceiptArtifacts (JObj (encodeFinalizationResultAuthority a)) = Some (r, q)"
proof -
  have "case r of None \<Rightarrow> True | Some x \<Rightarrow> parseReceiptWithImageId (receipt_value x) = Some x"
    "case q of None \<Rightarrow> True | Some x \<Rightarrow> parseReceiptPublication (publication_value x) = Some x"
    using assms(1) receipt_read_back publication_read_back
    by (auto simp: parseStoredReceiptArtifacts_def Let_def split: if_splits option.splits)
  then show ?thesis
    using assms(2,3) by (cases r; cases q) (auto simp: parseStoredReceiptArtifacts_def authority_gets Let_def simp del: js_get.simps)
qed

lemma audit_read_back:
  assumes "parseStoredPublicAuditArtifacts v = Some p" "aa_publicAudit (ra_artifacts a) = p"
  shows "parseStoredPublicAuditArtifacts (JObj (encodeFinalizationResultAuthority a)) = Some p"
proof (cases p)
  case None
  then show ?thesis using assms(2) by (simp add: parseStoredPublicAuditArtifacts_def authority_gets del: js_get.simps)
next
  case (Some x)
  then have "parseStoredPublicInputArtifact (stored_value (au_publicInputArtifact x)) = Some (au_publicInputArtifact x)"
    "parseStoredElectionManifest (au_electionManifest x) = Some (au_electionManifest x)"
    "parseStoredCloseStatement (au_closeStatement x) = Some (au_closeStatement x)"
    using assms(1) public_input_read_back
    by (auto simp: parseStoredPublicAuditArtifacts_def Let_def parseStoredElectionManifest_def parseStoredCloseStatement_def
        split: if_splits option.splits)
  then show ?thesis using assms(2) Some by (simp add: parseStoredPublicAuditArtifacts_def authority_gets del: js_get.simps)
qed

lemma bitmap_artifact_read_back:
  assumes "parseStoredBitmapArtifact v = Some p" "aa_bitmap (ra_artifacts a) = p"
  shows "parseStoredBitmapArtifact (JObj (encodeFinalizationResultAuthority a)) = Some p"
proof (cases p)
  case None
  then show ?thesis using assms(2) by (simp add: parseStoredBitmapArtifact_def authority_gets del: js_get.simps)
next
  case (Some x)
  then have "parseFinalizationBitmapData (encodeFinalizationBitmapData (snd x)) = Some (snd x)"
    using assms(1) bitmap_read_back by (auto simp: parseStoredBitmapArtifact_def Let_def split: if_splits option.splits)
  moreover have "proof_source_of (proof_source_value s) = Some s" for s by (cases s) (simp_all add: proof_source_value_def)
  ultimately show ?thesis using assms(2) Some by (simp add: parseStoredBitmapArtifact_def authority_gets del: js_get.simps)
qed

lemma authority_read_back_result:
  assumes "parseFinalizationResultAuthority v = Some a"
  shows "parseFinalizationResultAuthority (JObj (encodeFinalizationResultAuthority a)) = Some a"
proof -
  obtain p r q au b where f: "parseFinalizationTally (js_get v ''tally'') = Some (ra_tally a)"
    "isSupportedZkVMJournal (js_get v ''journal'')" "toPublicZkvmJournal (js_get v ''journal'') = Inr (ra_journal a)"
    "parseStoredScenarioPresentation v = Some p" "parseStoredReceiptArtifacts v = Some (r, q)"
    "parseStoredPublicAuditArtifacts v = Some au" "parseStoredBitmapArtifact v = Some b"
    and a: "a = scenario_presentation.extend p (result_authority.fields (ra_tally a) (ra_imageId a) (ra_journal a)
        \<lparr>aa_publicAudit = au, aa_receipt = r, aa_receiptPublication = q, aa_bitmap = b\<rparr>)"
    using assms
    by (auto simp: parseFinalizationResultAuthority_def Let_def scenario_presentation.defs result_authority.defs
        split: if_splits option.splits sum.splits prod.splits)
  have art: "aa_publicAudit (ra_artifacts a) = au" "aa_receipt (ra_artifacts a) = r" "aa_receiptPublication (ra_artifacts a) = q"
    "aa_bitmap (ra_artifacts a) = b" "scenario_presentation.truncate a = p"
    by (subst a; simp add: scenario_presentation.defs result_authority.defs)+
  show ?thesis
    using tally_read_back [OF f(1)] journal_read_back [OF f(2,3)] journal_value_keys [of "ra_journal a"]
      presentation_read_back [OF f(4) art(5)] receipts_read_back [OF f(5) art(2,3)] audit_read_back [OF f(6) art(1)]
      bitmap_artifact_read_back [OF f(7) art(4)] authority_keys a [symmetric]
    by (simp add: parseFinalizationResultAuthority_def authority_gets get_eqs del: js_get.simps)
qed

section \<open>Records\<close>

text \<open>The records that are read back.\<close>

definition storable :: "finalization_record \<Rightarrow> bool" where
  "storable r \<longleftrightarrow>
     isSafeVerifierSegment (fr_sessionId r) \<and> isSafeVerifierSegment (fr_finalizationId r) \<and> state_id (fr_state r) = fr_finalizationId r \<and>
     storable_state (fr_state r) \<and> (\<exists>v. parseFinalizationScenarioContext v = Some (fr_scenarioContext r)) \<and>
     (if is_succeeded (fr_state r)
      then \<exists>x v. fr_finalizationResult r = Some x \<and> rr_finalizationId x = fr_finalizationId r \<and>
                 parseFinalizationResultAuthority v = Some (rr_authority x)
      else fr_finalizationResult r = None)"

lemma asSessionIdOrUndefined_eq: "asSessionIdOrUndefined s = (if isSafeVerifierSegment s then Some s else None)"
  by (auto simp: asSessionIdOrUndefined_def asSessionId_def assertSafeSegment_def isSafeVerifierSegment_def res_bind_def)

lemma parseFinalizationId_iff: "parseFinalizationId v = Some i \<longleftrightarrow> v = JStr i \<and> isSafeVerifierSegment i"
  by (auto simp: parseFinalizationId_def split: jsval.splits if_splits)

lemma identity_iff:
  "parseFinalizationRecordIdentity v = Some (s, i, st, c) \<longleftrightarrow>
     js_get v ''sessionId'' = JStr s \<and> isSafeVerifierSegment s \<and> js_get v ''finalizationId'' = JStr i \<and> isSafeVerifierSegment i \<and>
     parseFinalizationState (js_get v ''state'') = Some st \<and> parseFinalizationScenarioContext (js_get v ''scenarioContext'') = Some c \<and>
     state_id st = i"
  by (cases "js_get v ''sessionId''")
    (auto simp: parseFinalizationRecordIdentity_def asSessionIdOrUndefined_eq parseFinalizationId_def split: option.splits if_splits jsval.splits)

lemma result_record_read_back:
  assumes "isSafeVerifierSegment i" "parseFinalizationResultAuthority v = Some a"
  shows "parseFinalizationResultRecord (JObj ((''finalizationId'', JStr i) # encodeFinalizationResultAuthority a)) =
    Some \<lparr>rr_finalizationId = i, rr_authority = a\<rparr>"
proof -
  have "''finalizationId'' \<notin> set (map fst (encodeFinalizationResultAuthority a))"
    using authority_keys [of a] by (auto simp: hasOnlyAllowedKeys_def list_all_iff FINALIZATION_RESULT_AUTHORITY_KEYS_def)
  then have "filter (\<lambda>f. fst f \<noteq> ''finalizationId'') (encodeFinalizationResultAuthority a) = encodeFinalizationResultAuthority a"
    by (force simp: filter_id_conv)
  then show ?thesis
    using authority_read_back_result [OF assms(2)] assms(1)
    by (simp add: parseFinalizationResultRecord_def parseResultRecordWith_def isNonArrayObject_def parseFinalizationId_def without_key_def)
qed

text \<open>The records that can be stored, but for the form of the error of a failure.\<close>

definition sound_record :: "finalization_record \<Rightarrow> bool" where
  "sound_record r \<longleftrightarrow>
     isSafeVerifierSegment (fr_sessionId r) \<and> isSafeVerifierSegment (fr_finalizationId r) \<and> state_id (fr_state r) = fr_finalizationId r \<and>
     times_nonneg (fr_state r) \<and> (\<exists>v. parseFinalizationScenarioContext v = Some (fr_scenarioContext r)) \<and>
     (if is_succeeded (fr_state r)
      then \<exists>x v. fr_finalizationResult r = Some x \<and> rr_finalizationId x = fr_finalizationId r \<and>
                 parseFinalizationResultAuthority v = Some (rr_authority x)
      else fr_finalizationResult r = None)"

definition stored_form :: "finalization_record \<Rightarrow> finalization_record option" where
  "stored_form r = map_option (\<lambda>s. r\<lparr>fr_state := s\<rparr>) (stored_state (fr_state r))"

lemma storable_iff: "storable r \<longleftrightarrow> sound_record r \<and> stored_form r = Some r"
proof -
  have "stored_form r = Some r \<longleftrightarrow> error_stored (fr_state r)"
    unfolding stored_state_iff [symmetric] by (cases r) (auto simp: stored_form_def)
  then show ?thesis by (auto simp: storable_def sound_record_def storable_state_def)
qed

lemma stored_form_storable:
  assumes "sound_record r" "stored_form r = Some r'"
  shows "storable r'"
proof -
  obtain s where s: "stored_state (fr_state r) = Some s" "r' = r\<lparr>fr_state := s\<rparr>" using assms(2) by (auto simp: stored_form_def)
  note same = stored_state_same [OF s(1)]
  show ?thesis using assms(1) same by (auto simp: s(2) storable_def sound_record_def storable_state_def times_nonneg_def)
qed

lemma sound_identity:
  assumes "sound_record r" "js_get w ''sessionId'' = JStr (fr_sessionId r)" "js_get w ''finalizationId'' = JStr (fr_finalizationId r)"
    "js_get w ''state'' = state_value (fr_state r)" "js_get w ''scenarioContext'' = context_value (fr_scenarioContext r)"
  shows "parseFinalizationRecordIdentity w =
    map_option (\<lambda>s. (fr_sessionId r, fr_finalizationId r, s, fr_scenarioContext r)) (stored_state (fr_state r))"
proof -
  obtain cv where s: "isSafeVerifierSegment (fr_sessionId r)" "isSafeVerifierSegment (fr_finalizationId r)" "state_id (fr_state r) = fr_finalizationId r"
    "times_nonneg (fr_state r)" "parseFinalizationScenarioContext cv = Some (fr_scenarioContext r)"
    using assms(1) by (auto simp: sound_record_def)
  then have "parseFinalizationState (state_value (fr_state r)) = stored_state (fr_state r)" by (intro state_read_back) simp_all
  then show ?thesis
    using s(1-3) assms(2-) context_read_back [OF s(5)] stored_state_same(1) [of "fr_state r"]
    by (cases "stored_state (fr_state r)")
      (auto simp: parseFinalizationRecordIdentity_def asSessionIdOrUndefined_eq parseFinalizationId_def)
qed

lemma sound_read_back:
  assumes "sound_record r"
  shows "\<exists>w. encodeFinalizationRecord r = Inr w \<and> decodeFinalizationRecord w = stored_form r"
proof (cases "is_succeeded (fr_state r)")
  case False
  let ?w = "JObj [(''sessionId'', JStr (fr_sessionId r)), (''finalizationId'', JStr (fr_finalizationId r)),
      (''scenarioContext'', context_value (fr_scenarioContext r)), (''state'', state_value (fr_state r))]"
  have "fr_finalizationResult r = None" using assms False by (simp add: sound_record_def)
  moreover have "parseFinalizationRecordIdentity ?w =
      map_option (\<lambda>s. (fr_sessionId r, fr_finalizationId r, s, fr_scenarioContext r)) (stored_state (fr_state r))"
    by (rule sound_identity [OF assms]) simp_all
  ultimately show ?thesis
    using False stored_state_same(3) [of "fr_state r"]
    by (cases "stored_state (fr_state r)"; cases r)
      (simp_all add: encodeFinalizationRecord_def decodeFinalizationRecord_def parseRecordWith_def isNonArrayObject_def stored_form_def
        hasExactOwnKeys_def FINALIZATION_RECORD_KEYS_def)
next
  case True
  then obtain x v where x: "fr_finalizationResult r = Some x" "rr_finalizationId x = fr_finalizationId r"
    "parseFinalizationResultAuthority v = Some (rr_authority x)"
    using assms by (auto simp: sound_record_def)
  let ?u = "JObj ((''finalizationId'', JStr (rr_finalizationId x)) # encodeFinalizationResultAuthority (rr_authority x))"
  let ?w = "JObj [(''sessionId'', JStr (fr_sessionId r)), (''finalizationId'', JStr (fr_finalizationId r)),
      (''scenarioContext'', context_value (fr_scenarioContext r)), (''state'', state_value (fr_state r)), (''finalizationResult'', ?u)]"
  have st: "stored_state (fr_state r) = Some (fr_state r)" using True by (cases "fr_state r") simp_all
  have "parseFinalizationRecordIdentity ?w =
      map_option (\<lambda>s. (fr_sessionId r, fr_finalizationId r, s, fr_scenarioContext r)) (stored_state (fr_state r))"
    by (rule sound_identity [OF assms]) simp_all
  moreover have "parseFinalizationResultRecord ?u = Some x"
    using result_record_read_back [OF _ x(3)] x(2) assms by (simp add: sound_record_def)
  ultimately show ?thesis
    using True st x
    by (cases r)
      (simp add: encodeFinalizationRecord_def decodeFinalizationRecord_def parseRecordWith_def isNonArrayObject_def stored_form_def
        hasExactOwnKeys_def SUCCEEDED_FINALIZATION_RECORD_KEYS_def)
qed

lemma storable_read_back: "storable r \<Longrightarrow> \<exists>w. encodeFinalizationRecord r = Inr w \<and> decodeFinalizationRecord w = Some r"
  by (auto simp: storable_iff dest!: sound_read_back)

lemma parsed_record_storable:
  assumes "parseRecordWith v parse = Some r" "\<And>u x. parse u = Some x \<Longrightarrow> \<exists>w. parseFinalizationResultAuthority w = Some (rr_authority x)"
  shows "storable r"
proof -
  obtain s i st c where i: "parseFinalizationRecordIdentity v = Some (s, i, st, c)"
    using assms(1) by (auto simp: parseRecordWith_def split: if_splits option.splits)
  then have f: "isSafeVerifierSegment s" "isSafeVerifierSegment i" "storable_state st" "state_id st = i"
    "parseFinalizationScenarioContext (js_get v ''scenarioContext'') = Some c"
    by (auto simp: identity_iff dest: parsed_state_storable)
  from assms(1) i have r: "fr_sessionId r = s" "fr_finalizationId r = i" "fr_state r = st" "fr_scenarioContext r = c"
    "if is_succeeded st then \<exists>x. parse (js_get v ''finalizationResult'') = Some x \<and> rr_finalizationId x = i \<and> fr_finalizationResult r = Some x
     else fr_finalizationResult r = None"
    by (auto simp: parseRecordWith_def split: if_splits option.splits)
  then show ?thesis using f assms(2) by (auto simp: storable_def split: if_splits)
qed

lemma decoded_storable:
  "decodeFinalizationRecord v = Some r \<Longrightarrow> storable r" "admitFinalizationRecord v = Some r \<Longrightarrow> storable r"
proof -
  show "storable r" if "decodeFinalizationRecord v = Some r"
    using that unfolding decodeFinalizationRecord_def
    by (rule parsed_record_storable)
      (auto simp: parseFinalizationResultRecord_def parseResultRecordWith_def split: if_splits option.splits)
  have "\<exists>w. parseFinalizationResultAuthority w = Some a" if "admitFinalizationResultAuthority u = Some a" for u a
    using that by (auto simp: admitFinalizationResultAuthority_def Let_def split: if_splits)
  then show "storable r" if "admitFinalizationRecord v = Some r"
    using that unfolding admitFinalizationRecord_def
    by (elim parsed_record_storable)
      (auto simp: admitFinalizationResultRecord_def parseResultRecordWith_def split: if_splits option.splits)
qed

section \<open>Records of the lifecycle\<close>

text \<open>A command whose error, if it has one, is in the form in which errors are stored.\<close>

fun stored_error :: "command_body \<Rightarrow> bool" where
  "stored_error (Fail _ _ e) = (parseFinalizationError e = Some e)"
| "stored_error _ = True"

lemma cancelled_error_stored: "parseFinalizationError (error_value ''USER_CANCELLED'' m None None) = Some (error_value ''USER_CANCELLED'' m None None)"
  by (simp add: parseFinalizationError_def error_value_def opt_field_def hasOnlyAllowedKeys_def FINALIZATION_ERROR_KEYS_def get_eqs
      parseFinalizationErrorCategory_def hasOwn_def)

lemma ordered_times_nonneg: "ordered_times s \<Longrightarrow> times_nonneg s"
  by (auto simp: ordered_times_def times_nonneg_def list_all_iff isNonNegativeInteger_iff)

lemma applied_error:
  assumes "evaluateFinalizationTransition cur c t = Applied s reason n" "stored_error (tc_body c)"
  shows "error_stored (fr_state n)"
proof -
  obtain a where a: "admitCommand c = Inr a" "buildNextRecord cur a = Some n" using assms(1) by (auto simp: applied_iff)
  have "admitCommandState c (admitScenarioContext (tc_scenarioContext c)) = Inr a"
    using a(1) by (auto simp: admitCommand_def Let_def split: option.splits if_splits)
  then show ?thesis
    using next_record(3) [OF a(2)] assms(2) cancelled_error_stored by (auto simp: admit_defs split: command_body.splits if_splits)
qed

lemma applied_sound:
  assumes "evaluateFinalizationTransition cur c t = Applied s reason n" "case cur of None \<Rightarrow> True | Some r \<Rightarrow> sound_record r"
  shows "sound_record n"
proof -
  obtain a where a: "admitCommand c = Inr a" "buildNextRecord cur a = Some n" "\<not> ac_invalidSuccessfulResult a"
    using assms(1) by (auto simp: applied_iff)
  note n = next_record [OF a(2)] and inv = applied_record_inv [OF assms(1)]
  have cs: "admitCommandState c (admitScenarioContext (tc_scenarioContext c)) = Inr a"
    using a(1) by (auto simp: admitCommand_def Let_def split: option.splits if_splits)
  have "admitScenarioContext (tc_scenarioContext c) = Some (fr_scenarioContext n) \<or> (\<exists>r. cur = Some r \<and> fr_scenarioContext r = fr_scenarioContext n)"
    using n(5) [symmetric] admitted(5) [OF a(1)] by (auto simp: nullish_eq_Some)
  then have "\<exists>v. parseFinalizationScenarioContext v = Some (fr_scenarioContext n)"
  proof
    assume "admitScenarioContext (tc_scenarioContext c) = Some (fr_scenarioContext n)"
    then show ?thesis by (cases "tc_scenarioContext c") (auto simp: admitScenarioContext_def)
  next
    assume "\<exists>r. cur = Some r \<and> fr_scenarioContext r = fr_scenarioContext n"
    then obtain r where "cur = Some r" "fr_scenarioContext r = fr_scenarioContext n" by blast
    then show ?thesis using assms(2) by (simp add: sound_record_def)
  qed
  moreover have "\<exists>v. parseFinalizationResultAuthority v = Some x" if "ac_successfulResult a = Some x" for x
    using cs that by (auto simp: admit_defs admitFinalizationResultAuthority_def split: command_body.splits if_splits)
  ultimately show ?thesis
    using n(3,4) inv ordered_times_nonneg by (auto simp: sound_record_def record_inv_def split: if_splits; blast)
qed

definition sound_current :: "finalization_record option \<Rightarrow> bool" where
  "sound_current cur \<longleftrightarrow> (case cur of None \<Rightarrow> True | Some r \<Rightarrow> sound_record r)"

interpretation sound_lifecycle: invariant_system "\<lambda>cur. cur = None" lifecycle_step sound_current
proof
  fix cur ct cur' assume "sound_current cur" "lifecycle_step cur ct cur'"
  then show "sound_current cur'"
    by (auto simp: lifecycle_step_def apply_command_def sound_current_def split: transition_outcome.splits option.splits intro: applied_sound)
qed (simp add: sound_current_def)

section \<open>Properties\<close>

text \<open>C27: the codec of finalization records loses nothing.  Every record that was decoded from an untrusted
  stored value (or admitted from a process boundary) can be encoded, and decoding its encoding gives the same
  record: scenario context, state with its times and error, and for a success the whole result with journal,
  tally, receipt, public audit artefacts and bitmaps.\<close>

theorem finalization_record_round_trip:
  assumes "decodeFinalizationRecord v = Some r \<or> admitFinalizationRecord v = Some r"
  shows "\<exists>w. encodeFinalizationRecord r = Inr w \<and> decodeFinalizationRecord w = Some r"
  using assms decoded_storable storable_read_back by blast

text \<open>What the lifecycle writes can be read.  After any sequence of commands the current record of the session can be
  encoded, and its encoding is decoded to the record in its stored form; only a failure whose error has no stored form
  is refused.\<close>

theorem lifecycle_record_readable:
  assumes "runs lifecycle_step None cs (Some r)"
  shows "\<exists>w. encodeFinalizationRecord r = Inr w \<and> decodeFinalizationRecord w = stored_form r"
  using sound_lifecycle.reachable_inv [OF refl assms] sound_read_back by (simp add: sound_current_def)

lemma sample_success_decodes: "\<exists>w. encodeFinalizationRecord sample_success = Inr w \<and> decodeFinalizationRecord w = Some sample_success"
proof -
  have "sound_record sample_success" using sound_lifecycle.reachable_inv [OF refl sample_success_runs(1)] by (simp add: sound_current_def)
  moreover have "stored_form sample_success = Some sample_success" by (simp add: stored_form_def sample_success_def sample_record_def)
  ultimately show ?thesis using sound_read_back by metis
qed

theorem finalization_record_round_trip_witness:
  "\<exists>v w. decodeFinalizationRecord v = Some sample_success \<and> encodeFinalizationRecord sample_success = Inr w \<and>
     decodeFinalizationRecord w = Some sample_success"
proof -
  obtain v where v: "decodeFinalizationRecord v = Some sample_success" using sample_success_decodes by blast
  show ?thesis using v finalization_record_round_trip [OF disjI1 [OF v]] by blast
qed

end
