(* ===== verification/FinalizationCoordinator.thy ===== *)
theory FinalizationCoordinator
  imports FinalizationCodec
begin

text \<open>
  The coordinator of a transition (finalization-transition-coordinator.ts) against a revisioned store
  (finalization-transition-persistence.ts): load, decide, write if the record is still the loaded one, and retry a
  bounded number of times when it is not.  The store is an argument: two operations on a state of the world that
  holds whatever other writers do between the calls.
\<close>

section \<open>The port\<close>

record loaded_lifecycle =
  ll_currentRecord :: "finalization_record option"
  ll_revision :: string

datatype load_result = Loaded loaded_lifecycle | LoadMissing | LoadInvalidRecord string | LoadFailure string

datatype apply_result =
    WriteApplied loaded_lifecycle | WriteAlreadyApplied loaded_lifecycle | WriteStale loaded_lifecycle
  | WriteMissing | WriteInvalidRecord string | WriteFailure string

record 'w persistence_port =
  loadFinalizationLifecycle :: "string \<Rightarrow> string \<Rightarrow> 'w \<Rightarrow> load_result \<times> 'w"
  applyFinalizationLifecycleMutation :: "string \<Rightarrow> string \<Rightarrow> string \<Rightarrow> finalization_record \<Rightarrow> 'w \<Rightarrow> apply_result \<times> 'w"

datatype port_stage = AtLoad | AtApply

datatype coordination_result =
    CoordApplied loaded_lifecycle transition_outcome nat
  | CoordAlreadyAppliedByPolicy loaded_lifecycle transition_outcome nat
  | CoordAlreadyAppliedByStore loaded_lifecycle transition_outcome nat
  | CoordRejected loaded_lifecycle transition_outcome nat
  | CoordInvalid loaded_lifecycle transition_outcome nat
  | CoordStale loaded_lifecycle transition_outcome nat
  | CoordMissing port_stage nat
  | CoordFailure port_stage string nat
  | CoordInvalidRecord port_stage string nat

section \<open>The loop\<close>

text \<open>One pass through the body of \<^verbatim>\<open>for (;;)\<close>: a result that leaves the loop, or \<open>None\<close> to go round again.\<close>

definition coordinate_round ::
  "'w persistence_port \<Rightarrow> transition_command \<Rightarrow> jsnum \<Rightarrow> nat \<Rightarrow> nat \<Rightarrow> 'w \<Rightarrow> coordination_result option \<times> 'w" where
  "coordinate_round P c t staleRetryLimit staleConflicts w =
     (case loadFinalizationLifecycle P (tc_sessionId c) (tc_finalizationId c) w of
        (LoadMissing, w1) \<Rightarrow> (Some (CoordMissing AtLoad staleConflicts), w1)
      | (LoadInvalidRecord e, w1) \<Rightarrow> (Some (CoordInvalidRecord AtLoad e staleConflicts), w1)
      | (LoadFailure e, w1) \<Rightarrow> (Some (CoordFailure AtLoad e staleConflicts), w1)
      | (Loaded lifecycle, w1) \<Rightarrow>
          (let outcome = evaluateFinalizationTransition (ll_currentRecord lifecycle) c t in
           case outcome of
             Idempotent _ \<Rightarrow> (Some (CoordAlreadyAppliedByPolicy lifecycle outcome staleConflicts), w1)
           | Rejected _ _ \<Rightarrow> (Some (CoordRejected lifecycle outcome staleConflicts), w1)
           | Invalid _ _ \<Rightarrow> (Some (CoordInvalid lifecycle outcome staleConflicts), w1)
           | Applied _ _ nextRecord \<Rightarrow>
               (case applyFinalizationLifecycleMutation P (tc_sessionId c) (tc_finalizationId c) (ll_revision lifecycle) nextRecord w1 of
                  (WriteApplied l, w2) \<Rightarrow> (Some (CoordApplied l outcome staleConflicts), w2)
                | (WriteAlreadyApplied l, w2) \<Rightarrow> (Some (CoordAlreadyAppliedByStore l outcome staleConflicts), w2)
                | (WriteMissing, w2) \<Rightarrow> (Some (CoordMissing AtApply staleConflicts), w2)
                | (WriteInvalidRecord e, w2) \<Rightarrow> (Some (CoordInvalidRecord AtApply e staleConflicts), w2)
                | (WriteFailure e, w2) \<Rightarrow> (Some (CoordFailure AtApply e staleConflicts), w2)
                | (WriteStale l, w2) \<Rightarrow>
                    if Suc staleConflicts > staleRetryLimit then (Some (CoordStale l outcome (Suc staleConflicts)), w2)
                    else (None, w2))))"

lemma round_again: "coordinate_round P c t limit k w = (None, w') \<Longrightarrow> Suc k \<le> limit"
  by (auto simp: coordinate_round_def Let_def split: prod.splits load_result.splits transition_outcome.splits apply_result.splits if_splits)

function coordinate_loop ::
  "'w persistence_port \<Rightarrow> transition_command \<Rightarrow> jsnum \<Rightarrow> nat \<Rightarrow> nat \<Rightarrow> 'w \<Rightarrow> coordination_result \<times> 'w" where
  "coordinate_loop P c t staleRetryLimit staleConflicts w =
     (case coordinate_round P c t staleRetryLimit staleConflicts w of
        (Some r, w') \<Rightarrow> (r, w')
      | (None, w') \<Rightarrow> coordinate_loop P c t staleRetryLimit (Suc staleConflicts) w')"
  by pat_completeness auto
termination
  by (relation "measure (\<lambda>(P, c, t, limit, conflicts, w). limit - conflicts)") (auto dest: round_again [OF sym])

declare coordinate_loop.simps [simp del]

definition coordinateFinalizationTransition ::
  "'w persistence_port \<Rightarrow> transition_command \<Rightarrow> jsnum \<Rightarrow> nat \<Rightarrow> 'w \<Rightarrow> coordination_result \<times> 'w" where
  "coordinateFinalizationTransition P c t staleRetryLimit w = coordinate_loop P c t staleRetryLimit 0 w"

section \<open>Bounded work\<close>

text \<open>The same port with the calls counted.\<close>

definition counting :: "'w persistence_port \<Rightarrow> ('w \<times> nat) persistence_port" where
  "counting P =
     \<lparr>loadFinalizationLifecycle = (\<lambda>s i (w, n). case loadFinalizationLifecycle P s i w of (r, w') \<Rightarrow> (r, (w', Suc n))),
      applyFinalizationLifecycleMutation =
        (\<lambda>s i rev n (w, k). case applyFinalizationLifecycleMutation P s i rev n w of (r, w') \<Rightarrow> (r, (w', Suc k)))\<rparr>"

fun conflicts_of :: "coordination_result \<Rightarrow> nat" where
  "conflicts_of (CoordApplied _ _ n) = n"
| "conflicts_of (CoordAlreadyAppliedByPolicy _ _ n) = n"
| "conflicts_of (CoordAlreadyAppliedByStore _ _ n) = n"
| "conflicts_of (CoordRejected _ _ n) = n"
| "conflicts_of (CoordInvalid _ _ n) = n"
| "conflicts_of (CoordStale _ _ n) = n"
| "conflicts_of (CoordMissing _ n) = n"
| "conflicts_of (CoordFailure _ _ n) = n"
| "conflicts_of (CoordInvalidRecord _ _ n) = n"

fun is_stale :: "coordination_result \<Rightarrow> bool" where
  "is_stale (CoordStale _ _ _) = True"
| "is_stale _ = False"

lemma counted_round:
  assumes "coordinate_round (counting P) c t limit k (w, n) = (x, (w', n'))"
  shows "n' \<le> n + 2"
    "case x of None \<Rightarrow> Suc k \<le> limit | Some r \<Rightarrow> (if is_stale r then conflicts_of r = Suc k \<and> Suc k > limit else conflicts_of r = k)"
  using assms
  by (auto simp: coordinate_round_def counting_def Let_def split: prod.splits load_result.splits transition_outcome.splits apply_result.splits if_splits)

lemma loop_bounds:
  assumes "k \<le> limit" "coordinate_loop (counting P) c t limit k (w, n) = (r, (w', n'))"
  shows "n' \<le> n + 2 * Suc (limit - k) \<and> (if is_stale r then conflicts_of r = Suc limit else conflicts_of r \<le> limit)"
  using assms
proof (induction "limit - k" arbitrary: k w n rule: less_induct)
  case less
  obtain x w1 n1 where x: "coordinate_round (counting P) c t limit k (w, n) = (x, (w1, n1))" by (metis prod.exhaust)
  note b = counted_round [OF x]
  show ?case
  proof (cases x)
    case None
    then have k: "Suc k \<le> limit" and "coordinate_loop (counting P) c t limit (Suc k) (w1, n1) = (r, (w', n'))"
      using b(2) less.prems(2) x by (simp_all add: coordinate_loop.simps [of _ _ _ _ k])
    with less.hyps [of "Suc k" w1 n1]
    have "n' \<le> n1 + 2 * Suc (limit - Suc k)" "if is_stale r then conflicts_of r = Suc limit else conflicts_of r \<le> limit" by simp_all
    moreover have "Suc (limit - Suc k) = limit - k" using k by simp
    ultimately show ?thesis using b(1) by simp
  next
    case (Some r')
    then show ?thesis using b less.prems x by (auto simp: coordinate_loop.simps [of _ _ _ _ k] split: if_splits)
  qed
qed

text \<open>What a store that always has something newer does.\<close>

definition contended_port :: "finalization_record option \<Rightarrow> unit persistence_port" where
  "contended_port cur =
     \<lparr>loadFinalizationLifecycle = (\<lambda>s i w. (Loaded \<lparr>ll_currentRecord = cur, ll_revision = ''r''\<rparr>, w)),
      applyFinalizationLifecycleMutation = (\<lambda>s i rev n w. (WriteStale \<lparr>ll_currentRecord = cur, ll_revision = ''r''\<rparr>, w))\<rparr>"

text \<open>C29: coordination ends.  Whatever the store answers and whatever other writers do between the calls, the
  unbounded loop of the coordinator returns after at most two calls per allowed round, that is after at most
  \<open>2 * (limit + 1)\<close> calls; it reports a stale write only after \<open>limit + 1\<close> conflicts, and never more
  conflicts than that.\<close>

theorem coordination_bounded:
  assumes "coordinateFinalizationTransition (counting P) c t limit (w, 0) = (r, (w', n))"
  shows "n \<le> 2 * (limit + 1) \<and> (if is_stale r then conflicts_of r = limit + 1 else conflicts_of r \<le> limit)"
  using loop_bounds [of 0 limit P c t w 0 r w' n] assms by (simp add: coordinateFinalizationTransition_def)

lemma contended_round:
  assumes "evaluateFinalizationTransition cur c t = Applied s reason nx"
  shows "coordinate_round (counting (contended_port cur)) c t limit k (w, n) =
    (if Suc k > limit then Some (CoordStale \<lparr>ll_currentRecord = cur, ll_revision = ''r''\<rparr> (Applied s reason nx) (Suc k)) else None, (w, n + 2))"
  using assms by (simp add: coordinate_round_def counting_def contended_port_def)

theorem coordination_bounded_witness:
  "\<exists>r n. coordinateFinalizationTransition (counting (contended_port None))
       (sample_command (Some (context_value sample_context)) Queue) (js_int 6) 1 ((), 0) = (r, ((), n)) \<and> n \<le> 4 \<and> conflicts_of r = 2"
proof -
  let ?c = "sample_command (Some (context_value sample_context)) Queue"
  obtain s reason nx where e: "evaluateFinalizationTransition None ?c (js_int 6) = Applied s reason nx"
    using sample_run(1) by (auto simp: apply_command_def split: transition_outcome.splits)
  let ?r = "CoordStale \<lparr>ll_currentRecord = None, ll_revision = ''r''\<rparr> (Applied s reason nx) (Suc (Suc 0))"
  have "coordinateFinalizationTransition (counting (contended_port None)) ?c (js_int 6) 1 ((), 0) = (?r, ((), 4))"
    by (simp add: coordinateFinalizationTransition_def coordinate_loop.simps contended_round [OF e])
  moreover from coordination_bounded [OF this] have "4 \<le> 2 * (1 + 1 :: nat) \<and> conflicts_of ?r = 2" by simp
  ultimately show ?thesis by (intro exI [of _ ?r] exI [of _ 4]) simp
qed

end
