(* ===== verification/FinalizationStore.thy ===== *)
theory FinalizationStore
  imports FinalizationCodec
begin

text \<open>
  The store of finalizations over maps (aws-adapters/src/store/mapped-session-records.ts, session-command-store.ts
  and the finalization part of mockSessionStore.ts) and the commands built from lifecycle payloads (application
  finalization-store.ts); that the store keeps the lifecycle of every session, and which failures it refuses.
  The clock, \<^verbatim>\<open>Date.now()\<close>, is an argument; log events are not modelled.
\<close>

section \<open>Lifecycle payloads\<close>

record payload_common =
  pl_finalizationId :: string
  pl_queuedAtMs :: jsnum
  pl_scenarioContext :: "jsval option"
  pl_reason :: "string option"

datatype lifecycle_payload =
    QueuedPayload payload_common
  | RunningPayload payload_common jsnum
  | SucceededPayload payload_common jsnum jsnum jsval
  | FailedPayload payload_common "jsnum option" jsnum jsval
  | TimedOutPayload payload_common "jsnum option" jsnum

definition command_of :: "string \<Rightarrow> payload_common \<Rightarrow> command_body \<Rightarrow> transition_command" where
  "command_of sessionId p body =
     \<lparr>tc_sessionId = sessionId, tc_finalizationId = pl_finalizationId p, tc_queuedAtMs = pl_queuedAtMs p,
      tc_scenarioContext = pl_scenarioContext p, tc_reason = if_truthy (pl_reason p), tc_body = body\<rparr>"

text \<open>A message that is not a string is rejected by the policy like a blank one.\<close>

fun buildFinalizationCommand :: "string \<Rightarrow> lifecycle_payload \<Rightarrow> transition_command" where
  "buildFinalizationCommand s (QueuedPayload p) = command_of s p Queue"
| "buildFinalizationCommand s (RunningPayload p startedAtMs) = command_of s p (Start startedAtMs)"
| "buildFinalizationCommand s (SucceededPayload p startedAtMs completedAtMs result) = command_of s p (Succeed startedAtMs completedAtMs result)"
| "buildFinalizationCommand s (FailedPayload p startedAtMs failedAtMs error) =
     (if js_get error ''code'' = JStr ''USER_CANCELLED''
      then command_of s p (Cancel startedAtMs failedAtMs (case as_string (js_get error ''message'') of Some m \<Rightarrow> m | None \<Rightarrow> []))
      else command_of s p (Fail startedAtMs failedAtMs error))"
| "buildFinalizationCommand s (TimedOutPayload p startedAtMs timeoutAtMs) = command_of s p (TimeOut startedAtMs timeoutAtMs)"

fun requestedFinalizationStatus :: "command_body \<Rightarrow> string" where
  "requestedFinalizationStatus Queue = ''pending''"
| "requestedFinalizationStatus (Start _) = ''running''"
| "requestedFinalizationStatus (Succeed _ _ _) = ''succeeded''"
| "requestedFinalizationStatus (Fail _ _ _) = ''failed''"
| "requestedFinalizationStatus (Cancel _ _ _) = ''failed''"
| "requestedFinalizationStatus (TimeOut _ _) = ''timeout''"

section \<open>Records as objects\<close>

text \<open>The object that a typed record is: the artefacts are nested and carry their availability.\<close>

definition availability_value :: "(string \<times> jsval) list option \<Rightarrow> jsval" where
  "availability_value fs =
     (case fs of None \<Rightarrow> JObj [(''availability'', JStr ''unavailable'')] | Some kvs \<Rightarrow> JObj ((''availability'', JStr ''available'') # kvs))"

definition artifacts_object :: "artifact_availability \<Rightarrow> jsval" where
  "artifacts_object x =
     JObj
       [(''publicAudit'', availability_value (map_option (\<lambda>p. [(''publicInputArtifact'', stored_value (au_publicInputArtifact p)),
           (''electionManifest'', au_electionManifest p), (''closeStatement'', au_closeStatement p)]) (aa_publicAudit x))),
        (''receipt'', availability_value (map_option (\<lambda>r. [(''receipt'', receipt_value r)]) (aa_receipt x))),
        (''receiptPublication'', availability_value (map_option (\<lambda>p. [(''publication'', publication_value p)]) (aa_receiptPublication x))),
        (''bitmap'', availability_value (map_option (\<lambda>b. [(''proofSource'', proof_source_value (fst b)),
           (''data'', encodeFinalizationBitmapData (snd b))]) (aa_bitmap x)))]"

definition authority_object :: "result_authority \<Rightarrow> (string \<times> jsval) list" where
  "authority_object a =
     opt_fields
        [(''tally'', Some (tally_value (ra_tally a))), (''imageId'', Some (JStr (ra_imageId a))),
         (''journal'', Some (journal_value (ra_journal a))),
         (''tamperDetected'', map_option JBool (pr_tamperDetected a)), (''scenarios'', map_option strings_value (pr_scenarios a)),
         (''tamperSummary'', map_option tamper_summary_value (pr_tamperSummary a)),
         (''artifacts'', Some (artifacts_object (ra_artifacts a)))]"

definition record_object :: "finalization_record \<Rightarrow> jsval" where
  "record_object r =
     JObj ([(''sessionId'', JStr (fr_sessionId r)), (''finalizationId'', JStr (fr_finalizationId r)),
       (''scenarioContext'', context_value (fr_scenarioContext r)), (''state'', state_value (fr_state r))] @
       (case fr_finalizationResult r of
          None \<Rightarrow> []
        | Some x \<Rightarrow> [(''finalizationResult'', JObj ((''finalizationId'', JStr (rr_finalizationId x)) # authority_object (rr_authority x)))]))"

section \<open>The store\<close>

text \<open>
  \<open>ms_hasIdentity\<close> says for which sessions \<^verbatim>\<open>requireIdentity\<close> finds a valid identity; \<open>ms_lastActivity\<close> is the time of the
  last activity in the sessions whose voting record \<^verbatim>\<open>requireVoting\<close> finds valid.
\<close>

record mapped_store =
  ms_hasIdentity :: "string \<Rightarrow> bool"
  ms_currentIds :: "string \<rightharpoonup> string"
  ms_finalizations :: "string \<rightharpoonup> jsval"
  ms_lastActivity :: "string \<rightharpoonup> jsnum"

datatype store_error =
    IdentityMissing | VotingMissing | CurrentRecordInvalid | InvalidTransition invalid_reason | ProducedInvalidRecord | NotApplied string

definition buildScopedKey :: "string \<Rightarrow> string \<Rightarrow> string" where
  "buildScopedKey sessionId finalizationId = sessionId @ [CHR 0x00] @ finalizationId"

definition readMappedFinalization :: "string \<Rightarrow> mapped_store \<Rightarrow> store_error + finalization_record option" where
  "readMappedFinalization sessionId m =
     (case ms_currentIds m sessionId of
        None \<Rightarrow> Inr None
      | Some i \<Rightarrow>
          if i = [] then Inr None
          else case admitFinalizationRecord (case ms_finalizations m (buildScopedKey sessionId i) of Some v \<Rightarrow> v | None \<Rightarrow> JUndef) of
                 None \<Rightarrow> Inl CurrentRecordInvalid
               | Some r \<Rightarrow> if fr_sessionId r \<noteq> sessionId \<or> fr_finalizationId r \<noteq> i then Inl CurrentRecordInvalid else Inr (Some r))"

definition getCurrentFinalizationRecord :: "string \<Rightarrow> mapped_store \<Rightarrow> store_error + finalization_record option" where
  "getCurrentFinalizationRecord sessionId m =
     (if \<not> ms_hasIdentity m sessionId then Inl IdentityMissing else readMappedFinalization sessionId m)"

definition getFinalizationRecord :: "string \<Rightarrow> string \<Rightarrow> mapped_store \<Rightarrow> store_error + finalization_record option" where
  "getFinalizationRecord sessionId finalizationId m =
     (if \<not> ms_hasIdentity m sessionId then Inl IdentityMissing
      else case admitFinalizationRecord (case ms_finalizations m (buildScopedKey sessionId finalizationId) of Some v \<Rightarrow> v | None \<Rightarrow> JUndef) of
             Some r \<Rightarrow> Inr (if fr_sessionId r = sessionId \<and> fr_finalizationId r = finalizationId then Some r else None)
           | None \<Rightarrow> Inr None)"

fun outcome_reason :: "transition_outcome \<Rightarrow> string" where
  "outcome_reason (Applied _ r _) = r"
| "outcome_reason (Idempotent _) = ''IDEMPOTENT_RETRY''"
| "outcome_reason (Rejected _ r) = r"
| "outcome_reason (Invalid _ _) = []"

text \<open>The record to report and whether it is to be written.\<close>

definition prepareMappedFinalizationCommand ::
  "transition_command \<Rightarrow> jsnum \<Rightarrow> mapped_store \<Rightarrow> store_error + (finalization_record \<times> bool)" where
  "prepareMappedFinalizationCommand c now m =
     res_bind (readMappedFinalization (tc_sessionId c) m) (\<lambda>before.
       let outcome = evaluateFinalizationTransition before c now in
       case outcome of
         Invalid _ reason \<Rightarrow> Inl (InvalidTransition reason)
       | Applied _ _ nextRecord \<Rightarrow>
           (case admitFinalizationRecord (record_object nextRecord) of
              None \<Rightarrow> Inl ProducedInvalidRecord
            | Some r \<Rightarrow> Inr (r, True))
       | _ \<Rightarrow> (case before of None \<Rightarrow> Inl (NotApplied (outcome_reason outcome)) | Some r \<Rightarrow> Inr (r, False)))"

definition touchVotingRecord :: "string \<Rightarrow> jsnum \<Rightarrow> mapped_store \<Rightarrow> (store_error + unit) \<times> mapped_store" where
  "touchVotingRecord sessionId now m =
     (if \<not> ms_hasIdentity m sessionId then (Inl IdentityMissing, m)
      else case ms_lastActivity m sessionId of
             None \<Rightarrow> (Inl VotingMissing, m)
           | Some _ \<Rightarrow> (Inr (), m\<lparr>ms_lastActivity := (ms_lastActivity m)(sessionId \<mapsto> now)\<rparr>))"

definition applyFinalizationCommand :: "transition_command \<Rightarrow> jsnum \<Rightarrow> mapped_store \<Rightarrow> (store_error + finalization_record) \<times> mapped_store" where
  "applyFinalizationCommand c now m =
     (if \<not> ms_hasIdentity m (tc_sessionId c) then (Inl IdentityMissing, m)
      else case prepareMappedFinalizationCommand c now m of
        Inl e \<Rightarrow> (Inl e, m)
      | Inr (r, mutated) \<Rightarrow>
          if mutated then
            (let m1 = m\<lparr>ms_finalizations := (ms_finalizations m)(buildScopedKey (tc_sessionId c) (tc_finalizationId c) \<mapsto> record_object r),
                         ms_currentIds := (ms_currentIds m)(tc_sessionId c \<mapsto> tc_finalizationId c)\<rparr>
             in case touchVotingRecord (tc_sessionId c) now m1 of
                  (Inl e, m2) \<Rightarrow> (Inl e, m2)
                | (Inr _, m2) \<Rightarrow> (Inr r, m2))
          else (Inr r, m))"

text \<open>\<open>markFinalizationQueued\<close>, \<open>markFinalizationRunning\<close>, \<open>markFinalizationFailed\<close> and \<open>markFinalizationTimedOut\<close>; the payloads have exactly
  the properties of their types, which is what the assertions on their keys test.\<close>

definition markFinalization :: "string \<Rightarrow> lifecycle_payload \<Rightarrow> jsnum \<Rightarrow> mapped_store \<Rightarrow> (store_error + finalization_record) \<times> mapped_store" where
  "markFinalization sessionId payload now m = applyFinalizationCommand (buildFinalizationCommand sessionId payload) now m"

section \<open>The store refines the lifecycle\<close>

lemma availability_keys:
  "hasExactAvailabilityKeys (availability_value (map_option f x)) ks \<longleftrightarrow>
     (case x of None \<Rightarrow> True | Some y \<Rightarrow> length (f y) = length ks \<and> (\<forall>k \<in> set (map fst (f y)). k = ''availability'' \<or> k \<in> set ks))"
  by (auto simp: hasExactAvailabilityKeys_def availability_value_def hasExactOwnKeys_def list_all_iff split: option.splits)

lemma availability_available: "is_available (availability_value (map_option f x)) = (x \<noteq> None)"
  by (auto simp: is_available_def availability_value_def split: option.splits)

lemma copy_if_opt:
  "js_get v k = opt_value f x \<Longrightarrow> copy_if (x \<noteq> None) k' v k = opt_field k' (map_option f x)"
  by (auto simp: copy_if_def opt_field_def split: option.splits)

lemma authority_object_gets:
  fixes a :: result_authority
  defines "w \<equiv> JObj (authority_object a)"
  shows "js_get w ''tally'' = tally_value (ra_tally a)" "js_get w ''imageId'' = JStr (ra_imageId a)"
    "js_get w ''journal'' = journal_value (ra_journal a)"
    "js_get w ''tamperDetected'' = opt_value JBool (pr_tamperDetected a)" "hasOwn w ''tamperDetected'' = (pr_tamperDetected a \<noteq> None)"
    "js_get w ''scenarios'' = opt_value strings_value (pr_scenarios a)" "hasOwn w ''scenarios'' = (pr_scenarios a \<noteq> None)"
    "js_get w ''tamperSummary'' = opt_value tamper_summary_value (pr_tamperSummary a)" "hasOwn w ''tamperSummary'' = (pr_tamperSummary a \<noteq> None)"
    "js_get w ''artifacts'' = artifacts_object (ra_artifacts a)"
  unfolding w_def authority_object_def Let_def
  by (simp_all add: get_opt_fields comp_def del: js_get.simps split: option.split)

lemma authority_object_keys: "hasOnlyAllowedKeys (JObj (authority_object a)) ADMITTED_FINALIZATION_RESULT_AUTHORITY_KEYS"
proof -
  have "set (map fst (authority_object a)) \<subseteq> set ADMITTED_FINALIZATION_RESULT_AUTHORITY_KEYS"
    unfolding authority_object_def
    by (rule subset_trans [OF opt_fields_keys [folded set_map]]) (simp add: ADMITTED_FINALIZATION_RESULT_AUTHORITY_KEYS_def)
  then show ?thesis by (auto simp: hasOnlyAllowedKeys_def list_all_iff)
qed

lemma copy_available:
  "js_get (JObj ((''availability'', JStr ''available'') # kvs (the x))) k = f (the x) \<Longrightarrow>
     copy_if (x \<noteq> None) k' (availability_value (map_option kvs x)) k = opt_field k' (map_option f x)"
  by (cases x) (auto simp: copy_if_def opt_field_def availability_value_def)

lemma artifacts_object_gets:
  "js_get (artifacts_object x) ''publicAudit'' = availability_value (map_option (\<lambda>p. [(''publicInputArtifact'', stored_value (au_publicInputArtifact p)),
                (''electionManifest'', au_electionManifest p), (''closeStatement'', au_closeStatement p)]) (aa_publicAudit x))"
  "js_get (artifacts_object x) ''receipt'' = availability_value (map_option (\<lambda>r. [(''receipt'', receipt_value r)]) (aa_receipt x))"
  "js_get (artifacts_object x) ''receiptPublication'' =
     availability_value (map_option (\<lambda>p. [(''publication'', publication_value p)]) (aa_receiptPublication x))"
  "js_get (artifacts_object x) ''bitmap'' = availability_value (map_option (\<lambda>b. [(''proofSource'', proof_source_value (fst b)),
                (''data'', encodeFinalizationBitmapData (snd b))]) (aa_bitmap x))"
  "hasExactOwnKeys (artifacts_object x) FINALIZATION_ARTIFACT_AVAILABILITY_KEYS" "isNonNullObject (artifacts_object x)"
  by (simp_all add: artifacts_object_def hasExactOwnKeys_def FINALIZATION_ARTIFACT_AVAILABILITY_KEYS_def)

lemma authority_admitted:
  assumes "parseFinalizationResultAuthority v = Some a"
  shows "admitFinalizationResultAuthority (JObj (authority_object a)) = Some a"
proof -
  let ?w = "JObj (authority_object a)" and ?x = "artifacts_object (ra_artifacts a)"
  have "copy_if (is_available (js_get ?x ''receipt'')) ''receipt'' (js_get ?x ''receipt'') ''receipt'' =
      opt_field ''receipt'' (map_option receipt_value (aa_receipt (ra_artifacts a)))"
    "copy_if (is_available (js_get ?x ''receiptPublication'')) ''receiptPublication'' (js_get ?x ''receiptPublication'') ''publication'' =
      opt_field ''receiptPublication'' (map_option publication_value (aa_receiptPublication (ra_artifacts a)))"
    "copy_if (is_available (js_get ?x ''publicAudit'')) ''publicInputArtifact'' (js_get ?x ''publicAudit'') ''publicInputArtifact'' =
      opt_field ''publicInputArtifact'' (map_option (\<lambda>p. stored_value (au_publicInputArtifact p)) (aa_publicAudit (ra_artifacts a)))"
    "copy_if (is_available (js_get ?x ''publicAudit'')) ''electionManifest'' (js_get ?x ''publicAudit'') ''electionManifest'' =
      opt_field ''electionManifest'' (map_option au_electionManifest (aa_publicAudit (ra_artifacts a)))"
    "copy_if (is_available (js_get ?x ''publicAudit'')) ''closeStatement'' (js_get ?x ''publicAudit'') ''closeStatement'' =
      opt_field ''closeStatement'' (map_option au_closeStatement (aa_publicAudit (ra_artifacts a)))"
    "copy_if (is_available (js_get ?x ''bitmap'')) ''bitmapProofSource'' (js_get ?x ''bitmap'') ''proofSource'' =
      opt_field ''bitmapProofSource'' (map_option (\<lambda>b. proof_source_value (fst b)) (aa_bitmap (ra_artifacts a)))"
    "copy_if (is_available (js_get ?x ''bitmap'')) ''bitmapData'' (js_get ?x ''bitmap'') ''data'' =
      opt_field ''bitmapData'' (map_option (\<lambda>b. encodeFinalizationBitmapData (snd b)) (aa_bitmap (ra_artifacts a)))"
    unfolding artifacts_object_gets availability_available by (rule copy_available; simp)+
  note c = this
  have d: "copy_if (hasOwn ?w ''tamperDetected'') ''tamperDetected'' ?w ''tamperDetected'' = opt_field ''tamperDetected'' (map_option JBool (pr_tamperDetected a))"
    "copy_if (hasOwn ?w ''scenarios'') ''scenarios'' ?w ''scenarios'' = opt_field ''scenarios'' (map_option strings_value (pr_scenarios a))"
    "copy_if (hasOwn ?w ''tamperSummary'') ''tamperSummary'' ?w ''tamperSummary'' =
       opt_field ''tamperSummary'' (map_option tamper_summary_value (pr_tamperSummary a))"
    unfolding authority_object_gets by (rule copy_if_opt; simp add: authority_object_gets del: js_get.simps)+
  have k: "hasExactAvailabilityKeys (js_get ?x ''publicAudit'') [''publicInputArtifact'', ''electionManifest'', ''closeStatement'']"
    "hasExactAvailabilityKeys (js_get ?x ''receipt'') [''receipt'']" "hasExactAvailabilityKeys (js_get ?x ''receiptPublication'') [''publication'']"
    "hasExactAvailabilityKeys (js_get ?x ''bitmap'') [''proofSource'', ''data'']"
    unfolding artifacts_object_gets availability_keys by (simp_all split: option.split)
  have "opt_field k (Some v) = [(k, v)]" for k v by (simp add: opt_field_def)
  then have "encodeFinalizationResultAuthority a =
      [(''tally'', js_get ?w ''tally''), (''imageId'', js_get ?w ''imageId''), (''journal'', js_get ?w ''journal'')] @
      opt_field ''tamperDetected'' (map_option JBool (pr_tamperDetected a)) @ opt_field ''scenarios'' (map_option strings_value (pr_scenarios a)) @
      opt_field ''tamperSummary'' (map_option tamper_summary_value (pr_tamperSummary a)) @
      opt_field ''receipt'' (map_option receipt_value (aa_receipt (ra_artifacts a))) @
      opt_field ''receiptPublication'' (map_option publication_value (aa_receiptPublication (ra_artifacts a))) @
      opt_field ''publicInputArtifact'' (map_option (\<lambda>p. stored_value (au_publicInputArtifact p)) (aa_publicAudit (ra_artifacts a))) @
      opt_field ''electionManifest'' (map_option au_electionManifest (aa_publicAudit (ra_artifacts a))) @
      opt_field ''closeStatement'' (map_option au_closeStatement (aa_publicAudit (ra_artifacts a))) @
      opt_field ''bitmapProofSource'' (map_option (\<lambda>b. proof_source_value (fst b)) (aa_bitmap (ra_artifacts a))) @
      opt_field ''bitmapData'' (map_option (\<lambda>b. encodeFinalizationBitmapData (snd b)) (aa_bitmap (ra_artifacts a)))"
    unfolding authority_object_gets encodeFinalizationResultAuthority_def Let_def opt_fields_Cons by (simp add: opt_fields_def)
  with authority_read_back_result [OF assms] show ?thesis
    using authority_object_keys [of a] k artifacts_object_gets(5,6) [of "ra_artifacts a"]
    by (simp add: admitFinalizationResultAuthority_def authority_object_gets(10) c d Let_def del: js_get.simps append.simps)
qed

lemma record_object_gets:
  "js_get (record_object r) ''sessionId'' = JStr (fr_sessionId r)" "js_get (record_object r) ''finalizationId'' = JStr (fr_finalizationId r)"
  "js_get (record_object r) ''state'' = state_value (fr_state r)" "js_get (record_object r) ''scenarioContext'' = context_value (fr_scenarioContext r)"
  by (simp_all add: record_object_def)

text \<open>Admission brings a sound record into its stored form, or refuses its error.\<close>

lemma admit_sound:
  assumes "sound_record r"
  shows "admitFinalizationRecord (record_object r) = stored_form r"
proof -
  note i = sound_identity [OF assms record_object_gets]
  show ?thesis
  proof (cases "is_succeeded (fr_state r)")
    case False
    then have "fr_finalizationResult r = None" using assms by (simp add: sound_record_def)
    with False i stored_state_same(3) [of "fr_state r"] show ?thesis
      by (cases "stored_state (fr_state r)"; cases r)
        (simp_all add: admitFinalizationRecord_def parseRecordWith_def record_object_def isNonArrayObject_def hasExactOwnKeys_def
          FINALIZATION_RECORD_KEYS_def stored_form_def)
  next
    case True
    then obtain x v where x: "fr_finalizationResult r = Some x" "rr_finalizationId x = fr_finalizationId r"
      "parseFinalizationResultAuthority v = Some (rr_authority x)"
      using assms by (auto simp: sound_record_def)
    have "''finalizationId'' \<notin> set (map fst (authority_object (rr_authority x)))"
      using authority_object_keys [of "rr_authority x"]
      by (auto simp: hasOnlyAllowedKeys_def list_all_iff ADMITTED_FINALIZATION_RESULT_AUTHORITY_KEYS_def)
    then have "filter (\<lambda>f. fst f \<noteq> ''finalizationId'') (authority_object (rr_authority x)) = authority_object (rr_authority x)"
      by (force simp: filter_id_conv)
    then have "admitFinalizationResultRecord (JObj ((''finalizationId'', JStr (rr_finalizationId x)) # authority_object (rr_authority x))) = Some x"
      using authority_admitted [OF x(3)] x(2) assms
      by (simp add: admitFinalizationResultRecord_def parseResultRecordWith_def isNonArrayObject_def parseFinalizationId_def without_key_def sound_record_def)
    moreover have "stored_state (fr_state r) = Some (fr_state r)" using True by (cases "fr_state r") simp_all
    ultimately show ?thesis
      using True i x
      by (cases r)
        (simp add: admitFinalizationRecord_def parseRecordWith_def record_object_def isNonArrayObject_def hasExactOwnKeys_def
          SUCCEEDED_FINALIZATION_RECORD_KEYS_def stored_form_def)
  qed
qed

lemma admit_storable: "storable r \<Longrightarrow> admitFinalizationRecord (record_object r) = Some r"
  using admit_sound by (simp add: storable_iff)

lemma admitted_ids:
  assumes "admitFinalizationRecord (record_object n) = Some r"
  shows "fr_sessionId r = fr_sessionId n" "fr_finalizationId r = fr_finalizationId n"
  using assms
  by (auto simp: admitFinalizationRecord_def parseRecordWith_def identity_iff record_object_gets split: if_splits option.splits)

lemma scoped_key_inj:
  assumes "CHR 0x00 \<notin> set s" "CHR 0x00 \<notin> set s'"
  shows "buildScopedKey s i = buildScopedKey s' i' \<longleftrightarrow> s = s' \<and> i = i'"
proof
  assume "buildScopedKey s i = buildScopedKey s' i'"
  then have e: "s @ CHR 0x00 # i = s' @ CHR 0x00 # i'" by (simp add: buildScopedKey_def)
  have "takeWhile (\<lambda>c. c \<noteq> CHR 0x00) (s @ CHR 0x00 # i) = s" "takeWhile (\<lambda>c. c \<noteq> CHR 0x00) (s' @ CHR 0x00 # i') = s'"
    using assms by (auto simp: takeWhile_append)
  with e show "s = s' \<and> i = i'" by simp
qed simp

lemma safe_no_nul: "isSafeVerifierSegment s \<Longrightarrow> CHR 0x00 \<notin> set s" "isSafeVerifierSegment s \<Longrightarrow> s \<noteq> []"
  by (auto simp: isSafeVerifierSegment_def is_segment_char_def list_all_iff)

text \<open>The invariant: what a current identifier names is a storable record of that session.\<close>

definition store_ok :: "mapped_store \<Rightarrow> bool" where
  "store_ok m \<longleftrightarrow>
     (\<forall>s i. ms_currentIds m s = Some i \<longrightarrow>
        (\<exists>r. storable r \<and> fr_sessionId r = s \<and> fr_finalizationId r = i \<and> ms_finalizations m (buildScopedKey s i) = Some (record_object r)))"

definition current_of :: "mapped_store \<Rightarrow> string \<Rightarrow> finalization_record option" where
  "current_of m s = (case readMappedFinalization s m of Inr r \<Rightarrow> r | Inl _ \<Rightarrow> None)"

lemma read_ok:
  assumes "store_ok m"
  shows "readMappedFinalization s m = Inr (current_of m s)"
    "case current_of m s of None \<Rightarrow> ms_currentIds m s = None
     | Some r \<Rightarrow> storable r \<and> fr_sessionId r = s \<and> ms_currentIds m s = Some (fr_finalizationId r)"
proof -
  have "readMappedFinalization s m = Inr (current_of m s) \<and>
    (case current_of m s of None \<Rightarrow> ms_currentIds m s = None
     | Some r \<Rightarrow> storable r \<and> fr_sessionId r = s \<and> ms_currentIds m s = Some (fr_finalizationId r))"
  proof (cases "ms_currentIds m s")
    case (Some i)
    then obtain r where r: "storable r" "fr_sessionId r = s" "fr_finalizationId r = i"
      "ms_finalizations m (buildScopedKey s i) = Some (record_object r)"
      using assms by (auto simp: store_ok_def)
    then have "i \<noteq> []" using safe_no_nul(2) [of i] by (auto simp: storable_def)
    with Some r admit_storable [OF r(1)] show ?thesis by (simp add: readMappedFinalization_def current_of_def)
  qed (simp add: readMappedFinalization_def current_of_def)
  then show "readMappedFinalization s m = Inr (current_of m s)"
    "case current_of m s of None \<Rightarrow> ms_currentIds m s = None
     | Some r \<Rightarrow> storable r \<and> fr_sessionId r = s \<and> ms_currentIds m s = Some (fr_finalizationId r)"
    by blast+
qed

definition write_record :: "finalization_record \<Rightarrow> mapped_store \<Rightarrow> mapped_store" where
  "write_record r m =
     m\<lparr>ms_finalizations := (ms_finalizations m)(buildScopedKey (fr_sessionId r) (fr_finalizationId r) \<mapsto> record_object r),
       ms_currentIds := (ms_currentIds m)(fr_sessionId r \<mapsto> fr_finalizationId r)\<rparr>"

lemma write_ok:
  assumes "store_ok m" "storable r"
  shows "store_ok (write_record r m)" "current_of (write_record r m) (fr_sessionId r) = Some r"
    "s \<noteq> fr_sessionId r \<Longrightarrow> current_of (write_record r m) s = current_of m s"
proof -
  have n: "CHR 0x00 \<notin> set (fr_sessionId r)" using assms(2) safe_no_nul by (auto simp: storable_def)
  have o: "CHR 0x00 \<notin> set s" if "ms_currentIds m s = Some i" for s i
    using that assms(1) safe_no_nul by (fastforce simp: store_ok_def storable_def)
  show ok: "store_ok (write_record r m)"
    using assms n o by (auto simp: store_ok_def write_record_def scoped_key_inj)
  show "current_of (write_record r m) (fr_sessionId r) = Some r"
    using admit_storable [OF assms(2)] safe_no_nul(2) assms(2)
    by (auto simp: current_of_def readMappedFinalization_def write_record_def storable_def)
  assume s: "s \<noteq> fr_sessionId r"
  then show "current_of (write_record r m) s = current_of m s"
    using scoped_key_inj [OF o n] by (cases "ms_currentIds m s") (auto simp: current_of_def readMappedFinalization_def write_record_def)
qed

lemma touch_same:
  assumes "touchVotingRecord s now m = (x, m')"
  shows "ms_finalizations m' = ms_finalizations m" "ms_currentIds m' = ms_currentIds m" "ms_hasIdentity m' = ms_hasIdentity m"
    "ms_hasIdentity m s \<Longrightarrow> ms_lastActivity m s \<noteq> None \<Longrightarrow> x = Inr ()" "dom (ms_lastActivity m') = dom (ms_lastActivity m)"
  using assms by (auto simp: touchVotingRecord_def split: if_splits option.splits)

lemma same_finalizations:
  assumes "ms_finalizations m' = ms_finalizations m" "ms_currentIds m' = ms_currentIds m"
  shows "current_of m' = current_of m" "store_ok m' = store_ok m"
  unfolding current_of_def [abs_def] readMappedFinalization_def store_ok_def assms by simp_all

text \<open>The lifecycle of a session as the store keeps it: the record that the policy decides on is kept in its stored form,
  and a failure whose error has no stored form is refused.\<close>

definition apply_stored :: "finalization_record option \<Rightarrow> transition_command \<times> jsnum \<Rightarrow> finalization_record option" where
  "apply_stored cur ct =
     (case evaluateFinalizationTransition cur (fst ct) (snd ct) of
        Applied _ _ n \<Rightarrow> (case stored_form n of None \<Rightarrow> cur | Some r \<Rightarrow> Some r)
      | _ \<Rightarrow> cur)"

definition stored_step :: "finalization_record option \<Rightarrow> transition_command \<times> jsnum \<Rightarrow> finalization_record option \<Rightarrow> bool" where
  "stored_step cur ct cur' \<longleftrightarrow> cur' = apply_stored cur ct"

text \<open>On commands whose errors are in stored form this is the lifecycle of the policy.\<close>

lemma apply_stored_eq:
  assumes "stored_error (tc_body c)"
  shows "apply_stored cur (c, t) = apply_command cur (c, t)"
proof -
  have "stored_form n = Some n" if "evaluateFinalizationTransition cur c t = Applied st reason n" for st reason n
    using applied_error [OF that assms] unfolding stored_state_iff [symmetric] by (simp add: stored_form_def)
  then show ?thesis by (auto simp: apply_stored_def apply_command_def split: transition_outcome.splits)
qed

lemma stored_record_inv:
  assumes "record_inv n" "stored_form n = Some r"
  shows "record_inv r"
proof -
  obtain s where s: "stored_state (fr_state n) = Some s" "r = n\<lparr>fr_state := s\<rparr>" using assms(2) by (auto simp: stored_form_def)
  show ?thesis using assms(1) stored_state_same [OF s(1)] by (simp add: s(2) record_inv_def ordered_times_def)
qed

interpretation stored_lifecycle: invariant_system "\<lambda>cur. cur = None" stored_step well_kept
proof
  fix cur ct cur' assume "well_kept cur" "stored_step cur ct cur'"
  then show "well_kept cur'"
    by (auto simp: stored_step_def apply_stored_def well_kept_def split: transition_outcome.splits option.splits
        dest: applied_record_inv intro: stored_record_inv)
qed (simp add: well_kept_def)

text \<open>The outcome of a command on a store that satisfies the invariant.\<close>

lemma apply_command_cases:
  assumes "store_ok m" "applyFinalizationCommand c now m = (res, m')"
  obtains (unchanged) "m' = m" "ms_hasIdentity m (tc_sessionId c) \<Longrightarrow>
      apply_stored (current_of m (tc_sessionId c)) (c, now) = current_of m (tc_sessionId c)"
      "case res of Inl _ \<Rightarrow> True | Inr r \<Rightarrow> current_of m (tc_sessionId c) = Some r"
  | (written) r n st reason where "ms_hasIdentity m (tc_sessionId c)"
      "evaluateFinalizationTransition (current_of m (tc_sessionId c)) c now = Applied st reason n"
      "storable r" "fr_sessionId r = tc_sessionId c" "stored_form n = Some r"
      "ms_finalizations m' = ms_finalizations (write_record r m)" "ms_currentIds m' = ms_currentIds (write_record r m)"
      "ms_hasIdentity m' = ms_hasIdentity m" "dom (ms_lastActivity m') = dom (ms_lastActivity m)"
      "if ms_lastActivity m (tc_sessionId c) = None then res = Inl VotingMissing else res = Inr r"
proof -
  let ?s = "tc_sessionId c" and ?cur = "current_of m (tc_sessionId c)"
  note rd = read_ok [OF assms(1), of ?s]
  have cur: "case ?cur of None \<Rightarrow> True | Some r \<Rightarrow> sound_record r" using rd(2) by (auto simp: storable_iff split: option.splits)
  have adm: "admitFinalizationRecord (record_object n) = stored_form n" "sound_record n"
    if "evaluateFinalizationTransition ?cur c now = Applied st reason n" for st reason n
    using applied_sound [OF that cur] admit_sound by auto
  show thesis
  proof (cases "\<exists>st reason n r. ms_hasIdentity m ?s \<and> evaluateFinalizationTransition ?cur c now = Applied st reason n \<and> stored_form n = Some r")
    case True
    then obtain st reason n r where t: "ms_hasIdentity m ?s" "evaluateFinalizationTransition ?cur c now = Applied st reason n"
      "stored_form n = Some r" by blast
    note ad = adm [OF t(2)]
    from t(2) obtain a where a: "admitCommand c = Inr a" "buildNextRecord ?cur a = Some n" by (auto simp: applied_iff)
    have ids: "fr_sessionId r = ?s" "fr_finalizationId r = tc_finalizationId c"
      using t(3) next_record [OF a(2)] admitted [OF a(1)] by (auto simp: stored_form_def)
    have p: "prepareMappedFinalizationCommand c now m = Inr (r, True)"
      using rd(1) t ad by (simp add: prepareMappedFinalizationCommand_def)
    obtain x m2 where x: "touchVotingRecord ?s now (write_record r m) = (x, m2)" by (metis prod.exhaust)
    have "(res, m') = (case x of Inl e \<Rightarrow> Inl e | Inr _ \<Rightarrow> Inr r, m2)"
      using assms(2) p t(1) x ids by (simp add: applyFinalizationCommand_def write_record_def Let_def split: sum.splits)
    moreover have "x = (if ms_lastActivity m ?s = None then Inl VotingMissing else Inr ())"
      using x t(1) by (auto simp: touchVotingRecord_def write_record_def split: option.splits)
    ultimately show thesis
      using t ids touch_same [OF x] stored_form_storable [OF ad(2) t(3)]
      by (intro written [of st reason n r]) (simp_all add: write_record_def)
  next
    case False
    then have "m' = m \<and> (case res of Inl _ \<Rightarrow> True | Inr r \<Rightarrow> ?cur = Some r)"
      using assms(2) rd(1) adm(1)
      by (auto simp: applyFinalizationCommand_def prepareMappedFinalizationCommand_def Let_def split: if_splits transition_outcome.splits option.splits)
    moreover have "apply_stored ?cur (c, now) = ?cur" if "ms_hasIdentity m ?s"
      using that False by (auto simp: apply_stored_def split: transition_outcome.splits option.splits)
    ultimately show thesis by (intro unchanged) auto
  qed
qed

text \<open>A sequence of commands on the store, and the commands of one session applied one after the other to its record.\<close>

definition store_step :: "mapped_store \<Rightarrow> transition_command \<times> jsnum \<Rightarrow> mapped_store \<Rightarrow> bool" where
  "store_step m ct m' \<longleftrightarrow> m' = snd (applyFinalizationCommand (fst ct) (snd ct) m)"

definition commands_for :: "string \<Rightarrow> (transition_command \<times> jsnum) list \<Rightarrow> (transition_command \<times> jsnum) list" where
  "commands_for s cs = filter (\<lambda>ct. tc_sessionId (fst ct) = s) cs"

lemma step_refines:
  assumes "store_ok m" "store_step m (c, now) m'"
  shows "store_ok m'" "ms_hasIdentity m' = ms_hasIdentity m"
    "ms_hasIdentity m s \<Longrightarrow> current_of m' s = (if tc_sessionId c = s then apply_stored (current_of m s) (c, now) else current_of m s)"
proof -
  obtain res where "applyFinalizationCommand c now m = (res, m')" using assms(2) by (metis store_step_def prod.collapse fst_conv snd_conv)
  then have "store_ok m' \<and> ms_hasIdentity m' = ms_hasIdentity m \<and>
     (ms_hasIdentity m s \<longrightarrow> current_of m' s = (if tc_sessionId c = s then apply_stored (current_of m s) (c, now) else current_of m s))"
  proof (cases rule: apply_command_cases [OF assms(1), consumes 1, case_names unchanged written])
    case unchanged
    then show ?thesis using assms(1) by auto
  next
    case (written r n st reason)
    note w = write_ok [OF assms(1) written(3)]
    show ?thesis using w written same_finalizations [OF written(6,7)] by (auto simp: apply_stored_def)
  qed
  then show "store_ok m'" "ms_hasIdentity m' = ms_hasIdentity m"
    "ms_hasIdentity m s \<Longrightarrow> current_of m' s = (if tc_sessionId c = s then apply_stored (current_of m s) (c, now) else current_of m s)"
    by blast+
qed

interpretation finalization_store: invariant_system "\<lambda>m. ms_currentIds m = Map.empty" store_step store_ok
proof
  show "store_ok m'" if "store_ok m" "store_step m ct m'" for m ct m' using step_refines(1) [of m "fst ct" "snd ct" m'] that by simp
qed (simp add: store_ok_def)

lemma runs_refine:
  assumes "runs store_step m cs m'" "store_ok m" "ms_hasIdentity m s"
  shows "runs stored_step (current_of m s) (commands_for s cs) (current_of m' s)"
  using assms
proof (induction rule: runs.induct)
  case (runs_Cons m ct m1 cs m2)
  have r: "store_ok m1" "ms_hasIdentity m1 s"
    "current_of m1 s = (if tc_sessionId (fst ct) = s then apply_stored (current_of m s) ct else current_of m s)"
    using step_refines(1,2) [of m "fst ct" "snd ct" m1] step_refines(3) [of m "fst ct" "snd ct" m1 s] runs_Cons.hyps runs_Cons.prems by simp_all
  then have "runs stored_step (current_of m1 s) (commands_for s cs) (current_of m2 s)" using runs_Cons by simp
  with r(3) show ?case
    by (cases "tc_sessionId (fst ct) = s") (auto simp: commands_for_def stored_step_def [of _ ct] intro: runs.intros)
qed (simp add: commands_for_def runs.intros)

lemma runs_stored:
  "runs stored_step cur cs cur' \<Longrightarrow> list_all (\<lambda>ct. stored_error (tc_body (fst ct))) cs \<Longrightarrow> runs lifecycle_step cur cs cur'"
proof (induction rule: runs.induct)
  case (runs_Cons s l s' ls s'')
  then have "lifecycle_step s l s'" using apply_stored_eq [of "fst l" s "snd l"] by (simp add: lifecycle_step_def stored_step_def)
  with runs_Cons show ?case by (auto intro: runs.intros)
qed (simp add: runs.intros)

lemma identity_kept: "runs store_step m cs m' \<Longrightarrow> store_ok m \<Longrightarrow> ms_hasIdentity m' = ms_hasIdentity m"
proof (induction rule: runs.induct)
  case (runs_Cons m ct m1 cs m2)
  then show ?case using step_refines(1,2) [of m "fst ct" "snd ct" m1] by simp
qed simp

section \<open>Properties\<close>

text \<open>C30: the store of finalizations implements the lifecycle of each session.  After any sequence of commands for any
  sessions on a store without current finalizations, reading the current record of a session never fails and gives
  exactly what the lifecycle policy makes of that session's own commands, in their order, with the errors of failures
  in stored form and a failure refused when its error has none.  When the errors of the session's failures are in stored
  form, this is the policy's own lifecycle.  No command of another session has any influence, and nothing is lost in the
  maps with their composed keys or in the admission of the stored records.\<close>

theorem store_refines_lifecycle:
  assumes "ms_currentIds m = Map.empty" "runs store_step m cs m'" "ms_hasIdentity m s"
  shows "\<exists>cur. getCurrentFinalizationRecord s m' = Inr cur \<and> runs stored_step None (commands_for s cs) cur \<and>
    (list_all (\<lambda>ct. stored_error (tc_body (fst ct))) (commands_for s cs) \<longrightarrow> runs lifecycle_step None (commands_for s cs) cur)"
proof -
  have ok: "store_ok m" using assms(1) by (simp add: finalization_store.init_inv)
  moreover have "store_ok m'" by (rule finalization_store.reachable_inv [OF assms(1,2)])
  moreover have "current_of m s = None" using assms(1) by (simp add: current_of_def readMappedFinalization_def)
  ultimately show ?thesis
    using runs_refine [OF assms(2) ok assms(3)] read_ok(1) [of m' s] identity_kept [OF assms(2) ok] assms(3) runs_stored
    by (simp add: getCurrentFinalizationRecord_def)
qed

text \<open>A failure whose error has a property besides those of its type.\<close>

definition annotate :: "string \<Rightarrow> jsval \<Rightarrow> jsval \<Rightarrow> jsval" where
  "annotate k x e = JObj (spread e @ [(k, x)])"

definition with_error :: "transition_command \<Rightarrow> jsval \<Rightarrow> transition_command" where
  "with_error c e = (case tc_body c of Fail started failed _ \<Rightarrow> c\<lparr>tc_body := Fail started failed e\<rparr> | _ \<Rightarrow> c)"

lemma annotated_not_stored: "k \<notin> set FINALIZATION_ERROR_KEYS \<Longrightarrow> parseFinalizationError (annotate k x e) = None"
  by (simp add: parseFinalizationError_def annotate_def hasOnlyAllowedKeys_def)

lemma annotated_get: "k' \<noteq> k \<Longrightarrow> js_get (annotate k x (JObj fs)) k' = js_get (JObj fs) k'"
  by (auto simp: annotate_def map_add_def split: option.splits)

lemma annotated_valid:
  assumes "k \<notin> set FINALIZATION_ERROR_KEYS"
  shows "hasValidFailureError (annotate k x (JObj fs)) = hasValidFailureError (JObj fs)"
    "js_get (annotate k x (JObj fs)) ''code'' = js_get (JObj fs) ''code''"
proof -
  have "''code'' \<noteq> k" "''message'' \<noteq> k" "''category'' \<noteq> k" using assms by (auto simp: FINALIZATION_ERROR_KEYS_def)
  note g = this [THEN annotated_get, of x fs]
  show "hasValidFailureError (annotate k x (JObj fs)) = hasValidFailureError (JObj fs)"
    unfolding hasValidFailureError_def g by (simp add: annotate_def)
  show "js_get (annotate k x (JObj fs)) ''code'' = js_get (JObj fs) ''code''" by (rule g(1))
qed

lemma annotated_admitted:
  assumes "admitCommand c = Inr a" "tc_body c = Fail started failed (JObj fs)" "k \<notin> set FINALIZATION_ERROR_KEYS"
  shows "admitCommand (with_error c (annotate k x (JObj fs))) =
    Inr (a\<lparr>ac_body := Fail started failed (annotate k x (JObj fs)),
           ac_state := FailedState (tc_finalizationId c) (tc_queuedAtMs c) started failed (annotate k x (JObj fs))\<rparr>)"
proof -
  have "hasValidBase (with_error c e) = hasValidBase c" for e using assms(2) by (simp add: with_error_def hasValidBase_def)
  then show ?thesis
    using assms(1,2) annotated_valid [OF assms(3), of x fs]
    by (auto simp: admitCommand_def with_error_def Let_def hasRequiredScenarioContext_def admit_defs split: option.splits if_splits)
qed

lemma failure_without_error:
  assumes "getStringProperty v ''status'' = Some ''failed''" "parseFinalizationError (js_get v ''error'') = None"
  shows "parseFinalizationState v = None"
proof -
  have "parseFinalizationProgress ''failed'' v i q s = None" for i q s
    by (simp add: parseFinalizationProgress_def parseFailedFinalization_def assms(2))
  then show ?thesis by (simp add: parseFinalizationState_def assms(1) Let_def split: option.split)
qed

lemma unparsed_failure:
  assumes "parseFinalizationError e = None" "js_get v ''state'' = state_value (FailedState i q s f e)"
  shows "parseRecordWith v parse = None"
proof -
  have "parseFinalizationState (state_value (FailedState i q s f e)) = None"
    by (rule failure_without_error; cases s) (simp_all add: get_eqs opt_field_def assms(1))
  then show ?thesis using assms(2) by (simp add: parseRecordWith_def parseFinalizationRecordIdentity_def split: option.split)
qed

text \<open>C28: the admission of errors by the policy is weaker than that of the store.  Take any failure that the policy applies
  and add any property to its error besides code, message, category and details.  The policy still applies it, for the
  same reason, but the record it decides on is encoded to a value that the codec refuses to decode, and a store whose
  current record is the given one refuses to write it and is left as it was: the attempt stays unfinished.\<close>

theorem annotated_failure_unreadable:
  assumes "evaluateFinalizationTransition cur c t = Applied st reason n"
    "tc_body c = Fail started failed (JObj fs)" "k \<notin> set FINALIZATION_ERROR_KEYS"
  shows "\<exists>st' n' w. evaluateFinalizationTransition cur (with_error c (annotate k x (JObj fs))) t = Applied st' reason n' \<and>
    encodeFinalizationRecord n' = Inr w \<and> decodeFinalizationRecord w = None \<and>
    (\<forall>m. getCurrentFinalizationRecord (tc_sessionId c) m = Inr cur \<longrightarrow>
       applyFinalizationCommand (with_error c (annotate k x (JObj fs))) t m = (Inl ProducedInvalidRecord, m))"
proof -
  let ?c = "with_error c (annotate k x (JObj fs))" and
    ?st = "FailedState (tc_finalizationId c) (tc_queuedAtMs c) started failed (annotate k x (JObj fs))"
  let ?n = "n\<lparr>fr_state := ?st\<rparr>"
  obtain a where a: "admitCommand c = Inr a" "open_for cur c" "buildNextRecord cur a = Some n" "reason = ac_reason a"
    "policy_isNonNegativeInteger t" "\<not> ac_invalidSuccessfulResult a" using assms(1) by (auto simp: applied_iff)
  have same: "tc_sessionId ?c = tc_sessionId c" "tc_finalizationId ?c = tc_finalizationId c" "tc_body ?c = Fail started failed (annotate k x (JObj fs))"
    using assms(2) by (simp_all add: with_error_def)
  have "\<not> is_succeeded (ac_state a)"
    using a(1) assms(2) by (auto simp: admitCommand_def Let_def admit_defs split: option.splits if_splits)
  then have "buildNextRecord cur (a\<lparr>ac_body := Fail started failed (annotate k x (JObj fs)), ac_state := ?st\<rparr>) = Some ?n"
    using a(3) by (auto simp: buildNextRecord_def Let_def split: option.splits)
  moreover have "\<not> repeats cur ?n" by (auto simp: repeats_def split: option.splits)
  moreover have "open_for cur ?c" using a(2) assms(2) same by (simp add: open_for_def split: option.splits)
  ultimately have app: "evaluateFinalizationTransition cur ?c t = Applied ?st reason ?n"
    using annotated_admitted [OF a(1) assms(2,3), of x] a(4-6) unfolding applied_iff by simp
  note bad = unparsed_failure [OF annotated_not_stored [OF assms(3)]]
  have "decodeFinalizationRecord (projr (encodeFinalizationRecord ?n)) = None" "encodeFinalizationRecord ?n = Inr (projr (encodeFinalizationRecord ?n))"
    unfolding decodeFinalizationRecord_def by (rule bad) (simp_all add: encodeFinalizationRecord_def)
  moreover have "admitFinalizationRecord (record_object ?n) = None"
    unfolding admitFinalizationRecord_def by (rule bad) (simp add: record_object_gets)
  then have "applyFinalizationCommand ?c t m = (Inl ProducedInvalidRecord, m)" if "getCurrentFinalizationRecord (tc_sessionId c) m = Inr cur" for m
    using that app same
    by (auto simp: applyFinalizationCommand_def prepareMappedFinalizationCommand_def getCurrentFinalizationRecord_def split: if_splits)
  ultimately show ?thesis using app by blast
qed

section \<open>A store\<close>

definition sample_store :: mapped_store where
  "sample_store = \<lparr>ms_hasIdentity = (\<lambda>s. s = ''s-1''), ms_currentIds = Map.empty, ms_finalizations = Map.empty, ms_lastActivity = [''s-1'' \<mapsto> js_int 1]\<rparr>"

definition sample_error :: jsval where
  "sample_error = JObj [(''code'', JStr ''PROVER_TASK_FAILED''), (''message'', JStr ''m'')]"

definition sample_failure :: transition_command where
  "sample_failure = sample_command None (Fail (Some (js_int 7)) (js_int 8) sample_error)"

definition annotated_failure :: transition_command where
  "annotated_failure = with_error sample_failure (annotate ''retryable'' (JBool True) sample_error)"

text \<open>The commands of two sessions; then a failure that is refused and a success as the synchronous finalization reports it.\<close>

definition sample_commands :: "(transition_command \<times> jsnum) list" where
  "sample_commands =
     [(sample_command (Some (context_value sample_context)) Queue, js_int 6),
      ((sample_command (Some (context_value sample_context)) Queue)\<lparr>tc_sessionId := ''s-2''\<rparr>, js_int 7),
      (sample_command None (Start (js_int 7)), js_int 8)]"

definition sample_ending :: "(transition_command \<times> jsnum) list" where
  "sample_ending = [(annotated_failure, js_int 8), (sample_command None (Succeed (js_int 7) (js_int 9) sample_result), js_int 9)]"

definition apply_all :: "(transition_command \<times> jsnum) list \<Rightarrow> mapped_store \<Rightarrow> mapped_store" where
  "apply_all cs m = fold (\<lambda>ct m. snd (applyFinalizationCommand (fst ct) (snd ct) m)) cs m"

lemma apply_all_runs: "runs store_step m cs (apply_all cs m)"
  by (induction cs arbitrary: m) (auto simp: apply_all_def store_step_def intro: runs.intros)

inductive_cases runs_NilE: "runs step s [] s'"
inductive_cases runs_ConsE: "runs step s (l # ls) s'"

lemma sample_failure_applied:
  "evaluateFinalizationTransition (Some (sample_record (Running ''F1'' (js_int 5) (js_int 7)))) sample_failure (js_int 8) =
     Applied (FailedState ''F1'' (js_int 5) (Some (js_int 7)) (js_int 8) sample_error) ''PROVER_TASK_FAILED''
       (sample_record (FailedState ''F1'' (js_int 5) (Some (js_int 7)) (js_int 8) sample_error))"
  using sample_base
  by (simp add: sample_failure_def sample_eval hasValidFailureError_def sample_error_def isFinalizationEventReason_def FINALIZATION_REASONS_def)

lemma sample_stored:
  "apply_stored None (sample_command (Some (context_value sample_context)) Queue, js_int 6) = Some (sample_record (Pending ''F1'' (js_int 5)))"
  "apply_stored (Some (sample_record (Pending ''F1'' (js_int 5)))) (sample_command None (Start (js_int 7)), js_int 8) =
     Some (sample_record (Running ''F1'' (js_int 5) (js_int 7)))"
  "apply_stored (Some (sample_record (Running ''F1'' (js_int 5) (js_int 7)))) (annotated_failure, js_int 8) =
     Some (sample_record (Running ''F1'' (js_int 5) (js_int 7)))"
  "apply_stored (Some (sample_record (Running ''F1'' (js_int 5) (js_int 7))))
     (sample_command None (Succeed (js_int 7) (js_int 9) sample_result), js_int 9) = Some sample_success"
proof -
  show "apply_stored None (sample_command (Some (context_value sample_context)) Queue, js_int 6) = Some (sample_record (Pending ''F1'' (js_int 5)))"
    "apply_stored (Some (sample_record (Pending ''F1'' (js_int 5)))) (sample_command None (Start (js_int 7)), js_int 8) =
       Some (sample_record (Running ''F1'' (js_int 5) (js_int 7)))"
    "apply_stored (Some (sample_record (Running ''F1'' (js_int 5) (js_int 7))))
       (sample_command None (Succeed (js_int 7) (js_int 9) sample_result), js_int 9) = Some sample_success"
    using sample_run sample_success_run(1) by (simp_all add: apply_stored_eq sample_command_def)
  have "stored_form n = None" if "evaluateFinalizationTransition cur annotated_failure t = Applied st reason n" for cur t st reason n
  proof -
    obtain a where a: "admitCommand annotated_failure = Inr a" "buildNextRecord cur a = Some n" using \<open>evaluateFinalizationTransition cur annotated_failure t = Applied st reason n\<close> by (auto simp: applied_iff)
    have "tc_body annotated_failure = Fail (Some (js_int 7)) (js_int 8) (annotate ''retryable'' (JBool True) sample_error)"
      by (simp add: annotated_failure_def with_error_def sample_failure_def sample_command_def)
    then have "\<exists>i q. ac_state a = FailedState i q (Some (js_int 7)) (js_int 8) (annotate ''retryable'' (JBool True) sample_error)"
      using a(1) by (auto simp: admitCommand_def Let_def admit_defs split: option.splits if_splits)
    moreover have "parseFinalizationError (annotate ''retryable'' (JBool True) sample_error) = None"
      by (rule annotated_not_stored) (simp add: FINALIZATION_ERROR_KEYS_def)
    ultimately show ?thesis using next_record(3) [OF a(2)] by (auto simp: stored_form_def)
  qed
  then show "apply_stored (Some (sample_record (Running ''F1'' (js_int 5) (js_int 7)))) (annotated_failure, js_int 8) =
     Some (sample_record (Running ''F1'' (js_int 5) (js_int 7)))"
    by (auto simp: apply_stored_def split: transition_outcome.splits)
qed

theorem store_refines_lifecycle_witness:
  "getCurrentFinalizationRecord ''s-1'' (apply_all (sample_commands @ sample_ending) sample_store) = Inr (Some sample_success)"
proof -
  have "\<exists>cur. getCurrentFinalizationRecord ''s-1'' (apply_all (sample_commands @ sample_ending) sample_store) = Inr cur \<and>
      runs stored_step None (commands_for ''s-1'' (sample_commands @ sample_ending)) cur"
    using store_refines_lifecycle [OF _ apply_all_runs, of sample_store "''s-1''" "sample_commands @ sample_ending"]
    by (auto simp: sample_store_def)
  moreover have "commands_for ''s-1'' (sample_commands @ sample_ending) =
      [(sample_command (Some (context_value sample_context)) Queue, js_int 6), (sample_command None (Start (js_int 7)), js_int 8)] @ sample_ending"
    by (simp add: commands_for_def sample_commands_def sample_ending_def annotated_failure_def with_error_def sample_failure_def sample_command_def)
  ultimately show ?thesis using sample_stored by (auto simp: stored_step_def sample_ending_def elim!: runs_ConsE runs_NilE)
qed

theorem annotated_failure_unreadable_witness:
  "\<exists>st n w. evaluateFinalizationTransition (Some (sample_record (Running ''F1'' (js_int 5) (js_int 7)))) annotated_failure (js_int 8) =
      Applied st ''PROVER_TASK_FAILED'' n \<and> encodeFinalizationRecord n = Inr w \<and> decodeFinalizationRecord w = None"
  using annotated_failure_unreadable [OF sample_failure_applied, of "Some (js_int 7)" "js_int 8" "[(''code'', JStr ''PROVER_TASK_FAILED''), (''message'', JStr ''m'')]"
      "''retryable''" "JBool True"]
  by (auto simp: annotated_failure_def sample_error_def sample_failure_def sample_command_def FINALIZATION_ERROR_KEYS_def)

end
