(* ===== verification/Reconciliation.thy ===== *)
theory Reconciliation
  imports FinalizationStore
begin

text \<open>
  The reconciliation of unfinished finalizations (application reconcile-finalization.ts) over the store.  The
  observation of the execution is an argument that may also change the store: it stands for the remote call and for
  whatever other writers do meanwhile.  The clock of the store, \<^verbatim>\<open>Date.now()\<close>, is the argument \<open>clock\<close>.
\<close>

section \<open>Model\<close>

datatype stop_status = ExecSucceeded | ExecFailed | ExecTimedOut | ExecAborted

datatype execution_observation = ExecMissing | ExecRunning | ExecStopped stop_status jsnum

record reconciliation_input =
  in_sessionId :: string
  in_finalizationId :: string
  in_nowMs :: jsnum
  in_dispatchDeadlineMs :: jsnum

fun num_neg :: "jsnum \<Rightarrow> jsnum" where
  "num_neg (Num p) = Num (- p)"
| "num_neg (Infty s) = Infty (\<not> s)"
| "num_neg NaN = NaN"

definition num_sub :: "jsnum \<Rightarrow> jsnum \<Rightarrow> jsnum" where
  "num_sub x y = num_add x (num_neg y)"

fun is_pending :: "finalization_state \<Rightarrow> bool" where
  "is_pending (Pending _ _) = True"
| "is_pending _ = False"

fun is_running :: "finalization_state \<Rightarrow> bool" where
  "is_running (Running _ _ _) = True"
| "is_running _ = False"

fun queued_at :: "finalization_state \<Rightarrow> jsnum" where
  "queued_at (Pending _ q) = q"
| "queued_at (Running _ q _) = q"
| "queued_at (Succeeded _ q _ _) = q"
| "queued_at (FailedState _ q _ _ _) = q"
| "queued_at (TimedOut _ q _ _) = q"

text \<open>\<^verbatim>\<open>...(state.status === 'running' ? { startedAtMs: state.startedAtMs } : {})\<close>.\<close>

fun running_since :: "finalization_state \<Rightarrow> jsnum option" where
  "running_since (Running _ _ s) = Some s"
| "running_since _ = None"

definition isCurrentUnfinishedFinalization :: "finalization_record option \<Rightarrow> string \<Rightarrow> bool" where
  "isCurrentUnfinishedFinalization rec i =
     (case rec of
        None \<Rightarrow> False
      | Some r \<Rightarrow> fr_finalizationId r = i \<and> (is_pending (fr_state r) \<or> is_running (fr_state r)))"

definition shouldReconcileExecution :: "finalization_state \<Rightarrow> execution_observation \<Rightarrow> jsnum \<Rightarrow> jsnum \<Rightarrow> bool" where
  "shouldReconcileExecution state execution nowMs dispatchDeadlineMs =
     (case execution of
        ExecRunning \<Rightarrow> False
      | ExecMissing \<Rightarrow> \<not> (\<not> is_pending state \<or> num_le (num_sub nowMs (queued_at state)) dispatchDeadlineMs)
      | ExecStopped _ stoppedAtMs \<Rightarrow> \<not> num_lt (num_sub nowMs stoppedAtMs) (js_int 60000))"

fun resolveReconciliationFailureReason :: "finalization_state \<Rightarrow> execution_observation \<Rightarrow> string" where
  "resolveReconciliationFailureReason state ExecMissing = ''FINALIZATION_DISPATCH_TIMEOUT''"
| "resolveReconciliationFailureReason state ExecRunning =
     (if is_pending state then ''FINALIZATION_OUTCOME_UNRECORDED'' else ''PROVER_EXECUTION_ABORTED'')"
| "resolveReconciliationFailureReason state (ExecStopped st _) =
     (if is_pending state \<or> st = ExecSucceeded \<or> st = ExecTimedOut then ''FINALIZATION_OUTCOME_UNRECORDED''
      else if st = ExecFailed then ''PROVER_EXECUTION_FAILED'' else ''PROVER_EXECUTION_ABORTED'')"

fun execution_status :: "execution_observation \<Rightarrow> string" where
  "execution_status ExecMissing = ''missing''"
| "execution_status ExecRunning = ''running''"
| "execution_status (ExecStopped ExecSucceeded _) = ''succeeded''"
| "execution_status (ExecStopped ExecFailed _) = ''failed''"
| "execution_status (ExecStopped ExecTimedOut _) = ''timed_out''"
| "execution_status (ExecStopped ExecAborted _) = ''aborted''"

fun stopped_at :: "execution_observation \<Rightarrow> jsnum option" where
  "stopped_at (ExecStopped _ t) = Some t"
| "stopped_at _ = None"

definition reconciled_payload :: "reconciliation_input \<Rightarrow> finalization_state \<Rightarrow> execution_observation \<Rightarrow> lifecycle_payload" where
  "reconciled_payload input state execution =
     (let common = \<lambda>reason. \<lparr>pl_finalizationId = in_finalizationId input, pl_queuedAtMs = queued_at state, pl_scenarioContext = None,
                            pl_reason = Some reason\<rparr>
      in case (execution, is_running state) of
           (ExecStopped ExecTimedOut stoppedAtMs, True) \<Rightarrow>
             TimedOutPayload (common ''EXECUTION_TIMED_OUT'') (running_since state) stoppedAtMs
         | _ \<Rightarrow>
             let reason = resolveReconciliationFailureReason state execution in
             FailedPayload (common reason) (running_since state) (case stopped_at execution of Some t \<Rightarrow> t | None \<Rightarrow> in_nowMs input)
               (JObj [(''code'', JStr reason),
                      (''message'', JStr (if execution = ExecMissing then ''Finalization dispatch did not start before its deadline.''
                         else ''Finalization execution '' @ execution_status execution @ '' without a recorded outcome.''))]))"

definition writeReconciledOutcome ::
  "reconciliation_input \<Rightarrow> finalization_state \<Rightarrow> execution_observation \<Rightarrow> jsnum \<Rightarrow> mapped_store \<Rightarrow> (store_error + finalization_record) \<times> mapped_store" where
  "writeReconciledOutcome input state execution clock m =
     markFinalization (in_sessionId input) (reconciled_payload input state execution) clock m"

definition reconcileFinalization ::
  "(string \<Rightarrow> string \<Rightarrow> mapped_store \<Rightarrow> execution_observation \<times> mapped_store) \<Rightarrow> reconciliation_input \<Rightarrow> jsnum \<Rightarrow> mapped_store \<Rightarrow>
     (store_error + unit) \<times> mapped_store" where
  "reconcileFinalization observeExecution input clock m =
     (case getCurrentFinalizationRecord (in_sessionId input) m of
        Inl e \<Rightarrow> (Inl e, m)
      | Inr current \<Rightarrow>
          if \<not> isCurrentUnfinishedFinalization current (in_finalizationId input) then (Inr (), m)
          else
            let state = fr_state (the current) in
            if num_lt (num_sub (in_nowMs input) (queued_at state)) (js_int 60000) then (Inr (), m)
            else case observeExecution (in_sessionId input) (in_finalizationId input) m of
                   (execution, m1) \<Rightarrow>
                     if \<not> shouldReconcileExecution state execution (in_nowMs input) (in_dispatchDeadlineMs input) then (Inr (), m1)
                     else case writeReconciledOutcome input state execution clock m1 of
                            (Inr _, m2) \<Rightarrow> (Inr (), m2)
                          | (Inl e, m2) \<Rightarrow>
                              (case getCurrentFinalizationRecord (in_sessionId input) m2 of
                                 Inl e' \<Rightarrow> (Inl e', m2)
                               | Inr latest \<Rightarrow>
                                   if \<not> isCurrentUnfinishedFinalization latest (in_finalizationId input) then (Inr (), m2) else (Inl e, m2)))"

section \<open>The command of a reconciliation\<close>

lemma num_sub_js_int [simp]: "num_sub (js_int a) (js_int b) = js_int (a - b)"
  by (simp add: num_sub_def js_int_def)

definition reconciled_command :: "reconciliation_input \<Rightarrow> finalization_state \<Rightarrow> execution_observation \<Rightarrow> transition_command" where
  "reconciled_command input state execution = buildFinalizationCommand (in_sessionId input) (reconciled_payload input state execution)"

fun ends_attempt :: "command_body \<Rightarrow> bool" where
  "ends_attempt (Fail _ _ _) = True"
| "ends_attempt (TimeOut _ _) = True"
| "ends_attempt _ = False"

text \<open>A reconciliation never reports a success, and its error is in stored form.\<close>

lemma reconciled_command_ends:
  "ends_attempt (tc_body (reconciled_command input st ex))" "stored_error (tc_body (reconciled_command input st ex))"
  "tc_sessionId (reconciled_command input st ex) = in_sessionId input" "tc_finalizationId (reconciled_command input st ex) = in_finalizationId input"
  "tc_queuedAtMs (reconciled_command input st ex) = queued_at st" "tc_scenarioContext (reconciled_command input st ex) = None"
  by (auto simp: reconciled_command_def reconciled_payload_def command_of_def Let_def parseFinalizationError_def hasOnlyAllowedKeys_def
      FINALIZATION_ERROR_KEYS_def get_eqs parseFinalizationErrorCategory_def hasOwn_def error_value_def opt_field_def
      split: execution_observation.splits stop_status.splits bool.splits)

definition end_time :: "reconciliation_input \<Rightarrow> execution_observation \<Rightarrow> jsnum" where
  "end_time input ex = (case stopped_at ex of Some t \<Rightarrow> t | None \<Rightarrow> in_nowMs input)"

lemma reconciled_body:
  "\<exists>e. tc_body (reconciled_command input st ex) \<in> {TimeOut (running_since st) (end_time input ex), Fail (running_since st) (end_time input ex) e} \<and>
     hasValidFailureError e"
  by (intro exI [of _ "case tc_body (reconciled_command input st ex) of Fail _ _ e \<Rightarrow> e | _ \<Rightarrow> JObj [(''code'', JStr []), (''message'', JStr [])]"])
    (auto simp: reconciled_command_def reconciled_payload_def command_of_def Let_def end_time_def hasValidFailureError_def
      split: execution_observation.splits stop_status.splits bool.splits)

lemma reconciled_reason:
  "case tc_reason (reconciled_command input st ex) of None \<Rightarrow> True | Some r \<Rightarrow> isFinalizationEventReason (JStr r)"
  by (cases ex)
    (auto simp: reconciled_command_def reconciled_payload_def command_of_def Let_def isFinalizationEventReason_def FINALIZATION_REASONS_def
      if_truthy_def split: stop_status.splits bool.splits option.splits if_splits)

lemma reconciled_admitted:
  assumes "isSafeVerifierSegment (in_sessionId input)" "isSafeVerifierSegment (in_finalizationId input)"
    "policy_isNonNegativeInteger (queued_at st)" "hasValidOptionalStartedAt (queued_at st) (running_since st)"
    "hasValidTerminalAt (case running_since st of Some s \<Rightarrow> s | None \<Rightarrow> queued_at st) (end_time input ex)"
  shows "\<exists>a. admitCommand (reconciled_command input st ex) = Inr a \<and> \<not> ac_invalidSuccessfulResult a"
proof -
  let ?c = "reconciled_command input st ex"
  obtain e where e: "tc_body ?c \<in> {TimeOut (running_since st) (end_time input ex), Fail (running_since st) (end_time input ex) e}"
    "hasValidFailureError e" using reconciled_body by blast
  have "hasValidBase ?c = None"
    using assms reconciled_reason [of input st ex] by (auto simp: hasValidBase_def reconciled_command_ends split: option.splits)
  moreover have "hasRequiredScenarioContext ?c None" "admitScenarioContext (tc_scenarioContext ?c) = None"
    using e(1) by (auto simp: hasRequiredScenarioContext_def reconciled_command_ends admitScenarioContext_def)
  ultimately show ?thesis
    using e assms safe_segments
    by (cases "running_since st") (auto simp: admitCommand_def reconciled_command_ends admit_defs)
qed

lemma ended_state:
  assumes "admitCommand c = Inr a" "ends_attempt (tc_body c)"
  shows "isTerminalState (ac_state a) \<and> \<not> is_succeeded (ac_state a)"
proof -
  have "admitCommandState c (admitScenarioContext (tc_scenarioContext c)) = Inr a"
    using assms(1) by (auto simp: admitCommand_def Let_def split: option.splits if_splits)
  with assms(2) show ?thesis by (auto simp: admit_defs split: command_body.splits if_splits)
qed

text \<open>Only the unfinished record of the same attempt is changed, and to an end that is no success.\<close>

lemma reconciled_applied:
  assumes "evaluateFinalizationTransition cur (reconciled_command input st ex) t = Applied s reason n"
  shows "isTerminalState (fr_state n)" "\<not> is_succeeded (fr_state n)" "fr_finalizationId n = in_finalizationId input" "fr_sessionId n = in_sessionId input"
    "\<exists>r. cur = Some r \<and> state_id (fr_state r) = in_finalizationId input \<and> \<not> isTerminalState (fr_state r)"
proof -
  let ?c = "reconciled_command input st ex"
  obtain a where a: "admitCommand ?c = Inr a" "open_for cur ?c" "buildNextRecord cur a = Some n" using assms by (auto simp: applied_iff)
  show "isTerminalState (fr_state n)" "\<not> is_succeeded (fr_state n)" "fr_finalizationId n = in_finalizationId input" "fr_sessionId n = in_sessionId input"
    using ended_state [OF a(1)] next_record [OF a(3)] admitted [OF a(1)] by (auto simp: reconciled_command_ends)
  have "admitScenarioContext (tc_scenarioContext ?c) = None" by (simp add: reconciled_command_ends admitScenarioContext_def)
  then have "cur \<noteq> None" using next_record(5) [OF a(3)] admitted(5) [OF a(1)] by (auto simp: nullish_eq_Some dest!: sym [of "Some _"])
  with a(2) show "\<exists>r. cur = Some r \<and> state_id (fr_state r) = in_finalizationId input \<and> \<not> isTerminalState (fr_state r)"
    by (auto simp: open_for_def reconciled_command_ends)
qed

lemma unfinished_iff: "is_pending st \<or> is_running st \<longleftrightarrow> \<not> isTerminalState st"
  by (cases st) simp_all

lemma unfinished_applies:
  assumes "record_inv r" "isCurrentUnfinishedFinalization (Some r) (in_finalizationId input)" "fr_sessionId r = in_sessionId input"
    "hasValidTerminalAt (last (times_of (fr_state r))) (end_time input ex)" "policy_isNonNegativeInteger t"
  shows "\<exists>s reason n. evaluateFinalizationTransition (Some r) (reconciled_command input (fr_state r) ex) t = Applied s reason n"
proof -
  let ?c = "reconciled_command input (fr_state r) ex"
  have nt: "\<not> isTerminalState (fr_state r)" "fr_finalizationId r = in_finalizationId input" "state_id (fr_state r) = in_finalizationId input"
    using assms(1,2) by (auto simp: isCurrentUnfinishedFinalization_def record_inv_def unfinished_iff)
  obtain ts where ts: "times_of (fr_state r) = map (\<lambda>t. js_int (int t)) ts" "sorted ts" "list_all (\<lambda>t. int t \<le> MAX_SAFE_INTEGER) ts"
    using assms(1) by (auto simp: record_inv_def ordered_times_def)
  have tm: "policy_isNonNegativeInteger (queued_at (fr_state r))" "hasValidOptionalStartedAt (queued_at (fr_state r)) (running_since (fr_state r))"
    "last (times_of (fr_state r)) = (case running_since (fr_state r) of Some s \<Rightarrow> s | None \<Rightarrow> queued_at (fr_state r))"
    using ts nt(1) by (cases "fr_state r"; auto simp: policy_integer_iff hasValidOptionalStartedAt_def hasValidStartedAt_def)+
  have seg: "isSafeVerifierSegment (in_sessionId input)" "isSafeVerifierSegment (in_finalizationId input)"
    using assms(1,3) nt by (auto simp: record_inv_def)
  obtain a where a: "admitCommand ?c = Inr a" "\<not> ac_invalidSuccessfulResult a"
    using reconciled_admitted [OF seg tm(1,2)] assms(4) tm(3) by auto
  have st: "isTerminalState (ac_state a)" "\<not> is_succeeded (ac_state a)" using ended_state [OF a(1)] reconciled_command_ends(1) by auto
  have "buildNextRecord (Some r) a \<noteq> None" using st(2) by (cases "ac_scenarioContext a") (auto simp: buildNextRecord_def Let_def)
  then obtain n where n: "buildNextRecord (Some r) a = Some n" by blast
  have "\<not> repeats (Some r) n" using nt(1) st(1) next_record(3) [OF n] by (cases "fr_state r"; cases "ac_state a") (auto simp: repeats_def)
  moreover have "open_for (Some r) ?c" using nt assms(3) by (simp add: open_for_def reconciled_command_ends)
  ultimately show ?thesis using a n assms(5) by (auto simp: applied_iff)
qed

section \<open>Reconciliation on a reachable store\<close>

text \<open>The stores that commands make of one without finalizations.\<close>

definition reachable_store :: "mapped_store \<Rightarrow> bool" where
  "reachable_store m \<longleftrightarrow> (\<exists>m0 cs. ms_currentIds m0 = Map.empty \<and> runs store_step m0 cs m)"

lemma reachable_store_inv:
  assumes "reachable_store m"
  shows "store_ok m" "ms_hasIdentity m s \<Longrightarrow> current_of m s = Some r \<Longrightarrow> record_inv r"
proof -
  obtain m0 cs where c: "ms_currentIds m0 = Map.empty" "runs store_step m0 cs m"
    using assms by (auto simp: reachable_store_def)
  show "store_ok m" by (rule finalization_store.reachable_inv [OF c(1,2)])
  assume r: "ms_hasIdentity m s" "current_of m s = Some r"
  have ok: "store_ok m0" using c(1) by (rule finalization_store.init_inv)
  have "current_of m0 s = None" using c(1) by (simp add: current_of_def readMappedFinalization_def)
  then have "runs stored_step None (commands_for s cs) (Some r)"
    using runs_refine [OF c(2) ok, of s] identity_kept [OF c(2) ok] r by simp
  then show "record_inv r" using stored_lifecycle.reachable_inv [OF refl] by (fastforce simp: well_kept_def)
qed

lemma get_current: "store_ok m \<Longrightarrow> ms_hasIdentity m s \<Longrightarrow> getCurrentFinalizationRecord s m = Inr (current_of m s)"
  by (simp add: getCurrentFinalizationRecord_def read_ok(1))

lemma write_outcome: "writeReconciledOutcome input st ex clock m = applyFinalizationCommand (reconciled_command input st ex) clock m"
  by (simp add: writeReconciledOutcome_def markFinalization_def reconciled_command_def)

text \<open>What a write of the reconciliation does to a store.\<close>

definition ended_by :: "reconciliation_input \<Rightarrow> mapped_store \<Rightarrow> mapped_store \<Rightarrow> bool" where
  "ended_by input m m' \<longleftrightarrow>
     (\<exists>r r'. getCurrentFinalizationRecord (in_sessionId input) m = Inr (Some r) \<and>
        isCurrentUnfinishedFinalization (Some r) (in_finalizationId input) \<and>
        getCurrentFinalizationRecord (in_sessionId input) m' = Inr (Some r') \<and> fr_finalizationId r' = in_finalizationId input \<and>
        isTerminalState (fr_state r') \<and> \<not> is_succeeded (fr_state r')) \<and>
     (\<forall>s. s \<noteq> in_sessionId input \<longrightarrow> getCurrentFinalizationRecord s m' = getCurrentFinalizationRecord s m)"

lemma write_ends:
  assumes "store_ok m" "applyFinalizationCommand (reconciled_command input st ex) clock m = (res, m')"
  shows "store_ok m'" "ms_hasIdentity m' = ms_hasIdentity m" "m' = m \<or> ended_by input m m'"
    "ms_hasIdentity m (in_sessionId input) \<Longrightarrow>
       current_of m' (in_sessionId input) = apply_command (current_of m (in_sessionId input)) (reconciled_command input st ex, clock)"
proof -
  let ?c = "reconciled_command input st ex" and ?s = "in_sessionId input"
  have step: "store_step m (?c, clock) m'" using assms(2) by (simp add: store_step_def)
  show ok: "store_ok m'" and i: "ms_hasIdentity m' = ms_hasIdentity m" using step_refines(1,2) [OF assms(1) step] by auto
  show cur: "current_of m' ?s = apply_command (current_of m ?s) (?c, clock)" if "ms_hasIdentity m ?s"
    using step_refines(3) [OF assms(1) step that] by (simp add: reconciled_command_ends apply_stored_eq)
  from assms(2) show "m' = m \<or> ended_by input m m'"
  proof (cases rule: apply_command_cases [OF assms(1), consumes 1, case_names unchanged written])
    case (written r n st' reason)
    then have id: "ms_hasIdentity m ?s" and app: "evaluateFinalizationTransition (current_of m ?s) ?c clock = Applied st' reason n"
      by (simp_all add: reconciled_command_ends)
    note e = reconciled_applied [OF app] and w = write_ok [OF assms(1) written(3)]
    have other: "getCurrentFinalizationRecord s m' = getCurrentFinalizationRecord s m" if "s \<noteq> ?s" for s
      using that w(3) [of s] written(4) same_finalizations(1) [OF written(6,7)] read_ok(1) [OF assms(1)] read_ok(1) [OF ok] i
      by (simp add: getCurrentFinalizationRecord_def reconciled_command_ends)
    obtain q where q: "current_of m ?s = Some q" "state_id (fr_state q) = in_finalizationId input" "\<not> isTerminalState (fr_state q)"
      using e(5) by blast
    have "fr_finalizationId q = state_id (fr_state q)" using read_ok(2) [OF assms(1), of ?s] q(1) by (simp add: storable_def)
    with e q have "ended_by input m m'"
      using get_current [OF assms(1) id] get_current [OF ok] id i cur [OF id] app other
      by (auto simp: ended_by_def isCurrentUnfinishedFinalization_def unfinished_iff apply_command_def)
    then show ?thesis ..
  qed simp
qed

section \<open>Properties\<close>

text \<open>C31: reconciliation never invents a success and never overrules another writer.  Whatever the execution is
  observed to be and whatever commands other writers run during the observation, the reconciliation leaves the store
  as it was or as the other writers made it, or ends an attempt: then that attempt was still the unfinished current
  one at the moment of the write, its record is now terminal but not a success, and no other session has changed.\<close>

theorem reconciliation_only_ends_unfinished:
  assumes "reachable_store m" "observe (in_sessionId input) (in_finalizationId input) m = (ex, m1)" "reachable_store m1"
    "reconcileFinalization observe input clock m = (res, m')"
  shows "m' = m \<or> m' = m1 \<or> ended_by input m1 m'"
  using assms(2,4) write_ends(3) [OF reachable_store_inv(1) [OF assms(3)]]
  by (auto simp: reconcileFinalization_def Let_def write_outcome split: sum.splits if_splits prod.splits)

text \<open>C32: an unfinished finalization whose execution is over is ended.  When a session's current attempt has been
  queued for a minute, its execution stopped at least a minute ago (or was never started and the dispatch deadline has
  passed while it was pending), and the end reported is not earlier than the last recorded time of the attempt, one
  reconciliation succeeds and leaves a terminal record of that attempt: no attempt stays unfinished for ever.\<close>

theorem stuck_finalization_is_ended:
  assumes "reachable_store m" "getCurrentFinalizationRecord (in_sessionId input) m = Inr (Some r)"
    "isCurrentUnfinishedFinalization (Some r) (in_finalizationId input)"
    "\<not> num_lt (num_sub (in_nowMs input) (queued_at (fr_state r))) (js_int 60000)"
    "observe (in_sessionId input) (in_finalizationId input) m = (ex, m)"
    "shouldReconcileExecution (fr_state r) ex (in_nowMs input) (in_dispatchDeadlineMs input)"
    "hasValidTerminalAt (last (times_of (fr_state r))) (end_time input ex)" "policy_isNonNegativeInteger clock"
  shows "\<exists>m' r'. reconcileFinalization observe input clock m = (Inr (), m') \<and>
    getCurrentFinalizationRecord (in_sessionId input) m' = Inr (Some r') \<and> fr_finalizationId r' = in_finalizationId input \<and>
    isTerminalState (fr_state r')"
proof -
  let ?s = "in_sessionId input" and ?c = "reconciled_command input (fr_state r) ex"
  note ok = reachable_store_inv(1) [OF assms(1)]
  have id: "ms_hasIdentity m ?s" using assms(2) by (simp add: getCurrentFinalizationRecord_def split: if_splits)
  then have cur: "current_of m ?s = Some r" using assms(2) get_current [OF ok] by simp
  then have "record_inv r" "fr_sessionId r = ?s" using reachable_store_inv(2) [OF assms(1) id] read_ok(2) [OF ok, of ?s] by auto
  then obtain st reason n where a: "evaluateFinalizationTransition (Some r) ?c clock = Applied st reason n"
    using unfinished_applies [OF _ assms(3) _ assms(7,8)] by blast
  obtain res m' where w: "applyFinalizationCommand ?c clock m = (res, m')" by (metis prod.exhaust)
  note e = reconciled_applied [OF a] and we = write_ends [OF ok w]
  have "current_of m' ?s = Some n" using we(4) [OF id] cur a by (simp add: apply_command_def)
  then have g: "getCurrentFinalizationRecord ?s m' = Inr (Some n)" using get_current [OF we(1)] we(2) id by simp
  have "\<not> isCurrentUnfinishedFinalization (Some n) (in_finalizationId input)" using e(1) by (auto simp: isCurrentUnfinishedFinalization_def unfinished_iff)
  then have "reconcileFinalization observe input clock m = (Inr (), m')"
    using assms(2-6) w g by (cases res) (simp_all add: reconcileFinalization_def write_outcome)
  with g e show ?thesis by blast
qed

definition sample_running_store :: mapped_store where
  "sample_running_store = apply_all sample_commands sample_store"

definition sample_input :: reconciliation_input where
  "sample_input = \<lparr>in_sessionId = ''s-1'', in_finalizationId = ''F1'', in_nowMs = js_int 200000, in_dispatchDeadlineMs = js_int 90000\<rparr>"

text \<open>The store after a concurrent writer recorded the success, with a refused failure before it.\<close>

definition sample_succeeded_store :: mapped_store where
  "sample_succeeded_store = apply_all sample_ending sample_running_store"

lemma sample_reachable: "reachable_store sample_running_store" "reachable_store sample_succeeded_store"
proof -
  have "sample_succeeded_store = apply_all (sample_commands @ sample_ending) sample_store"
    by (simp add: sample_succeeded_store_def sample_running_store_def apply_all_def)
  moreover have "ms_currentIds sample_store = Map.empty" by (simp add: sample_store_def)
  ultimately show "reachable_store sample_running_store" "reachable_store sample_succeeded_store"
    unfolding reachable_store_def sample_running_store_def using apply_all_runs by metis+
qed

lemma sample_store_current:
  "getCurrentFinalizationRecord ''s-1'' sample_running_store = Inr (Some (sample_record (Running ''F1'' (js_int 5) (js_int 7))))"
  "getCurrentFinalizationRecord ''s-1'' sample_succeeded_store = Inr (Some sample_success)"
proof -
  have ok: "store_ok sample_store" by (simp add: store_ok_def sample_store_def)
  have id0: "ms_hasIdentity sample_store ''s-1''" by (simp add: sample_store_def)
  then have id1: "ms_hasIdentity sample_running_store ''s-1''" using identity_kept [OF apply_all_runs ok] by (simp add: sample_running_store_def)
  note ok1 = reachable_store_inv(1) [OF sample_reachable(1)] and ok2 = reachable_store_inv(1) [OF sample_reachable(2)]
  have id2: "ms_hasIdentity sample_succeeded_store ''s-1''"
    using identity_kept [OF apply_all_runs ok1] id1 by (simp add: sample_succeeded_store_def)
  have "current_of sample_store ''s-1'' = None" by (simp add: current_of_def readMappedFinalization_def sample_store_def)
  with runs_refine [OF apply_all_runs ok id0, of sample_commands]
  have cur1: "current_of sample_running_store ''s-1'' = Some (sample_record (Running ''F1'' (js_int 5) (js_int 7)))"
    using sample_stored(1,2)
    by (auto simp: stored_step_def commands_for_def sample_commands_def sample_command_def sample_running_store_def elim!: runs_ConsE runs_NilE)
  have "commands_for ''s-1'' sample_ending = sample_ending"
    by (simp add: commands_for_def sample_ending_def annotated_failure_def with_error_def sample_failure_def sample_command_def)
  with runs_refine [OF apply_all_runs ok1 id1, of sample_ending] cur1
  have "current_of sample_succeeded_store ''s-1'' = Some sample_success"
    using sample_stored(3,4) by (auto simp: stored_step_def sample_ending_def sample_succeeded_store_def elim!: runs_ConsE runs_NilE)
  with cur1 show "getCurrentFinalizationRecord ''s-1'' sample_running_store = Inr (Some (sample_record (Running ''F1'' (js_int 5) (js_int 7))))"
    "getCurrentFinalizationRecord ''s-1'' sample_succeeded_store = Inr (Some sample_success)"
    using get_current [OF ok1 id1] get_current [OF ok2 id2] by simp_all
qed

theorem stuck_finalization_is_ended_witness:
  "\<exists>m' r'. reconcileFinalization (\<lambda>s i m. (ExecStopped ExecTimedOut (js_int 100000), m)) sample_input (js_int 200000) sample_running_store = (Inr (), m') \<and>
    getCurrentFinalizationRecord ''s-1'' m' = Inr (Some r') \<and> isTerminalState (fr_state r')"
  using stuck_finalization_is_ended [OF sample_reachable(1), of sample_input "sample_record (Running ''F1'' (js_int 5) (js_int 7))"
      "\<lambda>s i m. (ExecStopped ExecTimedOut (js_int 100000), m)" "ExecStopped ExecTimedOut (js_int 100000)" "js_int 200000"] sample_store_current(1)
  by (simp add: sample_input_def isCurrentUnfinishedFinalization_def sample_record_def shouldReconcileExecution_def hasValidTerminalAt_def
      end_time_def policy_isNonNegativeInteger_def MAX_SAFE_INTEGER_def) blast

theorem reconciliation_only_ends_unfinished_witness:
  "snd (reconcileFinalization (\<lambda>s i m. (ExecStopped ExecAborted (js_int 100000), apply_all sample_ending m)) sample_input (js_int 200000) sample_running_store)
     \<in> {sample_running_store, sample_succeeded_store}"
proof -
  let ?observe = "\<lambda>s i m. (ExecStopped ExecAborted (js_int 100000), apply_all sample_ending m)"
  obtain res m' where r: "reconcileFinalization ?observe sample_input (js_int 200000) sample_running_store = (res, m')" by (metis prod.exhaust)
  have "m' = sample_running_store \<or> m' = sample_succeeded_store \<or> ended_by sample_input sample_succeeded_store m'"
    by (rule reconciliation_only_ends_unfinished [OF sample_reachable(1) _ sample_reachable(2) r]) (simp add: sample_succeeded_store_def)
  moreover have "\<not> ended_by sample_input sample_succeeded_store m'"
    using sample_store_current(2)
    by (auto simp: ended_by_def sample_input_def isCurrentUnfinishedFinalization_def sample_success_def sample_record_def)
  ultimately show ?thesis using r by auto
qed

end
