(* ===== verification/TallyExecution.thy ===== *)
theory TallyExecution
  imports FinalizationCodec
begin

text \<open>
  The execution of the tally: the preflight of the numbers on the wire (zkvm-contract wire-numeric-preflight.ts), the
  budget of the guest (work-budget.ts), the mock executor (node-adapters mock-executor.ts) and the admission of the
  journal an execution returns (\<open>admitCurrentExecutionJournal\<close> of application finalize-sync.ts).  The theorems say which
  votes are counted, and that the journal of every execution is admitted.  The image identifier, which comes from the
  environment, and the contents of the mock receipt are arguments; the delay and the log are not modelled.
\<close>

section \<open>wire-numeric-preflight.ts\<close>

datatype execution_error =
    WireNotFinite | WireNotInteger | WireNotSafe | WireNegative | WireTooLarge | TimestampZero
  | TreeSizeBound | TotalExpectedBound | VoteCountBound | PathLengthBound nat | PathNodesUnsafe | PathNodesBudget
  | StructuralBytesUnsafe | StructuralBytesBudget | SerializedBytesUnsafe | SerializedBytesBudget | SerializedBelowStructural
  | ContractFailure contract_error

definition UINT8_MAX :: int where
  "UINT8_MAX = 255"

definition assertRustWireNumber :: "jsnum \<Rightarrow> int \<Rightarrow> execution_error + unit" where
  "assertRustWireNumber v m =
     (if \<not> isFinite v then Inl WireNotFinite
      else if \<not> isInteger v then Inl WireNotInteger
      else if \<not> isSafeInteger v then Inl WireNotSafe
      else if num_lt v (js_int 0) then Inl WireNegative
      else if num_lt (js_int m) v then Inl WireTooLarge
      else Inr ())"

definition assertVoteWireNumbers :: "zkvm_input_vote \<Rightarrow> execution_error + unit" where
  "assertVoteWireNumbers v =
     res_bind (assertRustWireNumber (js_int (zv_choice v)) UINT8_MAX) (\<lambda>_. assertRustWireNumber (cv_index v) UINT32_MAX)"

definition assertZkvmWireNumericPreflight :: "zkvm_input \<Rightarrow> execution_error + unit" where
  "assertZkvmWireNumericPreflight inp =
     res_bind (assertRustWireNumber (zi_treeSize inp) UINT32_MAX) (\<lambda>_.
     res_bind (assertRustWireNumber (zi_totalExpected inp) UINT32_MAX) (\<lambda>_.
     res_bind (assertRustWireNumber (zi_timestamp inp) MAX_SAFE_INTEGER) (\<lambda>_.
     if num_eq (zi_timestamp inp) (js_int 0) then Inl TimestampZero
     else res_bind (res_map assertVoteWireNumbers (zi_votes inp)) (\<lambda>_. Inr ()))))"

section \<open>work-budget.ts\<close>

definition MAX_GUEST_TREE_SIZE :: int where "MAX_GUEST_TREE_SIZE = 1000000"
definition MAX_GUEST_TOTAL_EXPECTED :: int where "MAX_GUEST_TOTAL_EXPECTED = 1000000"
definition MAX_GUEST_VOTE_COUNT :: int where "MAX_GUEST_VOTE_COUNT = 1000000"
definition MAX_GUEST_MERKLE_PATH_NODES_PER_RECORD :: int where "MAX_GUEST_MERKLE_PATH_NODES_PER_RECORD = 65535"
definition MAX_GUEST_TOTAL_PATH_NODES :: int where "MAX_GUEST_TOTAL_PATH_NODES = 1000000"
definition MAX_GUEST_SERIALIZED_INPUT_BYTES :: int where "MAX_GUEST_SERIALIZED_INPUT_BYTES = 67108864"

definition FIXED_INPUT_BYTES :: int where "FIXED_INPUT_BYTES = 16 + 32 + 4 + 32 + 8 + 4 + 32"
definition VOTE_FIXED_BYTES :: int where "VOTE_FIXED_BYTES = 32 + 1 + 32 + 4"
definition VEC_LEN_BYTES :: int where "VEC_LEN_BYTES = 8"
definition MERKLE_PATH_NODE_BYTES :: int where "MERKLE_PATH_NODE_BYTES = 32"

fun path_nodes_loop :: "nat \<Rightarrow> int \<Rightarrow> zkvm_input_vote list \<Rightarrow> execution_error + int" where
  "path_nodes_loop votePosition n [] = Inr n"
| "path_nodes_loop votePosition n (v # vs) =
     (let pathLength = int (length (cv_merklePath v)) in
      if pathLength > MAX_GUEST_MERKLE_PATH_NODES_PER_RECORD then Inl (PathLengthBound votePosition)
      else let n' = n + pathLength in
           if \<not> isSafeInteger (js_int n') then Inl PathNodesUnsafe else path_nodes_loop (Suc votePosition) n' vs)"

definition calculateTotalPathNodes :: "zkvm_input_vote list \<Rightarrow> execution_error + int" where
  "calculateTotalPathNodes votes = path_nodes_loop 0 0 votes"

definition calculateStructuralInputBytes :: "zkvm_input_vote list \<Rightarrow> execution_error + int" where
  "calculateStructuralInputBytes votes =
     res_bind (calculateTotalPathNodes votes) (\<lambda>totalPathNodes.
       let structuralBytes = FIXED_INPUT_BYTES + VEC_LEN_BYTES + int (length votes) * (VOTE_FIXED_BYTES + VEC_LEN_BYTES) +
             totalPathNodes * MERKLE_PATH_NODE_BYTES
       in if \<not> isSafeInteger (js_int structuralBytes) \<or> structuralBytes < 0 then Inl StructuralBytesUnsafe else Inr structuralBytes)"

record guest_work_budget =
  gb_totalPathNodes :: int
  gb_structuralInputBytes :: int
  gb_serializedInputBytes :: "jsnum option"

definition validateGuestWorkBudget :: "zkvm_input \<Rightarrow> jsnum option \<Rightarrow> execution_error + guest_work_budget" where
  "validateGuestWorkBudget inp serializedInputBytes =
     (if num_lt (zi_treeSize inp) (js_int 1) \<or> num_lt (js_int MAX_GUEST_TREE_SIZE) (zi_treeSize inp) then Inl TreeSizeBound
      else if num_lt (js_int MAX_GUEST_TOTAL_EXPECTED) (zi_totalExpected inp) then Inl TotalExpectedBound
      else if int (length (zi_votes inp)) > MAX_GUEST_VOTE_COUNT then Inl VoteCountBound
      else
        res_bind (calculateTotalPathNodes (zi_votes inp)) (\<lambda>totalPathNodes.
        if totalPathNodes > MAX_GUEST_TOTAL_PATH_NODES then Inl PathNodesBudget
        else
          res_bind (calculateStructuralInputBytes (zi_votes inp)) (\<lambda>structuralInputBytes.
          if structuralInputBytes > MAX_GUEST_SERIALIZED_INPUT_BYTES then Inl StructuralBytesBudget
          else
            let budget = \<lparr>gb_totalPathNodes = totalPathNodes, gb_structuralInputBytes = structuralInputBytes,
                          gb_serializedInputBytes = serializedInputBytes\<rparr>
            in case serializedInputBytes of
                 None \<Rightarrow> Inr budget
               | Some b \<Rightarrow>
                   if \<not> isSafeInteger b \<or> num_lt b (js_int 0) then Inl SerializedBytesUnsafe
                   else if num_lt (js_int MAX_GUEST_SERIALIZED_INPUT_BYTES) b then Inl SerializedBytesBudget
                   else if num_lt b (js_int structuralInputBytes) then Inl SerializedBelowStructural
                   else Inr budget)))"

section \<open>mock-executor.ts\<close>

definition MAX_CHOICE_VALUE :: int where
  "MAX_CHOICE_VALUE = 4"

text \<open>The variables of \<open>verifyAndTallyVotes\<close>.\<close>

record tally_state =
  ta_verifiedTally :: "int list"
  ta_includedBitmap :: "bool list"
  ta_seenBitmap :: "bool list"
  ta_seenIndices :: "jsnum set"
  ta_seenCommitments :: "string set"
  ta_validCount :: int
  ta_invalidCount :: int

definition validateVote :: "noble \<Rightarrow> zkvm_input \<Rightarrow> zkvm_input_vote \<Rightarrow> string set \<Rightarrow> contract_error + bool" where
  "validateVote N inp vote seenCommitments =
     (if zv_choice vote > MAX_CHOICE_VALUE then Inr False
      else
        res_bind (computeCommitment N (zi_electionId inp) (zv_choice vote) (zv_random vote)) (\<lambda>computedCommitment.
          if computedCommitment \<noteq> cv_commitment vote then Inr False
          else if computedCommitment \<in> seenCommitments then Inr False
          else Inr True))"

definition slot_of :: "zkvm_input_vote \<Rightarrow> nat" where
  "slot_of vote = nat (to_int (cv_index vote))"

text \<open>One round of the loop over the votes.\<close>

definition tally_vote :: "noble \<Rightarrow> zkvm_input \<Rightarrow> zkvm_input_vote \<Rightarrow> tally_state \<Rightarrow> contract_error + tally_state" where
  "tally_vote N inp vote s =
     (if num_le (zi_treeSize inp) (cv_index vote) then Inr (s\<lparr>ta_invalidCount := ta_invalidCount s + 1\<rparr>)
      else if cv_index vote \<in> ta_seenIndices s then Inr (s\<lparr>ta_invalidCount := ta_invalidCount s + 1\<rparr>)
      else
        let s1 = s\<lparr>ta_seenIndices := insert (cv_index vote) (ta_seenIndices s), ta_seenBitmap := (ta_seenBitmap s)[slot_of vote := True]\<rparr> in
        res_bind (validateVote N inp vote (ta_seenCommitments s1)) (\<lambda>isValid.
          if isValid then
            res_bind (computeCommitment N (zi_electionId inp) (zv_choice vote) (zv_random vote)) (\<lambda>c.
              Inr (s1\<lparr>ta_verifiedTally := (ta_verifiedTally s1)[nat (zv_choice vote) := ta_verifiedTally s1 ! nat (zv_choice vote) + 1],
                       ta_includedBitmap := (ta_includedBitmap s1)[slot_of vote := True],
                       ta_validCount := ta_validCount s1 + 1, ta_seenCommitments := insert c (ta_seenCommitments s1)\<rparr>))
          else Inr (s1\<lparr>ta_invalidCount := ta_invalidCount s1 + 1\<rparr>)))"

fun tally_loop :: "noble \<Rightarrow> zkvm_input \<Rightarrow> zkvm_input_vote list \<Rightarrow> tally_state \<Rightarrow> contract_error + tally_state" where
  "tally_loop N inp [] s = Inr s"
| "tally_loop N inp (v # vs) s = res_bind (tally_vote N inp v s) (tally_loop N inp vs)"

definition initial_tally :: "zkvm_input \<Rightarrow> tally_state" where
  "initial_tally inp =
     (let n = nat (to_int (zi_treeSize inp)) in
      \<lparr>ta_verifiedTally = [0, 0, 0, 0, 0], ta_includedBitmap = replicate n False, ta_seenBitmap = replicate n False,
       ta_seenIndices = {}, ta_seenCommitments = {}, ta_validCount = 0, ta_invalidCount = 0\<rparr>)"

definition verifyAndTallyVotes :: "noble \<Rightarrow> zkvm_input \<Rightarrow> contract_error + tally_state" where
  "verifyAndTallyVotes N inp = tally_loop N inp (zi_votes inp) (initial_tally inp)"

record exclusion_statistics =
  es_missingSlots :: int
  es_invalidPresentedSlots :: int
  es_rejectedRecords :: int
  es_excludedSlots :: int

definition calculateStatistics :: "int \<Rightarrow> int \<Rightarrow> int \<Rightarrow> int \<Rightarrow> exclusion_statistics" where
  "calculateStatistics seenIndicesCount slots invalidCount validCount =
     (let missingSlots = slots - seenIndicesCount; invalidPresentedSlots = max 0 (seenIndicesCount - validCount) in
      \<lparr>es_missingSlots = missingSlots, es_invalidPresentedSlots = invalidPresentedSlots, es_rejectedRecords = invalidCount,
       es_excludedSlots = missingSlots + invalidPresentedSlots\<rparr>)"

definition ci_of :: "zkvm_input \<Rightarrow> commitment_input" where
  "ci_of inp =
     \<lparr>ci_electionId = zi_electionId inp, ci_bulletinRoot = zi_bulletinRoot inp, ci_treeSize = zi_treeSize inp,
      ci_totalExpected = zi_totalExpected inp, ci_votes = map commitment_vote.truncate (zi_votes inp)\<rparr>"

definition computeInputCommitment :: "noble \<Rightarrow> zkvm_input \<Rightarrow> contract_error + string" where
  "computeInputCommitment N inp = computeInputCommitmentFromPublicInput N (ci_of inp)"

text \<open>The properties of the result, in the order of the source; \<open>receipt\<close> makes the mock receipt.\<close>

definition execution_result ::
  "zkvm_input \<Rightarrow> tally_state \<Rightarrow> string \<Rightarrow> string \<Rightarrow> string \<Rightarrow> string \<Rightarrow> string \<Rightarrow> jsval \<Rightarrow> jsval" where
  "execution_result inp t sthDigest seenBitmapRoot includedBitmapRoot inputCommitment imageId receipt =
     (let n = int (card (ta_seenIndices t)); st = calculateStatistics n (to_int (zi_treeSize inp)) (ta_invalidCount t) (ta_validCount t) in
      JObj [(''electionId'', JStr (zi_electionId inp)), (''electionConfigHash'', JStr (zi_electionConfigHash inp)),
        (''bulletinRoot'', JStr (zi_bulletinRoot inp)), (''treeSize'', JNum (zi_treeSize inp)), (''totalExpected'', JNum (zi_totalExpected inp)),
        (''sthDigest'', JStr sthDigest), (''verifiedTally'', JArr (map (JNum \<circ> js_int) (ta_verifiedTally t))),
        (''totalVotes'', JNum (js_int (int (length (zi_votes inp))))), (''validVotes'', JNum (js_int (ta_validCount t))),
        (''invalidVotes'', JNum (js_int (ta_invalidCount t))), (''seenIndicesCount'', JNum (js_int n)),
        (''missingSlots'', JNum (js_int (es_missingSlots st))), (''invalidPresentedSlots'', JNum (js_int (es_invalidPresentedSlots st))),
        (''rejectedRecords'', JNum (js_int (es_rejectedRecords st))), (''excludedSlots'', JNum (js_int (es_excludedSlots st))),
        (''imageId'', JStr imageId), (''seenBitmapRoot'', JStr seenBitmapRoot), (''includedBitmapRoot'', JStr includedBitmapRoot),
        (''seenBitmap'', JArr (map JBool (ta_seenBitmap t))), (''includedBitmap'', JArr (map JBool (ta_includedBitmap t))),
        (''inputCommitment'', JStr inputCommitment), (''methodVersion'', JNum (js_int CURRENT_METHOD_VERSION)), (''receipt'', receipt)])"

definition executeMockZkVM ::
  "noble \<Rightarrow> string \<Rightarrow> (string \<Rightarrow> tally_state \<Rightarrow> jsval) \<Rightarrow> zkvm_input \<Rightarrow> execution_error + jsval" where
  "executeMockZkVM N imageId mockReceipt inp =
     res_bind (assertZkvmWireNumericPreflight inp) (\<lambda>_.
     res_bind (validateGuestWorkBudget inp None) (\<lambda>_.
     res_bind (map_err ContractFailure (verifyAndTallyVotes N inp)) (\<lambda>t.
     let includedBitmapRoot = computeIncludedBitmapRootHex N (ta_includedBitmap t);
         seenBitmapRoot = computeIncludedBitmapRootHex N (ta_seenBitmap t)
     in
     res_bind (map_err ContractFailure (asUnixTimestampMillis (zi_timestamp inp))) (\<lambda>timestamp.
     res_bind (map_err ContractFailure (computeSTHDigest N (zi_logId inp) (zi_treeSize inp) timestamp (zi_bulletinRoot inp))) (\<lambda>sthDigest.
     let inputCommitment = (case computeInputCommitment N inp of Inr c \<Rightarrow> c | Inl _ \<Rightarrow> ''0x'' @ replicate 64 CHR ''0'')
     in Inr (execution_result inp t sthDigest seenBitmapRoot includedBitmapRoot inputCommitment imageId (mockReceipt sthDigest t)))))))"

section \<open>finalize-sync.ts\<close>

definition admitCurrentExecutionJournal :: "jsval \<Rightarrow> current_journal option" where
  "admitCurrentExecutionJournal result =
     (case toPublicZkvmJournal result of
        Inl _ \<Rightarrow> None
      | Inr journal \<Rightarrow> if isSupportedZkVMJournal (journal_value journal) then Some journal else None)"

section \<open>What the loop computes\<close>

definition in_range :: "zkvm_input \<Rightarrow> zkvm_input_vote \<Rightarrow> bool" where
  "in_range inp v \<longleftrightarrow> num_lt (cv_index v) (zi_treeSize inp)"

text \<open>The vote opens its commitment with one of the choices.\<close>

definition opens :: "noble \<Rightarrow> zkvm_input \<Rightarrow> zkvm_input_vote \<Rightarrow> bool" where
  "opens N inp v \<longleftrightarrow>
     zv_choice v \<le> MAX_CHOICE_VALUE \<and> computeCommitment N (zi_electionId inp) (zv_choice v) (zv_random v) = Inr (cv_commitment v)"

definition wire_vote :: "zkvm_input_vote \<Rightarrow> bool" where
  "wire_vote v \<longleftrightarrow> cv_index v = js_int (int (slot_of v)) \<and> 0 \<le> zv_choice v"

text \<open>No other vote claims the slot or the commitment of this one.\<close>

definition undisputed :: "zkvm_input_vote list \<Rightarrow> zkvm_input_vote \<Rightarrow> bool" where
  "undisputed vs v \<longleftrightarrow> (\<forall>w \<in> set vs. slot_of w = slot_of v \<or> cv_commitment w = cv_commitment v \<longrightarrow> w = v)"

text \<open>The state after the votes \<open>vs\<close>, of which \<open>cs\<close> were counted.\<close>

definition tallied :: "noble \<Rightarrow> zkvm_input \<Rightarrow> zkvm_input_vote list \<Rightarrow> zkvm_input_vote list \<Rightarrow> tally_state \<Rightarrow> bool" where
  "tallied N inp vs cs s \<longleftrightarrow>
     ta_verifiedTally s = map (\<lambda>k. int (length (filter (\<lambda>v. zv_choice v = k) cs))) [0, 1, 2, 3, 4] \<and>
     length (ta_includedBitmap s) = nat (to_int (zi_treeSize inp)) \<and> length (ta_seenBitmap s) = nat (to_int (zi_treeSize inp)) \<and>
     (\<forall>i < length (ta_includedBitmap s). ta_includedBitmap s ! i \<longleftrightarrow> i \<in> slot_of ` set cs) \<and>
     (\<forall>i < length (ta_seenBitmap s). ta_seenBitmap s ! i \<longleftrightarrow> i \<in> slot_of ` {v \<in> set vs. in_range inp v}) \<and>
     ta_seenIndices s = cv_index ` {v \<in> set vs. in_range inp v} \<and> ta_seenCommitments s = cv_commitment ` set cs \<and>
     ta_validCount s = int (length cs) \<and> ta_validCount s + ta_invalidCount s = int (length vs) \<and>
     distinct (map slot_of cs) \<and> distinct (map cv_commitment cs) \<and>
     set cs \<subseteq> {v \<in> set vs. in_range inp v \<and> opens N inp v} \<and>
     (\<forall>v \<in> set vs. in_range inp v \<and> opens N inp v \<and> undisputed vs v \<longrightarrow> v \<in> set cs)"

lemma tally_vote_cases:
  assumes "tally_vote N inp v s = Inr s'"
  obtains (rejected) "\<not> in_range inp v \<or> cv_index v \<in> ta_seenIndices s" "s' = s\<lparr>ta_invalidCount := ta_invalidCount s + 1\<rparr>"
      "num_le (zi_treeSize inp) (cv_index v) \<or> cv_index v \<in> ta_seenIndices s"
  | (invalid) "\<not> num_le (zi_treeSize inp) (cv_index v)" "cv_index v \<notin> ta_seenIndices s"
      "\<not> opens N inp v \<or> cv_commitment v \<in> ta_seenCommitments s"
      "s' = s\<lparr>ta_seenIndices := insert (cv_index v) (ta_seenIndices s), ta_seenBitmap := (ta_seenBitmap s)[slot_of v := True],
             ta_invalidCount := ta_invalidCount s + 1\<rparr>"
  | (valid) "\<not> num_le (zi_treeSize inp) (cv_index v)" "cv_index v \<notin> ta_seenIndices s" "opens N inp v" "cv_commitment v \<notin> ta_seenCommitments s"
      "s' = s\<lparr>ta_seenIndices := insert (cv_index v) (ta_seenIndices s), ta_seenBitmap := (ta_seenBitmap s)[slot_of v := True],
             ta_verifiedTally := (ta_verifiedTally s)[nat (zv_choice v) := ta_verifiedTally s ! nat (zv_choice v) + 1],
             ta_includedBitmap := (ta_includedBitmap s)[slot_of v := True], ta_validCount := ta_validCount s + 1,
             ta_seenCommitments := insert (cv_commitment v) (ta_seenCommitments s)\<rparr>"
proof (cases "num_le (zi_treeSize inp) (cv_index v) \<or> cv_index v \<in> ta_seenIndices s")
  case True
  moreover have "\<not> (num_lt x y \<and> num_le y x)" for x y by (cases x; cases y) (auto simp: num_le_def)
  ultimately show ?thesis
    using assms by (intro rejected) (auto simp: tally_vote_def in_range_def split: if_splits)
next
  case False
  then show ?thesis
    using assms
    by (auto simp: tally_vote_def validateVote_def opens_def res_bind_eq_Inr Let_def split: if_splits
        intro: invalid valid)
qed

lemma wire_range:
  assumes "wire_vote v" "zi_treeSize inp = js_int (int n)"
  shows "in_range inp v \<longleftrightarrow> slot_of v < n" "num_le (zi_treeSize inp) (cv_index v) \<longleftrightarrow> n \<le> slot_of v"
proof -
  have "cv_index v = js_int (int (slot_of v))" using assms(1) by (simp add: wire_vote_def)
  then show "in_range inp v \<longleftrightarrow> slot_of v < n" "num_le (zi_treeSize inp) (cv_index v) \<longleftrightarrow> n \<le> slot_of v"
    using assms(2) by (simp_all add: in_range_def)
qed

lemma wire_index:
  "wire_vote v \<Longrightarrow> \<forall>w \<in> A. wire_vote w \<Longrightarrow> cv_index v \<in> cv_index ` A \<longleftrightarrow> slot_of v \<in> slot_of ` A"
  by (auto simp: wire_vote_def image_iff)

lemma undisputed_prefix: "undisputed (vs @ [v]) w \<Longrightarrow> undisputed vs w"
  by (auto simp: undisputed_def)

lemma undisputed_new:
  "undisputed (vs @ [v]) v \<Longrightarrow> w \<in> set vs \<Longrightarrow> slot_of w = slot_of v \<or> cv_commitment w = cv_commitment v \<Longrightarrow> v \<in> set vs \<and> undisputed vs v"
  by (auto simp: undisputed_def)

lemma count_choice:
  assumes "0 \<le> c" "c \<le> 4"
  shows "(map f [0, 1, 2, 3, 4])[nat c := x] = map (\<lambda>k. if k = c then x else f k) [0, 1, 2, 3, 4 :: int]"
    "map f [0, 1, 2, 3, 4 :: int] ! nat c = f c"
proof -
  have "c = 0 \<or> c = 1 \<or> c = 2 \<or> c = 3 \<or> c = 4" using assms by linarith
  then show "(map f [0, 1, 2, 3, 4])[nat c := x] = map (\<lambda>k. if k = c then x else f k) [0, 1, 2, 3, 4 :: int]"
    "map f [0, 1, 2, 3, 4 :: int] ! nat c = f c" by auto
qed

lemma talliedD:
  assumes "tallied N inp vs cs s"
  shows "ta_verifiedTally s = map (\<lambda>k. int (length (filter (\<lambda>v. zv_choice v = k) cs))) [0, 1, 2, 3, 4]"
    "length (ta_includedBitmap s) = nat (to_int (zi_treeSize inp))" "length (ta_seenBitmap s) = nat (to_int (zi_treeSize inp))"
    "i < length (ta_includedBitmap s) \<Longrightarrow> ta_includedBitmap s ! i \<longleftrightarrow> i \<in> slot_of ` set cs"
    "i < length (ta_seenBitmap s) \<Longrightarrow> ta_seenBitmap s ! i \<longleftrightarrow> i \<in> slot_of ` {v \<in> set vs. in_range inp v}"
    "ta_seenIndices s = cv_index ` {v \<in> set vs. in_range inp v}" "ta_seenCommitments s = cv_commitment ` set cs"
    "ta_validCount s = int (length cs)" "ta_validCount s + ta_invalidCount s = int (length vs)"
    "distinct (map slot_of cs)" "distinct (map cv_commitment cs)" "set cs \<subseteq> {v \<in> set vs. in_range inp v \<and> opens N inp v}"
    "v \<in> set vs \<Longrightarrow> in_range inp v \<Longrightarrow> opens N inp v \<Longrightarrow> undisputed vs v \<Longrightarrow> v \<in> set cs"
  using assms unfolding tallied_def by blast+

text \<open>A vote that is not counted leaves the counted votes; its slot may become a seen one.\<close>

lemma tallied_uncounted:
  assumes "tallied N inp vs cs s" "{w \<in> set (vs @ [v]). in_range inp w} = A" "cv_index ` A = ix"
    "length bm = length (ta_seenBitmap s)" "\<And>i. i < length bm \<Longrightarrow> bm ! i \<longleftrightarrow> i \<in> slot_of ` A"
    "in_range inp v \<Longrightarrow> opens N inp v \<Longrightarrow> undisputed (vs @ [v]) v \<Longrightarrow> v \<in> set cs"
  shows "tallied N inp (vs @ [v]) cs (s\<lparr>ta_seenIndices := ix, ta_seenBitmap := bm, ta_invalidCount := ta_invalidCount s + 1\<rparr>)"
proof -
  note t = talliedD [OF assms(1)]
  have "w \<in> set cs" if "w \<in> set (vs @ [v])" "in_range inp w" "opens N inp w" "undisputed (vs @ [v]) w" for w
    using t(13) assms(6) that undisputed_prefix by auto
  moreover have "set cs \<subseteq> {w \<in> set (vs @ [v]). in_range inp w \<and> opens N inp w}" using t(12) by auto
  ultimately show ?thesis
    unfolding tallied_def assms(2) using t(1-4,7-11) assms(3-5) by simp
qed

lemma tallied_counted:
  assumes "tallied N inp vs cs s" "{w \<in> set (vs @ [v]). in_range inp w} = A" "cv_index ` A = ix"
    "length bm = length (ta_seenBitmap s)" "\<And>i. i < length bm \<Longrightarrow> bm ! i \<longleftrightarrow> i \<in> slot_of ` A"
    "in_range inp v" "opens N inp v" "slot_of v \<notin> slot_of ` set cs" "cv_commitment v \<notin> cv_commitment ` set cs" "0 \<le> zv_choice v"
  shows "tallied N inp (vs @ [v]) (cs @ [v])
    (s\<lparr>ta_seenIndices := ix, ta_seenBitmap := bm,
       ta_verifiedTally := (ta_verifiedTally s)[nat (zv_choice v) := ta_verifiedTally s ! nat (zv_choice v) + 1],
       ta_includedBitmap := (ta_includedBitmap s)[slot_of v := True], ta_validCount := ta_validCount s + 1,
       ta_seenCommitments := insert (cv_commitment v) (ta_seenCommitments s)\<rparr>)"
proof -
  note t = talliedD [OF assms(1)]
  have "zv_choice v \<le> 4" using assms(7) by (simp add: opens_def MAX_CHOICE_VALUE_def)
  note c = count_choice [OF assms(10) this, of "\<lambda>k. int (length (filter (\<lambda>v. zv_choice v = k) cs))"]
  have "w \<in> set (cs @ [v])" if "w \<in> set (vs @ [v])" "in_range inp w" "opens N inp w" "undisputed (vs @ [v]) w" for w
    using t(13) that undisputed_prefix by auto
  moreover have "set (cs @ [v]) \<subseteq> {w \<in> set (vs @ [v]). in_range inp w \<and> opens N inp w}" using t(12) assms(6,7) by auto
  moreover have "(ta_verifiedTally s)[nat (zv_choice v) := ta_verifiedTally s ! nat (zv_choice v) + 1] =
      map (\<lambda>k. int (length (filter (\<lambda>v. zv_choice v = k) (cs @ [v])))) [0, 1, 2, 3, 4]"
    unfolding t(1) c by simp
  moreover have "(ta_includedBitmap s)[slot_of v := True] ! i \<longleftrightarrow> i \<in> slot_of ` set (cs @ [v])" if "i < length (ta_includedBitmap s)" for i
    using t(4) [OF that] that by (cases "i = slot_of v") simp_all
  ultimately show ?thesis
    unfolding tallied_def assms(2) using t(2,3,7-11) assms(3-5,8,9) by (simp add: algebra_simps)
qed

lemma tallied_step:
  assumes "tallied N inp vs cs s" "zi_treeSize inp = js_int (int n)" "\<forall>w \<in> set (vs @ [v]). wire_vote w" "tally_vote N inp v s = Inr s'"
  shows "\<exists>cs'. tallied N inp (vs @ [v]) cs' s'"
proof -
  let ?A = "{w \<in> set vs. in_range inp w}"
  note t = talliedD [OF assms(1)]
  have wv: "wire_vote v" and wA: "\<forall>w \<in> ?A. wire_vote w" using assms(3) by auto
  note rng = wire_range [OF wv assms(2)]
  have seen: "cv_index v \<in> ta_seenIndices s \<longleftrightarrow> slot_of v \<in> slot_of ` ?A" unfolding t(6) by (rule wire_index [OF wv wA])
  have dup: "v \<in> set cs" if "w \<in> set vs" "slot_of w = slot_of v \<or> cv_commitment w = cv_commitment v" "in_range inp v" "opens N inp v" "undisputed (vs @ [v]) v" for w
    using that undisputed_new t(13) by blast
  have bm: "(ta_seenBitmap s)[slot_of v := True] ! i \<longleftrightarrow> i \<in> slot_of ` insert v ?A" if "i < length ((ta_seenBitmap s)[slot_of v := True])" for i
    using t(5) [of i] that by (cases "i = slot_of v") simp_all
  have ext: "{w \<in> set (vs @ [v]). in_range inp w} = (if in_range inp v then insert v ?A else ?A)" by auto
  from assms(4) show ?thesis
  proof (cases rule: tally_vote_cases)
    case rejected
    define B where "B = {w \<in> set (vs @ [v]). in_range inp w}"
    have img: "cv_index ` B = ta_seenIndices s" "slot_of ` B = slot_of ` ?A"
      using rejected(1) seen unfolding B_def ext t(6) by auto
    have "v \<in> set cs" if "in_range inp v" "opens N inp v" "undisputed (vs @ [v]) v" using rejected(1) seen that dup by auto
    from tallied_uncounted [OF assms(1) B_def [symmetric] img(1) refl _ this] t(5)
    have "tallied N inp (vs @ [v]) cs (s\<lparr>ta_seenIndices := ta_seenIndices s, ta_seenBitmap := ta_seenBitmap s, ta_invalidCount := ta_invalidCount s + 1\<rparr>)"
      unfolding img(2) by blast
    then show ?thesis using rejected(2) by auto
  next
    case invalid
    then have r: "in_range inp v" using rng by simp
    have u: "v \<in> set cs" if "opens N inp v" "undisputed (vs @ [v]) v" using invalid(3) that dup [OF _ _ r] t(7,12) by auto
    have "tallied N inp (vs @ [v]) cs s'"
      unfolding invalid(4)
      by (rule tallied_uncounted [OF assms(1), of v "insert v ?A"]) (use r ext t(6) bm u in auto)
    then show ?thesis ..
  next
    case valid
    then have r: "in_range inp v" using rng by simp
    have "slot_of v \<notin> slot_of ` set cs" using seen valid(2) t(12) by auto
    then have "tallied N inp (vs @ [v]) (cs @ [v]) s'"
      unfolding valid(5)
      by (intro tallied_counted [OF assms(1), of v "insert v ?A"]) (use r ext t(6,7) bm valid(3,4) wv in \<open>auto simp: wire_vote_def\<close>)
    then show ?thesis ..
  qed
qed

lemma tallied_loop:
  assumes "tally_loop N inp ws s = Inr s'" "tallied N inp vs cs s" "zi_treeSize inp = js_int (int n)" "\<forall>w \<in> set (vs @ ws). wire_vote w"
  shows "\<exists>cs'. tallied N inp (vs @ ws) cs' s'"
  using assms
proof (induction ws arbitrary: vs cs s)
  case (Cons w ws)
  then obtain s1 where s1: "tally_vote N inp w s = Inr s1" "tally_loop N inp ws s1 = Inr s'" by (auto simp: res_bind_eq_Inr)
  obtain cs1 where "tallied N inp (vs @ [w]) cs1 s1" using tallied_step [OF Cons.prems(2,3) _ s1(1)] Cons.prems(4) by auto
  from Cons.IH [OF s1(2) this Cons.prems(3)] Cons.prems(4) show ?case by simp
qed auto

section \<open>Executions\<close>

lemma wire_number:
  assumes "assertRustWireNumber v m = Inr u"
  shows "\<exists>k. v = js_int (int k) \<and> int k \<le> m"
proof -
  have "isSafeInteger v" "\<not> num_lt v (js_int 0)" "\<not> num_lt (js_int m) v"
    using assms by (auto simp: assertRustWireNumber_def split: if_splits)
  then obtain i where "v = js_int i" "0 \<le> i" "i \<le> m" by (auto simp: isSafeInteger_iff)
  then show ?thesis by (intro exI [of _ "nat i"]) auto
qed

lemma preflight:
  assumes "assertZkvmWireNumericPreflight inp = Inr u"
  shows "\<exists>n. zi_treeSize inp = js_int (int n)" "\<exists>n. zi_totalExpected inp = js_int (int n) \<and> int n \<le> UINT32_MAX" "\<forall>v \<in> set (zi_votes inp). wire_vote v"
proof -
  have a: "assertRustWireNumber (zi_treeSize inp) UINT32_MAX = Inr ()" "assertRustWireNumber (zi_totalExpected inp) UINT32_MAX = Inr ()"
    "\<exists>us. res_map assertVoteWireNumbers (zi_votes inp) = Inr us"
    using assms by (auto simp: assertZkvmWireNumericPreflight_def res_bind_eq_Inr split: if_splits)
  show "\<exists>n. zi_treeSize inp = js_int (int n)" using wire_number [OF a(1)] by blast
  show "\<exists>n. zi_totalExpected inp = js_int (int n) \<and> int n \<le> UINT32_MAX" using wire_number [OF a(2)] by blast
  show "\<forall>v \<in> set (zi_votes inp). wire_vote v"
  proof
    fix v assume "v \<in> set (zi_votes inp)"
    then obtain u where "assertVoteWireNumbers v = Inr u" using a(3) by (auto simp: res_map_eq_Inr list_all2_conv_all_nth in_set_conv_nth)
    then have "assertRustWireNumber (js_int (zv_choice v)) UINT8_MAX = Inr ()" "assertRustWireNumber (cv_index v) UINT32_MAX = Inr u"
      by (auto simp: assertVoteWireNumbers_def res_bind_eq_Inr)
    from this [THEN wire_number] show "wire_vote v" by (auto simp: wire_vote_def slot_of_def)
  qed
qed

text \<open>What an execution that returns has gone through.\<close>

lemma execution_steps:
  assumes "executeMockZkVM N imageId mk inp = Inr r"
  obtains t cs n m d sr ir ic rc where "zi_treeSize inp = js_int (int n)" "0 < n" "n \<le> 1000000" "zi_totalExpected inp = js_int (int m)" "m < 2 ^ 32"
    "length (zi_votes inp) \<le> 1000000" "tallied N inp (zi_votes inp) cs t" "\<forall>v \<in> set (zi_votes inp). wire_vote v"
    "r = execution_result inp t d sr ir ic imageId rc" "sr = computeIncludedBitmapRootHex N (ta_seenBitmap t)"
    "ir = computeIncludedBitmapRootHex N (ta_includedBitmap t)"
    "\<exists>x. d = ''0x'' @ bytesToHex N (sha256 N x)" "(\<exists>x. ic = ''0x'' @ bytesToHex N (sha256 N x)) \<or> ic = ''0x'' @ replicate 64 CHR ''0''"
proof -
  obtain u b t ts d where st: "assertZkvmWireNumericPreflight inp = Inr u" "validateGuestWorkBudget inp None = Inr b" "verifyAndTallyVotes N inp = Inr t"
    "computeSTHDigest N (zi_logId inp) (zi_treeSize inp) ts (zi_bulletinRoot inp) = Inr d"
    and r: "r = execution_result inp t d (computeIncludedBitmapRootHex N (ta_seenBitmap t)) (computeIncludedBitmapRootHex N (ta_includedBitmap t))
        (case computeInputCommitment N inp of Inr c \<Rightarrow> c | Inl _ \<Rightarrow> ''0x'' @ replicate 64 CHR ''0'') imageId (mk d t)"
    using assms by (auto simp: executeMockZkVM_def res_bind_eq_Inr map_err_eq_Inr Let_def)
  note pf = preflight [OF st(1)]
  obtain n m where nm: "zi_treeSize inp = js_int (int n)" "zi_totalExpected inp = js_int (int m)" "m < 2 ^ 32" using pf(1,2) by (auto simp: UINT32_MAX_def)
  have bd: "0 < n" "n \<le> 1000000" "length (zi_votes inp) \<le> 1000000"
    using st(2) nm by (auto simp: validateGuestWorkBudget_def MAX_GUEST_TREE_SIZE_def MAX_GUEST_VOTE_COUNT_def split: if_splits)
  have "tallied N inp [] [] (initial_tally inp)" by (simp add: tallied_def initial_tally_def Let_def)
  from tallied_loop [OF st(3) [unfolded verifyAndTallyVotes_def] this nm(1)] pf(3)
  obtain cs where cs: "tallied N inp (zi_votes inp) cs t" by auto
  have "\<exists>x. d = ''0x'' @ bytesToHex N (sha256 N x)" using st(4) by (auto simp: computeSTHDigest_def res_bind_eq_Inr)
  moreover have "(\<exists>x. ic = ''0x'' @ bytesToHex N (sha256 N x)) \<or> ic = ''0x'' @ replicate 64 CHR ''0''"
    if "ic = (case computeInputCommitment N inp of Inr c \<Rightarrow> c | Inl _ \<Rightarrow> ''0x'' @ replicate 64 CHR ''0'')" for ic
    using that
    by (auto simp: computeInputCommitment_def computeInputCommitmentFromPublicInput_def res_bind_def asInputCommitment_def asHex32Identifier_def
        split: sum.splits if_splits)
  ultimately show thesis using that [OF nm(1) bd(1,2) nm(2,3) bd(3) cs pf(3) r] by blast
qed

text \<open>The accounting of an execution.\<close>

lemma tallied_counts:
  assumes "tallied N inp vs cs t" "zi_treeSize inp = js_int (int n)" "\<forall>v \<in> set vs. wire_vote v"
  shows "card (ta_seenIndices t) \<le> n" "length cs \<le> card (ta_seenIndices t)" "card (ta_seenIndices t) \<le> length vs"
    "sum_list (ta_verifiedTally t) = int (length cs)"
    "card (ta_seenIndices t) = length cs \<Longrightarrow> ta_includedBitmap t = ta_seenBitmap t"
proof -
  let ?A = "{v \<in> set vs. in_range inp v}"
  note d = talliedD [OF assms(1)]
  have w: "\<forall>v \<in> ?A. cv_index v = js_int (int (slot_of v))" using assms(3) by (auto simp: wire_vote_def)
  have "ta_seenIndices t = (\<lambda>i. js_int (int i)) ` slot_of ` ?A" unfolding d(6) using w by (auto simp: image_iff)
  then have c: "card (ta_seenIndices t) = card (slot_of ` ?A)" by (simp add: card_image inj_on_def)
  have "slot_of ` ?A \<subseteq> {..<n}" using assms(2,3) wire_range(1) by auto
  then show "card (ta_seenIndices t) \<le> n" unfolding c using card_mono [of "{..<n}"] by fastforce
  have l: "length cs = card (slot_of ` set cs)" using d(10) distinct_card [of "map slot_of cs"] by simp
  have sub: "slot_of ` set cs \<subseteq> slot_of ` ?A" using d(12) by auto
  then show "length cs \<le> card (ta_seenIndices t)" unfolding c l by (rule card_mono [rotated]) simp
  have "card (slot_of ` ?A) \<le> card (set vs)" by (rule order_trans [OF card_image_le]) (auto intro: card_mono)
  then show "card (ta_seenIndices t) \<le> length vs" unfolding c using card_length [of vs] by linarith
  have "\<forall>v \<in> set cs. zv_choice v \<in> {0, 1, 2, 3, 4}"
  proof
    fix v assume "v \<in> set cs"
    then have "0 \<le> zv_choice v" "zv_choice v \<le> 4" using d(12) assms(3) by (auto simp: wire_vote_def opens_def MAX_CHOICE_VALUE_def)
    then show "zv_choice v \<in> {0, 1, 2, 3, 4}" by auto
  qed
  then have "int (length cs) = sum_list (map (\<lambda>k. int (length (filter (\<lambda>v. zv_choice v = k) cs))) [0, 1, 2, 3, 4])"
    by (induction cs) auto
  then show "sum_list (ta_verifiedTally t) = int (length cs)" unfolding d(1) by simp
  assume "card (ta_seenIndices t) = length cs"
  then have "slot_of ` set cs = slot_of ` ?A" using sub c l by (intro card_subset_eq) auto
  then show "ta_includedBitmap t = ta_seenBitmap t" using d(2-5) by (intro nth_equalityI) auto
qed

section \<open>The journal of an execution\<close>

lemma prefixed_hex:
  assumes "canonical_hex h" "length h = 64"
  shows "isValidHexString (''0x'' @ h) (Some 32)" "isJournalHash (Some (''0x'' @ h))"
proof -
  have "toLowerCase h = h" using assms(1) by (simp add: canonical_hex_def toLowerCase_lower_hex)
  then have "normalizeHexString (''0x'' @ h) = h" by (simp add: normalizeHexString_def startsWith_def)
  then show "isValidHexString (''0x'' @ h) (Some 32)" using assms by (simp add: isValidHexString_def canonical_hex_def)
  then show "isJournalHash (Some (''0x'' @ h))" by (simp add: isJournalHash_def)
qed

lemma digest_hex: "noble_ok N \<Longrightarrow> isJournalHash (Some (''0x'' @ bytesToHex N (sha256 N x)))"
  by (rule prefixed_hex(2)) (simp_all add: length_bytesToHex length_sha256)

lemma zero_hex: "isJournalHash (Some (''0x'' @ replicate 64 CHR ''0''))"
  by (rule prefixed_hex(2)) (simp_all add: canonical_hex_def list_all_iff is_lower_hex_def is_digit_char_def)

lemma bitmap_root_hex: "noble_ok N \<Longrightarrow> bm \<noteq> [] \<Longrightarrow> isJournalHash (Some (computeIncludedBitmapRootHex N bm))"
  unfolding root_hex by (rule prefixed_hex(2)) (simp_all add: length_bytesToHex tree_root_32 bitmap_leaves_facts)

lemma numbers_read: "isNumberArray (JArr (map (JNum \<circ> js_int) ns)) = Some (map js_int ns)"
  by (auto simp: isNumberArray_def those_Some)

lemma execution_fields:
  assumes "r = execution_result inp t d sr ir ic imageId rc" "ta_verifiedTally t = ns" "length ns = 5"
    "n = int (card (ta_seenIndices t))" "zi_treeSize inp = js_int k" "int v \<le> n" "ta_validCount t = int v" "zi_totalExpected inp = js_int m"
  defines "j \<equiv> \<lparr>j_electionId = zi_electionId inp, j_electionConfigHash = zi_electionConfigHash inp, j_bulletinRoot = zi_bulletinRoot inp,
      j_treeSize = zi_treeSize inp, j_totalExpected = zi_totalExpected inp, j_sthDigest = d, j_verifiedTally = Some (map js_int ns),
      j_totalVotes = Some (js_int (int (length (zi_votes inp)))), j_validVotes = Some (js_int (ta_validCount t)),
      j_missingSlots = Some (js_int (k - n)), j_invalidPresentedSlots = Some (js_int (n - int v)), j_excludedSlots = Some (js_int (k - int v)),
      j_seenBitmapRoot = Some sr, j_includedBitmapRoot = ir, j_inputCommitment = ic,
      cj_invalidVotes = js_int (ta_invalidCount t), cj_seenIndicesCount = js_int n, cj_rejectedRecords = js_int (ta_invalidCount t),
      cj_methodVersion = js_int CURRENT_METHOD_VERSION, cj_imageId = Some imageId\<rparr>"
  shows "toPublicZkvmJournal r = Inr j"
proof -
  have "\<not> hasLegacyJournalCountAliases r"
    unfolding assms(1) execution_result_def Let_def
    by (simp add: hasLegacyJournalCountAliases_def LEGACY_JOURNAL_COUNT_KEYS_def hasOwn_def)
  moreover have "calculateStatistics n k (ta_invalidCount t) (ta_validCount t) =
      \<lparr>es_missingSlots = k - n, es_invalidPresentedSlots = n - int v, es_rejectedRecords = ta_invalidCount t, es_excludedSlots = k - int v\<rparr>"
    using assms(6,7) by (simp add: calculateStatistics_def)
  ultimately show ?thesis
    using assms(2-5,8) numbers_read [of ns]
    by (simp add: assms(1) execution_result_def Let_def toPublicZkvmJournal_def the_string_def the_number_def get_eqs j_def)
qed

lemma semantics_coherent:
  assumes "hasCoherentZkVMVoteSlotPartition p" "bounded_counts c" "tv = sum_list (sc_tally c) + sc_rejected c" "tv < 2 ^ 32" "te < 2 ^ 32"
    "vp_verifiedTally p = Some (map (\<lambda>n. js_int (int n)) (sc_tally c))" "vp_totalExpected p = Some (js_int (int te))"
    "vp_totalVotes p = Some (js_int (int tv))" "vp_validVotes p = Some (js_int (int (sum_list (sc_tally c))))"
    "vp_invalidVotes p = Some (js_int (int (sc_rejected c)))" "vp_rejectedRecords p = Some (js_int (int (sc_rejected c)))"
  shows "hasCoherentCurrentZkVMJournalSemantics p"
proof -
  have c: "length (sc_tally c) = 5" "\<forall>k \<in> set (sc_tally c). k < 2 ^ 32" "sc_rejected c < 2 ^ 32"
    using assms(2) by (auto simp: bounded_counts_def list_all_iff)
  have "addSafeIntegers (js_int (int (sum_list (sc_tally c)))) (js_int (int (sc_rejected c))) = Some (js_int (int tv))"
    unfolding assms(3) using c(3) tally_total_eq(2) [OF c(2,1)] by (intro add_safe) auto
  then have "same_number (addSafeIntegers (js_int (int (sum_list (sc_tally c)))) (js_int (int (sc_rejected c)))) (vp_totalVotes p)"
    "isCurrentJournalUint32 (vp_totalVotes p)" using assms(4,8) by simp_all
  moreover have "sum_list (sc_tally c) < 2 ^ 32" using assms(3,4) by simp
  ultimately show ?thesis
    using assms(1,5-7,9-11) tally_total_eq(1) [OF c(2,1)] c(3) by (simp add: hasCoherentCurrentZkVMJournalSemantics_def)
qed

lemma journal_of_counts:
  assumes "bounded_counts c" "balanced_slots c" "bitmap_roots_ok c sr ir" "tv = sum_list (sc_tally c) + sc_rejected c" "tv < 2 ^ 32" "te < 2 ^ 32"
    "matches UUID_PATTERN eid" "eid \<noteq> []" "list_all (\<lambda>h. isJournalHash (Some h)) [ch, br, d, ir, ic, sr]" "isValidHexString img (Some 32)"
  shows "isSupportedZkVMJournal (journal_value
    \<lparr>j_electionId = eid, j_electionConfigHash = ch, j_bulletinRoot = br, j_treeSize = js_int (int (sc_treeSize c)),
     j_totalExpected = js_int (int te), j_sthDigest = d, j_verifiedTally = Some (map (\<lambda>n. js_int (int n)) (sc_tally c)),
     j_totalVotes = Some (js_int (int tv)), j_validVotes = Some (js_int (int (sum_list (sc_tally c)))),
     j_missingSlots = Some (js_int (int (sc_missing c))), j_invalidPresentedSlots = Some (js_int (int (sc_invalidPresented c))),
     j_excludedSlots = Some (js_int (int (sc_excluded c))), j_seenBitmapRoot = Some sr, j_includedBitmapRoot = ir, j_inputCommitment = ic,
     cj_invalidVotes = js_int (int (sc_rejected c)), cj_seenIndicesCount = js_int (int (sc_seen c)),
     cj_rejectedRecords = js_int (int (sc_rejected c)), cj_methodVersion = js_int CURRENT_METHOD_VERSION, cj_imageId = Some img\<rparr>)"
  (is "isSupportedZkVMJournal (journal_value ?j)")
proof -
  have nums: "isNumberArray (numbers_value (map (\<lambda>n. js_int (int n)) ns)) = Some (map (\<lambda>n. js_int (int n)) ns)" for ns
    by (auto simp: numbers_value_def isNumberArray_def those_Some)
  let ?p = "journal_semantics_of (journal_value ?j)"
  have tr: "vote_slot_partition.truncate ?p = slots_of c sr ir"
    by (simp add: journal_semantics_of_def journal_value_def get_eqs nums slots_of_def vote_slot_partition.truncate_def opt_field_def)
  have "hasCoherentZkVMVoteSlotPartition (slots_of c sr ir)"
    using assms(1-3) by (simp add: partition_unfold bitmap_roots_ok_def)
  then have part: "hasCoherentZkVMVoteSlotPartition ?p" using coherent_truncate [of ?p] tr by simp
  have sem: "hasCoherentCurrentZkVMJournalSemantics ?p"
    by (rule semantics_coherent [OF part assms(1,4-6)])
      (simp_all add: journal_semantics_of_def journal_value_def get_eqs nums opt_field_def)
  have "getStringProperty (journal_value ?j) ''electionId'' = Some eid" "getStringProperty (journal_value ?j) ''imageId'' = Some img"
    "getNumberProperty (journal_value ?j) ''methodVersion'' = Some (js_int CURRENT_METHOD_VERSION)"
    "map (getStringProperty (journal_value ?j)) [''electionConfigHash'', ''bulletinRoot'', ''sthDigest'', ''includedBitmapRoot'', ''inputCommitment'', ''seenBitmapRoot''] =
       map Some [ch, br, d, ir, ic, sr]"
    by (simp_all add: journal_value_def get_eqs opt_field_def)
  then show ?thesis
    using sem journal_value_keys(2) [of ?j] assms(7-10)
    unfolding isSupportedZkVMJournal_def Let_def by (simp add: isSupportedJournalMethodVersion_def)
qed

text \<open>The counts of an execution as natural numbers.\<close>

definition counts_of :: "zkvm_input_vote list \<Rightarrow> zkvm_input_vote list \<Rightarrow> nat \<Rightarrow> nat \<Rightarrow> slot_counts" where
  "counts_of vs cs n sn =
     \<lparr>sc_tally = map (\<lambda>k. length (filter (\<lambda>v. zv_choice v = k) cs)) [0, 1, 2, 3, 4], sc_treeSize = n, sc_seen = sn, sc_missing = n - sn,
      sc_invalidPresented = sn - length cs, sc_rejected = length vs - length cs, sc_excluded = n - length cs\<rparr>"

lemma execution_journal:
  assumes "noble_ok N" "executeMockZkVM N imageId mk inp = Inr r" "matches UUID_PATTERN (zi_electionId inp)"
    "isJournalHash (Some (zi_electionConfigHash inp))" "isJournalHash (Some (zi_bulletinRoot inp))" "isValidHexString imageId (Some 32)"
  obtains t cs n j where "tallied N inp (zi_votes inp) cs t" "zi_treeSize inp = js_int (int n)" "\<forall>v \<in> set (zi_votes inp). wire_vote v"
    "admitCurrentExecutionJournal r = Some j" "length cs \<le> n"
    "j_verifiedTally j = Some (map (\<lambda>k. js_int (int (length (filter (\<lambda>v. zv_choice v = k) cs)))) [0, 1, 2, 3, 4])"
    "j_excludedSlots j = Some (js_int (int (n - length cs)))" "j_includedBitmapRoot j = computeIncludedBitmapRootHex N (ta_includedBitmap t)"
    "j_treeSize j = js_int (int n)" "j_bulletinRoot j = zi_bulletinRoot inp" "j_electionId j = zi_electionId inp"
proof -
  obtain t cs n m d sr ir ic rc where x: "zi_treeSize inp = js_int (int n)" "0 < n" "n \<le> 1000000" "zi_totalExpected inp = js_int (int m)" "m < 2 ^ 32"
    "length (zi_votes inp) \<le> 1000000" "tallied N inp (zi_votes inp) cs t" "\<forall>v \<in> set (zi_votes inp). wire_vote v"
    "r = execution_result inp t d sr ir ic imageId rc" "sr = computeIncludedBitmapRootHex N (ta_seenBitmap t)"
    "ir = computeIncludedBitmapRootHex N (ta_includedBitmap t)"
    "\<exists>x. d = ''0x'' @ bytesToHex N (sha256 N x)" "(\<exists>x. ic = ''0x'' @ bytesToHex N (sha256 N x)) \<or> ic = ''0x'' @ replicate 64 CHR ''0''"
    by (rule execution_steps [OF assms(2)])
  define sn where "sn = card (ta_seenIndices t)"
  define c where "c = counts_of (zi_votes inp) cs n sn"
  note td = talliedD [OF x(7)] and k = tallied_counts [OF x(7,1,8), folded sn_def]
  have bm: "ta_includedBitmap t \<noteq> []" "ta_seenBitmap t \<noteq> []" using td(2,3) x(1,2) by auto
  have le: "length cs \<le> length (zi_votes inp)" using k(2,3) by simp
  have sum: "sum_list (sc_tally c) = length cs" using k(4) td(1) by (simp add: c_def counts_of_def del: of_nat_add flip: of_nat_add)
  have "length (filter P cs) < 4294967296" for P using length_filter_le [of P cs] le x(6) by linarith
  then have "bounded_counts c"
    using k x(3,6) le by (auto simp: bounded_counts_def c_def counts_of_def list_all_iff)
  moreover have "balanced_slots c" using k x(2) sum by (simp add: balanced_slots_def) (simp add: c_def counts_of_def)
  moreover have "bitmap_roots_ok c sr ir"
    using k(2,5) bitmap_root_hex [OF assms(1)] bm x(10,11) by (auto simp: bitmap_roots_ok_def c_def counts_of_def isJournalHash_def)
  moreover have "length (zi_votes inp) = sum_list (sc_tally c) + sc_rejected c" using sum le by (simp add: c_def counts_of_def)
  moreover have "list_all (\<lambda>h. isJournalHash (Some h)) [zi_electionConfigHash inp, zi_bulletinRoot inp, d, ir, ic, sr]"
    using assms(4,5) x(10-13) digest_hex [OF assms(1)] zero_hex bitmap_root_hex [OF assms(1)] bm by auto
  moreover have "length (zi_votes inp) < 2 ^ 32" using x(6) by simp
  moreover have "zi_electionId inp \<noteq> []" using matches_length [OF assms(3)] by (auto simp: UUID_PATTERN_def)
  ultimately have sup: "isSupportedZkVMJournal (journal_value
    \<lparr>j_electionId = zi_electionId inp, j_electionConfigHash = zi_electionConfigHash inp, j_bulletinRoot = zi_bulletinRoot inp,
     j_treeSize = js_int (int (sc_treeSize c)), j_totalExpected = js_int (int m), j_sthDigest = d,
     j_verifiedTally = Some (map (\<lambda>n. js_int (int n)) (sc_tally c)),
     j_totalVotes = Some (js_int (int (length (zi_votes inp)))), j_validVotes = Some (js_int (int (sum_list (sc_tally c)))),
     j_missingSlots = Some (js_int (int (sc_missing c))), j_invalidPresentedSlots = Some (js_int (int (sc_invalidPresented c))),
     j_excludedSlots = Some (js_int (int (sc_excluded c))), j_seenBitmapRoot = Some sr, j_includedBitmapRoot = ir, j_inputCommitment = ic,
     cj_invalidVotes = js_int (int (sc_rejected c)), cj_seenIndicesCount = js_int (int (sc_seen c)),
     cj_rejectedRecords = js_int (int (sc_rejected c)), cj_methodVersion = js_int CURRENT_METHOD_VERSION, cj_imageId = Some imageId\<rparr>)"
    (is "isSupportedZkVMJournal (journal_value ?j)")
    using assms(3,6) x(5) by (intro journal_of_counts) auto
  have inv: "ta_invalidCount t = int (length (zi_votes inp) - length cs)" using td(8,9) le by (simp add: of_nat_diff)
  have "toPublicZkvmJournal r = Inr ?j"
    using execution_fields [OF x(9) td(1) _ refl x(1) _ td(8) x(4)] k(1,2) x(4) inv sum
    by (simp add: sn_def [symmetric]) (simp add: c_def counts_of_def of_nat_diff x(1) td(8))
  with sup have "admitCurrentExecutionJournal r = Some ?j" by (simp add: admitCurrentExecutionJournal_def)
  then show thesis
    by (rule that [OF x(7,1,8)]) (use k(1,2) x(11) in \<open>simp_all add: c_def counts_of_def\<close>)
qed

section \<open>Properties\<close>

text \<open>C33: the tally is exact and its journal is always admitted.  Whenever the executor returns on an input with a valid
  election identifier and hashes, the journal passes the admission of the finalization, and there is a list of
  counted votes that explains it: each counted vote occupies a slot of the log and opens its commitment, no slot
  and no commitment is counted twice, the tally is the number of counted votes for each choice, the excluded slots
  are all the others, and the published bitmap root is the root of the bitmap of the counted slots.  Every vote
  that opens its commitment and whose slot and commitment no other vote claims is counted.\<close>

theorem execution_counts_honest_votes:
  assumes "noble_ok N" "executeMockZkVM N imageId mockReceipt inp = Inr result" "matches UUID_PATTERN (zi_electionId inp)"
    "isJournalHash (Some (zi_electionConfigHash inp))" "isJournalHash (Some (zi_bulletinRoot inp))" "isValidHexString imageId (Some 32)"
  shows "\<exists>j n counted. admitCurrentExecutionJournal result = Some j \<and> zi_treeSize inp = js_int (int n) \<and>
    set counted \<subseteq> {v \<in> set (zi_votes inp). slot_of v < n \<and> opens N inp v} \<and>
    distinct (map slot_of counted) \<and> distinct (map cv_commitment counted) \<and>
    j_verifiedTally j = Some (map (\<lambda>k. js_int (int (length (filter (\<lambda>v. zv_choice v = k) counted)))) [0, 1, 2, 3, 4]) \<and>
    j_excludedSlots j = Some (js_int (int n - int (length counted))) \<and>
    j_includedBitmapRoot j = computeIncludedBitmapRootHex N (map (\<lambda>i. i \<in> slot_of ` set counted) [0..<n]) \<and>
    (\<forall>v \<in> set (zi_votes inp). slot_of v < n \<and> opens N inp v \<and> undisputed (zi_votes inp) v \<longrightarrow> v \<in> set counted)"
proof -
  obtain t cs n j where x: "tallied N inp (zi_votes inp) cs t" "zi_treeSize inp = js_int (int n)" "\<forall>v \<in> set (zi_votes inp). wire_vote v"
    "admitCurrentExecutionJournal result = Some j" "length cs \<le> n"
    "j_verifiedTally j = Some (map (\<lambda>k. js_int (int (length (filter (\<lambda>v. zv_choice v = k) cs)))) [0, 1, 2, 3, 4])"
    "j_excludedSlots j = Some (js_int (int (n - length cs)))" "j_includedBitmapRoot j = computeIncludedBitmapRootHex N (ta_includedBitmap t)"
    by (rule execution_journal [OF assms]) 
  note d = talliedD [OF x(1)]
  have r: "in_range inp v \<longleftrightarrow> slot_of v < n" if "v \<in> set (zi_votes inp)" for v using wire_range(1) [OF _ x(2)] x(3) that by simp
  have "ta_includedBitmap t = map (\<lambda>i. i \<in> slot_of ` set cs) [0..<n]"
    using d(2,4) x(2) by (intro nth_equalityI) auto
  moreover have "set cs \<subseteq> {v \<in> set (zi_votes inp). slot_of v < n \<and> opens N inp v}" using d(12) r by auto
  moreover have "\<forall>v \<in> set (zi_votes inp). slot_of v < n \<and> opens N inp v \<and> undisputed (zi_votes inp) v \<longrightarrow> v \<in> set cs"
    using d(13) r by blast
  ultimately show ?thesis
    using x d(10,11) by (intro exI [of _ j] exI [of _ n] exI [of _ cs]) (simp add: of_nat_diff)
qed

definition demo_cast :: "string \<Rightarrow> zkvm_input" where
  "demo_cast h =
     \<lparr>zi_electionId = demo_election, zi_electionConfigHash = demo_hash, zi_bulletinRoot = demo_hash, zi_treeSize = js_int 2,
      zi_totalExpected = js_int 2, zi_logId = demo_hash, zi_timestamp = js_int 7,
      zi_votes =
        [\<lparr>cv_index = js_int 0, cv_commitment = h, cv_merklePath = [demo_hash], zv_choice = 3, zv_random = demo_hash\<rparr>,
         \<lparr>cv_index = js_int 1, cv_commitment = demo_hash, cv_merklePath = [], zv_choice = 5, zv_random = demo_hash\<rparr>]\<rparr>"

lemma demo_cast_executes:
  assumes "computeCommitment demo_noble demo_election 3 demo_hash = Inr h"
  shows "\<exists>r. executeMockZkVM demo_noble demo_hash (\<lambda>_ _. JNull) (demo_cast h) = Inr r"
proof -
  have "assertZkvmWireNumericPreflight (demo_cast h) = Inr ()"
    by (simp add: assertZkvmWireNumericPreflight_def demo_cast_def assertVoteWireNumbers_def assertRustWireNumber_def UINT8_MAX_def UINT32_MAX_def
        MAX_SAFE_INTEGER_def)
  moreover have "\<exists>b. validateGuestWorkBudget (demo_cast h) None = Inr b"
    by (simp add: validateGuestWorkBudget_def demo_cast_def calculateTotalPathNodes_def calculateStructuralInputBytes_def Let_def
        MAX_GUEST_TREE_SIZE_def MAX_GUEST_TOTAL_EXPECTED_def MAX_GUEST_VOTE_COUNT_def MAX_GUEST_MERKLE_PATH_NODES_PER_RECORD_def
        MAX_GUEST_TOTAL_PATH_NODES_def MAX_GUEST_SERIALIZED_INPUT_BYTES_def FIXED_INPUT_BYTES_def VOTE_FIXED_BYTES_def VEC_LEN_BYTES_def
        MERKLE_PATH_NODE_BYTES_def MAX_SAFE_INTEGER_def)
  moreover have "\<exists>t. verifyAndTallyVotes demo_noble (demo_cast h) = Inr t"
    using assms by (simp add: verifyAndTallyVotes_def demo_cast_def tally_vote_def validateVote_def MAX_CHOICE_VALUE_def initial_tally_def Let_def)
  moreover have "asUnixTimestampMillis (zi_timestamp (demo_cast h)) = Inr 7"
    by (simp add: asUnixTimestampMillis_def demo_cast_def assertUnsignedIntegerInRange_def MAX_SAFE_INTEGER_def)
  moreover have "\<exists>d. computeSTHDigest demo_noble (zi_logId (demo_cast h)) (zi_treeSize (demo_cast h)) 7 (zi_bulletinRoot (demo_cast h)) = Inr d"
    using demo_decodes(1)
    by (simp add: computeSTHDigest_def demo_cast_def uint32LE_def assertUnsignedIntegerInRange_def UINT32_MAX_def MAX_SAFE_INTEGER_def)
  ultimately show ?thesis by (auto simp: executeMockZkVM_def Let_def)
qed

lemma demo_cast_valid:
  "matches UUID_PATTERN (zi_electionId (demo_cast h))" "isJournalHash (Some (zi_electionConfigHash (demo_cast h)))"
  "isJournalHash (Some (zi_bulletinRoot (demo_cast h)))" "isValidHexString demo_hash (Some 32)"
proof -
  show "isValidHexString demo_hash (Some 32)" by code_simp
  then show "isJournalHash (Some (zi_electionConfigHash (demo_cast h)))" "isJournalHash (Some (zi_bulletinRoot (demo_cast h)))"
    by (simp_all add: demo_cast_def isJournalHash_def demo_hash_def)
  have "matches UUID_PATTERN demo_election" by code_simp
  then show "matches UUID_PATTERN (zi_electionId (demo_cast h))" by (simp add: demo_cast_def)
qed

theorem execution_counts_honest_votes_witness:
  "\<exists>h result j. computeCommitment demo_noble demo_election 3 demo_hash = Inr h \<and>
     executeMockZkVM demo_noble demo_hash (\<lambda>_ _. JNull) (demo_cast h) = Inr result \<and> admitCurrentExecutionJournal result = Some j"
proof -
  obtain h where h: "computeCommitment demo_noble demo_election 3 demo_hash = Inr h" using demo_commits by blast
  obtain r where r: "executeMockZkVM demo_noble demo_hash (\<lambda>_ _. JNull) (demo_cast h) = Inr r" using demo_cast_executes [OF h] by blast
  from execution_counts_honest_votes [OF demo_noble_ok r demo_cast_valid] h r show ?thesis by blast
qed

end
