(* ===== verification/VotingSession.thy ===== *)
theory VotingSession
  imports TallyExecution
begin

text \<open>
  The voting phase of a session: hexadecimal normalisation (domain utils/hex.ts), the canonical state of the log
  (ctSessionState.ts), the staging of writes (stagedCtVoteWrite.ts), the replay of a user's vote (application
  user-vote-replay.ts) and the policy of vote mutations (session-mutation-policy.ts).  The invariant ties the stored
  votes to the bulletin board.

  \<^verbatim>\<open>Date.now()\<close> and the generator of vote identifiers are functions of the number of the call.  The history of roots in a
  voting record is typed, so the branches that read foreign values (numbers as strings) are not reached.
\<close>

section \<open>utils/hex.ts\<close>

datatype session_error =
    InvalidHexValue | ContractThrows contract_error | BoardThrows board_error | ProofUnavailable | NonCanonicalIndices
  | DuplicateStagedIndex int | UserVoteRequired | BotCountInconsistent | InvalidUserVoteAuthority | InvalidUserVoteEvidence
  | InvariantViolated | InvalidChoice

definition zeroHex :: string where
  "zeroHex = ''0x'' @ replicate 64 CHR ''0''"

definition strip_prefix :: "string \<Rightarrow> string" where
  "strip_prefix v = (if startsWith v ''0x'' \<or> startsWith v ''0X'' then drop 2 v else v)"

text \<open>With the default length and prefix; \<open>allowEmpty\<close> is the option of the same name.\<close>

definition normalizeHex :: "bool \<Rightarrow> string \<Rightarrow> session_error + string" where
  "normalizeHex allowEmpty v =
     (let clean = strip_prefix v in
      if length clean = 0 then (if \<not> allowEmpty then Inl InvalidHexValue else Inr zeroHex)
      else if \<not> list_all is_hex_char clean then Inl InvalidHexValue
      else let padded = (if length clean \<ge> 64 then clean else replicate (64 - length clean) CHR ''0'' @ clean)
           in Inr (''0x'' @ toLowerCase padded))"

definition normalizeHexOrZero :: "string \<Rightarrow> session_error + string" where
  "normalizeHexOrZero v = (if v = [] then Inr zeroHex else normalizeHex False v)"

section \<open>Records\<close>

datatype vote_choice = ChoiceA | ChoiceB | ChoiceC | ChoiceD | ChoiceE

primrec choice_number :: "vote_choice \<Rightarrow> int" where
  "choice_number ChoiceA = 0"
| "choice_number ChoiceB = 1"
| "choice_number ChoiceC = 2"
| "choice_number ChoiceD = 3"
| "choice_number ChoiceE = 4"

record session_identity =
  id_sessionId :: string
  id_electionId :: string
  id_electionConfigHash :: string
  id_electionConfig :: election_config
  id_logId :: string
  id_createdAtMs :: int

record bot_vote_command =
  bv_vote :: vote_choice
  bv_rand :: string

record user_vote_command = bot_vote_command +
  uv_voteId :: string
  uv_timestamp :: int

record prepared_vote =
  pv_voteId :: string
  pv_timestamp :: int
  pv_vote :: vote_choice
  pv_rand :: string
  pv_commit :: string

record stored_vote = prepared_vote +
  pv_rootAtCast :: string

record session_snapshot =
  ss_timestamp :: int
  ss_root :: string
  ss_treeSize :: int
  ss_signature :: "string option"

record session_voting =
  vr_sessionId :: string
  vr_votes :: "(int \<times> stored_vote) list"
  vr_bulletin :: board
  vr_bulletinRootHistory :: "session_snapshot list"
  vr_botCount :: int
  vr_userParticipation :: "int option"
  vr_lastActivityMs :: int

section \<open>ctSessionState.ts\<close>

definition by_index :: "int \<Rightarrow> int \<Rightarrow> int" where
  "by_index a b = a - b"

definition assertCanonicalCtVoteIndices :: "int list \<Rightarrow> session_error + int" where
  "assertCanonicalCtVoteIndices indices =
     (let sortedIndices = js_sort by_index indices in
      if list_ex (\<lambda>(expectedIndex, actualIndex). \<not> isSafeInteger (js_int actualIndex) \<or> actualIndex < 0 \<or> actualIndex \<noteq> expectedIndex)
           (zip (map int [0..<length sortedIndices]) sortedIndices)
      then Inl NonCanonicalIndices
      else Inr (int (length sortedIndices)))"

definition sorted_votes :: "(int \<times> 'a) list \<Rightarrow> (int \<times> 'a) list" where
  "sorted_votes votes = js_sort (\<lambda>a b. fst a - fst b) votes"

definition normalizePersistedRootSnapshot :: "session_snapshot \<Rightarrow> session_snapshot option" where
  "normalizePersistedRootSnapshot s =
     (if ss_root s = [] \<or> ss_treeSize s \<le> 0 \<or> ss_timestamp s \<le> 0 then None
      else case normalizeHex True (ss_root s) of Inl _ \<Rightarrow> None | Inr r \<Rightarrow> Some (s\<lparr>ss_root := r\<rparr>))"

definition resolveSnapshotTimestamp :: "stored_vote \<Rightarrow> int \<Rightarrow> int" where
  "resolveSnapshotTimestamp vote fallback = (if pv_timestamp vote > 0 then pv_timestamp vote else fallback)"

definition parsePersistedRootHistory :: "session_snapshot list \<Rightarrow> session_snapshot list option" where
  "parsePersistedRootHistory snapshots = those (map normalizePersistedRootSnapshot snapshots)"

definition resolveCanonicalUserVoteIndex :: "(int \<times> 'a) list \<Rightarrow> int option \<Rightarrow> int option" where
  "resolveCanonicalUserVoteIndex votes explicitUserVoteIndex =
     (case explicitUserVoteIndex of
        None \<Rightarrow> None
      | Some i \<Rightarrow> if isSafeInteger (js_int i) \<and> i \<ge> 0 \<and> i \<in> fst ` set votes then Some i else None)"

definition assertCanonicalUserVoteIndexForBotVotes :: "(int \<times> 'a) list \<Rightarrow> int option \<Rightarrow> session_error + int" where
  "assertCanonicalUserVoteIndexForBotVotes votes i =
     (if resolveCanonicalUserVoteIndex votes i \<noteq> Some 0 then Inl UserVoteRequired else Inr 0)"

definition deriveBotCountFromVotes :: "(int \<times> 'a) list \<Rightarrow> int option \<Rightarrow> session_error + int" where
  "deriveBotCountFromVotes votes explicitUserVoteIndex =
     res_bind (assertCanonicalCtVoteIndices (map fst votes)) (\<lambda>_.
       if length votes = 0 then Inr 0
       else case resolveCanonicalUserVoteIndex votes explicitUserVoteIndex of
              Some userVoteIndex \<Rightarrow> Inr (int (length (filter (\<lambda>v. fst v \<noteq> userVoteIndex) votes)))
            | None \<Rightarrow> Inr (max (int (length votes) - 1) 0))"

text \<open>Appending votes to a board one after the other; the \<open>i\<close>-th call reads the clock for the \<open>i\<close>-th time.\<close>

fun append_all :: "noble \<Rightarrow> (nat \<Rightarrow> int) \<Rightarrow> nat \<Rightarrow> (string \<times> string) list \<Rightarrow> board \<Rightarrow> session_error + (append_result list \<times> board)" where
  "append_all N clock i [] b = Inr ([], b)"
| "append_all N clock i ((vid, commit) # vs) b =
     (case appendVote N (clock i) vid (drop 2 commit) b of
        (Inl e, _) \<Rightarrow> Inl (BoardThrows e)
      | (Inr r, b') \<Rightarrow> res_bind (append_all N clock (Suc i) vs b') (\<lambda>(rs, b''). Inr (r # rs, b'')))"

definition board_votes :: "(int \<times> 'a prepared_vote_scheme) list \<Rightarrow> (string \<times> string) list" where
  "board_votes votes = map (\<lambda>(_, v). (pv_voteId v, pv_commit v)) votes"

text \<open>The reconstructed history is not used by the caller; the roots it normalises are hexadecimal.\<close>

definition rebuildCanonicalBulletinFromVotes :: "noble \<Rightarrow> (nat \<Rightarrow> int) \<Rightarrow> session_voting \<Rightarrow> session_error + board" where
  "rebuildCanonicalBulletinFromVotes N clock voting =
     res_bind (assertCanonicalCtVoteIndices (map fst (vr_votes voting))) (\<lambda>_.
     res_bind (append_all N clock 0 (board_votes (filter (\<lambda>(_, v). pv_voteId v \<noteq> []) (sorted_votes (vr_votes voting))))
                 (new_board N (Some (logId (vr_bulletin voting))))) (\<lambda>(rs, b).
     res_bind (res_map (\<lambda>r. normalizeHex True (ar_rootAtAppend r)) rs) (\<lambda>_. Inr b)))"

fun history_loop :: "noble \<Rightarrow> int \<Rightarrow> merkle_tree \<Rightarrow> stored_vote list \<Rightarrow> session_error + session_snapshot list" where
  "history_loop N fallback t [] = Inr []"
| "history_loop N fallback t (v # vs) =
     (case append_leaf (pv_commit v) t of
        Inl e \<Rightarrow> Inl (BoardThrows (TreeFailure e))
      | Inr t1 \<Rightarrow>
          (case getRoot N t1 of
             (Inl e, _) \<Rightarrow> Inl (BoardThrows (TreeFailure e))
           | (Inr r, t2) \<Rightarrow>
               res_bind (normalizeHex True r) (\<lambda>root'.
               res_bind (history_loop N fallback t2 vs) (\<lambda>rest.
                 Inr (\<lparr>ss_timestamp = resolveSnapshotTimestamp v fallback, ss_root = root', ss_treeSize = size_of_tree t2, ss_signature = None\<rparr> # rest)))))"

definition rebuildCanonicalHistoryFromVotes :: "noble \<Rightarrow> int \<Rightarrow> (int \<times> stored_vote) list \<Rightarrow> session_error + session_snapshot list" where
  "rebuildCanonicalHistoryFromVotes N fallbackTimestamp votes =
     res_bind (assertCanonicalCtVoteIndices (map fst votes)) (\<lambda>_.
       history_loop N fallbackTimestamp new_tree (map snd (sorted_votes votes)))"

definition mergePersistedRootHistory :: "session_snapshot list \<Rightarrow> session_snapshot list option \<Rightarrow> session_snapshot list" where
  "mergePersistedRootHistory reconstructed persisted =
     (case persisted of
        None \<Rightarrow> reconstructed
      | Some ps \<Rightarrow>
          if length ps \<noteq> length reconstructed then reconstructed
          else if list_ex (\<lambda>(r, p). ss_treeSize p \<noteq> ss_treeSize r \<or> ss_root p \<noteq> ss_root r) (zip reconstructed ps) then reconstructed
          else map (\<lambda>(r, p). r\<lparr>ss_timestamp := ss_timestamp p, ss_signature := ss_signature p\<rparr>) (zip reconstructed ps))"

definition getCanonicalBulletinRootHistory :: "noble \<Rightarrow> int \<Rightarrow> (int \<times> stored_vote) list \<Rightarrow> session_snapshot list \<Rightarrow> session_error + session_snapshot list" where
  "getCanonicalBulletinRootHistory N fallback votes history =
     res_bind (rebuildCanonicalHistoryFromVotes N fallback votes) (\<lambda>reconstructed.
       Inr (mergePersistedRootHistory reconstructed (parsePersistedRootHistory history)))"

definition getLatestCanonicalBulletinSnapshot :: "noble \<Rightarrow> int \<Rightarrow> session_voting \<Rightarrow> session_error + session_snapshot option" where
  "getLatestCanonicalBulletinSnapshot N fallback voting =
     res_bind (getCanonicalBulletinRootHistory N fallback (vr_votes voting) (vr_bulletinRootHistory voting)) (\<lambda>h.
       Inr (if length h > 0 then Some (last h) else None))"

record ct_projection =
  cp_bulletin :: board
  cp_bulletinRootHistory :: "session_snapshot list"
  cp_botCount :: int
  cp_userParticipation :: "int option"
  cp_nextIndex :: int

definition buildCanonicalCtSessionProjection :: "noble \<Rightarrow> (nat \<Rightarrow> int) \<Rightarrow> int \<Rightarrow> session_voting \<Rightarrow> session_error + ct_projection" where
  "buildCanonicalCtSessionProjection N clock fallback voting =
     res_bind (rebuildCanonicalBulletinFromVotes N clock voting) (\<lambda>bulletin.
     res_bind (getCanonicalBulletinRootHistory N fallback (vr_votes voting) (vr_bulletinRootHistory voting)) (\<lambda>history.
     res_bind (deriveBotCountFromVotes (vr_votes voting) (vr_userParticipation voting)) (\<lambda>bots.
     res_bind (assertCanonicalCtVoteIndices (map fst (vr_votes voting))) (\<lambda>next_index.
       Inr \<lparr>cp_bulletin = bulletin, cp_bulletinRootHistory = history, cp_botCount = bots,
            cp_userParticipation = resolveCanonicalUserVoteIndex (vr_votes voting) (vr_userParticipation voting), cp_nextIndex = next_index\<rparr>))))"

section \<open>stagedCtVoteWrite.ts\<close>

record staged_write =
  sw_index :: int
  sw_voteId :: string
  sw_storedVote :: stored_vote

record staged_result =
  sr_bulletin :: board
  sr_bulletinRootHistory :: "session_snapshot list"
  sr_votes :: "staged_write list"

text \<open>The loop over the ordered writes: \<open>k\<close> is the index the next write must have, also the number of appends so far.\<close>

fun stage_loop ::
  "noble \<Rightarrow> (nat \<Rightarrow> int) \<Rightarrow> nat \<Rightarrow> (int \<times> prepared_vote) list \<Rightarrow> board \<Rightarrow> session_snapshot list \<Rightarrow> session_error + staged_result" where
  "stage_loop N clock k [] b h = Inr \<lparr>sr_bulletin = b, sr_bulletinRootHistory = h, sr_votes = []\<rparr>"
| "stage_loop N clock k ((i, v) # ws) b h =
     (if i \<noteq> int k then Inl NonCanonicalIndices
      else case appendVote N (clock k) (pv_voteId v) (drop 2 (pv_commit v)) b of
             (Inl e, _) \<Rightarrow> Inl (BoardThrows e)
           | (Inr r, b') \<Rightarrow>
               res_bind (normalizeHex True (ar_rootAtAppend r)) (\<lambda>rootAtCast.
               let snap = \<lparr>ss_timestamp = ar_timestamp r, ss_root = ar_rootAtAppend r, ss_treeSize = getSize b', ss_signature = None\<rparr>;
                   stored = \<lparr>pv_voteId = pv_voteId v, pv_timestamp = ar_timestamp r, pv_vote = pv_vote v, pv_rand = pv_rand v,
                             pv_commit = pv_commit v, pv_rootAtCast = rootAtCast\<rparr>
               in res_bind (stage_loop N clock (Suc k) ws b' (h @ [snap])) (\<lambda>s.
                    Inr (s\<lparr>sr_votes := \<lparr>sw_index = i, sw_voteId = pv_voteId v, sw_storedVote = stored\<rparr> # sr_votes s\<rparr>))))"

fun first_duplicate :: "int list \<Rightarrow> int option" where
  "first_duplicate [] = None"
| "first_duplicate [x] = None"
| "first_duplicate (x # y # xs) = (if x = y then Some y else first_duplicate (y # xs))"

fun append_existing :: "noble \<Rightarrow> (nat \<Rightarrow> int) \<Rightarrow> nat \<Rightarrow> stored_vote list \<Rightarrow> board \<Rightarrow> session_error + board" where
  "append_existing N clock i [] b = Inr b"
| "append_existing N clock i (v # vs) b =
     (if pv_voteId v = [] then Inl ProofUnavailable
      else case appendVote N (clock i) (pv_voteId v) (drop 2 (pv_commit v)) b of
             (Inl e, _) \<Rightarrow> Inl (BoardThrows e)
           | (Inr _, b') \<Rightarrow> append_existing N clock (Suc i) vs b')"

definition stageCtVoteWrites ::
  "noble \<Rightarrow> (nat \<Rightarrow> int) \<Rightarrow> int \<Rightarrow> board \<Rightarrow> (int \<times> stored_vote) list \<Rightarrow> session_snapshot list \<Rightarrow> (int \<times> prepared_vote) list \<Rightarrow>
     session_error + staged_result" where
  "stageCtVoteWrites N clock fallback bulletin votes history writes =
     (let existingVotes = sorted_votes votes in
      res_bind (assertCanonicalCtVoteIndices (map fst votes)) (\<lambda>next_index.
      res_bind (append_existing N clock 0 (map snd existingVotes) (new_board N (Some (logId bulletin)))) (\<lambda>stagedBulletin.
        res_bind (getCanonicalBulletinRootHistory N fallback votes history) (\<lambda>h.
        let orderedWrites = sorted_votes writes in
        case first_duplicate (map fst orderedWrites) of
          Some i \<Rightarrow> Inl (DuplicateStagedIndex i)
        | None \<Rightarrow> stage_loop N clock (nat next_index) orderedWrites stagedBulletin (take (length existingVotes) h)))))"

section \<open>user-vote-replay.ts\<close>

record session_authority =
  au_identity :: session_identity
  au_voting :: session_voting
  au_finalization :: "finalization_record option"

datatype user_vote_replay = NotCast | Conflict | Replay stored_vote int

definition resolveUserVoteReplay :: "noble \<Rightarrow> session_authority \<Rightarrow> user_vote_command \<Rightarrow> session_error + user_vote_replay" where
  "resolveUserVoteReplay N authority requested =
     (let voting = au_voting authority in
      case vr_userParticipation voting of
        None \<Rightarrow> Inr NotCast
      | Some voteIndex \<Rightarrow>
          (case map_of (vr_votes voting) voteIndex of
             None \<Rightarrow> Inl InvalidUserVoteAuthority
           | Some stored \<Rightarrow>
               if voteIndex \<noteq> 0 then Inl InvalidUserVoteAuthority
               else
                 res_bind (map_err ContractThrows
                   (computeCommitment N (id_electionId (au_identity authority)) (choice_number (pv_vote stored)) (pv_rand stored))) (\<lambda>c.
                 res_bind (normalizeHex False (pv_commit stored)) (\<lambda>storedCommit.
                 if storedCommit \<noteq> c then Inl InvalidUserVoteEvidence
                 else
                   res_bind (normalizeHex False (pv_rootAtCast stored)) (\<lambda>rootAtCast.
                   res_bind (normalizeHex False (case vr_bulletinRootHistory voting of s # _ \<Rightarrow> ss_root s | [] \<Rightarrow> [])) (\<lambda>firstRoot.
                   if rootAtCast \<noteq> firstRoot then Inl InvalidUserVoteEvidence
                   else if pv_vote stored \<noteq> bv_vote requested then Inr Conflict
                   else
                     res_bind (normalizeHex False (pv_rand stored)) (\<lambda>storedRand.
                     res_bind (normalizeHex False (bv_rand requested)) (\<lambda>requestedRand.
                       Inr (if storedRand \<noteq> requestedRand then Conflict else Replay stored voteIndex)))))))))"

section \<open>session-mutation-policy.ts\<close>

text \<open>The dependencies of a mutation and the readings of the clock, by the number of the call.\<close>

record mutation_env =
  generateVoteId :: "nat \<Rightarrow> string"
  nowMs :: "nat \<Rightarrow> int"
  stageClock :: "nat \<Rightarrow> int"
  rebuildClock :: "nat \<Rightarrow> int"
  historyClock :: "nat \<Rightarrow> int"

datatype vote_command = AppendUserVote user_vote_command | AppendBotVotes "bot_vote_command list"

datatype mutation_error = AlreadyVoted | SessionFinalized | DuplicateVote | UserNotVoted

record add_vote_result =
  av_leafIndex :: int
  av_merklePath :: "string list"
  av_bulletinRootAtCast :: string

datatype vote_mutation =
    UserVoteAppended session_voting "(string \<times> int) list" add_vote_result
  | UserVoteReplayed add_vote_result
  | BotVotesAppended session_voting "(string \<times> int) list"

definition BOT_COUNT :: int where
  "BOT_COUNT = 63"

definition prepareVote :: "noble \<Rightarrow> session_identity \<Rightarrow> vote_choice \<Rightarrow> string \<Rightarrow> string \<Rightarrow> int \<Rightarrow> session_error + prepared_vote" where
  "prepareVote N ident choice rand vid time =
     res_bind (normalizeHex True rand) (\<lambda>normalizedRandom.
     res_bind (map_err ContractThrows (computeCommitment N (id_electionId ident) (choice_number choice) normalizedRandom)) (\<lambda>commit.
       Inr \<lparr>pv_voteId = vid, pv_timestamp = time, pv_vote = choice, pv_rand = normalizedRandom, pv_commit = commit\<rparr>))"

definition buildNextVoting ::
  "session_voting \<Rightarrow> staged_write list \<Rightarrow> board \<Rightarrow> session_snapshot list \<Rightarrow> int \<Rightarrow> int option \<Rightarrow> int \<Rightarrow> session_voting" where
  "buildNextVoting voting staged bulletin history bots userVoteIndex lastActivity =
     \<lparr>vr_sessionId = vr_sessionId voting,
      vr_votes = foldl (\<lambda>vs w. AList.update (sw_index w) (sw_storedVote w) vs) (vr_votes voting) staged,
      vr_bulletin = bulletin, vr_bulletinRootHistory = history, vr_botCount = bots, vr_userParticipation = userVoteIndex,
      vr_lastActivityMs = lastActivity\<rparr>"

definition toIndexIntents :: "staged_write list \<Rightarrow> (string \<times> int) list" where
  "toIndexIntents staged = map (\<lambda>w. (sw_voteId w, sw_index w)) staged"

text \<open>The cast result of a staged user vote; an exception of the board is reported as a missing proof.\<close>

definition user_cast_result :: "noble \<Rightarrow> mutation_env \<Rightarrow> session_voting \<Rightarrow> prepared_vote \<Rightarrow> staged_result \<Rightarrow> staged_write \<Rightarrow> session_error + vote_mutation" where
  "user_cast_result N env voting preparedVote staged stagedVote =
     (let i = int (length (vr_votes voting)) in
      case board_getInclusionProof N (pv_voteId preparedVote) (Some (i + 1)) (sr_bulletin staged) of
        (Inr (Some p), bulletin) \<Rightarrow>
          if pv_rootAtCast (sw_storedVote stagedVote) = [] then Inl ProofUnavailable
          else
            res_bind (res_map (normalizeHex True) (ip_proofNodes p)) (\<lambda>nodes.
              Inr (UserVoteAppended
                (buildNextVoting voting (sr_votes staged) bulletin (sr_bulletinRootHistory staged) (vr_botCount voting) (Some i) (nowMs env 0))
                (toIndexIntents (sr_votes staged))
                \<lparr>av_leafIndex = i, av_merklePath = nodes, av_bulletinRootAtCast = pv_rootAtCast (sw_storedVote stagedVote)\<rparr>))
      | _ \<Rightarrow> Inl ProofUnavailable)"

definition evaluateUserVoteMutation :: "noble \<Rightarrow> mutation_env \<Rightarrow> session_authority \<Rightarrow> user_vote_command \<Rightarrow> session_error + vote_mutation" where
  "evaluateUserVoteMutation N env authority vote =
     (let voting = au_voting authority in
      res_bind (prepareVote N (au_identity authority) (bv_vote vote) (bv_rand vote) (uv_voteId vote) (uv_timestamp vote)) (\<lambda>preparedVote.
      res_bind (stageCtVoteWrites N (stageClock env) (historyClock env 0) (vr_bulletin voting) (vr_votes voting) (vr_bulletinRootHistory voting)
                  [(int (length (vr_votes voting)), preparedVote)]) (\<lambda>staged.
      case sr_votes staged of
        [] \<Rightarrow> Inl InvariantViolated
      | stagedVote # _ \<Rightarrow> user_cast_result N env voting preparedVote staged stagedVote)))"

definition evaluateBotVoteMutation :: "noble \<Rightarrow> mutation_env \<Rightarrow> session_authority \<Rightarrow> bot_vote_command list \<Rightarrow> session_error + vote_mutation" where
  "evaluateBotVoteMutation N env authority votes =
     (let voting = au_voting authority in
      res_bind (assertCanonicalUserVoteIndexForBotVotes (vr_votes voting) (vr_userParticipation voting)) (\<lambda>_.
      res_bind (buildCanonicalCtSessionProjection N (rebuildClock env) (historyClock env 0) voting) (\<lambda>projection.
      if cp_botCount projection \<noteq> vr_botCount voting then Inl BotCountInconsistent
      else
        res_bind (assertCanonicalUserVoteIndexForBotVotes (vr_votes voting) (cp_userParticipation projection)) (\<lambda>_.
        res_bind (res_map (\<lambda>(offset, vote).
            res_bind (prepareVote N (au_identity authority) (bv_vote vote) (bv_rand vote) (generateVoteId env offset) (nowMs env offset)) (\<lambda>pv.
              Inr (cp_nextIndex projection + int offset, pv))) (zip [0..<length votes] votes)) (\<lambda>writes.
        res_bind (stageCtVoteWrites N (stageClock env) (historyClock env 1) (cp_bulletin projection) (vr_votes voting)
                    (cp_bulletinRootHistory projection) writes) (\<lambda>staged.
          Inr (BotVotesAppended
            (buildNextVoting voting (sr_votes staged) (sr_bulletin staged) (sr_bulletinRootHistory staged)
               (cp_botCount projection + int (length (sr_votes staged))) (cp_userParticipation projection) (nowMs env (length votes)))
            (toIndexIntents (sr_votes staged)))))))))"

definition buildSessionRecords :: "noble \<Rightarrow> session_identity \<Rightarrow> int \<Rightarrow> session_identity \<times> session_voting" where
  "buildSessionRecords N input lastActivity =
     (input,
      \<lparr>vr_sessionId = id_sessionId input, vr_votes = [], vr_bulletin = new_board N (Some (id_logId input)), vr_bulletinRootHistory = [],
       vr_botCount = 0, vr_userParticipation = None, vr_lastActivityMs = lastActivity\<rparr>)"

definition admitNewUserVote :: "noble \<Rightarrow> mutation_env \<Rightarrow> session_authority \<Rightarrow> user_vote_command \<Rightarrow> session_error + (mutation_error + vote_mutation)" where
  "admitNewUserVote N env authority vote =
     (let voting = au_voting authority in
      if list_ex (\<lambda>(_, v). pv_voteId v = uv_voteId vote) (vr_votes voting) then Inr (Inl DuplicateVote)
      else if vr_userParticipation voting \<noteq> None \<or> length (vr_votes voting) > 0 then Inr (Inl AlreadyVoted)
      else res_bind (evaluateUserVoteMutation N env authority vote) (\<lambda>mu. Inr (Inr mu)))"

text \<open>\<open>Inl\<close> is an exception, \<open>Inr (Inl e)\<close> an expected error, \<open>Inr (Inr m)\<close> a mutation.  A replay reads the board,
  which may fill its caches; the board of the authority is not written back.\<close>

definition replayed_result :: "noble \<Rightarrow> session_authority \<Rightarrow> stored_vote \<Rightarrow> int \<Rightarrow> session_error + add_vote_result" where
  "replayed_result N authority stored i =
     (case fst (board_getInclusionProof N (pv_voteId stored) (Some (i + 1)) (vr_bulletin (au_voting authority))) of
        Inl e \<Rightarrow> Inl (BoardThrows e)
      | Inr None \<Rightarrow> Inl ProofUnavailable
      | Inr (Some p) \<Rightarrow>
          res_bind (res_map (normalizeHex False) (ip_proofNodes p)) (\<lambda>nodes.
            Inr \<lparr>av_leafIndex = i, av_merklePath = nodes, av_bulletinRootAtCast = pv_rootAtCast stored\<rparr>))"

definition admit_vote :: "noble \<Rightarrow> mutation_env \<Rightarrow> session_authority \<Rightarrow> vote_command \<Rightarrow> session_error + (mutation_error + vote_mutation)" where
  "admit_vote N env authority command =
     (if au_finalization authority \<noteq> None then Inr (Inl SessionFinalized)
      else case command of
             AppendUserVote vote \<Rightarrow> admitNewUserVote N env authority vote
           | AppendBotVotes votes \<Rightarrow>
               if vr_userParticipation (au_voting authority) = None then Inr (Inl UserNotVoted)
               else if vr_botCount (au_voting authority) + int (length votes) > BOT_COUNT then Inr (Inl AlreadyVoted)
               else res_bind (evaluateBotVoteMutation N env authority votes) (\<lambda>mu. Inr (Inr mu)))"

definition evaluateSessionVoteMutation ::
  "noble \<Rightarrow> mutation_env \<Rightarrow> session_authority \<Rightarrow> vote_command \<Rightarrow> session_error + (mutation_error + vote_mutation)" where
  "evaluateSessionVoteMutation N env authority command =
     (case command of
        AppendUserVote vote \<Rightarrow>
          res_bind (resolveUserVoteReplay N authority vote) (\<lambda>replay.
            case replay of
              Replay stored i \<Rightarrow> res_bind (replayed_result N authority stored i) (\<lambda>r. Inr (Inr (UserVoteReplayed r)))
            | _ \<Rightarrow> admit_vote N env authority command)
      | AppendBotVotes _ \<Rightarrow> admit_vote N env authority command)"

end
