(* ===== verification/InputBuilder.thy ===== *)
theory InputBuilder
  imports VotingSession
begin

text \<open>
  The input of the tally (application zkvm-input/input-builder.ts): the tree head, the votes with their openings and
  inclusion paths, and the validation of a canonical input.  Reading the board may fill its caches, so the board is
  threaded through the calls.
\<close>

section \<open>The tree head\<close>

datatype input_error =
    RecordsDoNotMatch | ConfigHashDoesNotMatch | MissingLogId | MissingSthSnapshot | CtProofUnavailable int
  | VoteDataNotFound int | UnsafeVoteIndex | SessionThrows session_error | CommitmentThrows contract_error

definition getLatestVoteTimestamp :: "(int \<times> stored_vote) list \<Rightarrow> int option" where
  "getLatestVoteTimestamp votes =
     foldl (\<lambda>latest (_, vote).
         if pv_timestamp vote > 0
         then Some (case latest of None \<Rightarrow> pv_timestamp vote | Some t \<Rightarrow> max t (pv_timestamp vote))
         else latest)
       None votes"

record sth_snapshot =
  sn_root :: string
  sn_treeSize :: int
  sn_timestamp :: int

definition snapshot_of :: "session_snapshot \<Rightarrow> sth_snapshot" where
  "snapshot_of s = \<lparr>sn_root = ss_root s, sn_treeSize = ss_treeSize s, sn_timestamp = ss_timestamp s\<rparr>"

definition getLiveBulletinSnapshot :: "noble \<Rightarrow> int \<Rightarrow> (int \<times> stored_vote) list \<Rightarrow> board \<Rightarrow> sth_snapshot option \<times> board" where
  "getLiveBulletinSnapshot N now votes bulletin =
     (let n = getSize bulletin in
      if n \<le> 0 then (None, bulletin)
      else case getCurrentRoot N bulletin of
             (Inl _, b) \<Rightarrow> (None, b)
           | (Inr r, b) \<Rightarrow>
               (case normalizeHexOrZero r of
                  Inl _ \<Rightarrow> (None, b)
                | Inr h \<Rightarrow>
                    (Some \<lparr>sn_root = h, sn_treeSize = n,
                           sn_timestamp = (case getLatestVoteTimestamp votes of Some t \<Rightarrow> t | None \<Rightarrow> now)\<rparr>, b)))"

text \<open>The root of the snapshot is compared only when the sizes agree; an exception of the comparison rejects the snapshot.\<close>

definition resolvePersistedBulletinSnapshot :: "noble \<Rightarrow> board \<Rightarrow> sth_snapshot \<Rightarrow> sth_snapshot option \<times> board" where
  "resolvePersistedBulletinSnapshot N bulletin latestSnapshot =
     (let bulletinSize = getSize bulletin in
      if bulletinSize \<le> 0 then (Some latestSnapshot, bulletin)
      else case getCurrentRoot N bulletin of
             (Inl _, b) \<Rightarrow> (None, b)
           | (Inr r, b) \<Rightarrow>
               (case normalizeHexOrZero r of
                  Inl _ \<Rightarrow> (None, b)
                | Inr bulletinRoot \<Rightarrow>
                    (if bulletinSize = sn_treeSize latestSnapshot \<and> normalizeHexOrZero (sn_root latestSnapshot) = Inr bulletinRoot
                     then Some latestSnapshot else None, b)))"

definition getLatestPersistedSTHSnapshot :: "noble \<Rightarrow> session_voting \<Rightarrow> sth_snapshot option \<times> board" where
  "getLatestPersistedSTHSnapshot N voting =
     (case parsePersistedRootHistory (vr_bulletinRootHistory voting) of
        None \<Rightarrow> (None, vr_bulletin voting)
      | Some persistedHistory \<Rightarrow>
          if length persistedHistory = 0 then (None, vr_bulletin voting)
          else resolvePersistedBulletinSnapshot N (vr_bulletin voting) (snapshot_of (last persistedHistory)))"

definition getLatestSTHSnapshot ::
  "noble \<Rightarrow> int \<Rightarrow> int \<Rightarrow> bool \<Rightarrow> session_voting \<Rightarrow> (input_error + sth_snapshot) \<times> board" where
  "getLatestSTHSnapshot N now fallback allowSparse voting =
     (case getLatestPersistedSTHSnapshot N voting of
        (Some s, b) \<Rightarrow> (Inr s, b)
      | (None, b) \<Rightarrow>
          (case (if allowSparse then getLiveBulletinSnapshot N now (vr_votes voting) b else (None, b)) of
             (Some s, b') \<Rightarrow> (Inr s, b')
           | (None, b') \<Rightarrow>
               (case getLatestCanonicalBulletinSnapshot N fallback voting of
                  Inl e \<Rightarrow> (Inl (SessionThrows e), b')
                | Inr None \<Rightarrow> (Inl MissingSthSnapshot, b')
                | Inr (Some s) \<Rightarrow> (Inr (snapshot_of s), b'))))"

section \<open>Votes and paths\<close>

definition asVoteIndex :: "jsnum \<Rightarrow> int option" where
  "asVoteIndex v = (case assertNonNegativeSafeInteger v of None \<Rightarrow> None | Some _ \<Rightarrow> Some (to_int v))"

definition resolveInputVoteIndices :: "bool \<Rightarrow> (int \<times> stored_vote) list \<Rightarrow> input_error + int list" where
  "resolveInputVoteIndices allowSparse votes =
     (let sortedIndices = js_sort by_index (map fst votes);
          as_indices = those (map (\<lambda>i. asVoteIndex (js_int i)) sortedIndices)
      in if \<not> allowSparse
         then res_bind (map_err SessionThrows (assertCanonicalCtVoteIndices sortedIndices)) (\<lambda>_.
                case as_indices of None \<Rightarrow> Inl UnsafeVoteIndex | Some is \<Rightarrow> Inr is)
         else (case as_indices of None \<Rightarrow> Inl (SessionThrows NonCanonicalIndices) | Some is \<Rightarrow> Inr is))"

text \<open>\<open>None\<close> is the answer \<open>null\<close>, also after an exception of the board, which is logged.\<close>

definition resolvePathFromBulletin :: "noble \<Rightarrow> int \<Rightarrow> stored_vote \<Rightarrow> int \<Rightarrow> board \<Rightarrow> (input_error + (string list \<times> int) option) \<times> board" where
  "resolvePathFromBulletin N i voteData n bulletin =
     (case board_getInclusionProof N (pv_voteId voteData) (Some n) bulletin of
        (Inl _, b) \<Rightarrow> (Inr None, b)
      | (Inr None, b) \<Rightarrow> (Inr None, b)
      | (Inr (Some p), b) \<Rightarrow>
          (case asLeafIndex (js_int (leafIndex p)) of
             None \<Rightarrow> (Inr None, b)
           | Some li \<Rightarrow>
               if li \<noteq> i then (Inl (CtProofUnavailable i), b)
               else if treeSize p \<noteq> n then (Inl (CtProofUnavailable i), b)
               else (case res_map normalizeHexOrZero (ip_proofNodes p) of
                       Inl _ \<Rightarrow> (Inr None, b)
                     | Inr nodes \<Rightarrow> (Inr (Some (nodes, treeSize p)), b))))"

definition resolveMerklePath :: "noble \<Rightarrow> int \<Rightarrow> stored_vote \<Rightarrow> int \<Rightarrow> board \<Rightarrow> (input_error + string list) \<times> board" where
  "resolveMerklePath N i voteData n bulletin =
     (case resolvePathFromBulletin N i voteData n bulletin of
        (Inl e, b) \<Rightarrow> (Inl e, b)
      | (Inr None, b) \<Rightarrow> (Inl (CtProofUnavailable i), b)
      | (Inr (Some (nodes, ts)), b) \<Rightarrow> (if length nodes > 0 \<or> ts \<le> 1 then Inr nodes else Inl (CtProofUnavailable i), b))"

definition vote_with_proof :: "noble \<Rightarrow> string \<Rightarrow> int \<Rightarrow> (int \<times> stored_vote) list \<Rightarrow> int \<Rightarrow> board \<Rightarrow> (input_error + zkvm_input_vote) \<times> board" where
  "vote_with_proof N electionId n votes i bulletin =
     (case map_of votes i of
        None \<Rightarrow> (Inl (VoteDataNotFound i), bulletin)
      | Some voteData \<Rightarrow>
          let choice = choice_number (pv_vote voteData) in
          case normalizeHexOrZero (pv_rand voteData) of
            Inl e \<Rightarrow> (Inl (SessionThrows e), bulletin)
          | Inr random \<Rightarrow>
              (case computeCommitment N electionId choice random of
                 Inl e \<Rightarrow> (Inl (CommitmentThrows e), bulletin)
               | Inr c \<Rightarrow>
                   (case resolveMerklePath N i voteData n bulletin of
                      (Inl e, b) \<Rightarrow> (Inl e, b)
                    | (Inr nodes, b) \<Rightarrow>
                        (Inr \<lparr>cv_index = js_int i, cv_commitment = c, cv_merklePath = nodes, zv_choice = choice, zv_random = random\<rparr>, b))))"

fun votes_loop :: "noble \<Rightarrow> string \<Rightarrow> int \<Rightarrow> (int \<times> stored_vote) list \<Rightarrow> int list \<Rightarrow> board \<Rightarrow> input_error + zkvm_input_vote list" where
  "votes_loop N electionId n votes [] bulletin = Inr []"
| "votes_loop N electionId n votes (i # is) bulletin =
     (case vote_with_proof N electionId n votes i bulletin of
        (Inl e, _) \<Rightarrow> Inl e
      | (Inr v, b) \<Rightarrow> res_bind (votes_loop N electionId n votes is b) (\<lambda>vs. Inr (v # vs)))"

definition buildVotesWithProofs :: "noble \<Rightarrow> bool \<Rightarrow> session_voting \<Rightarrow> string \<Rightarrow> int \<Rightarrow> board \<Rightarrow> input_error + zkvm_input_vote list" where
  "buildVotesWithProofs N allowSparse voting electionId n bulletin =
     res_bind (resolveInputVoteIndices allowSparse (vr_votes voting)) (\<lambda>sortedIndices.
       votes_loop N electionId n (vr_votes voting) sortedIndices bulletin)"

definition buildZkVMInputFromSession ::
  "noble \<Rightarrow> int \<Rightarrow> int \<Rightarrow> bool \<Rightarrow> session_identity \<Rightarrow> session_voting \<Rightarrow> input_error + zkvm_input" where
  "buildZkVMInputFromSession N now fallback allowSparse ident voting =
     (if id_sessionId ident \<noteq> vr_sessionId voting then Inl RecordsDoNotMatch
      else if \<not> hasMatchingElectionConfigHash N (id_electionConfig ident) (id_electionConfigHash ident) then Inl ConfigHashDoesNotMatch
      else if id_logId ident = [] then Inl MissingLogId
      else
        case getLatestSTHSnapshot N now fallback allowSparse voting of
          (Inl e, _) \<Rightarrow> Inl e
        | (Inr sthSnapshot, b) \<Rightarrow>
            res_bind (map_err SessionThrows (normalizeHexOrZero (sn_root sthSnapshot))) (\<lambda>bulletinRoot.
            res_bind (map_err SessionThrows (normalizeHexOrZero (id_logId ident))) (\<lambda>lid.
            res_bind (buildVotesWithProofs N allowSparse voting (id_electionId ident) (sn_treeSize sthSnapshot) b) (\<lambda>votesWithProofs.
              Inr \<lparr>zi_electionId = id_electionId ident, zi_electionConfigHash = id_electionConfigHash ident, zi_bulletinRoot = bulletinRoot,
                   zi_treeSize = js_int (sn_treeSize sthSnapshot), zi_totalExpected = js_int (ec_totalExpected (id_electionConfig ident)),
                   zi_logId = lid, zi_timestamp = js_int (sn_timestamp sthSnapshot), zi_votes = votesWithProofs\<rparr>))))"

section \<open>validateCanonicalZkVMInput\<close>

text \<open>The patterns of 32 bytes in hexadecimal with the prefix, in either case, and of hexadecimal strings.\<close>

definition is_hex32 :: "string \<Rightarrow> bool" where
  "is_hex32 s \<longleftrightarrow> startsWith (toLowerCase s) ''0x'' \<and> length s = 66 \<and> list_all is_hex_char (drop 2 s)"

definition is_hex_string :: "string \<Rightarrow> bool" where
  "is_hex_string s \<longleftrightarrow> (let d = strip_prefix s in d \<noteq> [] \<and> list_all is_hex_char d)"

datatype input_problem =
    InvalidElectionId | InvalidElectionConfigHash | InvalidBulletinRoot | InvalidTreeSize | InvalidTotalExpected | InvalidLogId | InvalidTimestamp
  | InvalidVoteCommitment nat | InvalidVoteChoice nat | InvalidVoteRandom nat | InvalidVoteIndex nat | DuplicateVoteIndex jsnum

definition problem_if :: "bool \<Rightarrow> input_problem \<Rightarrow> input_problem list" where
  "problem_if c p = (if c then [p] else [])"

definition observeCanonicalVoteIndex :: "zkvm_input_vote \<Rightarrow> nat \<Rightarrow> int set \<Rightarrow> input_problem list \<times> int set" where
  "observeCanonicalVoteIndex vote i seenIndices =
     (case asVoteIndex (cv_index vote) of
        None \<Rightarrow> ([InvalidVoteIndex i], seenIndices)
      | Some voteIndex \<Rightarrow>
          if voteIndex \<in> seenIndices then ([DuplicateVoteIndex (cv_index vote)], seenIndices) else ([], insert voteIndex seenIndices))"

fun vote_problems :: "nat \<Rightarrow> int set \<Rightarrow> zkvm_input_vote list \<Rightarrow> input_problem list" where
  "vote_problems i seenIndices [] = []"
| "vote_problems i seenIndices (v # vs) =
     (case observeCanonicalVoteIndex v i seenIndices of
        (ps, seen') \<Rightarrow>
          problem_if (\<not> is_hex32 (cv_commitment v)) (InvalidVoteCommitment i) @
          problem_if (zv_choice v < 0 \<or> zv_choice v > 4) (InvalidVoteChoice i) @
          problem_if (\<not> is_hex32 (zv_random v)) (InvalidVoteRandom i) @ ps @ vote_problems (Suc i) seen' vs)"

definition validateCanonicalZkVMInput :: "zkvm_input \<Rightarrow> input_problem list" where
  "validateCanonicalZkVMInput inp =
     problem_if (length (zi_electionId inp) \<noteq> 36) InvalidElectionId @
     problem_if (\<not> is_hex32 (zi_electionConfigHash inp)) InvalidElectionConfigHash @
     problem_if (\<not> is_hex_string (zi_bulletinRoot inp)) InvalidBulletinRoot @
     problem_if (num_le (zi_treeSize inp) (js_int 0) \<or> num_lt (js_int 1000000) (zi_treeSize inp)) InvalidTreeSize @
     problem_if (num_le (zi_totalExpected inp) (js_int 0) \<or> num_lt (js_int 1000000) (zi_totalExpected inp)) InvalidTotalExpected @
     problem_if (\<not> is_hex32 (zi_logId inp)) InvalidLogId @
     problem_if (num_le (zi_timestamp inp) (js_int 0)) InvalidTimestamp @
     vote_problems 0 {} (zi_votes inp)"

end
