(* ===== verification/VotingProofs.thy ===== *)
theory VotingProofs
  imports VotingSession
begin

text \<open>
  The invariant of a voting session: stored votes, board and history of roots describe the same log, every stored vote
  opens its commitment, and there is at most one user vote, at the first position.
\<close>

section \<open>Hexadecimal values\<close>

definition hex64 :: "string \<Rightarrow> bool" where
  "hex64 h \<longleftrightarrow> canonical_hex h \<and> length h = 64"

lemma hex64_hex: "hex64 h \<Longrightarrow> list_all is_hex_char h"
  by (auto simp: hex64_def canonical_hex_def list_all_iff is_lower_hex_hex)

lemma hex64_lower [simp]: "hex64 h \<Longrightarrow> toLowerCase h = h"
  by (simp add: hex64_def canonical_hex_def toLowerCase_lower_hex)

lemma hex64_normal [simp]: "hex64 h \<Longrightarrow> normalizeHexString h = h" "hex64 h \<Longrightarrow> normalizeHexString (''0x'' @ h) = h"
  by (simp add: hex64_def) (simp add: normalizeHexString_def startsWith_def)

lemma strip_hex64 [simp]: "hex64 h \<Longrightarrow> strip_prefix h = h" "strip_prefix (''0x'' @ h) = h"
  using startsWith_x_not_hex [OF hex64_hex, of h] by (auto simp: strip_prefix_def startsWith_def)

lemma normalizeHex_hex64 [simp]: "hex64 h \<Longrightarrow> normalizeHex e h = Inr (''0x'' @ h)" "hex64 h \<Longrightarrow> normalizeHex e (''0x'' @ h) = Inr (''0x'' @ h)"
  using hex64_hex [of h] by (simp_all add: normalizeHex_def Let_def del: append_Cons append.append_Nil) (auto simp: hex64_def)

lemma normalizeHex_Inr:
  assumes "normalizeHex e v = Inr r"
  shows "\<exists>h. r = ''0x'' @ h \<and> canonical_hex h \<and> 64 \<le> length h"
proof -
  have "list_all is_lower_hex (toLowerCase s)" if "list_all is_hex_char s" for s
    using that by (auto simp: toLowerCase_def list_all_iff)
  moreover have "is_hex_char CHR ''0''" "is_lower_hex CHR ''0''" by code_simp+
  ultimately show ?thesis
    using assms by (auto simp: normalizeHex_def Let_def zeroHex_def canonical_hex_def list_all_iff toLowerCase_def split: if_splits)
qed

lemma commitment_hex64: "noble_ok N \<Longrightarrow> computeCommitment N e c r = Inr h \<Longrightarrow> \<exists>x. h = ''0x'' @ x \<and> hex64 x"
  by (auto simp: computeCommitment_def res_bind_eq_Inr hex64_def length_bytesToHex length_sha256)

section \<open>Boards filled with votes\<close>

text \<open>The root after the first \<open>i + 1\<close> of the commitments \<open>cs\<close>.\<close>

definition root_at :: "noble \<Rightarrow> string list \<Rightarrow> nat \<Rightarrow> string" where
  "root_at N cs i = log_root_of N (map (leaf_bytes N) (take (Suc i) cs))"

definition filled :: "noble \<Rightarrow> string \<Rightarrow> (string \<times> string) list \<Rightarrow> board \<Rightarrow> bool" where
  "filled N lid vs b \<longleftrightarrow>
     board_inv N b \<and> logId b = lid \<and> map fst (voteEntries b) = map fst vs \<and> commitments b = map snd vs \<and> list_all hex64 (map snd vs)"

lemma root_hex64: "noble_ok N \<Longrightarrow> hex64 (log_root_of N ds)"
  by (simp add: hex64_def log_root_of_def length_bytesToHex)

lemma filled_new: "noble_ok N \<Longrightarrow> filled N lid [] (new_board N (Some lid))"
  by (simp add: filled_def board_inv_new) (simp add: new_board_def)

lemma filled_contents:
  assumes "filled N lid vs b"
  shows "contents N (tree b) = map (leaf_bytes N) (map snd vs)" "getSize b = int (length vs)"
proof -
  have c: "commitments b = map snd vs" "list_all hex64 (map snd vs)" "board_inv N b" using assms by (auto simp: filled_def)
  have "map normalizeHexString (map snd vs) = map snd vs" using c(2) by (auto simp: list_all_iff)
  then show "contents N (tree b) = map (leaf_bytes N) (map snd vs)"
    using board_invD(2) [OF c(3)] c(1) by (simp add: contents_def)
  show "getSize b = int (length vs)" using board_lengths(2) [OF c(3)] c(1) by (simp add: getSize_def size_of_tree_def)
qed

lemma filled_append:
  assumes "filled N lid vs b" "hex64 h" "appendVote N now vid h b = (Inr r, b')"
  shows "filled N lid (vs @ [(vid, h)]) b'" "isValidVoteId vid" "vid \<notin> set (map fst vs)" "h \<notin> set (map snd vs)"
    "r = \<lparr>ar_index = int (length vs), ar_rootAtAppend = root_at N (map snd vs @ [h]) (length vs), ar_timestamp = now\<rparr>"
proof -
  have f: "board_inv N b" "logId b = lid" "map fst (voteEntries b) = map fst vs" "commitments b = map snd vs" "list_all hex64 (map snd vs)"
    using assms(1) by (auto simp: filled_def)
  have acc: "vote_acceptable vid h b"
    using appendVote_rejects [of vid h b N now] assms(3) by fastforce
  have keys: "fst ` set (voteEntries b) = set (map fst vs)" using arg_cong [OF f(3), of set] by simp
  from acc show "isValidVoteId vid" "vid \<notin> set (map fst vs)" "h \<notin> set (map snd vs)"
    using keys board_invD(4) [OF f(1)] f(4) assms(2) by (auto simp: vote_acceptable_def)
  have inv: "board_inv N b'" using appendVote_inv [OF f(1), of now vid h] assms(3) by simp
  from appendVote_accepts [OF f(1) acc, of now] assms(2,3) filled_contents(1) [OF assms(1)] f
  have "r = \<lparr>ar_index = int (length vs), ar_rootAtAppend = root_at N (map snd vs @ [h]) (length vs), ar_timestamp = now\<rparr>"
    "logId b' = lid \<and> map fst (voteEntries b') = map fst (vs @ [(vid, h)]) \<and> commitments b' = map snd (vs @ [(vid, h)])"
    by (auto simp: Let_def root_at_def)
  with inv f(5) assms(2) show "filled N lid (vs @ [(vid, h)]) b'"
    "r = \<lparr>ar_index = int (length vs), ar_rootAtAppend = root_at N (map snd vs @ [h]) (length vs), ar_timestamp = now\<rparr>"
    by (auto simp: filled_def)
qed

text \<open>The entry of a stored vote on the board.\<close>

definition entry_of :: "'a prepared_vote_scheme \<Rightarrow> string \<times> string" where
  "entry_of v = (pv_voteId v, drop 2 (pv_commit v))"

definition well_committed :: "'a prepared_vote_scheme \<Rightarrow> bool" where
  "well_committed v \<longleftrightarrow> hex64 (drop 2 (pv_commit v)) \<and> pv_commit v = ''0x'' @ drop 2 (pv_commit v)"

lemma append_existing_filled:
  assumes "append_existing N clock i ws b = Inr b'" "filled N lid vs b" "list_all well_committed ws"
  shows "filled N lid (vs @ map entry_of ws) b'"
  using assms
proof (induction ws arbitrary: i b vs)
  case (Cons w ws)
  obtain r b1 where b1: "appendVote N (clock i) (pv_voteId w) (drop 2 (pv_commit w)) b = (Inr r, b1)" "append_existing N clock (Suc i) ws b1 = Inr b'"
    using Cons.prems(1) by (auto split: if_splits prod.splits sum.splits)
  have "filled N lid (vs @ [entry_of w]) b1"
    using filled_append(1) [OF Cons.prems(2) _ b1(1)] Cons.prems(3) by (simp add: entry_of_def well_committed_def)
  from Cons.IH [OF b1(2) this] Cons.prems(3) show ?case by simp
qed simp

lemma append_all_filled:
  assumes "append_all N clock i (board_votes ws) b = Inr (rs, b')" "filled N lid vs b" "list_all (\<lambda>w. well_committed (snd w)) ws"
  shows "filled N lid (vs @ map (entry_of \<circ> snd) ws) b'"
  using assms
proof (induction ws arbitrary: i b vs rs)
  case (Cons w ws)
  obtain k v where w: "w = (k, v)" by (cases w)
  obtain r b1 rs1 where b1: "appendVote N (clock i) (pv_voteId v) (drop 2 (pv_commit v)) b = (Inr r, b1)"
    "append_all N clock (Suc i) (board_votes ws) b1 = Inr (rs1, b')"
    using Cons.prems(1) w by (auto simp: board_votes_def res_bind_eq_Inr split: prod.splits sum.splits)
  have "filled N lid (vs @ [entry_of v]) b1"
    using filled_append(1) [OF Cons.prems(2) _ b1(1)] Cons.prems(3) w by (simp add: entry_of_def well_committed_def)
  from Cons.IH [OF b1(2) this] Cons.prems(3) w show ?case by simp
qed (simp add: board_votes_def)

section \<open>Canonical indices\<close>

definition keyed :: "(int \<times> 'a) list \<Rightarrow> bool" where
  "keyed votes \<longleftrightarrow> map fst votes = map int [0..<length votes]"

lemma insert_by_first: "\<forall>y \<in> set ys. c x y \<le> 0 \<Longrightarrow> insert_by c x ys = x # ys"
  by (cases ys) auto

lemma js_sort_sorted: "sorted_wrt (\<lambda>x y. c x y \<le> 0) xs \<Longrightarrow> js_sort c xs = xs"
  by (induction xs) (auto simp: js_sort_def insert_by_first)

lemma consecutive_sorted:
  assumes "map fst xs = map int [k..<k + length xs]"
  shows "sorted_votes xs = xs"
proof -
  have "fst (xs ! i) = int (k + i)" if "i < length xs" for i
    using arg_cong [OF assms, of "\<lambda>ys. ys ! i"] that by simp
  then show ?thesis unfolding sorted_votes_def by (intro js_sort_sorted) (simp add: sorted_wrt_iff_nth_less)
qed

lemma keyed_sorted: "keyed votes \<Longrightarrow> sorted_votes votes = votes"
  using consecutive_sorted [of votes 0] by (simp add: keyed_def)

lemma keyed_canonical:
  assumes "keyed votes" "int (length votes) \<le> MAX_SAFE_INTEGER"
  shows "assertCanonicalCtVoteIndices (map fst votes) = Inr (int (length votes))"
proof -
  let ?n = "length votes"
  have "js_sort by_index (map int [0..<?n]) = map int [0..<?n]"
    by (rule js_sort_sorted) (auto simp: by_index_def sorted_wrt_iff_nth_less)
  moreover have "\<not> list_ex (\<lambda>(e, a). \<not> isSafeInteger (js_int a) \<or> a < 0 \<or> a \<noteq> e) (zip (map int [0..<?n]) (map int [0..<?n]))"
    using assms(2) by (auto simp: list_ex_iff set_zip)
  ultimately show ?thesis using assms(1) by (simp add: assertCanonicalCtVoteIndices_def keyed_def Let_def)
qed

lemma keyed_append: "keyed votes \<Longrightarrow> keyed (votes @ [(int (length votes), v)])"
  by (simp add: keyed_def)

section \<open>The reconstructed history\<close>

text \<open>A history that records the roots of the commitments \<open>cs\<close>, possibly written with the prefix.\<close>

definition records_roots :: "noble \<Rightarrow> string list \<Rightarrow> session_snapshot list \<Rightarrow> bool" where
  "records_roots N cs h \<longleftrightarrow>
     length h = length cs \<and>
     (\<forall>i < length h. ss_treeSize (h ! i) = int i + 1 \<and> ss_root (h ! i) \<in> {root_at N cs i, ''0x'' @ root_at N cs i})"

lemma history_loop_roots:
  assumes "noble_ok N" "log_invar N t" "leaves t = cs" "list_all well_committed ws" "list_all hex64 cs"
  defines "cs' \<equiv> cs @ map (\<lambda>w. drop 2 (pv_commit w)) ws"
  shows "\<exists>hs. history_loop N fb t ws = Inr hs \<and> length hs = length ws \<and>
    (\<forall>i < length hs. ss_treeSize (hs ! i) = int (length cs + i) + 1 \<and> ss_root (hs ! i) = ''0x'' @ root_at N cs' (length cs + i))"
  using assms(2-5) unfolding cs'_def
proof (induction ws arbitrary: t cs)
  case (Cons w ws)
  let ?h = "drop 2 (pv_commit w)"
  have h: "hex64 ?h" "normalizeHexString (pv_commit w) = ?h" "log_accepts (pv_commit w)"
  proof -
    show h: "hex64 ?h" using Cons.prems(3) by (simp add: well_committed_def)
    have "pv_commit w = ''0x'' @ ?h" using Cons.prems(3) by (simp add: well_committed_def)
    then show n: "normalizeHexString (pv_commit w) = ?h" using hex64_normal(2) [OF h] by simp
    show "log_accepts (pv_commit w)" using h by (simp add: log_accepts_def n hex64_def)
  qed
  obtain t1 t2 where t: "append_leaf (pv_commit w) t = Inr t1"
    "getRoot N t1 = (Inr (log_root_of N (contents N t @ [leaf_bytes N ?h])), t2)" "log_invar N t2"
    using merkle_log.append_then_root [OF Cons.prems(1) h(3)] h(2) by metis
  have "leaves t1 = leaves t @ [?h]" "tree_inv N t1"
    using t(1) append_leaf_inv [OF log_invarD(2) [OF Cons.prems(1)] t(1)] h(2) by (auto simp: append_leaf_Inr)
  then have l2: "leaves t2 = cs @ [?h]"
    using getRoot_kept [of N t1] t(2) assms(1) Cons.prems(2) by (simp add: kept_def)
  obtain hs where hs: "history_loop N fb t2 ws = Inr hs" "length hs = length ws"
    "\<forall>i < length hs. ss_treeSize (hs ! i) = int (length (cs @ [?h]) + i) + 1 \<and>
       ss_root (hs ! i) = ''0x'' @ root_at N ((cs @ [?h]) @ map (\<lambda>w. drop 2 (pv_commit w)) ws) (length (cs @ [?h]) + i)"
    using Cons.IH [OF t(3) l2] Cons.prems(3,4) h(1) by auto
  have c: "contents N t = map (leaf_bytes N) cs" using Cons.prems(2) by (simp add: contents_def)
  show ?case
    using t hs l2 c root_hex64 [OF assms(1)]
    by (auto simp: nth_Cons size_of_tree_def root_at_def split: nat.splits)
qed simp

lemma merge_keeps_roots:
  "length (mergePersistedRootHistory hs p) = length hs"
  "i < length hs \<Longrightarrow> ss_treeSize (mergePersistedRootHistory hs p ! i) = ss_treeSize (hs ! i)"
  "i < length hs \<Longrightarrow> ss_root (mergePersistedRootHistory hs p ! i) = ss_root (hs ! i)"
  by (auto simp: mergePersistedRootHistory_def split: option.split)

text \<open>Whatever history was persisted, the canonical one records the roots of the votes.\<close>

lemma canonical_history:
  assumes "noble_ok N" "keyed votes" "int (length votes) \<le> MAX_SAFE_INTEGER" "list_all well_committed (map snd votes)"
  shows "\<exists>h. getCanonicalBulletinRootHistory N fb votes hist = Inr h \<and> records_roots N (map (snd \<circ> entry_of \<circ> snd) votes) h"
proof -
  have inv: "log_invar N new_tree" "leaves new_tree = []"
    using board_invD(1) [OF board_inv_new [OF assms(1)], of None] by (simp_all add: new_board_def) (simp add: new_tree_def)
  have cs: "map (\<lambda>w. drop 2 (pv_commit w)) (map snd votes) = map (snd \<circ> entry_of \<circ> snd) votes" by (simp add: entry_of_def)
  obtain hs where hs: "history_loop N fb new_tree (map snd votes) = Inr hs" "length hs = length votes"
    "\<forall>i < length hs. ss_treeSize (hs ! i) = int i + 1 \<and> ss_root (hs ! i) = ''0x'' @ root_at N (map (snd \<circ> entry_of \<circ> snd) votes) i"
    using history_loop_roots [OF assms(1) inv assms(4), of fb] unfolding cs by auto
  have "getCanonicalBulletinRootHistory N fb votes hist = Inr (mergePersistedRootHistory hs (parsePersistedRootHistory hist))"
    using hs(1) by (simp add: getCanonicalBulletinRootHistory_def rebuildCanonicalHistoryFromVotes_def keyed_canonical [OF assms(2,3)] keyed_sorted [OF assms(2)])
  moreover have "records_roots N (map (snd \<circ> entry_of \<circ> snd) votes) (mergePersistedRootHistory hs (parsePersistedRootHistory hist))"
    using hs(2,3) by (simp add: records_roots_def merge_keeps_roots)
  ultimately show ?thesis by blast
qed

section \<open>The log of a session\<close>

definition prepared_ok :: "noble \<Rightarrow> string \<Rightarrow> 'a prepared_vote_scheme \<Rightarrow> bool" where
  "prepared_ok N eid v \<longleftrightarrow>
     computeCommitment N eid (choice_number (pv_vote v)) (pv_rand v) = Inr (pv_commit v) \<and> normalizeHex False (pv_rand v) = Inr (pv_rand v)"

definition commits :: "(int \<times> 'a prepared_vote_scheme) list \<Rightarrow> string list" where
  "commits votes = map (snd \<circ> entry_of \<circ> snd) votes"

definition entries :: "(int \<times> 'a prepared_vote_scheme) list \<Rightarrow> (string \<times> string) list" where
  "entries votes = map (entry_of \<circ> snd) votes"

text \<open>Votes, board and history describe the same log.\<close>

definition log_ok :: "noble \<Rightarrow> string \<Rightarrow> string \<Rightarrow> (int \<times> stored_vote) list \<Rightarrow> board \<Rightarrow> session_snapshot list \<Rightarrow> bool" where
  "log_ok N eid lid votes b h \<longleftrightarrow>
     keyed votes \<and> filled N lid (entries votes) b \<and> records_roots N (commits votes) h \<and>
     list_all (\<lambda>(i, v). prepared_ok N eid v \<and> isValidVoteId (pv_voteId v) \<and> pv_rootAtCast v = ''0x'' @ root_at N (commits votes) (nat i)) votes"

lemma log_okD:
  assumes "log_ok N eid lid votes b h"
  shows "keyed votes" "filled N lid (entries votes) b" "records_roots N (commits votes) h"
    "\<And>i v. (i, v) \<in> set votes \<Longrightarrow> prepared_ok N eid v \<and> isValidVoteId (pv_voteId v) \<and> pv_rootAtCast v = ''0x'' @ root_at N (commits votes) (nat i)"
  using assms by (auto simp: log_ok_def list_all_iff)

lemma prepared_committed: "noble_ok N \<Longrightarrow> prepared_ok N eid v \<Longrightarrow> well_committed v"
  using commitment_hex64 by (fastforce simp: prepared_ok_def well_committed_def)

lemma snd_entries [simp]: "map snd (entries votes) = commits votes" "length (entries votes) = length votes" "length (commits votes) = length votes"
  by (simp_all add: entries_def commits_def)

lemma entries_simps [simp]:
  "commits (votes @ ws) = commits votes @ commits ws" "entries (votes @ ws) = entries votes @ entries ws"
  "commits [(i, v)] = [drop 2 (pv_commit v)]" "entries [(i, v)] = [(pv_voteId v, drop 2 (pv_commit v))]" "commits [] = []" "entries [] = []"
  by (simp_all add: commits_def entries_def entry_of_def)

lemma root_at_append [simp]: "i < length cs \<Longrightarrow> root_at N (cs @ ds) i = root_at N cs i"
  by (simp add: root_at_def)

lemma keyed_bound: "keyed votes \<Longrightarrow> (i, v) \<in> set votes \<Longrightarrow> 0 \<le> i \<and> i < int (length votes)"
proof -
  assume a: "keyed votes" "(i, v) \<in> set votes"
  then have "i \<in> set (map fst votes)" by force
  then have "i \<in> set (map int [0..<length votes])" using a(1) unfolding keyed_def by simp
  then show ?thesis by auto
qed

lemma records_roots_snoc:
  assumes "records_roots N cs h" "ss_root s = root_at N (cs @ [c]) (length cs)" "ss_treeSize s = int (length cs) + 1"
  shows "records_roots N (cs @ [c]) (h @ [s])"
  using assms by (auto simp: records_roots_def nth_append less_Suc_eq)

lemma log_ok_append:
  assumes ok: "log_ok N eid lid votes b h" and v: "prepared_ok N eid v" and N: "noble_ok N"
    and app: "appendVote N now (pv_voteId v) (drop 2 (pv_commit v)) b = (Inr r, b')"
  defines "stored \<equiv> \<lparr>pv_voteId = pv_voteId v, pv_timestamp = ar_timestamp r, pv_vote = pv_vote v, pv_rand = pv_rand v,
                     pv_commit = pv_commit v, pv_rootAtCast = ''0x'' @ ar_rootAtAppend r\<rparr>"
    and "snap \<equiv> \<lparr>ss_timestamp = ar_timestamp r, ss_root = ar_rootAtAppend r, ss_treeSize = getSize b', ss_signature = None\<rparr>"
  shows "log_ok N eid lid (votes @ [(int (length votes), stored)]) b' (h @ [snap])" "hex64 (ar_rootAtAppend r)"
proof -
  note D = log_okD [OF ok]
  let ?c = "drop 2 (pv_commit v)"
  have c: "hex64 ?c" using prepared_committed [OF N v] by (simp add: well_committed_def)
  note F = filled_append [OF D(2) c app]
  have r: "ar_rootAtAppend r = root_at N (commits votes @ [?c]) (length votes)" using F(5) by simp
  show "hex64 (ar_rootAtAppend r)" unfolding r root_at_def by (rule root_hex64 [OF N])
  have "records_roots N (commits votes @ [?c]) (h @ [snap])"
    by (rule records_roots_snoc [OF D(3)]) (use filled_contents(2) [OF F(1)] r in \<open>simp_all add: snap_def\<close>)
  moreover have "prepared_ok N eid stored" using v by (simp add: prepared_ok_def stored_def)
  moreover have "root_at N (commits votes @ [?c]) (nat i) = root_at N (commits votes) (nat i)" if "(i, w) \<in> set votes" for i w
    using keyed_bound [OF D(1) that] by (intro root_at_append) auto
  ultimately show "log_ok N eid lid (votes @ [(int (length votes), stored)]) b' (h @ [snap])"
    using keyed_append [OF D(1)] F(1,2) D(4) r
    by (auto simp: log_ok_def list_all_iff stored_def)
qed


definition keeps :: "prepared_vote \<Rightarrow> staged_write \<Rightarrow> bool" where
  "keeps v w \<longleftrightarrow> sw_voteId w = pv_voteId v \<and> pv_voteId (sw_storedVote w) = pv_voteId v \<and> pv_vote (sw_storedVote w) = pv_vote v \<and>
     pv_rand (sw_storedVote w) = pv_rand v \<and> pv_commit (sw_storedVote w) = pv_commit v"

definition staged_votes :: "staged_write list \<Rightarrow> (int \<times> stored_vote) list" where
  "staged_votes ws = map (\<lambda>w. (sw_index w, sw_storedVote w)) ws"

lemma stage_loop_ok:
  assumes "stage_loop N clock (length votes) ws b h = Inr s" "log_ok N eid lid votes b h" "noble_ok N"
    "list_all (prepared_ok N eid \<circ> snd) ws"
  shows "log_ok N eid lid (votes @ staged_votes (sr_votes s)) (sr_bulletin s) (sr_bulletinRootHistory s) \<and> list_all2 keeps (map snd ws) (sr_votes s)"
  using assms(1,2,4)
proof (induction ws arbitrary: votes b h s)
  case Nil
  then show ?case by (auto simp: staged_votes_def)
next
  case (Cons w ws)
  obtain i v where w: "w = (i, v)" by (cases w)
  from Cons.prems(1) obtain r b' where i: "i = int (length votes)"
    and app: "appendVote N (clock (length votes)) (pv_voteId v) (drop 2 (pv_commit v)) b = (Inr r, b')"
    by (auto simp: w split: if_splits prod.splits sum.splits)
  let ?stored = "\<lparr>pv_voteId = pv_voteId v, pv_timestamp = ar_timestamp r, pv_vote = pv_vote v, pv_rand = pv_rand v,
                     pv_commit = pv_commit v, pv_rootAtCast = ''0x'' @ ar_rootAtAppend r\<rparr>"
  let ?snap = "\<lparr>ss_timestamp = ar_timestamp r, ss_root = ar_rootAtAppend r, ss_treeSize = getSize b', ss_signature = None\<rparr>"
  have v: "prepared_ok N eid v" using Cons.prems(3) by (simp add: w)
  note A = log_ok_append [OF Cons.prems(2) v assms(3) app]
  from Cons.prems(1) obtain s1 where s1: "stage_loop N clock (Suc (length votes)) ws b' (h @ [?snap]) = Inr s1"
    and s: "s = s1\<lparr>sr_votes := \<lparr>sw_index = i, sw_voteId = pv_voteId v, sw_storedVote = ?stored\<rparr> # sr_votes s1\<rparr>"
    using A(2) by (auto simp: w i app Let_def res_bind_eq_Inr)
  have "log_ok N eid lid ((votes @ [(int (length votes), ?stored)]) @ staged_votes (sr_votes s1)) (sr_bulletin s1) (sr_bulletinRootHistory s1) \<and>
      list_all2 keeps (map snd ws) (sr_votes s1)"
    by (rule Cons.IH [OF _ A(1)]) (use s1 Cons.prems(3) in simp_all)
  moreover have "keeps v \<lparr>sw_index = i, sw_voteId = pv_voteId v, sw_storedVote = ?stored\<rparr>" by (simp add: keeps_def)
  ultimately show ?case by (simp add: s w i staged_votes_def)
qed

lemma log_ok_committed: "noble_ok N \<Longrightarrow> log_ok N eid lid votes b h \<Longrightarrow> list_all well_committed (map snd votes)"
  using log_okD(4) prepared_committed by (fastforce simp: list_all_iff)

lemma stageCtVoteWrites_ok:
  assumes "stageCtVoteWrites N clock fb b votes h ws = Inr s" "log_ok N eid lid votes b h" "noble_ok N"
    "list_all (prepared_ok N eid \<circ> snd) ws" "int (length votes) \<le> MAX_SAFE_INTEGER" "sorted_votes ws = ws"
  shows "log_ok N eid lid (votes @ staged_votes (sr_votes s)) (sr_bulletin s) (sr_bulletinRootHistory s)" "list_all2 keeps (map snd ws) (sr_votes s)"
proof -
  note D = log_okD [OF assms(2)]
  note C = log_ok_committed [OF assms(3,2)]
  obtain h' where h: "getCanonicalBulletinRootHistory N fb votes h = Inr h'" "records_roots N (commits votes) h'"
    using canonical_history [OF assms(3) D(1) assms(5) C] by (auto simp: commits_def)
  have "length h' = length votes" using h(2) by (simp add: records_roots_def)
  then obtain b0 where b0: "append_existing N clock 0 (map snd votes) (new_board N (Some (logId b))) = Inr b0"
    and s: "stage_loop N clock (length votes) ws b0 h' = Inr s"
    using assms(1,6) by (auto simp: stageCtVoteWrites_def Let_def keyed_sorted [OF D(1)] keyed_canonical [OF D(1) assms(5)] h(1) res_bind_eq_Inr
      split: option.splits)
  have "filled N lid ([] @ map entry_of (map snd votes)) b0"
    by (rule append_existing_filled [OF b0 _ C]) (use filled_new [OF assms(3)] D(2) in \<open>simp add: filled_def\<close>)
  then have "log_ok N eid lid votes b0 h'" using assms(2) h(2) by (simp add: log_ok_def entries_def)
  from stage_loop_ok [OF s this assms(3,4)]
  show "log_ok N eid lid (votes @ staged_votes (sr_votes s)) (sr_bulletin s) (sr_bulletinRootHistory s)" "list_all2 keeps (map snd ws) (sr_votes s)"
    by auto
qed


section \<open>Proofs for stored votes\<close>

lemma path_spec_lengths: "noble_ok N \<Longrightarrow> i < length ds \<Longrightarrow> list_all (\<lambda>p. length p = 32) (path_spec N i ds)"
proof (induction N i ds rule: path_spec.induct)
  case (1 N m ds)
  then show ?case by (subst path_spec.simps) (auto simp: split_at_shrinks)
qed

text \<open>The inclusion path of position \<open>i\<close> in the log of the first \<open>n\<close> of the commitments \<open>cs\<close>.\<close>

definition path_in :: "noble \<Rightarrow> string list \<Rightarrow> nat \<Rightarrow> nat \<Rightarrow> string list" where
  "path_in N cs n i = map (bytesToHex N) (path_spec N i (map (leaf_bytes N) (take n cs)))"

lemma filled_path:
  assumes "filled N lid vs b" "i < n" "n \<le> length vs" "int (length vs) \<le> MAX_SAFE_INTEGER"
  shows "\<exists>b'. board_getInclusionProof N (fst (vs ! i)) (Some (int n)) b =
    (Inr (Some \<lparr>leafIndex = int i, ip_proofNodes = path_in N (map snd vs) n i, treeSize = int n, rootHash = root_at N (map snd vs) (n - 1)\<rparr>), b')"
proof -
  have f: "board_inv N b" "map fst (voteEntries b) = map fst vs" "commitments b = map snd vs" using assms(1) by (auto simp: filled_def)
  note inv = board_invD [OF f(1)] and len = board_lengths [OF f(1)]
  note tr = log_invarD [OF inv(1)]
  have l: "length (leaves (tree b)) = length vs" "i < length (commitments b)" "i < length vs" using len f(3) assms(2,3) by simp_all
  obtain e where e: "voteEntries b ! i = (fst (vs ! i), e)" "index e = int i"
    using entry_nth(1) [OF f(1) l(2)] arg_cong [OF f(2), of "\<lambda>xs. xs ! i"] l(3) len f(3) by (cases "voteEntries b ! i") auto
  have e': "map_of (voteEntries b) (fst (vs ! i)) = Some e"
    using inv(5) e(1) l(2) len by (metis map_of_is_SomeI nth_mem)
  have take: "take n (contents N (tree b)) = map (leaf_bytes N) (take n (map snd vs))"
    by (simp add: filled_contents(1) [OF assms(1)] take_map)
  obtain t1 where p: "getInclusionProof N (tree b) (int i) (Some (int n)) = (Inr (int i, path_in N (map snd vs) n i), t1)" "kept N (tree b) t1"
    using getInclusionProof_correct [OF tr(1,2), of "int i" "int n"] l assms(2,3) take by (auto simp: path_in_def)
  have t1: "tree_inv N t1" "leaves t1 = leaves (tree b)" "contents N t1 = contents N (tree b)"
    using p(2) by (auto simp: kept_def contents_def)
  have "0 < int n" "Suc (n - 1) = n" using assms(2) by simp_all
  then obtain t2 where r: "getRootAtSize N t1 (int n) = (Inr (root_at N (map snd vs) (n - 1)), t2)"
    using getRootAtSize_value [OF tr(1) t1(1), of "int n"] l t1(2,3) take assms(3) by (auto simp: root_at_def log_root_of_def)
  show ?thesis using e' e(2) p(1) r l assms(2-4) by (simp add: board_getInclusionProof_def size_of_tree_def)
qed

text \<open>The proof of the vote at position \<open>i\<close> in the tree as it was when the vote was cast.\<close>

definition cast_path :: "noble \<Rightarrow> string list \<Rightarrow> nat \<Rightarrow> string list" where
  "cast_path N cs i = path_in N cs (Suc i) i"

lemma cast_path_hex64: "noble_ok N \<Longrightarrow> i < length cs \<Longrightarrow> list_all hex64 (cast_path N cs i)"
  using path_spec_lengths [of N i "map (leaf_bytes N) (take (Suc i) cs)"]
  by (auto simp: cast_path_def path_in_def hex64_def list_all_iff length_bytesToHex)

lemma normalize_all: "list_all hex64 hs \<Longrightarrow> res_map (normalizeHex e) hs = Inr (map (\<lambda>h. ''0x'' @ h) hs)"
  by (induction hs) auto

lemma filled_proof:
  assumes "filled N lid vs b" "i < length vs" "int (length vs) \<le> MAX_SAFE_INTEGER"
  shows "\<exists>b'. board_getInclusionProof N (fst (vs ! i)) (Some (int i + 1)) b =
    (Inr (Some \<lparr>leafIndex = int i, ip_proofNodes = cast_path N (map snd vs) i, treeSize = int i + 1, rootHash = root_at N (map snd vs) i\<rparr>), b')"
  using filled_path [OF assms(1), of i "Suc i"] assms(2,3) by (simp add: cast_path_def add.commute)

text \<open>The published proof of a vote convinces the verifier of recorded inclusion proofs.\<close>

lemma cast_path_verifies:
  assumes "noble_ok N" "list_all hex64 cs" "i < length cs"
  shows "verifyCTMerkleInclusion N (''0x'' @ cs ! i) (map (\<lambda>h. ''0x'' @ h) (cast_path N cs i)) (int i) (''0x'' @ root_at N cs i) (int i + 1) = Inr True"
proof -
  let ?ds = "map (leaf_bytes N) (take (Suc i) cs)"
  have h: "hex64 (cs ! i)" using assms(2,3) by (simp add: list_all_length)
  have "valid_leaf (cs ! i)" "canonical_hex (cs ! i)" using h by (auto simp: hex64_def valid_leaf_def)
  then have b: "hexToBytesStrict N (cs ! i) = Inr (?ds ! i)"
    using valid_leaf_bytes(1) [OF assms(1), of "cs ! i"] h assms(3) by simp
  have "verifyInclusionProof N (cs ! i) (int i) (cast_path N cs i) (root_at N cs i) (int (length ?ds)) = Inr True"
    unfolding cast_path_def path_in_def root_at_def log_root_of_def by (rule verifyInclusion_complete [OF assms(1) _ b]) (use assms(3) in simp)
  moreover have "map normalizeHexString (map (\<lambda>h. ''0x'' @ h) (cast_path N cs i)) = cast_path N cs i"
    using cast_path_hex64 [OF assms(1,3)] by (simp add: list_all_iff map_idI del: append_Cons append.append_Nil)
  moreover have "length ?ds = Suc i" using assms(3) by simp
  ultimately show ?thesis
    using h root_hex64 [OF assms(1)] by (simp add: verifyCTMerkleInclusion_def root_at_def add.commute del: append_Cons append.append_Nil map_map)
qed


section \<open>Mutations\<close>

lemma normalizeHex_idem:
  assumes "normalizeHex e v = Inr r"
  shows "normalizeHex e' r = Inr r"
proof -
  obtain h where h: "r = ''0x'' @ h" "canonical_hex h" "64 \<le> length h" using normalizeHex_Inr [OF assms] by blast
  then have "list_all is_hex_char h" "toLowerCase h = h"
    by (auto simp: canonical_hex_def list_all_iff is_lower_hex_hex toLowerCase_lower_hex)
  then show ?thesis using h(3) by (simp add: normalizeHex_def Let_def h(1) del: append_Cons append.append_Nil) auto
qed

lemma prepareVote_ok:
  assumes "prepareVote N ident c rand vid time = Inr v"
  shows "prepared_ok N (id_electionId ident) v" "pv_voteId v = vid" "pv_vote v = c" "normalizeHex True rand = Inr (pv_rand v)"
  using assms by (auto simp: prepareVote_def prepared_ok_def res_bind_eq_Inr map_err_eq_Inr intro: normalizeHex_idem)

lemma update_all:
  assumes "distinct (map fst (votes @ staged_votes ws))"
  shows "foldl (\<lambda>vs w. AList.update (sw_index w) (sw_storedVote w) vs) votes ws = votes @ staged_votes ws"
  using assms by (induction ws arbitrary: votes) (auto simp: staged_votes_def update_new_key)

lemma keyed_distinct: "keyed votes \<Longrightarrow> distinct (map fst votes)"
  by (auto simp: keyed_def distinct_map inj_on_def)

lemma nextVoting_ok:
  assumes "log_ok N eid lid (vr_votes voting @ staged_votes ws) b h"
  shows "vr_votes (buildNextVoting voting ws b h bots u t) = vr_votes voting @ staged_votes ws"
  using update_all [OF keyed_distinct [OF log_okD(1) [OF assms]]] by (simp add: buildNextVoting_def)

lemma filled_kept:
  assumes "filled N lid vs b"
  shows "filled N lid vs (snd (board_getInclusionProof N vid n b))"
proof -
  let ?b = "snd (board_getInclusionProof N vid n b)"
  have "voteEntries ?b = voteEntries b \<and> commitments ?b = commitments b \<and> logId ?b = logId b"
    by (auto simp: board_getInclusionProof_def Let_def split: option.split prod.split sum.split)
  then show ?thesis using assms board_getInclusionProof_inv [of N b vid n] by (auto simp: filled_def)
qed

definition session_inv :: "noble \<Rightarrow> session_identity \<Rightarrow> session_voting \<Rightarrow> bool" where
  "session_inv N ident voting \<longleftrightarrow>
     (let n = length (vr_votes voting) in
      log_ok N (id_electionId ident) (id_logId ident) (vr_votes voting) (vr_bulletin voting) (vr_bulletinRootHistory voting) \<and>
      vr_sessionId voting = id_sessionId ident \<and> n \<le> 64 \<and> vr_botCount voting = max 0 (int n - 1) \<and>
      vr_userParticipation voting = (if n = 0 then None else Some 0))"

lemma session_invD:
  assumes "session_inv N ident voting"
  shows "log_ok N (id_electionId ident) (id_logId ident) (vr_votes voting) (vr_bulletin voting) (vr_bulletinRootHistory voting)"
    "vr_sessionId voting = id_sessionId ident" "length (vr_votes voting) \<le> 64"
    "vr_botCount voting = max 0 (int (length (vr_votes voting)) - 1)"
    "vr_userParticipation voting = (if vr_votes voting = [] then None else Some 0)"
    "int (length (vr_votes voting)) \<le> MAX_SAFE_INTEGER"
  using assms by (auto simp: session_inv_def Let_def MAX_SAFE_INTEGER_def)

lemma session_inv_new: "noble_ok N \<Longrightarrow> session_inv N ident (snd (buildSessionRecords N ident t))"
  using filled_new by (simp add: session_inv_def buildSessionRecords_def log_ok_def keyed_def records_roots_def)

lemma sorted_single [simp]: "sorted_votes [w] = [w]"
  by (simp add: sorted_votes_def js_sort_def)

text \<open>What an accepted user vote adds.\<close>

lemma user_vote_ok:
  assumes "evaluateUserVoteMutation N env a vote = Inr m" "session_inv N (au_identity a) (au_voting a)" "noble_ok N" "vr_votes (au_voting a) = []"
  obtains voting intents r stored where "m = UserVoteAppended voting intents r" "session_inv N (au_identity a) voting"
    "vr_votes voting = [(0, stored)]" "pv_voteId stored = uv_voteId vote" "pv_vote stored = bv_vote vote" "normalizeHex True (bv_rand vote) = Inr (pv_rand stored)"
    "intents = [(uv_voteId vote, 0)]" "r = \<lparr>av_leafIndex = 0, av_merklePath = [], av_bulletinRootAtCast = pv_rootAtCast stored\<rparr>"
proof -
  let ?v = "au_voting a" and ?id = "au_identity a"
  note D = session_invD [OF assms(2)]
  from assms(1,4) obtain p s where p: "prepareVote N ?id (bv_vote vote) (bv_rand vote) (uv_voteId vote) (uv_timestamp vote) = Inr p"
    and s1: "stageCtVoteWrites N (stageClock env) (historyClock env 0) (vr_bulletin ?v) (vr_votes ?v) (vr_bulletinRootHistory ?v) [(0, p)] = Inr s"
    and rest: "(case sr_votes s of [] \<Rightarrow> Inl InvariantViolated | w # _ \<Rightarrow> user_cast_result N env ?v p s w) = Inr m"
    by (auto simp: evaluateUserVoteMutation_def Let_def res_bind_eq_Inr)
  from rest obtain w ws where s2: "sr_votes s = w # ws" and rest': "user_cast_result N env ?v p s w = Inr m" by (cases "sr_votes s") auto
  obtain pr b where b: "board_getInclusionProof N (pv_voteId p) (Some 1) (sr_bulletin s) = (Inr (Some pr), b)"
    using rest' assms(4) by (auto simp: user_cast_result_def split: prod.splits sum.splits option.splits)
  obtain nodes where nodes: "res_map (normalizeHex True) (ip_proofNodes pr) = Inr nodes" and m: "m = UserVoteAppended (buildNextVoting ?v (sr_votes s) b (sr_bulletinRootHistory s) (vr_botCount ?v) (Some 0) (nowMs env 0))
             (toIndexIntents (sr_votes s)) \<lparr>av_leafIndex = 0, av_merklePath = nodes, av_bulletinRootAtCast = pv_rootAtCast (sw_storedVote w)\<rparr>"
    using rest' assms(4) by (auto simp: user_cast_result_def b res_bind_eq_Inr split: if_splits)
  note s = s1 s2
  note P = prepareVote_ok [OF p]
  note S = stageCtVoteWrites_ok [OF s(1) D(1) assms(3) _ D(6) sorted_single]
  have ws: "ws = []" "keeps p w" using S(2) P(1) s(2) by auto
  have l: "log_ok N (id_electionId ?id) (id_logId ?id) [(sw_index w, sw_storedVote w)] (sr_bulletin s) (sr_bulletinRootHistory s)"
    using S(1) P(1) by (simp add: assms(4) s(2) ws staged_votes_def)
  have i: "sw_index w = 0" using log_okD(1) [OF l] by (simp add: keyed_def)
  have l': "log_ok N (id_electionId ?id) (id_logId ?id) (vr_votes ?v @ staged_votes (sr_votes s)) b (sr_bulletinRootHistory s)"
    using l filled_kept [of N "id_logId ?id" _ "sr_bulletin s" "pv_voteId p" "Some 1"] b by (simp add: log_ok_def s(2) ws staged_votes_def assms(4))
  have "ip_proofNodes pr = cast_path N [drop 2 (pv_commit (sw_storedVote w))] 0"
    using filled_proof [OF log_okD(2) [OF l], of 0] b ws(2) P(2) by (simp add: keeps_def MAX_SAFE_INTEGER_def)
  then have "nodes = []" using nodes by (simp add: cast_path_def path_in_def path_spec_small)
  note V = nextVoting_ok [OF l'] this
  show thesis
    by (rule that [OF m, where stored = "sw_storedVote w"])
      (use V l' D P ws i in \<open>simp_all add: s(2) staged_votes_def assms(4) session_inv_def Let_def keeps_def toIndexIntents_def buildNextVoting_def\<close>)
qed


lemma valid_nonempty: "isValidVoteId vid \<Longrightarrow> vid \<noteq> []"
  by (auto simp: isValidVoteId_def uuidV4Regex_def dest: matches_length split: if_splits)

text \<open>The canonical projection of a consistent session.\<close>

lemma projection_ok:
  assumes "buildCanonicalCtSessionProjection N clock fb voting = Inr p" "session_inv N ident voting" "noble_ok N"
  shows "log_ok N (id_electionId ident) (id_logId ident) (vr_votes voting) (cp_bulletin p) (cp_bulletinRootHistory p)"
    "cp_nextIndex p = int (length (vr_votes voting))"
proof -
  note D = session_invD [OF assms(2)]
  note L = log_okD [OF D(1)]
  note C = log_ok_committed [OF assms(3) D(1)]
  from assms(1) obtain b h bots n where p: "p = \<lparr>cp_bulletin = b, cp_bulletinRootHistory = h, cp_botCount = bots,
      cp_userParticipation = resolveCanonicalUserVoteIndex (vr_votes voting) (vr_userParticipation voting), cp_nextIndex = n\<rparr>"
    and b: "rebuildCanonicalBulletinFromVotes N clock voting = Inr b"
    and h: "getCanonicalBulletinRootHistory N fb (vr_votes voting) (vr_bulletinRootHistory voting) = Inr h"
    and n: "assertCanonicalCtVoteIndices (map fst (vr_votes voting)) = Inr n"
    by (auto simp: buildCanonicalCtSessionProjection_def res_bind_eq_Inr)
  have valid: "filter (\<lambda>(_, v). pv_voteId v \<noteq> []) (vr_votes voting) = vr_votes voting"
    using L(4) valid_nonempty by (auto simp: filter_id_conv)
  obtain rs where "append_all N clock 0 (board_votes (vr_votes voting)) (new_board N (Some (logId (vr_bulletin voting)))) = Inr (rs, b)"
    using b by (auto simp: rebuildCanonicalBulletinFromVotes_def res_bind_eq_Inr keyed_sorted [OF L(1)] valid)
  from append_all_filled [OF this, of "id_logId ident" "[]"] C L(2) filled_new [OF assms(3)]
  have "filled N (id_logId ident) (entries (vr_votes voting)) b" by (auto simp: filled_def entries_def list_all_iff)
  moreover have "records_roots N (commits (vr_votes voting)) h"
    using canonical_history [OF assms(3) L(1) D(6) C, of fb "vr_bulletinRootHistory voting"] h by (auto simp: commits_def)
  ultimately show "log_ok N (id_electionId ident) (id_logId ident) (vr_votes voting) (cp_bulletin p) (cp_bulletinRootHistory p)"
    using D(1) by (simp add: p log_ok_def)
  show "cp_nextIndex p = int (length (vr_votes voting))" using n keyed_canonical [OF L(1) D(6)] by (simp add: p)
qed

definition cast_of :: "'a bot_vote_command_scheme \<Rightarrow> 'b prepared_vote_scheme \<Rightarrow> bool" where
  "cast_of c v \<longleftrightarrow> pv_vote v = bv_vote c \<and> normalizeHex True (bv_rand c) = Inr (pv_rand v)"

text \<open>What an accepted batch of bot votes adds.\<close>

lemma bot_writes:
  assumes "res_map (\<lambda>(offset, vote). res_bind (prepareVote N ident (bv_vote vote) (bv_rand vote) (ids offset) (clk offset)) (\<lambda>pv.
              Inr (int n + int offset, pv))) (zip [0..<length votes] votes) = Inr writes"
  shows "list_all (prepared_ok N (id_electionId ident) \<circ> snd) writes" "sorted_votes writes = writes"
    "list_all2 cast_of votes (map snd writes)" "map (pv_voteId \<circ> snd) writes = map ids [0..<length votes]"
proof -
  have len: "length writes = length votes" and w: "\<And>i. i < length votes \<Longrightarrow> fst (writes ! i) = int (n + i) \<and>
      prepareVote N ident (bv_vote (votes ! i)) (bv_rand (votes ! i)) (ids i) (clk i) = Inr (snd (writes ! i))"
    using assms unfolding res_map_eq_Inr by (auto simp: list_all2_conv_all_nth res_bind_eq_Inr dest!: spec split: prod.splits)
      (metis fst_conv, metis snd_conv)
  show "list_all (prepared_ok N (id_electionId ident) \<circ> snd) writes"
    using w prepareVote_ok(1) by (fastforce simp: list_all_length len)
  show "sorted_votes writes = writes"
    by (rule consecutive_sorted [of _ n], rule nth_equalityI) (use w len in auto)
  show "list_all2 cast_of votes (map snd writes)"
    using w prepareVote_ok(3,4) by (fastforce simp: list_all2_conv_all_nth len cast_of_def)
  show "map (pv_voteId \<circ> snd) writes = map ids [0..<length votes]"
    by (rule nth_equalityI) (use w len prepareVote_ok(2) in \<open>fastforce+\<close>)
qed

lemma bot_votes_ok:
  assumes "evaluateBotVoteMutation N env a votes = Inr m" "session_inv N (au_identity a) (au_voting a)" "noble_ok N"
    "vr_botCount (au_voting a) + int (length votes) \<le> BOT_COUNT"
  obtains voting ws where "m = BotVotesAppended voting (toIndexIntents ws)" "session_inv N (au_identity a) voting"
    "vr_votes voting = vr_votes (au_voting a) @ staged_votes ws" "list_all2 cast_of votes (map sw_storedVote ws)"
    "map sw_voteId ws = map (generateVoteId env) [0..<length votes]" "map (pv_voteId \<circ> sw_storedVote) ws = map sw_voteId ws"
proof -
  let ?v = "au_voting a" and ?id = "au_identity a"
  note D = session_invD [OF assms(2)]
  from assms(1) obtain p where u: "resolveCanonicalUserVoteIndex (vr_votes ?v) (vr_userParticipation ?v) = Some 0"
    and p: "buildCanonicalCtSessionProjection N (rebuildClock env) (historyClock env 0) ?v = Inr p"
    and bots: "cp_botCount p = vr_botCount ?v" and u': "resolveCanonicalUserVoteIndex (vr_votes ?v) (cp_userParticipation p) = Some 0"
    by (auto simp: evaluateBotVoteMutation_def assertCanonicalUserVoteIndexForBotVotes_def Let_def res_bind_eq_Inr split: if_splits)
  note P = projection_ok [OF p assms(2,3)]
  have u0: "cp_userParticipation p = Some 0" "0 \<in> fst ` set (vr_votes ?v)"
    using u' by (auto simp: resolveCanonicalUserVoteIndex_def split: option.splits if_splits)
  from assms(1) obtain writes s where
      w: "res_map (\<lambda>(offset, vote). res_bind (prepareVote N ?id (bv_vote vote) (bv_rand vote) (generateVoteId env offset) (nowMs env offset)) (\<lambda>pv.
              Inr (int (length (vr_votes ?v)) + int offset, pv))) (zip [0..<length votes] votes) = Inr writes"
    and s: "stageCtVoteWrites N (stageClock env) (historyClock env 1) (cp_bulletin p) (vr_votes ?v) (cp_bulletinRootHistory p) writes = Inr s"
    and m: "m = BotVotesAppended (buildNextVoting ?v (sr_votes s) (sr_bulletin s) (sr_bulletinRootHistory s)
               (vr_botCount ?v + int (length (sr_votes s))) (Some 0) (nowMs env (length votes))) (toIndexIntents (sr_votes s))"
    by (auto simp: evaluateBotVoteMutation_def assertCanonicalUserVoteIndexForBotVotes_def Let_def res_bind_eq_Inr u p bots u' u0(1) P(2) split: if_splits)
  note W = bot_writes [OF w]
  note S = stageCtVoteWrites_ok [OF s P(1) assms(3) W(1) D(6) W(2)]
  have len: "length (sr_votes s) = length votes" using list_all2_lengthD [OF S(2)] list_all2_lengthD [OF W(3)] by simp
  have "keeps (snd (writes ! i)) (sr_votes s ! i)" if "i < length votes" for i
    using list_all2_nthD2 [OF S(2), of i] that len list_all2_lengthD [OF S(2)] by simp
  note K = this
  show thesis
  proof (rule that [OF m])
    show "vr_votes (buildNextVoting ?v (sr_votes s) (sr_bulletin s) (sr_bulletinRootHistory s) (vr_botCount ?v + int (length (sr_votes s))) (Some 0) (nowMs env (length votes))) =
        vr_votes ?v @ staged_votes (sr_votes s)"
      by (rule nextVoting_ok [OF S(1)])
    then show "session_inv N ?id (buildNextVoting ?v (sr_votes s) (sr_bulletin s) (sr_bulletinRootHistory s) (vr_botCount ?v + int (length (sr_votes s))) (Some 0) (nowMs env (length votes)))"
      using S(1) D assms(4) u0(2) len by (cases "vr_votes ?v") (auto simp: session_inv_def Let_def buildNextVoting_def staged_votes_def BOT_COUNT_def)
    show "list_all2 cast_of votes (map sw_storedVote (sr_votes s))"
      using W(3) K len by (auto simp: list_all2_conv_all_nth cast_of_def keeps_def)
    have "length writes = length votes" using list_all2_lengthD [OF W(3)] by simp
    then show "map sw_voteId (sr_votes s) = map (generateVoteId env) [0..<length votes]"
      unfolding W(4) [symmetric] by (intro nth_equalityI) (use K len in \<open>auto simp: keeps_def\<close>)
    show "map (pv_voteId \<circ> sw_storedVote) (sr_votes s) = map sw_voteId (sr_votes s)"
      by (rule nth_equalityI) (use K len in \<open>auto simp: keeps_def\<close>)
  qed
qed

section \<open>Vote mutations of a session\<close>

fun next_voting :: "vote_mutation \<Rightarrow> session_voting option" where
  "next_voting (UserVoteAppended v _ _) = Some v"
| "next_voting (BotVotesAppended v _) = Some v"
| "next_voting (UserVoteReplayed _) = None"

fun index_intents :: "vote_mutation \<Rightarrow> (string \<times> int) list" where
  "index_intents (UserVoteAppended _ xs _) = xs"
| "index_intents (BotVotesAppended _ xs) = xs"
| "index_intents (UserVoteReplayed _) = []"

lemma admitted_vote:
  assumes "admit_vote N env a command = Inr (Inr m)" "session_inv N (au_identity a) (au_voting a)" "noble_ok N"
  obtains v where "next_voting m = Some v" "session_inv N (au_identity a) v" "au_finalization a = None"
    "vr_votes v = vr_votes (au_voting a) @ drop (length (vr_votes (au_voting a))) (vr_votes v)"
    "index_intents m = map (\<lambda>(i, w). (pv_voteId w, i)) (drop (length (vr_votes (au_voting a))) (vr_votes v))"
proof (cases command)
  case (AppendUserVote vote)
  with assms(1) have e: "evaluateUserVoteMutation N env a vote = Inr m" and n: "au_finalization a = None" "vr_votes (au_voting a) = []"
    by (auto simp: admit_vote_def admitNewUserVote_def Let_def res_bind_eq_Inr split: if_splits)
  obtain v intents r stored where m: "m = UserVoteAppended v intents r" "session_inv N (au_identity a) v" "vr_votes v = [(0, stored)]"
    "pv_voteId stored = uv_voteId vote" "intents = [(uv_voteId vote, 0)]"
    by (rule user_vote_ok [OF e assms(2,3) n(2)])
  show thesis by (rule that [of v]) (use m n in simp_all)
next
  case (AppendBotVotes votes)
  with assms(1) have e: "evaluateBotVoteMutation N env a votes = Inr m" and n: "au_finalization a = None"
    and k: "vr_botCount (au_voting a) + int (length votes) \<le> BOT_COUNT"
    by (auto simp: admit_vote_def Let_def res_bind_eq_Inr split: if_splits)
  obtain v ws where m: "m = BotVotesAppended v (toIndexIntents ws)" "session_inv N (au_identity a) v" "vr_votes v = vr_votes (au_voting a) @ staged_votes ws"
    "map (pv_voteId \<circ> sw_storedVote) ws = map sw_voteId ws"
    using bot_votes_ok [OF e assms(2,3) k] by metis
  show thesis by (rule that [of v]) (use m n in \<open>auto simp: toIndexIntents_def staged_votes_def\<close>)
qed

lemma mutation_ok:
  assumes "evaluateSessionVoteMutation N env a command = Inr (Inr m)" "session_inv N (au_identity a) (au_voting a)" "noble_ok N"
  obtains (replayed) r where "m = UserVoteReplayed r"
  | (appended) v where "next_voting m = Some v" "session_inv N (au_identity a) v" "au_finalization a = None"
    "vr_votes v = vr_votes (au_voting a) @ drop (length (vr_votes (au_voting a))) (vr_votes v)"
    "index_intents m = map (\<lambda>(i, w). (pv_voteId w, i)) (drop (length (vr_votes (au_voting a))) (vr_votes v))"
proof -
  have "admit_vote N env a command = Inr (Inr m) \<or> (\<exists>r. m = UserVoteReplayed r)"
  proof (cases command)
    case (AppendUserVote vote)
    with assms(1) obtain rep where "resolveUserVoteReplay N a vote = Inr rep" by (auto simp: evaluateSessionVoteMutation_def res_bind_eq_Inr)
    with assms(1) AppendUserVote show ?thesis by (cases rep) (auto simp: evaluateSessionVoteMutation_def res_bind_eq_Inr)
  qed (use assms(1) in \<open>simp add: evaluateSessionVoteMutation_def\<close>)
  then show thesis using admitted_vote [OF _ assms(2,3)] that by metis
qed

text \<open>How a consistent session resolves a request for the user's vote.\<close>

lemma replay_resolved:
  assumes "session_inv N (au_identity a) (au_voting a)" "noble_ok N" "vr_votes (au_voting a) = (i, stored) # rest"
  shows "resolveUserVoteReplay N a vote =
    (if pv_vote stored \<noteq> bv_vote vote then Inr Conflict
     else res_bind (normalizeHex False (bv_rand vote)) (\<lambda>r. Inr (if pv_rand stored \<noteq> r then Conflict else Replay stored 0)))"
proof -
  let ?v = "au_voting a"
  note D = session_invD [OF assms(1)]
  note L = log_okD [OF D(1)]
  have i: "i = 0" using L(1) assms(3) by (simp add: keyed_def del: upt_Suc) (simp add: upt_rec)
  have s: "prepared_ok N (id_electionId (au_identity a)) stored" "pv_rootAtCast stored = ''0x'' @ root_at N (commits (vr_votes ?v)) 0"
    using L(4) [of i stored] assms(3) i by auto
  have c: "normalizeHex False (pv_commit stored) = Inr (pv_commit stored)"
    using prepared_committed [OF assms(2) s(1)] normalizeHex_hex64(2) by (metis well_committed_def)
  have h: "hex64 (root_at N (commits (vr_votes ?v)) 0)" unfolding root_at_def by (rule root_hex64 [OF assms(2)])
  have "length (vr_bulletinRootHistory ?v) = length (vr_votes ?v)" using L(3) by (simp add: records_roots_def)
  then obtain snap hs where hs: "vr_bulletinRootHistory ?v = snap # hs" using assms(3) by (cases "vr_bulletinRootHistory ?v") auto
  have "ss_root snap \<in> {root_at N (commits (vr_votes ?v)) 0, ''0x'' @ root_at N (commits (vr_votes ?v)) 0}"
    using L(3) hs by (auto simp: records_roots_def)
  then have r: "normalizeHex False (ss_root snap) = Inr (pv_rootAtCast stored)" "normalizeHex False (pv_rootAtCast stored) = Inr (pv_rootAtCast stored)"
    using h s(2) normalizeHex_hex64 by auto
  show ?thesis
    using s(1) D(5) by (simp add: resolveUserVoteReplay_def Let_def assms(3) i hs c r prepared_ok_def)
qed

end
