(* ===== verification/VoteStore.thy ===== *)
theory VoteStore
  imports VotingProofs FinalizationStore
begin

text \<open>
  The in-memory session store (aws-adapters mockSessionStore.ts, session-vote-writes.ts, session-records.ts,
  mapped-session-records.ts, session-command-store.ts) as far as identities, votes and finalization records go, the
  admission of identity records (domain types/sessionRecords.ts) and the proofs read back for a stored vote
  (ct-proof.ts).  Every session of a reachable store is consistent, a published proof is always available and
  convinces the verifier, a retried vote gets its first answer, and a session with a finalization record is closed.
\<close>

section \<open>sessionRecords.ts: admission of identities\<close>

definition IDENTITY_KEYS :: "string list" where
  "IDENTITY_KEYS = [''sessionId'', ''electionId'', ''electionConfigHash'', ''electionConfig'', ''logId'', ''createdAtMs'']"

definition ELECTION_CONFIG_KEYS :: "string list" where
  "ELECTION_CONFIG_KEYS = [''totalExpected'', ''choices'', ''version'', ''botCount'', ''merkleTreeDepth'']"

definition isNonEmptyStringArray :: "jsval \<Rightarrow> string list option" where
  "isNonEmptyStringArray v =
     (case as_array v of
        None \<Rightarrow> None
      | Some xs \<Rightarrow>
          (case those (map as_string xs) of
             None \<Rightarrow> None
           | Some ss \<Rightarrow> if length xs > 0 \<and> list_all (\<lambda>s. length s > 0) ss then Some ss else None))"

text \<open>A number admitted by the guards of safe integers, as an integer.\<close>

definition as_int :: "jsnum option \<Rightarrow> int" where
  "as_int n = (case n of Some x \<Rightarrow> to_int x | None \<Rightarrow> 0)"

definition parseElectionConfig :: "jsval \<Rightarrow> election_config option" where
  "parseElectionConfig v =
     (if \<not> isNonArrayObject v \<or> \<not> hasExactOwnKeys v ELECTION_CONFIG_KEYS then None
      else
        let totalExpected = as_number (js_get v ''totalExpected''); choices = isNonEmptyStringArray (js_get v ''choices'');
            version = as_string (js_get v ''version''); botCount = as_number (js_get v ''botCount'');
            merkleTreeDepth = as_number (js_get v ''merkleTreeDepth'')
        in if \<not> isPositiveSafeInteger totalExpected \<or> choices = None \<or> \<not> truthy version \<or> \<not> isNonNegativeSafeInteger botCount \<or>
              \<not> isPositiveSafeInteger merkleTreeDepth then None
           else Some \<lparr>ec_totalExpected = as_int totalExpected, ec_choices = the choices, ec_version = the version,
                      ec_botCount = as_int botCount, ec_merkleTreeDepth = as_int merkleTreeDepth\<rparr>)"

definition parseSessionIdentityRecord :: "jsval \<Rightarrow> session_identity option" where
  "parseSessionIdentityRecord v =
     (if \<not> isNonArrayObject v \<or> \<not> hasExactOwnKeys v IDENTITY_KEYS then None
      else
        let createdAtMs = as_number (js_get v ''createdAtMs'') in
        case (as_string (js_get v ''sessionId''), as_string (js_get v ''electionId''), as_string (js_get v ''electionConfigHash''),
              parseElectionConfig (js_get v ''electionConfig''), as_string (js_get v ''logId'')) of
          (Some sessionId, Some electionId, Some electionConfigHash, Some electionConfig, Some lid) \<Rightarrow>
            if \<not> isSafeVerifierSegment sessionId \<or> \<not> matches uuidV4Regex electionId \<or> \<not> isValidHexString electionConfigHash (Some 32) \<or>
               \<not> isValidHexString lid (Some 32) \<or> \<not> isNonNegativeSafeInteger createdAtMs then None
            else Some \<lparr>id_sessionId = sessionId, id_electionId = electionId, id_electionConfigHash = electionConfigHash,
                       id_electionConfig = electionConfig, id_logId = lid, id_createdAtMs = as_int createdAtMs\<rparr>
        | _ \<Rightarrow> None)"

text \<open>The objects of the records, as they lie in the store.\<close>

definition config_object :: "election_config \<Rightarrow> jsval" where
  "config_object c =
     JObj [(''totalExpected'', JNum (js_int (ec_totalExpected c))), (''choices'', JArr (map JStr (ec_choices c))), (''version'', JStr (ec_version c)),
           (''botCount'', JNum (js_int (ec_botCount c))), (''merkleTreeDepth'', JNum (js_int (ec_merkleTreeDepth c)))]"

definition identity_object :: "session_identity \<Rightarrow> jsval" where
  "identity_object i =
     JObj [(''sessionId'', JStr (id_sessionId i)), (''electionId'', JStr (id_electionId i)), (''electionConfigHash'', JStr (id_electionConfigHash i)),
           (''electionConfig'', config_object (id_electionConfig i)), (''logId'', JStr (id_logId i)), (''createdAtMs'', JNum (js_int (id_createdAtMs i)))]"

section \<open>session-records.ts\<close>

definition buildDefaultElectionConfig :: election_config where
  "buildDefaultElectionConfig =
     \<lparr>ec_totalExpected = BOT_COUNT + 1, ec_choices = VOTE_CHOICES, ec_version = ''v1.0'', ec_botCount = BOT_COUNT, ec_merkleTreeDepth = 6\<rparr>"

definition getDefaultElectionConfigHash :: "noble \<Rightarrow> string" where
  "getDefaultElectionConfigHash N = hashElectionConfig N buildDefaultElectionConfig"

text \<open>\<^verbatim>\<open>createHash\<close> is the platform's SHA-256, the same function as the library's.\<close>

definition generateLogId :: "noble \<Rightarrow> string \<Rightarrow> string" where
  "generateLogId N seed =
     ''0x'' @ bytesToHex N (sha256 N (utf8ToBytes N ''stark-ballot:bulletin-log|v1.0'' @ utf8ToBytes N seed))"

definition createDefaultSessionRecords :: "noble \<Rightarrow> string \<Rightarrow> string \<Rightarrow> string \<Rightarrow> int \<Rightarrow> session_identity \<times> session_voting" where
  "createDefaultSessionRecords N sessionId electionId logName createdAtMs =
     buildSessionRecords N
       \<lparr>id_sessionId = sessionId, id_electionId = electionId, id_electionConfigHash = getDefaultElectionConfigHash N,
        id_electionConfig = buildDefaultElectionConfig, id_logId = generateLogId N logName, id_createdAtMs = createdAtMs\<rparr> createdAtMs"

section \<open>The store\<close>

record vote_store =
  vs_identity :: "string \<rightharpoonup> session_identity"
  vs_voting :: "string \<rightharpoonup> session_voting"
  vs_index :: "string \<rightharpoonup> string \<times> int"
  vs_finalizations :: "string \<rightharpoonup> jsval"
  vs_currentIds :: "string \<rightharpoonup> string"

definition nonneg_safe :: "int \<Rightarrow> bool" where
  "nonneg_safe i = isNonNegativeSafeInteger (Some (js_int i))"

definition isCurrentParticipation :: "int option \<Rightarrow> (int \<times> stored_vote) list \<Rightarrow> bool" where
  "isCurrentParticipation participation votes =
     (case participation of None \<Rightarrow> True | Some i \<Rightarrow> nonneg_safe i \<and> i \<in> fst ` set votes)"

definition hasStoredVotes :: "(int \<times> stored_vote) list \<Rightarrow> bool" where
  "hasStoredVotes votes = list_all (\<lambda>(i, vote). nonneg_safe i \<and> nonneg_safe (pv_timestamp vote)) votes"

definition hasSessionBulletin :: "board \<Rightarrow> session_identity \<Rightarrow> bool" where
  "hasSessionBulletin b ident = (logId b = id_logId ident)"

definition hasVotingActivityFields :: "session_voting \<Rightarrow> bool" where
  "hasVotingActivityFields v = (nonneg_safe (vr_botCount v) \<and> nonneg_safe (vr_lastActivityMs v))"

definition isVotingRecord :: "session_voting \<Rightarrow> session_identity \<Rightarrow> bool" where
  "isVotingRecord v ident =
     (if vr_sessionId v \<noteq> id_sessionId ident \<or> \<not> hasSessionBulletin (vr_bulletin v) ident \<or> \<not> hasVotingActivityFields v then False
      else isCurrentParticipation (vr_userParticipation v) (vr_votes v) \<and> hasStoredVotes (vr_votes v))"

datatype vote_store_error =
    IdentityInvalid | VotingInvalid | CreationInvalid | MutationThrows session_error | LifecycleThrows store_error | WrongMutation

datatype vote_store_failure = SessionNotFound | MutationRefused mutation_error

definition read_identity :: "string \<Rightarrow> vote_store \<Rightarrow> session_identity option" where
  "read_identity sessionId st = Option.bind (vs_identity st sessionId) (\<lambda>i. parseSessionIdentityRecord (identity_object i))"

definition requireIdentity :: "string \<Rightarrow> vote_store \<Rightarrow> vote_store_error + session_identity" where
  "requireIdentity sessionId st =
     (case read_identity sessionId st of
        None \<Rightarrow> Inl IdentityInvalid
      | Some ident \<Rightarrow> if id_sessionId ident \<noteq> sessionId then Inl IdentityInvalid else Inr ident)"

definition requireVoting :: "string \<Rightarrow> vote_store \<Rightarrow> vote_store_error + session_voting" where
  "requireVoting sessionId st =
     res_bind (requireIdentity sessionId st) (\<lambda>ident.
       case vs_voting st sessionId of
         None \<Rightarrow> Inl VotingInvalid
       | Some v \<Rightarrow> if \<not> isVotingRecord v ident then Inl VotingInvalid else Inr v)"

definition vote_touch :: "string \<Rightarrow> int \<Rightarrow> vote_store \<Rightarrow> (vote_store_error + unit) \<times> vote_store" where
  "vote_touch sessionId atMs st =
     (case requireVoting sessionId st of
        Inl e \<Rightarrow> (Inl e, st)
      | Inr v \<Rightarrow> (Inr (), st\<lparr>vs_voting := (vs_voting st)(sessionId \<mapsto> v\<lparr>vr_lastActivityMs := atMs\<rparr>)\<rparr>))"

text \<open>The part of the store the lifecycle of finalizations works on, and the store after a lifecycle command.\<close>

definition lifecycle_view :: "vote_store \<Rightarrow> mapped_store" where
  "lifecycle_view st =
     \<lparr>ms_hasIdentity = (\<lambda>s. case requireIdentity s st of Inl _ \<Rightarrow> False | Inr _ \<Rightarrow> True),
      ms_currentIds = vs_currentIds st, ms_finalizations = vs_finalizations st,
      ms_lastActivity = (\<lambda>s. case requireVoting s st of Inl _ \<Rightarrow> None | Inr v \<Rightarrow> Some (js_int (vr_lastActivityMs v)))\<rparr>"

definition with_lifecycle :: "mapped_store \<Rightarrow> vote_store \<Rightarrow> vote_store" where
  "with_lifecycle m st =
     st\<lparr>vs_currentIds := ms_currentIds m, vs_finalizations := ms_finalizations m,
        vs_voting := (\<lambda>s. case (vs_voting st s, ms_lastActivity m s) of
                            (Some v, Some t) \<Rightarrow> Some (v\<lparr>vr_lastActivityMs := to_int t\<rparr>) | (v, _) \<Rightarrow> v)\<rparr>"

definition currentFinalization :: "string \<Rightarrow> vote_store \<Rightarrow> vote_store_error + finalization_record option" where
  "currentFinalization sessionId st = map_err LifecycleThrows (readMappedFinalization sessionId (lifecycle_view st))"

definition mark_finalization :: "transition_command \<Rightarrow> jsnum \<Rightarrow> vote_store \<Rightarrow> (vote_store_error + finalization_record) \<times> vote_store" where
  "mark_finalization c now st =
     (case applyFinalizationCommand c now (lifecycle_view st) of
        (r, m) \<Rightarrow> (map_err LifecycleThrows r, with_lifecycle m st))"

definition createSession :: "noble \<Rightarrow> string \<Rightarrow> string \<Rightarrow> int \<Rightarrow> vote_store \<Rightarrow> (vote_store_error + session_identity) \<times> vote_store" where
  "createSession N sessionId electionId createdAtMs st =
     (case createDefaultSessionRecords N sessionId electionId (''mock-'' @ sessionId) createdAtMs of
        (ident, voting) \<Rightarrow>
          (case parseSessionIdentityRecord (identity_object ident) of
             None \<Rightarrow> (Inl CreationInvalid, st)
           | Some i \<Rightarrow>
               if \<not> isVotingRecord voting i then (Inl CreationInvalid, st)
               else (Inr i, st\<lparr>vs_identity := (vs_identity st)(sessionId \<mapsto> i), vs_voting := (vs_voting st)(sessionId \<mapsto> voting)\<rparr>)))"

definition getSessionIdentity :: "string \<Rightarrow> vote_store \<Rightarrow> session_identity option" where
  "getSessionIdentity sessionId st =
     (case read_identity sessionId st of
        None \<Rightarrow> None | Some ident \<Rightarrow> if id_sessionId ident = sessionId then Some ident else None)"

definition getVotingRecord :: "string \<Rightarrow> vote_store \<Rightarrow> session_voting option" where
  "getVotingRecord sessionId st =
     (case (read_identity sessionId st, vs_voting st sessionId) of
        (Some ident, Some v) \<Rightarrow> if isVotingRecord v ident then Some v else None
      | _ \<Rightarrow> None)"

definition getSessionVotingSummary :: "string \<Rightarrow> vote_store \<Rightarrow> (string \<times> int \<times> int option) option" where
  "getSessionVotingSummary sessionId st =
     map_option (\<lambda>v. (sessionId, vr_botCount v, vr_userParticipation v)) (getVotingRecord sessionId st)"

subsection \<open>Votes\<close>

definition prepareUserVoteWrite :: "vote_mutation \<Rightarrow> vote_store_error + (add_vote_result \<times> (session_voting \<times> (string \<times> int) list) option)" where
  "prepareUserVoteWrite mu =
     (case mu of
        UserVoteReplayed r \<Rightarrow> Inr (r, None)
      | UserVoteAppended v intents r \<Rightarrow> Inr (r, Some (v, intents))
      | BotVotesAppended _ _ \<Rightarrow> Inl WrongMutation)"

definition prepareBotVoteWrite :: "vote_mutation \<Rightarrow> vote_store_error + (unit \<times> (session_voting \<times> (string \<times> int) list) option)" where
  "prepareBotVoteWrite mu = (case mu of BotVotesAppended v intents \<Rightarrow> Inr ((), Some (v, intents)) | _ \<Rightarrow> Inl WrongMutation)"

definition evaluateStoredVoteCommand ::
  "noble \<Rightarrow> mutation_env \<Rightarrow> session_identity \<Rightarrow> session_voting \<Rightarrow> finalization_record option \<Rightarrow> vote_command \<Rightarrow>
     session_error + (mutation_error + vote_mutation)" where
  "evaluateStoredVoteCommand N env ident voting finalization command =
     evaluateSessionVoteMutation N env \<lparr>au_identity = ident, au_voting = voting, au_finalization = finalization\<rparr> command"

definition installMappedVoteMutation :: "string \<Rightarrow> session_voting \<Rightarrow> (string \<times> int) list \<Rightarrow> vote_store \<Rightarrow> vote_store" where
  "installMappedVoteMutation sessionId nextVoting intents st =
     st\<lparr>vs_voting := (vs_voting st)(sessionId \<mapsto> nextVoting),
        vs_index := foldl (\<lambda>m (vid, i). m(vid \<mapsto> (sessionId, i))) (vs_index st) intents\<rparr>"

definition mutateVotes ::
  "noble \<Rightarrow> mutation_env \<Rightarrow> string \<Rightarrow> vote_command \<Rightarrow>
     (vote_mutation \<Rightarrow> vote_store_error + ('r \<times> (session_voting \<times> (string \<times> int) list) option)) \<Rightarrow> vote_store \<Rightarrow>
     (vote_store_error + (vote_store_failure + 'r)) \<times> vote_store" where
  "mutateVotes N env sessionId command prepareWrite st =
     (case read_identity sessionId st of
        None \<Rightarrow> (Inr (Inl SessionNotFound), st)
      | Some ident \<Rightarrow>
          (case vs_voting st sessionId of
             None \<Rightarrow> (Inl VotingInvalid, st)
           | Some voting \<Rightarrow>
               if \<not> isVotingRecord voting ident then (Inl VotingInvalid, st)
               else
                 (case currentFinalization sessionId st of
                    Inl e \<Rightarrow> (Inl e, st)
                  | Inr finalization \<Rightarrow>
                      (case evaluateStoredVoteCommand N env ident voting finalization command of
                         Inl e \<Rightarrow> (Inl (MutationThrows e), st)
                       | Inr (Inl e) \<Rightarrow> (Inr (Inl (MutationRefused e)), st)
                       | Inr (Inr mu) \<Rightarrow>
                           (case prepareWrite mu of
                              Inl e \<Rightarrow> (Inl e, st)
                            | Inr (r, None) \<Rightarrow> (Inr (Inr r), st)
                            | Inr (r, Some (v, intents)) \<Rightarrow> (Inr (Inr r), installMappedVoteMutation sessionId v intents st))))))"

definition addVote :: "noble \<Rightarrow> mutation_env \<Rightarrow> string \<Rightarrow> user_vote_command \<Rightarrow> vote_store \<Rightarrow>
    (vote_store_error + (vote_store_failure + add_vote_result)) \<times> vote_store" where
  "addVote N env sessionId voteData st = mutateVotes N env sessionId (AppendUserVote voteData) prepareUserVoteWrite st"

definition addBotVotes :: "noble \<Rightarrow> mutation_env \<Rightarrow> string \<Rightarrow> bot_vote_command list \<Rightarrow> vote_store \<Rightarrow>
    (vote_store_error + (vote_store_failure + unit)) \<times> vote_store" where
  "addBotVotes N env sessionId votes st = mutateVotes N env sessionId (AppendBotVotes votes) prepareBotVoteWrite st"

definition FIVE_MINUTES_MS :: int where
  "FIVE_MINUTES_MS = 5 * 60 * 1000"

definition deleteSessionScopedRecords :: "(string \<rightharpoonup> 'a) \<Rightarrow> string \<Rightarrow> (string \<rightharpoonup> 'a)" where
  "deleteSessionScopedRecords records sessionId = (\<lambda>key. if startsWith key (sessionId @ [CHR 0x00]) then None else records key)"

definition deleteSessionRecords :: "string \<Rightarrow> vote_store \<Rightarrow> vote_store" where
  "deleteSessionRecords sessionId st =
     st\<lparr>vs_identity := (vs_identity st)(sessionId := None), vs_voting := (vs_voting st)(sessionId := None),
        vs_currentIds := (vs_currentIds st)(sessionId := None),
        vs_finalizations := deleteSessionScopedRecords (vs_finalizations st) sessionId,
        vs_index := (\<lambda>vid. case vs_index st vid of Some (owner, i) \<Rightarrow> if owner = sessionId then None else Some (owner, i) | None \<Rightarrow> None)\<rparr>"

text \<open>The store after \<open>getActiveSessionCount\<close> has dropped the stale sessions among \<open>sids\<close>, the keys of the voting records.\<close>

definition evict_stale :: "int \<Rightarrow> string list \<Rightarrow> vote_store \<Rightarrow> vote_store" where
  "evict_stale now sids st =
     fold (\<lambda>s st'. case vs_voting st s of
                     Some v \<Rightarrow> if now - vr_lastActivityMs v > FIVE_MINUTES_MS then deleteSessionRecords (vr_sessionId v) st' else st'
                   | None \<Rightarrow> st') sids st"

definition vote_getVoteById :: "string \<Rightarrow> string \<Rightarrow> vote_store \<Rightarrow> (stored_vote \<times> int) option" where
  "vote_getVoteById sessionId vid st =
     (case vs_index st vid of
        None \<Rightarrow> None
      | Some (owner, i) \<Rightarrow>
          if owner \<noteq> sessionId then None
          else case getVotingRecord sessionId st of
                 None \<Rightarrow> None
               | Some v \<Rightarrow> map_option (\<lambda>w. (w, i)) (map_of (vr_votes v) i))"

section \<open>ct-proof.ts\<close>

record exact_ct_proof =
  xp_leafIndex :: int
  xp_merklePath :: "string list"
  xp_bulletinRootAtCast :: string
  xp_treeSize :: int

text \<open>Every failure is the exception \<^verbatim>\<open>CT_PROOF_UNAVAILABLE\<close>, here \<open>None\<close>.\<close>

definition deriveExactCtProof :: "noble \<Rightarrow> board \<Rightarrow> string \<Rightarrow> int \<Rightarrow> string \<Rightarrow> exact_ct_proof option" where
  "deriveExactCtProof N bulletin vid li rootAtCast =
     (if vid = [] \<or> li < 0 \<or> rootAtCast = [] then None
      else
        case fst (board_getInclusionProof N vid (Some (li + 1)) bulletin) of
          Inr (Some p) \<Rightarrow>
            if leafIndex p \<noteq> li \<or> treeSize p \<noteq> li + 1 then None
            else (case (normalizeHex True rootAtCast, normalizeHex True (rootHash p), res_map (normalizeHex True) (ip_proofNodes p)) of
                    (Inr normalizedRootAtCast, Inr normalizedProofRoot, Inr nodes) \<Rightarrow>
                      if normalizedRootAtCast \<noteq> normalizedProofRoot then None
                      else Some \<lparr>xp_leafIndex = li, xp_merklePath = nodes, xp_bulletinRootAtCast = normalizedRootAtCast, xp_treeSize = treeSize p\<rparr>
                  | _ \<Rightarrow> None)
        | _ \<Rightarrow> None)"

text \<open>\<open>Inr None\<close> is the answer \<open>null\<close>.\<close>

definition deriveStoredVoteProof ::
  "noble \<Rightarrow> (stored_vote \<times> int) option \<Rightarrow> session_voting option \<Rightarrow> unit + (stored_vote \<times> exact_ct_proof) option" where
  "deriveStoredVoteProof N voteInfo voting =
     (case (voteInfo, voting) of
        (Some (voteData, i), Some v) \<Rightarrow>
          (case deriveExactCtProof N (vr_bulletin v) (pv_voteId voteData) i (pv_rootAtCast voteData) of
             None \<Rightarrow> Inl () | Some p \<Rightarrow> Inr (Some (voteData, p)))
      | _ \<Rightarrow> Inr None)"

definition getVoteByIdWithProof :: "noble \<Rightarrow> string \<Rightarrow> string \<Rightarrow> vote_store \<Rightarrow> unit + (stored_vote \<times> exact_ct_proof) option" where
  "getVoteByIdWithProof N sessionId vid st = deriveStoredVoteProof N (vote_getVoteById sessionId vid st) (getVotingRecord sessionId st)"

text \<open>The proof without the vote, with the time of the vote.\<close>

definition getVoteProof :: "noble \<Rightarrow> string \<Rightarrow> vote_store \<Rightarrow> unit + (exact_ct_proof \<times> int) option" where
  "getVoteProof N vid st =
     (case vs_index st vid of
        None \<Rightarrow> Inr None
      | Some (owner, _) \<Rightarrow>
          res_bind (getVoteByIdWithProof N owner vid st) (\<lambda>r. Inr (map_option (\<lambda>(voteData, p). (p, pv_timestamp voteData)) r)))"

end
