(* ===== verification/VoteStoreProofs.thy ===== *)
theory VoteStoreProofs
  imports VoteStore
begin

text \<open>
  The invariant of the session store over any sequence of its calls, and what it gives: every session is consistent,
  the proof of an indexed vote can be read back, a retried vote gets its first answer, and the votes of a session
  with a finalization record never change.
\<close>

section \<open>Identities\<close>

lemma as_int_js [simp]: "as_int (Some (js_int i)) = i"
  by (simp add: as_int_def)

lemma those_strings: "those (map (as_string \<circ> JStr) ss) = Some ss"
  by (induction ss) auto

lemma config_object_parsed: "parseElectionConfig (config_object c) = Some d \<Longrightarrow> d = c"
  by (auto simp: parseElectionConfig_def config_object_def isNonEmptyStringArray_def those_strings Let_def split: if_splits)

lemma identity_object_parsed: "parseSessionIdentityRecord (identity_object i) = Some j \<Longrightarrow> j = i"
  by (auto simp: parseSessionIdentityRecord_def identity_object_def Let_def dest!: config_object_parsed split: if_splits option.splits)

section \<open>Times of stored votes\<close>

lemma appendVote_time: "appendVote N now vid c b = (Inr r, b') \<Longrightarrow> ar_timestamp r = now"
  by (auto simp: appendVote_def Let_def split: if_splits option.splits sum.splits prod.splits)

lemma stage_loop_times:
  "stage_loop N clock k ws b h = Inr s \<Longrightarrow> w \<in> set (sr_votes s) \<Longrightarrow> \<exists>j. pv_timestamp (sw_storedVote w) = clock j"
proof (induction N clock k ws b h arbitrary: s rule: stage_loop.induct)
  case (2 N clock k i v ws b h)
  from 2(2) obtain r b' where i: "i = int k" and a: "appendVote N (clock k) (pv_voteId v) (drop 2 (pv_commit v)) b = (Inr r, b')"
    by (auto split: if_splits prod.splits sum.splits)
  note t = appendVote_time [OF a]
  from 2(2) obtain rc s' where rc: "normalizeHex True (ar_rootAtAppend r) = Inr rc"
    and s': "stage_loop N clock (Suc k) ws b' (h @ [\<lparr>ss_timestamp = ar_timestamp r, ss_root = ar_rootAtAppend r, ss_treeSize = getSize b', ss_signature = None\<rparr>]) = Inr s'"
    and w: "sw_storedVote w = \<lparr>pv_voteId = pv_voteId v, pv_timestamp = ar_timestamp r, pv_vote = pv_vote v, pv_rand = pv_rand v,
        pv_commit = pv_commit v, pv_rootAtCast = rc\<rparr> \<or> w \<in> set (sr_votes s')"
    using 2(3) i a by (auto simp: res_bind_eq_Inr Let_def)
  show ?case
  proof (cases "w \<in> set (sr_votes s')")
    case True
    then show ?thesis using 2(1) [OF _ a [symmetric] refl rc refl refl s'] i by auto
  qed (use w t in auto)
qed auto

lemma staged_times: "stageCtVoteWrites N clock fb b votes h ws = Inr s \<Longrightarrow> w \<in> set (sr_votes s) \<Longrightarrow> \<exists>j. pv_timestamp (sw_storedVote w) = clock j"
  by (auto simp: stageCtVoteWrites_def Let_def res_bind_eq_Inr split: option.splits intro: stage_loop_times)

lemma updated_votes:
  "(i, v) \<in> set (foldl (\<lambda>vs w. AList.update (sw_index w) (sw_storedVote w) vs) votes ws) \<Longrightarrow> (i, v) \<in> set votes \<or> v \<in> sw_storedVote ` set ws"
proof (induction ws arbitrary: votes)
  case (Cons w ws)
  have "set (AList.update k x al) \<subseteq> insert (k, x) (set al)" for k x and al :: "(int \<times> stored_vote) list" by (induction al) auto
  then show ?case using Cons by fastforce
qed simp

definition clock_ok :: "mutation_env \<Rightarrow> bool" where
  "clock_ok env \<longleftrightarrow> (\<forall>k. nonneg_safe (nowMs env k) \<and> nonneg_safe (stageClock env k) \<and> nonneg_safe (historyClock env k))"

text \<open>The times of a history of roots are safe integers.\<close>

definition history_safe :: "session_snapshot list \<Rightarrow> bool" where
  "history_safe h \<longleftrightarrow> (\<forall>s \<in> set h. nonneg_safe (ss_timestamp s))"

lemma history_safe_simps [simp]: "history_safe []" "history_safe (s # h) \<longleftrightarrow> nonneg_safe (ss_timestamp s) \<and> history_safe h"
  "history_safe (h @ h') \<longleftrightarrow> history_safe h \<and> history_safe h'"
  by (auto simp: history_safe_def)

lemma history_loop_safe:
  assumes "history_loop N fb t ws = Inr hs" "nonneg_safe fb" "\<forall>w \<in> set ws. nonneg_safe (pv_timestamp w)"
  shows "history_safe hs"
  using assms(1,3)
proof (induction ws arbitrary: t hs)
  case (Cons w ws)
  obtain t1 r t2 h where t: "append_leaf (pv_commit w) t = Inr t1" "getRoot N t1 = (Inr r, t2)" "normalizeHex True r = Inr h"
    using Cons.prems(1) by (auto simp: res_bind_eq_Inr split: sum.splits prod.splits)
  with Cons.prems(1) obtain rest where "history_loop N fb t2 ws = Inr rest"
    "hs = \<lparr>ss_timestamp = resolveSnapshotTimestamp w fb, ss_root = h, ss_treeSize = size_of_tree t2, ss_signature = None\<rparr> # rest"
    by (auto simp: res_bind_eq_Inr)
  then show ?case using Cons assms(2) by (auto simp: resolveSnapshotTimestamp_def)
qed simp

lemma persisted_times: "those (map normalizePersistedRootSnapshot h) = Some ps \<Longrightarrow> map ss_timestamp ps = map ss_timestamp h"
proof (induction h arbitrary: ps)
  case (Cons s h)
  then obtain s' ps' where s: "normalizePersistedRootSnapshot s = Some s'" "those (map normalizePersistedRootSnapshot h) = Some ps'" "ps = s' # ps'"
    by (auto split: option.splits)
  have "ss_timestamp s' = ss_timestamp s" using s(1) by (auto simp: normalizePersistedRootSnapshot_def split: if_splits sum.splits)
  then show ?case using Cons.IH [OF s(2)] s(3) by simp
qed simp

lemma canonical_history_safe:
  assumes "getCanonicalBulletinRootHistory N fb votes hist = Inr h" "hasStoredVotes votes" "nonneg_safe fb" "history_safe hist"
  shows "history_safe h"
proof -
  obtain hs where hs: "history_loop N fb new_tree (map snd (sorted_votes votes)) = Inr hs" "h = mergePersistedRootHistory hs (parsePersistedRootHistory hist)"
    using assms(1) by (auto simp: getCanonicalBulletinRootHistory_def rebuildCanonicalHistoryFromVotes_def res_bind_eq_Inr)
  have "history_safe hs"
    by (rule history_loop_safe [OF hs(1) assms(3)]) (use assms(2) in \<open>auto simp: hasStoredVotes_def sorted_votes_def list_all_iff\<close>)
  moreover have "history_safe ps" if "parsePersistedRootHistory hist = Some ps" for ps
  proof -
    have "ss_timestamp ` set ps = ss_timestamp ` set hist"
      using arg_cong [OF persisted_times, of hist ps set] that by (simp add: parsePersistedRootHistory_def)
    moreover have "\<forall>x \<in> ss_timestamp ` set hist. nonneg_safe x" using assms(4) by (auto simp: history_safe_def)
    ultimately show ?thesis unfolding history_safe_def by blast
  qed
  ultimately show ?thesis
    unfolding hs(2) mergePersistedRootHistory_def by (auto simp: history_safe_def dest: set_zip_rightD split: option.splits)
qed

lemma staged_history_safe:
  assumes "stageCtVoteWrites N clock fb b votes h ws = Inr s" "hasStoredVotes votes" "nonneg_safe fb" "history_safe h" "\<forall>k. nonneg_safe (clock k)"
  shows "history_safe (sr_bulletinRootHistory s)"
proof -
  have loop: "history_safe (sr_bulletinRootHistory s)" if "stage_loop N clock k ws b h = Inr s" "history_safe h" for k ws b h s
    using that
  proof (induction ws arbitrary: k b h s)
    case (Cons w ws)
    obtain i v where w: "w = (i, v)" by (cases w)
    from Cons.prems(1) obtain r b' where a: "i = int k" "appendVote N (clock k) (pv_voteId v) (drop 2 (pv_commit v)) b = (Inr r, b')"
      by (auto simp: w split: if_splits prod.splits sum.splits)
    with Cons.prems(1) obtain s1 where s1: "stage_loop N clock (Suc k) ws b' (h @ [\<lparr>ss_timestamp = ar_timestamp r, ss_root = ar_rootAtAppend r, ss_treeSize = getSize b', ss_signature = None\<rparr>]) = Inr s1"
      "sr_bulletinRootHistory s = sr_bulletinRootHistory s1"
      by (auto simp: w Let_def res_bind_eq_Inr)
    show ?case unfolding s1(2) by (rule Cons.IH [OF s1(1)]) (use Cons.prems(2) assms(5) appendVote_time [OF a(2)] in auto)
  qed auto
  from assms(1) obtain h' k b' n where h: "getCanonicalBulletinRootHistory N fb votes h = Inr h'" "stage_loop N clock k (sorted_votes ws) b' (take n h') = Inr s"
    by (auto simp: stageCtVoteWrites_def Let_def res_bind_eq_Inr split: option.splits)
  have "history_safe h'" by (rule canonical_history_safe [OF h(1) assms(2-4)])
  then have "history_safe (take n h')" by (auto simp: history_safe_def dest: in_set_takeD)
  then show ?thesis using loop [OF h(2)] by blast
qed

lemma next_voting_times:
  assumes "\<forall>w \<in> set ws. \<exists>j. pv_timestamp (sw_storedVote w) = stageClock env j" "clock_ok env"
    "v = buildNextVoting voting ws b h bots u (nowMs env k)" "(i, w) \<in> set (vr_votes v)"
  shows "(i, w) \<in> set (vr_votes voting) \<or> nonneg_safe (pv_timestamp w)" "nonneg_safe (vr_lastActivityMs v)"
  using assms updated_votes [of i w "vr_votes voting" ws] by (fastforce simp: buildNextVoting_def clock_ok_def)+

lemma user_cast_staged:
  assumes "user_cast_result N env voting p s w = Inr m" "next_voting m = Some v"
  shows "\<exists>b. v = buildNextVoting voting (sr_votes s) b (sr_bulletinRootHistory s) (vr_botCount voting) (Some (int (length (vr_votes voting)))) (nowMs env 0)"
  using assms by (auto simp: user_cast_result_def Let_def res_bind_eq_Inr split: prod.splits sum.splits option.splits if_splits)

text \<open>A mutation adds votes timed by the clock to a history of safe times.\<close>

lemma mutation_staged:
  assumes "evaluateSessionVoteMutation N env a command = Inr (Inr m)" "next_voting m = Some v" "clock_ok env" "hasStoredVotes (vr_votes (au_voting a))"
    "history_safe (vr_bulletinRootHistory (au_voting a))"
  obtains ws b h bots u k where "\<forall>w \<in> set ws. \<exists>j. pv_timestamp (sw_storedVote w) = stageClock env j" "history_safe h"
    "v = buildNextVoting (au_voting a) ws b h bots u (nowMs env k)"
proof -
  have clk: "\<forall>k. nonneg_safe (stageClock env k)" "nonneg_safe (historyClock env k)" for k using assms(3) by (auto simp: clock_ok_def)
  have "\<exists>ws b h bots u k. (\<forall>w \<in> set ws. \<exists>j. pv_timestamp (sw_storedVote w) = stageClock env j) \<and> history_safe h \<and>
      v = buildNextVoting (au_voting a) ws b h bots u (nowMs env k)"
  proof (cases command)
    case (AppendUserVote vote)
    have "evaluateUserVoteMutation N env a vote = Inr m"
    proof -
      from assms(1) AppendUserVote obtain rep where "resolveUserVoteReplay N a vote = Inr rep" by (auto simp: evaluateSessionVoteMutation_def res_bind_eq_Inr)
      with assms(1,2) AppendUserVote show ?thesis
        by (cases rep) (auto simp: evaluateSessionVoteMutation_def admit_vote_def admitNewUserVote_def Let_def res_bind_eq_Inr split: if_splits)
    qed
    then obtain p s where s: "stageCtVoteWrites N (stageClock env) (historyClock env 0) (vr_bulletin (au_voting a)) (vr_votes (au_voting a))
          (vr_bulletinRootHistory (au_voting a)) [(int (length (vr_votes (au_voting a))), p)] = Inr s"
      and "(case sr_votes s of [] \<Rightarrow> Inl InvariantViolated | w # _ \<Rightarrow> user_cast_result N env (au_voting a) p s w) = Inr m"
      by (auto simp: evaluateUserVoteMutation_def Let_def res_bind_eq_Inr)
    then have "\<exists>b. v = buildNextVoting (au_voting a) (sr_votes s) b (sr_bulletinRootHistory s) (vr_botCount (au_voting a))
        (Some (int (length (vr_votes (au_voting a))))) (nowMs env 0)"
      using user_cast_staged [OF _ assms(2), of N env "au_voting a" p s] by (cases "sr_votes s") auto
    then obtain b where "v = buildNextVoting (au_voting a) (sr_votes s) b (sr_bulletinRootHistory s) (vr_botCount (au_voting a))
        (Some (int (length (vr_votes (au_voting a))))) (nowMs env 0)" by blast
    moreover have "\<forall>w \<in> set (sr_votes s). \<exists>j. pv_timestamp (sw_storedVote w) = stageClock env j" using staged_times [OF s] by blast
    moreover have "history_safe (sr_bulletinRootHistory s)" by (rule staged_history_safe [OF s assms(4) clk(2) assms(5) clk(1)])
    ultimately show ?thesis by blast
  next
    case (AppendBotVotes votes)
    then have "evaluateBotVoteMutation N env a votes = Inr m"
      using assms(1) by (auto simp: evaluateSessionVoteMutation_def admit_vote_def res_bind_eq_Inr split: if_splits)
    then obtain pj ws s bots u where pj: "buildCanonicalCtSessionProjection N (rebuildClock env) (historyClock env 0) (au_voting a) = Inr pj"
      and s: "stageCtVoteWrites N (stageClock env) (historyClock env 1) (cp_bulletin pj) (vr_votes (au_voting a)) (cp_bulletinRootHistory pj) ws = Inr s"
      and m: "m = BotVotesAppended (buildNextVoting (au_voting a) (sr_votes s) (sr_bulletin s) (sr_bulletinRootHistory s) bots u
             (nowMs env (length votes))) (toIndexIntents (sr_votes s))"
      by (auto simp: evaluateBotVoteMutation_def Let_def res_bind_eq_Inr split: if_splits)
    moreover have "\<forall>w \<in> set (sr_votes s). \<exists>j. pv_timestamp (sw_storedVote w) = stageClock env j" using staged_times [OF s] by blast
    moreover have "history_safe (cp_bulletinRootHistory pj)"
      using pj canonical_history_safe [OF _ assms(4) clk(2) assms(5)] by (auto simp: buildCanonicalCtSessionProjection_def res_bind_eq_Inr)
    then have "history_safe (sr_bulletinRootHistory s)" by (rule staged_history_safe [OF s assms(4) clk(2) _ clk(1)])
    ultimately show ?thesis using assms(2) by (metis next_voting.simps(2) option.inject)
  qed
  then show thesis using that by blast
qed

lemma mutation_times:
  assumes "evaluateSessionVoteMutation N env a command = Inr (Inr m)" "next_voting m = Some v" "clock_ok env" "hasStoredVotes (vr_votes (au_voting a))"
    "session_inv N (au_identity a) v" "history_safe (vr_bulletinRootHistory (au_voting a))"
  shows "hasStoredVotes (vr_votes v)" "nonneg_safe (vr_lastActivityMs v)" "history_safe (vr_bulletinRootHistory v)"
proof -
  obtain ws b h bots u k where s: "\<forall>w \<in> set ws. \<exists>j. pv_timestamp (sw_storedVote w) = stageClock env j"
    and hs: "history_safe h" and v: "v = buildNextVoting (au_voting a) ws b h bots u (nowMs env k)"
    by (rule mutation_staged [OF assms(1-4,6)])
  note T = next_voting_times [OF s assms(3) v]
  have n: "nonneg_safe i" if "(i, w) \<in> set (vr_votes v)" for i w
    using keyed_bound [OF log_okD(1) [OF session_invD(1) [OF assms(5)]] that] session_invD(6) [OF assms(5)]
    by (auto simp: nonneg_safe_def isNonNegativeSafeInteger_def)
  show "hasStoredVotes (vr_votes v)"
    unfolding hasStoredVotes_def list_all_iff
  proof clarify
    fix i w assume iw: "(i, w) \<in> set (vr_votes v)"
    then have "nonneg_safe (pv_timestamp w)" using T(1) [OF iw] assms(4) by (auto simp: hasStoredVotes_def list_all_iff)
    then show "nonneg_safe i \<and> nonneg_safe (pv_timestamp w)" using n [OF iw] by simp
  qed
  show "nonneg_safe (vr_lastActivityMs v)" using assms(3) by (simp add: v buildNextVoting_def clock_ok_def)
  show "history_safe (vr_bulletinRootHistory v)" using hs by (simp add: v buildNextVoting_def)
qed


section \<open>The invariant of the store\<close>

lemma voting_record:
  assumes "session_inv N ident v" "hasStoredVotes (vr_votes v)" "nonneg_safe (vr_lastActivityMs v)"
  shows "isVotingRecord v ident"
proof -
  note D = session_invD [OF assms(1)]
  note L = log_okD [OF D(1)]
  have "nonneg_safe (vr_botCount v)" using D(3,4) by (auto simp: nonneg_safe_def isNonNegativeSafeInteger_def MAX_SAFE_INTEGER_def)
  moreover have "isCurrentParticipation (vr_userParticipation v) (vr_votes v)"
  proof (cases "vr_votes v")
    case (Cons w ws)
    then have "fst w = 0" using L(1) by (simp add: keyed_def del: upt_Suc) (simp add: upt_rec)
    then show ?thesis using D(5) Cons by (auto simp: isCurrentParticipation_def nonneg_safe_def isNonNegativeSafeInteger_def MAX_SAFE_INTEGER_def)
  qed (use D(5) in \<open>simp add: isCurrentParticipation_def\<close>)
  moreover have "logId (vr_bulletin v) = id_logId ident" using L(2) by (simp add: filled_def)
  ultimately show ?thesis using D(2) assms(2,3) by (simp add: isVotingRecord_def hasSessionBulletin_def hasVotingActivityFields_def)
qed

definition identities_ok :: "vote_store \<Rightarrow> bool" where
  "identities_ok st \<longleftrightarrow>
     (\<forall>s i. vs_identity st s = Some i \<longrightarrow> parseSessionIdentityRecord (identity_object i) = Some i \<and> id_sessionId i = s)"

definition votings_ok :: "noble \<Rightarrow> vote_store \<Rightarrow> bool" where
  "votings_ok N st \<longleftrightarrow>
     (\<forall>s v. vs_voting st s = Some v \<longrightarrow> (\<exists>i. vs_identity st s = Some i \<and> session_inv N i v \<and> isVotingRecord v i \<and> history_safe (vr_bulletinRootHistory v)))"

definition index_ok :: "vote_store \<Rightarrow> bool" where
  "index_ok st \<longleftrightarrow>
     (\<forall>vid s i. vs_index st vid = Some (s, i) \<longrightarrow>
        (\<exists>v w. vs_voting st s = Some v \<and> map_of (vr_votes v) i = Some w \<and> pv_voteId w = vid))"

definition vote_store_inv :: "noble \<Rightarrow> vote_store \<Rightarrow> bool" where
  "vote_store_inv N st \<longleftrightarrow> identities_ok st \<and> votings_ok N st \<and> index_ok st \<and> store_ok (lifecycle_view st)"

lemma vote_store_invD:
  assumes "vote_store_inv N st"
  shows "vs_identity st s = Some i \<Longrightarrow> read_identity s st = Some i \<and> id_sessionId i = s"
    "vs_voting st s = Some v \<Longrightarrow> \<exists>i. read_identity s st = Some i \<and> vs_identity st s = Some i \<and> session_inv N i v \<and> isVotingRecord v i \<and>
       history_safe (vr_bulletinRootHistory v)"
    "vs_index st vid = Some (s, k) \<Longrightarrow> \<exists>v w. vs_voting st s = Some v \<and> map_of (vr_votes v) k = Some w \<and> pv_voteId w = vid"
    "identities_ok st" "votings_ok N st" "index_ok st" "store_ok (lifecycle_view st)"
  using assms unfolding vote_store_inv_def identities_ok_def votings_ok_def index_ok_def read_identity_def by fastforce+

lemma readings:
  assumes "vote_store_inv N st" "vs_voting st s = Some v" "vs_identity st s = Some i"
  shows "requireIdentity s st = Inr i" "requireVoting s st = Inr v" "getVotingRecord s st = Some v" "getSessionIdentity s st = Some i"
  using vote_store_invD(1) [OF assms(1,3)] vote_store_invD(2) [OF assms(1,2)] assms(2)
  by (auto simp: requireIdentity_def requireVoting_def getVotingRecord_def getSessionIdentity_def)

text \<open>The lifecycle part of the invariant depends on the finalization records only.\<close>

lemma lifecycle_same:
  "vs_finalizations st' = vs_finalizations st \<Longrightarrow> vs_currentIds st' = vs_currentIds st \<Longrightarrow> store_ok (lifecycle_view st') = store_ok (lifecycle_view st)"
  by (rule same_finalizations(2)) (simp_all add: lifecycle_view_def)

lemma read_identity_Some: "read_identity s st = Some i \<Longrightarrow> vs_identity st s = Some i"
  using identity_object_parsed by (auto simp: read_identity_def bind_eq_Some_conv)

subsection \<open>Creating, touching and deleting sessions\<close>

lemma createSession_inv:
  assumes "vote_store_inv N st" "noble_ok N" "vs_voting st sid = None"
  shows "vote_store_inv N (snd (createSession N sid eid t st))"
proof -
  define ident where "ident = fst (createDefaultSessionRecords N sid eid (''mock-'' @ sid) t)"
  define voting where "voting = snd (createDefaultSessionRecords N sid eid (''mock-'' @ sid) t)"
  note defs = createDefaultSessionRecords_def buildSessionRecords_def
  have pair: "createDefaultSessionRecords N sid eid (''mock-'' @ sid) t = (ident, voting)" by (simp add: ident_def voting_def)
  have i: "id_sessionId ident = sid" by (simp add: ident_def defs)
  have v: "session_inv N ident voting" "history_safe (vr_bulletinRootHistory voting)"
    using session_inv_new [OF assms(2), of ident t] by (simp_all add: ident_def voting_def defs)
  show ?thesis
  proof (cases "parseSessionIdentityRecord (identity_object ident) = Some ident \<and> isVotingRecord voting ident")
    case True
    then have "snd (createSession N sid eid t st) =
        st\<lparr>vs_identity := (vs_identity st)(sid \<mapsto> ident), vs_voting := (vs_voting st)(sid \<mapsto> voting)\<rparr>" (is "_ = ?st'")
      unfolding createSession_def pair by simp
    moreover have "identities_ok ?st'" "votings_ok N ?st'" "index_ok ?st'"
      using vote_store_invD(4,5,6) [OF assms(1)] True i v assms(3)
      by (simp add: identities_ok_def, simp add: votings_ok_def, fastforce simp: index_ok_def)
    moreover have "store_ok (lifecycle_view ?st')" using vote_store_invD(7) [OF assms(1)] lifecycle_same [of ?st' st] by simp
    ultimately show ?thesis by (simp add: vote_store_inv_def)
  next
    case False
    then have "snd (createSession N sid eid t st) = st"
      unfolding createSession_def pair using identity_object_parsed [of ident] by (auto split: option.splits)
    then show ?thesis using assms(1) by simp
  qed
qed

text \<open>A store that differs in the times of last activity only.\<close>

lemma session_inv_activity: "session_inv N i (v\<lparr>vr_lastActivityMs := t\<rparr>) = session_inv N i v"
  by (simp add: session_inv_def)

lemma record_activity: "isVotingRecord v i \<Longrightarrow> nonneg_safe t \<Longrightarrow> isVotingRecord (v\<lparr>vr_lastActivityMs := t\<rparr>) i"
  by (simp add: isVotingRecord_def hasVotingActivityFields_def split: if_splits)

lemma activity_inv:
  assumes "vote_store_inv N st" "vs_identity st' = vs_identity st" "vs_index st' = vs_index st" "store_ok (lifecycle_view st')"
    "\<And>s. case vs_voting st s of None \<Rightarrow> vs_voting st' s = None
       | Some v \<Rightarrow> \<exists>t. vs_voting st' s = Some (v\<lparr>vr_lastActivityMs := t\<rparr>) \<and> (t = vr_lastActivityMs v \<or> nonneg_safe t)"
  shows "vote_store_inv N st'"
proof -
  have *: "\<exists>v t. vs_voting st s = Some v \<and> v' = v\<lparr>vr_lastActivityMs := t\<rparr> \<and> (t = vr_lastActivityMs v \<or> nonneg_safe t)" if "vs_voting st' s = Some v'" for s v'
    using assms(5) [of s] that by (auto split: option.splits)
  have "votings_ok N st'"
    unfolding votings_ok_def
  proof (intro allI impI)
    fix s v' assume "vs_voting st' s = Some v'"
    from * [OF this] obtain v t where v: "vs_voting st s = Some v" "v' = v\<lparr>vr_lastActivityMs := t\<rparr>" "t = vr_lastActivityMs v \<or> nonneg_safe t" by blast
    then show "\<exists>i. vs_identity st' s = Some i \<and> session_inv N i v' \<and> isVotingRecord v' i \<and> history_safe (vr_bulletinRootHistory v')"
      using vote_store_invD(2) [OF assms(1) v(1)] record_activity assms(2) by (auto simp: session_inv_activity)
  qed
  moreover have "index_ok st'"
    unfolding index_ok_def
  proof (intro allI impI)
    fix vid s i assume "vs_index st' vid = Some (s, i)"
    then obtain v w where v: "vs_voting st s = Some v" "map_of (vr_votes v) i = Some w" "pv_voteId w = vid"
      using vote_store_invD(3) [OF assms(1)] assms(3) by metis
    moreover obtain t where "vs_voting st' s = Some (v\<lparr>vr_lastActivityMs := t\<rparr>)" using assms(5) [of s] v(1) by auto
    ultimately show "\<exists>v w. vs_voting st' s = Some v \<and> map_of (vr_votes v) i = Some w \<and> pv_voteId w = vid" by fastforce
  qed
  ultimately show ?thesis using assms(2,4) vote_store_invD(4) [OF assms(1)] by (simp add: vote_store_inv_def identities_ok_def)
qed

lemma touch_votings:
  "vote_touch sid t st = (r, st') \<Longrightarrow> st' = st \<or> (\<exists>v. vs_voting st sid = Some v \<and> st' = st\<lparr>vs_voting := (vs_voting st)(sid \<mapsto> v\<lparr>vr_lastActivityMs := t\<rparr>)\<rparr>)"
  by (auto simp: vote_touch_def requireVoting_def res_bind_eq_Inr split: sum.splits option.splits if_splits)

lemma touch_inv:
  assumes "vote_store_inv N st" "nonneg_safe t"
  shows "vote_store_inv N (snd (vote_touch sid t st))"
proof -
  obtain r st' where st': "vote_touch sid t st = (r, st')" by fastforce
  show ?thesis using touch_votings [OF st']
  proof
    assume "\<exists>v. vs_voting st sid = Some v \<and> st' = st\<lparr>vs_voting := (vs_voting st)(sid \<mapsto> v\<lparr>vr_lastActivityMs := t\<rparr>)\<rparr>"
    then obtain v where v: "vs_voting st sid = Some v" "st' = st\<lparr>vs_voting := (vs_voting st)(sid \<mapsto> v\<lparr>vr_lastActivityMs := t\<rparr>)\<rparr>" by blast
    have "vote_store_inv N st'"
    proof (rule activity_inv [OF assms(1)])
      show "store_ok (lifecycle_view st')" using vote_store_invD(7) [OF assms(1)] lifecycle_same [of st' st] v(2) by simp
      show "case vs_voting st s of None \<Rightarrow> vs_voting st' s = None
         | Some v \<Rightarrow> \<exists>t. vs_voting st' s = Some (v\<lparr>vr_lastActivityMs := t\<rparr>) \<and> (t = vr_lastActivityMs v \<or> nonneg_safe t)" for s
      proof (cases "s = sid")
        case False
        then show ?thesis using v by (cases "vs_voting st s") (auto intro!: exI [of _ "vr_lastActivityMs (the (vs_voting st s))"])
      qed (use v assms(2) in auto)
    qed (simp_all add: v(2))
    then show ?thesis using st' by simp
  qed (use assms(1) st' in simp)
qed


lemma other_session_key:
  assumes "CHR 0x00 \<notin> set s" "CHR 0x00 \<notin> set s'" "s \<noteq> s'"
  shows "\<not> startsWith (buildScopedKey s' i) (s @ [CHR 0x00])"
proof
  assume "startsWith (buildScopedKey s' i) (s @ [CHR 0x00])"
  then have "buildScopedKey s' i = s @ [CHR 0x00] @ drop (Suc (length s)) (buildScopedKey s' i)"
    by (metis append.assoc append_take_drop_id length_append_singleton startsWith_def)
  then show False using scoped_key_inj [OF assms(2,1)] assms(3) by (metis buildScopedKey_def)
qed

lemma delete_inv:
  assumes "vote_store_inv N st" "CHR 0x00 \<notin> set s"
  shows "vote_store_inv N (deleteSessionRecords s st)"
proof -
  let ?st = "deleteSessionRecords s st"
  note I = vote_store_invD(4-7) [OF assms(1)]
  have "identities_ok ?st" "votings_ok N ?st" using I(1,2) by (simp_all add: identities_ok_def votings_ok_def deleteSessionRecords_def)
  moreover have "index_ok ?st" using I(3) by (auto simp: index_ok_def deleteSessionRecords_def split: option.splits prod.splits if_splits)
  moreover have "store_ok (lifecycle_view ?st)"
    unfolding store_ok_def
  proof (intro allI impI)
    fix s' i assume "ms_currentIds (lifecycle_view ?st) s' = Some i"
    then have s': "s' \<noteq> s" "ms_currentIds (lifecycle_view st) s' = Some i"
      by (auto simp: lifecycle_view_def deleteSessionRecords_def split: if_splits)
    then obtain r where r: "storable r" "fr_sessionId r = s'" "fr_finalizationId r = i" "vs_finalizations st (buildScopedKey s' i) = Some (record_object r)"
      using I(4) by (auto simp: store_ok_def lifecycle_view_def)
    then have "CHR 0x00 \<notin> set s'" using safe_no_nul by (auto simp: storable_def)
    then have "\<not> startsWith (buildScopedKey s' i) (s @ [CHR 0x00])" using other_session_key [OF assms(2)] s'(1) by metis
    then show "\<exists>r. storable r \<and> fr_sessionId r = s' \<and> fr_finalizationId r = i \<and> ms_finalizations (lifecycle_view ?st) (buildScopedKey s' i) = Some (record_object r)"
      using r by (auto simp: lifecycle_view_def deleteSessionRecords_def deleteSessionScopedRecords_def)
  qed
  ultimately show ?thesis by (simp add: vote_store_inv_def)
qed

lemma parsed_session_safe: "parseSessionIdentityRecord v = Some i \<Longrightarrow> isSafeVerifierSegment (id_sessionId i)"
  by (auto simp: parseSessionIdentityRecord_def Let_def split: if_splits option.splits)

lemma stored_session_safe:
  assumes "vote_store_inv N st" "vs_voting st s = Some v"
  shows "vr_sessionId v = s" "CHR 0x00 \<notin> set s"
proof -
  obtain i where i: "vs_identity st s = Some i" "session_inv N i v" using vote_store_invD(2) [OF assms] by blast
  have "parseSessionIdentityRecord (identity_object i) = Some i" "id_sessionId i = s"
    using vote_store_invD(4) [OF assms(1)] i(1) by (auto simp: identities_ok_def)
  then show "vr_sessionId v = s" "CHR 0x00 \<notin> set s"
    using session_invD(2) [OF i(2)] parsed_session_safe safe_no_nul by fastforce+
qed

lemma evict_inv:
  assumes "vote_store_inv N st"
  shows "vote_store_inv N (evict_stale now sids st)"
proof -
  have "vote_store_inv N (fold (\<lambda>s st'. case vs_voting st s of
      Some v \<Rightarrow> if now - vr_lastActivityMs v > FIVE_MINUTES_MS then deleteSessionRecords (vr_sessionId v) st' else st' | None \<Rightarrow> st') sids st'')"
    if "vote_store_inv N st''" for st''
    using that
  proof (induction sids arbitrary: st'')
    case (Cons s sids)
    show ?case
      using Cons.prems stored_session_safe [OF assms, of s]
      by (cases "vs_voting st s") (auto intro!: Cons.IH delete_inv)
  qed simp
  then show ?thesis using assms by (simp add: evict_stale_def)
qed

subsection \<open>Lifecycle commands\<close>

lemma applied_activity:
  assumes "applyFinalizationCommand c now m = (r, m')"
  shows "ms_lastActivity m' s = ms_lastActivity m s \<or> ms_lastActivity m s \<noteq> None \<and> ms_lastActivity m' s = Some now"
  using assms by (auto simp: applyFinalizationCommand_def touchVotingRecord_def Let_def split: if_splits sum.splits prod.splits option.splits)

lemma lifecycle_inv:
  assumes "vote_store_inv N st" "nonneg_safe now" "mark_finalization c (js_int now) st = (r, st')"
  shows "vote_store_inv N st'"
    "\<And>s. case vs_voting st s of None \<Rightarrow> vs_voting st' s = None | Some v \<Rightarrow> \<exists>t. vs_voting st' s = Some (v\<lparr>vr_lastActivityMs := t\<rparr>)"
    "vs_identity st' = vs_identity st" "vs_currentIds st s \<noteq> None \<Longrightarrow> vs_currentIds st' s \<noteq> None"
proof -
  obtain x m where m: "applyFinalizationCommand c (js_int now) (lifecycle_view st) = (x, m)" "st' = with_lifecycle m st"
    using assms(3) by (auto simp: mark_finalization_def split: prod.splits)
  note ok = vote_store_invD(7) [OF assms(1)]
  have v: "case vs_voting st s of None \<Rightarrow> vs_voting st' s = None
       | Some v \<Rightarrow> \<exists>t. vs_voting st' s = Some (v\<lparr>vr_lastActivityMs := t\<rparr>) \<and> (t = vr_lastActivityMs v \<or> nonneg_safe t)" for s
  proof (cases "vs_voting st s")
    case (Some v)
    obtain i where "vs_identity st s = Some i" using vote_store_invD(2) [OF assms(1) Some] by blast
    then have "ms_lastActivity (lifecycle_view st) s = Some (js_int (vr_lastActivityMs v))"
      using readings(2) [OF assms(1) Some] by (simp add: lifecycle_view_def)
    then obtain t where "ms_lastActivity m s = Some (js_int t)" "t = vr_lastActivityMs v \<or> nonneg_safe t"
      using applied_activity [OF m(1), of s] assms(2) by auto
    then show ?thesis using Some by (auto simp: m(2) with_lifecycle_def)
  qed (simp add: m(2) with_lifecycle_def)
  have "store_ok m" using step_refines(1) [OF ok, of c "js_int now" m] m(1) by (simp add: store_step_def)
  then have "store_ok (lifecycle_view st')"
    using same_finalizations(2) [of "lifecycle_view st'" m] by (simp add: lifecycle_view_def m(2) with_lifecycle_def)
  then show "vote_store_inv N st'" by (intro activity_inv [OF assms(1) _ _ _ v]) (simp_all add: m(2) with_lifecycle_def)
  show "case vs_voting st s of None \<Rightarrow> vs_voting st' s = None | Some w \<Rightarrow> \<exists>t. vs_voting st' s = Some (w\<lparr>vr_lastActivityMs := t\<rparr>)" for s
    using v [of s] by (auto split: option.splits)
  show "vs_identity st' = vs_identity st" by (simp add: m(2) with_lifecycle_def)
  show "vs_currentIds st s \<noteq> None \<Longrightarrow> vs_currentIds st' s \<noteq> None"
    using m by (cases rule: apply_command_cases [OF ok m(1)]) (auto simp: with_lifecycle_def lifecycle_view_def write_record_def)
qed


subsection \<open>Vote commands\<close>

definition faithful_write :: "(vote_mutation \<Rightarrow> vote_store_error + ('r \<times> (session_voting \<times> (string \<times> int) list) option)) \<Rightarrow> bool" where
  "faithful_write prep \<longleftrightarrow> (\<forall>mu x v ints. prep mu = Inr (x, Some (v, ints)) \<longrightarrow> next_voting mu = Some v \<and> index_intents mu = ints)"

lemma faithful_writes: "faithful_write prepareUserVoteWrite" "faithful_write prepareBotVoteWrite"
  by (auto simp: faithful_write_def prepareUserVoteWrite_def prepareBotVoteWrite_def split: vote_mutation.splits)

lemma mutate_cases:
  assumes "mutateVotes N env sid command prep st = (r, st')" "faithful_write prep"
  obtains (same) "st' = st"
  | (installed) ident v mu v' where "read_identity sid st = Some ident" "vs_voting st sid = Some v" "isVotingRecord v ident"
      "\<exists>fin. currentFinalization sid st = Inr fin \<and> evaluateStoredVoteCommand N env ident v fin command = Inr (Inr mu)"
      "next_voting mu = Some v'" "st' = installMappedVoteMutation sid v' (index_intents mu) st"
proof (cases "st' = st")
  case False
  with assms obtain ident v where a: "read_identity sid st = Some ident" "vs_voting st sid = Some v" "isVotingRecord v ident"
    by (auto simp: mutateVotes_def split: option.splits if_splits)
  with assms False obtain fin where f: "currentFinalization sid st = Inr fin"
    by (auto simp: mutateVotes_def split: sum.splits)
  obtain o1 where o1: "evaluateStoredVoteCommand N env ident v fin command = o1" by blast
  have p: "(case o1 of Inl e \<Rightarrow> (Inl (MutationThrows e), st) | Inr (Inl e) \<Rightarrow> (Inr (Inl (MutationRefused e)), st)
      | Inr (Inr mu) \<Rightarrow> (case prep mu of Inl e \<Rightarrow> (Inl e, st) | Inr (r, None) \<Rightarrow> (Inr (Inr r), st)
         | Inr (r, Some (v, intents)) \<Rightarrow> (Inr (Inr r), installMappedVoteMutation sid v intents st))) = (r, st')"
    using assms(1) a f o1 by (simp add: mutateVotes_def)
  with False obtain mu where mu: "o1 = Inr (Inr mu)" by (auto split: sum.splits)
  with p False obtain x v' ints where x: "prep mu = Inr (x, Some (v', ints))" "st' = installMappedVoteMutation sid v' ints st"
    by (auto split: sum.splits option.splits prod.splits)
  with assms(2) have "next_voting mu = Some v'" "index_intents mu = ints" by (auto simp: faithful_write_def)
  then show thesis using installed [OF a] f o1 mu x(2) by blast
qed (rule same)

lemma installed_index:
  "foldl (\<lambda>m (vid, i). m(vid \<mapsto> (sid, i))) idx ints vid = Some (s, k) \<Longrightarrow> idx vid = Some (s, k) \<or> s = sid \<and> (vid, k) \<in> set ints"
proof (induction ints arbitrary: idx)
  case (Cons x ints)
  obtain vid' k' where x: "x = (vid', k')" by (cases x)
  have "(idx(vid' \<mapsto> (sid, k'))) vid = Some (s, k) \<or> s = sid \<and> (vid, k) \<in> set ints" by (rule Cons.IH) (use Cons.prems x in simp)
  then show ?case by (auto simp: x split: if_splits)
qed simp

lemma current_finalization:
  assumes "store_ok (lifecycle_view st)"
  shows "\<exists>f. currentFinalization s st = Inr f \<and> (f = None \<longleftrightarrow> vs_currentIds st s = None)"
  using read_ok [OF assms, of s] by (cases "current_of (lifecycle_view st) s") (auto simp: currentFinalization_def lifecycle_view_def)

text \<open>A vote command leaves the store unchanged, or appends votes to a consistent session without a finalization record.\<close>

lemma mutate_effect:
  assumes "mutateVotes N env sid command prep st = (r, st')" "faithful_write prep" "vote_store_inv N st" "noble_ok N" "clock_ok env"
  obtains (same) "st' = st"
  | (appended) ident v v' ws where "vs_identity st sid = Some ident" "vs_voting st sid = Some v" "session_inv N ident v'"
      "isVotingRecord v' ident \<and> history_safe (vr_bulletinRootHistory v')" "vr_votes v' = vr_votes v @ ws" "vs_currentIds st sid = None"
      "st' = installMappedVoteMutation sid v' (map (\<lambda>(i, w). (pv_voteId w, i)) ws) st"
  using assms(1,2)
proof (cases rule: mutate_cases)
  case (installed ident v mu v')
  note id = read_identity_Some [OF installed(1)]
  have inv: "session_inv N ident v" "history_safe (vr_bulletinRootHistory v)" using vote_store_invD(2) [OF assms(3) installed(2)] id by auto
  obtain fin where f: "currentFinalization sid st = Inr fin" and
    e: "evaluateSessionVoteMutation N env \<lparr>au_identity = ident, au_voting = v, au_finalization = fin\<rparr> command = Inr (Inr mu)"
    using installed(4) by (auto simp: evaluateStoredVoteCommand_def)
  obtain "session_inv N ident v'" "fin = None" "vr_votes v' = vr_votes v @ drop (length (vr_votes v)) (vr_votes v')"
    "index_intents mu = map (\<lambda>(i, w). (pv_voteId w, i)) (drop (length (vr_votes v)) (vr_votes v'))"
    using mutation_ok [OF e] inv(1) assms(4) installed(5) by (metis next_voting.simps(3) option.distinct(1) option.inject session_authority.select_convs)
  note n = this
  have "hasStoredVotes (vr_votes v)" using installed(3) by (auto simp: isVotingRecord_def split: if_splits)
  then have "hasStoredVotes (vr_votes v')" "nonneg_safe (vr_lastActivityMs v')" "history_safe (vr_bulletinRootHistory v')"
    using mutation_times [OF e installed(5) assms(5)] n(1) inv(2) by simp_all
  then have "isVotingRecord v' ident \<and> history_safe (vr_bulletinRootHistory v')" using voting_record [OF n(1)] by simp
  moreover have "vs_currentIds st sid = None" using current_finalization [OF vote_store_invD(7) [OF assms(3)], of sid] f n(2) by auto
  ultimately show thesis using appended [OF id installed(2) n(1) _ n(3)] installed(6) n(4) by simp
qed (rule same)

lemma mutate_inv:
  assumes "mutateVotes N env sid command prep st = (r, st')" "faithful_write prep" "vote_store_inv N st" "noble_ok N" "clock_ok env"
  shows "vote_store_inv N st'"
  using assms
proof (cases rule: mutate_effect)
  case (appended ident v v' ws)
  note I = vote_store_invD(4-7) [OF assms(3)]
  have k: "distinct (map fst (vr_votes v'))" using keyed_distinct [OF log_okD(1) [OF session_invD(1) [OF appended(3)]]] .
  have "identities_ok st'" "votings_ok N st'" using I(1,2) appended by (simp_all add: identities_ok_def votings_ok_def installMappedVoteMutation_def)
  moreover have "index_ok st'"
    unfolding index_ok_def
  proof (intro allI impI)
    fix vid s i assume "vs_index st' vid = Some (s, i)"
    then consider "vs_index st vid = Some (s, i)" | "s = sid" "(vid, i) \<in> set (map (\<lambda>(i, w). (pv_voteId w, i)) ws)"
      using installed_index appended(7) by (fastforce simp: installMappedVoteMutation_def)
    then show "\<exists>v w. vs_voting st' s = Some v \<and> map_of (vr_votes v) i = Some w \<and> pv_voteId w = vid"
    proof cases
      case 1
      then obtain u w where "vs_voting st s = Some u" "map_of (vr_votes u) i = Some w" "pv_voteId w = vid" using vote_store_invD(3) [OF assms(3)] by metis
      then show ?thesis using appended(2,5,7) by (auto simp: installMappedVoteMutation_def map_add_Some_iff)
    next
      case 2
      then obtain w where w: "(i, w) \<in> set ws" "vid = pv_voteId w" by auto
      then have "map_of (vr_votes v') i = Some w" using k appended(5) by (intro map_of_is_SomeI) auto
      then show ?thesis using 2 w(2) appended(7) by (auto simp: installMappedVoteMutation_def)
    qed
  qed
  moreover have "store_ok (lifecycle_view st')" using I(4) lifecycle_same [of st' st] appended(7) by (simp add: installMappedVoteMutation_def)
  ultimately show ?thesis by (simp add: vote_store_inv_def)
qed (use assms(3) in simp)

section \<open>Any sequence of calls\<close>

datatype store_event =
    CreateSession string string int
  | AddVote mutation_env string user_vote_command
  | AddBotVotes mutation_env string "bot_vote_command list"
  | LifecycleCommand transition_command int
  | TouchSession string int
  | EvictStale int "string list"

fun call_store :: "noble \<Rightarrow> store_event \<Rightarrow> vote_store \<Rightarrow> vote_store" where
  "call_store N (CreateSession sid eid t) st = snd (createSession N sid eid t st)"
| "call_store N (AddVote env sid vote) st = snd (addVote N env sid vote st)"
| "call_store N (AddBotVotes env sid votes) st = snd (addBotVotes N env sid votes st)"
| "call_store N (LifecycleCommand c now) st = snd (mark_finalization c (js_int now) st)"
| "call_store N (TouchSession sid t) st = snd (vote_touch sid t st)"
| "call_store N (EvictStale now sids) st = evict_stale now sids st"

text \<open>Random session identifiers are new, and the clock reads safe integers.\<close>

fun event_ok :: "store_event \<Rightarrow> vote_store \<Rightarrow> bool" where
  "event_ok (CreateSession sid _ _) st \<longleftrightarrow> vs_identity st sid = None \<and> vs_voting st sid = None"
| "event_ok (AddVote env _ _) st \<longleftrightarrow> clock_ok env"
| "event_ok (AddBotVotes env _ _) st \<longleftrightarrow> clock_ok env"
| "event_ok (LifecycleCommand _ now) st \<longleftrightarrow> nonneg_safe now"
| "event_ok (TouchSession _ t) st \<longleftrightarrow> nonneg_safe t"
| "event_ok (EvictStale _ _) st \<longleftrightarrow> True"

definition vote_store_step :: "noble \<Rightarrow> vote_store \<Rightarrow> store_event \<Rightarrow> vote_store \<Rightarrow> bool" where
  "vote_store_step N st e st' \<longleftrightarrow> event_ok e st \<and> st' = call_store N e st"

definition empty_store :: vote_store where
  "empty_store = \<lparr>vs_identity = Map.empty, vs_voting = Map.empty, vs_index = Map.empty, vs_finalizations = Map.empty, vs_currentIds = Map.empty\<rparr>"

lemma call_store_inv:
  assumes "vote_store_inv N st" "noble_ok N" "event_ok e st"
  shows "vote_store_inv N (call_store N e st)"
proof (cases e)
  case (AddVote env sid vote)
  then show ?thesis using mutate_inv [OF _ faithful_writes(1) assms(1,2), of env sid] assms(3) by (simp add: addVote_def) (metis prod.collapse)
next
  case (AddBotVotes env sid votes)
  then show ?thesis using mutate_inv [OF _ faithful_writes(2) assms(1,2), of env sid] assms(3) by (simp add: addBotVotes_def) (metis prod.collapse)
next
  case (LifecycleCommand c now)
  then show ?thesis using lifecycle_inv(1) [OF assms(1), of now c] assms(3) by (metis call_store.simps(4) event_ok.simps(4) prod.collapse)
qed (use assms in \<open>auto intro: createSession_inv touch_inv evict_inv\<close>)

interpretation vote_store_calls: invariant_system "\<lambda>st. noble_ok N \<and> st = empty_store" "vote_store_step N" "\<lambda>st. noble_ok N \<and> vote_store_inv N st" for N
proof
  show "noble_ok N \<and> vote_store_inv N st" if "noble_ok N \<and> st = empty_store" for st
    using that by (simp add: vote_store_inv_def identities_ok_def votings_ok_def index_ok_def empty_store_def store_ok_def lifecycle_view_def)
  show "noble_ok N \<and> vote_store_inv N st'" if "noble_ok N \<and> vote_store_inv N st" "vote_store_step N st e st'" for st e st'
    using that call_store_inv by (auto simp: vote_store_step_def)
qed


lemma reachable_store: "noble_ok N \<Longrightarrow> runs (vote_store_step N) empty_store es st \<Longrightarrow> vote_store_inv N st"
  using vote_store_calls.reachable_inv by blast

subsection \<open>What calls keep of a session\<close>

definition evicts :: "store_event \<Rightarrow> bool" where
  "evicts e = (case e of EvictStale _ _ \<Rightarrow> True | _ \<Rightarrow> False)"

text \<open>The identity stays, votes are only appended, and only to a session without a finalization record.\<close>

definition session_le :: "string \<Rightarrow> vote_store \<Rightarrow> vote_store \<Rightarrow> bool" where
  "session_le s st st' \<longleftrightarrow>
     (\<forall>i. vs_identity st s = Some i \<longrightarrow> vs_identity st' s = Some i) \<and>
     (\<forall>v. vs_voting st s = Some v \<longrightarrow> (\<exists>v' ws. vs_voting st' s = Some v' \<and> vr_votes v' = vr_votes v @ ws \<and>
        (vs_currentIds st s \<noteq> None \<longrightarrow> (\<exists>t. v' = v\<lparr>vr_lastActivityMs := t\<rparr>)))) \<and>
     (vs_currentIds st s \<noteq> None \<longrightarrow> vs_currentIds st' s \<noteq> None)"

lemma session_leI:
  assumes "vs_identity st' s = vs_identity st s \<or> vs_identity st s = None" "vs_currentIds st s \<noteq> None \<Longrightarrow> vs_currentIds st' s \<noteq> None"
    "\<And>v. vs_voting st s = Some v \<Longrightarrow> \<exists>t. vs_voting st' s = Some (v\<lparr>vr_lastActivityMs := t\<rparr>)"
  shows "session_le s st st'"
  unfolding session_le_def
proof (intro conjI allI impI)
  fix v assume "vs_voting st s = Some v"
  then obtain t where t: "vs_voting st' s = Some (v\<lparr>vr_lastActivityMs := t\<rparr>)" using assms(3) by blast
  show "\<exists>v' ws. vs_voting st' s = Some v' \<and> vr_votes v' = vr_votes v @ ws \<and> (vs_currentIds st s \<noteq> None \<longrightarrow> (\<exists>t. v' = v\<lparr>vr_lastActivityMs := t\<rparr>))"
    by (rule exI [of _ "v\<lparr>vr_lastActivityMs := t\<rparr>"], rule exI [of _ "[]"]) (use t in auto)
qed (use assms(1,2) in auto)

lemma activity_same: "v = v\<lparr>vr_lastActivityMs := vr_lastActivityMs v\<rparr>"
  by simp

lemma session_le_refl: "session_le s st st"
  by (rule session_leI) (auto intro!: exI activity_same)

lemma mutate_le:
  assumes "mutateVotes N env sid command prep st = (r, st')" "faithful_write prep" "vote_store_inv N st" "noble_ok N" "clock_ok env"
  shows "session_le s st st'"
  using assms
proof (cases rule: mutate_effect)
  case (appended ident v v' ws)
  show ?thesis
  proof (cases "s = sid")
    case True
    then show ?thesis using appended by (auto simp: session_le_def installMappedVoteMutation_def)
  next
    case False
    then show ?thesis using appended(7) by (intro session_leI) (auto simp: installMappedVoteMutation_def intro!: exI activity_same)
  qed
qed (simp add: session_le_refl)

lemma call_store_le:
  assumes "vote_store_inv N st" "noble_ok N" "event_ok e st" "\<not> evicts e"
  shows "session_le s st (call_store N e st)"
proof (cases e)
  case (AddVote env sid vote)
  then show ?thesis using mutate_le [OF _ faithful_writes(1) assms(1,2), of env sid] assms(3) by (simp add: addVote_def) (metis prod.collapse)
next
  case (AddBotVotes env sid votes)
  then show ?thesis using mutate_le [OF _ faithful_writes(2) assms(1,2), of env sid] assms(3) by (simp add: addBotVotes_def) (metis prod.collapse)
next
  case (LifecycleCommand c now)
  obtain r st' where st': "mark_finalization c (js_int now) st = (r, st')" by fastforce
  note L = lifecycle_inv [OF assms(1) _ st']
  have "session_le s st st'"
    by (rule session_leI) (use L(2) [of s] L(3,4) assms(3) LifecycleCommand in \<open>auto split: option.splits\<close>)
  then show ?thesis using LifecycleCommand st' by simp
next
  case (TouchSession sid t)
  obtain r st' where st': "vote_touch sid t st = (r, st')" by fastforce
  have "session_le s st st'"
  proof (rule session_leI)
    fix v assume "vs_voting st s = Some v"
    then have "vs_voting st' s = Some v \<or> vs_voting st' s = Some (v\<lparr>vr_lastActivityMs := t\<rparr>)" using touch_votings [OF st'] by auto
    then show "\<exists>t. vs_voting st' s = Some (v\<lparr>vr_lastActivityMs := t\<rparr>)" using activity_same by metis
  qed (use touch_votings [OF st'] in auto)
  then show ?thesis using TouchSession st' by simp
next
  case (CreateSession sid eid t)
  then have "vs_identity st sid = None" "vs_voting st sid = None" using assms(3) by auto
  then have "session_le s st (snd (createSession N sid eid t st))"
    by (intro session_leI) (auto simp: createSession_def split: prod.splits option.splits intro!: exI activity_same)
  then show ?thesis using CreateSession by simp
qed (use assms(4) in \<open>simp add: evicts_def\<close>)

definition kept_step :: "noble \<Rightarrow> vote_store \<Rightarrow> store_event \<Rightarrow> vote_store \<Rightarrow> bool" where
  "kept_step N st e st' \<longleftrightarrow> noble_ok N \<and> vote_store_inv N st \<and> vote_store_step N st e st' \<and> \<not> evicts e"

lemma session_le_trans:
  assumes "session_le s a b" "session_le s b c"
  shows "session_le s a c"
proof -
  have "\<exists>v' ws. vs_voting c s = Some v' \<and> vr_votes v' = vr_votes v @ ws \<and> (vs_currentIds a s \<noteq> None \<longrightarrow> (\<exists>t. v' = v\<lparr>vr_lastActivityMs := t\<rparr>))"
    if v: "vs_voting a s = Some v" for v
  proof -
    obtain v1 ws1 where v1: "vs_voting b s = Some v1" "vr_votes v1 = vr_votes v @ ws1" "vs_currentIds a s \<noteq> None \<longrightarrow> (\<exists>t. v1 = v\<lparr>vr_lastActivityMs := t\<rparr>)"
      using assms(1) v unfolding session_le_def by blast
    obtain v2 ws2 where v2: "vs_voting c s = Some v2" "vr_votes v2 = vr_votes v1 @ ws2" "vs_currentIds b s \<noteq> None \<longrightarrow> (\<exists>t. v2 = v1\<lparr>vr_lastActivityMs := t\<rparr>)"
      using assms(2) v1(1) unfolding session_le_def by blast
    have "\<exists>t. v2 = v\<lparr>vr_lastActivityMs := t\<rparr>" if "vs_currentIds a s \<noteq> None"
      using v1(3) v2(3) assms(1) that by (auto simp: session_le_def)
    then show ?thesis using v1(2) v2(1,2) by auto
  qed
  then show ?thesis using assms by (simp add: session_le_def)
qed

interpretation session_history: monotone_system "kept_step N" "session_le s" for N s
proof
  show "session_le s a a" for a by (rule session_le_refl)
  show "session_le s a c" if "session_le s a b" "session_le s b c" for a b c using session_le_trans that by blast
  show "session_le s st st'" if "kept_step N st e st'" for st e st' using that call_store_le by (auto simp: kept_step_def vote_store_step_def)
qed

lemma session_runs_kept:
  assumes "runs (vote_store_step N) st es st'" "noble_ok N" "vote_store_inv N st" "list_all (\<lambda>e. \<not> evicts e) es"
  shows "runs (kept_step N) st es st'"
  using assms
proof (induction rule: runs.induct)
  case (runs_Cons st e st1 es st2)
  then show ?case using call_store_inv by (auto simp: kept_step_def vote_store_step_def intro!: runs.runs_Cons)
qed (simp add: runs.intros)

lemma session_kept:
  assumes "runs (vote_store_step N) st es st'" "noble_ok N" "vote_store_inv N st" "list_all (\<lambda>e. \<not> evicts e) es"
  shows "session_le s st st'" "vote_store_inv N st'"
  using session_history.runs_le [OF session_runs_kept [OF assms]] vote_store_calls.runs_inv [OF assms(1)] assms(2,3) by blast+


section \<open>The answer to a user vote\<close>

lemma first_index: "keyed ((i, w) # ws) \<Longrightarrow> i = 0"
  by (simp add: keyed_def del: upt_Suc) (simp add: upt_rec)

lemma replayed:
  assumes "session_inv N (au_identity a) (au_voting a)" "noble_ok N" "vr_votes (au_voting a) = (i, stored) # rest"
  shows "replayed_result N a stored 0 = Inr \<lparr>av_leafIndex = 0, av_merklePath = [], av_bulletinRootAtCast = pv_rootAtCast stored\<rparr>"
proof -
  note D = session_invD [OF assms(1)]
  obtain b' where "board_getInclusionProof N (fst (entries (vr_votes (au_voting a)) ! 0)) (Some (int 0 + 1)) (vr_bulletin (au_voting a)) =
    (Inr (Some \<lparr>leafIndex = int 0, ip_proofNodes = cast_path N (map snd (entries (vr_votes (au_voting a)))) 0, treeSize = int 0 + 1,
       rootHash = root_at N (map snd (entries (vr_votes (au_voting a)))) 0\<rparr>), b')"
    using filled_proof [OF log_okD(2) [OF D(1)], of 0] D(6) assms(3) by (auto simp del: snd_entries(1))
  moreover have "fst (entries (vr_votes (au_voting a)) ! 0) = pv_voteId stored" by (simp add: assms(3) entries_def entry_of_def)
  moreover have "cast_path N cs 0 = []" for cs by (simp add: cast_path_def path_in_def path_spec_small)
  ultimately show ?thesis by (simp add: replayed_result_def)
qed

lemma user_vote_answer:
  assumes "evaluateSessionVoteMutation N env a (AppendUserVote vote) = Inr (Inr mu)" "session_inv N (au_identity a) (au_voting a)" "noble_ok N"
    "prepareUserVoteWrite mu = Inr (r, w)"
  obtains stored rest where "pv_vote stored = bv_vote vote" "normalizeHex True (bv_rand vote) = Inr (pv_rand stored)"
    "r = \<lparr>av_leafIndex = 0, av_merklePath = [], av_bulletinRootAtCast = pv_rootAtCast stored\<rparr>"
    "(case w of None \<Rightarrow> vr_votes (au_voting a) | Some (v, _) \<Rightarrow> vr_votes v) = (0, stored) # rest"
proof (cases "vr_votes (au_voting a)")
  case Nil
  then have "vr_userParticipation (au_voting a) = None" using session_invD(5) [OF assms(2)] by simp
  then have e: "evaluateUserVoteMutation N env a vote = Inr mu"
    using assms(1) by (auto simp: evaluateSessionVoteMutation_def resolveUserVoteReplay_def Let_def admit_vote_def admitNewUserVote_def res_bind_eq_Inr split: if_splits)
  show thesis
    by (rule user_vote_ok [OF e assms(2,3) Nil], rule that) (use assms(4) in \<open>auto simp: prepareUserVoteWrite_def\<close>)
next
  case (Cons iw rest)
  obtain i stored where iw: "iw = (i, stored)" by (cases iw)
  note R = replay_resolved [OF assms(2,3) Cons [unfolded iw], of vote]
  have i: "i = 0" using first_index log_okD(1) [OF session_invD(1) [OF assms(2)]] Cons iw by metis
  have n: "admit_vote N env a (AppendUserVote vote) \<noteq> Inr (Inr mu)"
    using Cons by (auto simp: admit_vote_def admitNewUserVote_def Let_def split: if_splits)
  with assms(1) R have v: "pv_vote stored = bv_vote vote" "normalizeHex False (bv_rand vote) = Inr (pv_rand stored)"
    and r: "res_bind (replayed_result N a stored 0) (\<lambda>r. Inr (Inr (UserVoteReplayed r))) = Inr (Inr mu)"
    by (auto simp: evaluateSessionVoteMutation_def res_bind_eq_Inr split: if_splits)
  have "normalizeHex True (bv_rand vote) = Inr (pv_rand stored)" using v(2) by (auto simp: normalizeHex_def Let_def split: if_splits)
  then show thesis using that [of stored rest] v r replayed [OF assms(2,3) Cons [unfolded iw]] assms(4) Cons iw i
    by (auto simp: prepareUserVoteWrite_def)
qed

lemma addVote_stored:
  assumes "addVote N env sid vote st = (Inr (Inr r), st')" "vote_store_inv N st" "noble_ok N" "clock_ok env"
  obtains v stored rest where "vs_voting st' sid = Some v" "vr_votes v = (0, stored) # rest" "pv_vote stored = bv_vote vote"
    "normalizeHex True (bv_rand vote) = Inr (pv_rand stored)" "r = \<lparr>av_leafIndex = 0, av_merklePath = [], av_bulletinRootAtCast = pv_rootAtCast stored\<rparr>"
proof -
  obtain ident v fin mu w where a: "read_identity sid st = Some ident" "vs_voting st sid = Some v"
    "evaluateStoredVoteCommand N env ident v fin (AppendUserVote vote) = Inr (Inr mu)" "prepareUserVoteWrite mu = Inr (r, w)"
    "st' = (case w of None \<Rightarrow> st | Some (v', ints) \<Rightarrow> installMappedVoteMutation sid v' ints st)"
    using assms(1) by (auto simp: addVote_def mutateVotes_def split: option.splits if_splits sum.splits)
  have inv: "session_inv N ident v" using vote_store_invD(2) [OF assms(2) a(2)] a(1) by auto
  obtain stored rest where s: "pv_vote stored = bv_vote vote" "normalizeHex True (bv_rand vote) = Inr (pv_rand stored)"
    "r = \<lparr>av_leafIndex = 0, av_merklePath = [], av_bulletinRootAtCast = pv_rootAtCast stored\<rparr>"
    "(case w of None \<Rightarrow> vr_votes v | Some (v, _) \<Rightarrow> vr_votes v) = (0, stored) # rest"
    by (rule user_vote_answer [OF a(3) [unfolded evaluateStoredVoteCommand_def] _ assms(3) a(4), unfolded session_authority.simps, OF inv])
  show thesis
  proof (cases w)
    case None
    then show thesis using that [of v stored rest] a(2,5) s by simp
  next
    case (Some vi)
    then show thesis using that [of "fst vi" stored rest] a(5) s by (cases vi) (simp add: installMappedVoteMutation_def)
  qed
qed

lemma addVote_retry:
  assumes "vote_store_inv N st" "noble_ok N" "vs_voting st sid = Some v" "vr_votes v = (0, stored) # rest"
    "pv_vote stored = bv_vote vote" "normalizeHex False (bv_rand vote) = Inr (pv_rand stored)"
  shows "addVote N env sid vote st = (Inr (Inr \<lparr>av_leafIndex = 0, av_merklePath = [], av_bulletinRootAtCast = pv_rootAtCast stored\<rparr>), st)"
proof -
  obtain i where i: "read_identity sid st = Some i" "session_inv N i v" "isVotingRecord v i" using vote_store_invD(2) [OF assms(1,3)] by blast
  obtain fin where f: "currentFinalization sid st = Inr fin" using current_finalization [OF vote_store_invD(7) [OF assms(1)]] by blast
  let ?a = "\<lparr>au_identity = i, au_voting = v, au_finalization = fin\<rparr>"
  have "session_inv N (au_identity ?a) (au_voting ?a)" "vr_votes (au_voting ?a) = (0, stored) # rest" using i assms(4) by simp_all
  note R = replay_resolved [OF this(1) assms(2) this(2), of vote] replayed [OF this(1) assms(2) this(2)]
  have "evaluateStoredVoteCommand N env i v fin (AppendUserVote vote) =
      Inr (Inr (UserVoteReplayed \<lparr>av_leafIndex = 0, av_merklePath = [], av_bulletinRootAtCast = pv_rootAtCast stored\<rparr>))"
    using R assms(5,6) by (simp add: evaluateStoredVoteCommand_def evaluateSessionVoteMutation_def)
  then show ?thesis using i assms(3) f by (simp add: addVote_def mutateVotes_def prepareUserVoteWrite_def)
qed


section \<open>A first vote is accepted\<close>

lemma matches_take: "matches (ps @ qs) s \<Longrightarrow> matches ps (take (length ps) s) \<and> matches qs (drop (length ps) s)"
proof (induction ps arbitrary: s)
  case (Cons p ps)
  then show ?case by (cases s) auto
qed simp

lemma matches_append: "matches (ps @ qs) s \<Longrightarrow> \<exists>a b. s = a @ b \<and> matches ps a \<and> matches qs b"
  using matches_take by (metis append_take_drop_id)

lemma matches_replicate: "matches (replicate n p) s \<longleftrightarrow> length s = n \<and> list_all p s"
proof (induction n arbitrary: s)
  case 0
  then show ?case by (cases s) auto
next
  case (Suc n)
  then show ?case by (cases s) auto
qed

lemma matches_single: "matches [p] s \<longleftrightarrow> (\<exists>c. s = [c] \<and> p c)"
  using matches_replicate [of 1 p s] by (cases s) auto

lemma hex_not_dash: "list_all is_hex_char s \<Longrightarrow> filter (\<lambda>c. c \<noteq> CHR ''-'') s = s"
proof -
  have "\<not> is_hex_char CHR ''-''" by code_simp
  then show "list_all is_hex_char s \<Longrightarrow> filter (\<lambda>c. c \<noteq> CHR ''-'') s = s" by (auto simp: filter_id_conv list_all_iff)
qed

text \<open>A pattern all of whose matches have \<open>n\<close> hexadecimal digits once the dashes are dropped.\<close>

definition digits_of :: "(char \<Rightarrow> bool) list \<Rightarrow> nat \<Rightarrow> bool" where
  "digits_of ps n \<longleftrightarrow>
     (\<forall>s. matches ps s \<longrightarrow> list_all is_hex_char (filter (\<lambda>c. c \<noteq> CHR ''-'') s) \<and> length (filter (\<lambda>c. c \<noteq> CHR ''-'') s) = n)"

lemma digits_append: "digits_of ps m \<Longrightarrow> digits_of qs n \<Longrightarrow> digits_of (ps @ qs) (m + n)"
  unfolding digits_of_def using matches_append [of ps qs] by fastforce

lemma digits_basic:
  "digits_of (replicate n is_hex_char) n" "digits_of [is_dash] 0" "(\<And>c. p c \<Longrightarrow> is_hex_char c) \<Longrightarrow> digits_of [p] 1"
proof -
  show "digits_of (replicate n is_hex_char) n" "digits_of [is_dash] 0"
    by (auto simp: digits_of_def matches_replicate matches_single hex_not_dash is_dash_def)
  show "digits_of [p] 1" if "\<And>c. p c \<Longrightarrow> is_hex_char c"
    using that hex_not_dash [of "[c]" for c] by (fastforce simp: digits_of_def matches_single)
qed

lemma uuid_digits: "digits_of uuidV4Regex 32"
proof -
  have h: "list_all is_hex_char ''489abAB''" by code_simp
  have p: "digits_of [\<lambda>c. c = CHR ''4''] 1" "digits_of [\<lambda>c. c \<in> set ''89abAB''] 1"
    using h by - (rule digits_basic(3), fastforce)+
  have "digits_of uuidV4Regex (8 + (0 + (4 + (0 + (1 + (3 + (0 + (1 + (3 + (0 + 12))))))))))"
    unfolding uuidV4Regex_def by (intro digits_append digits_basic(1,2) p)
  then show ?thesis by simp
qed


lemma strict_bytes:
  assumes "noble_ok N" "list_all is_hex_char h" "even (length h)" "h \<noteq> []" "normalizeHexString s = toLowerCase h"
  shows "\<exists>bs. zk_hexToBytesStrict N s = Inr bs"
proof -
  have "list_all is_lower_hex (toLowerCase h)" "list_all is_hex_char (toLowerCase h)" "length (toLowerCase h) = length h" "toLowerCase h \<noteq> []"
    using assms(2,4) by (auto simp: list_all_iff toLowerCase_def is_lower_hex_hex)
  moreover from this have "hexToBytes N (toLowerCase h) \<noteq> None" using assms(1,3) by (simp add: noble_ok_def)
  ultimately show ?thesis using assms(3,5) by (auto simp: zk_hexToBytesStrict_def Let_def)
qed

lemma printed_of_hex: "list_all is_hex_char h \<Longrightarrow> normalizeHexString h = toLowerCase h"
  using startsWith_x_not_hex [of h] by (auto simp: normalizeHexString_def toLowerCase_def)

lemma hex64_bytes:
  assumes "noble_ok N" "hex64 x"
  shows "\<exists>bs. zk_hexToBytesStrict N (''0x'' @ x) = Inr bs"
proof -
  have "length x = 64" using assms(2) by (simp add: hex64_def)
  then show ?thesis using strict_bytes [OF assms(1) hex64_hex [OF assms(2)], of "''0x'' @ x"] hex64_normal(2) [OF assms(2)] hex64_lower [OF assms(2)] by force
qed

lemma commitment_defined:
  assumes "noble_ok N" "matches uuidV4Regex e" "hex64 x"
  shows "\<exists>c. computeCommitment N e k (''0x'' @ x) = Inr c"
proof -
  let ?d = "filter (\<lambda>c. c \<noteq> CHR ''-'') e"
  have d: "list_all is_hex_char ?d" "length ?d = 32" using uuid_digits assms(2) by (auto simp: digits_of_def)
  then have "?d \<noteq> []" by auto
  then obtain b where b: "zk_hexToBytesStrict N ?d = Inr b"
    using strict_bytes [OF assms(1) d(1) _ _ printed_of_hex [OF d(1)]] d(2) by auto
  with hex64_bytes [OF assms(1,3)] show ?thesis by (auto simp: computeCommitment_def toUuidBytes_def)
qed

text \<open>A random value of at most 32 bytes in hexadecimal, possibly empty.\<close>

definition short_hex :: "string \<Rightarrow> bool" where
  "short_hex v \<longleftrightarrow> list_all is_hex_char (strip_prefix v) \<and> length (strip_prefix v) \<le> 64"

lemma short_hex_normal:
  assumes "short_hex v"
  shows "\<exists>x. normalizeHex True v = Inr (''0x'' @ x) \<and> hex64 x"
proof -
  have z: "is_lower_hex CHR ''0''" "toLowerCase (replicate k CHR ''0'') = replicate k CHR ''0''" for k
    by (code_simp, induction k) (simp_all add: toLowerCase_def, code_simp)
  have low: "list_all is_lower_hex (toLowerCase s)" "length (toLowerCase s) = length s" if "list_all is_hex_char s" for s
    using that by (auto simp: list_all_iff toLowerCase_def)
  have "hex64 (replicate 64 CHR ''0'')" using z(1) by (simp add: hex64_def canonical_hex_def list_all_iff)
  moreover have pad: "hex64 (toLowerCase (replicate (64 - length s) CHR ''0'' @ s))" if "list_all is_hex_char s" "length s \<le> 64" for s
    using low [OF that(1)] that(2) z is_lower_hex_hex [OF z(1)] by (auto simp: hex64_def canonical_hex_def list_all_iff toLowerCase_def)
  moreover from pad [of "strip_prefix v"] have "hex64 (toLowerCase (strip_prefix v))" if "list_all is_hex_char (strip_prefix v)" "length (strip_prefix v) = 64"
    using that by simp
  ultimately show ?thesis
    using assms by (auto simp: short_hex_def normalizeHex_def Let_def zeroHex_def)
qed


lemma hex64_valid: "hex64 h \<Longrightarrow> isValidHexString h (Some 32)"
  by (auto simp: isValidHexString_def hex64_def canonical_hex_def Let_def)

lemma sorted_votes_Nil [simp]: "sorted_votes [] = []"
  by (simp add: sorted_votes_def js_sort_def)

text \<open>Staging one vote on an empty log.\<close>

lemma stage_first:
  assumes "noble_ok N" "prepared_ok N eid p" "isValidVoteId (pv_voteId p)"
  obtains s w where "stageCtVoteWrites N clock fb b [] h [(0, p)] = Inr s" "sr_votes s = [w]" "pv_rootAtCast (sw_storedVote w) \<noteq> []"
    "filled N (logId b) [(pv_voteId p, drop 2 (pv_commit p))] (sr_bulletin s)"
proof -
  let ?b = "new_board N (Some (logId b))" and ?c = "drop 2 (pv_commit p)"
  have c: "hex64 ?c" using prepared_committed [OF assms(1,2)] by (simp add: well_committed_def)
  have "vote_acceptable (pv_voteId p) ?c ?b"
    using assms(3) hex64_valid [OF c] c by (simp add: vote_acceptable_def new_board_def MAX_SAFE_INTEGER_def)
  then obtain r b' where app: "appendVote N (clock 0) (pv_voteId p) ?c ?b = (Inr r, b')"
    using appendVote_accepts [OF board_inv_new [OF assms(1)], of "pv_voteId p" ?c "Some (logId b)" "clock 0"] by (auto simp: Let_def)
  note f = filled_append [OF filled_new [OF assms(1)] c app]
  have r: "hex64 (ar_rootAtAppend r)" unfolding f(5) by (simp add: root_at_def root_hex64 [OF assms(1)])
  obtain h' where h: "getCanonicalBulletinRootHistory N fb [] h = Inr h'"
    using canonical_history [OF assms(1), of "[]" fb h] by (auto simp: keyed_def MAX_SAFE_INTEGER_def)
  have "assertCanonicalCtVoteIndices [] = Inr 0" by (simp add: assertCanonicalCtVoteIndices_def js_sort_def)
  then show thesis using that f(1) r app h by (auto simp: stageCtVoteWrites_def Let_def)
qed

lemma first_vote_evaluates:
  assumes "noble_ok N" "session_inv N ident v" "vr_votes v = []" "matches uuidV4Regex (id_electionId ident)"
    "isValidVoteId (uv_voteId vote)" "short_hex (bv_rand vote)"
  shows "\<exists>v' ints r. evaluateSessionVoteMutation N env \<lparr>au_identity = ident, au_voting = v, au_finalization = None\<rparr> (AppendUserVote vote) =
      Inr (Inr (UserVoteAppended v' ints r))"
proof -
  note D = session_invD [OF assms(2)]
  obtain x where x: "normalizeHex True (bv_rand vote) = Inr (''0x'' @ x)" "hex64 x" using short_hex_normal [OF assms(6)] by blast
  obtain c where c: "computeCommitment N (id_electionId ident) (choice_number (bv_vote vote)) (''0x'' @ x) = Inr c"
    using commitment_defined [OF assms(1,4) x(2)] by blast
  let ?p = "\<lparr>pv_voteId = uv_voteId vote, pv_timestamp = uv_timestamp vote, pv_vote = bv_vote vote, pv_rand = ''0x'' @ x, pv_commit = c\<rparr>"
  have p: "prepareVote N ident (bv_vote vote) (bv_rand vote) (uv_voteId vote) (uv_timestamp vote) = Inr ?p"
    using x c by (simp add: prepareVote_def)
  obtain s w where s: "stageCtVoteWrites N (stageClock env) (historyClock env 0) (vr_bulletin v) [] (vr_bulletinRootHistory v) [(0, ?p)] = Inr s"
    "sr_votes s = [w]" "pv_rootAtCast (sw_storedVote w) \<noteq> []" "filled N (logId (vr_bulletin v)) [(pv_voteId ?p, drop 2 (pv_commit ?p))] (sr_bulletin s)"
    by (rule stage_first [OF assms(1) prepareVote_ok(1) [OF p]]) (use assms(5) in simp_all)
  obtain pr b where b: "board_getInclusionProof N (uv_voteId vote) (Some 1) (sr_bulletin s) = (Inr (Some pr), b)" "ip_proofNodes pr = []"
    using filled_proof [OF s(4), of 0] by (auto simp: MAX_SAFE_INTEGER_def cast_path_def path_in_def path_spec_small)
  have "vr_userParticipation v = None" using D(5) assms(3) by simp
  then show ?thesis
    using p s b assms(3)
    by (simp add: evaluateSessionVoteMutation_def resolveUserVoteReplay_def admit_vote_def admitNewUserVote_def evaluateUserVoteMutation_def
        user_cast_result_def Let_def)
qed

lemma parsed_election: "parseSessionIdentityRecord r = Some i \<Longrightarrow> matches uuidV4Regex (id_electionId i)"
  by (auto simp: parseSessionIdentityRecord_def Let_def split: if_splits option.splits)

lemma first_vote_stored:
  assumes "noble_ok N" "vote_store_inv N st" "vs_voting st sid = Some v" "vr_votes v = []" "vs_currentIds st sid = None"
    "isValidVoteId (uv_voteId vote)" "short_hex (bv_rand vote)"
  shows "\<exists>r st'. addVote N env sid vote st = (Inr (Inr r), st')"
proof -
  obtain i where i: "read_identity sid st = Some i" "vs_identity st sid = Some i" "session_inv N i v" "isVotingRecord v i"
    using vote_store_invD(2) [OF assms(2,3)] by blast
  have "matches uuidV4Regex (id_electionId i)"
    using i(1) parsed_election by (auto simp: read_identity_def bind_eq_Some_conv)
  moreover obtain "currentFinalization sid st = Inr None"
    using current_finalization [OF vote_store_invD(7) [OF assms(2)], of sid] assms(5) by auto
  ultimately show ?thesis
    using first_vote_evaluates [OF assms(1) i(3) assms(4) _ assms(6,7), of env] i(1,4) assms(3)
    by (auto simp: addVote_def mutateVotes_def evaluateStoredVoteCommand_def prepareUserVoteWrite_def)
qed


section \<open>A new session\<close>

lemma valid_digest: "noble_ok N \<Longrightarrow> isValidHexString (''0x'' @ bytesToHex N (sha256 N x)) (Some 32)"
  using digest_hex [of N x] by (simp add: isJournalHash_def split: if_splits)

lemma createSession_ok:
  assumes "noble_ok N" "isSafeVerifierSegment sid" "matches uuidV4Regex eid" "nonneg_safe t"
  obtains ident where "createSession N sid eid t st =
    (Inr ident, st\<lparr>vs_identity := (vs_identity st)(sid \<mapsto> ident), vs_voting := (vs_voting st)(sid \<mapsto> snd (buildSessionRecords N ident t))\<rparr>)"
    "id_sessionId ident = sid" "id_electionId ident = eid" "id_electionConfig ident = buildDefaultElectionConfig"
    "id_electionConfigHash ident = getDefaultElectionConfigHash N"
proof -
  define ident where "ident = \<lparr>id_sessionId = sid, id_electionId = eid, id_electionConfigHash = getDefaultElectionConfigHash N,
        id_electionConfig = buildDefaultElectionConfig, id_logId = generateLogId N (''mock-'' @ sid), id_createdAtMs = t\<rparr>"
  have n: "isNonNegativeSafeInteger (Some (js_int t))" using assms(4) by (simp add: nonneg_safe_def)
  have c: "parseElectionConfig (config_object buildDefaultElectionConfig) = Some buildDefaultElectionConfig" by code_simp
  have "isValidHexString (getDefaultElectionConfigHash N) (Some 32)" "isValidHexString (generateLogId N (''mock-'' @ sid)) (Some 32)"
    unfolding getDefaultElectionConfigHash_def hashElectionConfig_def generateLogId_def by (rule valid_digest [OF assms(1)])+
  then have i: "parseSessionIdentityRecord (identity_object ident) = Some ident"
    using assms(2,3) n c by (simp add: parseSessionIdentityRecord_def identity_object_def isNonArrayObject_def hasExactOwnKeys_def IDENTITY_KEYS_def ident_def)
  have "isVotingRecord (snd (buildSessionRecords N ident t)) ident"
    by (rule voting_record [OF session_inv_new [OF assms(1)]]) (use assms(4) in \<open>simp_all add: buildSessionRecords_def hasStoredVotes_def\<close>)
  moreover have "createDefaultSessionRecords N sid eid (''mock-'' @ sid) t = (ident, snd (buildSessionRecords N ident t))"
    by (simp add: createDefaultSessionRecords_def ident_def buildSessionRecords_def)
  ultimately have "createSession N sid eid t st =
    (Inr ident, st\<lparr>vs_identity := (vs_identity st)(sid \<mapsto> ident), vs_voting := (vs_voting st)(sid \<mapsto> snd (buildSessionRecords N ident t))\<rparr>)"
    unfolding createSession_def using i by simp
  then show thesis by (rule that) (simp_all add: ident_def)
qed

lemma runs_append: "runs step s xs s' \<Longrightarrow> runs step s' ys s'' \<Longrightarrow> runs step s (xs @ ys) s''"
  by (induction rule: runs.induct) auto

end
