(* ===== verification/SessionGuarantees.thy ===== *)
theory SessionGuarantees
  imports VoteStoreProofs
begin

text \<open>
  What voters can rely on: the properties of the session store over any sequence of its calls, with an example run.
\<close>

section \<open>An example run\<close>

definition demo_env :: mutation_env where
  "demo_env = \<lparr>generateVoteId = (\<lambda>_. sample_id2), nowMs = (\<lambda>_. 9), stageClock = (\<lambda>_. 8), rebuildClock = (\<lambda>_. 8), historyClock = (\<lambda>_. 8)\<rparr>"

definition demo_user_vote :: user_vote_command where
  "demo_user_vote = \<lparr>bv_vote = ChoiceD, bv_rand = demo_hash, uv_voteId = sample_id, uv_timestamp = 7\<rparr>"

definition demo_created :: vote_store where
  "demo_created = call_store demo_noble (CreateSession ''s-1'' demo_election 5) empty_store"

definition demo_voted :: vote_store where
  "demo_voted = call_store demo_noble (AddVote demo_env ''s-1'' demo_user_vote) demo_created"

lemma demo_env_ok: "clock_ok demo_env"
proof -
  have "nonneg_safe 9" "nonneg_safe 8" by code_simp+
  then show ?thesis by (simp add: clock_ok_def demo_env_def)
qed

lemma demo_ids: "isSafeVerifierSegment ''s-1''" "matches uuidV4Regex demo_election" "nonneg_safe 5" "short_hex demo_hash" "demo_hash \<noteq> []"
  by code_simp+

lemma demo_created_ok:
  obtains ident where "vs_identity demo_created ''s-1'' = Some ident" "vs_voting demo_created ''s-1'' = Some (snd (buildSessionRecords demo_noble ident 5))"
    "vs_currentIds demo_created = Map.empty" "createSession demo_noble ''s-1'' demo_election 5 empty_store = (Inr ident, demo_created)"
proof -
  obtain ident where "createSession demo_noble ''s-1'' demo_election 5 empty_store =
    (Inr ident, empty_store\<lparr>vs_identity := (vs_identity empty_store)(''s-1'' \<mapsto> ident),
       vs_voting := (vs_voting empty_store)(''s-1'' \<mapsto> snd (buildSessionRecords demo_noble ident 5))\<rparr>)"
    by (rule createSession_ok [OF demo_noble_ok demo_ids(1-3)])
  then show thesis by (intro that [of ident]) (simp_all add: demo_created_def empty_store_def)
qed

lemma demo_runs: "runs (vote_store_step demo_noble) empty_store [CreateSession ''s-1'' demo_election 5] demo_created"
  "runs (vote_store_step demo_noble) empty_store [CreateSession ''s-1'' demo_election 5, AddVote demo_env ''s-1'' demo_user_vote] demo_voted"
  using demo_env_ok by (auto simp: demo_created_def demo_voted_def vote_store_step_def empty_store_def intro!: runs.intros)

lemma demo_vote_accepted: "\<exists>r. addVote demo_noble demo_env ''s-1'' demo_user_vote demo_created = (Inr (Inr r), demo_voted)"
proof -
  obtain ident where c: "vs_voting demo_created ''s-1'' = Some (snd (buildSessionRecords demo_noble ident 5))" "vs_currentIds demo_created = Map.empty"
    by (rule demo_created_ok)
  obtain r st' where "addVote demo_noble demo_env ''s-1'' demo_user_vote demo_created = (Inr (Inr r), st')"
    using first_vote_stored [OF demo_noble_ok reachable_store [OF demo_noble_ok demo_runs(1)] c(1), of demo_user_vote demo_env] c(2) demo_ids(4)
    by (auto simp: buildSessionRecords_def demo_user_vote_def)
  then show ?thesis by (simp add: demo_voted_def)
qed

lemma demo_stored:
  obtains v stored rest where "vs_voting demo_voted ''s-1'' = Some v" "vr_votes v = (0, stored) # rest" "vs_index demo_voted sample_id = Some (''s-1'', 0)"
proof -
  obtain r where r: "addVote demo_noble demo_env ''s-1'' demo_user_vote demo_created = (Inr (Inr r), demo_voted)" using demo_vote_accepted by blast
  note inv = reachable_store [OF demo_noble_ok demo_runs(1)]
  obtain v stored rest where v: "vs_voting demo_voted ''s-1'' = Some v" "vr_votes v = (0, stored) # rest"
    by (rule addVote_stored [OF r inv demo_noble_ok demo_env_ok])
  have "vs_index demo_voted sample_id = Some (''s-1'', 0)"
  proof -
    obtain ident where c: "vs_identity demo_created ''s-1'' = Some ident" "vs_voting demo_created ''s-1'' = Some (snd (buildSessionRecords demo_noble ident 5))" "vs_currentIds demo_created = Map.empty"
      by (rule demo_created_ok)
    have i: "read_identity ''s-1'' demo_created = Some ident" "isVotingRecord (snd (buildSessionRecords demo_noble ident 5)) ident"
      using vote_store_invD(1) [OF inv c(1)] vote_store_invD(2) [OF inv c(2)] c(1) by auto
    have f: "currentFinalization ''s-1'' demo_created = Inr None"
      using current_finalization [OF vote_store_invD(7) [OF inv], of "''s-1''"] c(3) by auto
    have s: "session_inv demo_noble ident (snd (buildSessionRecords demo_noble ident 5))" by (rule session_inv_new [OF demo_noble_ok])
    let ?a = "\<lparr>au_identity = ident, au_voting = snd (buildSessionRecords demo_noble ident 5), au_finalization = None\<rparr>"
    have e0: "vr_votes (snd (buildSessionRecords demo_noble ident 5)) = []" "vr_userParticipation (snd (buildSessionRecords demo_noble ident 5)) = None"
      by (simp_all add: buildSessionRecords_def)
    obtain mu w where mu: "evaluateSessionVoteMutation demo_noble demo_env ?a (AppendUserVote demo_user_vote) = Inr (Inr mu)"
      "prepareUserVoteWrite mu = Inr (r, w)" "demo_voted = (case w of None \<Rightarrow> demo_created | Some (v', ints) \<Rightarrow> installMappedVoteMutation ''s-1'' v' ints demo_created)"
      using r c(2) i f by (auto simp: addVote_def mutateVotes_def evaluateStoredVoteCommand_def split: sum.splits option.splits)
    then have e: "evaluateUserVoteMutation demo_noble demo_env ?a demo_user_vote = Inr mu"
      using e0 by (auto simp: evaluateSessionVoteMutation_def resolveUserVoteReplay_def Let_def admit_vote_def admitNewUserVote_def res_bind_eq_Inr)
    obtain voting ints r' stored' where "mu = UserVoteAppended voting ints r'" "ints = [(user_vote_command.uv_voteId demo_user_vote, 0)]"
      by (rule user_vote_ok [OF e]) (use s e0 demo_noble_ok in simp_all)
    then show ?thesis using mu(2) arg_cong [OF mu(3), of vs_index]
      by (auto simp: prepareUserVoteWrite_def installMappedVoteMutation_def demo_user_vote_def)
  qed
  then show thesis using that v by blast
qed


text \<open>The current record after a lifecycle command is what the policy makes of it.\<close>

lemma marked_current:
  assumes "vote_store_inv N st" "requireIdentity s st = Inr i" "tc_sessionId c = s" "stored_error (tc_body c)"
  shows "currentFinalization s (snd (mark_finalization c now st)) = Inr (apply_command (current_of (lifecycle_view st) s) (c, now))"
proof -
  obtain x m where m: "applyFinalizationCommand c now (lifecycle_view st) = (x, m)" by fastforce
  note ok = vote_store_invD(7) [OF assms(1)]
  have step: "store_step (lifecycle_view st) (c, now) m" using m by (simp add: store_step_def)
  have id: "ms_hasIdentity (lifecycle_view st) s" using assms(2) by (simp add: lifecycle_view_def)
  have cur: "current_of m s = apply_command (current_of (lifecycle_view st) s) (c, now)" using step_refines(3) [OF ok step id] assms(3,4) by (simp add: apply_stored_eq)
  let ?m = "lifecycle_view (snd (mark_finalization c now st))"
  have "snd (mark_finalization c now st) = with_lifecycle m st" by (simp add: mark_finalization_def m)
  then have "ms_finalizations ?m = ms_finalizations m" "ms_currentIds ?m = ms_currentIds m" by (simp_all add: with_lifecycle_def lifecycle_view_def)
  note same = same_finalizations [OF this]
  have "store_ok ?m" using same(2) step_refines(1) [OF ok step] by simp
  from read_ok(1) [OF this, of s] show ?thesis using same(1) cur by (simp add: currentFinalization_def)
qed

definition demo_queued :: vote_store where
  "demo_queued = call_store demo_noble (LifecycleCommand (sample_command (Some (context_value sample_context)) Queue) 6) demo_voted"

lemma demo_queued_ok:
  "runs (vote_store_step demo_noble) empty_store
     [CreateSession ''s-1'' demo_election 5, AddVote demo_env ''s-1'' demo_user_vote, LifecycleCommand (sample_command (Some (context_value sample_context)) Queue) 6] demo_queued"
  "currentFinalization ''s-1'' demo_queued = Inr (Some (sample_record (Pending ''F1'' (js_int 5))))"
proof -
  have "nonneg_safe 6" by code_simp
  then have "runs (vote_store_step demo_noble) demo_voted [LifecycleCommand (sample_command (Some (context_value sample_context)) Queue) 6] demo_queued"
    by (auto simp: demo_queued_def vote_store_step_def intro!: runs.intros)
  from runs_append [OF demo_runs(2) this]
  show "runs (vote_store_step demo_noble) empty_store
     [CreateSession ''s-1'' demo_election 5, AddVote demo_env ''s-1'' demo_user_vote, LifecycleCommand (sample_command (Some (context_value sample_context)) Queue) 6] demo_queued" by simp
  note inv = reachable_store [OF demo_noble_ok demo_runs(2)]
  obtain v where v: "vs_voting demo_voted ''s-1'' = Some v" by (rule demo_stored)
  obtain i where i: "vs_identity demo_voted ''s-1'' = Some i" using vote_store_invD(2) [OF inv v] by blast
  obtain r where r: "mutateVotes demo_noble demo_env ''s-1'' (AppendUserVote demo_user_vote) prepareUserVoteWrite demo_created = (Inr (Inr r), demo_voted)"
    using demo_vote_accepted by (auto simp: addVote_def)
  have no: "vs_currentIds demo_created = Map.empty" by (rule demo_created_ok)
  have "vs_currentIds demo_voted = Map.empty"
  proof (rule mutate_effect [OF r faithful_writes(1) reachable_store [OF demo_noble_ok demo_runs(1)] demo_noble_ok demo_env_ok])
    show "vs_currentIds demo_voted = Map.empty" if "demo_voted = demo_created" using no arg_cong [OF that, of vs_currentIds] by simp
    show "vs_currentIds demo_voted = Map.empty" if "demo_voted = installMappedVoteMutation ''s-1'' v' ints demo_created" for v' ints
      using no arg_cong [OF that, of vs_currentIds] by (simp add: installMappedVoteMutation_def)
  qed
  then have "current_of (lifecycle_view demo_voted) ''s-1'' = None" by (simp add: current_of_def readMappedFinalization_def lifecycle_view_def)
  then show "currentFinalization ''s-1'' demo_queued = Inr (Some (sample_record (Pending ''F1'' (js_int 5))))"
    using marked_current [OF inv readings(1) [OF inv v i], of "sample_command (Some (context_value sample_context)) Queue" "js_int 6"] sample_run(1)
    by (simp add: demo_queued_def sample_command_def)
qed


section \<open>Properties\<close>

text \<open>C34: the sessions of the store stay consistent.  After any sequence of calls - sessions created, votes of users and
  bots, lifecycle commands, touches, evictions - every stored voting record can be read, has at most 64 votes at
  the positions 0, 1, 2, ..., one of which, the first, is the user's, and its board lists exactly their
  identifiers and commitments in that order; each vote opens its commitment and carries the root the log had when
  the vote was cast.\<close>

theorem stored_sessions_consistent:
  assumes "noble_ok N" "runs (vote_store_step N) empty_store es st" "vs_voting st s = Some v"
  shows "\<exists>ident. getSessionIdentity s st = Some ident \<and> getVotingRecord s st = Some v \<and>
    map fst (vr_votes v) = map int [0..<length (vr_votes v)] \<and> length (vr_votes v) \<le> 64 \<and>
    vr_botCount v = max 0 (int (length (vr_votes v)) - 1) \<and> vr_userParticipation v = (if vr_votes v = [] then None else Some 0) \<and>
    map fst (voteEntries (vr_bulletin v)) = map (pv_voteId \<circ> snd) (vr_votes v) \<and>
    map (\<lambda>c. ''0x'' @ c) (commitments (vr_bulletin v)) = map (pv_commit \<circ> snd) (vr_votes v) \<and>
    (\<forall>(i, w) \<in> set (vr_votes v). computeCommitment N (id_electionId ident) (choice_number (pv_vote w)) (pv_rand w) = Inr (pv_commit w) \<and>
       pv_rootAtCast w = ''0x'' @ log_root_of N (map (leaf_bytes N) (take (Suc (nat i)) (commitments (vr_bulletin v)))))"
proof -
  note inv = reachable_store [OF assms(1,2)]
  obtain i where i: "vs_identity st s = Some i" "session_inv N i v" using vote_store_invD(2) [OF inv assms(3)] by blast
  note D = session_invD [OF i(2)]
  note L = log_okD [OF D(1)]
  have b: "map fst (voteEntries (vr_bulletin v)) = map (pv_voteId \<circ> snd) (vr_votes v)" "commitments (vr_bulletin v) = commits (vr_votes v)"
    using L(2) by (auto simp: filled_def entries_def entry_of_def commits_def)
  have "''0x'' @ drop 2 (pv_commit w) = pv_commit w" if "(k, w) \<in> set (vr_votes v)" for k w
    using prepared_committed [OF assms(1), of _ w] L(4) [OF that] by (metis well_committed_def)
  then have "map (\<lambda>c. ''0x'' @ c) (commits (vr_votes v)) = map (pv_commit \<circ> snd) (vr_votes v)" by (auto simp: commits_def entry_of_def)
  then show ?thesis
    using readings(3,4) [OF inv assms(3) i(1)] D L(1) b L(4) by (intro exI [of _ i]) (auto simp: keyed_def prepared_ok_def root_at_def)
qed

theorem stored_sessions_consistent_witness:
  "\<exists>v. vs_voting demo_voted ''s-1'' = Some v \<and> vr_votes v \<noteq> [] \<and> length (vr_votes v) \<le> 64"
proof -
  obtain v stored rest where v: "vs_voting demo_voted ''s-1'' = Some v" "vr_votes v = (0, stored) # rest" by (rule demo_stored)
  from stored_sessions_consistent [OF demo_noble_ok demo_runs(2) v(1)] v show ?thesis by auto
qed

text \<open>C35: a recorded vote can always be proved.  In every reachable store, for every vote identifier the index knows, reading
  the vote with its proof succeeds, and the vote has that identifier; the returned path, checked with the
  verifier of recorded inclusion proofs, shows that the commitment of the vote is at its position in the log whose root
  was recorded when the vote was cast.  Reading the proof alone gives the same proof.\<close>

theorem indexed_vote_proof_verifies:
  assumes "noble_ok N" "runs (vote_store_step N) empty_store es st" "vs_index st vid = Some (s, i)"
  shows "\<exists>w p. getVoteByIdWithProof N s vid st = Inr (Some (w, p)) \<and> getVoteProof N vid st = Inr (Some (p, pv_timestamp w)) \<and>
    pv_voteId w = vid \<and> xp_leafIndex p = i \<and> xp_treeSize p = i + 1 \<and> xp_bulletinRootAtCast p = pv_rootAtCast w \<and>
    verifyCTMerkleInclusion N (pv_commit w) (xp_merklePath p) (xp_leafIndex p) (xp_bulletinRootAtCast p) (xp_treeSize p) = Inr True"
proof -
  note inv = reachable_store [OF assms(1,2)]
  obtain v w where v: "vs_voting st s = Some v" "map_of (vr_votes v) i = Some w" "pv_voteId w = vid"
    using vote_store_invD(3) [OF inv assms(3)] by blast
  obtain ident where ident: "vs_identity st s = Some ident" "session_inv N ident v" using vote_store_invD(2) [OF inv v(1)] by blast
  note D = session_invD [OF ident(2)]
  note L = log_okD [OF D(1)]
  have m: "(i, w) \<in> set (vr_votes v)" using map_of_SomeD [OF v(2)] .
  obtain k where k: "i = int k" "k < length (vr_votes v)" using keyed_bound [OF L(1) m] zero_le_imp_eq_int by auto
  have "vr_votes v ! k = (i, w)"
  proof -
    obtain j where j: "j < length (vr_votes v)" "vr_votes v ! j = (i, w)" using m by (auto simp: in_set_conv_nth)
    then have "i = int j" using arg_cong [OF L(1) [unfolded keyed_def], of "\<lambda>xs. xs ! j"] by simp
    then show ?thesis using j k by simp
  qed
  then have e: "fst (entries (vr_votes v) ! k) = vid" "commits (vr_votes v) ! k = drop 2 (pv_commit w)"
    using k(2) v(3) by (simp_all add: entries_def entry_of_def commits_def)
  have w: "prepared_ok N (id_electionId ident) w" "isValidVoteId vid" "pv_rootAtCast w = ''0x'' @ root_at N (commits (vr_votes v)) k"
    using L(4) [OF m] v(3) k(1) by auto
  have c: "pv_commit w = ''0x'' @ commits (vr_votes v) ! k" using prepared_committed [OF assms(1) w(1)] e(2) by (simp add: well_committed_def)
  have h: "list_all hex64 (commits (vr_votes v))" using L(2) by (simp add: filled_def)
  note P = cast_path_hex64 [OF assms(1), of k "commits (vr_votes v)"] cast_path_verifies [OF assms(1) h, of k]
  have r: "hex64 (root_at N (commits (vr_votes v)) k)" by (simp add: root_at_def root_hex64 [OF assms(1)])
  have n: "normalizeHex True (pv_rootAtCast w) = Inr (pv_rootAtCast w)" "normalizeHex True (root_at N (commits (vr_votes v)) k) = Inr (pv_rootAtCast w)"
    "pv_rootAtCast w \<noteq> []"
    unfolding w(3) using normalizeHex_hex64 [OF r] by simp_all
  obtain b' where b: "board_getInclusionProof N vid (Some (i + 1)) (vr_bulletin v) =
      (Inr (Some \<lparr>leafIndex = i, ip_proofNodes = cast_path N (commits (vr_votes v)) k, treeSize = i + 1, rootHash = root_at N (commits (vr_votes v)) k\<rparr>), b')"
    using filled_proof [OF L(2), of k] k D(6) e(1) by auto
  let ?p = "\<lparr>xp_leafIndex = i, xp_merklePath = map (\<lambda>h. ''0x'' @ h) (cast_path N (commits (vr_votes v)) k), xp_bulletinRootAtCast = pv_rootAtCast w, xp_treeSize = i + 1\<rparr>"
  have "deriveExactCtProof N (vr_bulletin v) vid i (pv_rootAtCast w) = Some ?p"
    using valid_nonempty [OF w(2)] k b n normalize_all [OF P(1)] by (simp add: deriveExactCtProof_def)
  moreover have "vote_getVoteById s vid st = Some (w, i)" using assms(3) readings(3) [OF inv v(1) ident(1)] v(2) by (simp add: vote_getVoteById_def)
  ultimately have "getVoteByIdWithProof N s vid st = Inr (Some (w, ?p))"
    using readings(3) [OF inv v(1) ident(1)] v(3) by (simp add: getVoteByIdWithProof_def deriveStoredVoteProof_def)
  moreover from this have "getVoteProof N vid st = Inr (Some (?p, pv_timestamp w))" using assms(3) by (simp add: getVoteProof_def)
  ultimately show ?thesis using v(3) P(2) k c w(3) by (intro exI [of _ w] exI [of _ ?p]) simp
qed

theorem indexed_vote_proof_verifies_witness:
  "\<exists>w p. getVoteByIdWithProof demo_noble ''s-1'' sample_id demo_voted = Inr (Some (w, p)) \<and> pv_voteId w = sample_id"
proof -
  have "vs_index demo_voted sample_id = Some (''s-1'', 0)" by (rule demo_stored)
  from indexed_vote_proof_verifies [OF demo_noble_ok demo_runs(2) this] show ?thesis by blast
qed

text \<open>C36: sending a vote again is harmless.  When a user's vote has been answered with a cast result, then after any further
  calls that do not evict sessions - more votes, finalization commands - the same request (the same choice and the same
  random value, which is not empty) gets exactly the same cast result, whatever the clock and the generator of
  identifiers give, and changes nothing.\<close>

theorem retried_vote_same_answer:
  assumes "noble_ok N" "runs (vote_store_step N) empty_store es st" "clock_ok env" "addVote N env s vote st = (Inr (Inr r), st1)"
    "runs (vote_store_step N) st1 es' st2" "list_all (\<lambda>e. \<not> evicts e) es'" "strip_prefix (bv_rand vote) \<noteq> []"
    "bv_vote vote' = bv_vote vote" "bv_rand vote' = bv_rand vote"
  shows "addVote N env' s vote' st2 = (Inr (Inr r), st2)"
proof -
  note inv = reachable_store [OF assms(1,2)]
  have inv1: "vote_store_inv N st1"
    using mutate_inv [OF assms(4) [unfolded addVote_def] faithful_writes(1) inv assms(1,3)] .
  obtain v stored rest where v: "vs_voting st1 s = Some v" "vr_votes v = (0, stored) # rest" "pv_vote stored = bv_vote vote"
    "normalizeHex True (bv_rand vote) = Inr (pv_rand stored)" "r = \<lparr>av_leafIndex = 0, av_merklePath = [], av_bulletinRootAtCast = pv_rootAtCast stored\<rparr>"
    by (rule addVote_stored [OF assms(4) inv assms(1,3)])
  note K = session_kept [OF assms(5,1) inv1 assms(6)]
  obtain v' ws where v': "vs_voting st2 s = Some v'" "vr_votes v' = vr_votes v @ ws" using K(1) v(1) unfolding session_le_def by blast
  have "normalizeHex False (bv_rand vote) = Inr (pv_rand stored)" using v(4) assms(7) by (simp add: normalizeHex_def Let_def)
  then show ?thesis
    using addVote_retry [OF K(2) assms(1) v'(1), of stored "rest @ ws" vote' env'] v' v assms(8,9) by simp
qed

theorem retried_vote_same_answer_witness:
  "\<exists>r. addVote demo_noble demo_env ''s-1'' demo_user_vote demo_created = (Inr (Inr r), demo_voted) \<and>
     addVote demo_noble demo_env ''s-1'' (demo_user_vote\<lparr>uv_voteId := sample_id2\<rparr>) demo_queued = (Inr (Inr r), demo_queued)"
proof -
  obtain r where r: "addVote demo_noble demo_env ''s-1'' demo_user_vote demo_created = (Inr (Inr r), demo_voted)" using demo_vote_accepted by blast
  have "nonneg_safe 6" by code_simp
  then have q: "runs (vote_store_step demo_noble) demo_voted [LifecycleCommand (sample_command (Some (context_value sample_context)) Queue) 6] demo_queued"
    by (auto simp: demo_queued_def vote_store_step_def intro!: runs.intros)
  have "strip_prefix demo_hash \<noteq> []" by code_simp
  then show ?thesis
    using retried_vote_same_answer [OF demo_noble_ok demo_runs(1) demo_env_ok r q] r by (simp add: evicts_def demo_user_vote_def)
qed


text \<open>C37: finalization closes the ballot box.  Once the current finalization record of a session can be read, no call - a vote
  of a user or a bot, another lifecycle command, a touch, the calls of other sessions - changes anything in
  the voting record of that session but the time of its last activity: votes, board, history and counts stay
  what they were when the record was created.  Only eviction removes a session.\<close>

theorem finalized_session_closed:
  assumes "noble_ok N" "runs (vote_store_step N) empty_store es st" "currentFinalization s st = Inr (Some f)" "vs_voting st s = Some v"
    "runs (vote_store_step N) st es' st'" "list_all (\<lambda>e. \<not> evicts e) es'"
  shows "\<exists>t. vs_voting st' s = Some (v\<lparr>vr_lastActivityMs := t\<rparr>)"
proof -
  note inv = reachable_store [OF assms(1,2)]
  have "vs_currentIds st s \<noteq> None" using current_finalization [OF vote_store_invD(7) [OF inv], of s] assms(3) by auto
  then show ?thesis using session_kept(1) [OF assms(5,1) inv assms(6), of s] assms(4) unfolding session_le_def by blast
qed

theorem finalized_session_closed_witness:
  "\<exists>v t. vs_voting demo_queued ''s-1'' = Some v \<and>
     vs_voting (call_store demo_noble (AddBotVotes demo_env ''s-1'' [\<lparr>bv_vote = ChoiceA, bv_rand = demo_hash\<rparr>]) demo_queued) ''s-1'' = Some (v\<lparr>vr_lastActivityMs := t\<rparr>)"
proof -
  note inv = reachable_store [OF demo_noble_ok demo_runs(2)]
  obtain v0 where v0: "vs_voting demo_voted ''s-1'' = Some v0" by (rule demo_stored)
  have "nonneg_safe 6" by code_simp
  then have "session_le ''s-1'' demo_voted demo_queued"
    unfolding demo_queued_def by (intro call_store_le [OF inv demo_noble_ok]) (simp_all add: evicts_def)
  then obtain v where v: "vs_voting demo_queued ''s-1'' = Some v" using v0 unfolding session_le_def by blast
  have "runs (vote_store_step demo_noble) demo_queued [AddBotVotes demo_env ''s-1'' [\<lparr>bv_vote = ChoiceA, bv_rand = demo_hash\<rparr>]]
      (call_store demo_noble (AddBotVotes demo_env ''s-1'' [\<lparr>bv_vote = ChoiceA, bv_rand = demo_hash\<rparr>]) demo_queued)"
    using demo_env_ok by (auto simp: vote_store_step_def simp del: call_store.simps intro!: runs.intros)
  from finalized_session_closed [OF demo_noble_ok demo_queued_ok v this] v show ?thesis by (simp add: evicts_def)
qed

text \<open>C38: a new session takes the user's vote.  In every reachable store, creating a session under an unused, safe
  identifier with a version 4 election identifier succeeds, and the session then accepts any first vote with a valid vote
  identifier and at most 32 bytes of hexadecimal randomness: the commitment, the log and the inclusion proof
  are all produced.\<close>

theorem new_session_accepts_vote:
  assumes "noble_ok N" "runs (vote_store_step N) empty_store es st" "vs_identity st s = None" "vs_voting st s = None" "vs_currentIds st s = None"
    "isSafeVerifierSegment s" "matches uuidV4Regex eid" "nonneg_safe t" "isValidVoteId (uv_voteId vote)" "short_hex (bv_rand vote)"
  shows "\<exists>ident st1 r st2. createSession N s eid t st = (Inr ident, st1) \<and> addVote N env s vote st1 = (Inr (Inr r), st2)"
proof -
  obtain ident where c: "createSession N s eid t st =
      (Inr ident, st\<lparr>vs_identity := (vs_identity st)(s \<mapsto> ident), vs_voting := (vs_voting st)(s \<mapsto> snd (buildSessionRecords N ident t))\<rparr>)" (is "_ = (_, ?st1)")
    by (rule createSession_ok [OF assms(1,6-8)])
  have "vote_store_inv N ?st1" using createSession_inv [OF reachable_store [OF assms(1,2)] assms(1,4), of eid t] c by simp
  then obtain r st2 where "addVote N env s vote ?st1 = (Inr (Inr r), st2)"
    using first_vote_stored [OF assms(1), of ?st1 s "snd (buildSessionRecords N ident t)" vote env] assms(5,9,10) by (auto simp: buildSessionRecords_def)
  with c show ?thesis by blast
qed

theorem new_session_accepts_vote_witness:
  "\<exists>ident st1 r st2. createSession demo_noble ''s-1'' demo_election 5 empty_store = (Inr ident, st1) \<and>
     addVote demo_noble demo_env ''s-1'' demo_user_vote st1 = (Inr (Inr r), st2)"
  using new_session_accepts_vote [OF demo_noble_ok runs.runs_Nil, of "''s-1''" demo_election 5 demo_user_vote demo_env] demo_ids
  by (simp add: empty_store_def demo_user_vote_def)

end
