(* ===== verification/SessionTally.thy ===== *)
theory SessionTally
  imports InputBuilder SessionGuarantees
begin

text \<open>
  From the ballot box to the tally: the input built from a stored session is complete, its execution returns, and
  the admitted journal counts every stored vote.
\<close>

section \<open>The tree head of a session\<close>

lemma orZero_hex64 [simp]: "hex64 h \<Longrightarrow> normalizeHexOrZero h = Inr (''0x'' @ h)" "hex64 h \<Longrightarrow> normalizeHexOrZero (''0x'' @ h) = Inr (''0x'' @ h)"
proof -
  assume h: "hex64 h"
  then have "h \<noteq> []" by (auto simp: hex64_def)
  then show "normalizeHexOrZero h = Inr (''0x'' @ h)" "normalizeHexOrZero (''0x'' @ h) = Inr (''0x'' @ h)"
    using normalizeHex_hex64 [OF h] by (simp_all add: normalizeHexOrZero_def)
qed

lemma hex64_prefixed [simp]:
  "hex64 h \<Longrightarrow> normalizeHex e (CHR ''0'' # CHR ''x'' # h) = Inr (''0x'' @ h)" "hex64 h \<Longrightarrow> normalizeHexOrZero (CHR ''0'' # CHR ''x'' # h) = Inr (''0x'' @ h)"
  using normalizeHex_hex64(2) [of h e] orZero_hex64(2) [of h] by simp_all

lemma filled_root:
  assumes "filled N lid vs b" "noble_ok N" "vs \<noteq> []"
  obtains b' where "getCurrentRoot N b = (Inr (root_at N (map snd vs) (length vs - 1)), b')" "filled N lid vs b'"
proof -
  have b: "board_inv N b" using assms(1) by (simp add: filled_def)
  note tr = log_invarD [OF board_invD(1) [OF b]]
  obtain t where t: "getRoot N (tree b) = (Inr (bytesToHex N (mth_spec N (contents N (tree b)))), t)" using getRoot_correct [OF tr(1,2)] by blast
  have "take (Suc (length vs - 1)) (map snd vs) = map snd vs" using assms(3) by simp
  then have "bytesToHex N (mth_spec N (contents N (tree b))) = root_at N (map snd vs) (length vs - 1)"
    by (simp add: root_at_def log_root_of_def filled_contents(1) [OF assms(1)])
  moreover have "board_inv N (b\<lparr>tree := t\<rparr>)" using on_tree_inv [of N b "getRoot N", OF b getRoot_kept [OF tr(1,2)]] t by (simp add: on_tree_def)
  ultimately show thesis
    using that [of "b\<lparr>tree := t\<rparr>"] assms(1) t by (simp add: getCurrentRoot_def on_tree_def filled_def)
qed

text \<open>The head is the persisted snapshot when its times are usable, else the reconstructed one.\<close>

definition head_ok :: "noble \<Rightarrow> string list \<Rightarrow> sth_snapshot \<Rightarrow> bool" where
  "head_ok N cs s \<longleftrightarrow>
     normalizeHexOrZero (sn_root s) = Inr (''0x'' @ root_at N cs (length cs - 1)) \<and> sn_treeSize s = int (length cs) \<and> 0 < sn_timestamp s \<and> nonneg_safe (sn_timestamp s)"

lemma persisted_head:
  assumes "noble_ok N" "records_roots N cs h" "history_safe h" "cs \<noteq> []" "parsePersistedRootHistory h = Some ps"
  shows "ps \<noteq> []" "head_ok N cs (snapshot_of (last ps))"
proof -
  let ?i = "length cs - 1"
  have m: "map normalizePersistedRootSnapshot h = map Some ps" using assms(5) by (simp add: parsePersistedRootHistory_def those_Some)
  then have p: "length ps = length h" "\<And>i. i < length h \<Longrightarrow> normalizePersistedRootSnapshot (h ! i) = Some (ps ! i)"
    by (metis length_map, metis length_map nth_map)
  have l: "length h = length cs" "?i < length h" using assms(2,4) by (auto simp: records_roots_def)
  then show ne: "ps \<noteq> []" using p(1) assms(4) by auto
  have s: "ss_treeSize (h ! ?i) = int (length cs)" "ss_root (h ! ?i) \<in> {root_at N cs ?i, ''0x'' @ root_at N cs ?i}"
    using assms(2) l by (auto simp: records_roots_def)
  have hx: "hex64 (root_at N cs ?i)" by (simp add: root_at_def root_hex64 [OF assms(1)])
  then have r: "normalizeHex True (ss_root (h ! ?i)) = Inr (''0x'' @ root_at N cs ?i)" using s(2) by auto
  have "last ps = ps ! ?i" using ne p(1) l by (simp add: last_conv_nth)
  moreover have "nonneg_safe (ss_timestamp (h ! ?i))" using assms(3) l(2) by (auto simp: history_safe_def)
  moreover have "ps ! ?i = (h ! ?i)\<lparr>ss_root := ''0x'' @ root_at N cs ?i\<rparr>" "0 < ss_timestamp (h ! ?i)"
    using p(2) [OF l(2)] r by (auto simp: normalizePersistedRootSnapshot_def split: if_splits)
  ultimately show "head_ok N cs (snapshot_of (last ps))" using s(1) hx by (simp add: head_ok_def snapshot_of_def)
qed

lemma canonical_times_positive:
  assumes "history_loop N fb t ws = Inr hs" "0 < fb"
  shows "\<forall>s \<in> set hs. 0 < ss_timestamp s"
  using assms
  by (induction N fb t ws arbitrary: hs rule: history_loop.induct)
    (auto simp: res_bind_eq_Inr resolveSnapshotTimestamp_def split: sum.splits prod.splits)

lemma session_head:
  assumes "noble_ok N" "log_ok N eid lid (vr_votes v) (vr_bulletin v) (vr_bulletinRootHistory v)" "int (length (vr_votes v)) \<le> MAX_SAFE_INTEGER"
    "hasStoredVotes (vr_votes v)" "history_safe (vr_bulletinRootHistory v)" "vr_votes v \<noteq> []" "0 < fb" "nonneg_safe fb"
  obtains s b where "getLatestSTHSnapshot N now fb False v = (Inr s, b)" "head_ok N (commits (vr_votes v)) s" "filled N lid (entries (vr_votes v)) b"
proof -
  let ?cs = "commits (vr_votes v)" and ?h = "vr_bulletinRootHistory v"
  note L = log_okD [OF assms(2)]
  note C = log_ok_committed [OF assms(1,2)]
  have ne: "?cs \<noteq> []" "entries (vr_votes v) \<noteq> []" using assms(6) by (auto simp: commits_def entries_def)
  have hx: "hex64 (root_at N ?cs k)" for k by (simp add: root_at_def root_hex64 [OF assms(1)])
  obtain b where b: "getCurrentRoot N (vr_bulletin v) = (Inr (root_at N ?cs (length ?cs - 1)), b)" "filled N lid (entries (vr_votes v)) b"
    by (rule filled_root [OF L(2) assms(1) ne(2)]) auto
  have sz: "getSize (vr_bulletin v) = int (length ?cs)" "0 < length ?cs" using filled_contents(2) [OF L(2)] ne(1) by auto
  show thesis
  proof (cases "parsePersistedRootHistory ?h")
    case (Some ps)
    note P = persisted_head [OF assms(1) L(3) assms(5) ne(1) Some]
    have "getLatestPersistedSTHSnapshot N v = (Some (snapshot_of (last ps)), b)"
      using P b(1) sz hx [of "length ?cs - 1"] by (simp add: getLatestPersistedSTHSnapshot_def Some resolvePersistedBulletinSnapshot_def head_ok_def Let_def)
    then show thesis using that [OF _ P(2) b(2)] by (simp add: getLatestSTHSnapshot_def)
  next
    case None
    obtain h where h: "getCanonicalBulletinRootHistory N fb (vr_votes v) ?h = Inr h" "records_roots N ?cs h"
      using canonical_history [OF assms(1) L(1) assms(3) C] by (auto simp: commits_def)
    have hl: "length h = length ?cs" using h(2) by (simp add: records_roots_def)
    then have hne: "h \<noteq> []" using sz(2) by (metis list.size(3) less_irrefl)
    then have hlast: "last h = h ! (length ?cs - 1)" using hl by (simp add: last_conv_nth)
    obtain hs where hs: "history_loop N fb new_tree (map snd (sorted_votes (vr_votes v))) = Inr hs" "h = mergePersistedRootHistory hs None"
      using h(1) None by (auto simp: getCanonicalBulletinRootHistory_def rebuildCanonicalHistoryFromVotes_def res_bind_eq_Inr)
    then have "\<forall>s \<in> set h. 0 < ss_timestamp s" using canonical_times_positive [OF hs(1) assms(7)] by (simp add: mergePersistedRootHistory_def)
    then have "0 < ss_timestamp (last h)" "nonneg_safe (ss_timestamp (last h))"
      using canonical_history_safe [OF h(1) assms(4,8,5)] hne by (auto simp: history_safe_def)
    moreover have "ss_treeSize (last h) = int (length ?cs)" "ss_root (last h) \<in> {root_at N ?cs (length ?cs - 1), ''0x'' @ root_at N ?cs (length ?cs - 1)}"
      unfolding hlast using h(2) sz(2) by (auto simp: records_roots_def of_nat_diff Suc_le_eq)
    ultimately have "head_ok N ?cs (snapshot_of (last h))" using hx by (auto simp: head_ok_def snapshot_of_def)
    moreover have "getLatestSTHSnapshot N now fb False v = (Inr (snapshot_of (last h)), vr_bulletin v)"
      using h(1) hne None by (simp add: getLatestSTHSnapshot_def getLatestPersistedSTHSnapshot_def getLatestCanonicalBulletinSnapshot_def)
    ultimately show thesis using that L(2) by blast
  qed
qed

section \<open>The votes of the input\<close>

lemma path_spec_length: "length (path_spec N i ds) \<le> length ds - 1" "1 < length ds \<Longrightarrow> path_spec N i ds \<noteq> []"
proof -
  show "length (path_spec N i ds) \<le> length ds - 1"
  proof (induction N i ds rule: path_spec.induct)
    case (1 N m ds)
    show ?case
    proof (cases "length ds \<le> 1")
      case False
      then show ?thesis using 1 split_at_bounds [of ds] by (subst path_spec.simps) auto
    qed (simp add: path_spec_small)
  qed
  show "1 < length ds \<Longrightarrow> path_spec N i ds \<noteq> []" by (subst path_spec.simps) auto
qed

lemma path_in_facts:
  assumes "noble_ok N" "i < length cs"
  shows "list_all hex64 (path_in N cs (length cs) i)" "length (path_in N cs (length cs) i) \<le> length cs"
    "1 < length cs \<Longrightarrow> path_in N cs (length cs) i \<noteq> []"
  using path_spec_lengths [of N i "map (leaf_bytes N) cs"] path_spec_length [where ds = "map (leaf_bytes N) cs" and N = N and i = i] assms
  by (auto simp: path_in_def hex64_def list_all_iff length_bytesToHex)

text \<open>The input vote of a stored vote.\<close>

definition input_vote :: "noble \<Rightarrow> string list \<Rightarrow> int \<times> stored_vote \<Rightarrow> zkvm_input_vote" where
  "input_vote N cs iv =
     \<lparr>cv_index = js_int (fst iv), cv_commitment = pv_commit (snd iv), cv_merklePath = map (\<lambda>h. ''0x'' @ h) (path_in N cs (length cs) (nat (fst iv))),
      zv_choice = choice_number (pv_vote (snd iv)), zv_random = pv_rand (snd iv)\<rparr>"

lemma orZero_all: "list_all hex64 hs \<Longrightarrow> res_map normalizeHexOrZero hs = Inr (map (\<lambda>h. ''0x'' @ h) hs)"
  by (induction hs) auto

lemma keyed_nth: "keyed votes \<Longrightarrow> i < length votes \<Longrightarrow> \<exists>w. votes ! i = (int i, w)"
  unfolding keyed_def by (metis (no_types, lifting) add_0 diff_zero length_map nth_map nth_upt prod.collapse)

lemma stored_vote_input:
  assumes "noble_ok N" "log_ok N eid lid votes b0 h" "filled N lid (entries votes) b" "i < length votes" "int (length votes) \<le> MAX_SAFE_INTEGER"
  obtains b' where "vote_with_proof N eid (int (length votes)) votes (int i) b = (Inr (input_vote N (commits votes) (votes ! i)), b')"
    "filled N lid (entries votes) b'"
proof -
  let ?cs = "commits votes" and ?n = "length votes"
  note L = log_okD [OF assms(2)]
  obtain w where w: "votes ! i = (int i, w)" using keyed_nth [OF L(1) assms(4)] ..
  have m: "map_of votes (int i) = Some w"
    using L(1) w assms(4) by (intro map_of_is_SomeI) (auto simp: keyed_def distinct_map inj_on_def intro: nth_mem [of i votes, unfolded w])
  have p: "prepared_ok N eid w" using L(4) [of "int i" w] w assms(4) nth_mem by metis
  then have c: "normalizeHexOrZero (pv_rand w) = Inr (pv_rand w)" "computeCommitment N eid (choice_number (pv_vote w)) (pv_rand w) = Inr (pv_commit w)"
    using normalizeHex_Inr [of False "pv_rand w" "pv_rand w"] by (auto simp: prepared_ok_def normalizeHexOrZero_def)
  have id: "fst (entries votes ! i) = pv_voteId w" using assms(4) w by (simp add: entries_def entry_of_def)
  obtain b' where b': "board_getInclusionProof N (pv_voteId w) (Some (int ?n)) b =
      (Inr (Some \<lparr>leafIndex = int i, ip_proofNodes = path_in N ?cs ?n i, treeSize = int ?n, rootHash = root_at N ?cs (?n - 1)\<rparr>), b')"
    using filled_path [OF assms(3), of i ?n] assms(4,5) id by auto
  note P = path_in_facts [OF assms(1), of i ?cs]
  have "path_in N ?cs ?n i \<noteq> [] \<or> ?n \<le> 1" using P(3) assms(4) by fastforce
  then have "resolveMerklePath N (int i) w (int ?n) b = (Inr (map (\<lambda>h. ''0x'' @ h) (path_in N ?cs ?n i)), b')"
    using b' P orZero_all [OF P(1)] assms(4,5) by (auto simp: resolveMerklePath_def resolvePathFromBulletin_def)
  moreover have "filled N lid (entries votes) b'" using filled_kept [OF assms(3), of "pv_voteId w" "Some (int ?n)"] b' by simp
  ultimately show thesis using that m c w by (simp add: vote_with_proof_def input_vote_def Let_def)
qed

lemma stored_votes_input:
  assumes "noble_ok N" "log_ok N eid lid votes b0 h" "int (length votes) \<le> MAX_SAFE_INTEGER" "filled N lid (entries votes) b" "k \<le> length votes"
  shows "votes_loop N eid (int (length votes)) votes (map int [k..<length votes]) b = Inr (map (input_vote N (commits votes)) (drop k votes))"
  using assms(4,5)
proof (induction "length votes - k" arbitrary: k b)
  case (Suc d)
  then have k: "k < length votes" by simp
  obtain b' where b': "vote_with_proof N eid (int (length votes)) votes (int k) b = (Inr (input_vote N (commits votes) (votes ! k)), b')"
    "filled N lid (entries votes) b'"
    by (rule stored_vote_input [OF assms(1,2) Suc.prems(1) k assms(3)])
  have "votes_loop N eid (int (length votes)) votes (map int [Suc k..<length votes]) b' = Inr (map (input_vote N (commits votes)) (drop (Suc k) votes))"
    by (rule Suc.hyps(1)) (use Suc.hyps(2) k b'(2) in auto)
  moreover have "[k..<length votes] = k # [Suc k..<length votes]" using k by (rule upt_conv_Cons)
  ultimately show ?case using b'(1) by (simp add: Cons_nth_drop_Suc [OF k, symmetric])
qed simp

section \<open>Sessions of the store\<close>

text \<open>Every session of the store was created with the default election.\<close>

definition default_identity :: "noble \<Rightarrow> session_identity \<Rightarrow> bool" where
  "default_identity N i \<longleftrightarrow>
     id_electionConfig i = buildDefaultElectionConfig \<and> id_electionConfigHash i = getDefaultElectionConfigHash N \<and>
     (\<exists>x. id_logId i = ''0x'' @ x \<and> hex64 x)"

definition default_identities :: "noble \<Rightarrow> vote_store \<Rightarrow> bool" where
  "default_identities N st \<longleftrightarrow> (\<forall>s i. vs_identity st s = Some i \<longrightarrow> default_identity N i)"

lemma created_default: "noble_ok N \<Longrightarrow> fst (createSession N sid eid t st) = Inr i \<Longrightarrow> default_identity N i"
  by (auto simp: createSession_def createDefaultSessionRecords_def buildSessionRecords_def default_identity_def generateLogId_def hex64_def
      length_bytesToHex length_sha256 dest!: identity_object_parsed split: option.splits if_splits)

lemma mutate_identities: "vs_identity (snd (mutateVotes N env sid c pw st)) = vs_identity st"
  by (auto simp: mutateVotes_def installMappedVoteMutation_def split: option.split sum.split prod.split)

lemma evict_identities:
  assumes "default_identities N st"
  shows "default_identities N (evict_stale now sids st)"
proof -
  have "default_identities N (fold (\<lambda>s st'. case vs_voting st s of
      Some v \<Rightarrow> if now - vr_lastActivityMs v > FIVE_MINUTES_MS then deleteSessionRecords (vr_sessionId v) st' else st'
    | None \<Rightarrow> st') sids st')" if "default_identities N st'" for st'
    using that
  proof (induction sids arbitrary: st')
    case (Cons s sids)
    have "default_identities N (deleteSessionRecords x st')" for x
      using Cons.prems by (simp add: default_identities_def deleteSessionRecords_def)
    then show ?case using Cons.prems by (cases "vs_voting st s") (simp_all add: Cons.IH)
  qed simp
  then show ?thesis using assms by (simp add: evict_stale_def)
qed

lemma call_identities:
  assumes "noble_ok N" "default_identities N st"
  shows "default_identities N (call_store N e st)"
proof (cases e)
  case (CreateSession sid eid t)
  then show ?thesis
    using assms created_default [OF assms(1), of sid eid t st]
    by (auto simp: default_identities_def createSession_def split: prod.splits option.splits if_splits)
next
  case (EvictStale now sids)
  then show ?thesis using evict_identities [OF assms(2)] by simp
qed (use assms(2) in \<open>auto simp: default_identities_def mutate_identities addVote_def addBotVotes_def mark_finalization_def with_lifecycle_def vote_touch_def
    split: prod.splits sum.splits\<close>)

interpretation default_elections: invariant_system "\<lambda>st. noble_ok N \<and> st = empty_store" "vote_store_step N" "\<lambda>st. noble_ok N \<and> default_identities N st" for N
proof
  show "noble_ok N \<and> default_identities N st" if "noble_ok N \<and> st = empty_store" for st
    using that by (simp add: default_identities_def empty_store_def)
  show "noble_ok N \<and> default_identities N st'" if "noble_ok N \<and> default_identities N st" "vote_store_step N st e st'" for st e st'
    using that call_identities by (auto simp: vote_store_step_def)
qed

lemma reachable_identity:
  assumes "noble_ok N" "runs (vote_store_step N) empty_store es st" "vs_identity st s = Some i"
  shows "default_identity N i"
  using default_elections.reachable_inv [of N empty_store es st] assms by (auto simp: default_identities_def)

text \<open>The input of a stored session.\<close>

definition session_input :: "noble \<Rightarrow> session_identity \<Rightarrow> session_voting \<Rightarrow> int \<Rightarrow> zkvm_input" where
  "session_input N ident v ts =
     (let votes = vr_votes v in
      \<lparr>zi_electionId = id_electionId ident, zi_electionConfigHash = id_electionConfigHash ident,
       zi_bulletinRoot = ''0x'' @ root_at N (commits votes) (length votes - 1), zi_treeSize = js_int (int (length votes)),
       zi_totalExpected = js_int (ec_totalExpected (id_electionConfig ident)), zi_logId = id_logId ident, zi_timestamp = js_int ts,
       zi_votes = map (input_vote N (commits votes)) votes\<rparr>)"

lemma session_input_built:
  assumes "noble_ok N" "session_inv N ident v" "hasStoredVotes (vr_votes v)" "history_safe (vr_bulletinRootHistory v)" "vr_votes v \<noteq> []"
    "default_identity N ident" "0 < fb" "nonneg_safe fb"
  obtains ts where "buildZkVMInputFromSession N now fb False ident v = Inr (session_input N ident v ts)" "0 < ts" "nonneg_safe ts"
proof -
  let ?votes = "vr_votes v" and ?n = "length (vr_votes v)"
  note D = session_invD [OF assms(2)]
  note L = log_okD [OF D(1)]
  obtain x where x: "id_logId ident = ''0x'' @ x" "hex64 x" using assms(6) by (auto simp: default_identity_def)
  obtain s b where s: "getLatestSTHSnapshot N now fb False v = (Inr s, b)" "head_ok N (commits ?votes) s" "filled N (id_logId ident) (entries ?votes) b"
    by (rule session_head [OF assms(1) D(1) D(6) assms(3-5,7,8)])
  have "js_sort by_index (map fst ?votes) = map int [0..<?n]"
    using L(1) js_sort_sorted [of by_index "map int [0..<?n]"] by (simp add: keyed_def by_index_def sorted_wrt_iff_nth_less)
  moreover have "those (map (\<lambda>i. asVoteIndex (js_int i)) (map int [0..<?n])) = Some (map int [0..<?n])"
    using D(6) by (auto simp: those_Some asVoteIndex_def assertNonNegativeSafeInteger_def)
  ultimately have "resolveInputVoteIndices False ?votes = Inr (map int [0..<?n])"
    using keyed_canonical [OF L(1) D(6)] L(1) by (simp add: resolveInputVoteIndices_def Let_def keyed_def)
  then have "buildVotesWithProofs N False v (id_electionId ident) (int ?n) b = Inr (map (input_vote N (commits ?votes)) ?votes)"
    using stored_votes_input [OF assms(1) D(1,6) s(3), of 0] by (simp add: buildVotesWithProofs_def)
  moreover have "hasMatchingElectionConfigHash N (id_electionConfig ident) (id_electionConfigHash ident)"
    using assms(6) by (simp add: default_identity_def hasMatchingElectionConfigHash_def getDefaultElectionConfigHash_def)
  ultimately have "buildZkVMInputFromSession N now fb False ident v = Inr (session_input N ident v (sn_timestamp s))"
    using s(1,2) x D(2) by (simp add: buildZkVMInputFromSession_def session_input_def Let_def head_ok_def)
  then show thesis using that s(2) by (simp add: head_ok_def)
qed

section \<open>The execution of a stored session\<close>

lemma res_map_defined: "\<forall>x \<in> set xs. \<exists>y. f x = Inr y \<Longrightarrow> \<exists>ys. res_map f xs = Inr ys"
  by (induction xs) auto

lemma path_nodes_bounded:
  assumes "\<forall>v \<in> set vs. length (cv_merklePath v) \<le> 64" "0 \<le> m" "m + 64 * int (length vs) \<le> 1000000"
  shows "\<exists>t. path_nodes_loop k m vs = Inr t \<and> 0 \<le> t \<and> t \<le> m + 64 * int (length vs)"
  using assms
proof (induction vs arbitrary: k m)
  case (Cons v vs)
  let ?m = "m + int (length (cv_merklePath v))"
  have "length (cv_merklePath v) \<le> 64" using Cons.prems(1) by simp
  then have m: "0 \<le> ?m" "?m \<le> m + 64" "?m + 64 * int (length vs) \<le> 1000000" using Cons.prems(2,3) by simp_all
  have "\<exists>t. path_nodes_loop (Suc k) ?m vs = Inr t \<and> 0 \<le> t \<and> t \<le> ?m + 64 * int (length vs)" by (rule Cons.IH) (use Cons.prems(1) m in auto)
  then show ?case using m Cons.prems(2,3) by (auto simp: Let_def MAX_GUEST_MERKLE_PATH_NODES_PER_RECORD_def MAX_SAFE_INTEGER_def)
qed simp

lemma budget_ok:
  assumes "zi_treeSize inp = js_int n" "zi_totalExpected inp = js_int m" "1 \<le> n" "n \<le> 64" "m \<le> 64" "length (zi_votes inp) \<le> 64"
    "\<forall>v \<in> set (zi_votes inp). length (cv_merklePath v) \<le> 64"
  shows "\<exists>b. validateGuestWorkBudget inp None = Inr b"
proof -
  obtain t where t: "path_nodes_loop 0 0 (zi_votes inp) = Inr t" "0 \<le> t" "t \<le> 4096"
    using path_nodes_bounded [OF assms(7), of 0 0] assms(6) by auto
  then show ?thesis
    using assms
    by (simp add: validateGuestWorkBudget_def calculateTotalPathNodes_def calculateStructuralInputBytes_def Let_def
        MAX_GUEST_TREE_SIZE_def MAX_GUEST_TOTAL_EXPECTED_def MAX_GUEST_VOTE_COUNT_def MAX_GUEST_TOTAL_PATH_NODES_def
        MAX_GUEST_SERIALIZED_INPUT_BYTES_def FIXED_INPUT_BYTES_def VOTE_FIXED_BYTES_def VEC_LEN_BYTES_def MERKLE_PATH_NODE_BYTES_def MAX_SAFE_INTEGER_def)
qed

lemma opened_votes_tallied: "\<forall>v \<in> set vs. opens N inp v \<Longrightarrow> \<exists>t. tally_loop N inp vs s = Inr t"
proof (induction vs arbitrary: s)
  case (Cons v vs)
  have "\<exists>s'. tally_vote N inp v s = Inr s'" using Cons.prems by (auto simp: tally_vote_def validateVote_def opens_def Let_def)
  then show ?case using Cons by auto
qed simp

lemma choice_range: "0 \<le> choice_number c" "choice_number c \<le> 4"
  by (cases c; simp)+

text \<open>The votes of the input open their commitments and claim different slots and commitments.\<close>

lemma session_votes:
  assumes "noble_ok N" "session_inv N ident v" "w \<in> set (vr_votes v)"
  shows "opens N (session_input N ident v ts) (input_vote N (commits (vr_votes v)) w)" "slot_of (input_vote N (commits (vr_votes v)) w) = nat (fst w)"
    "0 \<le> fst w" "fst w < int (length (vr_votes v))" "length (cv_merklePath (input_vote N (commits (vr_votes v)) w)) \<le> 64"
proof -
  note D = session_invD [OF assms(2)]
  note L = log_okD [OF D(1)]
  obtain i u where w: "w = (i, u)" by (cases w)
  have "prepared_ok N (id_electionId ident) u" using L(4) assms(3) w by blast
  then show "opens N (session_input N ident v ts) (input_vote N (commits (vr_votes v)) w)"
    using choice_range by (simp add: opens_def session_input_def Let_def input_vote_def w prepared_ok_def MAX_CHOICE_VALUE_def)
  show "slot_of (input_vote N (commits (vr_votes v)) w) = nat (fst w)" by (simp add: slot_of_def input_vote_def)
  show b: "0 \<le> fst w" "fst w < int (length (vr_votes v))" using keyed_bound [OF L(1), of i u] assms(3) w by auto
  then have "nat (fst w) < length (commits (vr_votes v))" by (simp add: nat_less_iff)
  from path_in_facts(2) [OF assms(1) this] show "length (cv_merklePath (input_vote N (commits (vr_votes v)) w)) \<le> 64"
    using D(3) by (simp add: input_vote_def)
qed

lemma wire_numbers_ok:
  assumes "0 \<le> fst w" "fst w < 64"
  shows "assertVoteWireNumbers (input_vote N cs w) = Inr ()"
  using assms choice_range [of "pv_vote (snd w)"]
  by (simp add: assertVoteWireNumbers_def assertRustWireNumber_def input_vote_def UINT8_MAX_def UINT32_MAX_def MAX_SAFE_INTEGER_def)

lemma sth_digest_defined:
  assumes "noble_ok N" "hex64 x" "hex64 r" "n \<le> 64"
  shows "\<exists>d. computeSTHDigest N (''0x'' @ x) (js_int (int n)) ts (''0x'' @ r) = Inr d"
proof -
  obtain l rs where "zk_hexToBytesStrict N (''0x'' @ x) = Inr l" "zk_hexToBytesStrict N (''0x'' @ r) = Inr rs"
    using hex64_bytes [OF assms(1)] assms(2,3) by blast
  moreover have "uint32LE (js_int (int n)) = Inr (le_bytes 4 (int n))"
    using assms(4) by (simp add: uint32LE_def assertUnsignedIntegerInRange_def UINT32_MAX_def MAX_SAFE_INTEGER_def)
  ultimately show ?thesis by (simp add: computeSTHDigest_def)
qed

lemma session_executes:
  assumes "noble_ok N" "session_inv N ident v" "vr_votes v \<noteq> []" "default_identity N ident" "0 < ts" "nonneg_safe ts"
  shows "\<exists>r. executeMockZkVM N imageId mk (session_input N ident v ts) = Inr r"
proof -
  let ?inp = "session_input N ident v ts" and ?n = "length (vr_votes v)"
  note D = session_invD [OF assms(2)]
  note V = session_votes [OF assms(1,2)]
  have f: "zi_treeSize ?inp = js_int (int ?n)" "zi_totalExpected ?inp = js_int 64" "zi_timestamp ?inp = js_int ts"
    "zi_votes ?inp = map (input_vote N (commits (vr_votes v))) (vr_votes v)" "1 \<le> int ?n" "ts \<le> MAX_SAFE_INTEGER"
    using assms(3-6) by (auto simp: session_input_def Let_def default_identity_def buildDefaultElectionConfig_def BOT_COUNT_def
        nonneg_safe_def isNonNegativeSafeInteger_def Suc_le_eq)
  have "\<exists>u. assertVoteWireNumbers x = Inr u" if "x \<in> set (zi_votes ?inp)" for x
    using that V(3,4) D(3) wire_numbers_ok unfolding f(4) by fastforce
  from res_map_defined [of "zi_votes ?inp" assertVoteWireNumbers] this obtain us where us: "res_map assertVoteWireNumbers (zi_votes ?inp) = Inr us" by blast
  then have 1: "assertZkvmWireNumericPreflight ?inp = Inr ()"
    using f D(3,6) assms(5) by (simp add: assertZkvmWireNumericPreflight_def assertRustWireNumber_def UINT32_MAX_def) (simp add: MAX_SAFE_INTEGER_def)
  obtain b where 2: "validateGuestWorkBudget ?inp None = Inr b"
    using budget_ok [OF f(1,2,5)] D(3) V(5) f(4) by auto
  obtain t where 3: "verifyAndTallyVotes N ?inp = Inr t"
    unfolding verifyAndTallyVotes_def using opened_votes_tallied [of "zi_votes ?inp" N ?inp "initial_tally ?inp"] V(1) f(4) by auto
  have 4: "asUnixTimestampMillis (zi_timestamp ?inp) = Inr ts"
    using f(3,6) assms(5) by (simp add: asUnixTimestampMillis_def assertUnsignedIntegerInRange_def)
  obtain x where x: "id_logId ident = ''0x'' @ x" "hex64 x" using assms(4) by (auto simp: default_identity_def)
  have "hex64 (root_at N (commits (vr_votes v)) (?n - 1))" by (simp add: root_at_def root_hex64 [OF assms(1)])
  from sth_digest_defined [OF assms(1) x(2) this D(3)]
  obtain d where 5: "computeSTHDigest N (zi_logId ?inp) (zi_treeSize ?inp) ts (zi_bulletinRoot ?inp) = Inr d"
    by (auto simp: session_input_def Let_def x(1))
  show ?thesis using 1 2 3 4 5 by (auto simp: executeMockZkVM_def Let_def)
qed

section \<open>Every stored vote is counted\<close>

lemma undisputed_distinct:
  assumes "distinct (map slot_of vs)" "distinct (map cv_commitment vs)" "v \<in> set vs"
  shows "undisputed vs v"
proof -
  have "inj_on slot_of (set vs)" "inj_on cv_commitment (set vs)" using assms(1,2) by (simp_all add: distinct_map)
  then show ?thesis using assms(3) unfolding undisputed_def inj_on_def by blast
qed

lemma session_distinct:
  assumes "session_inv N ident v"
  shows "distinct (map slot_of (zi_votes (session_input N ident v ts)))" "distinct (map cv_commitment (zi_votes (session_input N ident v ts)))"
proof -
  let ?votes = "vr_votes v"
  note L = log_okD [OF session_invD(1) [OF assms]]
  have "map slot_of (zi_votes (session_input N ident v ts)) = map nat (map fst ?votes)"
    by (simp add: session_input_def Let_def slot_of_def input_vote_def)
  also have "\<dots> = [0..<length ?votes]" using L(1) unfolding keyed_def by (simp add: map_idI)
  finally show "distinct (map slot_of (zi_votes (session_input N ident v ts)))" by simp
  have "commitments (vr_bulletin v) = map (drop 2) (map (pv_commit \<circ> snd) ?votes)" "distinct (commitments (vr_bulletin v))"
    using L(2) board_invD(3) [of N "vr_bulletin v"] by (simp_all add: filled_def commits_def entry_of_def)
  then have "distinct (map (pv_commit \<circ> snd) ?votes)" by (metis distinct_map)
  moreover have "map cv_commitment (zi_votes (session_input N ident v ts)) = map (pv_commit \<circ> snd) ?votes"
    by (simp add: session_input_def Let_def input_vote_def)
  ultimately show "distinct (map cv_commitment (zi_votes (session_input N ident v ts)))" by simp
qed

lemma session_counted:
  assumes "noble_ok N" "session_inv N ident v" "tallied N (session_input N ident v ts) (zi_votes (session_input N ident v ts)) cs t"
  shows "mset cs = mset (zi_votes (session_input N ident v ts))"
proof -
  let ?inp = "session_input N ident v ts"
  note d = talliedD [OF assms(3)] and u = session_distinct [OF assms(2), of ts]
  note V = session_votes [OF assms(1,2)]
  have z: "zi_votes ?inp = map (input_vote N (commits (vr_votes v))) (vr_votes v)" "zi_treeSize ?inp = js_int (int (length (vr_votes v)))"
    by (simp_all add: session_input_def Let_def)
  have "in_range ?inp x \<and> opens N ?inp x" if "x \<in> set (zi_votes ?inp)" for x
    using that V(1,4) z by (auto simp: in_range_def input_vote_def)
  then have "set cs = set (zi_votes ?inp)" using d(12,13) undisputed_distinct [OF u] by blast
  moreover have "distinct cs" "distinct (zi_votes ?inp)" using d(10) u(1) by (simp_all add: distinct_map)
  ultimately show ?thesis by (simp add: set_eq_iff_mset_eq_distinct)
qed

lemma choice_number_inj [simp]: "choice_number a = choice_number b \<longleftrightarrow> a = b"
  by (cases a; cases b) simp_all

lemma session_choices:
  assumes "mset cs = mset (zi_votes (session_input N ident v ts))"
  shows "length (filter (\<lambda>x. zv_choice x = choice_number c) cs) = length (filter (\<lambda>(i, w). pv_vote w = c) (vr_votes v))"
    "length cs = length (vr_votes v)"
proof -
  have "length (filter P cs) = length (filter P (zi_votes (session_input N ident v ts)))" for P
    using arg_cong [OF assms, of "\<lambda>M. size (filter_mset P M)"] by (simp flip: mset_filter)
  then show "length (filter (\<lambda>x. zv_choice x = choice_number c) cs) = length (filter (\<lambda>(i, w). pv_vote w = c) (vr_votes v))"
    by (simp add: session_input_def Let_def filter_map comp_def input_vote_def case_prod_unfold)
  show "length cs = length (vr_votes v)" using arg_cong [OF assms, of size] by (simp add: session_input_def Let_def)
qed

lemma matches_weaker: "matches ps s \<Longrightarrow> list_all2 (\<lambda>p q. \<forall>c. p c \<longrightarrow> q c) ps qs \<Longrightarrow> matches qs s"
proof (induction ps s arbitrary: qs rule: matches.induct)
  case (2 p ps c cs)
  then show ?case by (cases qs) auto
qed auto

lemma uuid_v4_pattern: "matches uuidV4Regex e \<Longrightarrow> matches UUID_PATTERN e"
  by (erule matches_weaker) (simp add: uuidV4Regex_def UUID_PATTERN_def list.rel_refl list_all2_appendI)

lemma session_tally:
  assumes "noble_ok N" "session_inv N ident v" "vr_votes v \<noteq> []" "default_identity N ident" "matches uuidV4Regex (id_electionId ident)"
    "executeMockZkVM N imageId mk (session_input N ident v ts) = Inr r" "isValidHexString imageId (Some 32)"
  obtains j where "admitCurrentExecutionJournal r = Some j"
    "j_verifiedTally j = Some (map (\<lambda>c. js_int (int (length (filter (\<lambda>(i, w). pv_vote w = c) (vr_votes v))))) [ChoiceA, ChoiceB, ChoiceC, ChoiceD, ChoiceE])"
    "j_excludedSlots j = Some (js_int 0)" "j_treeSize j = js_int (int (length (vr_votes v)))" "j_electionId j = id_electionId ident"
    "j_bulletinRoot j = ''0x'' @ root_at N (commits (vr_votes v)) (length (vr_votes v) - 1)"
    "j_includedBitmapRoot j = computeIncludedBitmapRootHex N (replicate (length (vr_votes v)) True)"
proof -
  let ?inp = "session_input N ident v ts" and ?n = "length (vr_votes v)"
  have z: "zi_electionId ?inp = id_electionId ident" "zi_electionConfigHash ?inp = getDefaultElectionConfigHash N"
    "zi_bulletinRoot ?inp = ''0x'' @ root_at N (commits (vr_votes v)) (?n - 1)" "zi_treeSize ?inp = js_int (int ?n)"
    using assms(4) by (simp_all add: session_input_def Let_def default_identity_def)
  have h: "isJournalHash (Some (zi_electionConfigHash ?inp))" "isJournalHash (Some (zi_bulletinRoot ?inp))" "matches UUID_PATTERN (zi_electionId ?inp)"
    unfolding z using digest_hex [OF assms(1)] prefixed_hex(2) root_hex64 [OF assms(1)] uuid_v4_pattern [OF assms(5)]
    by (simp_all add: getDefaultElectionConfigHash_def hashElectionConfig_def root_at_def hex64_def)
  obtain t cs n j where x: "tallied N ?inp (zi_votes ?inp) cs t" "zi_treeSize ?inp = js_int (int n)"
    "admitCurrentExecutionJournal r = Some j"
    "j_verifiedTally j = Some (map (\<lambda>k. js_int (int (length (filter (\<lambda>v. zv_choice v = k) cs)))) [0, 1, 2, 3, 4])"
    "j_excludedSlots j = Some (js_int (int (n - length cs)))" "j_includedBitmapRoot j = computeIncludedBitmapRootHex N (ta_includedBitmap t)"
    "j_treeSize j = js_int (int n)" "j_bulletinRoot j = zi_bulletinRoot ?inp" "j_electionId j = zi_electionId ?inp"
    by (rule execution_journal [OF assms(1,6) h(3,1,2) assms(7)])
  have n: "n = ?n" using x(2) z(4) by simp
  note M = session_counted [OF assms(1,2) x(1)]
  note d = talliedD [OF x(1)]
  have bit: "ta_includedBitmap t ! i" if lt: "i < ?n" for i
  proof -
    have "i \<in> slot_of ` set (zi_votes ?inp)"
    proof -
      obtain w where w: "vr_votes v ! i = (int i, w)" using keyed_nth [OF log_okD(1) [OF session_invD(1) [OF assms(2)]] lt] ..
      then have "slot_of (input_vote N (commits (vr_votes v)) (vr_votes v ! i)) = i" by (simp add: slot_of_def input_vote_def)
      then show ?thesis using lt by (force simp: session_input_def Let_def intro: nth_mem)
    qed
    moreover have "set cs = set (zi_votes ?inp)" using M by (rule mset_eq_setD)
    ultimately show ?thesis using d(2) d(4) [of i] lt z(4) by simp
  qed
  have "ta_includedBitmap t = replicate ?n True" using d(2) z(4) bit by (intro nth_equalityI) auto
  then show thesis
    using that [OF x(3)] x(4-9) n session_choices [OF M] z
    by (simp add: session_choices(1) [OF M, of ChoiceA, simplified] session_choices(1) [OF M, of ChoiceB, simplified] session_choices(1) [OF M, of ChoiceC, simplified]
        session_choices(1) [OF M, of ChoiceD, simplified] session_choices(1) [OF M, of ChoiceE, simplified])
qed

section \<open>Property\<close>

text \<open>C2: the ballot box is tallied exactly.  In every reachable store, for every session with at least one vote, the input of
  the tally is built, the executor returns on it, and the finalization admits the journal: the tally is the number of
  stored votes for each choice, no slot is excluded, the bitmap of counted votes is full, and election, size and root
  are those of the session's board.\<close>

theorem stored_session_tallied_exactly:
  assumes "noble_ok N" "runs (vote_store_step N) empty_store es st" "getSessionIdentity s st = Some ident" "getVotingRecord s st = Some v"
    "vr_votes v \<noteq> []" "0 < fallback" "nonneg_safe fallback" "isValidHexString imageId (Some 32)"
  shows "\<exists>inp result j. buildZkVMInputFromSession N now fallback False ident v = Inr inp \<and>
    executeMockZkVM N imageId mockReceipt inp = Inr result \<and> admitCurrentExecutionJournal result = Some j \<and>
    j_verifiedTally j = Some (map (\<lambda>c. js_int (int (length (filter (\<lambda>(i, w). pv_vote w = c) (vr_votes v))))) [ChoiceA, ChoiceB, ChoiceC, ChoiceD, ChoiceE]) \<and>
    j_excludedSlots j = Some (js_int 0) \<and> j_includedBitmapRoot j = computeIncludedBitmapRootHex N (replicate (length (vr_votes v)) True) \<and>
    j_electionId j = id_electionId ident \<and> j_treeSize j = js_int (getSize (vr_bulletin v)) \<and>
    j_bulletinRoot j = ''0x'' @ log_root_of N (map (leaf_bytes N) (commitments (vr_bulletin v)))"
proof -
  note inv = reachable_store [OF assms(1,2)]
  have vs: "vs_identity st s = Some ident" "vs_voting st s = Some v"
    using assms(3,4) read_identity_Some by (auto simp: getSessionIdentity_def getVotingRecord_def split: option.splits if_splits)
  have r: "read_identity s st = Some ident" "session_inv N ident v" "isVotingRecord v ident" "history_safe (vr_bulletinRootHistory v)"
    using vote_store_invD(2) [OF inv vs(2)] vs(1) by auto
  have e: "matches uuidV4Regex (id_electionId ident)" using r(1) parsed_election by (auto simp: read_identity_def bind_eq_Some_conv)
  have "hasStoredVotes (vr_votes v)" using r(3) by (simp add: isVotingRecord_def split: if_splits)
  note di = reachable_identity [OF assms(1,2) vs(1)]
  obtain ts where ts: "buildZkVMInputFromSession N now fallback False ident v = Inr (session_input N ident v ts)" "0 < ts" "nonneg_safe ts"
    by (rule session_input_built [OF assms(1) r(2) \<open>hasStoredVotes (vr_votes v)\<close> r(4) assms(5) di assms(6,7)])
  obtain result where x: "executeMockZkVM N imageId mockReceipt (session_input N ident v ts) = Inr result"
    using session_executes [OF assms(1) r(2) assms(5) di ts(2,3)] by blast
  have f: "filled N (id_logId ident) (entries (vr_votes v)) (vr_bulletin v)" by (rule log_okD(2) [OF session_invD(1) [OF r(2)]])
  have "getSize (vr_bulletin v) = int (length (vr_votes v))" "commitments (vr_bulletin v) = commits (vr_votes v)"
    using filled_contents(2) [OF f] f by (simp_all add: filled_def)
  moreover have "root_at N (commits (vr_votes v)) (length (vr_votes v) - 1) = log_root_of N (map (leaf_bytes N) (commits (vr_votes v)))"
    using assms(5) by (simp add: root_at_def Suc_diff_1)
  moreover obtain j where "admitCurrentExecutionJournal result = Some j"
    "j_verifiedTally j = Some (map (\<lambda>c. js_int (int (length (filter (\<lambda>(i, w). pv_vote w = c) (vr_votes v))))) [ChoiceA, ChoiceB, ChoiceC, ChoiceD, ChoiceE])"
    "j_excludedSlots j = Some (js_int 0)" "j_treeSize j = js_int (int (length (vr_votes v)))" "j_electionId j = id_electionId ident"
    "j_bulletinRoot j = ''0x'' @ root_at N (commits (vr_votes v)) (length (vr_votes v) - 1)"
    "j_includedBitmapRoot j = computeIncludedBitmapRootHex N (replicate (length (vr_votes v)) True)"
    by (rule session_tally [OF assms(1) r(2) assms(5) di e x assms(8)])
  ultimately show ?thesis
    using ts(1) x by (intro exI [of _ "session_input N ident v ts"] exI [of _ result] exI [of _ j]) simp
qed

theorem stored_session_tallied_exactly_witness:
  "\<exists>ident v inp result j. getSessionIdentity ''s-1'' demo_voted = Some ident \<and> getVotingRecord ''s-1'' demo_voted = Some v \<and> vr_votes v \<noteq> [] \<and>
     buildZkVMInputFromSession demo_noble 9 8 False ident v = Inr inp \<and> executeMockZkVM demo_noble demo_hash (\<lambda>_ _. JNull) inp = Inr result \<and>
     admitCurrentExecutionJournal result = Some j \<and> j_excludedSlots j = Some (js_int 0)"
proof -
  note inv = reachable_store [OF demo_noble_ok demo_runs(2)]
  obtain v stored rest where v: "vs_voting demo_voted ''s-1'' = Some v" "vr_votes v = (0, stored) # rest" by (rule demo_stored)
  obtain i where i: "vs_identity demo_voted ''s-1'' = Some i" using vote_store_invD(2) [OF inv v(1)] by blast
  have n: "nonneg_safe 8" "isValidHexString demo_hash (Some 32)" by code_simp+
  note g = readings(4,3) [OF inv v(1) i]
  from stored_session_tallied_exactly [OF demo_noble_ok demo_runs(2) g _ _ n(1) n(2), of 9 "\<lambda>_ _. JNull"] g v(2)
  show ?thesis by (intro exI [of _ i] exI [of _ v]) auto
qed

end
