(* ===== verification/Presentation.thy ===== *)
theory Presentation
  imports Stages
begin

text \<open>
  What a voter is shown (packages/verification/src/verification/verification-presentation-policy.ts): the display decision,
  the derivation of the presentation policy, and the checks that a published presentation agrees with the published
  facts.  An exception of the source is a value \<open>Inl\<close>.
\<close>

section \<open>Data\<close>

datatype presentation_availability = DataAvailable | DataUnavailable | DataCorrupt

datatype display_status = DisplayVerified | DisplayFailed | DisplayWarning | DisplayDemoOnly

datatype explicit_failure = ExplicitFailed | ExplicitWarning | ExplicitDemoOnly

fun explicit_display :: "explicit_failure \<Rightarrow> display_status" where
  "explicit_display ExplicitFailed = DisplayFailed"
| "explicit_display ExplicitWarning = DisplayWarning"
| "explicit_display ExplicitDemoOnly = DisplayDemoOnly"

datatype display_source = FromServerFailure | FromSummary | FromHardFailure | FromPending | FromUnavailable | FromCorrupt

datatype display_readiness = NotStarted | SequenceIncomplete | ChecksPending | Ready

record display_decision_input =
  di_verificationStarted :: bool
  di_sequenceComplete :: bool
  di_hasCheckPending :: bool
  di_explicitServerFailureStatus :: "explicit_failure option"
  di_summaryTone :: "summary_tone option"
  di_hasVerificationChecks :: bool
  di_hardFailureDetected :: bool

record display_decision =
  dd_readiness :: display_readiness
  dd_source :: "display_source option"
  dd_status :: "display_status option"
  dd_renderedStatus :: "display_status option"

type_synonym stage_statuses = "step_id \<Rightarrow> step_status"

record policy_input =
  pi_availability :: presentation_availability
  pi_checks :: "verification_check list option"
  pi_context :: "summary_context option"
  pi_verificationStatus :: "verifier_status option"
  pi_verificationReportStatus :: "verifier_status option"
  pi_explicitServerFailureStatus :: "explicit_failure option"
  pi_verificationStarted :: "bool option"
  pi_sequenceComplete :: "bool option"

record presentation_policy =
  pp_summary :: "summary_result option"
  pp_stageStatuses :: stage_statuses
  pp_evidenceFullyVerified :: bool
  pp_fullyVerifiedLabelEligible :: bool
  pp_display :: display_decision
  pp_publishedTallyMismatch :: bool
  pp_devModeEvidence :: bool
  pp_missingEvidence :: bool
  pp_explanationKey :: "string option"

datatype policy_error = ContradictoryFacts

section \<open>The display decision\<close>

definition isFullyVerifiedDisplayDecision :: "display_decision \<Rightarrow> bool" where
  "isFullyVerifiedDisplayDecision d = (dd_renderedStatus d = Some DisplayVerified)"

definition areAllVerificationStagesSuccessful :: "stage_statuses \<Rightarrow> bool" where
  "areAllVerificationStagesSuccessful ss =
     (ss cast_as_intended = Success \<and> ss recorded_as_cast = Success \<and> ss counted_as_recorded = Success \<and> ss stark_verification = Success)"

fun SUMMARY_TONE_TO_DISPLAY_STATUS :: "summary_tone \<Rightarrow> display_status" where
  "SUMMARY_TONE_TO_DISPLAY_STATUS ToneVerified = DisplayVerified"
| "SUMMARY_TONE_TO_DISPLAY_STATUS ToneDemo = DisplayDemoOnly"
| "SUMMARY_TONE_TO_DISPLAY_STATUS ToneWarning = DisplayWarning"
| "SUMMARY_TONE_TO_DISPLAY_STATUS ToneFailed = DisplayFailed"

definition resolveDisplayReadiness :: "bool \<Rightarrow> bool \<Rightarrow> bool \<Rightarrow> display_readiness" where
  "resolveDisplayReadiness verificationStarted sequenceComplete hasCheckPending =
     (if \<not> verificationStarted then NotStarted
      else if \<not> sequenceComplete then SequenceIncomplete
      else if hasCheckPending then ChecksPending
      else Ready)"

definition display_resolution :: "display_decision_input \<Rightarrow> (display_source \<times> display_status) option" where
  "display_resolution inp =
     (case di_explicitServerFailureStatus inp of
        Some s \<Rightarrow> Some (FromServerFailure, explicit_display s)
      | None \<Rightarrow>
          if di_hasVerificationChecks inp \<and> di_hardFailureDetected inp \<and> di_summaryTone inp \<noteq> Some ToneFailed
          then Some (FromHardFailure, DisplayFailed)
          else (case di_summaryTone inp of
                  Some t \<Rightarrow> Some (FromSummary, SUMMARY_TONE_TO_DISPLAY_STATUS t)
                | None \<Rightarrow>
                    if di_hasVerificationChecks inp \<and> di_hasCheckPending inp then Some (FromPending, DisplayWarning) else None))"

definition resolveVerificationDisplayDecision :: "display_decision_input \<Rightarrow> display_decision" where
  "resolveVerificationDisplayDecision inp =
     (let resolution = display_resolution inp;
          readiness = resolveDisplayReadiness (di_verificationStarted inp) (di_sequenceComplete inp) (di_hasCheckPending inp)
      in \<lparr>dd_readiness = readiness, dd_source = map_option fst resolution, dd_status = map_option snd resolution,
          dd_renderedStatus = (if readiness = Ready then map_option snd resolution else None)\<rparr>)"

section \<open>Stages\<close>

definition worse_status :: "step_status \<Rightarrow> step_status \<Rightarrow> step_status" where
  "worse_status left right = (if STATUS_PRIORITY right > STATUS_PRIORITY left then right else left)"

definition buildCheckResultMap :: "verification_check list \<Rightarrow> check_results" where
  "buildCheckResultMap checks =
     foldl (\<lambda>results c.
         if CHECK_DEFINITION_BY_ID (id_of c) = None then results
         else AList.update (id_of c)
                (outcome (case map_of results (id_of c) of Some r \<Rightarrow> worse_status (res_status r) (status c) | None \<Rightarrow> status c)) results)
       [] checks"

definition deriveStageStatuses :: "verification_check list \<Rightarrow> summary_context option \<Rightarrow> stage_statuses" where
  "deriveStageStatuses checks ctx =
     (let results = buildCheckResultMap checks; requirement = Some (ctx_get sthSourcesConfigured ctx = Some True) in
      (\<lambda>stepId. deriveStageStatusFromChecks results (getVerificationRequiredCheckIdsForStep stepId requirement)))"

definition hasSameStageStatuses :: "stage_statuses \<Rightarrow> stage_statuses \<Rightarrow> bool" where
  "hasSameStageStatuses left right = list_all (\<lambda>stepId. left stepId = right stepId) VERIFICATION_STEP_IDS"

definition empty_context :: summary_context where
  "empty_context = \<lparr>missingSlots = None, invalidPresentedSlots = None, rejectedRecords = None, excludedSlots = None,
                    sthSourcesConfigured = None, devModeEvidence = None\<rparr>"

definition resolveEffectiveSthSourcesConfigured :: "verification_check list \<Rightarrow> stage_statuses \<Rightarrow> bool" where
  "resolveEffectiveSthSourcesConfigured checks expectedStageStatuses =
     (let withoutConfiguredSth = deriveStageStatuses checks (Some (empty_context\<lparr>sthSourcesConfigured := Some False\<rparr>));
          thirdPartySthCheck = find (\<lambda>c. id_of c = recorded_sth_third_party) checks
      in (case thirdPartySthCheck of None \<Rightarrow> False | Some c \<Rightarrow> status c \<noteq> NotRun) \<or>
         expectedStageStatuses recorded_as_cast \<noteq> withoutConfiguredSth recorded_as_cast)"

text \<open>The steps shown: the statuses of the policy with the metadata of the server's steps, the last of equal identifiers.\<close>

record server_step =
  sv_id :: step_id
  sv_inputs :: "string list option"
  sv_error :: "string option"

record presented_step =
  ps_id :: step_id
  ps_status :: step_status
  ps_inputs :: "string list"
  ps_error :: "string option"

definition projectVerificationPresentationSteps :: "server_step list \<Rightarrow> presentation_policy \<Rightarrow> presented_step list" where
  "projectVerificationPresentationSteps steps policy =
     (let serverSteps = map_of (rev (map (\<lambda>s. (sv_id s, s)) steps)) in
      map (\<lambda>i. let serverStep = serverSteps i in
           \<lparr>ps_id = i, ps_status = pp_stageStatuses policy i,
            ps_inputs = (case Option.bind serverStep sv_inputs of Some ins \<Rightarrow> ins | None \<Rightarrow> getVerificationStepInputs i),
            ps_error = (let e = Option.bind serverStep sv_error in if truthy e then e else None)\<rparr>) VERIFICATION_STEP_IDS)"

section \<open>Failures\<close>

definition HARD_FAILURE_CHECK_IDS :: "check_id set" where
  "HARD_FAILURE_CHECK_IDS =
     {recorded_consistency_proof, counted_missing_indices_zero, counted_expected_vs_tree_size, counted_election_manifest_consistent,
      counted_close_statement_consistent, stark_receipt_verify}"

definition EXPLICIT_PROOF_FAILURE_CHECK_IDS :: "check_id set" where
  "EXPLICIT_PROOF_FAILURE_CHECK_IDS = {stark_image_id_match, stark_receipt_verify}"

definition hasFailedCheck :: "verification_check list \<Rightarrow> check_id set \<Rightarrow> bool" where
  "hasFailedCheck checks ids = list_ex (\<lambda>c. id_of c \<in> ids \<and> status c = Failed) checks"

definition hasFailClosedExclusionSignal :: "summary_context option \<Rightarrow> bool" where
  "hasFailClosedExclusionSignal ctx =
     (let missing = ctx_get missingSlots ctx; invalid = ctx_get invalidPresentedSlots ctx; excluded = ctx_get excludedSlots ctx;
          definedCounts = List.map_filter id [missing, invalid, excluded]
      in if list_ex (\<lambda>v. \<not> isSafeInteger v \<or> num_lt v (js_int 0)) definedCounts then True
         else if list_ex (\<lambda>v. num_lt (js_int 0) v) definedCounts then True
         else case (missing, invalid, excluded) of
                (Some m, Some i, Some e) \<Rightarrow> \<not> num_eq e (num_add m i)
              | _ \<Rightarrow> False)"

definition hasHardFailure :: "verification_check list \<Rightarrow> summary_context option \<Rightarrow> bool" where
  "hasHardFailure checks ctx =
     (if hasFailClosedExclusionSignal ctx then True
      else if hasFailedCheck checks HARD_FAILURE_CHECK_IDS then True
      else ctx_get sthSourcesConfigured ctx = Some True \<and>
           list_ex (\<lambda>c. id_of c = recorded_sth_third_party \<and> status c = Failed) checks)"

definition hasSuccessfulProofChecks :: "verification_check list \<Rightarrow> bool" where
  "hasSuccessfulProofChecks checks =
     (let receiptSucceeded = list_ex (\<lambda>c. id_of c = stark_receipt_verify \<and> status c = Success) checks;
          imageIdChecks = filter (\<lambda>c. id_of c = stark_image_id_match) checks;
          imageIdSucceededOrAbsent = (length imageIdChecks = 0 \<or> list_ex (\<lambda>c. status c = Success) imageIdChecks)
      in receiptSucceeded \<and> imageIdSucceededOrAbsent)"

definition resolvePresentationVerificationStatus :: "verifier_status option \<Rightarrow> verifier_status option \<Rightarrow> verifier_status option" where
  "resolvePresentationVerificationStatus verificationStatus reportStatus =
     (if verificationStatus = Some VRunning \<or> verificationStatus = Some VNotRun then verificationStatus
      else nullish reportStatus verificationStatus)"

definition hasExplicitProofFailure :: "verification_check list \<Rightarrow> verifier_status option \<Rightarrow> verifier_status option \<Rightarrow> bool" where
  "hasExplicitProofFailure checks verificationStatus reportStatus =
     (if reportStatus = Some VFailed \<or> hasFailedCheck checks EXPLICIT_PROOF_FAILURE_CHECK_IDS then True
      else
        let proofSucceeded = (reportStatus = Some VSuccess \<or> reportStatus = Some VDevMode \<or> hasSuccessfulProofChecks checks);
            resolvedStatus = resolvePresentationVerificationStatus verificationStatus reportStatus
        in resolvedStatus = Some VFailed \<and> \<not> proofSucceeded)"

section \<open>The policy\<close>

definition or_true :: "bool option \<Rightarrow> bool" where
  "or_true b = (case b of Some x \<Rightarrow> x | None \<Rightarrow> True)"

definition deriveUnavailableDisplay :: "bool \<Rightarrow> policy_input \<Rightarrow> display_decision" where
  "deriveUnavailableDisplay corrupt inp =
     (let readiness = resolveDisplayReadiness (or_true (pi_verificationStarted inp)) (or_true (pi_sequenceComplete inp)) False;
          src = (if corrupt then FromCorrupt else FromUnavailable); s = (if corrupt then DisplayFailed else DisplayWarning)
      in \<lparr>dd_readiness = readiness, dd_source = Some src, dd_status = Some s,
          dd_renderedStatus = (if readiness = Ready then Some s else None)\<rparr>)"

definition hasDevelopmentPresentationEvidence :: "policy_input \<Rightarrow> verification_check list \<Rightarrow> bool" where
  "hasDevelopmentPresentationEvidence inp checks =
     (ctx_get devModeEvidence (pi_context inp) = Some True \<or> pi_verificationStatus inp = Some VDevMode \<or>
      pi_verificationReportStatus inp = Some VDevMode \<or> list_ex (\<lambda>c. evidence c = Demo) checks)"

definition deriveAvailableDisplay ::
  "policy_input \<Rightarrow> verification_check list \<Rightarrow> summary_result option \<Rightarrow> bool \<Rightarrow> explicit_failure option \<Rightarrow> display_decision" where
  "deriveAvailableDisplay inp checks summary hardFailureDetected explicitServerFailureStatus =
     resolveVerificationDisplayDecision
       \<lparr>di_verificationStarted = or_true (pi_verificationStarted inp), di_sequenceComplete = or_true (pi_sequenceComplete inp),
        di_hasCheckPending = list_ex (\<lambda>c. status c = Pending \<or> status c = Running) checks,
        di_explicitServerFailureStatus = explicitServerFailureStatus, di_summaryTone = map_option tone summary,
        di_hasVerificationChecks = (length checks > 0), di_hardFailureDetected = hardFailureDetected\<rparr>"

definition hasFullyVerifiedSummaryEvidence :: "summary_result option \<Rightarrow> bool \<Rightarrow> explicit_failure option \<Rightarrow> bool" where
  "hasFullyVerifiedSummaryEvidence summary hardFailureDetected explicitServerFailureStatus =
     (map_option sum_status summary = Some fully_verified \<and> map_option tone summary = Some ToneVerified \<and>
      \<not> hardFailureDetected \<and> explicitServerFailureStatus = None)"

definition deriveIneligiblePresentationPolicy ::
  "summary_result option \<Rightarrow> stage_statuses \<Rightarrow> bool \<Rightarrow> display_decision \<Rightarrow> bool \<Rightarrow> policy_error + presentation_policy" where
  "deriveIneligiblePresentationPolicy summary stageStatuses evidenceFullyVerified display dev =
     (if isFullyVerifiedDisplayDecision display then Inl ContradictoryFacts
      else
        let key = Option.bind summary messageKey in
        Inr \<lparr>pp_summary = summary, pp_stageStatuses = stageStatuses, pp_evidenceFullyVerified = evidenceFullyVerified,
             pp_fullyVerifiedLabelEligible = False, pp_display = display,
             pp_publishedTallyMismatch = (map_option sum_status summary = Some published_tally_mismatch), pp_devModeEvidence = dev,
             pp_missingEvidence = (summary = None \<or> map_option sum_status summary = Some missing_evidence),
             pp_explanationKey = (if truthy key then key else None)\<rparr>)"

definition presentation_context :: "policy_input \<Rightarrow> summary_context option" where
  "presentation_context inp =
     (let checks = (case pi_checks inp of Some cs \<Rightarrow> cs | None \<Rightarrow> []);
          base = (case pi_context inp of Some c \<Rightarrow> c | None \<Rightarrow> empty_context)
      in Some (base\<lparr>devModeEvidence := Some (hasDevelopmentPresentationEvidence inp checks)\<rparr>))"

definition deriveVerificationPresentationPolicy :: "policy_input \<Rightarrow> policy_error + presentation_policy" where
  "deriveVerificationPresentationPolicy inp =
     (let checks = (case pi_checks inp of Some cs \<Rightarrow> cs | None \<Rightarrow> []);
          dev = hasDevelopmentPresentationEvidence inp checks
      in if pi_availability inp \<noteq> DataAvailable
         then Inr \<lparr>pp_summary = None, pp_stageStatuses = (\<lambda>_. NotRun), pp_evidenceFullyVerified = False, pp_fullyVerifiedLabelEligible = False,
                   pp_display = deriveUnavailableDisplay (pi_availability inp = DataCorrupt) inp, pp_publishedTallyMismatch = False,
                   pp_devModeEvidence = dev, pp_missingEvidence = True, pp_explanationKey = None\<rparr>
         else
           let ctx = presentation_context inp; summary = deriveVerificationSummary (Some checks) ctx; hard = hasHardFailure checks ctx;
               explicit = (case pi_explicitServerFailureStatus inp of
                             Some s \<Rightarrow> Some s
                           | None \<Rightarrow> if hasExplicitProofFailure checks (pi_verificationStatus inp) (pi_verificationReportStatus inp)
                                   then Some ExplicitFailed else None);
               display = deriveAvailableDisplay inp checks summary hard explicit;
               evidenceFullyVerified = hasFullyVerifiedSummaryEvidence summary hard explicit;
               stages = deriveStageStatuses checks ctx
           in if evidenceFullyVerified \<and> isFullyVerifiedDisplayDecision display \<and> areAllVerificationStagesSuccessful stages \<and> \<not> dev
              then Inr \<lparr>pp_summary = summary, pp_stageStatuses = stages, pp_evidenceFullyVerified = True, pp_fullyVerifiedLabelEligible = True,
                        pp_display = \<lparr>dd_readiness = Ready, dd_source = Some FromSummary, dd_status = Some DisplayVerified,
                                      dd_renderedStatus = Some DisplayVerified\<rparr>,
                        pp_publishedTallyMismatch = False, pp_devModeEvidence = False, pp_missingEvidence = False, pp_explanationKey = None\<rparr>
              else deriveIneligiblePresentationPolicy summary stages evidenceFullyVerified display dev)"

section \<open>Published evidence\<close>

record public_receipt =
  pr_voteId :: string
  pr_commitment :: string
  pr_bulletinIndex :: jsnum
  pr_bulletinRootAtCast :: string
  pr_inputCommitment :: string

record public_vote_proof =
  pq_leafIndex :: jsnum
  pq_treeSize :: jsnum
  pq_merklePath :: "string list"
  pq_bulletinRootAtCast :: string

record public_user_vote =
  pu_voteId :: string
  pu_commitment :: string
  pu_proof :: public_vote_proof

datatype voter_evidence = VoterAvailable public_receipt public_user_vote | VoterUnavailable

record public_proof =
  pf_imageId :: string
  pf_bulletinRoot :: string
  pf_inputCommitment :: string
  pf_seenBitmapRoot :: string
  pf_includedBitmapRoot :: string
  pf_verifiedTally :: "jsnum \<times> jsnum \<times> jsnum \<times> jsnum \<times> jsnum"
  pf_missingSlots :: jsnum
  pf_invalidPresentedSlots :: jsnum
  pf_rejectedRecords :: jsnum
  pf_excludedSlots :: jsnum
  pf_totalExpected :: jsnum
  pf_treeSize :: jsnum
  pf_seenIndicesCount :: jsnum

record shown_tamper =
  ts_ignoredVotes :: jsnum
  ts_recountedVotes :: jsnum
  ts_userRecountedTo :: "string option"
  ts_affectedBotIds :: "jsnum list option"

record public_presentation =
  pn_counts :: "string \<Rightarrow> jsnum"
  pn_totalVotes :: jsnum
  pn_tamperedCount :: "jsnum option"
  pn_tamperDetected :: "bool option"
  pn_tamperSummary :: "shown_tamper option"

text \<open>The receipt image identifier of a report may be \<^verbatim>\<open>null\<close>.\<close>

record public_report =
  pr_status :: verifier_status
  pr_expected_image_id :: string
  pr_receipt_image_id :: "string option"

record public_evidence =
  pe_scenarioId :: string
  pe_checks :: "verification_check list"
  pe_stageStatuses :: stage_statuses
  pe_verificationStatus :: verifier_status
  pe_verificationReport :: "public_report option"
  pe_proof :: public_proof
  pe_presentation :: public_presentation
  pe_voterEvidence :: voter_evidence

subsection \<open>Canonical checks\<close>

definition expected_evidence :: "bool \<Rightarrow> check_definition \<Rightarrow> evidence_kind" where
  "expected_evidence dev d = (if dev \<and> def_evidence d = Zk then Demo else def_evidence d)"

definition hasCanonicalVerificationCheckEvidence :: "verification_check list \<Rightarrow> bool \<Rightarrow> bool" where
  "hasCanonicalVerificationCheckEvidence checks dev =
     (if length checks \<noteq> length VERIFICATION_CHECK_DEFINITIONS then False
      else list_all2 (\<lambda>d c. id_of c = def_id d \<and> evidence c = expected_evidence dev d \<and> inputs c = def_inputs d \<and>
             derivedFrom c = def_derivedFrom d) VERIFICATION_CHECK_DEFINITIONS checks)"

definition projectCanonicalVerificationChecks :: "verification_check list \<Rightarrow> bool \<Rightarrow> verification_check list option" where
  "projectCanonicalVerificationChecks checks dev =
     (if \<not> hasCanonicalVerificationCheckEvidence checks dev then None
      else Some (map2 (\<lambda>d c. \<lparr>id_of = def_id d, status = status c, evidence = expected_evidence dev d, inputs = def_inputs d,
                              derivedFrom = def_derivedFrom d, noteKey = None\<rparr>) VERIFICATION_CHECK_DEFINITIONS checks))"

subsection \<open>Statuses recomputed from the published facts\<close>

type_synonym fact_statuses = "check_id \<Rightarrow> step_status option"

definition hasCoherentCanonicalFactChecks :: "verification_check list \<Rightarrow> fact_statuses \<Rightarrow> bool" where
  "hasCoherentCanonicalFactChecks checks statusById =
     (if list_ex (\<lambda>d. statusById (def_id d) = None \<or> (category d = cast_as_intended \<and> statusById (def_id d) \<noteq> Some NotRun) \<or>
            (case def_derivedFrom d of None \<Rightarrow> False | Some s \<Rightarrow> statusById (def_id d) \<noteq> statusById s)) VERIFICATION_CHECK_DEFINITIONS
      then False
      else if list_ex (\<lambda>c. id_of c \<noteq> counted_my_vote_included \<and> noteKey c \<noteq> None) checks then False
      else True)"

fun stark_step_status :: "verifier_status \<Rightarrow> step_status" where
  "stark_step_status VNotRun = NotRun"
| "stark_step_status VRunning = Running"
| "stark_step_status VFailed = Failed"
| "stark_step_status _ = Success"

definition resolvePublicFactZkGate :: "verifier_status \<Rightarrow> step_status option \<Rightarrow> step_status option" where
  "resolvePublicFactZkGate verificationStatus starkReceiptStatus =
     (if verificationStatus = VDevMode then (if starkReceiptStatus = Some NotRun then Some NotRun else None)
      else resolveZkGateStatus (stark_step_status verificationStatus))"

definition hasCoherentUngatedMyVoteCheck :: "public_evidence \<Rightarrow> verification_check \<Rightarrow> bool" where
  "hasCoherentUngatedMyVoteCheck inp c =
     (case pe_voterEvidence inp of
        VoterUnavailable \<Rightarrow>
          let expectedNote = (if num_lt (js_int 0) (pf_excludedSlots (pe_proof inp)) then Excluded else MissingReceipt)
          in \<not> (status c \<noteq> NotRun \<or> noteKey c \<noteq> Some expectedNote)
      | VoterAvailable _ _ \<Rightarrow> \<not> (noteKey c = Some MissingReceipt \<or> (status c = Success \<and> noteKey c \<noteq> None)))"

definition hasCoherentPublicMyVoteCheck :: "public_evidence \<Rightarrow> step_status option \<Rightarrow> bool" where
  "hasCoherentPublicMyVoteCheck inp zkGate =
     (case find (\<lambda>c. id_of c = counted_my_vote_included) (pe_checks inp) of
        None \<Rightarrow> False
      | Some c \<Rightarrow>
          (case zkGate of
             Some s \<Rightarrow> \<not> (status c \<noteq> s \<or> noteKey c \<noteq> None)
           | None \<Rightarrow> hasCoherentUngatedMyVoteCheck inp c))"

definition public_vote_receipt :: "public_receipt \<Rightarrow> vote_receipt" where
  "public_vote_receipt r =
     \<lparr>rc_voteId = Some (pr_voteId r), rc_commitment = Some (pr_commitment r), rc_bulletinIndex = pr_bulletinIndex r,
      rc_bulletinRootAtCast = pr_bulletinRootAtCast r\<rparr>"

definition public_vote_of :: "public_user_vote \<Rightarrow> user_vote" where
  "public_vote_of v =
     \<lparr>uv_vote = None, uv_random = None, uv_commitment = Some (pu_commitment v), uv_voteId = Some (pu_voteId v),
      uv_proof = Some \<lparr>pc_hasProofMode = False, pc_leafIndex = Some (pq_leafIndex (pu_proof v)), pc_treeSize = Some (pq_treeSize (pu_proof v)),
                       pc_merklePath = Some (map Some (pq_merklePath (pu_proof v))),
                       pc_bulletinRootAtCast = Some (pq_bulletinRootAtCast (pu_proof v))\<rparr>\<rparr>"

definition hasCoherentRecordedFactChecks :: "noble \<Rightarrow> public_evidence \<Rightarrow> fact_statuses \<Rightarrow> bool" where
  "hasCoherentRecordedFactChecks N inp statusById =
     (case pe_voterEvidence inp of
        VoterUnavailable \<Rightarrow>
          \<not> list_ex (\<lambda>i. statusById i \<noteq> Some NotRun) [recorded_index_in_range, recorded_inclusion_proof, recorded_consistency_proof]
      | VoterAvailable r v \<Rightarrow>
          statusById recorded_index_in_range =
            Some (res_status (resolveRecordedIndexInRange (Some (public_vote_receipt r)) (Some (pf_treeSize (pe_proof inp))))) \<and>
          statusById recorded_inclusion_proof =
            Some (res_status (resolveRecordedInclusionProof N (Some (public_vote_of v)) (Some (public_vote_receipt r)))))"

definition tally_list :: "jsnum \<times> jsnum \<times> jsnum \<times> jsnum \<times> jsnum \<Rightarrow> jsnum list" where
  "tally_list t = (case t of (a, b, c, d, e) \<Rightarrow> [a, b, c, d, e])"

definition hasCoherentCountedFactChecks :: "public_evidence \<Rightarrow> fact_statuses \<Rightarrow> step_status option \<Rightarrow> bool" where
  "hasCoherentCountedFactChecks inp statusById zkGate =
     (let pf = pe_proof inp in
      if zkGate \<noteq> None \<and>
         (statusById counted_election_manifest_consistent \<noteq> zkGate \<or> statusById counted_close_statement_consistent \<noteq> zkGate \<or>
          statusById counted_input_commitment_match \<noteq> zkGate) then False
      else
        statusById counted_missing_indices_zero =
          Some (res_status (resolveCountedMissingIndicesZero None (Some (pf_missingSlots pf)) (Some (pf_invalidPresentedSlots pf))
            (Some (pf_excludedSlots pf)) zkGate)) \<and>
        statusById counted_tally_consistent =
          Some (res_status (resolveCountedTallyConsistent None
            (Some \<lparr>ti_counts = Some (\<lambda>c. Some (pn_counts (pe_presentation inp) c)), ti_totalVotes = Some (pn_totalVotes (pe_presentation inp))\<rparr>)
            (Some (map Some (tally_list (pf_verifiedTally pf)))) zkGate)) \<and>
        statusById counted_expected_vs_tree_size =
          Some (res_status (resolveCountedExpectedVsTreeSize None (Some (pf_totalExpected pf)) (Some (pf_treeSize pf)) zkGate)))"

definition hasCoherentPublicFactDerivedCheckStatuses :: "noble \<Rightarrow> public_evidence \<Rightarrow> bool" where
  "hasCoherentPublicFactDerivedCheckStatuses N inp =
     (let statusById = map_of (rev (map (\<lambda>c. (id_of c, status c)) (pe_checks inp))) in
      if \<not> hasCoherentCanonicalFactChecks (pe_checks inp) statusById then False
      else
        let zkGate = resolvePublicFactZkGate (pe_verificationStatus inp) (statusById stark_receipt_verify) in
        hasCoherentPublicMyVoteCheck inp zkGate \<and> hasCoherentRecordedFactChecks N inp statusById \<and>
        hasCoherentCountedFactChecks inp statusById zkGate)"

subsection \<open>Checks of the verifier\<close>

definition isUnverifiedReceiptStatus :: "verifier_status \<Rightarrow> bool" where
  "isUnverifiedReceiptStatus s = (s = VNotRun \<or> s = VRunning \<or> s = VFailed)"

definition hasCoherentDevelopmentVerifierChecks :: "string option option \<Rightarrow> step_status \<Rightarrow> step_status \<Rightarrow> bool" where
  "hasCoherentDevelopmentVerifierChecks reportImageId imageStatus receiptStatus =
     (if receiptStatus = NotRun \<and> imageStatus = NotRun then True
      else
        let expectedImageStatus = (case reportImageId of None \<Rightarrow> NotRun | Some None \<Rightarrow> Failed | Some (Some _) \<Rightarrow> Success)
        in receiptStatus = Success \<and> imageStatus = expectedImageStatus)"

text \<open>\<open>reportImageId\<close> is the receipt image identifier of the report, if there is a report.\<close>

definition hasCoherentPublicVerifierChecks :: "verification_check list \<Rightarrow> verifier_status \<Rightarrow> string option option \<Rightarrow> bool" where
  "hasCoherentPublicVerifierChecks checks s reportImageId =
     (case (find (\<lambda>c. id_of c = stark_image_id_match) checks, find (\<lambda>c. id_of c = stark_receipt_verify) checks) of
        (Some imageIdCheck, Some receiptCheck) \<Rightarrow>
          if isUnverifiedReceiptStatus s then status imageIdCheck = stark_step_status s \<and> status receiptCheck = stark_step_status s
          else if s = VSuccess
          then status receiptCheck = Success \<and> status imageIdCheck = (if reportImageId = None then NotRun else Success)
          else hasCoherentDevelopmentVerifierChecks reportImageId (status imageIdCheck) (status receiptCheck)
      | _ \<Rightarrow> False)"

subsection \<open>The published policy\<close>

definition hasSameVerificationSummary :: "summary_result option \<Rightarrow> summary_result option \<Rightarrow> bool" where
  "hasSameVerificationSummary left right =
     (case (left, right) of
        (Some l, Some r) \<Rightarrow> sum_status l = sum_status r \<and> tone l = tone r \<and> messageKey l = messageKey r
      | (l, r) \<Rightarrow> l = None \<and> r = None)"

definition hasSameDisplayDecision :: "display_decision \<Rightarrow> display_decision \<Rightarrow> bool" where
  "hasSameDisplayDecision left right =
     (dd_readiness left = dd_readiness right \<and> dd_source left = dd_source right \<and> dd_status left = dd_status right \<and>
      dd_renderedStatus left = dd_renderedStatus right)"

definition hasSamePresentationExplanation :: "presentation_policy \<Rightarrow> presentation_policy \<Rightarrow> bool" where
  "hasSamePresentationExplanation derived candidate =
     (pp_publishedTallyMismatch derived = pp_publishedTallyMismatch candidate \<and> pp_devModeEvidence derived = pp_devModeEvidence candidate \<and>
      pp_missingEvidence derived = pp_missingEvidence candidate \<and> pp_explanationKey derived = pp_explanationKey candidate)"

definition hasSamePresentationPolicy :: "presentation_policy \<Rightarrow> presentation_policy \<Rightarrow> bool" where
  "hasSamePresentationPolicy derived candidate =
     (hasSameVerificationSummary (pp_summary derived) (pp_summary candidate) \<and>
      hasSameStageStatuses (pp_stageStatuses derived) (pp_stageStatuses candidate) \<and>
      pp_evidenceFullyVerified derived = pp_evidenceFullyVerified candidate \<and>
      pp_fullyVerifiedLabelEligible derived = pp_fullyVerifiedLabelEligible candidate \<and>
      hasSameDisplayDecision (pp_display derived) (pp_display candidate) \<and> hasSamePresentationExplanation derived candidate)"

text \<open>The input of the derivation for canonical checks; the counts are those of the published proof.\<close>

definition canonical_input ::
  "verification_check list \<Rightarrow> summary_context \<Rightarrow> bool \<Rightarrow> verifier_status \<Rightarrow> verifier_status option \<Rightarrow> policy_input" where
  "canonical_input checks counts sth s reportStatus =
     \<lparr>pi_availability = DataAvailable, pi_checks = Some checks, pi_context = Some (counts\<lparr>sthSourcesConfigured := Some sth\<rparr>),
      pi_verificationStatus = Some s, pi_verificationReportStatus = reportStatus, pi_explicitServerFailureStatus = None,
      pi_verificationStarted = None, pi_sequenceComplete = None\<rparr>"

definition hasCoherentPublicPresentationPolicy ::
  "verification_check list \<Rightarrow> presentation_policy \<Rightarrow> summary_context \<Rightarrow> verifier_status \<Rightarrow> verifier_status option \<Rightarrow> bool \<Rightarrow> policy_error + bool" where
  "hasCoherentPublicPresentationPolicy checks policy counts s reportStatus dev =
     (case projectCanonicalVerificationChecks checks dev of
        None \<Rightarrow> Inr False
      | Some cs \<Rightarrow>
          res_bind (deriveVerificationPresentationPolicy (canonical_input cs (counts\<lparr>devModeEvidence := None\<rparr>) False s reportStatus)) (\<lambda>p1.
            if hasSamePresentationPolicy p1 policy then Inr True
            else res_bind (deriveVerificationPresentationPolicy (canonical_input cs (counts\<lparr>devModeEvidence := None\<rparr>) True s reportStatus)) (\<lambda>p2.
                   Inr (hasSamePresentationPolicy p2 policy))))"

subsection \<open>Evidence for the label\<close>

definition hasCoherentVerificationReportExpectedImageId :: "string option \<Rightarrow> string \<Rightarrow> bool" where
  "hasCoherentVerificationReportExpectedImageId expected proofImageId =
     (case expected of None \<Rightarrow> True | Some e \<Rightarrow> normalizeHexString e = normalizeHexString proofImageId)"

definition hasCoherentAvailableVoterEvidence :: "public_receipt \<Rightarrow> public_user_vote \<Rightarrow> public_proof \<Rightarrow> bool" where
  "hasCoherentAvailableVoterEvidence r v pf =
     (let castTreeSize = pq_treeSize (pu_proof v) in
      if pr_voteId r \<noteq> pu_voteId v \<or> normalizeHexString (pr_commitment r) \<noteq> normalizeHexString (pu_commitment v) \<or>
         \<not> num_eq (pr_bulletinIndex r) (pq_leafIndex (pu_proof v)) \<or>
         normalizeHexString (pr_bulletinRootAtCast r) \<noteq> normalizeHexString (pq_bulletinRootAtCast (pu_proof v)) \<or>
         normalizeHexString (pr_inputCommitment r) \<noteq> normalizeHexString (pf_inputCommitment pf) \<or>
         \<not> isSafeInteger (pq_leafIndex (pu_proof v)) \<or> num_lt (pq_leafIndex (pu_proof v)) (js_int 0) \<or> \<not> isSafeInteger castTreeSize \<or>
         \<not> num_eq castTreeSize (num_add (pr_bulletinIndex r) (js_int 1)) \<or> num_le castTreeSize (pq_leafIndex (pu_proof v)) \<or>
         num_lt (pf_treeSize pf) castTreeSize then False
      else \<not> num_eq castTreeSize (pf_treeSize pf) \<or>
           normalizeHexString (pq_bulletinRootAtCast (pu_proof v)) = normalizeHexString (pf_bulletinRoot pf))"

definition hasCoherentTamperPresentation :: "string \<Rightarrow> bool \<Rightarrow> jsnum \<Rightarrow> public_proof \<Rightarrow> shown_tamper option \<Rightarrow> bool" where
  "hasCoherentTamperPresentation scenarioId tamperDetected tamperedCount pf summary =
     (if scenarioId \<noteq> ''S0'' \<and> \<not> tamperDetected then False
      else if tamperDetected then True
      else num_eq tamperedCount (js_int 0) \<and> num_eq (pf_missingSlots pf) (js_int 0) \<and> num_eq (pf_invalidPresentedSlots pf) (js_int 0) \<and>
           num_eq (pf_rejectedRecords pf) (js_int 0) \<and> num_eq (pf_excludedSlots pf) (js_int 0) \<and>
           (case summary of
              None \<Rightarrow> True
            | Some t \<Rightarrow> num_eq (ts_ignoredVotes t) (js_int 0) \<and> num_eq (ts_recountedVotes t) (js_int 0) \<and> ts_userRecountedTo t = None \<and>
                (case ts_affectedBotIds t of None \<Rightarrow> True | Some ids \<Rightarrow> length ids = 0)))"

definition hasSuccessfulPresentationReceipt :: "public_report option \<Rightarrow> string \<Rightarrow> bool" where
  "hasSuccessfulPresentationReceipt report imageId =
     (case report of
        None \<Rightarrow> True
      | Some r \<Rightarrow> pr_status r = VSuccess \<and> hasCoherentVerificationReportExpectedImageId (Some (pr_expected_image_id r)) imageId \<and>
          (case pr_receipt_image_id r of None \<Rightarrow> False | Some i \<Rightarrow> normalizeHexString i = normalizeHexString imageId))"

definition hasCompletePublicVotePartition :: "public_proof \<Rightarrow> bool" where
  "hasCompletePublicVotePartition pf =
     (num_eq (pf_missingSlots pf) (js_int 0) \<and> num_eq (pf_invalidPresentedSlots pf) (js_int 0) \<and> num_eq (pf_rejectedRecords pf) (js_int 0) \<and>
      num_eq (pf_excludedSlots pf) (js_int 0) \<and> num_eq (pf_treeSize pf) (pf_totalExpected pf) \<and>
      num_eq (pf_seenIndicesCount pf) (pf_treeSize pf))"

definition hasHonestTamperPresentation :: "public_evidence \<Rightarrow> bool" where
  "hasHonestTamperPresentation inp =
     (let pn = pe_presentation inp in
      hasCoherentTamperPresentation (pe_scenarioId inp) (case pn_tamperDetected pn of Some b \<Rightarrow> b | None \<Rightarrow> False)
        (case pn_tamperedCount pn of Some n \<Rightarrow> n | None \<Rightarrow> js_int 0) (pe_proof inp) (pn_tamperSummary pn) \<and>
      pn_tamperDetected pn \<noteq> Some True)"

definition hasAdmissibleFullyVerifiedFacts :: "public_evidence \<Rightarrow> bool" where
  "hasAdmissibleFullyVerifiedFacts inp =
     (pe_scenarioId inp = ''S0'' \<and> pe_verificationStatus inp = VSuccess \<and>
      (case pe_voterEvidence inp of
         VoterUnavailable \<Rightarrow> False
       | VoterAvailable r v \<Rightarrow>
           normalizeHexString (pf_seenBitmapRoot (pe_proof inp)) = normalizeHexString (pf_includedBitmapRoot (pe_proof inp)) \<and>
           hasSuccessfulPresentationReceipt (pe_verificationReport inp) (pf_imageId (pe_proof inp)) \<and>
           hasCoherentAvailableVoterEvidence r v (pe_proof inp) \<and> hasHonestTamperPresentation inp \<and>
           hasCompletePublicVotePartition (pe_proof inp)))"

definition proof_counts :: "public_proof \<Rightarrow> summary_context" where
  "proof_counts pf =
     empty_context\<lparr>missingSlots := Some (pf_missingSlots pf), invalidPresentedSlots := Some (pf_invalidPresentedSlots pf),
                   rejectedRecords := Some (pf_rejectedRecords pf), excludedSlots := Some (pf_excludedSlots pf)\<rparr>"

definition hasCoherentFullyVerifiedPresentationEvidence :: "public_evidence \<Rightarrow> policy_error + bool" where
  "hasCoherentFullyVerifiedPresentationEvidence inp =
     (if \<not> hasAdmissibleFullyVerifiedFacts inp then Inr False
      else case projectCanonicalVerificationChecks (pe_checks inp) False of
             None \<Rightarrow> Inr False
           | Some checks \<Rightarrow>
               let sth = resolveEffectiveSthSourcesConfigured checks (pe_stageStatuses inp) in
               res_bind (deriveVerificationPresentationPolicy
                   (canonical_input checks ((proof_counts (pe_proof inp))\<lparr>devModeEvidence := Some False\<rparr>) sth (pe_verificationStatus inp)
                      (Some (pe_verificationStatus inp)))) (\<lambda>derivedPolicy.
               if \<not> pp_fullyVerifiedLabelEligible derivedPolicy \<or>
                  \<not> hasSameStageStatuses (pp_stageStatuses derivedPolicy) (pe_stageStatuses inp) then Inr False
               else
                 let verifiedCounts = tally_list (pf_verifiedTally (pe_proof inp)); verifiedTotal = num_sum verifiedCounts;
                     pn = pe_presentation inp
                 in Inr (list_all2 (\<lambda>choice n. num_eq (pn_counts pn choice) n) VOTE_CHOICES verifiedCounts \<and>
                         num_eq (pn_totalVotes pn) verifiedTotal \<and> num_eq (pn_totalVotes pn) (pf_totalExpected (pe_proof inp)))))"

end
