(* ===== verification/PresentationProofs.thy ===== *)
theory PresentationProofs
  imports Presentation StageProofs
begin

text \<open>
  When the label ``fully verified'' is shown: the derivation never runs into its contradiction, the label is shown exactly
  when every check succeeded on genuine evidence, and a published presentation that claims it is recomputed.
\<close>

section \<open>Stages\<close>

lemma worst_snoc: "ss \<noteq> [] \<Longrightarrow> resolveWorstStatus (ss @ [s]) = worse_status (resolveWorstStatus ss) s"
  by (cases ss) (simp_all add: worse_status_def)

lemma result_map:
  "map_of (buildCheckResultMap cs) i =
     (if CHECK_DEFINITION_BY_ID i = None \<or> filter (\<lambda>c. id_of c = i) cs = [] then None
      else Some (outcome (resolveWorstStatus (map status (filter (\<lambda>c. id_of c = i) cs)))))"
proof (induction cs rule: rev_induct)
  case (snoc c cs)
  let ?r = "buildCheckResultMap cs"
  have step: "buildCheckResultMap (cs @ [c]) =
      (if CHECK_DEFINITION_BY_ID (id_of c) = None then ?r
       else AList.update (id_of c)
              (outcome (case map_of ?r (id_of c) of Some r \<Rightarrow> worse_status (res_status r) (status c) | None \<Rightarrow> status c)) ?r)"
    by (simp add: buildCheckResultMap_def)
  show ?case
  proof (cases "CHECK_DEFINITION_BY_ID (id_of c) = None \<or> id_of c \<noteq> i")
    case True
    then show ?thesis using snoc step by (auto simp: map_of_AList_update)
  next
    case False
    then show ?thesis using snoc step by (auto simp: map_of_AList_update worst_snoc)
  qed
qed (simp add: buildCheckResultMap_def)

lemma required_flag: "isVerificationCheckRequired d (Some (x = Some True)) = isVerificationCheckRequired d x"
  by (simp add: isVerificationCheckRequired_def)

lemma stage_success:
  assumes "complete_evidence cs ctx" "\<not> required_with (\<lambda>s. s \<noteq> Success) cs ctx"
  shows "deriveStageStatuses cs ctx s = Success"
proof -
  let ?req = "Some (ctx_get sthSourcesConfigured ctx = Some True)"
  have "status_in (buildCheckResultMap cs) i = Success" if i: "i \<in> set (getVerificationRequiredCheckIdsForStep s ?req)" for i
  proof -
    obtain d where d: "d \<in> set VERIFICATION_CHECK_DEFINITIONS" "def_id d = i" "isRequiredCheck d ctx"
      using i by (auto simp: required_ids_for_step required_flag isRequiredCheck_def)
    obtain c where c: "c \<in> set cs" "id_of c = i" using assms(1) d unfolding complete_evidence_def by blast
    have "\<forall>x \<in> set (map status (filter (\<lambda>c. id_of c = i) cs)). x = Success"
      using assms(2) d unfolding required_with_def by auto
    moreover have "filter (\<lambda>c. id_of c = i) cs \<noteq> []" using c by (auto simp: filter_empty_conv)
    moreover have "CHECK_DEFINITION_BY_ID i = Some d" using d by (simp add: lookup_definition)
    ultimately show ?thesis by (simp add: status_in_def result_map worst_Success)
  qed
  then show ?thesis by (simp add: deriveStageStatuses_def Let_def stage_status_iff list_all_iff check_succeeds_status)
qed

section \<open>The label\<close>

lemma verified_tone:
  assumes "deriveVerificationSummary (Some cs) ctx = Some r"
  shows "tone r = ToneVerified \<longleftrightarrow> sum_status r = fully_verified"
proof -
  have "tone (deriveTerminalSummary ev ctx) = ToneVerified \<longleftrightarrow> sum_status (deriveTerminalSummary ev ctx) = fully_verified" for ev
    by (simp add: deriveTerminalSummary_def deriveSuccessfulEvidenceSummary_def Let_def)
  then show ?thesis using assms by (auto simp: summary_branches split: if_splits)
qed

lemma fully_verified_conditions:
  "(\<exists>r. deriveVerificationSummary (Some cs) ctx = Some r \<and> sum_status r = fully_verified) \<and> \<not> list_ex (\<lambda>c. status c = Pending \<or> status c = Running) cs \<longleftrightarrow>
     complete_evidence cs ctx \<and> list_all (\<lambda>c. status c = Success \<and> evidence c \<noteq> Demo) cs \<and> ctx_get devModeEvidence ctx \<noteq> Some True"
  (is "?L \<longleftrightarrow> ?R")
proof
  assume L: ?L
  note F = conjunct1 [OF L, unfolded fully_verified_char]
  have ce: "complete_evidence cs ctx" using F by blast
  have "status c = Success \<and> evidence c \<noteq> Demo" if c: "c \<in> set cs" for c
  proof -
    have k: "id_of c \<in> set VERIFICATION_CHECK_IDS" using ce c unfolding complete_evidence_def by blast
    then obtain d where d: "d \<in> set VERIFICATION_CHECK_DEFINITIONS" "def_id d = id_of c" by (auto simp: VERIFICATION_CHECK_IDS_def)
    have "status c = Success"
    proof (cases "isRequiredCheck d ctx")
      case True
      then show ?thesis using F c d unfolding required_with_def by blast
    next
      case False
      then have "(c, d) \<in> set (optionalChecks (evidence_of cs ctx))" using c d by (auto simp: evidence_fields resolveChecks_set)
      then have "status c \<noteq> Failed \<and> status c \<noteq> NotRun" using F by blast
      moreover have "status c \<noteq> Pending \<and> status c \<noteq> Running" using L c by (auto simp: list_ex_iff)
      ultimately show ?thesis by (cases "status c") auto
    qed
    then show ?thesis using F c k by blast
  qed
  then show ?R using F ce by (simp add: list_all_iff)
next
  assume R: ?R
  then have s: "status c = Success" "evidence c \<noteq> Demo" if "c \<in> set cs" for c using that by (auto simp: list_all_iff)
  have "\<not> required_with (\<lambda>s. s \<noteq> Success) cs ctx" using s(1) unfolding required_with_def by blast
  moreover have "\<not> (\<exists>(c, d) \<in> set (optionalChecks (evidence_of cs ctx)). status c = Failed \<or> status c = NotRun)"
    using s(1) by (auto simp: evidence_fields resolveChecks_set)
  ultimately have "\<exists>r. deriveVerificationSummary (Some cs) ctx = Some r \<and> sum_status r = fully_verified"
    unfolding fully_verified_char using R s(2) by blast
  then show ?L using s(1) by (auto simp: list_ex_iff)
qed

text \<open>With every check successful only the report can be an explicit failure, and only the counts a hard one.\<close>

lemma successful_checks:
  assumes "complete_evidence cs ctx" "list_all (\<lambda>c. status c = Success \<and> evidence c \<noteq> Demo) cs"
  shows "hasExplicitProofFailure cs vs rs \<longleftrightarrow> rs = Some VFailed" "hasHardFailure cs ctx \<longleftrightarrow> hasFailClosedExclusionSignal ctx" "cs \<noteq> []"
proof -
  have s: "status c = Success" if "c \<in> set cs" for c using assms(2) that by (auto simp: list_all_iff)
  have "\<exists>d \<in> set VERIFICATION_CHECK_DEFINITIONS. def_id d = stark_receipt_verify \<and> criticality d = Required"
    "\<exists>d \<in> set VERIFICATION_CHECK_DEFINITIONS. def_id d = stark_image_id_match \<and> criticality d = Required"
    by (simp_all add: table_defs)
  moreover have "isRequiredCheck d ctx" if "criticality d = Required" for d using that by (simp add: isRequiredCheck_def isVerificationCheckRequired_def)
  ultimately have p: "\<exists>c \<in> set cs. id_of c = stark_receipt_verify" "\<exists>c \<in> set cs. id_of c = stark_image_id_match"
    using assms(1) unfolding complete_evidence_def by metis+
  then show "cs \<noteq> []" by auto
  have nf: "\<not> hasFailedCheck cs ids" for ids using s by (auto simp: hasFailedCheck_def list_ex_iff)
  have "hasSuccessfulProofChecks cs"
    using p s unfolding hasSuccessfulProofChecks_def Let_def list_ex_iff set_filter by blast
  then show "hasExplicitProofFailure cs vs rs \<longleftrightarrow> rs = Some VFailed" using nf by (simp add: hasExplicitProofFailure_def)
  show "hasHardFailure cs ctx \<longleftrightarrow> hasFailClosedExclusionSignal ctx" using nf s by (auto simp: hasHardFailure_def list_ex_iff)
qed

lemma rendered_verified:
  "isFullyVerifiedDisplayDecision (deriveAvailableDisplay inp cs summary hard explicit) \<longleftrightarrow>
     or_true (pi_verificationStarted inp) \<and> or_true (pi_sequenceComplete inp) \<and> \<not> list_ex (\<lambda>c. status c = Pending \<or> status c = Running) cs \<and>
     explicit = None \<and> \<not> (cs \<noteq> [] \<and> hard) \<and> map_option tone summary = Some ToneVerified"
proof -
  have "SUMMARY_TONE_TO_DISPLAY_STATUS t = DisplayVerified \<longleftrightarrow> t = ToneVerified" for t by (cases t) simp_all
  moreover have "explicit_display e \<noteq> DisplayVerified" for e by (cases e) simp_all
  ultimately show ?thesis
    by (auto simp: isFullyVerifiedDisplayDecision_def deriveAvailableDisplay_def resolveVerificationDisplayDecision_def display_resolution_def
        resolveDisplayReadiness_def Let_def split: option.splits if_splits)
qed

lemma context_fields:
  "ctx_get missingSlots (presentation_context inp) = ctx_get missingSlots (pi_context inp)"
  "ctx_get invalidPresentedSlots (presentation_context inp) = ctx_get invalidPresentedSlots (pi_context inp)"
  "ctx_get excludedSlots (presentation_context inp) = ctx_get excludedSlots (pi_context inp)"
  "ctx_get sthSourcesConfigured (presentation_context inp) = ctx_get sthSourcesConfigured (pi_context inp)"
  "ctx_get devModeEvidence (presentation_context inp) =
     Some (hasDevelopmentPresentationEvidence inp (case pi_checks inp of Some cs \<Rightarrow> cs | None \<Rightarrow> []))"
  by (simp_all add: presentation_context_def ctx_get_def empty_context_def split: option.split)

lemma context_same:
  "hasFailClosedExclusionSignal (presentation_context inp) = hasFailClosedExclusionSignal (pi_context inp)"
  "complete_evidence cs (presentation_context inp) = complete_evidence cs (pi_context inp)"
  by (simp_all add: hasFailClosedExclusionSignal_def complete_evidence_def isRequiredCheck_def context_fields)

text \<open>The conditions of the label.\<close>

definition label_earned :: "policy_input \<Rightarrow> bool" where
  "label_earned inp \<longleftrightarrow>
     pi_availability inp = DataAvailable \<and> or_true (pi_verificationStarted inp) \<and> or_true (pi_sequenceComplete inp) \<and>
     pi_explicitServerFailureStatus inp = None \<and> pi_verificationReportStatus inp \<noteq> Some VFailed \<and>
     pi_verificationReportStatus inp \<noteq> Some VDevMode \<and> pi_verificationStatus inp \<noteq> Some VDevMode \<and>
     ctx_get devModeEvidence (pi_context inp) \<noteq> Some True \<and> \<not> hasFailClosedExclusionSignal (pi_context inp) \<and>
     (case pi_checks inp of
        None \<Rightarrow> False
      | Some cs \<Rightarrow> complete_evidence cs (pi_context inp) \<and> list_all (\<lambda>c. status c = Success \<and> evidence c \<noteq> Demo) cs)"

definition checks_of :: "policy_input \<Rightarrow> verification_check list" where
  "checks_of inp = (case pi_checks inp of Some cs \<Rightarrow> cs | None \<Rightarrow> [])"

definition explicit_of :: "policy_input \<Rightarrow> explicit_failure option" where
  "explicit_of inp =
     (case pi_explicitServerFailureStatus inp of
        Some s \<Rightarrow> Some s
      | None \<Rightarrow> if hasExplicitProofFailure (checks_of inp) (pi_verificationStatus inp) (pi_verificationReportStatus inp)
              then Some ExplicitFailed else None)"

definition display_of :: "policy_input \<Rightarrow> display_decision" where
  "display_of inp =
     deriveAvailableDisplay inp (checks_of inp) (deriveVerificationSummary (Some (checks_of inp)) (presentation_context inp))
       (hasHardFailure (checks_of inp) (presentation_context inp)) (explicit_of inp)"

lemma label_checks:
  "label_earned inp \<longleftrightarrow>
     pi_availability inp = DataAvailable \<and> or_true (pi_verificationStarted inp) \<and> or_true (pi_sequenceComplete inp) \<and>
     pi_explicitServerFailureStatus inp = None \<and> pi_verificationReportStatus inp \<noteq> Some VFailed \<and>
     \<not> hasFailClosedExclusionSignal (pi_context inp) \<and> complete_evidence (checks_of inp) (presentation_context inp) \<and>
     list_all (\<lambda>c. status c = Success \<and> evidence c \<noteq> Demo) (checks_of inp) \<and> \<not> hasDevelopmentPresentationEvidence inp (checks_of inp)"
proof -
  have "\<not> complete_evidence [] ctx" for ctx using successful_checks(3) [of "[]" ctx] by auto
  moreover have "\<not> list_ex (\<lambda>c. evidence c = Demo) cs" if "list_all (\<lambda>c. status c = Success \<and> evidence c \<noteq> Demo) cs" for cs
    using that by (auto simp: list_all_iff list_ex_iff)
  ultimately show ?thesis
    by (cases "pi_checks inp") (auto simp: label_earned_def checks_of_def context_same hasDevelopmentPresentationEvidence_def)
qed

lemma display_label:
  assumes "pi_availability inp = DataAvailable"
  shows "isFullyVerifiedDisplayDecision (display_of inp) \<longleftrightarrow> label_earned inp"
proof -
  let ?cs = "checks_of inp" and ?ctx = "presentation_context inp"
  let ?s = "deriveVerificationSummary (Some ?cs) ?ctx"
  have t: "map_option tone ?s = Some ToneVerified \<longleftrightarrow> (\<exists>r. ?s = Some r \<and> sum_status r = fully_verified)" using verified_tone by fastforce
  have d: "ctx_get devModeEvidence ?ctx = Some (hasDevelopmentPresentationEvidence inp ?cs)" by (simp add: context_fields checks_of_def)
  define good where "good \<longleftrightarrow> complete_evidence ?cs ?ctx \<and> list_all (\<lambda>c. status c = Success \<and> evidence c \<noteq> Demo) ?cs"
  have "map_option tone ?s = Some ToneVerified \<and> \<not> list_ex (\<lambda>c. status c = Pending \<or> status c = Running) ?cs \<longleftrightarrow>
      good \<and> \<not> hasDevelopmentPresentationEvidence inp ?cs"
    unfolding t fully_verified_conditions d good_def by simp
  moreover have "explicit_of inp = None \<longleftrightarrow> pi_explicitServerFailureStatus inp = None \<and> pi_verificationReportStatus inp \<noteq> Some VFailed"
    "(?cs \<noteq> [] \<and> hasHardFailure ?cs ?ctx) \<longleftrightarrow> hasFailClosedExclusionSignal (pi_context inp)" if good
    using successful_checks [of ?cs ?ctx] that by (auto simp: good_def explicit_of_def context_same split: option.splits)
  ultimately show ?thesis
    unfolding display_of_def rendered_verified label_checks good_def [symmetric] using assms good_def by blast
qed

lemma derived_policy:
  "\<exists>p. deriveVerificationPresentationPolicy inp = Inr p \<and> (pp_fullyVerifiedLabelEligible p \<longleftrightarrow> label_earned inp) \<and>
     (dd_renderedStatus (pp_display p) = Some DisplayVerified \<longleftrightarrow> label_earned inp) \<and>
     (label_earned inp \<longrightarrow> pp_stageStatuses p = (\<lambda>_. Success) \<and> map_option sum_status (pp_summary p) = Some fully_verified)"
proof (cases "pi_availability inp = DataAvailable")
  case False
  then show ?thesis
    by (auto simp: deriveVerificationPresentationPolicy_def Let_def label_earned_def deriveUnavailableDisplay_def)
next
  case av: True
  let ?cs = "checks_of inp" and ?ctx = "presentation_context inp"
  let ?s = "deriveVerificationSummary (Some ?cs) ?ctx" and ?hard = "hasHardFailure (checks_of inp) (presentation_context inp)"
  have u: "deriveVerificationPresentationPolicy inp =
    (if hasFullyVerifiedSummaryEvidence ?s ?hard (explicit_of inp) \<and> isFullyVerifiedDisplayDecision (display_of inp) \<and>
        areAllVerificationStagesSuccessful (deriveStageStatuses ?cs ?ctx) \<and> \<not> hasDevelopmentPresentationEvidence inp ?cs
     then Inr \<lparr>pp_summary = ?s, pp_stageStatuses = deriveStageStatuses ?cs ?ctx, pp_evidenceFullyVerified = True, pp_fullyVerifiedLabelEligible = True,
               pp_display = \<lparr>dd_readiness = Ready, dd_source = Some FromSummary, dd_status = Some DisplayVerified,
                             dd_renderedStatus = Some DisplayVerified\<rparr>,
               pp_publishedTallyMismatch = False, pp_devModeEvidence = False, pp_missingEvidence = False, pp_explanationKey = None\<rparr>
     else deriveIneligiblePresentationPolicy ?s (deriveStageStatuses ?cs ?ctx) (hasFullyVerifiedSummaryEvidence ?s ?hard (explicit_of inp))
            (display_of inp) (hasDevelopmentPresentationEvidence inp ?cs))"
    unfolding deriveVerificationPresentationPolicy_def Let_def display_of_def explicit_of_def checks_of_def av by (simp only: simp_thms if_False)
  show ?thesis
  proof (cases "label_earned inp")
    case True
    note L = True [unfolded label_checks] and D = display_label [OF av]
    have c: "complete_evidence ?cs ?ctx" "list_all (\<lambda>c. status c = Success \<and> evidence c \<noteq> Demo) ?cs" using L by blast+
    have "\<not> required_with (\<lambda>s. s \<noteq> Success) ?cs ?ctx" using c(2) unfolding required_with_def list_all_iff by blast
    then have st: "deriveStageStatuses ?cs ?ctx = (\<lambda>_. Success)" using stage_success [OF c(1)] by blast
    have disp: "isFullyVerifiedDisplayDecision (display_of inp)" using D True by blast
    obtain r where r: "?s = Some r" "tone r = ToneVerified" "explicit_of inp = None" "\<not> ?hard"
      using disp successful_checks(3) [OF c] unfolding display_of_def rendered_verified by (cases ?s) auto
    then have "sum_status r = fully_verified" using verified_tone by blast
    then show ?thesis
      using r L True disp st unfolding u
      by (simp add: hasFullyVerifiedSummaryEvidence_def areAllVerificationStagesSuccessful_def)
  next
    case False
    then have "\<not> isFullyVerifiedDisplayDecision (display_of inp)" using display_label [OF av] by blast
    then show ?thesis using False unfolding u by (simp add: deriveIneligiblePresentationPolicy_def Let_def isFullyVerifiedDisplayDecision_def)
  qed
qed

section \<open>Published presentations\<close>

lemma projected_checks:
  assumes "projectCanonicalVerificationChecks checks dev = Some cs"
  shows "hasCanonicalVerificationCheckEvidence checks dev" "map id_of cs = VERIFICATION_CHECK_IDS" "map status cs = map status checks"
    "map evidence cs = map (expected_evidence dev) VERIFICATION_CHECK_DEFINITIONS"
proof -
  have cs: "hasCanonicalVerificationCheckEvidence checks dev"
    "cs = map2 (\<lambda>d c. \<lparr>id_of = def_id d, status = status c, evidence = expected_evidence dev d, inputs = def_inputs d,
                      derivedFrom = def_derivedFrom d, noteKey = None\<rparr>) VERIFICATION_CHECK_DEFINITIONS checks"
    using assms by (auto simp: projectCanonicalVerificationChecks_def split: if_splits)
  then show "hasCanonicalVerificationCheckEvidence checks dev" by simp
  have len: "length checks = length VERIFICATION_CHECK_DEFINITIONS" using cs(1) by (auto simp: hasCanonicalVerificationCheckEvidence_def split: if_splits)
  show "map id_of cs = VERIFICATION_CHECK_IDS" "map status cs = map status checks"
    "map evidence cs = map (expected_evidence dev) VERIFICATION_CHECK_DEFINITIONS"
    unfolding cs(2) VERIFICATION_CHECK_IDS_def by (rule nth_equalityI; use len in simp)+
qed

lemma projected_complete: "projectCanonicalVerificationChecks checks dev = Some cs \<Longrightarrow> complete_evidence cs ctx"
proof -
  assume "projectCanonicalVerificationChecks checks dev = Some cs"
  from arg_cong [OF projected_checks(2) [OF this], of set]
  have "id_of ` set cs = set VERIFICATION_CHECK_IDS" by simp
  then show ?thesis unfolding complete_evidence_def by (auto simp: VERIFICATION_CHECK_IDS_def image_iff set_eq_iff) metis
qed

lemma canonical_label:
  assumes "projectCanonicalVerificationChecks checks dev = Some cs"
  shows "label_earned (canonical_input cs counts sth s rs) \<longleftrightarrow>
    \<not> dev \<and> list_all (\<lambda>c. status c = Success) checks \<and> s \<noteq> VDevMode \<and> rs \<noteq> Some VFailed \<and> rs \<noteq> Some VDevMode \<and>
    devModeEvidence counts \<noteq> Some True \<and> \<not> hasFailClosedExclusionSignal (Some counts)"
proof -
  note P = projected_checks [OF assms]
  have st: "list_all (\<lambda>c. status c = Success) cs \<longleftrightarrow> list_all (\<lambda>c. status c = Success) checks"
    using arg_cong [OF P(3), of "list_all (\<lambda>x. x = Success)"] by (simp add: list.pred_map comp_def)
  have "list_all (\<lambda>d. expected_evidence dev d \<noteq> Demo) VERIFICATION_CHECK_DEFINITIONS \<longleftrightarrow> \<not> dev"
    by (cases dev) (simp_all add: table_defs expected_evidence_def)
  then have ev: "list_all (\<lambda>c. evidence c \<noteq> Demo) cs \<longleftrightarrow> \<not> dev"
    using arg_cong [OF P(4), of "list_all (\<lambda>x. x \<noteq> Demo)"] by (simp add: list.pred_map comp_def)
  have "list_all (\<lambda>c. status c = Success \<and> evidence c \<noteq> Demo) cs \<longleftrightarrow> list_all (\<lambda>c. status c = Success) checks \<and> \<not> dev"
    unfolding st [symmetric] ev [symmetric] by (auto simp: list_all_iff)
  moreover have "hasFailClosedExclusionSignal (Some (counts\<lparr>sthSourcesConfigured := Some sth\<rparr>)) = hasFailClosedExclusionSignal (Some counts)"
    by (simp add: hasFailClosedExclusionSignal_def ctx_get_def)
  ultimately show ?thesis
    using projected_complete [OF assms] by (auto simp: label_earned_def canonical_input_def or_true_def ctx_get_def)
qed

lemma same_policy_label:
  "hasSamePresentationPolicy p q \<Longrightarrow> pp_fullyVerifiedLabelEligible p = pp_fullyVerifiedLabelEligible q \<and>
     dd_renderedStatus (pp_display p) = dd_renderedStatus (pp_display q) \<and> list_all (\<lambda>i. pp_stageStatuses p i = pp_stageStatuses q i) VERIFICATION_STEP_IDS"
  by (simp add: hasSamePresentationPolicy_def hasSameDisplayDecision_def hasSameStageStatuses_def)

lemma coherent_policy:
  assumes "hasCoherentPublicPresentationPolicy checks policy counts s rs dev = Inr True"
  obtains cs sth p where "projectCanonicalVerificationChecks checks dev = Some cs"
    "deriveVerificationPresentationPolicy (canonical_input cs (counts\<lparr>devModeEvidence := None\<rparr>) sth s rs) = Inr p" "hasSamePresentationPolicy p policy"
  using assms by (auto simp: hasCoherentPublicPresentationPolicy_def res_bind_eq_Inr split: option.splits if_splits)

section \<open>Properties\<close>

text \<open>C3: the label ``fully verified'' is shown exactly when it is earned.  The derivation of the presentation never reaches its
  internal contradiction.  The label is eligible, and the rendered status is ``verified'', exactly when the data is
  available and shown completely, the server reported no failure, neither status nor report is development mode, the
  exclusion counts are absent or zero and consistent, and the checks are all of the catalogue, contain every
  required one, and every single one succeeded on evidence that is not a demo.\<close>

theorem fully_verified_label_iff:
  "\<exists>p. deriveVerificationPresentationPolicy inp = Inr p \<and> (pp_fullyVerifiedLabelEligible p \<longleftrightarrow> label_earned inp) \<and>
     (dd_renderedStatus (pp_display p) = Some DisplayVerified \<longleftrightarrow> label_earned inp)"
  using derived_policy [of inp] by blast

text \<open>C39: a published presentation cannot claim the label without the checks.  When the recomputation accepts a
  published policy that is eligible for the label or rendered as verified, then the published checks are the
  catalogue in its order with its evidence, every one of them is a success, neither the status nor the report is
  development mode, the report is not a failure, and no exclusion is signalled.\<close>

theorem published_label_sound:
  assumes "hasCoherentPublicPresentationPolicy checks policy counts s reportStatus dev = Inr True"
    "pp_fullyVerifiedLabelEligible policy \<or> dd_renderedStatus (pp_display policy) = Some DisplayVerified"
  shows "hasCanonicalVerificationCheckEvidence checks False \<and> list_all (\<lambda>c. status c = Success) checks \<and>
    list_all (\<lambda>i. pp_stageStatuses policy i = Success) VERIFICATION_STEP_IDS \<and> s \<noteq> VDevMode \<and>
    reportStatus \<noteq> Some VFailed \<and> reportStatus \<noteq> Some VDevMode \<and> \<not> hasFailClosedExclusionSignal (Some counts)"
proof -
  obtain cs sth p where p: "projectCanonicalVerificationChecks checks dev = Some cs"
    "deriveVerificationPresentationPolicy (canonical_input cs (counts\<lparr>devModeEvidence := None\<rparr>) sth s reportStatus) = Inr p" "hasSamePresentationPolicy p policy"
    by (rule coherent_policy [OF assms(1)])
  let ?inp = "canonical_input cs (counts\<lparr>devModeEvidence := None\<rparr>) sth s reportStatus"
  note same = same_policy_label [OF p(3)]
  have e: "label_earned ?inp" and st: "pp_stageStatuses p = (\<lambda>_. Success)" using derived_policy [of ?inp] p(2) same assms(2) by auto
  have "hasFailClosedExclusionSignal (Some (counts\<lparr>devModeEvidence := None\<rparr>)) = hasFailClosedExclusionSignal (Some counts)"
    by (simp add: hasFailClosedExclusionSignal_def ctx_get_def)
  then show ?thesis
    using e canonical_label [OF p(1)] projected_checks(1) [OF p(1)] same st by (auto simp: list_all_iff)
qed

definition shown_checks :: "verification_check list" where
  "shown_checks =
     map (\<lambda>d. \<lparr>id_of = def_id d, status = Success, evidence = def_evidence d, inputs = def_inputs d, derivedFrom = def_derivedFrom d, noteKey = None\<rparr>)
       VERIFICATION_CHECK_DEFINITIONS"

lemma shown_projected: "projectCanonicalVerificationChecks shown_checks False = Some shown_checks"
proof -
  have "list_all2 (\<lambda>d c. id_of c = def_id d \<and> evidence c = expected_evidence False d \<and> inputs c = def_inputs d \<and> derivedFrom c = def_derivedFrom d)
      ds (map (\<lambda>d. \<lparr>id_of = def_id d, status = Success, evidence = def_evidence d, inputs = def_inputs d, derivedFrom = def_derivedFrom d, noteKey = None\<rparr>) ds)" for ds
    by (simp add: list_all2_conv_all_nth expected_evidence_def)
  moreover have "map2 (\<lambda>d c. \<lparr>id_of = def_id d, status = status c, evidence = expected_evidence False d, inputs = def_inputs d,
        derivedFrom = def_derivedFrom d, noteKey = None\<rparr>) ds
      (map (\<lambda>d. \<lparr>id_of = def_id d, status = Success, evidence = def_evidence d, inputs = def_inputs d, derivedFrom = def_derivedFrom d, noteKey = None\<rparr>) ds) =
      map (\<lambda>d. \<lparr>id_of = def_id d, status = Success, evidence = def_evidence d, inputs = def_inputs d, derivedFrom = def_derivedFrom d, noteKey = None\<rparr>) ds" for ds
    by (induction ds) (simp_all add: expected_evidence_def)
  ultimately show ?thesis
    by (simp add: projectCanonicalVerificationChecks_def hasCanonicalVerificationCheckEvidence_def shown_checks_def del: map_map)
qed

lemma shown_success: "list_all (\<lambda>c. status c = Success) shown_checks"
  by (simp add: shown_checks_def list.pred_map list_all_iff)

lemma same_policy_refl: "hasSamePresentationPolicy p p"
  by (simp add: hasSamePresentationPolicy_def hasSameVerificationSummary_def hasSameStageStatuses_def hasSameDisplayDecision_def
      hasSamePresentationExplanation_def list_all_iff split: option.split)

theorem published_label_sound_witness:
  "\<exists>p. hasCoherentPublicPresentationPolicy shown_checks p empty_context VSuccess None False = Inr True \<and>
     list_all (\<lambda>i. pp_stageStatuses p i = Success) VERIFICATION_STEP_IDS \<and> hasCanonicalVerificationCheckEvidence shown_checks False"
proof -
  let ?inp = "canonical_input shown_checks (empty_context\<lparr>devModeEvidence := None\<rparr>) False VSuccess None"
  have "label_earned ?inp"
    unfolding canonical_label [OF shown_projected] using shown_success
    by (simp add: empty_context_def hasFailClosedExclusionSignal_def ctx_get_def List.map_filter_def)
  then obtain p where p: "deriveVerificationPresentationPolicy ?inp = Inr p" "pp_fullyVerifiedLabelEligible p" using derived_policy [of ?inp] by blast
  then have c: "hasCoherentPublicPresentationPolicy shown_checks p empty_context VSuccess None False = Inr True"
    by (simp add: hasCoherentPublicPresentationPolicy_def shown_projected same_policy_refl)
  from published_label_sound [OF c disjI1 [OF p(2)]] c show ?thesis by blast
qed

text \<open>C40: what the recomputed evidence of a fully verified resource says.  When it is accepted, every published check is a
  success and every stage with it; the counts shown for the five choices are the verified tally, and their sum is the
  published total, which is the expected number of votes, the size of the log and the number of slots seen; nothing is
  missing, invalid, rejected or excluded; and the voter's receipt and vote agree on a position within the log.\<close>

theorem coherent_evidence_sound:
  assumes "hasCoherentFullyVerifiedPresentationEvidence inp = Inr True"
  shows "list_all (\<lambda>c. status c = Success) (pe_checks inp) \<and> list_all (\<lambda>i. pe_stageStatuses inp i = Success) VERIFICATION_STEP_IDS \<and>
    list_all2 (\<lambda>choice n. num_eq (pn_counts (pe_presentation inp) choice) n) VOTE_CHOICES (tally_list (pf_verifiedTally (pe_proof inp))) \<and>
    num_eq (pn_totalVotes (pe_presentation inp)) (num_sum (tally_list (pf_verifiedTally (pe_proof inp)))) \<and>
    pn_totalVotes (pe_presentation inp) = pf_treeSize (pe_proof inp) \<and> pf_totalExpected (pe_proof inp) = pf_treeSize (pe_proof inp) \<and>
    pf_seenIndicesCount (pe_proof inp) = pf_treeSize (pe_proof inp) \<and>
    list_all (\<lambda>n. num_eq n (js_int 0)) [pf_missingSlots (pe_proof inp), pf_invalidPresentedSlots (pe_proof inp), pf_rejectedRecords (pe_proof inp), pf_excludedSlots (pe_proof inp)] \<and>
    (\<exists>r v i. pe_voterEvidence inp = VoterAvailable r v \<and> pr_voteId r = pu_voteId v \<and> 0 \<le> i \<and> pr_bulletinIndex r = js_int i \<and>
       pq_treeSize (pu_proof v) = js_int (i + 1) \<and> \<not> num_lt (pf_treeSize (pe_proof inp)) (js_int (i + 1)) \<and>
       normalizeHexString (pr_commitment r) = normalizeHexString (pu_commitment v))"
proof -
  let ?pf = "pe_proof inp" and ?pn = "pe_presentation inp"
  have A: "hasAdmissibleFullyVerifiedFacts inp"
    using assms by (auto simp: hasCoherentFullyVerifiedPresentationEvidence_def split: if_splits)
  then obtain cs where P: "projectCanonicalVerificationChecks (pe_checks inp) False = Some cs"
    using assms by (auto simp: hasCoherentFullyVerifiedPresentationEvidence_def split: option.splits)
  define pin where "pin = canonical_input cs ((proof_counts ?pf)\<lparr>devModeEvidence := Some False\<rparr>)
      (resolveEffectiveSthSourcesConfigured cs (pe_stageStatuses inp)) (pe_verificationStatus inp) (Some (pe_verificationStatus inp))"
  obtain p where p: "deriveVerificationPresentationPolicy pin = Inr p" using derived_policy [of pin] by blast
  then have q: "pp_fullyVerifiedLabelEligible p" "hasSameStageStatuses (pp_stageStatuses p) (pe_stageStatuses inp)"
    "list_all2 (\<lambda>choice n. num_eq (pn_counts ?pn choice) n) VOTE_CHOICES (tally_list (pf_verifiedTally ?pf))"
    "num_eq (pn_totalVotes ?pn) (num_sum (tally_list (pf_verifiedTally ?pf)))" "num_eq (pn_totalVotes ?pn) (pf_totalExpected ?pf)"
    using assms A P by (auto simp: hasCoherentFullyVerifiedPresentationEvidence_def pin_def Let_def split: if_splits)
  have l: "label_earned pin" "pp_stageStatuses p = (\<lambda>_. Success)" using derived_policy [of pin] p q(1) by auto
  have ok: "list_all (\<lambda>c. status c = Success) (pe_checks inp)" using l(1) canonical_label [OF P] unfolding pin_def by blast
  have st: "list_all (\<lambda>i. pe_stageStatuses inp i = Success) VERIFICATION_STEP_IDS"
    using q(2) l(2) by (simp add: hasSameStageStatuses_def list_all_iff)
  obtain r v where v: "pe_voterEvidence inp = VoterAvailable r v" "hasCoherentAvailableVoterEvidence r v ?pf" and c: "hasCompletePublicVotePartition ?pf"
    using A by (auto simp: hasAdmissibleFullyVerifiedFacts_def split: voter_evidence.splits)
  have n: "pf_totalExpected ?pf = pf_treeSize ?pf" "pf_seenIndicesCount ?pf = pf_treeSize ?pf"
    "list_all (\<lambda>n. num_eq n (js_int 0)) [pf_missingSlots ?pf, pf_invalidPresentedSlots ?pf, pf_rejectedRecords ?pf, pf_excludedSlots ?pf]"
    using c num_eqD [of "pf_treeSize ?pf" "pf_totalExpected ?pf"] num_eqD [of "pf_seenIndicesCount ?pf" "pf_treeSize ?pf"]
    by (auto simp: hasCompletePublicVotePartition_def)
  have w: "pr_voteId r = pu_voteId v" "normalizeHexString (pr_commitment r) = normalizeHexString (pu_commitment v)"
    "num_eq (pr_bulletinIndex r) (pq_leafIndex (pu_proof v))" "isSafeInteger (pq_leafIndex (pu_proof v))" "\<not> num_lt (pq_leafIndex (pu_proof v)) (js_int 0)"
    "num_eq (pq_treeSize (pu_proof v)) (num_add (pr_bulletinIndex r) (js_int 1))" "\<not> num_lt (pf_treeSize ?pf) (pq_treeSize (pu_proof v))"
    using v(2) unfolding hasCoherentAvailableVoterEvidence_def Let_def by (meson)+
  obtain i where i: "pq_leafIndex (pu_proof v) = js_int i" "0 \<le> i" using w(4,5) by (auto simp: isSafeInteger_iff)
  have "pr_bulletinIndex r = js_int i" "pq_treeSize (pu_proof v) = js_int (i + 1)" using num_eqD [OF w(3)] num_eqD [OF w(6)] i(1) by simp_all
  then show ?thesis using ok st q(3,4) num_eqD [OF q(5)] n v(1) w(1,2,7) i(2) by auto
qed

definition shown_evidence :: public_evidence where
  "shown_evidence =
     \<lparr>pe_scenarioId = ''S0'', pe_checks = shown_checks, pe_stageStatuses = (\<lambda>_. Success), pe_verificationStatus = VSuccess, pe_verificationReport = None,
      pe_proof = \<lparr>pf_imageId = ''01'', pf_bulletinRoot = ''02'', pf_inputCommitment = ''03'', pf_seenBitmapRoot = ''04'', pf_includedBitmapRoot = ''04'',
                  pf_verifiedTally = (js_int 0, js_int 1, js_int 0, js_int 1, js_int 0), pf_missingSlots = js_int 0, pf_invalidPresentedSlots = js_int 0,
                  pf_rejectedRecords = js_int 0, pf_excludedSlots = js_int 0, pf_totalExpected = js_int 2, pf_treeSize = js_int 2,
                  pf_seenIndicesCount = js_int 2\<rparr>,
      pe_presentation = \<lparr>pn_counts = (\<lambda>c. js_int (if c = ''B'' \<or> c = ''D'' then 1 else 0)), pn_totalVotes = js_int 2, pn_tamperedCount = None,
                         pn_tamperDetected = None, pn_tamperSummary = None\<rparr>,
      pe_voterEvidence =
        VoterAvailable \<lparr>pr_voteId = ''v'', pr_commitment = ''05'', pr_bulletinIndex = js_int 0, pr_bulletinRootAtCast = ''06'', pr_inputCommitment = ''03''\<rparr>
          \<lparr>pu_voteId = ''v'', pu_commitment = ''05'',
           pu_proof = \<lparr>pq_leafIndex = js_int 0, pq_treeSize = js_int 1, pq_merklePath = [], pq_bulletinRootAtCast = ''06''\<rparr>\<rparr>\<rparr>"

lemma shown_accepted: "hasCoherentFullyVerifiedPresentationEvidence shown_evidence = Inr True"
proof -
  have A: "hasAdmissibleFullyVerifiedFacts shown_evidence"
    by (simp add: shown_evidence_def hasAdmissibleFullyVerifiedFacts_def hasSuccessfulPresentationReceipt_def hasCoherentAvailableVoterEvidence_def
        hasHonestTamperPresentation_def hasCoherentTamperPresentation_def hasCompletePublicVotePartition_def MAX_SAFE_INTEGER_def Let_def)
  let ?pin = "canonical_input shown_checks ((proof_counts (pe_proof shown_evidence))\<lparr>devModeEvidence := Some False\<rparr>)
      (resolveEffectiveSthSourcesConfigured shown_checks (\<lambda>_. Success)) VSuccess (Some VSuccess)"
  have "label_earned ?pin"
    unfolding canonical_label [OF shown_projected] using shown_success
    by (simp add: shown_evidence_def proof_counts_def empty_context_def hasFailClosedExclusionSignal_def ctx_get_def List.map_filter_def MAX_SAFE_INTEGER_def)
  then obtain p where p: "deriveVerificationPresentationPolicy ?pin = Inr p" "pp_fullyVerifiedLabelEligible p" "pp_stageStatuses p = (\<lambda>_. Success)"
    using derived_policy [of ?pin] by blast
  have f: "pe_checks shown_evidence = shown_checks" "pe_stageStatuses shown_evidence = (\<lambda>_. Success)" "pe_verificationStatus shown_evidence = VSuccess"
    by (simp_all add: shown_evidence_def)
  have "list_all2 (\<lambda>choice n. num_eq (pn_counts (pe_presentation shown_evidence) choice) n) VOTE_CHOICES (tally_list (pf_verifiedTally (pe_proof shown_evidence)))"
    "num_eq (pn_totalVotes (pe_presentation shown_evidence)) (num_sum (tally_list (pf_verifiedTally (pe_proof shown_evidence))))"
    "num_eq (pn_totalVotes (pe_presentation shown_evidence)) (pf_totalExpected (pe_proof shown_evidence))"
    by (simp_all add: shown_evidence_def VOTE_CHOICES_def tally_list_def num_sum_def)
  then show ?thesis
    using A p by (simp add: hasCoherentFullyVerifiedPresentationEvidence_def f shown_projected Let_def hasSameStageStatuses_def list_all_iff)
qed

theorem coherent_evidence_sound_witness:
  "hasCoherentFullyVerifiedPresentationEvidence shown_evidence = Inr True \<and>
   list_all2 (\<lambda>choice n. num_eq (pn_counts (pe_presentation shown_evidence) choice) n) VOTE_CHOICES (tally_list (pf_verifiedTally (pe_proof shown_evidence)))"
  using coherent_evidence_sound [OF shown_accepted] shown_accepted by blast

end
