(* ===== verification/Spec2Isabelle.thy ===== *)
theory Spec2Isabelle
  imports BulletinBoard Summary Contract BitmapProofs VerifiedExample FinalizationCoordinator Reconciliation SessionTally PresentationProofs
begin

text \<open>
  Verification of the core of the STARK ballot simulator.  Votes are committed to and logged on a bulletin
  board with an RFC 6962 Merkle tree; a zkVM proves the tally over the logged votes and publishes a journal
  with a bitmap of the counted slots; a verification engine evaluates the evidence a voter or an auditor has
  into checks, steps and one summary; finalization moves a session through its lifecycle and stores the
  result.  The theories follow the packages of the sources (paths below are under \<^verbatim>\<open>src/packages\<close>).

  \<^bold>\<open>Shared.\<close>
  \<^item> \<open>Prelude\<close>: JavaScript numbers (\<open>jsnum\<close>: NaN, infinities, exact values; every number the modelled code
    adds stays in the range where doubles are exact, or the code checks that it does), strings, results of
    code that throws (\<open>Inl\<close> of an error), runs of a step relation and the locales of invariants and
    monotone relations over runs.
  \<^item> \<open>JsValue\<close>, \<open>Guards\<close>: values of unknown type and validation/src/unknown-value-guards.ts.
  \<^item> \<open>JsSort\<close>: the stable sort of the language; the locale \<open>js_order\<close> is the contract of a comparator.
  \<^item> \<open>Schema\<close>: validation/src/schema.ts, schemas as data.  A parsed value is a fixed point of its schema, and a
    rejection is explained.

  \<^bold>\<open>Hashing and logs.\<close>
  \<^item> \<open>CryptoPrimitives\<close>: crypto-primitives/src.  The package \<^verbatim>\<open>@noble/hashes\<close> is the argument \<open>noble\<close>, with its
    documented laws as the hypothesis \<open>noble_ok\<close> (lengths and the hexadecimal codec; nothing is assumed about
    collisions: soundness theorems end in ``or these two concrete byte strings collide'').
  \<^item> \<open>MerkleTree\<close>, \<open>MerkleVerify\<close>: merkle/src/rfc6962-merkle-tree.ts, the object with its caches, proof generation
    and verification.  \<open>MerkleCorrect\<close>, \<open>MerkleProofs\<close>, \<open>ConsistencyProofs\<close>: the reference tree hash, and
    completeness and soundness of both kinds of proof.  \<open>MerkleLog\<close>: the object as an append-only log; the locale
    \<open>append_log\<close> is what a client relies on, interpreted on the tree.
  \<^item> \<open>BulletinBoard\<close>: domain/src/lib/bulletin/simple-bulletin-board.ts, the client of the log.
  \<^item> \<open>Contract\<close>: zkvm-contract/src/zkvm/types.ts and its helpers: vote commitments, the canonical encoding of the
    public input and its commitment; the locale \<open>prefix_code\<close> composes injective encodings.
  \<^item> \<open>Bitmap\<close>, \<open>BitmapProofs\<close>: the bitmap of counted votes, its tree and its proofs.

  \<^bold>\<open>Evidence and verdict.\<close>
  \<^item> \<open>Journal\<close>: zkvm-contract/src/zkvm/journal-guards.ts and public-journal.ts, the accounting of vote slots.
  \<^item> \<open>PublicInput\<close>, \<open>PublicInputStore\<close>: verification/src/verification/public-input-contract.ts.
  \<^item> \<open>Checks\<close>, \<open>Evidence\<close>, \<open>Evaluate\<close>: the catalogue of checks, the evidence with its admission, and every resolver of
    engine/evaluate-checks.ts.  \<open>Stages\<close>: the projection to checks and steps.  \<open>Summary\<close>: the overall verdict.
  \<^item> \<open>Engine\<close>, \<open>CountedChecks\<close>, \<open>StageProofs\<close>, \<open>EndToEnd\<close>: what a successful check, step and summary mean.
    \<open>VerifiedExample\<close>: an election in which every check succeeds, built by the program's own builders.
  \<^item> \<open>Presentation\<close>: verification/src/verification/verification-presentation-policy.ts, from the summary to what is shown, and the
    recomputations that admit a published presentation.  \<open>PresentationProofs\<close>: the label \<open>fully verified\<close> is shown exactly when it
    is earned, and an accepted publication cannot claim it otherwise.

  \<^bold>\<open>Voting.\<close>
  \<^item> \<open>VotingSession\<close>: the voting phase of a session.  The canonical state of its log and the staging of vote writes
    (domain/src/lib/bulletin/ctSessionState.ts, stagedCtVoteWrite.ts), the replay of the user's vote and the policy of vote mutations
    (application/src/session).  \<open>VotingProofs\<close>: the invariant of a session and that every mutation keeps it.
  \<^item> \<open>VoteStore\<close>: the session store in memory (aws-adapters/src/store/mockSessionStore.ts, session-vote-writes.ts, ct-proof.ts and the
    identities of domain/src/types/sessionRecords.ts).  \<open>VoteStoreProofs\<close>: the calls of the store as a step relation, interpreted as an
    invariant system and a monotone system.  \<open>SessionGuarantees\<close>: what holds in every reachable store.
  \<^item> \<open>InputBuilder\<close>: application/src/zkvm-input/input-builder.ts, the input of the tally.  \<open>SessionTally\<close>: the composition of the store,
    the input builder and the executor counts every stored vote.

  \<^bold>\<open>Execution.\<close>
  \<^item> \<open>TallyExecution\<close>: zkvm-contract/src/zkvm/wire-numeric-preflight.ts and work-budget.ts, the executor of
    node-adapters/src/zkvm/mock-executor.ts and the admission of its journal: which votes are counted.

  \<^bold>\<open>Finalization.\<close>
  \<^item> \<open>FinalizationStorage\<close>, \<open>FinalizationResult\<close>: application/src/finalize/finalization-types.ts, finalization-id.ts,
    finalization-storage.ts and finalization-record.ts: the stored values and the codec of records.
  \<^item> \<open>FinalizationPolicy\<close>: finalization-transition-policy.ts, the lifecycle state machine.  \<open>FinalizationLifecycle\<close>: exactly when
    a command is applied, the invariant of the records it produces, and that a terminal record is final.
  \<^item> \<open>FinalizationCodec\<close>: every part of a record, and the record, is read back from its encoding.
  \<^item> \<open>FinalizationCoordinator\<close>: finalization-transition-coordinator.ts over an arbitrary revisioned store; its loop ends.
  \<^item> \<open>FinalizationStore\<close>: the commands of finalization-store.ts and the store over maps of aws-adapters/src/store
    (mapped-session-records.ts and the finalization part of mockSessionStore.ts); it refines the lifecycle policy per session.
  \<^item> \<open>Reconciliation\<close>: reconcile-finalization.ts over that store: it only ends unfinished attempts, and ends every one
    whose execution is over.

  \<^bold>\<open>Interaction.\<close>  The store holds a session's votes and its bulletin board, and the policy of vote mutations appends to
  both; the input of the tally is read from them and executed.  The bulletin board calls the tree; the engine calls the tree's verifiers, the bitmap verifier and
  the digests of the contract; the summary reads the checks the engine projects and the presentation the summary; a finalization result contains
  the journal and the public input.  The theorem of this theory composes them: from a fully verified summary
  back to the vote in the log and in the bitmap.

  \<^bold>\<open>Bounds.\<close>  No definition uses fuel: loops are structural, or terminate by a measure proved with them.  Strings are
  lists of 8-bit characters; \<^verbatim>\<open>trim\<close> and the case conversions treat these.  Finite numbers are exact rationals.

  \<^bold>\<open>Not modelled.\<close>  The web application and the API handlers (user interface and HTTP plumbing over the modelled
  packages), the AWS and Node adapters (databases, queues, processes; of the stores only the one in memory, and of it identities,
  votes and finalization records), deployment authority, infrastructure and
  scripts (tooling around the program), runtime configuration, diagnostics beyond the registered reasons, the
  API contract's tables of schemas, the Rust guest, host and verifier service, and tests.  The component list of
  the manifest gives a reason for each.
\<close>

section \<open>From the summary to the log\<close>

text \<open>C1: what \<open>fully_verified\<close> means, end to end.  Suppose the engine evaluated the evidence, the checks were
  projected, the voter's own checks laid over them and the summary of the result is fully verified; suppose
  further that the published root is the root of a log \<open>ds\<close>, the published size its length, and the
  journal's bitmap root the root of a bitmap of that length.  Then the external verifier reported success
  (not development mode), no slot was excluded, and the receipt names a position of the log where the voter's
  commitment is recorded and whose bit is set, or a hash collision can be read off the evidence and the
  published data.\<close>

theorem fully_verified_end_to_end:
  assumes "noble_ok N" "evaluateVerificationCheckResults N inp src None = Inr checks"
    "overlayLocalCastChecks (buildVerificationChecksFromResults inp src checks) lr = Some cs"
    "deriveVerificationSummary (Some cs) ctx = Some r" "sum_status r = fully_verified"
    "in_bulletinRoot inp = Some br" "normalizeHexString br = bytesToHex N (mth_spec N ds)"
    "in_treeSize inp = Some (js_int (int (length ds)))" "length ds < 2 ^ 32"
    "in_journal inp = Some j" "j_treeSize j = js_int (int (length ds))" "length bitmap = length ds"
    "j_includedBitmapRoot j = computeIncludedBitmapRootHex N bitmap"
  shows "(\<exists>oc. inp_verifierOutcome inp = Some oc \<and> vo_status oc = VSuccess) \<and>
    j_excludedSlots j = Some (js_int 0) \<and>
    (\<exists>receipt c i. in_voteReceipt inp = Some receipt \<and> Option.bind (in_userVote inp) uv_commitment = Some c \<and>
      rc_bulletinIndex receipt = js_int (int i) \<and> i < length ds \<and>
      (leaf_bytes N (normalizeHexString c) = ds ! i \<and> bitmap ! i \<or>
       collides N (voter_preimages N inp (int (length ds))) (published_preimages N ds bitmap i)))"
proof (intro conjI)
  note ok = fully_verified_checks [OF assms(3-5)]
  note ev = assms(2) [unfolded evaluateVerificationCheckResults_def]
  show "\<exists>oc. inp_verifierOutcome inp = Some oc \<and> vo_status oc = VSuccess"
    using verified_proof_needed [OF ev _ ok(5)] ok(6) by (auto simp: usesDevModeEvidence_def)
  obtain r where "evaluateSelectedCheck N (admitVerificationEvidence inp) (runtime_of N inp None) counted_missing_indices_zero = Inr r"
      "res_status r = Success"
    using evaluated [OF ev ok(4)] by blast
  then have "res_status (resolveCountedMissingIndicesZero (Some j) (in_missingSlots inp) (in_invalidPresentedSlots inp)
      (in_excludedSlots inp) (zkGateStatus (runtime_of N inp None))) = Success"
    using assms(10) by (simp add: selected)
  then show "j_excludedSlots j = Some (js_int 0)" by (rule missing_success)
  show "\<exists>receipt c i. in_voteReceipt inp = Some receipt \<and> Option.bind (in_userVote inp) uv_commitment = Some c \<and>
      rc_bulletinIndex receipt = js_int (int i) \<and> i < length ds \<and>
      (leaf_bytes N (normalizeHexString c) = ds ! i \<and> bitmap ! i \<or>
       collides N (voter_preimages N inp (int (length ds))) (published_preimages N ds bitmap i))"
    using recorded_and_counted [OF assms(1) ev ok(1-3) assms(6-13)] .
qed

theorem fully_verified_end_to_end_witness:
  "\<exists>inp. (\<exists>oc. inp_verifierOutcome inp = Some oc \<and> vo_status oc = VSuccess) \<and>
    (\<exists>j. in_journal inp = Some j \<and> j_excludedSlots j = Some (js_int 0)) \<and>
    (\<exists>receipt c i. in_voteReceipt inp = Some receipt \<and> Option.bind (in_userVote inp) uv_commitment = Some c \<and>
      rc_bulletinIndex receipt = js_int (int i) \<and> i < length demo_log \<and>
      (leaf_bytes demo_noble (normalizeHexString c) = demo_log ! i \<and> full_bitmap ! i \<or>
       collides demo_noble (voter_preimages demo_noble inp (int (length demo_log))) (published_preimages demo_noble demo_log full_bitmap i)))"
proof -
  obtain c where c: "full_statement c" using full_statement_exists by blast
  obtain r where r: "deriveVerificationSummary (Some full_projection) None = Some r" "sum_status r = fully_verified"
    using full_summary by blast
  have f: "in_bulletinRoot (full_input c) = Some demo_root" "normalizeHexString demo_root = bytesToHex demo_noble (mth_spec demo_noble demo_log)"
    "in_treeSize (full_input c) = Some (js_int (int (length demo_log)))" "length demo_log < 2 ^ 32"
    "in_journal (full_input c) = Some (full_journal c)" "j_treeSize (full_journal c) = js_int (int (length demo_log))"
    "length full_bitmap = length demo_log"
    "j_includedBitmapRoot (full_journal c) = computeIncludedBitmapRootHex demo_noble full_bitmap"
    by (simp_all add: full_input_simps full_bitmap_def demo_log_def) (simp add: demo_root_def demo_log_def)
  from fully_verified_end_to_end [OF demo_noble_ok full_evaluation [OF c] full_overlay r f] f(5) show ?thesis by blast
qed

end
